(* ===== verification/Py_Prelude.thy ===== *)
theory Py_Prelude
  imports Complex_Main "HOL-Library.Char_ord" "HOL-Library.List_Lexorder"
    "HOL-Library.AList"
begin

text \<open>
  Shared vocabulary of the development: Python results as values of a sum type, Python values
  whose dynamic type the code inspects (\<open>type(x) is int\<close>, \<open>isinstance(x, str)\<close>), strings,
  dictionaries in insertion order, POSIX paths as \<^verbatim>\<open>pathlib\<close> compares them, and the generic
  lemmas the components share.

  A Python \<^verbatim>\<open>str\<close> is modelled by a HOL \<open>string\<close>, one \<open>char\<close> per code point, so the strings
  covered are those over the code points 0 to 255; on that alphabet \<open>is_space\<close> and \<open>lower\<close> agree
  with \<^verbatim>\<open>str.isspace\<close> and \<^verbatim>\<open>str.lower\<close>.
\<close>

named_theorems res_simps \<open>rewrite rules for results (bind and the error monad)\<close>
named_theorems dict_simps \<open>rewrite rules for insertion-ordered dictionaries\<close>
named_theorems raises_rules \<open>rules for the exceptions a computation can raise\<close>
named_theorems path_simps \<open>rewrite rules for lexical path containment\<close>

section \<open>Exceptions and results\<close>

text \<open>
  The exceptions the modelled modules raise. Where the source class carries a stable \<open>code\<close>
  (\<^verbatim>\<open>RoleError\<close>, \<^verbatim>\<open>LeaseError\<close>, \<^verbatim>\<open>ConclusionError\<close>, \<^verbatim>\<open>AutonomyError\<close>) the model keeps that code; where it carries an
  English message the model keeps the message or its fixed part.
\<close>

datatype exc =
    RoleError string
  | LeaseError string
  | LeaseBusy "string list" string
  | ConclusionError string
  | PolicyValidationError string
  | NetworkLeaseValidationError string
  | NetworkLeaseApprovalDenied string
  | NetworkLeaseConnectionCloseError nat
  | NetworkDestinationError string
  | ConnectRequestError string
  | RouteError string
  | TicketError
  | AutonomyError string
  | WorkspaceBusyError
  | WorkspaceError
  | PyValueError string
  | PyTypeError string
  | PyKeyError
  | PyOSError
  | PyOverflowError
  | PyRuntimeError string
  | PyRecursionError
  | FileSizeLimitExceeded
  | HashReadBudgetExceeded
  | RunnerProtocolError string

type_synonym 'a res = "exc + 'a"

definition bindr :: "'a res \<Rightarrow> ('a \<Rightarrow> 'b res) \<Rightarrow> 'b res" where
  "bindr m f = (case m of Inl e \<Rightarrow> Inl e | Inr x \<Rightarrow> f x)"

lemma bindr_simps [simp, res_simps]:
  "bindr (Inl e) f = Inl e"
  "bindr (Inr x) f = f x"
  by (simp_all add: bindr_def)

lemma bindr_eq_Inr_iff [simp, res_simps]:
  "bindr m f = Inr y \<longleftrightarrow> (\<exists>x. m = Inr x \<and> f x = Inr y)"
  by (cases m) simp_all

lemma bindr_eq_Inl_iff [res_simps]:
  "bindr m f = Inl e \<longleftrightarrow> m = Inl e \<or> (\<exists>x. m = Inr x \<and> f x = Inl e)"
  by (cases m) simp_all

lemma bindr_assoc: "bindr (bindr m f) g = bindr m (\<lambda>x. bindr (f x) g)"
  by (cases m) simp_all

lemma bindr_Inr_right [simp]: "bindr m Inr = m"
  by (cases m) simp_all

text \<open>The first error of a sequence of checks, as a Python \<^verbatim>\<open>for\<close> loop that raises finds it.\<close>

fun first_err :: "unit res list \<Rightarrow> unit res" where
  "first_err [] = Inr ()"
| "first_err (m # ms) = bindr m (\<lambda>_. first_err ms)"

lemma first_err_Inr_iff [simp]: "first_err ms = Inr u \<longleftrightarrow> (\<forall>m\<in>set ms. m = Inr ())"
  by (induction ms) auto

lemma first_err_Inl_mem: "first_err ms = Inl e \<Longrightarrow> Inl e \<in> set ms"
  by (induction ms) (auto simp: bindr_eq_Inl_iff)

definition raise_when :: "bool \<Rightarrow> exc \<Rightarrow> unit res" where
  "raise_when b e = (if b then Inl e else Inr ())"

lemma raise_when_Inr [simp]: "raise_when b e = Inr u \<longleftrightarrow> \<not> b"
  by (simp add: raise_when_def)

lemma raise_when_Inl [simp]: "raise_when b e = Inl e' \<longleftrightarrow> b \<and> e' = e"
  by (auto simp: raise_when_def)

text \<open>The exceptions a computation can raise, with rules that follow its structure.\<close>

definition raises_only :: "exc set \<Rightarrow> 'a res \<Rightarrow> bool" where
  "raises_only E m \<longleftrightarrow> (\<forall>e. m = Inl e \<longrightarrow> e \<in> E)"

lemma raises_only_Inl [raises_rules]: "e \<in> E \<Longrightarrow> raises_only E (Inl e)"
  by (simp add: raises_only_def)

lemma raises_only_Inr [raises_rules]: "raises_only E (Inr x)"
  by (simp add: raises_only_def)

lemma raises_only_bindr [raises_rules]:
  "raises_only E m \<Longrightarrow> (\<And>x. m = Inr x \<Longrightarrow> raises_only E (f x)) \<Longrightarrow> raises_only E (bindr m f)"
  by (cases m) (simp_all add: raises_only_def)

lemma raises_only_if [raises_rules]:
  "(b \<Longrightarrow> raises_only E m) \<Longrightarrow> (\<not> b \<Longrightarrow> raises_only E m') \<Longrightarrow> raises_only E (if b then m else m')"
  by simp

lemma raises_only_option [raises_rules]:
  "(x = None \<Longrightarrow> raises_only E m) \<Longrightarrow> (\<And>y. x = Some y \<Longrightarrow> raises_only E (f y)) \<Longrightarrow>
    raises_only E (case x of None \<Rightarrow> m | Some y \<Rightarrow> f y)"
  by (cases x) simp_all

lemma raises_only_raise_when [raises_rules]: "(b \<Longrightarrow> e \<in> E) \<Longrightarrow> raises_only E (raise_when b e)"
  by (simp add: raises_only_def)

lemma raises_only_first_err [raises_rules]:
  "(\<And>m. m \<in> set ms \<Longrightarrow> raises_only E m) \<Longrightarrow> raises_only E (first_err ms)"
  using first_err_Inl_mem by (auto simp: raises_only_def)

lemma raises_onlyD: "raises_only E m \<Longrightarrow> m = Inl e \<Longrightarrow> e \<in> E"
  by (simp add: raises_only_def)

section \<open>Characters and strings\<close>

abbreviation (input) code_of :: "char \<Rightarrow> nat" where
  "code_of c \<equiv> of_char c"

definition is_space :: "char \<Rightarrow> bool" where
  "is_space c \<longleftrightarrow> (let n = (of_char c :: nat) in
     9 \<le> n \<and> n \<le> 13 \<or> 28 \<le> n \<and> n \<le> 32 \<or> n = 133 \<or> n = 160)"

definition is_digit :: "char \<Rightarrow> bool" where
  "is_digit c \<longleftrightarrow> (let n = (of_char c :: nat) in 48 \<le> n \<and> n \<le> 57)"

definition is_lower_letter :: "char \<Rightarrow> bool" where
  "is_lower_letter c \<longleftrightarrow> (let n = (of_char c :: nat) in 97 \<le> n \<and> n \<le> 122)"

definition is_upper_letter :: "char \<Rightarrow> bool" where
  "is_upper_letter c \<longleftrightarrow> (let n = (of_char c :: nat) in 65 \<le> n \<and> n \<le> 90)"

definition is_letter :: "char \<Rightarrow> bool" where
  "is_letter c \<longleftrightarrow> is_lower_letter c \<or> is_upper_letter c"

definition is_ascii :: "char \<Rightarrow> bool" where
  "is_ascii c \<longleftrightarrow> (of_char c :: nat) < 128"

text \<open>A code point that UTF-8 can encode: not a surrogate.\<close>

definition is_scalar :: "char \<Rightarrow> bool" where
  "is_scalar c \<longleftrightarrow> \<not> (55296 \<le> (of_char c :: nat) \<and> (of_char c :: nat) \<le> 57343)"

definition is_ascii_control :: "char \<Rightarrow> bool" where
  "is_ascii_control c \<longleftrightarrow> (of_char c :: nat) < 32 \<or> (of_char c :: nat) = 127"

text \<open>\<^verbatim>\<open>str.lower\<close> on the code points 0 to 255: A-Z and the accented capitals except the
  multiplication sign.\<close>

definition lower_char :: "char \<Rightarrow> char" where
  "lower_char c = (let n = (of_char c :: nat) in
     if 65 \<le> n \<and> n \<le> 90 \<or> 192 \<le> n \<and> n \<le> 222 \<and> n \<noteq> 215 then char_of (n + 32) else c)"

definition lower :: "string \<Rightarrow> string" where
  "lower s = map lower_char s"

definition lstrip :: "string \<Rightarrow> string" where
  "lstrip s = dropWhile is_space s"

definition strip :: "string \<Rightarrow> string" where
  "strip s = rev (dropWhile is_space (rev (lstrip s)))"

definition strip_of :: "(char \<Rightarrow> bool) \<Rightarrow> string \<Rightarrow> string" where
  "strip_of P s = rev (dropWhile P (rev (dropWhile P s)))"

definition starts_with :: "string \<Rightarrow> string \<Rightarrow> bool" where
  "starts_with p s = (take (length p) s = p)"

definition ends_with :: "string \<Rightarrow> string \<Rightarrow> bool" where
  "ends_with p s = starts_with (rev p) (rev s)"

text \<open>\<^verbatim>\<open>sub in s\<close> for strings.\<close>

fun contains :: "string \<Rightarrow> string \<Rightarrow> bool" where
  "contains sub [] = (sub = [])"
| "contains sub (c # s) = (starts_with sub (c # s) \<or> contains sub s)"

text \<open>\<^verbatim>\<open>s.split(c)\<close> for a one-character separator.\<close>

fun split_on :: "char \<Rightarrow> string \<Rightarrow> string list" where
  "split_on c [] = [[]]"
| "split_on c (x # xs) =
     (if x = c then [] # split_on c xs
      else (case split_on c xs of [] \<Rightarrow> [[x]] | y # ys \<Rightarrow> (x # y) # ys))"

text \<open>\<^verbatim>\<open>s.split()\<close>: maximal runs of non-space characters.\<close>

fun split_ws_aux :: "string \<Rightarrow> string \<Rightarrow> string list" where
  "split_ws_aux acc [] = (if acc = [] then [] else [rev acc])"
| "split_ws_aux acc (x # xs) =
     (if is_space x then (if acc = [] then split_ws_aux [] xs else rev acc # split_ws_aux [] xs)
      else split_ws_aux (x # acc) xs)"

definition split_ws :: "string \<Rightarrow> string list" where
  "split_ws s = split_ws_aux [] s"

fun join :: "string \<Rightarrow> string list \<Rightarrow> string" where
  "join sep [] = []"
| "join sep [x] = x"
| "join sep (x # y # ys) = x @ sep @ join sep (y # ys)"

definition replace_char :: "char \<Rightarrow> char \<Rightarrow> string \<Rightarrow> string" where
  "replace_char a b s = map (\<lambda>c. if c = a then b else c) s"

text \<open>Decimal text of integers: \<^verbatim>\<open>str(n)\<close>, and \<^verbatim>\<open>int(s)\<close> on optionally space-padded ASCII digits.\<close>

definition digit_char :: "nat \<Rightarrow> char" where
  "digit_char d = char_of (48 + d)"

fun string_of_nat :: "nat \<Rightarrow> string" where
  "string_of_nat n = (if n < 10 then [digit_char n] else string_of_nat (n div 10) @ [digit_char (n mod 10)])"

declare string_of_nat.simps [simp del]

definition string_of_int :: "int \<Rightarrow> string" where
  "string_of_int i = (if i < 0 then CHR ''-'' # string_of_nat (nat (- i)) else string_of_nat (nat i))"

definition digit_val :: "char \<Rightarrow> nat" where
  "digit_val c = of_char c - 48"

definition nat_of_digits :: "string \<Rightarrow> nat" where
  "nat_of_digits s = foldl (\<lambda>n c. 10 * n + digit_val c) 0 s"

definition py_int :: "string \<Rightarrow> int option" where
  "py_int s = (let t = strip s in
     if t \<noteq> [] \<and> list_all is_digit t then Some (int (nat_of_digits t)) else None)"

lemma char_eq_iff_code: "c = d \<longleftrightarrow> (of_char c :: nat) = of_char d"
  by simp

lemma of_char_digit_char [simp]: "d < 10 \<Longrightarrow> of_char (digit_char d) = 48 + d"
  by (simp add: digit_char_def of_char_of take_bit_nat_def)

lemma is_digit_digit_char [simp]: "d < 10 \<Longrightarrow> is_digit (digit_char d)"
  by (simp add: is_digit_def)

lemma digit_val_digit_char [simp]: "d < 10 \<Longrightarrow> digit_val (digit_char d) = d"
  by (simp add: digit_val_def)

lemma string_of_nat_nonempty [simp]: "string_of_nat n \<noteq> []"
  by (subst string_of_nat.simps) simp

lemma string_of_nat_digits: "list_all is_digit (string_of_nat n)"
proof (induction n rule: string_of_nat.induct)
  case (1 n)
  then show ?case by (subst string_of_nat.simps) auto
qed

lemma nat_of_digits_snoc: "nat_of_digits (s @ [c]) = 10 * nat_of_digits s + digit_val c"
  by (simp add: nat_of_digits_def)

lemma nat_of_digits_string_of_nat [simp]: "nat_of_digits (string_of_nat n) = n"
proof (induction n rule: string_of_nat.induct)
  case (1 n)
  show ?case
  proof (cases "n < 10")
    case True
    then show ?thesis by (subst string_of_nat.simps) (simp add: nat_of_digits_def)
  next
    case False
    with 1 have "nat_of_digits (string_of_nat (n div 10)) = n div 10" by simp
    with False show ?thesis
      by (subst string_of_nat.simps) (simp add: nat_of_digits_snoc)
  qed
qed

lemma string_of_nat_inj [simp]: "string_of_nat m = string_of_nat n \<longleftrightarrow> m = n"
  by (metis nat_of_digits_string_of_nat)

lemma is_digit_not_space: "is_digit c \<Longrightarrow> \<not> is_space c"
  by (auto simp: is_digit_def is_space_def Let_def)

lemma dropWhile_none: "list_all (\<lambda>x. \<not> P x) xs \<Longrightarrow> dropWhile P xs = xs"
  by (cases xs) auto

lemma strip_no_space: "list_all (\<lambda>x. \<not> is_space x) s \<Longrightarrow> strip s = s"
  by (simp add: strip_def lstrip_def dropWhile_none)

lemma py_int_string_of_nat [simp]: "py_int (string_of_nat n) = Some (int n)"
proof -
  have d: "list_all is_digit (string_of_nat n)" by (rule string_of_nat_digits)
  then have "strip (string_of_nat n) = string_of_nat n"
    by (intro strip_no_space) (auto simp: list_all_iff dest: is_digit_not_space)
  with d show ?thesis by (simp add: py_int_def)
qed

lemma string_of_int_inj [simp]: "string_of_int i = string_of_int j \<longleftrightarrow> i = j"
proof -
  have no_minus: "string_of_nat n \<noteq> CHR ''-'' # xs" for n xs
    using string_of_nat_digits [of n] by (auto simp: is_digit_def Let_def)
  show ?thesis
    using no_minus no_minus [symmetric] by (auto simp: string_of_int_def)
qed

text \<open>Splitting and joining are inverse when no piece holds the separator.\<close>

lemma split_on_nonempty [simp]: "split_on c s \<noteq> []"
  by (induction s) (auto split: list.splits)

lemma split_on_no_sep: "c \<notin> set s \<Longrightarrow> split_on c s = [s]"
  by (induction s) auto

lemma split_on_append: "c \<notin> set s \<Longrightarrow> split_on c (s @ c # t) = s # split_on c t"
  by (induction s) auto

lemma split_on_join:
  "xs \<noteq> [] \<Longrightarrow> \<forall>x\<in>set xs. c \<notin> set x \<Longrightarrow> split_on c (join [c] xs) = xs"
proof (induction "[c]" xs rule: join.induct)
  case (2 x)
  then show ?case by (simp add: split_on_no_sep)
next
  case (3 x y ys)
  then show ?case by (simp add: split_on_append)
qed simp

lemma split_on_pieces: "x \<in> set (split_on c s) \<Longrightarrow> c \<notin> set x"
proof (induction s arbitrary: x)
  case (Cons a s)
  show ?case
  proof (cases "a = c")
    case False
    obtain y ys where y: "split_on c s = y # ys" by (cases "split_on c s") auto
    with Cons.prems False have "x = a # y \<or> x \<in> set ys" by auto
    with Cons.IH y False show ?thesis by auto
  qed (use Cons in auto)
qed simp

lemma join_split_on: "join [c] (split_on c s) = s"
proof (induction s)
  case (Cons a s)
  then show ?case
    by (cases "split_on c s"; cases "tl (split_on c s)") (auto split: list.splits)
qed simp

lemma join_snoc: "xs \<noteq> [] \<Longrightarrow> join sep (xs @ [x]) = join sep xs @ sep @ x"
  by (induction sep xs rule: join.induct) auto

lemma lower_char_idem [simp]: "lower_char (lower_char c) = lower_char c"
proof -
  have c: "(of_char c :: nat) < 256" by (rule nat_of_char_less_256)
  show ?thesis
    using c by (auto simp: lower_char_def Let_def of_char_of take_bit_nat_def)
qed

lemma lower_idem [simp]: "lower (lower s) = lower s"
  by (simp add: lower_def)

lemma length_lower [simp]: "length (lower s) = length s"
  by (simp add: lower_def)

lemma strip_Nil_iff: "strip s = [] \<longleftrightarrow> list_all is_space s"
proof -
  have "list_all P (dropWhile P s) \<longleftrightarrow> list_all P s" for P :: "char \<Rightarrow> bool"
    by (induction s) auto
  moreover have "dropWhile P (rev xs) = [] \<longleftrightarrow> list_all P xs" for P :: "char \<Rightarrow> bool" and xs
    by (simp add: dropWhile_eq_Nil_conv list_all_iff)
  ultimately show ?thesis by (simp add: strip_def lstrip_def)
qed

section \<open>Dictionaries and sets\<close>

text \<open>
  A Python dictionary is an association list with distinct keys in insertion order:
  \<open>AList.update\<close> replaces the value of a present key in place and appends a new key at the end,
  as \<^verbatim>\<open>d[k] = v\<close> does; \<open>map_of\<close> is \<^verbatim>\<open>d.get\<close>; \<open>AList.delete\<close> is \<^verbatim>\<open>del d[k]\<close>.
\<close>

type_synonym ('k, 'v) dict = "('k \<times> 'v) list"

abbreviation dict_get :: "('k, 'v) dict \<Rightarrow> 'k \<Rightarrow> 'v option" where
  "dict_get d k \<equiv> map_of d k"

abbreviation dict_set :: "'k \<Rightarrow> 'v \<Rightarrow> ('k, 'v) dict \<Rightarrow> ('k, 'v) dict" where
  "dict_set k v d \<equiv> AList.update k v d"

abbreviation dict_del :: "'k \<Rightarrow> ('k, 'v) dict \<Rightarrow> ('k, 'v) dict" where
  "dict_del k d \<equiv> AList.delete k d"

abbreviation dict_keys :: "('k, 'v) dict \<Rightarrow> 'k list" where
  "dict_keys d \<equiv> map fst d"

definition dict_ok :: "('k, 'v) dict \<Rightarrow> bool" where
  "dict_ok d \<longleftrightarrow> distinct (dict_keys d)"

definition dict_get_or :: "'v \<Rightarrow> ('k, 'v) dict \<Rightarrow> 'k \<Rightarrow> 'v" where
  "dict_get_or v d k = (case dict_get d k of None \<Rightarrow> v | Some w \<Rightarrow> w)"

lemma dict_get_set [simp, dict_simps]:
  "dict_get (dict_set k v d) k' = (if k' = k then Some v else dict_get d k')"
  by (simp add: update_conv)

lemma dict_get_del [simp, dict_simps]:
  "dict_get (dict_del k d) k' = (if k' = k then None else dict_get d k')"
  by (simp add: delete_conv)

lemma dict_get_or_set [simp, dict_simps]:
  "dict_get_or x (dict_set k v d) k' = (if k' = k then v else dict_get_or x d k')"
  by (simp add: dict_get_or_def)

lemma dict_ok_Nil [simp, intro]: "dict_ok []"
  by (simp add: dict_ok_def)

lemma dict_ok_set [simp, intro]: "dict_ok d \<Longrightarrow> dict_ok (dict_set k v d)"
  by (simp add: dict_ok_def distinct_update)

lemma dict_ok_del [simp, intro]: "dict_ok d \<Longrightarrow> dict_ok (dict_del k d)"
  by (simp add: dict_ok_def distinct_delete)

lemma dict_get_mem: "dict_ok d \<Longrightarrow> (k, v) \<in> set d \<longleftrightarrow> dict_get d k = Some v"
  by (simp add: dict_ok_def)

lemma dict_del_set_fresh: "dict_get d k = None \<Longrightarrow> dict_del k (dict_set k v d) = d"
proof (induction d)
  case (Cons p d)
  then show ?case
    by (cases p) (auto simp: map_of_eq_None_iff AList.delete_eq filter_id_conv split: if_splits)
qed (simp add: AList.delete_eq)

text \<open>\<^verbatim>\<open>sorted({...})\<close>: the elements without repetition, in ascending order.\<close>

definition sorted_set :: "'a::linorder list \<Rightarrow> 'a list" where
  "sorted_set xs = sort (remdups xs)"

lemma set_sorted_set [simp]: "set (sorted_set xs) = set xs"
  by (simp add: sorted_set_def)

lemma sorted_sorted_set [simp]: "sorted (sorted_set xs)"
  by (simp add: sorted_set_def)

lemma distinct_sorted_set [simp]: "distinct (sorted_set xs)"
  by (simp add: sorted_set_def)

lemma sorted_set_id: "sorted xs \<Longrightarrow> distinct xs \<Longrightarrow> sorted_set xs = xs"
  by (simp add: sorted_set_def distinct_remdups_id sorted_sort_id)

lemma sorted_set_idem [simp]: "sorted_set (sorted_set xs) = sorted_set xs"
  by (rule sorted_set_id) simp_all

lemma sorted_set_Nil_iff [simp]: "sorted_set xs = [] \<longleftrightarrow> xs = []"
  by (metis set_empty set_sorted_set)

lemma sorted_set_eq_iff: "sorted_set xs = sorted_set ys \<longleftrightarrow> set xs = set ys"
  by (metis distinct_sorted_set set_sorted_set sorted_distinct_set_unique sorted_sorted_set)

section \<open>POSIX paths\<close>

text \<open>
  A \<^verbatim>\<open>pathlib\<close> path is its root (empty for a relative path) and its components.
  \<^verbatim>\<open>p.relative_to(q)\<close> is lexical: it succeeds exactly when the roots agree and the components
  of \<open>q\<close> are a prefix of those of \<open>p\<close>.
\<close>

record ppath =
  path_root :: string
  path_parts :: "string list"

definition is_absolute :: "ppath \<Rightarrow> bool" where
  "is_absolute p \<longleftrightarrow> path_root p \<noteq> []"

definition path_within :: "ppath \<Rightarrow> ppath \<Rightarrow> bool" where
  "path_within child parent \<longleftrightarrow>
     path_root child = path_root parent \<and> take (length (path_parts parent)) (path_parts child) = path_parts parent"

definition path_join :: "ppath \<Rightarrow> string list \<Rightarrow> ppath" where
  "path_join p segs = p\<lparr>path_parts := path_parts p @ segs\<rparr>"

text \<open>\<^verbatim>\<open>str(path)\<close> and \<^verbatim>\<open>Path(text)\<close>: empty and \<^verbatim>\<open>.\<close> components are dropped; exactly two
  leading slashes are a root of their own.\<close>

definition str_path :: "ppath \<Rightarrow> string" where
  "str_path p = (if path_root p = [] \<and> path_parts p = [] then ''.'' else path_root p @ join ''/'' (path_parts p))"

definition parse_path :: "string \<Rightarrow> ppath" where
  "parse_path s =
     \<lparr>path_root = (if starts_with ''//'' s \<and> \<not> starts_with ''///'' s then ''//''
                  else if starts_with ''/'' s then ''/'' else ''''),
      path_parts = filter (\<lambda>x. x \<noteq> [] \<and> x \<noteq> ''.'') (split_on (CHR ''/'') s)\<rparr>"

definition path_wf :: "ppath \<Rightarrow> bool" where
  "path_wf p \<longleftrightarrow> path_root p = ''/'' \<and>
     (\<forall>x\<in>set (path_parts p). x \<noteq> [] \<and> x \<noteq> ''.'' \<and> CHR ''/'' \<notin> set x)"

lemma path_within_refl [simp, path_simps]: "path_within p p"
  by (simp add: path_within_def)

lemma path_within_parts_prefix:
  "path_within c p \<longleftrightarrow> path_root c = path_root p \<and> (\<exists>r. path_parts c = path_parts p @ r)"
  by (auto simp: path_within_def) (metis append_take_drop_id)

lemma path_within_trans: "path_within a b \<Longrightarrow> path_within b c \<Longrightarrow> path_within a c"
  by (auto simp: path_within_parts_prefix)

lemma path_within_join [simp, path_simps]: "path_within (path_join p segs) p"
  by (simp add: path_within_def path_join_def)

lemma path_within_antisym: "path_within a b \<Longrightarrow> path_within b a \<Longrightarrow> a = b"
  by (auto simp: path_within_parts_prefix)

lemma filter_split_str:
  assumes "path_wf p"
  shows "filter (\<lambda>x. x \<noteq> [] \<and> x \<noteq> ''.'') (split_on (CHR ''/'') (join ''/'' (path_parts p))) = path_parts p"
proof (cases "path_parts p = []")
  case False
  with assms have "split_on (CHR ''/'') (join ''/'' (path_parts p)) = path_parts p"
    by (intro split_on_join) (auto simp: path_wf_def)
  with assms show ?thesis by (simp add: path_wf_def filter_id_conv)
qed simp

lemma join_first:
  assumes "path_wf p"
  shows "\<not> starts_with ''/'' (join ''/'' (path_parts p))"
proof (cases "path_parts p")
  case (Cons x xs)
  with assms obtain c t where x: "x = c # t" and c: "c \<noteq> CHR ''/''"
    by (cases x) (auto simp: path_wf_def)
  with Cons show ?thesis by (cases xs) (auto simp: starts_with_def)
qed (simp add: starts_with_def)

lemma parse_str_path: "path_wf p \<Longrightarrow> parse_path (str_path p) = p"
  using filter_split_str [of p] join_first [of p]
  by (cases p) (auto simp: parse_path_def str_path_def path_wf_def starts_with_def)

lemma str_path_inj: "path_wf p \<Longrightarrow> path_wf q \<Longrightarrow> str_path p = str_path q \<longleftrightarrow> p = q"
  by (metis parse_str_path)

section \<open>Dynamically typed values\<close>

text \<open>
  Arguments the code declares as \<^verbatim>\<open>object\<close>, or whose type it checks at run time. Floating-point
  numbers are their exact value, the negative zero or one of the three special ones.
\<close>

datatype pyfloat = Fin rat | NegZero | PosInf | NegInf | NaN

datatype pyval =
    PNone
  | PBool bool
  | PInt int
  | PFloat pyfloat
  | PStr string
  | PBytes string
  | PTuple "pyval list"
  | PList "pyval list"
  | PDict "(pyval \<times> pyval) list"
  | PPath ppath
  | PEnum string string
  | POther nat

fun truthy :: "pyval \<Rightarrow> bool" where
  "truthy PNone = False"
| "truthy (PBool b) = b"
| "truthy (PInt i) = (i \<noteq> 0)"
| "truthy (PFloat f) = (f \<noteq> Fin 0 \<and> f \<noteq> NegZero)"
| "truthy (PStr s) = (s \<noteq> [])"
| "truthy (PBytes s) = (s \<noteq> [])"
| "truthy (PTuple xs) = (xs \<noteq> [])"
| "truthy (PList xs) = (xs \<noteq> [])"
| "truthy (PDict xs) = (xs \<noteq> [])"
| "truthy (PPath p) = True"
| "truthy (PEnum c v) = (v \<noteq> [])"
| "truthy (POther n) = True"

fun as_str :: "pyval \<Rightarrow> string option" where
  "as_str (PStr s) = Some s"
| "as_str _ = None"

fun as_int :: "pyval \<Rightarrow> int option" where
  "as_int (PInt i) = Some i"
| "as_int _ = None"

fun as_path :: "pyval \<Rightarrow> ppath option" where
  "as_path (PPath p) = Some p"
| "as_path _ = None"

lemma as_str_Some [simp]: "as_str v = Some s \<longleftrightarrow> v = PStr s"
  by (cases v) auto

lemma as_int_Some [simp]: "as_int v = Some i \<longleftrightarrow> v = PInt i"
  by (cases v) auto

lemma as_path_Some [simp]: "as_path v = Some p \<longleftrightarrow> v = PPath p"
  by (cases v) auto

text \<open>All elements through a partial conversion, or \<open>None\<close> when one fails.\<close>

fun map_opt :: "('a \<Rightarrow> 'b option) \<Rightarrow> 'a list \<Rightarrow> 'b list option" where
  "map_opt f [] = Some []"
| "map_opt f (x # xs) =
     (case f x of None \<Rightarrow> None | Some y \<Rightarrow> map_option (\<lambda>ys. y # ys) (map_opt f xs))"

lemma map_opt_as_str [simp]: "map_opt as_str xs = Some ys \<longleftrightarrow> xs = map PStr ys"
  by (induction xs arbitrary: ys) (auto split: option.splits)

lemma map_opt_as_path [simp]: "map_opt as_path xs = Some ys \<longleftrightarrow> xs = map PPath ys"
  by (induction xs arbitrary: ys) (auto split: option.splits)

lemma map_PStr_eq [simp]: "map PStr xs = map PStr ys \<longleftrightarrow> xs = ys"
  by (rule inj_map_eq_map) (auto intro: injI)

lemma map_opt_as_str_map [simp]: "map_opt as_str (map PStr xs) = Some xs"
  by simp

lemma map_opt_length: "map_opt f xs = Some ys \<Longrightarrow> length ys = length xs"
  by (induction xs arbitrary: ys) (auto split: option.splits)

lemma map_opt_mem: "map_opt f xs = Some ys \<Longrightarrow> y \<in> set ys \<longleftrightarrow> (\<exists>x\<in>set xs. f x = Some y)"
  by (induction xs arbitrary: ys) (auto split: option.splits)

lemma map_opt_map: "(\<And>x. x \<in> set xs \<Longrightarrow> f x = Some (g x)) \<Longrightarrow> map_opt f xs = Some (map g xs)"
  by (induction xs) auto

end
