(* ===== verification/Py_Regex.thy ===== *)
theory Py_Regex
  imports Py_Prelude
begin

text \<open>
  The fragment of Python's \<^verbatim>\<open>re\<close> that the modelled modules use: character classes, sequence,
  alternation, star, bounded repetition and the zero-width assertions \<^verbatim>\<open>\b\<close>, \<^verbatim>\<open>$\<close> and
  \<^verbatim>\<open>\Z\<close>. Matching works on positions of the subject string, because assertions look at the
  characters around a position. \<open>ends s r i\<close> computes every position at which a match of \<open>r\<close>
  that starts at \<open>i\<close> can stop; \<^verbatim>\<open>match\<close>, \<^verbatim>\<open>fullmatch\<close> and \<^verbatim>\<open>search\<close> only ask whether such a
  position exists, which does not depend on Python's backtracking order. The computation is proved
  equivalent to the inductive relation \<open>rmatch\<close>.
\<close>

datatype regex =
    REps
  | RCls "char \<Rightarrow> bool"
  | RSeq regex regex
  | RAlt regex regex
  | RStar regex
  | RWordB
  | RDollar
  | REndZ

text \<open>\<^verbatim>\<open>\w\<close> over the code points 0 to 255.\<close>

definition is_word :: "char \<Rightarrow> bool" where
  "is_word c \<longleftrightarrow> (let n = (of_char c :: nat) in
     48 \<le> n \<and> n \<le> 57 \<or> 65 \<le> n \<and> n \<le> 90 \<or> 97 \<le> n \<and> n \<le> 122 \<or> n = 95
     \<or> n \<in> {170, 178, 179, 181, 185, 186, 188, 189, 190}
     \<or> 192 \<le> n \<and> n \<noteq> 215 \<and> n \<noteq> 247)"

definition word_at :: "string \<Rightarrow> nat \<Rightarrow> bool" where
  "word_at s i \<longleftrightarrow> i < length s \<and> is_word (s ! i)"

definition word_boundary :: "string \<Rightarrow> nat \<Rightarrow> bool" where
  "word_boundary s i \<longleftrightarrow> (0 < i \<and> word_at s (i - 1)) \<noteq> word_at s i"

text \<open>\<^verbatim>\<open>$\<close> without \<^verbatim>\<open>re.MULTILINE\<close>: the end, or just before a newline that ends the string.\<close>

definition dollar_at :: "string \<Rightarrow> nat \<Rightarrow> bool" where
  "dollar_at s i \<longleftrightarrow> i = length s \<or> Suc i = length s \<and> s ! i = CHR 10"

inductive rmatch :: "string \<Rightarrow> regex \<Rightarrow> nat \<Rightarrow> nat \<Rightarrow> bool" for s where
  m_eps: "rmatch s REps i i"
| m_cls: "i < length s \<Longrightarrow> P (s ! i) \<Longrightarrow> rmatch s (RCls P) i (Suc i)"
| m_seq: "rmatch s a i j \<Longrightarrow> rmatch s b j k \<Longrightarrow> rmatch s (RSeq a b) i k"
| m_altl: "rmatch s a i j \<Longrightarrow> rmatch s (RAlt a b) i j"
| m_altr: "rmatch s b i j \<Longrightarrow> rmatch s (RAlt a b) i j"
| m_star0: "rmatch s (RStar r) i i"
| m_star: "rmatch s r i j \<Longrightarrow> rmatch s (RStar r) j k \<Longrightarrow> rmatch s (RStar r) i k"
| m_wordb: "word_boundary s i \<Longrightarrow> rmatch s RWordB i i"
| m_dollar: "dollar_at s i \<Longrightarrow> rmatch s RDollar i i"
| m_endz: "i = length s \<Longrightarrow> rmatch s REndZ i i"

inductive_simps rmatch_simps [simp]:
  "rmatch s REps i j"
  "rmatch s (RCls P) i j"
  "rmatch s (RSeq a b) i j"
  "rmatch s (RAlt a b) i j"
  "rmatch s RWordB i j"
  "rmatch s RDollar i j"
  "rmatch s REndZ i j"

inductive_cases rmatch_starE: "rmatch s (RStar r) i j"

text \<open>Star as a search over strictly advancing positions; \<open>length s - i\<close> steps are enough.\<close>

fun star_ends :: "(nat \<Rightarrow> nat list) \<Rightarrow> nat \<Rightarrow> nat \<Rightarrow> nat list" where
  "star_ends f 0 i = [i]"
| "star_ends f (Suc n) i = remdups (i # concat (map (star_ends f n) (filter (\<lambda>j. i < j) (f i))))"

primrec ends :: "string \<Rightarrow> regex \<Rightarrow> nat \<Rightarrow> nat list" where
  "ends s REps = (\<lambda>i. [i])"
| "ends s (RCls P) = (\<lambda>i. if i < length s \<and> P (s ! i) then [Suc i] else [])"
| "ends s (RSeq a b) = (\<lambda>i. remdups (concat (map (ends s b) (ends s a i))))"
| "ends s (RAlt a b) = (\<lambda>i. remdups (ends s a i @ ends s b i))"
| "ends s (RStar r) = (\<lambda>i. star_ends (ends s r) (length s - i) i)"
| "ends s RWordB = (\<lambda>i. if word_boundary s i then [i] else [])"
| "ends s RDollar = (\<lambda>i. if dollar_at s i then [i] else [])"
| "ends s REndZ = (\<lambda>i. if i = length s then [i] else [])"

definition re_match :: "regex \<Rightarrow> string \<Rightarrow> bool" where
  "re_match r s \<longleftrightarrow> ends s r 0 \<noteq> []"

definition re_fullmatch :: "regex \<Rightarrow> string \<Rightarrow> bool" where
  "re_fullmatch r s \<longleftrightarrow> length s \<in> set (ends s r 0)"

definition re_search :: "regex \<Rightarrow> string \<Rightarrow> bool" where
  "re_search r s \<longleftrightarrow> list_ex (\<lambda>i. ends s r i \<noteq> []) [0..<Suc (length s)]"

section \<open>The computation agrees with the relation\<close>

lemma rmatch_mono: "rmatch s r i j \<Longrightarrow> i \<le> j"
  by (induction rule: rmatch.induct) auto

lemma rmatch_bound: "rmatch s r i j \<Longrightarrow> i \<le> length s \<Longrightarrow> j \<le> length s"
  by (induction rule: rmatch.induct) auto

lemma set_star_ends_Suc:
  "set (star_ends f (Suc n) i) = insert i (\<Union>k\<in>{k \<in> set (f i). i < k}. set (star_ends f n k))"
  by auto

lemma star_ends_sound:
  assumes "\<And>i j. i \<le> length s \<Longrightarrow> j \<in> set (f i) \<Longrightarrow> rmatch s r i j"
  shows "i \<le> length s \<Longrightarrow> j \<in> set (star_ends f n i) \<Longrightarrow> rmatch s (RStar r) i j"
proof (induction n arbitrary: i)
  case 0
  then show ?case by (simp add: m_star0)
next
  case (Suc n)
  then consider "j = i" | k where "k \<in> set (f i)" "j \<in> set (star_ends f n k)"
    by (auto simp only: set_star_ends_Suc)
  then show ?case
  proof cases
    case 2
    with assms Suc.prems have "rmatch s r i k" by blast
    with 2 Suc show ?thesis by (blast intro: m_star dest: rmatch_bound)
  qed (simp add: m_star0)
qed

text \<open>Every star match is reached by strictly advancing rounds.\<close>

lemma star_ends_complete:
  assumes f: "\<And>i j. i \<le> length s \<Longrightarrow> rmatch s r i j \<Longrightarrow> j \<in> set (f i)"
  shows "rmatch s (RStar r) i j \<Longrightarrow> i \<le> length s \<Longrightarrow> length s - i \<le> n \<Longrightarrow> j \<in> set (star_ends f n i)"
proof (induction "RStar r" i j arbitrary: n rule: rmatch.induct)
  case (m_star0 i)
  then show ?case by (cases n) auto
next
  case (m_star i j k)
  note step = \<open>rmatch s r i j\<close>
  show ?case
  proof (cases "i = j")
    case True
    with m_star show ?thesis by simp
  next
    case False
    with rmatch_mono [OF step] have ij: "i < j" by simp
    from rmatch_bound [OF step] m_star.prems have jl: "j \<le> length s" by simp
    with ij m_star.prems obtain m where n: "n = Suc m" and m: "length s - j \<le> m"
      by (cases n) auto
    from m_star.hyps m jl have "k \<in> set (star_ends f m j)" by blast
    with n ij f [OF m_star.prems(1) step] show ?thesis
      by (auto simp only: n set_star_ends_Suc)
  qed
qed

theorem ends_iff: "i \<le> length s \<Longrightarrow> j \<in> set (ends s r i) \<longleftrightarrow> rmatch s r i j"
proof (induction r arbitrary: i j)
  case (RSeq a b)
  have "h \<in> set (ends s a i) \<Longrightarrow> h \<le> length s" for h
    using RSeq rmatch_bound by blast
  then show ?case using RSeq by (simp add: Bex_def)
next
  case (RStar r)
  then show ?case
    using star_ends_complete [of s r "ends s r" i j] star_ends_sound [of s "ends s r" r i j]
    by auto
qed auto

corollary re_match_iff: "re_match r s \<longleftrightarrow> (\<exists>j. rmatch s r 0 j)"
  using ends_iff [of 0 s _ r] by (auto simp: re_match_def) (metis list.set_intros(1) list.exhaust)

corollary re_fullmatch_iff: "re_fullmatch r s \<longleftrightarrow> rmatch s r 0 (length s)"
  by (simp add: re_fullmatch_def ends_iff)

corollary re_search_iff: "re_search r s \<longleftrightarrow> (\<exists>i\<le>length s. \<exists>j. rmatch s r i j)"
proof -
  have "ends s r i \<noteq> [] \<longleftrightarrow> (\<exists>j. rmatch s r i j)" if "i \<le> length s" for i
    using ends_iff [OF that, of _ r] by (metis list.set_intros(1) list.exhaust set_empty empty_iff)
  then have "(\<exists>i\<in>set [0..<Suc (length s)]. ends s r i \<noteq> []) \<longleftrightarrow> (\<exists>i\<le>length s. \<exists>j. rmatch s r i j)"
    by (metis atLeastLessThan_iff le_imp_less_Suc less_Suc_eq_le set_upt zero_le)
  then show ?thesis by (simp only: re_search_def list_ex_iff)
qed

section \<open>Derived forms\<close>

fun rexact :: "nat \<Rightarrow> regex \<Rightarrow> regex" where
  "rexact 0 r = REps"
| "rexact (Suc n) r = RSeq r (rexact n r)"

fun rupto :: "nat \<Rightarrow> regex \<Rightarrow> regex" where
  "rupto 0 r = REps"
| "rupto (Suc n) r = RAlt (RSeq r (rupto n r)) REps"

text \<open>\<^verbatim>\<open>r{m,n}\<close>, \<^verbatim>\<open>r+\<close>, \<^verbatim>\<open>r?\<close>, a literal, and a literal under \<^verbatim>\<open>re.IGNORECASE\<close>.\<close>

definition rrange :: "nat \<Rightarrow> nat \<Rightarrow> regex \<Rightarrow> regex" where
  "rrange m n r = RSeq (rexact m r) (rupto (n - m) r)"

definition rplus :: "regex \<Rightarrow> regex" where
  "rplus r = RSeq r (RStar r)"

definition ropt :: "regex \<Rightarrow> regex" where
  "ropt r = RAlt r REps"

fun rlit :: "string \<Rightarrow> regex" where
  "rlit [] = REps"
| "rlit (c # w) = RSeq (RCls (\<lambda>d. d = c)) (rlit w)"

fun rilit :: "string \<Rightarrow> regex" where
  "rilit [] = REps"
| "rilit (c # w) = RSeq (RCls (\<lambda>d. lower_char d = lower_char c)) (rilit w)"

fun rseqs :: "regex list \<Rightarrow> regex" where
  "rseqs [] = REps"
| "rseqs [r] = r"
| "rseqs (r # q # qs) = RSeq r (rseqs (q # qs))"

fun ralts :: "regex list \<Rightarrow> regex" where
  "ralts [] = RCls (\<lambda>_. False)"
| "ralts [r] = r"
| "ralts (r # q # qs) = RAlt r (ralts (q # qs))"

text \<open>What a repeated class matches, in terms of the subject string.\<close>

definition run_of :: "(char \<Rightarrow> bool) \<Rightarrow> string \<Rightarrow> nat \<Rightarrow> nat \<Rightarrow> bool" where
  "run_of P s i j \<longleftrightarrow> i \<le> j \<and> (i < j \<longrightarrow> j \<le> length s) \<and> (\<forall>k. i \<le> k \<longrightarrow> k < j \<longrightarrow> P (s ! k))"

lemma run_of_refl [simp]: "run_of P s i i"
  by (simp add: run_of_def)

lemma run_of_le: "run_of P s i j \<Longrightarrow> i \<le> j"
  by (simp add: run_of_def)

lemma run_of_unfold:
  assumes "i < j"
  shows "run_of P s i j \<longleftrightarrow> i < length s \<and> P (s ! i) \<and> run_of P s (Suc i) j"
proof -
  have "(\<forall>k. i \<le> k \<longrightarrow> k < j \<longrightarrow> P (s ! k)) \<longleftrightarrow> P (s ! i) \<and> (\<forall>k. Suc i \<le> k \<longrightarrow> k < j \<longrightarrow> P (s ! k))"
    using assms by (metis Suc_le_eq le_eq_less_or_eq)
  with assms show ?thesis unfolding run_of_def by auto
qed

lemma rmatch_rexact_cls: "rmatch s (rexact n (RCls P)) i j \<longleftrightarrow> j = i + n \<and> run_of P s i j"
proof (induction n arbitrary: i)
  case 0
  then show ?case by auto
next
  case (Suc n)
  have "rmatch s (rexact (Suc n) (RCls P)) i j \<longleftrightarrow>
      i < length s \<and> P (s ! i) \<and> rmatch s (rexact n (RCls P)) (Suc i) j"
    by simp
  also have "\<dots> \<longleftrightarrow> i < length s \<and> P (s ! i) \<and> j = Suc i + n \<and> run_of P s (Suc i) j"
    by (simp only: Suc)
  also have "\<dots> \<longleftrightarrow> j = i + Suc n \<and> run_of P s i j"
    by (metis add_Suc add_Suc_right less_add_Suc1 run_of_unfold)
  finally show ?case .
qed

lemma rmatch_rupto_cls: "rmatch s (rupto n (RCls P)) i j \<longleftrightarrow> j \<le> i + n \<and> run_of P s i j"
proof (induction n arbitrary: i)
  case 0
  then show ?case by (auto dest: run_of_le)
next
  case (Suc n)
  have "rmatch s (rupto (Suc n) (RCls P)) i j \<longleftrightarrow>
      i < length s \<and> P (s ! i) \<and> rmatch s (rupto n (RCls P)) (Suc i) j \<or> j = i"
    by auto
  also have "\<dots> \<longleftrightarrow> i < length s \<and> P (s ! i) \<and> j \<le> Suc i + n \<and> run_of P s (Suc i) j \<or> j = i"
    by (simp only: Suc)
  also have "\<dots> \<longleftrightarrow> j \<le> i + Suc n \<and> run_of P s i j"
  proof (cases "i < j")
    case True
    then show ?thesis by (auto simp: run_of_unfold [of i j])
  next
    case False
    then show ?thesis by (auto dest: run_of_le)
  qed
  finally show ?case .
qed

lemma run_of_append: "run_of P s i j \<Longrightarrow> run_of P s j k \<Longrightarrow> run_of P s i k"
  unfolding run_of_def by (metis le_eq_less_or_eq le_trans not_le)

lemma run_of_split: "run_of P s i k \<Longrightarrow> i \<le> j \<Longrightarrow> j \<le> k \<Longrightarrow> run_of P s i j \<and> run_of P s j k"
  unfolding run_of_def by auto

lemma rmatch_rrange_cls:
  assumes "m \<le> n"
  shows "rmatch s (rrange m n (RCls P)) i j \<longleftrightarrow> i + m \<le> j \<and> j \<le> i + n \<and> run_of P s i j"
proof -
  have "run_of P s i (i + m) \<and> run_of P s (i + m) j \<longleftrightarrow> i + m \<le> j \<and> run_of P s i j"
    using run_of_append [of P s i "i + m" j] run_of_split [of P s i j "i + m"]
      run_of_le [of P s "i + m" j] by auto
  with assms show ?thesis
    by (auto simp: rrange_def rmatch_rexact_cls rmatch_rupto_cls)
qed

lemma rmatch_star_cls: "rmatch s (RStar (RCls P)) i j \<longleftrightarrow> run_of P s i j"
proof
  show "rmatch s (RStar (RCls P)) i j \<Longrightarrow> run_of P s i j"
  proof (induction "RStar (RCls P)" i j rule: rmatch.induct)
    case (m_star i j k)
    then show ?case using run_of_unfold [of i k P s] run_of_le [of P s "Suc i" k] by auto
  qed simp
next
  show "run_of P s i j \<Longrightarrow> rmatch s (RStar (RCls P)) i j"
  proof (induction "j - i" arbitrary: i)
    case 0
    then have "i = j" by (simp add: run_of_def)
    then show ?case by (simp add: m_star0)
  next
    case (Suc d)
    then have "i < j" by simp
    with Suc run_of_unfold [of i j P s] show ?case
      by (intro m_star [of _ _ i "Suc i"]) auto
  qed
qed

lemma rmatch_rplus_cls: "rmatch s (rplus (RCls P)) i j \<longleftrightarrow> i < j \<and> run_of P s i j"
  using run_of_unfold [of i j P s] run_of_le [of P s "Suc i" j]
  by (auto simp: rplus_def rmatch_star_cls)

lemma run_of_whole: "run_of P s 0 (length s) \<longleftrightarrow> list_all P s"
  unfolding run_of_def list_all_length by auto

lemma re_fullmatch_rrange:
  "m \<le> n \<Longrightarrow> re_fullmatch (rrange m n (RCls P)) s \<longleftrightarrow> m \<le> length s \<and> length s \<le> n \<and> list_all P s"
  by (simp add: re_fullmatch_iff rmatch_rrange_cls run_of_whole)

lemma re_fullmatch_rplus: "re_fullmatch (rplus (RCls P)) s \<longleftrightarrow> s \<noteq> [] \<and> list_all P s"
  by (auto simp: re_fullmatch_iff rmatch_rplus_cls run_of_whole)

text \<open>
  \<^verbatim>\<open>re.match("^[...]{m,n}$", s)\<close> also accepts one newline after the run: \<^verbatim>\<open>$\<close> matches before it.
\<close>

lemma run_of_prefix: "run_of P s 0 j \<longleftrightarrow> j \<le> length s \<and> list_all P (take j s)"
  unfolding run_of_def list_all_length by (cases "j = 0") auto

lemma dollar_at_split:
  assumes "dollar_at s j"
  shows "s = take j s \<or> s = take j s @ [CHR 10]"
proof (cases "j = length s")
  case False
  with assms have j: "Suc j = length s" "s ! j = CHR 10" by (auto simp: dollar_at_def)
  then have "s = take j s @ s ! j # drop (Suc j) s" by (intro id_take_nth_drop) simp
  with j show ?thesis by simp
qed simp

lemma dollar_at_append: "dollar_at t (length t)" "dollar_at (t @ [CHR 10]) (length t)"
  by (simp_all add: dollar_at_def)

lemma re_match_run_dollar:
  assumes r: "\<And>j. rmatch s r 0 j \<longleftrightarrow> Q j \<and> run_of P s 0 j"
  shows "re_match (RSeq r RDollar) s \<longleftrightarrow>
    (\<exists>t. (s = t \<or> s = t @ [CHR 10]) \<and> Q (length t) \<and> list_all P t)" (is "?l \<longleftrightarrow> ?r")
proof
  assume ?l
  then obtain j where j: "Q j" "j \<le> length s" "list_all P (take j s)" "dollar_at s j"
    by (auto simp: re_match_iff r run_of_prefix)
  then have "length (take j s) = j" by simp
  with j dollar_at_split [OF j(4)] show ?r by metis
next
  assume ?r
  then obtain t where t: "s = t \<or> s = t @ [CHR 10]" "Q (length t)" "list_all P t"
    by blast
  then have "run_of P s 0 (length t)" and "dollar_at s (length t)"
    using dollar_at_append by (auto simp: run_of_prefix)
  with t show ?l by (auto simp: re_match_iff r)
qed

lemma re_match_range_dollar:
  "m \<le> n \<Longrightarrow> re_match (RSeq (rrange m n (RCls P)) RDollar) s \<longleftrightarrow>
    (\<exists>t. (s = t \<or> s = t @ [CHR 10]) \<and> (m \<le> length t \<and> length t \<le> n) \<and> list_all P t)"
  by (rule re_match_run_dollar) (simp add: rmatch_rrange_cls)

lemma re_match_plus_dollar:
  "re_match (RSeq (rplus (RCls P)) RDollar) s \<longleftrightarrow>
    (\<exists>t. (s = t \<or> s = t @ [CHR 10]) \<and> 0 < length t \<and> list_all P t)"
  by (rule re_match_run_dollar) (simp add: rmatch_rplus_cls)

section \<open>Positions and slices\<close>

text \<open>The part of the subject between two positions; sequences of matches concatenate slices.\<close>

definition slice :: "string \<Rightarrow> nat \<Rightarrow> nat \<Rightarrow> string" where
  "slice s i j = take (j - i) (drop i s)"

lemma slice_append: "i \<le> j \<Longrightarrow> j \<le> k \<Longrightarrow> slice s i j @ slice s j k = slice s i k"
proof -
  assume "i \<le> j" "j \<le> k"
  then obtain a b where "j = i + a" "k = i + a + b" by (metis le_iff_add)
  then show ?thesis by (simp add: slice_def take_add add.assoc drop_drop add.commute)
qed

lemma slice_whole [simp]: "slice s 0 (length s) = s"
  by (simp add: slice_def)

lemma slice_prefix: "slice s 0 j = take j s"
  by (simp add: slice_def)

lemma length_slice: "j \<le> length s \<Longrightarrow> length (slice s i j) = j - i"
  by (simp add: slice_def)

lemma slice_mid: "slice (a @ b @ c) (length a) (length a + length b) = b"
  by (simp add: slice_def)

lemma run_of_slice:
  assumes "j \<le> length s"
  shows "run_of P s i j \<longleftrightarrow> i \<le> j \<and> list_all P (slice s i j)"
proof -
  have "list_all P (slice s i j) \<longleftrightarrow> (\<forall>k. i \<le> k \<longrightarrow> k < j \<longrightarrow> P (s ! k))" if "i \<le> j"
  proof -
    have "list_all P (slice s i j) \<longleftrightarrow> (\<forall>n<j - i. P (s ! (i + n)))"
      using assms that by (simp add: list_all_length length_slice) (simp add: slice_def)
    also have "\<dots> \<longleftrightarrow> (\<forall>k. i \<le> k \<longrightarrow> k < j \<longrightarrow> P (s ! k))"
      by (metis add_diff_inverse_nat diff_less_mono le_add1 less_diff_conv add.commute not_le)
    finally show ?thesis .
  qed
  with assms show ?thesis by (auto simp: run_of_def)
qed

lemma rmatch_rlit:
  "i \<le> length s \<Longrightarrow> rmatch s (rlit w) i j \<longleftrightarrow> j = i + length w \<and> slice s i j = w"
proof (induction w arbitrary: i)
  case Nil
  then show ?case by (auto simp: slice_def)
next
  case (Cons c w)
  show ?case
  proof (cases "i < length s")
    case True
    then have d: "drop i s = s ! i # drop (Suc i) s" by (simp add: Cons_nth_drop_Suc)
    have "rmatch s (rlit (c # w)) i j \<longleftrightarrow> s ! i = c \<and> rmatch s (rlit w) (Suc i) j"
      using True by auto
    also have "\<dots> \<longleftrightarrow> s ! i = c \<and> j = Suc i + length w \<and> slice s (Suc i) j = w"
      using True Cons.IH [of "Suc i"] by simp
    also have "\<dots> \<longleftrightarrow> j = i + length (c # w) \<and> slice s i j = c # w"
      by (auto simp: slice_def d)
    finally show ?thesis .
  next
    case False
    with Cons.prems show ?thesis by (auto simp: slice_def)
  qed
qed

lemma rmatch_rlit_append:
  "rmatch (a @ w @ b) (rlit w) (length a) (length a + length w)"
  by (simp add: rmatch_rlit slice_mid)

text \<open>The class \<^verbatim>\<open>[A-Za-z0-9._-]\<close>, which the identifiers of several components are made of.\<close>

definition id_char :: "char \<Rightarrow> bool" where
  "id_char c \<longleftrightarrow> is_letter c \<or> is_digit c \<or> c = CHR ''.'' \<or> c = CHR ''_'' \<or> c = CHR ''-''"

lemma id_char_not_sep: "id_char c \<Longrightarrow> c \<noteq> CHR ''#'' \<and> c \<noteq> CHR ''/'' \<and> c \<noteq> CHR 92 \<and> c \<noteq> CHR '':'' \<and> c \<noteq> CHR ''~'' \<and> c \<noteq> CHR 10 \<and> \<not> is_space c"
  by (auto simp: id_char_def is_letter_def is_lower_letter_def is_upper_letter_def is_digit_def
      is_space_def Let_def)

end
