(* ===== verification/Roles.thy ===== *)
theory Roles
  imports Py_Regex
begin

text \<open>
  \<^verbatim>\<open>src/icode/roles.py\<close>: the closed vocabulary of agent roles, agent identities of the form
  \<^verbatim>\<open>role#ticket#ordinal\<close>, and the registry that issues them. The registry is the state record
  \<open>role_registry\<close>; \<open>spawn\<close> returns the new state also when it raises, because the source advances
  the ordinal counter before it validates the identity.
\<close>

section \<open>Roles\<close>

record agent_role =
  role_name :: string
  role_may_write :: bool
  conclusions_kind :: string

definition ROLE_PLANNER :: string where "ROLE_PLANNER = ''planner''"
definition ROLE_EXECUTOR :: string where "ROLE_EXECUTOR = ''executor''"
definition ROLE_REVIEWER :: string where "ROLE_REVIEWER = ''reviewer''"
definition ROLE_VERIFIER :: string where "ROLE_VERIFIER = ''verifier''"
definition ROLE_AUDITOR :: string where "ROLE_AUDITOR = ''auditor''"

lemmas role_names_defs = ROLE_PLANNER_def ROLE_EXECUTOR_def ROLE_REVIEWER_def
  ROLE_VERIFIER_def ROLE_AUDITOR_def

definition ROLE_CONCLUSION_KIND :: "(string, string) dict" where
  "ROLE_CONCLUSION_KIND =
     [(ROLE_PLANNER, ''plan''), (ROLE_EXECUTOR, ''execution''), (ROLE_REVIEWER, ''review''),
      (ROLE_VERIFIER, ''verification''), (ROLE_AUDITOR, ''audit'')]"

definition ROLES_TABLE :: "(string, agent_role) dict" where
  "ROLES_TABLE =
     [(ROLE_PLANNER, \<lparr>role_name = ROLE_PLANNER, role_may_write = False, conclusions_kind = ''plan''\<rparr>),
      (ROLE_EXECUTOR, \<lparr>role_name = ROLE_EXECUTOR, role_may_write = True, conclusions_kind = ''execution''\<rparr>),
      (ROLE_REVIEWER, \<lparr>role_name = ROLE_REVIEWER, role_may_write = False, conclusions_kind = ''review''\<rparr>),
      (ROLE_VERIFIER, \<lparr>role_name = ROLE_VERIFIER, role_may_write = False, conclusions_kind = ''verification''\<rparr>),
      (ROLE_AUDITOR, \<lparr>role_name = ROLE_AUDITOR, role_may_write = False, conclusions_kind = ''audit''\<rparr>)]"

definition may_delegate :: "agent_role \<Rightarrow> bool" where
  "may_delegate r = False"

definition role :: "pyval \<Rightarrow> agent_role res" where
  "role name = (case name of
       PStr s \<Rightarrow> (case dict_get ROLES_TABLE s of None \<Rightarrow> Inl (RoleError ''unknown_role'') | Some r \<Rightarrow> Inr r)
     | _ \<Rightarrow> Inl (RoleError ''unknown_role''))"

definition roles_all :: "agent_role list" where
  "roles_all = map (\<lambda>n. the (dict_get ROLES_TABLE n)) (sort (dict_keys ROLES_TABLE))"

definition read_only_roles :: "string list" where
  "read_only_roles = sort (map fst (filter (\<lambda>(n, r). \<not> role_may_write r) ROLES_TABLE))"

section \<open>Identities\<close>

definition TICKET_RE :: regex where
  "TICKET_RE = RSeq (rrange 1 64 (RCls id_char)) RDollar"

definition AGENT_ID_RE :: regex where
  "AGENT_ID_RE =
     RSeq (ralts [rlit ROLE_PLANNER, rlit ROLE_EXECUTOR, rlit ROLE_REVIEWER, rlit ROLE_VERIFIER, rlit ROLE_AUDITOR])
    (RSeq (rlit ''#'') (RSeq (rrange 1 64 (RCls id_char)) (RSeq (rlit ''#'')
    (RSeq (rrange 1 6 (RCls is_digit)) RDollar))))"

record agent_identity =
  agent_id :: string
  ident_role :: string
  ident_ticket :: string
  ordinal :: int

definition is_valid_ticket_id :: "pyval \<Rightarrow> bool" where
  "is_valid_ticket_id t = (case t of PStr s \<Rightarrow> re_match TICKET_RE s | _ \<Rightarrow> False)"

text \<open>\<^verbatim>\<open>s.split(c, n)\<close>: at most \<open>n\<close> splits.\<close>

fun split_max :: "nat \<Rightarrow> char \<Rightarrow> string \<Rightarrow> string list" where
  "split_max 0 c s = [s]"
| "split_max (Suc n) c s =
     (if c \<in> set s then takeWhile (\<lambda>x. x \<noteq> c) s # split_max n c (tl (dropWhile (\<lambda>x. x \<noteq> c) s))
      else [s])"

definition parse_agent_id :: "pyval \<Rightarrow> (string \<times> string \<times> int) res" where
  "parse_agent_id v = (case v of
       PStr s \<Rightarrow>
         if \<not> re_match AGENT_ID_RE s then Inl (RoleError ''invalid_agent_id'')
         else (case split_max 2 (CHR ''#'') s of
             [prefix, ticket, num] \<Rightarrow>
               (case py_int num of None \<Rightarrow> Inl (PyValueError ''int'') | Some n \<Rightarrow> Inr (prefix, ticket, n))
           | _ \<Rightarrow> Inl (PyValueError ''unpack''))
     | _ \<Rightarrow> Inl (RoleError ''invalid_agent_id''))"

text \<open>\<^verbatim>\<open>AgentIdentity.__post_init__\<close>: the checks run in the order of the source.\<close>

definition mk_AgentIdentity :: "pyval \<Rightarrow> pyval \<Rightarrow> pyval \<Rightarrow> pyval \<Rightarrow> agent_identity res" where
  "mk_AgentIdentity aid rn tid ord =
     bindr (parse_agent_id aid) (\<lambda>(prefix, ticket, n).
     bindr (role rn) (\<lambda>_.
       if \<not> is_valid_ticket_id tid then Inl (RoleError ''invalid_ticket'')
       else (case ord of
           PInt k \<Rightarrow>
             if \<not> (1 \<le> k \<and> k \<le> 999999) then Inl (RoleError ''invalid_ordinal'')
             else if PStr prefix \<noteq> rn \<or> PStr ticket \<noteq> tid \<or> n \<noteq> k then Inl (RoleError ''agent_id_mismatch'')
             else (case aid of
                 PStr a \<Rightarrow> Inr \<lparr>agent_id = a, ident_role = prefix, ident_ticket = ticket, ordinal = k\<rparr>
               | _ \<Rightarrow> Inl (RoleError ''invalid_agent_id''))
         | _ \<Rightarrow> Inl (RoleError ''invalid_ordinal''))))"

definition identity_may_write :: "agent_identity \<Rightarrow> bool res" where
  "identity_may_write i = bindr (role (PStr (ident_role i))) (\<lambda>r. Inr (role_may_write r))"

section \<open>The registry\<close>

record role_registry =
  identities :: "(string, agent_identity) dict"
  ordinals :: "(string \<times> string, int) dict"

definition empty_registry :: role_registry where
  "empty_registry = \<lparr>identities = [], ordinals = []\<rparr>"

definition format_agent_id :: "string \<Rightarrow> string \<Rightarrow> int \<Rightarrow> string" where
  "format_agent_id rn t n = rn @ ''#'' @ t @ ''#'' @ string_of_int n"

definition spawn :: "role_registry \<Rightarrow> pyval \<Rightarrow> pyval \<Rightarrow> agent_identity res \<times> role_registry" where
  "spawn reg rn tid =
     (case role rn of Inl e \<Rightarrow> (Inl e, reg) | Inr r \<Rightarrow>
      (case tid of
         PStr t \<Rightarrow>
           if \<not> re_match TICKET_RE t then (Inl (RoleError ''invalid_ticket''), reg)
           else
             let key = (role_name r, t);
                 n = dict_get_or 0 (ordinals reg) key + 1;
                 reg1 = reg\<lparr>ordinals := dict_set key n (ordinals reg)\<rparr>
             in (case mk_AgentIdentity (PStr (format_agent_id (role_name r) t n))
                   (PStr (role_name r)) (PStr t) (PInt n) of
                  Inl e \<Rightarrow> (Inl e, reg1)
                | Inr i \<Rightarrow> (Inr i, reg1\<lparr>identities := dict_set (agent_id i) i (identities reg1)\<rparr>))
       | _ \<Rightarrow> (Inl (RoleError ''invalid_ticket''), reg)))"

definition identity :: "role_registry \<Rightarrow> pyval \<Rightarrow> agent_identity option" where
  "identity reg v = (case v of PStr a \<Rightarrow> dict_get (identities reg) a | _ \<Rightarrow> None)"

definition require :: "role_registry \<Rightarrow> pyval \<Rightarrow> agent_identity res" where
  "require reg v =
     (case identity reg v of None \<Rightarrow> Inl (RoleError ''unknown_agent'') | Some i \<Rightarrow> Inr i)"

text \<open>The argument of the two assertions is an \<^verbatim>\<open>AgentIdentity\<close> or something else (\<open>None\<close>).\<close>

definition assert_may_write :: "role_registry \<Rightarrow> agent_identity option \<Rightarrow> unit res" where
  "assert_may_write reg arg =
     (case arg of None \<Rightarrow> Inl (RoleError ''unknown_agent'') | Some i \<Rightarrow>
      (case identity reg (PStr (agent_id i)) of
         None \<Rightarrow> Inl (RoleError ''unknown_agent'')
       | Some known \<Rightarrow>
           if known \<noteq> i then Inl (RoleError ''unknown_agent'')
           else bindr (identity_may_write known) (\<lambda>w.
             if \<not> w then Inl (RoleError ''role_write_denied'') else Inr ())))"

definition assert_conclusion_kind :: "role_registry \<Rightarrow> agent_identity option \<Rightarrow> pyval \<Rightarrow> string res" where
  "assert_conclusion_kind reg arg kind =
     (case arg of None \<Rightarrow> Inl (RoleError ''unknown_agent'') | Some i \<Rightarrow>
      (case identity reg (PStr (agent_id i)) of
         None \<Rightarrow> Inl (RoleError ''unknown_agent'')
       | Some known \<Rightarrow>
           if known \<noteq> i then Inl (RoleError ''unknown_agent'')
           else bindr (role (PStr (ident_role known))) (\<lambda>r.
             if kind \<noteq> PStr (conclusions_kind r) then Inl (RoleError ''conclusion_out_of_role'')
             else Inr (conclusions_kind r))))"

section \<open>The role table\<close>

lemma role_Inr_iff: "role v = Inr r \<longleftrightarrow> (\<exists>s. v = PStr s \<and> dict_get ROLES_TABLE s = Some r)"
  by (auto simp: role_def split: pyval.splits option.splits)

definition role_names :: "string list" where
  "role_names = [ROLE_PLANNER, ROLE_EXECUTOR, ROLE_REVIEWER, ROLE_VERIFIER, ROLE_AUDITOR]"

lemma role_names_neq [simp]:
  "ROLE_PLANNER \<noteq> ROLE_EXECUTOR"
  "ROLE_PLANNER \<noteq> ROLE_REVIEWER"
  "ROLE_PLANNER \<noteq> ROLE_VERIFIER"
  "ROLE_PLANNER \<noteq> ROLE_AUDITOR"
  "ROLE_EXECUTOR \<noteq> ROLE_PLANNER"
  "ROLE_EXECUTOR \<noteq> ROLE_REVIEWER"
  "ROLE_EXECUTOR \<noteq> ROLE_VERIFIER"
  "ROLE_EXECUTOR \<noteq> ROLE_AUDITOR"
  "ROLE_REVIEWER \<noteq> ROLE_PLANNER"
  "ROLE_REVIEWER \<noteq> ROLE_EXECUTOR"
  "ROLE_REVIEWER \<noteq> ROLE_VERIFIER"
  "ROLE_REVIEWER \<noteq> ROLE_AUDITOR"
  "ROLE_VERIFIER \<noteq> ROLE_PLANNER"
  "ROLE_VERIFIER \<noteq> ROLE_EXECUTOR"
  "ROLE_VERIFIER \<noteq> ROLE_REVIEWER"
  "ROLE_VERIFIER \<noteq> ROLE_AUDITOR"
  "ROLE_AUDITOR \<noteq> ROLE_PLANNER"
  "ROLE_AUDITOR \<noteq> ROLE_EXECUTOR"
  "ROLE_AUDITOR \<noteq> ROLE_REVIEWER"
  "ROLE_AUDITOR \<noteq> ROLE_VERIFIER"
  by (simp_all add: role_names_defs)

lemma ROLES_TABLE_get:
  "dict_get ROLES_TABLE s = Some r \<longleftrightarrow>
    s \<in> set role_names \<and>
    r = \<lparr>role_name = s, role_may_write = (s = ROLE_EXECUTOR),
         conclusions_kind = the (dict_get ROLE_CONCLUSION_KIND s)\<rparr>"
  by (cases "s \<in> set role_names") (auto simp: ROLES_TABLE_def role_names_def ROLE_CONCLUSION_KIND_def)

lemma role_Inr:
  "role (PStr s) = Inr r \<longleftrightarrow>
    s \<in> set role_names \<and>
    r = \<lparr>role_name = s, role_may_write = (s = ROLE_EXECUTOR),
         conclusions_kind = the (dict_get ROLE_CONCLUSION_KIND s)\<rparr>"
  by (simp add: role_Inr_iff ROLES_TABLE_get)

lemma role_names_clean: "rn \<in> set role_names \<Longrightarrow> CHR ''#'' \<notin> set rn \<and> rn \<noteq> []"
  by (auto simp: role_names_def role_names_defs)

text \<open>Distinct roles conclude with distinct kinds: no role can stand in for another.\<close>

lemma conclusion_kind_inj:
  "a \<in> set role_names \<Longrightarrow> b \<in> set role_names \<Longrightarrow>
    dict_get ROLE_CONCLUSION_KIND a = dict_get ROLE_CONCLUSION_KIND b \<Longrightarrow> a = b"
  by (auto simp: role_names_def ROLE_CONCLUSION_KIND_def)

section \<open>Tickets and agent identifiers\<close>

definition plain_ticket :: "string \<Rightarrow> bool" where
  "plain_ticket t \<longleftrightarrow> 1 \<le> length t \<and> length t \<le> 64 \<and> list_all id_char t"

definition with_optional_newline :: "string \<Rightarrow> string \<Rightarrow> bool" where
  "with_optional_newline s t \<longleftrightarrow> s = t \<or> s = t @ [CHR 10]"

lemma TICKET_RE_iff: "re_match TICKET_RE s \<longleftrightarrow> (\<exists>t. with_optional_newline s t \<and> plain_ticket t)"
  by (auto simp: TICKET_RE_def re_match_range_dollar with_optional_newline_def plain_ticket_def)

lemma plain_ticket_clean: "plain_ticket t \<Longrightarrow> CHR ''#'' \<notin> set t \<and> CHR 10 \<notin> set t"
  using id_char_not_sep by (auto simp: plain_ticket_def list_all_iff)

lemma digits_clean: "list_all is_digit d \<Longrightarrow> CHR ''#'' \<notin> set d"
  by (auto simp: list_all_iff is_digit_def Let_def)

lemma rmatch_role_alt:
  "i \<le> length s \<Longrightarrow>
   rmatch s (ralts [rlit ROLE_PLANNER, rlit ROLE_EXECUTOR, rlit ROLE_REVIEWER, rlit ROLE_VERIFIER, rlit ROLE_AUDITOR]) i j
   \<longleftrightarrow> (\<exists>rn\<in>set role_names. j = i + length rn \<and> slice s i j = rn)"
  by (auto simp: rmatch_rlit role_names_def)

definition agent_id_shape :: "string \<Rightarrow> string \<Rightarrow> string \<Rightarrow> string" where
  "agent_id_shape rn t d = rn @ ''#'' @ t @ ''#'' @ d"

lemma AGENT_ID_RE_intro:
  assumes rn: "rn \<in> set role_names" and t: "plain_ticket t"
    and d: "list_all is_digit d" "1 \<le> length d" "length d \<le> 6"
    and s: "with_optional_newline s (agent_id_shape rn t d)"
  shows "re_match AGENT_ID_RE s"
proof -
  obtain z where z: "s = rn @ ''#'' @ t @ ''#'' @ d @ z" "z = [] \<or> z = [CHR 10]"
    using s by (auto simp: with_optional_newline_def agent_id_shape_def)
  define p1 where "p1 = length rn"
  define p2 where "p2 = p1 + 1"
  define p3 where "p3 = p2 + length t"
  define p4 where "p4 = p3 + 1"
  define p5 where "p5 = p4 + length d"
  note p = p1_def p2_def p3_def p4_def p5_def
  have "slice s 0 p1 = rn" using z by (simp add: slice_prefix p)
  then have m1: "rmatch s (ralts [rlit ROLE_PLANNER, rlit ROLE_EXECUTOR, rlit ROLE_REVIEWER,
      rlit ROLE_VERIFIER, rlit ROLE_AUDITOR]) 0 p1"
    using rn by (subst rmatch_role_alt) (auto simp: p)
  have m2: "rmatch s (rlit ''#'') p1 p2"
    using rmatch_rlit_append [of rn "''#''" "t @ ''#'' @ d @ z"] z by (simp add: p)
  have "slice s p2 p3 = t" using slice_mid [of "rn @ ''#''" t "''#'' @ d @ z"] z by (simp add: p)
  then have m3: "rmatch s (rrange 1 64 (RCls id_char)) p2 p3"
    using t z by (simp add: rmatch_rrange_cls run_of_slice plain_ticket_def p)
  have m4: "rmatch s (rlit ''#'') p3 p4"
    using rmatch_rlit_append [of "rn @ ''#'' @ t" "''#''" "d @ z"] z by (simp add: p)
  have "slice s p4 p5 = d" using slice_mid [of "rn @ ''#'' @ t @ ''#''" d z] z by (simp add: p)
  then have m5: "rmatch s (rrange 1 6 (RCls is_digit)) p4 p5"
    using d z by (simp add: rmatch_rrange_cls run_of_slice p)
  have m6: "rmatch s RDollar p5 p5" using z by (auto simp: dollar_at_def p nth_append)
  show ?thesis
    unfolding re_match_iff AGENT_ID_RE_def
    by (intro exI [of _ p5] m_seq [OF m1] m_seq [OF m2] m_seq [OF m3] m_seq [OF m4] m_seq [OF m5] m6)
qed

lemma AGENT_ID_RE_elim:
  assumes "re_match AGENT_ID_RE s"
  obtains rn t d where "rn \<in> set role_names" "plain_ticket t" "list_all is_digit d"
    "1 \<le> length d" "length d \<le> 6" "with_optional_newline s (agent_id_shape rn t d)"
proof -
  from assms obtain p1 p2 p3 p4 p5 where
    m: "rmatch s (ralts [rlit ROLE_PLANNER, rlit ROLE_EXECUTOR, rlit ROLE_REVIEWER,
      rlit ROLE_VERIFIER, rlit ROLE_AUDITOR]) 0 p1" "rmatch s (rlit ''#'') p1 p2"
      "rmatch s (rrange 1 64 (RCls id_char)) p2 p3" "rmatch s (rlit ''#'') p3 p4"
      "rmatch s (rrange 1 6 (RCls is_digit)) p4 p5" "dollar_at s p5"
    unfolding re_match_iff AGENT_ID_RE_def rmatch_simps(3) rmatch_simps(6) by blast
  have b1: "p1 \<le> length s" using rmatch_bound [OF m(1)] by simp
  have b2: "p2 \<le> length s" using rmatch_bound [OF m(2)] b1 by simp
  have b3: "p3 \<le> length s" using rmatch_bound [OF m(3)] b2 by simp
  have b4: "p4 \<le> length s" using rmatch_bound [OF m(4)] b3 by simp
  have b5: "p5 \<le> length s" using rmatch_bound [OF m(5)] b4 by simp
  note le = rmatch_mono [OF m(2)] rmatch_mono [OF m(3)] rmatch_mono [OF m(4)] rmatch_mono [OF m(5)]
  define rn t d where "rn = slice s 0 p1" and "t = slice s p2 p3" and "d = slice s p4 p5"
  have rn: "rn \<in> set role_names" using m(1) by (subst (asm) rmatch_role_alt) (auto simp: rn_def)
  have t: "plain_ticket t"
    using m(3) b3 by (auto simp: rmatch_rrange_cls run_of_slice plain_ticket_def t_def length_slice)
  have d: "list_all is_digit d" "1 \<le> length d" "length d \<le> 6"
    using m(5) b5 by (auto simp: rmatch_rrange_cls run_of_slice d_def length_slice)
  have "slice s p1 p2 = ''#''" "slice s p3 p4 = ''#''"
    using m(2,4) rmatch_rlit [OF b1] rmatch_rlit [OF b3] by blast+
  moreover have "take p5 s = slice s 0 p1 @ slice s p1 p2 @ slice s p2 p3 @ slice s p3 p4 @ slice s p4 p5"
    using le by (simp add: slice_append flip: slice_prefix)
  ultimately have "take p5 s = agent_id_shape rn t d"
    by (simp add: agent_id_shape_def rn_def t_def d_def)
  then have "with_optional_newline s (agent_id_shape rn t d)"
    using dollar_at_split [OF m(6)] by (auto simp: with_optional_newline_def)
  with rn t d show thesis by (rule that)
qed

lemma takeWhile_sep: "c \<notin> set a \<Longrightarrow> takeWhile (\<lambda>x. x \<noteq> c) (a @ c # b) = a"
  by (induction a) auto

lemma dropWhile_sep: "c \<notin> set a \<Longrightarrow> dropWhile (\<lambda>x. x \<noteq> c) (a @ c # b) = c # b"
  by (induction a) auto

lemma split_max_step: "c \<notin> set a \<Longrightarrow> split_max (Suc n) c (a @ c # b) = a # split_max n c b"
  by (simp add: takeWhile_sep dropWhile_sep)

lemma split_agent_id:
  "rn \<in> set role_names \<Longrightarrow> plain_ticket t \<Longrightarrow>
    split_max 2 (CHR ''#'') (rn @ ''#'' @ t @ ''#'' @ d) = [rn, t, d]"
proof -
  assume "rn \<in> set role_names" "plain_ticket t"
  then have "CHR ''#'' \<notin> set rn" "CHR ''#'' \<notin> set t"
    using role_names_clean plain_ticket_clean by auto
  then have "split_max (Suc (Suc 0)) (CHR ''#'') (rn @ CHR ''#'' # t @ CHR ''#'' # d) = [rn, t, d]"
    by (simp del: split_max.simps add: split_max_step split_max.simps(1))
  then show ?thesis by (simp add: numeral_2_eq_2 del: split_max.simps)
qed

lemma strip_digits_newline: "list_all is_digit d \<Longrightarrow> d \<noteq> [] \<Longrightarrow> strip (d @ [CHR 10]) = d"
proof -
  assume d: "list_all is_digit d" "d \<noteq> []"
  have ns: "\<And>x. x \<in> set d \<Longrightarrow> \<not> is_space x"
    using d by (auto simp: list_all_iff dest: is_digit_not_space)
  have "dropWhile is_space (d @ [CHR 10]) = d @ [CHR 10]"
    using d ns by (cases d) auto
  moreover have "dropWhile is_space (CHR 10 # rev d) = rev d"
    using ns by (simp add: is_space_def [of "CHR 10"] dropWhile_none list_all_iff)
  ultimately show ?thesis by (simp add: strip_def lstrip_def)
qed

lemma py_int_digits:
  assumes "list_all is_digit d" "d \<noteq> []" "with_optional_newline s d"
  shows "py_int s = Some (int (nat_of_digits d))"
proof -
  have "strip d = d"
    using assms by (intro strip_no_space) (auto simp: list_all_iff dest: is_digit_not_space)
  with assms strip_digits_newline [of d] show ?thesis
    by (auto simp: py_int_def with_optional_newline_def Let_def)
qed

text \<open>What \<open>parse_agent_id\<close> accepts, and what it returns.\<close>

lemma parse_agent_id_iff:
  "parse_agent_id (PStr s) = Inr (rn, t, n) \<longleftrightarrow>
     rn \<in> set role_names \<and> plain_ticket t \<and>
     (\<exists>d. list_all is_digit d \<and> 1 \<le> length d \<and> length d \<le> 6 \<and> n = int (nat_of_digits d)
        \<and> with_optional_newline s (agent_id_shape rn t d))" (is "?l \<longleftrightarrow> ?r")
proof -
  have parse: "parse_agent_id (PStr s) = Inr (rn', t', int (nat_of_digits d'))"
    if prems: "rn' \<in> set role_names" "plain_ticket t'" "list_all is_digit d'" "1 \<le> length d'" "length d' \<le> 6"
      "with_optional_newline s (agent_id_shape rn' t' d')" for rn' t' d'
  proof -
    obtain e where e: "with_optional_newline e d'" "s = rn' @ ''#'' @ t' @ ''#'' @ e"
      using prems(6) by (auto simp: with_optional_newline_def agent_id_shape_def)
    have "d' \<noteq> []" using prems(4) by auto
    then have "py_int e = Some (int (nat_of_digits d'))" using prems(3) e(1) by (intro py_int_digits)
    moreover have "re_match AGENT_ID_RE s" by (rule AGENT_ID_RE_intro) (fact prems)+
    moreover have "split_max 2 (CHR ''#'') s = [rn', t', e]"
      using split_agent_id [OF prems(1,2), of e] e(2) by simp
    ultimately show ?thesis by (simp add: parse_agent_id_def)
  qed
  show ?thesis
  proof
    assume l: ?l
    then have "re_match AGENT_ID_RE s" by (auto simp: parse_agent_id_def split: if_splits)
    then obtain rn' t' d where rd: "rn' \<in> set role_names" "plain_ticket t'" "list_all is_digit d"
      "1 \<le> length d" "length d \<le> 6" "with_optional_newline s (agent_id_shape rn' t' d)"
      by (rule AGENT_ID_RE_elim)
    from parse [OF rd] l show ?r using rd by auto
  next
    assume ?r
    then show ?l using parse by blast
  qed
qed

lemma length_string_of_nat: "0 < k \<Longrightarrow> length (string_of_nat n) \<le> k \<longleftrightarrow> n < 10 ^ k"
proof (induction n arbitrary: k rule: string_of_nat.induct)
  case (1 n)
  show ?case
  proof (cases "n < 10")
    case True
    from "1.prems" have "(10::nat) ^ 1 \<le> 10 ^ k" by (intro power_increasing) auto
    with True "1.prems" show ?thesis by (subst string_of_nat.simps) auto
  next
    case False
    then obtain j where j: "k = Suc j" using "1.prems" by (cases k) auto
    have len: "length (string_of_nat n) = Suc (length (string_of_nat (n div 10)))"
      using False by (subst string_of_nat.simps) simp
    have d: "n div 10 < 10 ^ j \<longleftrightarrow> n < 10 ^ k" using j by (simp add: div_less_iff_less_mult mult.commute)
    show ?thesis
    proof (cases "j = 0")
      case True
      with j len False show ?thesis by simp
    next
      case False
      with "1.IH" [of j] \<open>\<not> n < 10\<close> len d j show ?thesis by simp
    qed
  qed
qed

lemma parse_format_agent_id:
  assumes "rn \<in> set role_names" "plain_ticket t" "1 \<le> n" "n \<le> 999999"
  shows "parse_agent_id (PStr (format_agent_id rn t n)) = Inr (rn, t, n)"
proof -
  have s: "string_of_int n = string_of_nat (nat n)" using assms(3) by (simp add: string_of_int_def)
  have "nat n < 10 ^ 6" using assms(4) by simp
  then have "length (string_of_nat (nat n)) \<le> 6" using length_string_of_nat [of 6 "nat n"] by simp
  moreover have "1 \<le> length (string_of_nat (nat n))"
    using string_of_nat_nonempty [of "nat n"] by (cases "string_of_nat (nat n)") auto
  moreover have "n = int (nat_of_digits (string_of_nat (nat n)))" using assms(3) by simp
  moreover have "with_optional_newline (format_agent_id rn t n) (agent_id_shape rn t (string_of_nat (nat n)))"
    by (simp add: with_optional_newline_def format_agent_id_def agent_id_shape_def s)
  ultimately show ?thesis
    using assms(1,2) string_of_nat_digits [of "nat n"] unfolding parse_agent_id_iff by blast
qed

lemma format_agent_id_inj:
  assumes "rn \<in> set role_names" "plain_ticket t" "1 \<le> n" "n \<le> 999999"
    and "rn' \<in> set role_names" "plain_ticket t'" "1 \<le> n'" "n' \<le> 999999"
    and "format_agent_id rn t n = format_agent_id rn' t' n'"
  shows "rn = rn' \<and> t = t' \<and> n = n'"
proof -
  have "(Inr (rn, t, n) :: (string \<times> string \<times> int) res) = Inr (rn', t', n')"
    using parse_format_agent_id [OF assms(1-4)] parse_format_agent_id [OF assms(5-8)]
    unfolding assms(9) by (rule trans [OF sym])
  then show ?thesis by blast
qed

section \<open>Issuing identities\<close>

text \<open>
  The interface a client of an identity issuer relies on: issuing keeps the invariant, a
  successful issue returns a key that was unknown and makes exactly that identity known, a failed
  one leaves the known identities alone.
\<close>

fun issue_all :: "('s \<Rightarrow> 'q \<Rightarrow> 'i res \<times> 's) \<Rightarrow> 's \<Rightarrow> 'q list \<Rightarrow> 'i list \<times> 's" where
  "issue_all issue s [] = ([], s)"
| "issue_all issue s (q # qs) =
     (case issue s q of
        (Inl e, s') \<Rightarrow> issue_all issue s' qs
      | (Inr i, s') \<Rightarrow> (let (is, s'') = issue_all issue s' qs in (i # is, s'')))"

locale identity_issuer =
  fixes inv :: "'s \<Rightarrow> bool"
    and issue :: "'s \<Rightarrow> 'q \<Rightarrow> 'i res \<times> 's"
    and known :: "'s \<Rightarrow> 'k \<Rightarrow> 'i option"
    and key :: "'i \<Rightarrow> 'k"
  assumes inv_issue: "inv s \<Longrightarrow> inv (snd (issue s q))"
    and issue_fresh: "inv s \<Longrightarrow> issue s q = (Inr i, s') \<Longrightarrow> known s (key i) = None"
    and issue_known: "inv s \<Longrightarrow> issue s q = (Inr i, s') \<Longrightarrow> known s' = (known s)(key i \<mapsto> i)"
    and issue_failed: "inv s \<Longrightarrow> issue s q = (Inl e, s') \<Longrightarrow> known s' = known s"
begin

lemma issue_all_known:
  "inv s \<Longrightarrow> issue_all issue s qs = (is, s') \<Longrightarrow> inv s' \<and> known s \<subseteq>\<^sub>m known s'
    \<and> (\<forall>i\<in>set is. known s (key i) = None \<and> known s' (key i) = Some i) \<and> distinct (map key is)"
proof (induction qs arbitrary: s "is")
  case Nil
  then show ?case by simp
next
  case (Cons q qs)
  obtain r s1 where q: "issue s q = (r, s1)" by (cases "issue s q")
  have inv1: "inv s1" using inv_issue [OF Cons.prems(1), of q] q by simp
  show ?case
  proof (cases r)
    case (Inl e)
    with q Cons.prems have "issue_all issue s1 qs = (is, s')" by simp
    with Cons.IH [OF inv1 this] issue_failed [OF Cons.prems(1), of q e s1] q Inl show ?thesis by simp
  next
    case (Inr i)
    with q Cons.prems obtain js where js: "issue_all issue s1 qs = (js, s')" "is = i # js"
      by (auto split: prod.splits)
    note ih = Cons.IH [OF inv1 js(1)]
    note k1 = issue_known [OF Cons.prems(1), of q i s1] and f1 = issue_fresh [OF Cons.prems(1), of q i s1]
    from k1 q Inr have k: "known s1 = (known s)(key i \<mapsto> i)" by simp
    have fresh: "known s (key i) = None" using f1 q Inr by simp
    have "known s \<subseteq>\<^sub>m known s1" using k fresh by (auto simp: map_le_def)
    with ih have mono: "known s \<subseteq>\<^sub>m known s'" by (blast intro: map_le_trans)
    have ki: "known s' (key i) = Some i" using ih k by (force simp: map_le_def)
    have notin: "key j \<noteq> key i \<and> known s (key j) = None" if "j \<in> set js" for j
    proof -
      have "known s1 (key j) = None" using ih that by blast
      with k show ?thesis by (auto split: if_splits)
    qed
    then have "key i \<notin> set (map key js)" by (metis (no_types, lifting) image_iff list.set_map)
    with ih js mono ki fresh notin show ?thesis by auto
  qed
qed

lemma issue_all_inv: "inv s \<Longrightarrow> inv (snd (issue_all issue s qs))"
  using issue_all_known by (metis prod.collapse)

lemma issued_keys_distinct: "inv s \<Longrightarrow> distinct (map key (fst (issue_all issue s qs)))"
  using issue_all_known by (metis prod.collapse)

lemma issued_stay_known:
  "inv s \<Longrightarrow> i \<in> set (fst (issue_all issue s qs)) \<Longrightarrow> known (snd (issue_all issue s qs)) (key i) = Some i"
  using issue_all_known by (metis prod.collapse)

end

text \<open>The registry invariant: stored identities are well formed and below their counters.\<close>

definition identity_wf :: "agent_identity \<Rightarrow> bool" where
  "identity_wf i \<longleftrightarrow> ident_role i \<in> set role_names \<and> plain_ticket (ident_ticket i)
     \<and> 1 \<le> ordinal i \<and> ordinal i \<le> 999999
     \<and> agent_id i = format_agent_id (ident_role i) (ident_ticket i) (ordinal i)"

definition registry_inv :: "role_registry \<Rightarrow> bool" where
  "registry_inv reg \<longleftrightarrow>
     (\<forall>a i. dict_get (identities reg) a = Some i \<longrightarrow>
        agent_id i = a \<and> identity_wf i \<and>
        ordinal i \<le> dict_get_or 0 (ordinals reg) (ident_role i, ident_ticket i))
     \<and> (\<forall>k. 0 \<le> dict_get_or 0 (ordinals reg) k)"

lemma registry_inv_empty: "registry_inv empty_registry"
  by (simp add: registry_inv_def empty_registry_def dict_get_or_def)

lemma mk_identity_Inr_iff:
  "mk_AgentIdentity (PStr a) (PStr rn) (PStr t) (PInt k) = Inr i \<longleftrightarrow>
     1 \<le> k \<and> k \<le> 999999 \<and> parse_agent_id (PStr a) = Inr (rn, t, k)
     \<and> i = \<lparr>agent_id = a, ident_role = rn, ident_ticket = t, ordinal = k\<rparr>"
proof (cases "parse_agent_id (PStr a) = Inr (rn, t, k)")
  case True
  then have "rn \<in> set role_names" "plain_ticket t" by (auto simp: parse_agent_id_iff)
  then obtain r where "role (PStr rn) = Inr r" "is_valid_ticket_id (PStr t)"
    by (auto simp: is_valid_ticket_id_def TICKET_RE_iff with_optional_newline_def role_Inr)
  with True show ?thesis by (auto simp: mk_AgentIdentity_def)
next
  case False
  then show ?thesis by (auto simp: mk_AgentIdentity_def split: if_splits)
qed

text \<open>A newline after the ticket passes \<^verbatim>\<open>_TICKET_RE\<close> but never yields an identity.\<close>

lemma parse_newline_ticket:
  "plain_ticket t \<Longrightarrow> parse_agent_id (PStr a) \<noteq> Inr (rn, t @ [CHR 10], k)"
  using plain_ticket_clean [of "t @ [CHR 10]"] by (auto simp: parse_agent_id_iff)

lemma spawn_Inr_iff:
  assumes "registry_inv reg"
  shows "spawn reg (PStr rn) (PStr t) = (Inr i, reg') \<longleftrightarrow>
     (let n = dict_get_or 0 (ordinals reg) (rn, t) + 1 in
      rn \<in> set role_names \<and> plain_ticket t \<and> n \<le> 999999
      \<and> i = \<lparr>agent_id = format_agent_id rn t n, ident_role = rn, ident_ticket = t, ordinal = n\<rparr>
      \<and> reg' = \<lparr>identities = dict_set (agent_id i) i (identities reg),
                ordinals = dict_set (rn, t) n (ordinals reg)\<rparr>)"
proof -
  let ?n = "dict_get_or 0 (ordinals reg) (rn, t) + 1"
  have n1: "1 \<le> ?n" using assms by (simp add: registry_inv_def)
  show ?thesis
  proof (cases "rn \<in> set role_names \<and> re_match TICKET_RE t")
    case False
    then have "rn \<notin> set role_names \<and> (\<exists>e. role (PStr rn) = Inl e) \<or> \<not> re_match TICKET_RE t"
      by (metis role_Inr sum.exhaust)
    moreover have "\<not> plain_ticket t" if "\<not> re_match TICKET_RE t"
      using that by (auto simp: TICKET_RE_iff with_optional_newline_def)
    ultimately show ?thesis
      by (cases "role (PStr rn)") (auto simp: spawn_def Let_def)
  next
    case True
    then obtain r where r: "role (PStr rn) = Inr r" "role_name r = rn" by (simp add: role_Inr)
    let ?mk = "mk_AgentIdentity (PStr (format_agent_id rn t ?n)) (PStr rn) (PStr t) (PInt ?n)"
    let ?reg1 = "reg\<lparr>ordinals := dict_set (rn, t) ?n (ordinals reg)\<rparr>"
    have sp: "spawn reg (PStr rn) (PStr t) = (case ?mk of Inl e \<Rightarrow> (Inl e, ?reg1)
        | Inr i \<Rightarrow> (Inr i, ?reg1\<lparr>identities := dict_set (agent_id i) i (identities ?reg1)\<rparr>))"
      using True r by (simp add: spawn_def Let_def)
    show ?thesis
    proof (cases "plain_ticket t \<and> ?n \<le> 999999")
      case ok: True
      with True n1 have "parse_agent_id (PStr (format_agent_id rn t ?n)) = Inr (rn, t, ?n)"
        by (intro parse_format_agent_id) auto
      with ok n1 have "?mk = Inr \<lparr>agent_id = format_agent_id rn t ?n, ident_role = rn, ident_ticket = t, ordinal = ?n\<rparr>"
        unfolding mk_identity_Inr_iff by blast
      with sp ok True show ?thesis by (cases reg) (auto simp: Let_def)
    next
      case False
      then have "?mk \<noteq> Inr j" for j
        unfolding mk_identity_Inr_iff parse_agent_id_iff by blast
      then obtain e where "?mk = Inl e" by (cases ?mk) auto
      with sp False show ?thesis by (auto simp: Let_def)
    qed
  qed
qed

lemma spawn_typed: "spawn reg a b = (Inr i, reg') \<Longrightarrow> \<exists>rn t. a = PStr rn \<and> b = PStr t"
  by (auto simp: spawn_def role_def split: pyval.splits option.splits)

lemma spawn_failed:
  assumes "spawn reg a b = (Inl e, reg')"
  shows "identities reg' = identities reg
    \<and> (\<forall>k. dict_get_or 0 (ordinals reg) k \<le> dict_get_or 0 (ordinals reg') k)"
  using assms
  by (auto simp: spawn_def Let_def split: sum.splits pyval.splits if_splits)

lemma registry_inv_mono:
  assumes "registry_inv reg" and "identities reg' = identities reg"
    and "\<And>k. dict_get_or 0 (ordinals reg) k \<le> dict_get_or 0 (ordinals reg') k"
  shows "registry_inv reg'"
  using assms(1) order_trans [OF _ assms(3)] unfolding registry_inv_def assms(2) by blast

lemma registry_inv_spawn:
  assumes "registry_inv reg"
  shows "registry_inv (snd (spawn reg a b))"
proof (cases "spawn reg a b")
  case (Pair r reg')
  show ?thesis
  proof (cases r)
    case (Inl e)
    with Pair have s: "identities reg' = identities reg"
      "\<And>k. dict_get_or 0 (ordinals reg) k \<le> dict_get_or 0 (ordinals reg') k"
      using spawn_failed by auto
    from registry_inv_mono [OF assms s] Pair show ?thesis by simp
  next
    case (Inr i)
    with Pair obtain rn t where ab: "a = PStr rn" "b = PStr t" using spawn_typed by blast
    define n where "n = dict_get_or 0 (ordinals reg) (rn, t) + 1"
    with Pair Inr ab assms have i: "rn \<in> set role_names" "plain_ticket t" "n \<le> 999999"
      "i = \<lparr>agent_id = format_agent_id rn t n, ident_role = rn, ident_ticket = t, ordinal = n\<rparr>"
      "reg' = \<lparr>identities = dict_set (agent_id i) i (identities reg), ordinals = dict_set (rn, t) n (ordinals reg)\<rparr>"
      using spawn_Inr_iff [OF assms, of rn t i reg'] by (auto simp: Let_def)
    have n1: "1 \<le> n" using assms by (simp add: n_def registry_inv_def)
    have le: "dict_get_or 0 (ordinals reg) k \<le> dict_get_or 0 (ordinals reg') k" for k
      using i(5) by (simp add: n_def)
    have "agent_id j = a' \<and> identity_wf j
        \<and> ordinal j \<le> dict_get_or 0 (ordinals reg') (ident_role j, ident_ticket j)"
      if j: "dict_get (identities reg') a' = Some j" for a' j
    proof (cases "a' = agent_id i")
      case True
      with j i have "j = i" by simp
      with True i n1 show ?thesis by (simp add: identity_wf_def)
    next
      case False
      with j i have "dict_get (identities reg) a' = Some j" by simp
      with assms order_trans [OF _ le] show ?thesis
        unfolding registry_inv_def by blast
    qed
    moreover have "0 \<le> dict_get_or 0 (ordinals reg') k" for k
      using assms le [of k] unfolding registry_inv_def by (metis order_trans)
    ultimately have "registry_inv reg'" unfolding registry_inv_def by blast
    with Pair show ?thesis by simp
  qed
qed

lemma spawn_fresh:
  assumes "registry_inv reg" and "spawn reg a b = (Inr i, reg')"
  shows "dict_get (identities reg) (agent_id i) = None"
proof (rule ccontr)
  assume "dict_get (identities reg) (agent_id i) \<noteq> None"
  then obtain j where j: "dict_get (identities reg) (agent_id i) = Some j" by blast
  from assms(2) obtain rn t where ab: "a = PStr rn" "b = PStr t" using spawn_typed by blast
  with assms have i: "rn \<in> set role_names" "plain_ticket t" "ordinal i \<le> 999999"
    "ordinal i = dict_get_or 0 (ordinals reg) (rn, t) + 1"
    "agent_id i = format_agent_id rn t (ordinal i)"
    using spawn_Inr_iff [OF assms(1), of rn t i reg'] by (auto simp: Let_def)
  from assms(1) j have wf: "identity_wf j" "agent_id j = agent_id i"
    "ordinal j \<le> dict_get_or 0 (ordinals reg) (ident_role j, ident_ticket j)"
    by (auto simp: registry_inv_def)
  have "1 \<le> ordinal i" using assms(1) i(4) by (simp add: registry_inv_def)
  moreover from wf(1) have jwf: "ident_role j \<in> set role_names" "plain_ticket (ident_ticket j)"
    "1 \<le> ordinal j" "ordinal j \<le> 999999"
    and jid: "agent_id j = format_agent_id (ident_role j) (ident_ticket j) (ordinal j)"
    unfolding identity_wf_def by blast+
  moreover have "format_agent_id (ident_role j) (ident_ticket j) (ordinal j) = format_agent_id rn t (ordinal i)"
    by (rule trans [OF jid [symmetric]]) (rule trans [OF wf(2) i(5)])
  ultimately have eq: "ident_role j = rn \<and> ident_ticket j = t \<and> ordinal j = ordinal i"
    using format_agent_id_inj [of "ident_role j" "ident_ticket j" "ordinal j" rn t "ordinal i"] i(1-3)
    by blast
  have "ordinal i \<le> dict_get_or 0 (ordinals reg) (rn, t)" using wf(3) unfolding eq [THEN conjunct1]
      eq [THEN conjunct2, THEN conjunct1] eq [THEN conjunct2, THEN conjunct2] .
  with i(4) show False by linarith
qed

lemma spawn_known:
  assumes "registry_inv reg" and "spawn reg a b = (Inr i, reg')"
  shows "map_of (identities reg') = (map_of (identities reg))(agent_id i \<mapsto> i)"
proof -
  from assms(2) obtain rn t where "a = PStr rn" "b = PStr t" using spawn_typed by blast
  with assms have "identities reg' = dict_set (agent_id i) i (identities reg)"
    using spawn_Inr_iff [OF assms(1), of rn t i reg'] by (auto simp: Let_def)
  then show ?thesis by (simp add: update_conv')
qed

text \<open>The registry is an issuer: requests are pairs of a role name and a ticket.\<close>

abbreviation spawn_request :: "role_registry \<Rightarrow> pyval \<times> pyval \<Rightarrow> agent_identity res \<times> role_registry" where
  "spawn_request reg q \<equiv> spawn reg (fst q) (snd q)"

interpretation registry: identity_issuer registry_inv spawn_request "\<lambda>reg. map_of (identities reg)" agent_id
  by unfold_locales (simp_all add: registry_inv_spawn spawn_fresh spawn_known spawn_failed)

section \<open>What the registry guarantees\<close>

lemma known_identity_wf:
  "registry_inv reg \<Longrightarrow> identity reg (PStr a) = Some i \<Longrightarrow> agent_id i = a \<and> identity_wf i"
  by (auto simp: registry_inv_def identity_def)

lemma identity_wf_role: "identity_wf i \<Longrightarrow> \<exists>r. role (PStr (ident_role i)) = Inr r \<and> role_name r = ident_role i
    \<and> role_may_write r = (ident_role i = ROLE_EXECUTOR)
    \<and> conclusions_kind r = the (dict_get ROLE_CONCLUSION_KIND (ident_role i))"
  by (simp add: identity_wf_def role_Inr)

lemma issued_inv: "registry_inv reg \<Longrightarrow> registry_inv (snd (issue_all spawn_request reg qs))"
  by (rule registry.issue_all_inv)

text \<open>C27. However many agents are spawned from an empty registry, and whichever requests fail in
  between, the identifiers handed out are pairwise distinct and each stays bound to its identity.\<close>

theorem spawned_ids_distinct_and_kept:
  "distinct (map agent_id (fst (issue_all spawn_request empty_registry qs)))
   \<and> (\<forall>i\<in>set (fst (issue_all spawn_request empty_registry qs)).
        require (snd (issue_all spawn_request empty_registry qs)) (PStr (agent_id i)) = Inr i)"
proof (intro conjI ballI)
  show "distinct (map agent_id (fst (issue_all spawn_request empty_registry qs)))"
    by (rule registry.issued_keys_distinct [OF registry_inv_empty])
next
  fix i assume "i \<in> set (fst (issue_all spawn_request empty_registry qs))"
  note registry.issued_stay_known [OF registry_inv_empty this]
  then show "require (snd (issue_all spawn_request empty_registry qs)) (PStr (agent_id i)) = Inr i"
    unfolding require_def identity_def pyval.case by (simp only: option.case)
qed

text \<open>An identity that \<open>spawn\<close> returns parses back, from its identifier alone, to its own role,
  ticket and ordinal.\<close>

theorem spawned_id_parses_back:
  assumes "registry_inv reg" and "spawn reg rn tid = (Inr i, reg')"
  shows "parse_agent_id (PStr (agent_id i)) = Inr (ident_role i, ident_ticket i, ordinal i)
    \<and> rn = PStr (ident_role i) \<and> tid = PStr (ident_ticket i)"
proof -
  from assms(2) obtain r t where rt: "rn = PStr r" "tid = PStr t" using spawn_typed by blast
  have i: "r \<in> set role_names" "plain_ticket t" "ordinal i \<le> 999999" "1 \<le> ordinal i"
    "ident_role i = r" "ident_ticket i = t" "agent_id i = format_agent_id r t (ordinal i)"
    using assms rt spawn_Inr_iff [OF assms(1), of r t i reg']
    by (auto simp: Let_def registry_inv_def)
  then show ?thesis using parse_format_agent_id rt by simp
qed

text \<open>\<open>assert_may_write\<close> accepts exactly the executor identities the registry issued: an
  identity it does not know, or one that differs in any field from the stored one, is refused.\<close>

theorem assert_may_write_iff:
  assumes "registry_inv reg"
  shows "assert_may_write reg (Some i) = Inr () \<longleftrightarrow>
    identity reg (PStr (agent_id i)) = Some i \<and> ident_role i = ROLE_EXECUTOR"
proof (cases "identity reg (PStr (agent_id i)) = Some i")
  case True
  with assms have "identity_wf i" using known_identity_wf by blast
  from identity_wf_role [OF this] True show ?thesis
    by (auto simp: assert_may_write_def identity_may_write_def)
next
  case False
  then show ?thesis by (auto simp: assert_may_write_def split: option.splits)
qed

text \<open>No role can conclude in the name of another: two identities admitted for the same kind of
  conclusion have the same role.\<close>

theorem conclusion_kind_separates_roles:
  assumes "registry_inv reg"
    and "assert_conclusion_kind reg (Some i) kind = Inr k"
    and "assert_conclusion_kind reg (Some j) kind = Inr k'"
  shows "ident_role i = ident_role j \<and> k = k' \<and> kind = PStr k"
proof -
  have *: "ident_role x \<in> set role_names \<and> Some k'' = dict_get ROLE_CONCLUSION_KIND (ident_role x)
      \<and> kind = PStr k''" if acc: "assert_conclusion_kind reg (Some x) kind = Inr k''" for x k''
  proof -
    have "identity reg (PStr (agent_id x)) = Some x"
      using acc by (auto simp: assert_conclusion_kind_def split: option.splits if_splits)
    with assms(1) have wf: "identity_wf x" using known_identity_wf by blast
    have "dict_get ROLE_CONCLUSION_KIND (ident_role x) \<noteq> None"
      using wf by (auto simp: identity_wf_def role_names_def ROLE_CONCLUSION_KIND_def)
    with wf identity_wf_role [OF wf] acc show ?thesis
      by (auto simp: assert_conclusion_kind_def identity_wf_def split: option.splits if_splits)
  qed
  from * [OF assms(2)] * [OF assms(3)] show ?thesis
    using conclusion_kind_inj [of "ident_role i" "ident_role j"] by auto
qed

text \<open>The ticket check and the identifier check disagree on a trailing newline: a ticket
  followed by a newline is a valid ticket for \<open>is_valid_ticket_id\<close>, but no agent can ever be
  spawned for it, and every attempt consumes an ordinal.\<close>

theorem newline_ticket_never_spawns:
  assumes "registry_inv reg" and "plain_ticket t" and "rn \<in> set role_names"
  shows "is_valid_ticket_id (PStr (t @ [CHR 10]))
    \<and> (\<exists>e. spawn reg (PStr rn) (PStr (t @ [CHR 10])) =
         (Inl e, reg\<lparr>ordinals := dict_set (rn, t @ [CHR 10])
            (dict_get_or 0 (ordinals reg) (rn, t @ [CHR 10]) + 1) (ordinals reg)\<rparr>))"
proof -
  let ?t = "t @ [CHR 10]"
  let ?n = "dict_get_or 0 (ordinals reg) (rn, ?t) + 1"
  have v: "re_match TICKET_RE ?t" using assms(2) by (auto simp: TICKET_RE_iff with_optional_newline_def)
  have r: "role (PStr rn) = Inr \<lparr>role_name = rn, role_may_write = (rn = ROLE_EXECUTOR),
         conclusions_kind = the (dict_get ROLE_CONCLUSION_KIND rn)\<rparr>"
    using assms(3) by (simp add: role_Inr)
  have "mk_AgentIdentity (PStr (format_agent_id rn ?t ?n)) (PStr rn) (PStr ?t) (PInt ?n) \<noteq> Inr j" for j
    unfolding mk_identity_Inr_iff using parse_newline_ticket [OF assms(2)] by blast
  then obtain e where
    "mk_AgentIdentity (PStr (format_agent_id rn ?t ?n)) (PStr rn) (PStr ?t) (PInt ?n) = Inl e"
    by (metis sum.exhaust)
  with v r show ?thesis by (simp add: spawn_def Let_def is_valid_ticket_id_def)
qed

section \<open>Concrete instances\<close>

definition demo_registry :: role_registry where
  "demo_registry = snd (issue_all spawn_request empty_registry
     [(PStr ''executor'', PStr ''t1''), (PStr ''planner'', PStr ''t1'')])"

definition demo_executor :: agent_identity where
  "demo_executor = \<lparr>agent_id = ''executor#t1#1'', ident_role = ''executor'', ident_ticket = ''t1'', ordinal = 1\<rparr>"

definition demo_planner :: agent_identity where
  "demo_planner = \<lparr>agent_id = ''planner#t1#1'', ident_role = ''planner'', ident_ticket = ''t1'', ordinal = 1\<rparr>"

lemma string_of_nat_one: "string_of_nat (Suc 0) = ''1''"
  by code_simp

lemma demo_spawn: "spawn empty_registry (PStr ''executor'') (PStr ''t1'') =
    (Inr demo_executor, \<lparr>identities = [(''executor#t1#1'', demo_executor)],
      ordinals = [((''executor'', ''t1''), 1)]\<rparr>)"
proof -
  have "plain_ticket ''t1''" by code_simp
  then show ?thesis
    unfolding spawn_Inr_iff [OF registry_inv_empty]
    by (simp add: role_names_def role_names_defs empty_registry_def dict_get_or_def demo_executor_def
        format_agent_id_def string_of_int_def string_of_nat_one)
qed

lemma demo_spawn2: "spawn \<lparr>identities = [(''executor#t1#1'', demo_executor)], ordinals = [((''executor'', ''t1''), 1)]\<rparr>
     (PStr ''planner'') (PStr ''t1'') =
    (Inr demo_planner, \<lparr>identities = [(''executor#t1#1'', demo_executor), (''planner#t1#1'', demo_planner)],
     ordinals = [((''executor'', ''t1''), 1), ((''planner'', ''t1''), 1)]\<rparr>)"
proof -
  have t: "plain_ticket ''t1''" by code_simp
  have inv: "registry_inv \<lparr>identities = [(''executor#t1#1'', demo_executor)], ordinals = [((''executor'', ''t1''), 1)]\<rparr>"
    using registry_inv_spawn [OF registry_inv_empty, of "PStr ''executor''" "PStr ''t1''"] by (simp add: demo_spawn)
  from t show ?thesis
    unfolding spawn_Inr_iff [OF inv]
    by (simp add: role_names_def role_names_defs dict_get_or_def demo_planner_def
        format_agent_id_def string_of_int_def string_of_nat_one)
qed

abbreviation demo_requests :: "(pyval \<times> pyval) list" where
  "demo_requests \<equiv> [(PStr ''executor'', PStr ''t1''), (PStr ''planner'', PStr ''t1'')]"

lemma demo_issue:
  "issue_all spawn_request empty_registry demo_requests =
    ([demo_executor, demo_planner],
     \<lparr>identities = [(''executor#t1#1'', demo_executor), (''planner#t1#1'', demo_planner)],
      ordinals = [((''executor'', ''t1''), 1), ((''planner'', ''t1''), 1)]\<rparr>)"
  by (simp add: demo_spawn demo_spawn2)

lemma demo_registry_inv: "registry_inv demo_registry"
  unfolding demo_registry_def by (rule issued_inv [OF registry_inv_empty])

lemma demo_registry_eq:
  "demo_registry = \<lparr>identities = [(''executor#t1#1'', demo_executor), (''planner#t1#1'', demo_planner)],
     ordinals = [((''executor'', ''t1''), 1), ((''planner'', ''t1''), 1)]\<rparr>"
  unfolding demo_registry_def demo_issue by simp

theorem spawned_ids_distinct_and_kept_witness:
  "require demo_registry (PStr ''executor#t1#1'') = Inr demo_executor
   \<and> fst (issue_all spawn_request empty_registry demo_requests) = [demo_executor, demo_planner]"
  using spawned_ids_distinct_and_kept [of demo_requests]
  unfolding demo_issue demo_registry_eq by (simp add: demo_executor_def)

theorem spawned_id_parses_back_witness:
  "spawn empty_registry (PStr ''executor'') (PStr ''t1'') \<noteq> (Inl (RoleError ''x''), empty_registry)
   \<and> parse_agent_id (PStr (agent_id demo_executor)) = Inr (''executor'', ''t1'', 1)"
  using spawned_id_parses_back [OF registry_inv_empty demo_spawn] demo_spawn
  by (simp add: demo_executor_def)

theorem assert_may_write_iff_witness:
  "assert_may_write demo_registry (Some demo_executor) = Inr ()
   \<and> assert_may_write demo_registry (Some demo_planner) \<noteq> Inr ()
   \<and> assert_may_write demo_registry (Some (demo_executor\<lparr>ordinal := 2\<rparr>)) \<noteq> Inr ()"
  unfolding assert_may_write_iff [OF demo_registry_inv]
  by (simp add: demo_registry_eq identity_def demo_executor_def demo_planner_def ROLE_EXECUTOR_def)

theorem conclusion_kind_separates_roles_witness:
  "assert_conclusion_kind demo_registry (Some demo_planner) (PStr ''plan'') = Inr ''plan''
   \<and> ident_role demo_planner = ident_role demo_planner"
proof -
  have "assert_conclusion_kind demo_registry (Some demo_planner) (PStr ''plan'') = Inr ''plan''"
    unfolding demo_registry_eq by code_simp
  with conclusion_kind_separates_roles [OF demo_registry_inv this this] show ?thesis by simp
qed

theorem newline_ticket_never_spawns_witness:
  "is_valid_ticket_id (PStr [CHR ''t'', CHR 10])
   \<and> fst (spawn empty_registry (PStr ROLE_PLANNER) (PStr [CHR ''t'', CHR 10])) \<noteq> Inr demo_planner"
proof -
  have "plain_ticket ''t''" by code_simp
  from newline_ticket_never_spawns [OF registry_inv_empty this, of ROLE_PLANNER]
  show ?thesis by (auto simp: role_names_def)
qed

end
