(* ===== verification/Write_Lease.thy ===== *)
theory Write_Lease
  imports Py_Regex
begin

text \<open>
  \<^verbatim>\<open>src/icode/write_lease.py\<close>: regions, the in-process table of held regions and the lock files
  that processes share. The operations of \<^verbatim>\<open>WriteLeaseBoard\<close> pass two states: the board (its table)
  and \<open>lock_files\<close> (the lock directory and the exclusive locks of the kernel, which all processes
  see). What the operating system may answer in a call (a missing module, a failing
  \<^verbatim>\<open>open\<close>, \<^verbatim>\<open>chmod\<close> or \<^verbatim>\<open>fsync\<close>) is the argument \<open>os_answers\<close>; the hash is the argument \<open>sha256\<close>.
\<close>

section \<open>Regions\<close>

type_synonym region = "string list"

definition CONTROL_PLANE_MARKERS :: "string list" where
  "CONTROL_PLANE_MARKERS =
     [''.ico_events.jsonl'', ''.ico_metadata.json'', ''.icode_output_'', ''.git/AI-HANDOFF'', ''gates.json'']"

definition SEGMENT_RE :: regex where
  "SEGMENT_RE = RSeq (rplus (RCls id_char)) RDollar"

definition DRIVE_RE :: regex where
  "DRIVE_RE = RSeq (RCls is_letter) (rlit '':'')"

definition invalid_region :: exc where
  "invalid_region = LeaseError ''invalid_region''"

definition region_parts :: "pyval \<Rightarrow> pyval list res" where
  "region_parts v = (case v of
       PTuple xs \<Rightarrow> Inr xs
     | PList xs \<Rightarrow> Inr xs
     | PStr s \<Rightarrow>
         if strip s = [] then Inl invalid_region
         else if starts_with ''/'' (lstrip s) \<or> starts_with ''~'' (lstrip s) \<or> re_match DRIVE_RE (strip s)
         then Inl invalid_region
         else let text = strip_of (\<lambda>c. c = CHR ''/'') (strip (replace_char (CHR 92) (CHR ''/'') s))
              in Inr (if text = [] then [] else map PStr (split_on (CHR ''/'') text))
     | _ \<Rightarrow> Inl invalid_region)"

definition check_segment :: "pyval \<Rightarrow> unit res" where
  "check_segment part = (case part of
       PStr s \<Rightarrow>
         if s = [] \<or> s = ''.'' \<or> s = ''..'' then Inl invalid_region
         else if \<not> re_match SEGMENT_RE s then Inl invalid_region
         else Inr ()
     | _ \<Rightarrow> Inl invalid_region)"

definition normalize_region :: "pyval \<Rightarrow> region res" where
  "normalize_region v =
     bindr (region_parts v) (\<lambda>parts.
       if parts = [] then Inl invalid_region
       else bindr (first_err (map check_segment parts)) (\<lambda>_.
         (case map_opt as_str parts of
            None \<Rightarrow> Inl invalid_region
          | Some segs \<Rightarrow>
              if list_ex (\<lambda>marker. contains marker (join ''/'' segs)) CONTROL_PLANE_MARKERS
              then Inl invalid_region else Inr segs)))"

definition regions_overlap :: "region \<Rightarrow> region \<Rightarrow> bool" where
  "regions_overlap left right =
     (let shorter = min (length left) (length right) in take shorter left = take shorter right)"

definition digest :: "(string \<Rightarrow> string) \<Rightarrow> region \<Rightarrow> string" where
  "digest sha256 r = sha256 (join ''/'' r)"

section \<open>Lock files\<close>

record lock_files =
  file_content :: "(ppath, string) dict"
  file_locks :: "(ppath, nat) dict"
  next_stream :: nat

record os_answers =
  os_name :: string
  dir_fails :: bool
  open_fails :: bool
  create_fails :: bool
  lock_module_missing :: bool
  lock_errno :: "int option"
  write_fails :: bool

definition prepare_lease_directory :: "os_answers \<Rightarrow> ppath \<Rightarrow> ppath res" where
  "prepare_lease_directory ans dir =
     (if dir_fails ans then Inl (LeaseError ''invalid_lease_dir'') else Inr dir)"

definition raise_lock_error :: "os_answers \<Rightarrow> int \<Rightarrow> exc" where
  "raise_lock_error ans errno =
     (let contention = (if os_name ans = ''posix'' then errno = 11 \<or> errno = 35 else errno = 33 \<or> errno = 36)
      in if contention then LeaseBusy [] [] else LeaseError ''lock_failed'')"

text \<open>The kernel refuses a second exclusive lock with the contention number of the platform.\<close>

definition lock_outcome :: "os_answers \<Rightarrow> ppath \<Rightarrow> lock_files \<Rightarrow> int option" where
  "lock_outcome ans path fs =
     (if dict_get (file_locks fs) path \<noteq> None then Some (if os_name ans = ''posix'' then 11 else 33)
      else lock_errno ans)"

definition acquire_file_lock :: "os_answers \<Rightarrow> ppath \<Rightarrow> nat \<Rightarrow> lock_files \<Rightarrow> unit res \<times> lock_files" where
  "acquire_file_lock ans path stream fs =
     (if os_name ans = ''posix'' \<or> os_name ans = ''nt'' then
        if lock_module_missing ans then (Inl (LeaseError ''lock_unavailable''), fs)
        else (case lock_outcome ans path fs of
            Some errno \<Rightarrow> (Inl (raise_lock_error ans errno), fs)
          | None \<Rightarrow> (Inr (), fs\<lparr>file_locks := dict_set path stream (file_locks fs)\<rparr>))
      else (Inl (LeaseError ''lock_unavailable''), fs))"

text \<open>Unlocking, or closing the stream, gives up the lock that this stream holds.\<close>

definition release_file_lock :: "ppath \<Rightarrow> nat \<Rightarrow> lock_files \<Rightarrow> lock_files" where
  "release_file_lock path stream fs =
     (if dict_get (file_locks fs) path = Some stream
      then fs\<lparr>file_locks := dict_del path (file_locks fs)\<rparr> else fs)"

definition open_lock_file :: "os_answers \<Rightarrow> ppath \<Rightarrow> lock_files \<Rightarrow> nat res \<times> lock_files" where
  "open_lock_file ans path fs =
     (let opened = fs\<lparr>next_stream := Suc (next_stream fs)\<rparr> in
      case dict_get (file_content fs) path of
        Some _ \<Rightarrow>
          if open_fails ans then (Inl (LeaseError ''lock_failed''), fs) else (Inr (next_stream fs), opened)
      | None \<Rightarrow>
          if create_fails ans then (Inl (LeaseError ''lock_failed''), fs)
          else (Inr (next_stream fs), opened\<lparr>file_content := dict_set path [] (file_content fs)\<rparr>))"

definition write_holder :: "os_answers \<Rightarrow> ppath \<Rightarrow> nat \<Rightarrow> string \<Rightarrow> lock_files \<Rightarrow> unit res \<times> lock_files" where
  "write_holder ans path stream holder fs =
     (if write_fails ans then (Inl (LeaseError ''lock_failed''), release_file_lock path stream fs)
      else if dict_get (file_content fs) path = Some []
      then (Inr (), fs\<lparr>file_content := dict_set path holder (file_content fs)\<rparr>)
      else (Inr (), fs))"

section \<open>The board\<close>

record write_lease =
  lease_region :: region
  lease_holder :: string
  lease_path :: ppath
  lease_on_board :: bool
  lease_stream :: "nat option"
  lease_released :: bool

type_synonym region_table = "(region, string) dict"

record write_board =
  lease_dir :: ppath
  held_by_dir :: "(ppath, region_table) dict"

definition mk_board :: "pyval \<Rightarrow> write_board res" where
  "mk_board v = (case v of
       PPath p \<Rightarrow> Inr \<lparr>lease_dir = p, held_by_dir = []\<rparr>
     | PStr s \<Rightarrow> if s = [] then Inl (LeaseError ''invalid_lease_dir'')
                else Inr \<lparr>lease_dir = parse_path s, held_by_dir = []\<rparr>
     | _ \<Rightarrow> Inl (LeaseError ''invalid_lease_dir''))"

definition held :: "write_board \<Rightarrow> region_table" where
  "held b = dict_get_or [] (held_by_dir b) (lease_dir b)"

definition set_held :: "region_table \<Rightarrow> write_board \<Rightarrow> write_board" where
  "set_held t b = b\<lparr>held_by_dir := dict_set (lease_dir b) t (held_by_dir b)\<rparr>"

definition find_overlap :: "region_table \<Rightarrow> region \<Rightarrow> (region \<times> string) option" where
  "find_overlap t r = find (\<lambda>(existing, owner). regions_overlap existing r) t"

definition check_holder :: "pyval \<Rightarrow> string res" where
  "check_holder v = (case v of
       PStr s \<Rightarrow>
         if strip s = [] then Inl (LeaseError ''invalid_holder'')
         else if 128 < length (strip s) then Inl (LeaseError ''invalid_holder'')
         else Inr (strip s)
     | _ \<Rightarrow> Inl (LeaseError ''invalid_holder''))"

definition acquire ::
  "(string \<Rightarrow> string) \<Rightarrow> os_answers \<Rightarrow> pyval \<Rightarrow> pyval \<Rightarrow> write_board \<times> lock_files
    \<Rightarrow> write_lease res \<times> write_board \<times> lock_files" where
  "acquire sha256 ans region holder st =
     (case st of (b0, fs) \<Rightarrow>
      case normalize_region region of Inl e \<Rightarrow> (Inl e, b0, fs) | Inr parts \<Rightarrow>
     (case check_holder holder of Inl e \<Rightarrow> (Inl e, b0, fs) | Inr h \<Rightarrow>
     (let b = set_held (held b0) b0 in
      case find_overlap (held b) parts of
        Some (existing, owner) \<Rightarrow> (Inl (LeaseBusy existing owner), b, fs)
      | None \<Rightarrow>
     (case prepare_lease_directory ans (lease_dir b) of Inl e \<Rightarrow> (Inl e, b, fs) | Inr dir \<Rightarrow>
     (let path = path_join dir [digest sha256 parts] in
      case open_lock_file ans path fs of (Inl e, fs1) \<Rightarrow> (Inl e, b, fs1) | (Inr stream, fs1) \<Rightarrow>
     (case acquire_file_lock ans path stream fs1 of
        (Inl e, fs2) \<Rightarrow>
          (case e of LeaseBusy _ _ \<Rightarrow> (Inl (LeaseBusy parts ''unknown-cross-process''), b, fs2)
                   | _ \<Rightarrow> (Inl e, b, fs2))
      | (Inr _, fs2) \<Rightarrow>
     (case write_holder ans path stream h fs2 of
        (Inl e, fs3) \<Rightarrow> (Inl e, b, fs3)
      | (Inr _, fs3) \<Rightarrow>
          (Inr \<lparr>lease_region = parts, lease_holder = h, lease_path = path, lease_on_board = True,
               lease_stream = Some stream, lease_released = False\<rparr>,
           set_held (dict_set parts h (held b)) b, fs3))))))))"

definition discard :: "region \<Rightarrow> string \<Rightarrow> write_board \<Rightarrow> write_board" where
  "discard r h b =
     (case dict_get (held_by_dir b) (lease_dir b) of
        None \<Rightarrow> b
      | Some t \<Rightarrow> if dict_get t r = Some h then set_held (dict_del r t) b else b)"

text \<open>\<^verbatim>\<open>WriteLease.release\<close> unlocks the file first and leaves the table afterwards; another process
  can run between the two, so each is a function of its own.\<close>

definition lease_unlock :: "write_lease \<Rightarrow> lock_files \<Rightarrow> write_lease \<times> lock_files" where
  "lease_unlock l fs =
     (l\<lparr>lease_released := True, lease_stream := None\<rparr>,
      case lease_stream l of None \<Rightarrow> fs | Some s \<Rightarrow> release_file_lock (lease_path l) s fs)"

definition lease_leave :: "write_lease \<Rightarrow> write_board \<Rightarrow> write_lease \<times> write_board" where
  "lease_leave l b =
     (l\<lparr>lease_on_board := False\<rparr>,
      if lease_on_board l then discard (lease_region l) (lease_holder l) b else b)"

definition release :: "write_lease \<Rightarrow> write_board \<times> lock_files \<Rightarrow> write_lease \<times> write_board \<times> lock_files" where
  "release l st =
     (case st of (b, fs) \<Rightarrow>
       if lease_released l then (l, b, fs)
       else let (l1, fs1) = lease_unlock l fs; (l2, b1) = lease_leave l1 b in (l2, b1, fs1))"

text \<open>\<^verbatim>\<open>WriteLeaseBoard.release\<close>: the argument is a lease or something else.\<close>

definition board_release ::
  "write_lease option \<Rightarrow> write_board \<times> lock_files \<Rightarrow> unit res \<times> write_lease option \<times> write_board \<times> lock_files" where
  "board_release arg st =
     (case arg of None \<Rightarrow> (Inl (LeaseError ''invalid_lease''), None, st)
      | Some l \<Rightarrow> let (l', st') = release l st in (Inr (), Some l', st'))"

definition holders :: "write_board \<Rightarrow> (string, string list) dict" where
  "holders b = foldl (\<lambda>d (r, h). dict_set (join ''/'' r) [h] d) [] (sort_key fst (held b))"

section \<open>Regions: what is accepted, and when two overlap\<close>

lemma SEGMENT_RE_iff:
  "re_match SEGMENT_RE s \<longleftrightarrow> (\<exists>t. (s = t \<or> s = t @ [CHR 10]) \<and> t \<noteq> [] \<and> list_all id_char t)"
  by (auto simp: SEGMENT_RE_def re_match_plus_dollar)

definition segment_ok :: "string \<Rightarrow> bool" where
  "segment_ok s \<longleftrightarrow> s \<noteq> ''.'' \<and> s \<noteq> ''..'' \<and>
     (\<exists>t. (s = t \<or> s = t @ [CHR 10]) \<and> t \<noteq> [] \<and> list_all id_char t)"

lemma check_segment_Inr [simp]: "check_segment part = Inr u \<longleftrightarrow> (\<exists>s. part = PStr s \<and> segment_ok s)"
  by (cases part) (auto simp: check_segment_def segment_ok_def SEGMENT_RE_iff)

definition control_plane :: "region \<Rightarrow> bool" where
  "control_plane r \<longleftrightarrow> list_ex (\<lambda>marker. contains marker (join ''/'' r)) CONTROL_PLANE_MARKERS"

definition region_ok :: "region \<Rightarrow> bool" where
  "region_ok r \<longleftrightarrow> r \<noteq> [] \<and> list_all segment_ok r \<and> \<not> control_plane r"

lemma normalize_region_Inr:
  "normalize_region v = Inr r \<longleftrightarrow> region_parts v = Inr (map PStr r) \<and> region_ok r"
proof
  assume "normalize_region v = Inr r"
  then show "region_parts v = Inr (map PStr r) \<and> region_ok r"
    by (auto simp: normalize_region_def region_ok_def list_all_iff control_plane_def
        split: option.splits if_splits)
next
  assume a: "region_parts v = Inr (map PStr r) \<and> region_ok r"
  then have "first_err (map check_segment (map PStr r)) = Inr ()"
    by (simp add: region_ok_def list_all_iff)
  with a show "normalize_region v = Inr r"
    by (simp add: normalize_region_def region_ok_def control_plane_def del: first_err_Inr_iff)
qed

lemma raises_check_segment: "raises_only {invalid_region} (check_segment p)"
  by (simp add: check_segment_def raises_only_def split: pyval.splits)

lemma raises_region_parts: "raises_only {invalid_region} (region_parts v)"
  by (simp add: region_parts_def raises_only_def Let_def split: pyval.splits)

lemma normalize_region_error: "normalize_region v = Inl e \<Longrightarrow> e = LeaseError ''invalid_region''"
proof -
  have "raises_only {invalid_region} (normalize_region v)"
    unfolding normalize_region_def
    by (intro raises_rules raises_region_parts) (auto intro: raises_check_segment)
  then show "normalize_region v = Inl e \<Longrightarrow> e = LeaseError ''invalid_region''"
    by (auto dest: raises_onlyD simp: invalid_region_def)
qed

lemma segment_ok_no_slash: "segment_ok s \<Longrightarrow> CHR ''/'' \<notin> set s \<and> CHR 92 \<notin> set s \<and> s \<noteq> []"
  using id_char_not_sep by (force simp: segment_ok_def list_all_iff)

lemma region_ok_no_slash: "region_ok r \<Longrightarrow> s \<in> set r \<Longrightarrow> CHR ''/'' \<notin> set s"
  using segment_ok_no_slash by (auto simp: region_ok_def list_all_iff)

lemma region_ok_nonempty: "region_ok r \<Longrightarrow> r \<noteq> []"
  by (simp add: region_ok_def)

lemma region_join_inj:
  assumes "region_ok r" "region_ok q" "join ''/'' r = join ''/'' q"
  shows "r = q"
proof -
  have "split_on (CHR ''/'') (join ''/'' r) = r" "split_on (CHR ''/'') (join ''/'' q) = q"
    using assms(1,2) region_ok_no_slash by (blast intro: split_on_join [OF region_ok_nonempty])+
  with assms(3) show ?thesis by metis
qed

lemma regions_overlap_prefix:
  "regions_overlap l r \<longleftrightarrow> take (length l) r = l \<or> take (length r) l = r"
  by (auto simp: regions_overlap_def Let_def min_def)

lemma regions_overlap_refl [simp]: "regions_overlap r r"
  by (simp add: regions_overlap_def)

lemma regions_overlap_sym: "regions_overlap l r \<longleftrightarrow> regions_overlap r l"
  by (auto simp: regions_overlap_prefix)

lemma overlap_common_path:
  "regions_overlap l r \<longleftrightarrow> (\<exists>p. take (length l) p = l \<and> take (length r) p = r)"
proof
  assume "regions_overlap l r"
  then show "\<exists>p. take (length l) p = l \<and> take (length r) p = r"
    unfolding regions_overlap_prefix by (metis order_refl take_all)
next
  assume "\<exists>p. take (length l) p = l \<and> take (length r) p = r"
  then obtain p where p: "take (length l) p = l" "take (length r) p = r" by blast
  then have "take (min (length l) (length r)) l = take (min (length l) (length r)) p"
    "take (min (length l) (length r)) r = take (min (length l) (length r)) p"
    by (metis min.cobounded1 min.commute min_def take_take, metis min.cobounded2 min_def take_take)
  then show "regions_overlap l r" by (simp add: regions_overlap_def Let_def)
qed

section \<open>The table of held regions\<close>

definition separated :: "region_table \<Rightarrow> bool" where
  "separated t \<longleftrightarrow> dict_ok t \<and>
     (\<forall>r h r' h'. dict_get t r = Some h \<longrightarrow> dict_get t r' = Some h' \<longrightarrow> regions_overlap r r' \<longrightarrow> r = r')"

definition board_inv :: "write_board \<Rightarrow> bool" where
  "board_inv b \<longleftrightarrow> separated (held b) \<and> (\<forall>r h. dict_get (held b) r = Some h \<longrightarrow> region_ok r)"

lemma held_set_held [simp]: "held (set_held t b) = t"
  by (simp add: held_def set_held_def)

lemma lease_dir_set_held [simp]: "lease_dir (set_held t b) = lease_dir b"
  by (simp add: set_held_def)

lemma set_held_idem [simp]: "set_held t (set_held t' b) = set_held t b"
  by (simp add: set_held_def update_last)

lemma held_empty [simp]: "mk_board v = Inr b \<Longrightarrow> held b = []"
  by (auto simp: mk_board_def held_def dict_get_or_def split: pyval.splits if_splits)

lemma board_inv_empty: "held b = [] \<Longrightarrow> board_inv b"
  by (simp add: board_inv_def separated_def)

lemma find_overlap_None:
  "find_overlap t r = None \<longleftrightarrow> (\<forall>(r', h)\<in>set t. \<not> regions_overlap r' r)"
  by (auto simp: find_overlap_def find_None_iff)

lemma find_overlap_fresh: "find_overlap t r = None \<Longrightarrow> dict_get t r = None"
  using regions_overlap_refl [of r] by (auto simp: find_overlap_None map_of_eq_None_iff simp del: regions_overlap_refl)

lemma find_overlap_Some:
  assumes "find_overlap t r = Some (r', h)"
  shows "(r', h) \<in> set t \<and> regions_overlap r' r"
  using assms by (auto simp: find_overlap_def find_Some_iff dest: nth_mem)

lemma separated_add:
  assumes "separated t" "find_overlap t r = None"
  shows "separated (dict_set r h t) \<and> dict_get t r = None"
proof -
  have no: "\<not> regions_overlap r' r" if "dict_get t r' = Some h'" for r' h'
    using assms(2) map_of_SomeD [OF that] by (auto simp: find_overlap_None)
  then have fresh: "dict_get t r = None" using regions_overlap_refl by (metis not_None_eq)
  show ?thesis
    using assms(1) no fresh
    by (auto simp: separated_def regions_overlap_sym split: if_splits)
qed

lemma separated_del: "separated t \<Longrightarrow> separated (dict_del r t)"
  by (auto simp: separated_def split: if_splits)

section \<open>Acquiring and releasing\<close>

abbreviation lease_file :: "(string \<Rightarrow> string) \<Rightarrow> write_board \<Rightarrow> region \<Rightarrow> ppath" where
  "lease_file sha256 b r \<equiv> path_join (lease_dir b) [digest sha256 r]"

lemma open_lock_file_effect:
  assumes "open_lock_file ans path fs = (r, fs')"
  shows "file_locks fs' = file_locks fs \<and> next_stream fs \<le> next_stream fs'
    \<and> (\<forall>s. r = Inr s \<longrightarrow> s = next_stream fs \<and> next_stream fs' = Suc s)"
  using assms by (auto simp: open_lock_file_def Let_def split: option.splits if_splits)

lemma acquire_file_lock_effect:
  assumes "acquire_file_lock ans path stream fs = (r, fs')"
  shows "next_stream fs' = next_stream fs \<and>
    (case r of Inl e \<Rightarrow> fs' = fs
     | Inr _ \<Rightarrow> dict_get (file_locks fs) path = None \<and> file_locks fs' = dict_set path stream (file_locks fs))"
  using assms by (auto simp: acquire_file_lock_def lock_outcome_def split: option.splits if_splits)

lemma write_holder_failure:
  assumes "write_holder ans path stream h fs = (Inl e, fs')"
  shows "fs' = release_file_lock path stream fs"
  using assms by (auto simp: write_holder_def split: if_splits)

lemma release_file_lock_fresh:
  "file_locks fs' = dict_set path stream d \<Longrightarrow> dict_get d path = None \<Longrightarrow>
    file_locks (release_file_lock path stream fs') = d"
  by (simp add: release_file_lock_def dict_del_set_fresh)

lemma next_stream_release [simp]: "next_stream (release_file_lock path stream fs) = next_stream fs"
  by (simp add: release_file_lock_def)

lemma write_holder_success:
  assumes "write_holder ans path stream h fs = (Inr u, fs')"
  shows "file_locks fs' = file_locks fs \<and> next_stream fs' = next_stream fs"
  using assms by (auto simp: write_holder_def split: if_splits)

lemma acquire_success:
  assumes "acquire sha256 ans region holder (b, fs) = (Inr l, b', fs')"
  obtains parts h where "normalize_region region = Inr parts" "check_holder holder = Inr h"
    "find_overlap (held b) parts = None" "dict_get (file_locks fs) (lease_file sha256 b parts) = None"
    "l = \<lparr>lease_region = parts, lease_holder = h, lease_path = lease_file sha256 b parts,
          lease_on_board = True, lease_stream = Some (next_stream fs), lease_released = False\<rparr>"
    "b' = set_held (dict_set parts h (held b)) b"
    "file_locks fs' = dict_set (lease_file sha256 b parts) (next_stream fs) (file_locks fs)"
    "next_stream fs' = Suc (next_stream fs)"
proof -
  from assms obtain parts h stream fs1 fs2 where
    p: "normalize_region region = Inr parts" "check_holder holder = Inr h" "find_overlap (held b) parts = None"
    and o: "open_lock_file ans (lease_file sha256 b parts) fs = (Inr stream, fs1)"
    and a: "acquire_file_lock ans (lease_file sha256 b parts) stream fs1 = (Inr (), fs2)"
    and w: "write_holder ans (lease_file sha256 b parts) stream h fs2 = (Inr (), fs')"
    and l: "l = \<lparr>lease_region = parts, lease_holder = h, lease_path = lease_file sha256 b parts,
          lease_on_board = True, lease_stream = Some stream, lease_released = False\<rparr>"
    and b: "b' = set_held (dict_set parts h (held b)) b"
    unfolding acquire_def Let_def prod.case held_set_held lease_dir_set_held set_held_idem
      prepare_lease_directory_def
    by (auto split: sum.split_asm option.split_asm prod.split_asm exc.split_asm if_split_asm)
  from open_lock_file_effect [OF o] acquire_file_lock_effect [OF a] write_holder_success [OF w] l b
  show thesis by (intro that [OF p]) auto
qed

lemma acquire_failure:
  assumes "acquire sha256 ans region holder (b, fs) = (Inl e, b', fs')"
  shows "held b' = held b \<and> lease_dir b' = lease_dir b \<and> file_locks fs' = file_locks fs
    \<and> next_stream fs \<le> next_stream fs'"
proof -
  let ?b = "set_held (held b) b"
  have "b' = b \<and> fs' = fs \<or> b' = ?b \<and> (\<exists>path r fs1. open_lock_file ans path fs = (r, fs1) \<and>
      (fs' = fs1 \<or> (\<exists>stream. acquire_file_lock ans path stream fs1 = (Inl e, fs') \<or>
        (\<exists>e'. acquire_file_lock ans path stream fs1 = (Inl e', fs')) \<or>
        (\<exists>fs2 h. acquire_file_lock ans path stream fs1 = (Inr (), fs2)
           \<and> write_holder ans path stream h fs2 = (Inl e, fs')))))
    \<or> b' = ?b \<and> fs' = fs"
    using assms unfolding acquire_def Let_def prod.case held_set_held lease_dir_set_held
    by (auto split: sum.split_asm option.split_asm prod.split_asm exc.split_asm)
  then show ?thesis
    by (auto dest!: open_lock_file_effect acquire_file_lock_effect write_holder_failure
        simp: release_file_lock_fresh)
qed

lemma board_inv_acquire:
  assumes "board_inv b" and "acquire sha256 ans region holder (b, fs) = (r, b', fs')"
  shows "board_inv b'"
proof (cases r)
  case (Inl e)
  with assms acquire_failure show ?thesis by (simp add: board_inv_def)
next
  case (Inr l)
  with assms(2) obtain parts h where p: "normalize_region region = Inr parts"
    "find_overlap (held b) parts = None" "b' = set_held (dict_set parts h (held b)) b"
    using acquire_success by metis
  then have "region_ok parts" by (simp add: normalize_region_Inr)
  with assms(1) p separated_add [of "held b" parts h] show ?thesis by (simp add: board_inv_def)
qed

lemma held_discard:
  "held (discard r h b) = (if dict_get (held b) r = Some h then dict_del r (held b) else held b)"
  by (simp add: discard_def held_def [of b] dict_get_or_def split: option.splits)

lemma board_inv_discard: "board_inv b \<Longrightarrow> board_inv (discard r h b)"
  by (simp add: board_inv_def held_discard separated_del)

lemma lease_dir_discard [simp]: "lease_dir (discard r h b) = lease_dir b"
  by (simp add: discard_def split: option.splits)

lemma lease_dir_leave [simp]: "lease_dir (snd (lease_leave l b)) = lease_dir b"
  by (simp add: lease_leave_def)

lemma board_inv_release: "board_inv b \<Longrightarrow> board_inv (fst (snd (release l (b, fs))))"
  by (simp add: release_def lease_leave_def lease_unlock_def board_inv_discard)

text \<open>A lease just obtained is given back exactly: table and kernel locks are as before.\<close>

lemma release_acquired:
  assumes "acquire sha256 ans region holder (b, fs) = (Inr l, b1, fs1)"
  shows "held (fst (snd (release l (b1, fs1)))) = held b
    \<and> file_locks (snd (snd (release l (b1, fs1)))) = file_locks fs
    \<and> lease_released (fst (release l (b1, fs1)))"
proof -
  from assms obtain parts h where p: "find_overlap (held b) parts = None"
    "dict_get (file_locks fs) (lease_file sha256 b parts) = None"
    "l = \<lparr>lease_region = parts, lease_holder = h, lease_path = lease_file sha256 b parts,
          lease_on_board = True, lease_stream = Some (next_stream fs), lease_released = False\<rparr>"
    "b1 = set_held (dict_set parts h (held b)) b"
    "file_locks fs1 = dict_set (lease_file sha256 b parts) (next_stream fs) (file_locks fs)"
    by (rule acquire_success)
  have "dict_get (held b) parts = None" using p(1) by (rule find_overlap_fresh)
  with p show ?thesis
    by (simp add: release_def lease_unlock_def lease_leave_def release_file_lock_def held_discard
        dict_del_set_fresh)
qed

section \<open>The board as an interface\<close>

text \<open>
  What a client of a lease board relies on: a grant adds one claim that was absent, a refusal adds
  none, giving a live lease back removes its claim and nothing else.
\<close>

definition with_lease ::
  "('q \<Rightarrow> 's \<Rightarrow> 'l res \<times> 's) \<Rightarrow> ('l \<Rightarrow> 's \<Rightarrow> 's) \<Rightarrow> 'q \<Rightarrow> ('l \<Rightarrow> 's \<Rightarrow> 'a res \<times> 's) \<Rightarrow> 's \<Rightarrow> 'a res \<times> 's" where
  "with_lease acq rel q body s =
     (case acq q s of (Inl e, s1) \<Rightarrow> (Inl e, s1)
      | (Inr l, s1) \<Rightarrow> let (r, s2) = body l s1 in (r, rel l s2))"

fun acquire_all :: "('q \<Rightarrow> 's \<Rightarrow> 'l res \<times> 's) \<Rightarrow> 'q list \<Rightarrow> 's \<Rightarrow> 'l list \<times> 's" where
  "acquire_all acq [] s = ([], s)"
| "acquire_all acq (q # qs) s =
     (case acq q s of (Inl e, s1) \<Rightarrow> acquire_all acq qs s1
      | (Inr l, s1) \<Rightarrow> let (ls, s2) = acquire_all acq qs s1 in (l # ls, s2))"

locale lease_board =
  fixes inv :: "'s \<Rightarrow> bool"
    and acq :: "'q \<Rightarrow> 's \<Rightarrow> 'l res \<times> 's"
    and rel :: "'l \<Rightarrow> 's \<Rightarrow> 's"
    and claims :: "'s \<Rightarrow> 'k \<Rightarrow> 'h option"
    and claim :: "'l \<Rightarrow> 'k"
    and owner :: "'l \<Rightarrow> 'h"
    and live :: "'l \<Rightarrow> bool"
    and conflict :: "'k \<Rightarrow> 'k \<Rightarrow> bool"
  assumes inv_acq: "inv s \<Longrightarrow> inv (snd (acq q s))"
    and inv_rel: "inv s \<Longrightarrow> inv (rel l s)"
    and granted: "inv s \<Longrightarrow> acq q s = (Inr l, s') \<Longrightarrow>
          claims s (claim l) = None \<and> claims s' = (claims s)(claim l \<mapsto> owner l) \<and> live l"
    and refused: "inv s \<Longrightarrow> acq q s = (Inl e, s') \<Longrightarrow> claims s' = claims s"
    and given_back: "inv s \<Longrightarrow> live l \<Longrightarrow> claims s (claim l) = Some (owner l) \<Longrightarrow>
          claims (rel l s) = (claims s)(claim l := None)"
    and disjoint: "inv s \<Longrightarrow> claims s k = Some h \<Longrightarrow> claims s k' = Some h' \<Longrightarrow> conflict k k' \<Longrightarrow> k = k'"
begin

lemma with_lease_restores:
  assumes "inv s" and body: "\<And>l s1. inv s1 \<Longrightarrow> inv (snd (body l s1)) \<and> claims (snd (body l s1)) = claims s1"
  shows "inv (snd (with_lease acq rel q body s)) \<and> claims (snd (with_lease acq rel q body s)) = claims s"
proof (cases "acq q s")
  case (Pair r s1)
  have i1: "inv s1" using inv_acq [OF assms(1), of q] Pair by simp
  show ?thesis
  proof (cases r)
    case (Inl e)
    with Pair i1 refused [OF assms(1)] show ?thesis by (simp add: with_lease_def)
  next
    case (Inr l)
    with Pair have acq: "acq q s = (Inr l, s1)" by simp
    obtain a s2 where b: "body l s1 = (a, s2)" by (cases "body l s1")
    have s2: "inv s2" "claims s2 = claims s1" using body [OF i1, of l] b by simp_all
    note g = granted [OF assms(1) acq]
    have "claims (rel l s2) = (claims s2)(claim l := None)"
      using given_back [OF s2(1)] g s2(2) by simp
    also have "\<dots> = claims s" using g s2(2) by auto
    finally show ?thesis using acq b inv_rel [OF s2(1)] by (simp add: with_lease_def)
  qed
qed

lemma acquire_all_released:
  "inv s \<Longrightarrow> acquire_all acq qs s = (ls, s') \<Longrightarrow>
    inv s' \<and> inv (fold rel (rev ls) s') \<and> claims (fold rel (rev ls) s') = claims s"
proof (induction qs arbitrary: s ls)
  case Nil
  then show ?case by simp
next
  case (Cons q qs)
  obtain r s1 where q: "acq q s = (r, s1)" by (cases "acq q s")
  have i1: "inv s1" using inv_acq [OF Cons.prems(1), of q] q by simp
  show ?case
  proof (cases r)
    case (Inl e)
    with q Cons.prems have "acquire_all acq qs s1 = (ls, s')" by simp
    from Cons.IH [OF i1 this] refused [OF Cons.prems(1)] q Inl show ?thesis by simp
  next
    case (Inr l)
    with q Cons.prems obtain ms where ms: "acquire_all acq qs s1 = (ms, s')" "ls = l # ms"
      by (auto split: prod.splits)
    note ih = Cons.IH [OF i1 ms(1)]
    from q Inr have "acq q s = (Inr l, s1)" by simp
    note g = granted [OF Cons.prems(1) this]
    have "claims (rel l (fold rel (rev ms) s')) = (claims s1)(claim l := None)"
    proof -
      have c: "claims (fold rel (rev ms) s') = claims s1" using ih by blast
      have "claims s1 (claim l) = Some (owner l)" using g by simp
      then show ?thesis using given_back [of "fold rel (rev ms) s'" l] ih g unfolding c by blast
    qed
    also have "\<dots> = claims s" using g by auto
    finally have "claims (rel l (fold rel (rev ms) s')) = claims s" .
    with ih inv_rel show ?thesis unfolding ms(2) rev.simps fold_append fold_simps comp_apply id_apply by blast
  qed
qed

end

text \<open>A request to the board carries what the operating system answers to it.\<close>

type_synonym lease_request = "os_answers \<times> pyval \<times> pyval"

definition acquire_request ::
  "(string \<Rightarrow> string) \<Rightarrow> lease_request \<Rightarrow> write_board \<times> lock_files \<Rightarrow> write_lease res \<times> write_board \<times> lock_files" where
  "acquire_request sha256 q st = (case q of (ans, region, holder) \<Rightarrow> acquire sha256 ans region holder st)"

definition lease_live :: "write_lease \<Rightarrow> bool" where
  "lease_live l \<longleftrightarrow> lease_on_board l \<and> \<not> lease_released l"

interpretation board: lease_board "\<lambda>st. board_inv (fst st)" "acquire_request sha256"
    "\<lambda>l st. snd (release l st)" "\<lambda>st. map_of (held (fst st))" lease_region lease_holder lease_live
    regions_overlap for sha256
proof
  fix s :: "write_board \<times> lock_files" and q
  assume "board_inv (fst s)"
  then show "board_inv (fst (snd (acquire_request sha256 q s)))"
    by (cases s; cases q; cases "acquire_request sha256 q s")
      (auto simp: acquire_request_def intro: board_inv_acquire)
next
  fix s :: "write_board \<times> lock_files" and l
  assume "board_inv (fst s)"
  then show "board_inv (fst (snd (release l s)))" by (cases s) (simp add: board_inv_release)
next
  fix s q l s'
  assume "board_inv (fst s)" and "acquire_request sha256 q s = (Inr l, s')"
  then obtain ans region holder b fs b' fs' where
    "acquire sha256 ans region holder (b, fs) = (Inr l, b', fs')" "s = (b, fs)" "s' = (b', fs')"
    by (cases s; cases q; cases s') (simp add: acquire_request_def)
  then show "map_of (held (fst s)) (lease_region l) = None
      \<and> map_of (held (fst s')) = (map_of (held (fst s)))(lease_region l \<mapsto> lease_holder l) \<and> lease_live l"
    by (auto elim!: acquire_success dest: find_overlap_fresh simp: update_conv' lease_live_def)
next
  fix s q e s'
  assume "board_inv (fst s)" and "acquire_request sha256 q s = (Inl e, s')"
  then show "map_of (held (fst s')) = map_of (held (fst s))"
    by (cases s; cases q; cases s') (auto simp: acquire_request_def dest: acquire_failure)
next
  fix s :: "write_board \<times> lock_files" and l
  assume "board_inv (fst s)" and "lease_live l" and "map_of (held (fst s)) (lease_region l) = Some (lease_holder l)"
  then show "map_of (held (fst (snd (release l s)))) = (map_of (held (fst s)))(lease_region l := None)"
    by (cases s) (auto simp: release_def lease_unlock_def lease_leave_def lease_live_def held_discard delete_conv')
next
  fix s :: "write_board \<times> lock_files" and k h k' h'
  assume "board_inv (fst s)" and "map_of (held (fst s)) k = Some h" and "map_of (held (fst s)) k' = Some h'"
    and "regions_overlap k k'"
  then show "k = k'" unfolding board_inv_def separated_def by blast
qed

section \<open>Several processes\<close>

text \<open>
  Each process has one board, the table the code keeps per \<^verbatim>\<open>WriteLeaseBoard\<close>; the processes share the lock files.
  Two boards in one process are not told apart from two processes here. A granted lease is recorded under
  the stream it was granted on. A process runs \<open>acquire\<close>, the two halves of \<open>release\<close> at separate
  times, or ends, which closes its streams and forgets its table.
\<close>

record lease_system =
  boards :: "nat \<Rightarrow> write_board"
  shared :: lock_files
  leases :: "nat \<Rightarrow> (nat \<times> write_lease) option"

definition drop_streams :: "(nat \<Rightarrow> bool) \<Rightarrow> lock_files \<Rightarrow> lock_files" where
  "drop_streams gone fs = fs\<lparr>file_locks := filter (\<lambda>(path, s). \<not> gone s) (file_locks fs)\<rparr>"

inductive lease_step :: "(string \<Rightarrow> string) \<Rightarrow> lease_system \<Rightarrow> lease_system \<Rightarrow> bool" for sha256 where
  grant: "acquire sha256 ans region holder (boards S p, shared S) = (Inr l, b, fs) \<Longrightarrow>
    lease_stream l = Some s \<Longrightarrow>
    lease_step sha256 S \<lparr>boards = (boards S)(p := b), shared = fs, leases = (leases S)(s \<mapsto> (p, l))\<rparr>"
| refuse: "acquire sha256 ans region holder (boards S p, shared S) = (Inl e, b, fs) \<Longrightarrow>
    lease_step sha256 S (S\<lparr>boards := (boards S)(p := b), shared := fs\<rparr>)"
| unlock: "leases S s = Some (p, l) \<Longrightarrow> \<not> lease_released l \<Longrightarrow> lease_unlock l (shared S) = (l', fs) \<Longrightarrow>
    lease_step sha256 S (S\<lparr>shared := fs, leases := (leases S)(s \<mapsto> (p, l'))\<rparr>)"
| leave: "leases S s = Some (p, l) \<Longrightarrow> lease_released l \<Longrightarrow> lease_on_board l \<Longrightarrow>
    lease_leave l (boards S p) = (l', b) \<Longrightarrow>
    lease_step sha256 S (S\<lparr>boards := (boards S)(p := b), leases := (leases S)(s \<mapsto> (p, l'))\<rparr>)"
| exit: "gone = (\<lambda>s. \<exists>l. leases S s = Some (p, l)) \<Longrightarrow>
    lease_step sha256 S \<lparr>boards = (boards S)(p := (boards S p)\<lparr>held_by_dir := []\<rparr>),
      shared = drop_streams gone (shared S), leases = (\<lambda>s. if gone s then None else leases S s)\<rparr>"

definition lease_start :: "(nat \<Rightarrow> ppath) \<Rightarrow> lock_files \<Rightarrow> lease_system" where
  "lease_start dirs fs =
     \<lparr>boards = (\<lambda>p. \<lparr>lease_dir = dirs p, held_by_dir = []\<rparr>), shared = fs\<lparr>file_locks := []\<rparr>, leases = (\<lambda>_. None)\<rparr>"

definition lease_reachable :: "(string \<Rightarrow> string) \<Rightarrow> (nat \<Rightarrow> ppath) \<Rightarrow> lock_files \<Rightarrow> lease_system \<Rightarrow> bool" where
  "lease_reachable sha256 dirs fs S \<longleftrightarrow> (lease_step sha256)\<^sup>*\<^sup>* (lease_start dirs fs) S"

definition lease_entry_ok :: "(string \<Rightarrow> string) \<Rightarrow> lease_system \<Rightarrow> nat \<Rightarrow> nat \<Rightarrow> write_lease \<Rightarrow> bool" where
  "lease_entry_ok sha256 S s p l \<longleftrightarrow>
     s < next_stream (shared S)
     \<and> lease_path l = lease_file sha256 (boards S p) (lease_region l)
     \<and> region_ok (lease_region l)
     \<and> (lease_stream l = (if lease_released l then None else Some s))
     \<and> (\<not> lease_released l \<longrightarrow> lease_on_board l \<and> dict_get (file_locks (shared S)) (lease_path l) = Some s)
     \<and> (lease_on_board l \<longrightarrow> dict_get (held (boards S p)) (lease_region l) = Some (lease_holder l))"

definition lease_sys_inv :: "(string \<Rightarrow> string) \<Rightarrow> (nat \<Rightarrow> ppath) \<Rightarrow> lease_system \<Rightarrow> bool" where
  "lease_sys_inv sha256 dirs S \<longleftrightarrow>
     (\<forall>p. lease_dir (boards S p) = dirs p \<and> board_inv (boards S p))
     \<and> dict_ok (file_locks (shared S))
     \<and> (\<forall>path s. dict_get (file_locks (shared S)) path = Some s \<longrightarrow> s < next_stream (shared S))
     \<and> (\<forall>s p l. leases S s = Some (p, l) \<longrightarrow> lease_entry_ok sha256 S s p l)
     \<and> (\<forall>s s' p l l'. leases S s = Some (p, l) \<longrightarrow> leases S s' = Some (p, l') \<longrightarrow>
          lease_on_board l \<longrightarrow> lease_on_board l' \<longrightarrow> lease_region l = lease_region l' \<longrightarrow> s = s')"

lemma lease_sys_inv_start: "lease_sys_inv sha256 dirs (lease_start dirs fs)"
  by (auto simp: lease_sys_inv_def lease_start_def board_inv_def separated_def held_def dict_get_or_def)

lemma lease_sys_invD:
  assumes "lease_sys_inv sha256 dirs S"
  shows "lease_dir (boards S p) = dirs p" "board_inv (boards S p)" "dict_ok (file_locks (shared S))"
    "dict_get (file_locks (shared S)) path = Some s \<Longrightarrow> s < next_stream (shared S)"
    "leases S s = Some (p, l) \<Longrightarrow> lease_entry_ok sha256 S s p l"
    "leases S s = Some (p, l) \<Longrightarrow> leases S s' = Some (p, l') \<Longrightarrow> lease_on_board l \<Longrightarrow> lease_on_board l' \<Longrightarrow>
       lease_region l = lease_region l' \<Longrightarrow> s = s'"
  using assms unfolding lease_sys_inv_def by blast+

lemma lease_sys_invI:
  assumes "\<And>p. lease_dir (boards S p) = dirs p" "\<And>p. board_inv (boards S p)" "dict_ok (file_locks (shared S))"
    "\<And>path s. dict_get (file_locks (shared S)) path = Some s \<Longrightarrow> s < next_stream (shared S)"
    "\<And>s p l. leases S s = Some (p, l) \<Longrightarrow> lease_entry_ok sha256 S s p l"
    "\<And>s s' p l l'. leases S s = Some (p, l) \<Longrightarrow> leases S s' = Some (p, l') \<Longrightarrow> lease_on_board l \<Longrightarrow>
       lease_on_board l' \<Longrightarrow> lease_region l = lease_region l' \<Longrightarrow> s = s'"
  shows "lease_sys_inv sha256 dirs S"
  using assms unfolding lease_sys_inv_def by blast

lemma lease_entry_ok_mono:
  assumes ok: "lease_entry_ok sha256 S s p l"
    and "next_stream (shared S) \<le> next_stream (shared S')"
    and "lease_dir (boards S' p) = lease_dir (boards S p)"
    and "\<not> lease_released l \<Longrightarrow> dict_get (file_locks (shared S)) (lease_path l) = Some s \<Longrightarrow>
      dict_get (file_locks (shared S')) (lease_path l) = Some s"
    and "lease_on_board l \<Longrightarrow> dict_get (held (boards S p)) (lease_region l) = Some (lease_holder l) \<Longrightarrow>
      dict_get (held (boards S' p)) (lease_region l) = Some (lease_holder l)"
  shows "lease_entry_ok sha256 S' s p l"
  using assms unfolding lease_entry_ok_def by auto

lemma lease_sys_inv_grant:
  assumes I: "lease_sys_inv sha256 dirs S"
    and acq: "acquire sha256 ans region holder (boards S p, shared S) = (Inr l, b, fs)"
    and s: "lease_stream l = Some s"
  shows "lease_sys_inv sha256 dirs \<lparr>boards = (boards S)(p := b), shared = fs, leases = (leases S)(s \<mapsto> (p, l))\<rparr>"
    (is "lease_sys_inv _ _ ?S")
proof -
  from acq obtain parts h where g: "normalize_region region = Inr parts" "find_overlap (held (boards S p)) parts = None"
    "dict_get (file_locks (shared S)) (lease_file sha256 (boards S p) parts) = None"
    "l = \<lparr>lease_region = parts, lease_holder = h, lease_path = lease_file sha256 (boards S p) parts,
          lease_on_board = True, lease_stream = Some (next_stream (shared S)), lease_released = False\<rparr>"
    "b = set_held (dict_set parts h (held (boards S p))) (boards S p)"
    "file_locks fs = dict_set (lease_file sha256 (boards S p) parts) (next_stream (shared S)) (file_locks (shared S))"
    "next_stream fs = Suc (next_stream (shared S))"
    by (rule acquire_success)
  have ok: "region_ok parts" using g(1) by (simp add: normalize_region_Inr)
  have s': "s = next_stream (shared S)" using s g(4) by simp
  have fresh: "dict_get (held (boards S p)) parts = None" using g(2) by (rule find_overlap_fresh)
  have old: "s' \<noteq> s" "lease_entry_ok sha256 ?S s' q m" if "leases S s' = Some (q, m)" for s' q m
  proof -
    have e: "lease_entry_ok sha256 S s' q m" using lease_sys_invD(5) [OF I that] .
    then show "s' \<noteq> s" using s' by (auto simp: lease_entry_ok_def)
    show "lease_entry_ok sha256 ?S s' q m"
      using e by (rule lease_entry_ok_mono) (use g fresh in \<open>auto split: if_splits\<close>)
  qed
  have new: "lease_entry_ok sha256 ?S s p l" using g ok s' by (simp add: lease_entry_ok_def)
  have diff: "lease_region m \<noteq> lease_region l" if "leases S s' = Some (p, m)" "lease_on_board m" for s' m
    using lease_sys_invD(5) [OF I that(1)] that(2) fresh g(4) by (auto simp: lease_entry_ok_def)
  have uniq: "s1 = s2" if t: "leases ?S s1 = Some (q, m1)" "leases ?S s2 = Some (q, m2)" "lease_on_board m1"
      "lease_on_board m2" "lease_region m1 = lease_region m2" for s1 s2 q m1 m2
  proof (rule ccontr)
    assume ne: "s1 \<noteq> s2"
    consider "s1 = s" "leases S s2 = Some (q, m2)" | "s2 = s" "leases S s1 = Some (q, m1)"
      | "leases S s1 = Some (q, m1)" "leases S s2 = Some (q, m2)"
      using t(1,2) ne by (auto split: if_splits)
    then show False
    proof cases
      case 1
      with t have "m1 = l" "q = p" by auto
      with 1 diff t(4,5) show False by metis
    next
      case 2
      with t have "m2 = l" "q = p" by auto
      with 2 diff t(3,5) show False by metis
    next
      case 3
      with lease_sys_invD(6) [OF I] t ne show False by blast
    qed
  qed
  show ?thesis
  proof (rule lease_sys_invI)
    show "lease_dir (boards ?S q) = dirs q" for q using lease_sys_invD(1) [OF I] g(5) by simp
    show "board_inv (boards ?S q)" for q
      using lease_sys_invD(2) [OF I] board_inv_acquire [OF lease_sys_invD(2) [OF I] acq] by simp
    show "dict_ok (file_locks (shared ?S))" using lease_sys_invD(3) [OF I] g(6) by simp
    show "s' < next_stream (shared ?S)" if "dict_get (file_locks (shared ?S)) path = Some s'" for path s'
      using that lease_sys_invD(4) [OF I, of path s'] g(6,7) by (auto split: if_splits)
    show "lease_entry_ok sha256 ?S s' q m" if "leases ?S s' = Some (q, m)" for s' q m
    proof (cases "s' = s")
      case True
      with that new show ?thesis by auto
    next
      case False
      with that have "leases S s' = Some (q, m)" by simp
      then show ?thesis by (rule old(2))
    qed
  qed (fact uniq)
qed

lemma lease_sys_inv_refuse:
  assumes I: "lease_sys_inv sha256 dirs S"
    and acq: "acquire sha256 ans region holder (boards S p, shared S) = (Inl e, b, fs)"
  shows "lease_sys_inv sha256 dirs (S\<lparr>boards := (boards S)(p := b), shared := fs\<rparr>)" (is "lease_sys_inv _ _ ?S")
proof -
  note f = acquire_failure [OF acq]
  have "lease_entry_ok sha256 ?S s q m" if "leases S s = Some (q, m)" for s q m
    using lease_sys_invD(5) [OF I that] by (rule lease_entry_ok_mono) (use f in auto)
  moreover have "board_inv b" using board_inv_acquire [OF lease_sys_invD(2) [OF I] acq] .
  moreover have "s < next_stream fs" if "dict_get (file_locks (shared S)) path = Some s" for path s
    using lease_sys_invD(4) [OF I that] f by linarith
  ultimately show ?thesis
    unfolding lease_sys_inv_def
    using lease_sys_invD(1-3,6) [OF I] f by auto
qed

lemma lease_sys_inv_unlock:
  assumes I: "lease_sys_inv sha256 dirs S" and l: "leases S s = Some (p, l)" "\<not> lease_released l"
    and u: "lease_unlock l (shared S) = (l', fs)"
  shows "lease_sys_inv sha256 dirs (S\<lparr>shared := fs, leases := (leases S)(s \<mapsto> (p, l'))\<rparr>)" (is "lease_sys_inv _ _ ?S")
proof -
  have e: "lease_entry_ok sha256 S s p l" using lease_sys_invD(5) [OF I l(1)] .
  then have st: "lease_stream l = Some s" "dict_get (file_locks (shared S)) (lease_path l) = Some s"
    using l(2) by (auto simp: lease_entry_ok_def)
  then have fs: "fs = (shared S)\<lparr>file_locks := dict_del (lease_path l) (file_locks (shared S))\<rparr>"
    and l': "l' = l\<lparr>lease_released := True, lease_stream := None\<rparr>"
    using u by (simp_all add: lease_unlock_def release_file_lock_def)
  have old: "lease_entry_ok sha256 ?S s' q m" if "leases S s' = Some (q, m)" "s' \<noteq> s" for s' q m
    using lease_sys_invD(5) [OF I that(1)] by (rule lease_entry_ok_mono) (use fs st that(2) in auto)
  have new: "lease_entry_ok sha256 ?S s p l'"
    using e l' fs by (auto simp: lease_entry_ok_def)
  show ?thesis
    unfolding lease_sys_inv_def
    using lease_sys_invD(1-4,6) [OF I] l old new l' by (auto simp: fs split: if_splits)
qed

lemma lease_sys_inv_leave:
  assumes I: "lease_sys_inv sha256 dirs S" and l: "leases S s = Some (p, l)" "lease_released l" "lease_on_board l"
    and v: "lease_leave l (boards S p) = (l', b)"
  shows "lease_sys_inv sha256 dirs (S\<lparr>boards := (boards S)(p := b), leases := (leases S)(s \<mapsto> (p, l'))\<rparr>)"
    (is "lease_sys_inv _ _ ?S")
proof -
  have e: "lease_entry_ok sha256 S s p l" using lease_sys_invD(5) [OF I l(1)] .
  have b: "b = discard (lease_region l) (lease_holder l) (boards S p)" and l': "l' = l\<lparr>lease_on_board := False\<rparr>"
    using v l(3) by (simp_all add: lease_leave_def)
  have old: "lease_entry_ok sha256 ?S s' q m" if "leases S s' = Some (q, m)" "s' \<noteq> s" for s' q m
    using lease_sys_invD(5) [OF I that(1)]
  proof (rule lease_entry_ok_mono)
    assume m: "lease_on_board m" "dict_get (held (boards S q)) (lease_region m) = Some (lease_holder m)"
    have "lease_region m \<noteq> lease_region l" if "q = p"
      using lease_sys_invD(6) [OF I l(1) _ l(3) m(1)] \<open>leases S s' = _\<close> \<open>s' \<noteq> s\<close> that by metis
    with m show "dict_get (held (boards ?S q)) (lease_region m) = Some (lease_holder m)"
      by (auto simp: b held_discard)
  qed (simp_all add: b)
  have new: "lease_entry_ok sha256 ?S s p l'"
    using e l' b l(2) by (auto simp: lease_entry_ok_def)
  show ?thesis
    unfolding lease_sys_inv_def
    using lease_sys_invD(1-4,6) [OF I] l old new l' board_inv_discard [OF lease_sys_invD(2) [OF I]]
    by (auto simp: b split: if_splits)
qed

lemma map_of_filter_values:
  "dict_ok d \<Longrightarrow> map_of (filter (\<lambda>(k, v). P v) d) k =
    (case map_of d k of None \<Rightarrow> None | Some v \<Rightarrow> if P v then Some v else None)"
proof (induction d)
  case (Cons kv d)
  obtain k' v where kv: "kv = (k', v)" by (cases kv)
  with Cons.prems have d: "dict_ok d" "k' \<notin> fst ` set d" by (auto simp: dict_ok_def)
  have "map_of d k' = None" using d(2) by (simp add: map_of_eq_None_iff)
  with Cons.IH [OF d(1)] kv show ?case by auto
qed simp

lemma lease_sys_inv_exit:
  assumes I: "lease_sys_inv sha256 dirs S" and gone: "gone = (\<lambda>s. \<exists>l. leases S s = Some (p, l))"
  shows "lease_sys_inv sha256 dirs \<lparr>boards = (boards S)(p := (boards S p)\<lparr>held_by_dir := []\<rparr>),
      shared = drop_streams gone (shared S), leases = (\<lambda>s. if gone s then None else leases S s)\<rparr>"
    (is "lease_sys_inv _ _ ?S")
proof -
  have ok: "dict_ok (file_locks (shared S))" using lease_sys_invD(3) [OF I] .
  have locks: "dict_get (file_locks (shared ?S)) path = Some s \<longleftrightarrow>
      dict_get (file_locks (shared S)) path = Some s \<and> \<not> gone s" for path s
    using map_of_filter_values [OF ok, of "\<lambda>s. \<not> gone s" path]
    by (auto simp: drop_streams_def split: option.splits)
  have "dict_ok (file_locks (shared ?S))"
    using ok by (simp add: dict_ok_def drop_streams_def distinct_map_filter)
  moreover have "lease_entry_ok sha256 ?S s q m" if "leases S s = Some (q, m)" "\<not> gone s" for s q m
    using lease_sys_invD(5) [OF I that(1)]
  proof (rule lease_entry_ok_mono)
    assume "dict_get (file_locks (shared S)) (lease_path m) = Some s"
    then show "dict_get (file_locks (shared ?S)) (lease_path m) = Some s" using locks that by blast
  qed (use that in \<open>auto simp: gone drop_streams_def\<close>)
  moreover have "held ((boards S p)\<lparr>held_by_dir := []\<rparr>) = []" by (simp add: held_def dict_get_or_def)
  ultimately show ?thesis
    unfolding lease_sys_inv_def
    using lease_sys_invD(1,2,4) [OF I] lease_sys_invD(6) [OF I] locks
    by (auto simp: board_inv_empty drop_streams_def split: if_splits)
qed

theorem lease_sys_inv_reachable:
  "lease_reachable sha256 dirs fs S \<Longrightarrow> lease_sys_inv sha256 dirs S"
  unfolding lease_reachable_def
proof (induction rule: rtranclp_induct)
  case base
  show ?case by (rule lease_sys_inv_start)
next
  case (step S S')
  from step.hyps(2) step.IH show ?case
    by (induction rule: lease_step.induct)
      (blast intro: lease_sys_inv_grant lease_sys_inv_refuse lease_sys_inv_unlock lease_sys_inv_leave lease_sys_inv_exit)+
qed

section \<open>What the lease board guarantees\<close>

datatype board_op = Acquire_op os_answers pyval pyval | Release_op write_lease

fun run_board :: "(string \<Rightarrow> string) \<Rightarrow> board_op list \<Rightarrow> write_board \<times> lock_files \<Rightarrow> write_board \<times> lock_files" where
  "run_board sha256 [] st = st"
| "run_board sha256 (Acquire_op ans region holder # ops) st =
     run_board sha256 ops (snd (acquire sha256 ans region holder st))"
| "run_board sha256 (Release_op l # ops) st = run_board sha256 ops (snd (release l st))"

lemma board_inv_run: "board_inv (fst st) \<Longrightarrow> board_inv (fst (run_board sha256 ops st))"
proof (induction sha256 ops st rule: run_board.induct)
  case (2 sha256 ans region holder ops st)
  with board.inv_acq [of st sha256 "(ans, region, holder)"] show ?case by (simp add: acquire_request_def)
next
  case (3 sha256 l ops st)
  with board.inv_rel [of st l] show ?case by simp
qed simp

text \<open>C16. Whatever is requested from a fresh board, whatever is released (even lease objects made up
  by the caller), and whatever the operating system answers, the regions the board holds stay
  disjoint: no path lies under two of them.\<close>

theorem held_regions_share_no_path:
  assumes "mk_board v = Inr b0" and "run_board sha256 ops (b0, fs) = (b, fs')"
    and "dict_get (held b) r = Some h" and "dict_get (held b) r' = Some h'"
    and "take (length r) p = r" and "take (length r') p = r'"
  shows "r = r'"
proof -
  have "board_inv b0" using assms(1) by (simp add: board_inv_empty)
  then have "board_inv b" using board_inv_run [of "(b0, fs)" sha256 ops] assms(2) by simp
  moreover have "regions_overlap r r'" using assms(5,6) overlap_common_path by blast
  ultimately show ?thesis using assms(3,4) unfolding board_inv_def separated_def by blast
qed

definition healthy :: "os_answers \<Rightarrow> bool" where
  "healthy ans \<longleftrightarrow> (os_name ans = ''posix'' \<or> os_name ans = ''nt'') \<and> \<not> dir_fails ans \<and> \<not> open_fails ans
     \<and> \<not> create_fails ans \<and> \<not> lock_module_missing ans \<and> lock_errno ans = None \<and> \<not> write_fails ans"

lemma raise_lock_error_contention:
  "healthy ans \<Longrightarrow> raise_lock_error ans (if os_name ans = ''posix'' then 11 else 33) = LeaseBusy [] []"
  by (simp add: raise_lock_error_def healthy_def)

lemma acquire_healthy:
  assumes "healthy ans" and "normalize_region region = Inr parts" and "check_holder holder = Inr h"
  shows "fst (acquire sha256 ans region holder (b, fs)) =
    (case find_overlap (held b) parts of
       Some (existing, owner) \<Rightarrow> Inl (LeaseBusy existing owner)
     | None \<Rightarrow>
         if dict_get (file_locks fs) (lease_file sha256 b parts) \<noteq> None
         then Inl (LeaseBusy parts ''unknown-cross-process'')
         else Inr \<lparr>lease_region = parts, lease_holder = h, lease_path = lease_file sha256 b parts,
             lease_on_board = True, lease_stream = Some (next_stream fs), lease_released = False\<rparr>)"
proof (cases "find_overlap (held b) parts")
  case (Some x)
  with assms show ?thesis by (cases x) (simp add: acquire_def Let_def)
next
  case None
  let ?path = "lease_file sha256 b parts"
  obtain fs1 where o: "open_lock_file ans ?path fs = (Inr (next_stream fs), fs1)" "file_locks fs1 = file_locks fs"
  proof (cases "open_lock_file ans ?path fs")
    case (Pair r fs1)
    have "fst (open_lock_file ans ?path fs) = Inr (next_stream fs)"
      using assms(1) by (simp add: open_lock_file_def healthy_def Let_def split: option.split)
    with Pair have "open_lock_file ans ?path fs = (Inr (next_stream fs), fs1)" by simp
    then show thesis using open_lock_file_effect [OF Pair] by (intro that) blast+
  qed
  show ?thesis
  proof (cases "dict_get (file_locks fs) ?path")
    case (Some s)
    with assms(1) o(2) have "acquire_file_lock ans ?path (next_stream fs) fs1 = (Inl (LeaseBusy [] []), fs1)"
      using raise_lock_error_contention [OF assms(1)]
      by (simp add: acquire_file_lock_def lock_outcome_def healthy_def)
    with None Some o assms show ?thesis
      by (simp add: acquire_def Let_def prepare_lease_directory_def healthy_def)
  next
    case free: None
    with assms(1) o(2) obtain fs2 where a: "acquire_file_lock ans ?path (next_stream fs) fs1 = (Inr (), fs2)"
      by (simp add: acquire_file_lock_def lock_outcome_def healthy_def)
    obtain fs3 where "write_holder ans ?path (next_stream fs) h fs2 = (Inr (), fs3)"
      using assms(1) by (simp add: write_holder_def healthy_def) metis
    with a None free o assms show ?thesis
      by (simp add: acquire_def Let_def prepare_lease_directory_def healthy_def)
  qed
qed

lemma find_overlap_first:
  "regions_overlap r parts \<Longrightarrow> \<forall>(r', owner')\<in>set before. \<not> regions_overlap r' parts \<Longrightarrow>
    find_overlap (before @ (r, owner) # after) parts = Some (r, owner)"
  by (induction before) (auto simp: find_overlap_def)

text \<open>C26. On a working system, a well-formed request is granted exactly when no region held on the board overlaps
  the requested one and its lock file is free; the granted lease is for the requested region and holder. A request that
  overlaps a held region is refused as busy with the first overlapping region and its holder; one that only meets a locked
  file is refused as busy with its own region and the fixed name \<^verbatim>\<open>unknown-cross-process\<close>: the holder
  in the other process is not named.\<close>

theorem acquire_decides:
  assumes "healthy ans" and "normalize_region region = Inr parts" and "check_holder holder = Inr h"
  shows "((\<exists>l. fst (acquire sha256 ans region holder (b, fs)) = Inr l) \<longleftrightarrow>
      (\<forall>(r, owner)\<in>set (held b). \<not> regions_overlap r parts)
      \<and> dict_get (file_locks fs) (lease_file sha256 b parts) = None)
    \<and> (\<forall>l. fst (acquire sha256 ans region holder (b, fs)) = Inr l \<longrightarrow>
      lease_region l = parts \<and> lease_holder l = h \<and> lease_path l = lease_file sha256 b parts \<and> \<not> lease_released l)
    \<and> (\<forall>before r owner after. held b = before @ (r, owner) # after \<and> regions_overlap r parts
        \<and> (\<forall>(r', owner')\<in>set before. \<not> regions_overlap r' parts) \<longrightarrow>
      fst (acquire sha256 ans region holder (b, fs)) = Inl (LeaseBusy r owner))
    \<and> ((\<forall>(r, owner)\<in>set (held b). \<not> regions_overlap r parts)
        \<and> dict_get (file_locks fs) (lease_file sha256 b parts) \<noteq> None \<longrightarrow>
      fst (acquire sha256 ans region holder (b, fs)) = Inl (LeaseBusy parts ''unknown-cross-process''))"
  unfolding acquire_healthy [OF assms]
  by (auto simp: find_overlap_None [symmetric] find_overlap_first split: option.splits if_splits)

text \<open>Giving a lease back right after it was granted restores the table of held regions and the
  kernel's locks exactly, and giving it back a second time changes nothing.\<close>

theorem acquire_release_roundtrip:
  assumes "acquire sha256 ans region holder (b, fs) = (Inr l, b1, fs1)"
    and "release l (b1, fs1) = (l2, b2, fs2)"
  shows "held b2 = held b \<and> file_locks fs2 = file_locks fs \<and> release l2 (b2, fs2) = (l2, b2, fs2)"
  using release_acquired [OF assms(1)] assms(2) by (simp add: release_def [of l2])

text \<open>C1. Two live leases in any reachable state of any number of processes are for different
  regions of a lease directory, and for disjoint ones if one process holds both: a region has one
  writer at a time.\<close>

theorem live_leases_exclude:
  assumes "lease_reachable sha256 dirs fs S"
    and "leases S s = Some (p, l)" and "\<not> lease_released l"
    and "leases S s' = Some (q, m)" and "\<not> lease_released m"
    and "dirs p = dirs q \<and> lease_region l = lease_region m \<or> p = q \<and> regions_overlap (lease_region l) (lease_region m)"
  shows "s = s'"
proof -
  have I: "lease_sys_inv sha256 dirs S" using assms(1) by (rule lease_sys_inv_reachable)
  note e = lease_sys_invD(5) [OF I assms(2)] lease_sys_invD(5) [OF I assms(4)]
  have lp: "lease_path l = path_join (dirs p) [digest sha256 (lease_region l)]"
    "lease_path m = path_join (dirs q) [digest sha256 (lease_region m)]"
    using e lease_sys_invD(1) [OF I] by (simp_all add: lease_entry_ok_def)
  have locks: "dict_get (file_locks (shared S)) (lease_path l) = Some s"
    "dict_get (file_locks (shared S)) (lease_path m) = Some s'"
    using e assms(3,5) unfolding lease_entry_ok_def by blast+
  from assms(6) show ?thesis
  proof (elim disjE conjE)
    assume "dirs p = dirs q" "lease_region l = lease_region m"
    with lp locks show ?thesis by simp
  next
    assume pq: "p = q" and ov: "regions_overlap (lease_region l) (lease_region m)"
    have "dict_get (held (boards S p)) (lease_region l) \<noteq> None" "dict_get (held (boards S p)) (lease_region m) \<noteq> None"
      using e assms(3,5) pq by (simp_all add: lease_entry_ok_def)
    then have "lease_region l = lease_region m"
      using lease_sys_invD(2) [OF I, of p] ov unfolding board_inv_def separated_def by blast
    with pq lp locks show ?thesis by simp
  qed
qed

text \<open>C28. A region accepted by \<open>normalize_region\<close> stays inside any workspace it is joined to, names no
  parent directory and no control-plane file, and normalises to itself.\<close>

theorem normalized_region_sound:
  assumes "normalize_region v = Inr r"
  shows "path_within (path_join ws r) ws \<and> ''..'' \<notin> set r \<and> '''' \<notin> set r
    \<and> \<not> (\<exists>marker\<in>set CONTROL_PLANE_MARKERS. contains marker (join ''/'' r))
    \<and> normalize_region (PTuple (map PStr r)) = Inr r \<and> normalize_region (PList (map PStr r)) = Inr r"
proof -
  have ok: "region_ok r" using assms by (simp add: normalize_region_Inr)
  then have "''..'' \<notin> set r" "'''' \<notin> set r" by (auto simp: region_ok_def list_all_iff segment_ok_def)
  moreover have "\<not> (\<exists>marker\<in>set CONTROL_PLANE_MARKERS. contains marker (join ''/'' r))"
    using ok by (simp add: region_ok_def control_plane_def list_ex_iff)
  ultimately show ?thesis using ok by (simp add: normalize_region_Inr region_parts_def)
qed

section \<open>Concrete instances\<close>

definition demo_os :: os_answers where
  "demo_os = \<lparr>os_name = ''posix'', dir_fails = False, open_fails = False, create_fails = False,
     lock_module_missing = False, lock_errno = None, write_fails = False\<rparr>"

definition demo_lease_dir :: ppath where
  "demo_lease_dir = \<lparr>path_root = ''/'', path_parts = [''leases'']\<rparr>"

definition demo_board :: write_board where
  "demo_board = \<lparr>lease_dir = demo_lease_dir, held_by_dir = []\<rparr>"

definition no_files :: lock_files where
  "no_files = \<lparr>file_content = [], file_locks = [], next_stream = 0\<rparr>"

definition demo_ops :: "board_op list" where
  "demo_ops = [Acquire_op demo_os (PStr ''a/b'') (PStr ''x''), Acquire_op demo_os (PStr ''a'') (PStr ''y''),
     Acquire_op demo_os (PStr ''c'') (PStr ''y'')]"

definition demo_lease :: "(string \<Rightarrow> string) \<Rightarrow> region \<Rightarrow> string \<Rightarrow> nat \<Rightarrow> write_lease" where
  "demo_lease sha256 r h s = \<lparr>lease_region = r, lease_holder = h,
     lease_path = path_join demo_lease_dir [digest sha256 r], lease_on_board = True,
     lease_stream = Some s, lease_released = False\<rparr>"

lemma demo_healthy: "healthy demo_os"
  by (simp add: healthy_def demo_os_def)

lemma demo_regions:
  "normalize_region (PStr ''a'') = Inr [''a'']"
  "normalize_region (PStr ''a/b'') = Inr [''a'', ''b'']"
  "check_holder (PStr ''x'') = Inr ''x''"
  by code_simp+

lemma demo_run:
  "held (fst (run_board (\<lambda>x. x) demo_ops (demo_board, no_files))) = [([''a'', ''b''], ''x''), ([''c''], ''y'')]"
  by code_simp

theorem held_regions_share_no_path_witness:
  "mk_board (PPath demo_lease_dir) = Inr demo_board \<and> [''c''] \<noteq> [''a'', ''b'']
   \<and> take 2 [''a'', ''b'', ''f''] = [''a'', ''b'']"
proof -
  have m: "mk_board (PPath demo_lease_dir) = Inr demo_board" by (simp add: mk_board_def demo_board_def)
  obtain b fs' where r: "run_board (\<lambda>x. x) demo_ops (demo_board, no_files) = (b, fs')"
    by (cases "run_board (\<lambda>x. x) demo_ops (demo_board, no_files)")
  with demo_run have h: "held b = [([''a'', ''b''], ''x''), ([''c''], ''y'')]" by simp
  have "[''a'', ''b''] = [''a'', ''b'']"
    by (rule held_regions_share_no_path [OF m r, where p = "[''a'', ''b'', ''f'']"]) (simp_all add: h)
  with m show ?thesis by simp
qed

theorem acquire_decides_witness:
  "(\<exists>l. fst (acquire (\<lambda>x. x) demo_os (PStr ''a/b'') (PStr ''x'') (demo_board, no_files)) = Inr l \<and> lease_holder l = ''x'')
   \<and> fst (acquire (\<lambda>x. x) demo_os (PStr ''a/b'') (PStr ''x'') (run_board (\<lambda>x. x) demo_ops (demo_board, no_files)))
       = Inl (LeaseBusy [''a'', ''b''] ''x'')"
proof (rule conjI)
  note decides = acquire_decides [OF demo_healthy demo_regions(2,3), of "\<lambda>x. x"]
  show "\<exists>l. fst (acquire (\<lambda>x. x) demo_os (PStr ''a/b'') (PStr ''x'') (demo_board, no_files)) = Inr l \<and> lease_holder l = ''x''"
    using decides [of demo_board no_files] by (simp add: demo_board_def no_files_def held_def dict_get_or_def) metis
  obtain b fs where r: "run_board (\<lambda>x. x) demo_ops (demo_board, no_files) = (b, fs)" by (metis prod.exhaust)
  with demo_run have "held b = [] @ ([''a'', ''b''], ''x'') # [([''c''], ''y'')]" by simp
  then show "fst (acquire (\<lambda>x. x) demo_os (PStr ''a/b'') (PStr ''x'') (run_board (\<lambda>x. x) demo_ops (demo_board, no_files)))
      = Inl (LeaseBusy [''a'', ''b''] ''x'')"
    unfolding r using decides [of b fs] by fastforce
qed

lemma demo_acquire:
  "acquire (\<lambda>x. x) demo_os (PStr ''a/b'') (PStr ''x'') (demo_board, no_files) =
    (Inr (demo_lease (\<lambda>x. x) [''a'', ''b''] ''x'' 0),
     \<lparr>lease_dir = demo_lease_dir, held_by_dir = [(demo_lease_dir, [([''a'', ''b''], ''x'')])]\<rparr>,
     \<lparr>file_content = [(path_join demo_lease_dir [''a/b''], ''x'')],
      file_locks = [(path_join demo_lease_dir [''a/b''], 0)], next_stream = 1\<rparr>)"
  by code_simp

theorem acquire_release_roundtrip_witness:
  "held (fst (snd (release (demo_lease (\<lambda>x. x) [''a'', ''b''] ''x'' 0)
     (snd (acquire (\<lambda>x. x) demo_os (PStr ''a/b'') (PStr ''x'') (demo_board, no_files)))))) = []"
proof -
  obtain l2 b2 fs2 where r: "release (demo_lease (\<lambda>x. x) [''a'', ''b''] ''x'' 0)
     (snd (acquire (\<lambda>x. x) demo_os (PStr ''a/b'') (PStr ''x'') (demo_board, no_files))) = (l2, b2, fs2)"
    by (metis prod_cases3)
  then have "held b2 = held demo_board"
    using acquire_release_roundtrip [OF demo_acquire] unfolding demo_acquire snd_conv by blast
  with r show ?thesis by (simp add: demo_board_def held_def dict_get_or_def)
qed

text \<open>Two processes that use one lease directory; the second acquires below the first one's region.\<close>

lemma acquire_grant_state:
  assumes "healthy ans" "normalize_region region = Inr parts" "check_holder holder = Inr h"
    and "held b = []" "lease_dir b = demo_lease_dir"
    and "dict_get (file_locks fs) (lease_file sha256 b parts) = None"
  shows "\<exists>b' fs'. acquire sha256 ans region holder (b, fs) = (Inr (demo_lease sha256 parts h (next_stream fs)), b', fs')
    \<and> file_locks fs' = dict_set (lease_file sha256 b parts) (next_stream fs) (file_locks fs)
    \<and> next_stream fs' = Suc (next_stream fs)"
proof -
  obtain b' fs' where a: "acquire sha256 ans region holder (b, fs) = (Inr (demo_lease sha256 parts h (next_stream fs)), b', fs')"
    using acquire_healthy [OF assms(1-3), of sha256 b fs] assms(4-6)
    by (cases "acquire sha256 ans region holder (b, fs)") (auto simp: find_overlap_def demo_lease_def)
  then show ?thesis by (rule acquire_success) (use a assms(2) in auto)
qed

lemma two_processes_overlap:
  assumes sha: "sha256 ''a'' \<noteq> sha256 ''a/b''"
  shows "\<exists>S. lease_reachable sha256 (\<lambda>_. demo_lease_dir) no_files S
    \<and> leases S 0 = Some (0, demo_lease sha256 [''a''] ''x'' 0)
    \<and> leases S 1 = Some (1, demo_lease sha256 [''a'', ''b''] ''x'' 1)"
proof -
  let ?S0 = "lease_start (\<lambda>_. demo_lease_dir) no_files"
  have s0: "held (boards ?S0 p) = []" "lease_dir (boards ?S0 p) = demo_lease_dir" "file_locks (shared ?S0) = []"
    "next_stream (shared ?S0) = 0" for p
    by (simp_all add: lease_start_def held_def dict_get_or_def no_files_def)
  obtain b1 fs1 where a1: "acquire sha256 demo_os (PStr ''a'') (PStr ''x'') (boards ?S0 0, shared ?S0) =
      (Inr (demo_lease sha256 [''a''] ''x'' 0), b1, fs1)"
    and f1: "file_locks fs1 = [(path_join demo_lease_dir [digest sha256 [''a'']], 0)]" "next_stream fs1 = 1"
    using acquire_grant_state [of _ _ _ _ _ "boards ?S0 0" "shared ?S0" sha256, OF demo_healthy demo_regions(1,3)] s0
    by auto
  let ?S1 = "\<lparr>boards = (boards ?S0)(0 := b1), shared = fs1, leases = (leases ?S0)(0 \<mapsto> (0, demo_lease sha256 [''a''] ''x'' 0))\<rparr>"
  have step1: "lease_step sha256 ?S0 ?S1" by (rule lease_step.grant [OF a1]) (simp add: demo_lease_def)
  have b1: "boards ?S1 1 = boards ?S0 1" by simp
  have free: "dict_get (file_locks fs1) (lease_file sha256 (boards ?S1 1) [''a'', ''b'']) = None"
    using sha unfolding b1 s0(2) f1 by (simp add: path_join_def digest_def demo_lease_dir_def)
  obtain b2 fs2 where a2: "acquire sha256 demo_os (PStr ''a/b'') (PStr ''x'') (boards ?S1 1, shared ?S1) =
      (Inr (demo_lease sha256 [''a'', ''b''] ''x'' 1), b2, fs2)"
    using acquire_grant_state [of _ _ _ _ _ "boards ?S1 1" fs1 sha256, OF demo_healthy demo_regions(2,3)]
      free s0 f1(2) by auto
  let ?S2 = "\<lparr>boards = (boards ?S1)(1 := b2), shared = fs2,
      leases = (leases ?S1)(1 \<mapsto> (1, demo_lease sha256 [''a'', ''b''] ''x'' 1))\<rparr>"
  have "lease_step sha256 ?S1 ?S2" by (rule lease_step.grant [OF a2]) (simp add: demo_lease_def)
  with step1 have "lease_reachable sha256 (\<lambda>_. demo_lease_dir) no_files ?S2"
    unfolding lease_reachable_def by (blast intro: rtranclp.intros)
  then show ?thesis by fastforce
qed

text \<open>C29. Across processes only equal regions exclude each other: the lock file is named after the
  whole region, so one process can hold a directory while another holds a subdirectory of it,
  which the module's documentation rules out.\<close>

theorem overlap_across_processes_undetected:
  assumes "sha256 ''a'' \<noteq> sha256 ''a/b''"
  shows "\<exists>S s s' p q l m. lease_reachable sha256 (\<lambda>_. demo_lease_dir) no_files S
    \<and> leases S s = Some (p, l) \<and> leases S s' = Some (q, m) \<and> \<not> lease_released l \<and> \<not> lease_released m
    \<and> p \<noteq> q \<and> s \<noteq> s' \<and> regions_overlap (lease_region l) (lease_region m)"
proof -
  obtain S where "lease_reachable sha256 (\<lambda>_. demo_lease_dir) no_files S"
    "leases S 0 = Some (0, demo_lease sha256 [''a''] ''x'' 0)"
    "leases S 1 = Some (1, demo_lease sha256 [''a'', ''b''] ''x'' 1)"
    using two_processes_overlap [OF assms] by blast
  moreover have "regions_overlap [''a''] [''a'', ''b'']" by code_simp
  ultimately show ?thesis
    by (intro exI [of _ S] exI [of _ "0::nat"] exI [of _ "1::nat"] exI [of _ "0::nat"] exI [of _ "1::nat"] exI)
      (auto simp: demo_lease_def)
qed

theorem overlap_across_processes_undetected_witness:
  "\<exists>S s s' p q l m. lease_reachable (\<lambda>x. x) (\<lambda>_. demo_lease_dir) no_files S
    \<and> leases S s = Some (p, l) \<and> leases S s' = Some (q, m) \<and> \<not> lease_released l \<and> \<not> lease_released m
    \<and> p \<noteq> q \<and> s \<noteq> s' \<and> regions_overlap (lease_region l) (lease_region m)"
  by (rule overlap_across_processes_undetected) simp

theorem live_leases_exclude_witness:
  "\<exists>S. lease_reachable (\<lambda>x. x) (\<lambda>_. demo_lease_dir) no_files S \<and> leases S 0 \<noteq> None
    \<and> (\<forall>s m. leases S s = Some (1, m) \<longrightarrow> \<not> lease_released m \<longrightarrow> lease_region m = [''a'', ''b''] \<longrightarrow> s = 1)"
proof -
  obtain S where S: "lease_reachable (\<lambda>x. x) (\<lambda>_. demo_lease_dir) no_files S"
    "leases S 0 = Some (0, demo_lease (\<lambda>x. x) [''a''] ''x'' 0)"
    "leases S 1 = Some (1, demo_lease (\<lambda>x. x) [''a'', ''b''] ''x'' 1)"
    using two_processes_overlap [of "\<lambda>x. x"] by auto
  have "s = 1" if "leases S s = Some (1, m)" "\<not> lease_released m" "lease_region m = [''a'', ''b'']" for s m
    by (rule live_leases_exclude [OF S(1) that(1,2) S(3)]) (use that(3) in \<open>simp_all add: demo_lease_def\<close>)
  with S show ?thesis by auto
qed

theorem normalized_region_sound_witness:
  "normalize_region (PTuple [PStr ''a'', PStr ''b'']) = Inr [''a'', ''b'']"
  using normalized_region_sound [OF demo_regions(2)] by simp

end
