(* ===== verification/Py_Json.thy ===== *)
theory Py_Json
  imports Py_Prelude
begin

text \<open>
  \<^verbatim>\<open>json.dumps\<close> of the standard library, as the policy, lease and ledger code uses it: compact
  separators or default ones (the argument \<open>sp\<close> is the text after a comma or colon: empty, or one space),
  sorted keys, with or without \<^verbatim>\<open>ensure_ascii\<close>. How a float prints (its \<^verbatim>\<open>repr\<close>) is the argument \<open>frepr\<close>.
  The main lemma is that the text determines the value (when finite floats print with a point or exponent), which is what makes a
  hash of canonical JSON identify it.
\<close>

datatype json =
    JNull
  | JBool bool
  | JInt int
  | JNum string
  | JStr string
  | JList "json list"
  | JObj "(string \<times> json) list"

text \<open>The JSON value of a Python value; \<open>None\<close> where \<^verbatim>\<open>dumps\<close> raises \<^verbatim>\<open>TypeError\<close>.\<close>

fun json_of :: "(pyfloat \<Rightarrow> string) \<Rightarrow> pyval \<Rightarrow> json option"
  and json_items :: "(pyfloat \<Rightarrow> string) \<Rightarrow> pyval list \<Rightarrow> json list option"
  and json_fields :: "(pyfloat \<Rightarrow> string) \<Rightarrow> (pyval \<times> pyval) list \<Rightarrow> (string \<times> json) list option" where
  "json_of frepr PNone = Some JNull"
| "json_of frepr (PBool b) = Some (JBool b)"
| "json_of frepr (PInt i) = Some (JInt i)"
| "json_of frepr (PFloat f) = Some (JNum (frepr f))"
| "json_of frepr (PStr s) = Some (JStr s)"
| "json_of frepr (PEnum c s) = Some (JStr s)"
| "json_of frepr (PTuple xs) = map_option JList (json_items frepr xs)"
| "json_of frepr (PList xs) = map_option JList (json_items frepr xs)"
| "json_of frepr (PDict kvs) = map_option JObj (json_fields frepr kvs)"
| "json_of frepr _ = None"
| "json_items frepr [] = Some []"
| "json_items frepr (x # xs) =
     (case json_of frepr x of None \<Rightarrow> None | Some j \<Rightarrow> map_option (\<lambda>js. j # js) (json_items frepr xs))"
| "json_fields frepr [] = Some []"
| "json_fields frepr (kv # kvs) =
     (case kv of (PStr k, v) \<Rightarrow>
        (case json_of frepr v of None \<Rightarrow> None | Some j \<Rightarrow> map_option (\<lambda>js. (k, j) # js) (json_fields frepr kvs))
      | _ \<Rightarrow> None)"

definition hex_digit :: "nat \<Rightarrow> char" where
  "hex_digit d = (if d < 10 then char_of (48 + d) else char_of (87 + d))"

definition esc_u :: "char \<Rightarrow> string" where
  "esc_u c = [CHR 92, CHR ''u'', CHR ''0'', CHR ''0'', hex_digit (of_char c div 16), hex_digit (of_char c mod 16)]"

definition esc_char :: "bool \<Rightarrow> char \<Rightarrow> string" where
  "esc_char ascii c =
     (if c = CHR 34 then [CHR 92, CHR 34]
      else if c = CHR 92 then [CHR 92, CHR 92]
      else if c = CHR 10 then [CHR 92, CHR ''n'']
      else if c = CHR 13 then [CHR 92, CHR ''r'']
      else if c = CHR 9 then [CHR 92, CHR ''t'']
      else if c = CHR 12 then [CHR 92, CHR ''f'']
      else if c = CHR 8 then [CHR 92, CHR ''b'']
      else if (of_char c :: nat) < 32 \<or> ascii \<and> 126 < (of_char c :: nat) then esc_u c
      else [c])"

definition json_str :: "bool \<Rightarrow> string \<Rightarrow> string" where
  "json_str ascii s = CHR 34 # concat (map (esc_char ascii) s) @ [CHR 34]"

fun render :: "bool \<Rightarrow> string \<Rightarrow> json \<Rightarrow> string" where
  "render ascii sp JNull = ''null''"
| "render ascii sp (JBool b) = (if b then ''true'' else ''false'')"
| "render ascii sp (JInt i) = string_of_int i"
| "render ascii sp (JNum s) = s"
| "render ascii sp (JStr s) = json_str ascii s"
| "render ascii sp (JList xs) = ''['' @ join ('','' @ sp) (map (render ascii sp) xs) @ '']''"
| "render ascii sp (JObj kvs) =
     ''{'' @ join ('','' @ sp) (map (\<lambda>(k, v). json_str ascii k @ '':'' @ sp @ render ascii sp v) kvs) @ ''}''"

fun sort_keys :: "json \<Rightarrow> json" where
  "sort_keys (JList xs) = JList (map sort_keys xs)"
| "sort_keys (JObj kvs) = JObj (sort_key fst (map (\<lambda>(k, v). (k, sort_keys v)) kvs))"
| "sort_keys j = j"

text \<open>\<^verbatim>\<open>json.dumps(v, ensure_ascii=ascii, sort_keys=True)\<close> with the separators that \<open>sp\<close> stands for.\<close>

definition dumps :: "(pyfloat \<Rightarrow> string) \<Rightarrow> bool \<Rightarrow> string \<Rightarrow> pyval \<Rightarrow> string res" where
  "dumps frepr ascii sp v = (case json_of frepr v of None \<Rightarrow> Inl (PyTypeError ''not JSON serializable'')
     | Some j \<Rightarrow> Inr (render ascii sp (sort_keys j)))"

fun float_free :: "json \<Rightarrow> bool" where
  "float_free (JNum s) = False"
| "float_free (JList xs) = list_all float_free xs"
| "float_free (JObj kvs) = list_all (\<lambda>(k, v). float_free v) kvs"
| "float_free j = True"

text \<open>The characters of a number, and the texts of finite floats: they have a point or an exponent.\<close>

definition num_char :: "char \<Rightarrow> bool" where
  "num_char c \<longleftrightarrow> is_digit c \<or> c \<in> {CHR ''-'', CHR ''+'', CHR ''.'', CHR ''e''}"

definition float_text :: "string \<Rightarrow> bool" where
  "float_text s \<longleftrightarrow> s \<noteq> [] \<and> (is_digit (hd s) \<or> hd s = CHR ''-'') \<and> list_all num_char s \<and> (CHR ''.'' \<in> set s \<or> CHR ''e'' \<in> set s)"

fun floats_ok :: "json \<Rightarrow> bool" where
  "floats_ok (JNum s) = float_text s"
| "floats_ok (JList xs) = list_all floats_ok xs"
| "floats_ok (JObj kvs) = list_all (\<lambda>(k, v). floats_ok v) kvs"
| "floats_ok j = True"

lemma float_free_floats_ok: "float_free j \<Longrightarrow> floats_ok j"
  by (induction j) (auto simp: list_all_iff)

section \<open>The text determines the value\<close>

lemma of_char_hex_digit: "d < 16 \<Longrightarrow> of_char (hex_digit d) = (if d < 10 then 48 + d else 87 + d)"
  by (simp add: hex_digit_def of_char_of take_bit_nat_def)

definition hex_val :: "char \<Rightarrow> nat" where
  "hex_val c = (if (of_char c :: nat) < 58 then of_char c - 48 else of_char c - 87)"

lemma hex_val_hex_digit [simp]: "d < 16 \<Longrightarrow> hex_val (hex_digit d) = d"
  by (simp add: hex_val_def of_char_hex_digit)

lemma of_char_parts: "(of_char c :: nat) div 16 < 16" "(of_char c :: nat) mod 16 < 16"
  using nat_of_char_less_256 [of c] by (auto simp: div_less_iff_less_mult)

text \<open>A decoder for one escaped character: the escapes form a prefix code.\<close>

definition unesc :: "string \<Rightarrow> char \<times> string" where
  "unesc s =
     (if hd s \<noteq> CHR 92 then (hd s, tl s)
      else let k = s ! 1 in
        if k = CHR ''u'' then (char_of (16 * hex_val (s ! 4) + hex_val (s ! 5)), drop 6 s)
        else (if k = CHR ''n'' then CHR 10 else if k = CHR ''r'' then CHR 13 else if k = CHR ''t'' then CHR 9
              else if k = CHR ''f'' then CHR 12 else if k = CHR ''b'' then CHR 8 else k, drop 2 s))"

lemma unesc_esc_u: "unesc (esc_u c @ x) = (c, x)"
proof -
  have "16 * ((of_char c :: nat) div 16) + of_char c mod 16 = of_char c" by simp
  then show ?thesis
    by (simp add: unesc_def esc_u_def of_char_parts numeral_eq_Suc [of "num.Bit0 num.One"] del: mult_div_mod_eq)
qed

lemma unesc_esc_char: "unesc (esc_char a c @ x) = (c, x)"
  unfolding esc_char_def by (simp add: unesc_esc_u) (simp add: unesc_def)

lemma esc_char_nonempty: "esc_char a c \<noteq> [] \<and> hd (esc_char a c) \<noteq> CHR 34"
  by (simp add: esc_char_def esc_u_def)

lemma esc_char_prefix: "esc_char a c @ x = esc_char a d @ y \<Longrightarrow> c = d \<and> x = y"
  by (metis unesc_esc_char prod.inject)

lemma esc_text_inj:
  "concat (map (esc_char a) s) @ CHR 34 # r = concat (map (esc_char a) t) @ CHR 34 # r' \<Longrightarrow> s = t \<and> r = r'"
proof (induction s arbitrary: t)
  case Nil
  show ?case
  proof (cases t)
    case (Cons d t')
    with Nil esc_char_nonempty [of a d] show ?thesis by (cases "esc_char a d") auto
  qed (use Nil in simp)
next
  case (Cons c s)
  show ?case
  proof (cases t)
    case Nil
    with Cons.prems esc_char_nonempty [of a c] show ?thesis by (cases "esc_char a c") auto
  next
    case (Cons d t')
    with Cons.prems have "esc_char a c @ (concat (map (esc_char a) s) @ CHR 34 # r)
        = esc_char a d @ (concat (map (esc_char a) t') @ CHR 34 # r')" by simp
    from esc_char_prefix [OF this] Cons.IH Cons show ?thesis by blast
  qed
qed

lemma json_str_inj: "json_str a s @ r = json_str a t @ r' \<Longrightarrow> s = t \<and> r = r'"
  using esc_text_inj [of a s r t r'] by (simp add: json_str_def)

text \<open>What may follow a value inside a text: nothing, a comma or a closing bracket.\<close>

definition follows :: "string \<Rightarrow> bool" where
  "follows r \<longleftrightarrow> r = [] \<or> hd r \<in> {CHR '','', CHR '']'', CHR ''}''}"

lemma follows_simps [simp]:
  "follows []" "follows (CHR '','' # r)" "follows (CHR '']'' # r)" "follows (CHR ''}'' # r)"
  by (simp_all add: follows_def)

text \<open>The first character of a value tells its constructor.\<close>

lemma string_of_int_hd: "hd (string_of_int i) \<in> insert (CHR ''-'') {c. is_digit c} \<and> string_of_int i \<noteq> []"
  using string_of_nat_digits [of "nat i"] string_of_nat_nonempty [of "nat i"]
  by (cases "string_of_nat (nat i)") (auto simp: string_of_int_def)

lemma join_items_inj:
  assumes "\<And>x y r r'. x \<in> set xs \<Longrightarrow> y \<in> set ys \<Longrightarrow> follows r \<Longrightarrow> follows r' \<Longrightarrow> f x @ r = f y @ r' \<Longrightarrow> x = y \<and> r = r'"
    and "\<And>x. x \<in> set xs \<union> set ys \<Longrightarrow> f x \<noteq> [] \<and> hd (f x) \<noteq> q" and "q = CHR '']'' \<or> q = CHR ''}''"
    and "join ('','' @ sp) (map f xs) @ q # r = join ('','' @ sp) (map f ys) @ q # r'"
  shows "xs = ys \<and> r = r'"
  using assms
proof (induction xs arbitrary: ys)
  case Nil
  show ?case
  proof (cases ys)
    case (Cons y ys')
    have "join ('','' @ sp) (map f ys) \<noteq> [] \<and> hd (join ('','' @ sp) (map f ys)) \<noteq> q"
      using Nil.prems(2) [of y] Cons by (cases ys') auto
    with Nil.prems(4) show ?thesis by (cases "join ('','' @ sp) (map f ys)") auto
  qed (use Nil in simp)
next
  case (Cons x xs)
  have "join ('','' @ sp) (map f (x # xs)) \<noteq> [] \<and> hd (join ('','' @ sp) (map f (x # xs))) \<noteq> q"
    using Cons.prems(2) [of x] by (cases xs) auto
  with Cons.prems(4) obtain y ys' where ys: "ys = y # ys'"
    by (cases ys; cases "join ('','' @ sp) (map f (x # xs))") auto
  define rest where "rest zs t = (case zs of [] \<Rightarrow> q # t | _ \<Rightarrow> CHR '','' # sp @ join ('','' @ sp) (map f zs) @ q # t)" for zs t
  have fol: "follows (rest zs t)" for zs t
    using Cons.prems(3) by (auto simp: rest_def split: list.split)
  have split: "join ('','' @ sp) (map f (z # zs)) @ q # t = f z @ rest zs t" for z zs t
    by (cases zs) (simp_all add: rest_def)
  have e: "f x @ rest xs r = f y @ rest ys' r'" using Cons.prems(4) unfolding ys split .
  have h: "x = y \<and> rest xs r = rest ys' r'"
    by (rule Cons.prems(1) [of x y]) (use e fol ys in simp_all)
  then have "xs = ys' \<and> r = r'"
  proof (cases xs)
    case Nil
    with h Cons.prems(3) show ?thesis by (cases ys') (auto simp: rest_def)
  next
    case (Cons z zs)
    with h \<open>q = _ \<or> _\<close> have "join ('','' @ sp) (map f xs) @ q # r = join ('','' @ sp) (map f ys') @ q # r'"
      by (cases ys') (auto simp: rest_def)
    then show ?thesis
      by (rule Cons.IH [rotated -1]) (use Cons.prems(1-3) ys in \<open>auto dest: Cons.prems(1) [OF list.set_intros(2)]\<close>)
  qed
  with h ys show ?case by simp
qed

text \<open>The class of the first character of a rendered value.\<close>

fun json_kind :: "json \<Rightarrow> nat" where
  "json_kind JNull = 0"
| "json_kind (JBool b) = (if b then 1 else 2)"
| "json_kind (JInt i) = 3"
| "json_kind (JNum s) = 3"
| "json_kind (JStr s) = 4"
| "json_kind (JList xs) = 5"
| "json_kind (JObj kvs) = 6"

definition kind_of_char :: "char \<Rightarrow> nat" where
  "kind_of_char c = (if c = CHR ''n'' then 0 else if c = CHR ''t'' then 1 else if c = CHR ''f'' then 2
     else if c = CHR 34 then 4 else if c = CHR ''['' then 5 else if c = CHR ''{'' then 6 else 3)"

lemma kind_of_digit: "is_digit c \<or> c = CHR ''-'' \<Longrightarrow> kind_of_char c = 3"
proof (elim disjE)
  assume d: "is_digit c"
  have "c \<notin> set ''ntf[{''" "c \<noteq> CHR 34"
  proof -
    have "list_all (\<lambda>x. \<not> is_digit x) ''ntf[{''" "\<not> is_digit (CHR 34)" by code_simp+
    with d show "c \<notin> set ''ntf[{''" "c \<noteq> CHR 34" by (auto simp: list_all_iff)
  qed
  then show ?thesis by (simp add: kind_of_char_def)
qed (simp add: kind_of_char_def)

lemma kind_of_char_simps [simp]:
  "kind_of_char (CHR ''n'') = 0" "kind_of_char (CHR ''t'') = 1" "kind_of_char (CHR ''f'') = 2"
  "kind_of_char (CHR 34) = 4" "kind_of_char (CHR ''['') = 5" "kind_of_char (CHR ''{'') = 6"
  by code_simp+

lemma render_kind: "floats_ok v \<Longrightarrow> render a sp v \<noteq> [] \<and> kind_of_char (hd (render a sp v)) = json_kind v"
proof (cases v)
  case (JInt i)
  with string_of_int_hd [of i] show ?thesis by (auto intro: kind_of_digit)
next
  case (JNum s)
  assume "floats_ok v"
  with JNum show ?thesis by (auto simp: float_text_def intro: kind_of_digit)
qed (simp_all add: json_str_def)

lemma render_not_closing:
  "floats_ok v \<Longrightarrow> render a sp v \<noteq> [] \<and> hd (render a sp v) \<notin> {CHR '']'', CHR ''}'', CHR '',''}"
proof (cases v)
  case (JInt i)
  with string_of_int_hd [of i] show ?thesis by (auto simp: is_digit_def Let_def)
next
  case (JNum s)
  assume "floats_ok v"
  with JNum show ?thesis by (auto simp: float_text_def is_digit_def Let_def)
qed (simp_all add: json_str_def)

text \<open>The text of a number ends where a character of no number follows.\<close>

definition num_text :: "json \<Rightarrow> string" where
  "num_text j = (case j of JInt i \<Rightarrow> string_of_int i | JNum s \<Rightarrow> s | _ \<Rightarrow> [])"

lemma string_of_int_chars: "list_all (\<lambda>c. is_digit c \<or> c = CHR ''-'') (string_of_int i)"
proof -
  have "list_all (\<lambda>c. is_digit c \<or> c = CHR ''-'') (string_of_nat n)" for n
    using string_of_nat_digits [of n] by (auto simp: list_all_iff)
  then show ?thesis by (simp add: string_of_int_def)
qed

lemma num_text_chars: "floats_ok j \<Longrightarrow> list_all num_char (num_text j)"
proof (cases j)
  case (JInt i)
  then show ?thesis using string_of_int_chars [of i] by (auto simp: num_text_def num_char_def list_all_iff)
qed (auto simp: num_text_def float_text_def)

lemma num_chars_follow:
  assumes "list_all num_char s" "list_all num_char t" "s @ r = t @ r'" "follows r" "follows r'"
  shows "s = t \<and> r = r'"
proof -
  have "\<not> num_char (CHR '','')" "\<not> num_char (CHR '']'')" "\<not> num_char (CHR ''}'')" by code_simp+
  then have "takeWhile num_char (s @ r) = s" if "list_all num_char s" "follows r" for s r
    using that by (cases r) (auto simp: takeWhile_append2 list_all_iff follows_def)
  with assms have "s = t" by metis
  with assms(3) show ?thesis by simp
qed

lemma num_text_follow:
  assumes "json_kind v = 3" "json_kind w = 3" "floats_ok v" "floats_ok w" "follows r" "follows r'"
    and "render a sp v @ r = render a sp w @ r'"
  shows "v = w \<and> r = r'"
proof -
  have n: "render a sp j = num_text j" if "json_kind j = 3" for j using that by (cases j) (auto simp: num_text_def split: if_splits)
  have e: "num_text v = num_text w \<and> r = r'"
    by (rule num_chars_follow) (use assms n num_text_chars in auto)
  have "CHR ''.'' \<notin> set (string_of_int i) \<and> CHR ''e'' \<notin> set (string_of_int i)" for i
    using string_of_int_chars [of i] by (auto simp: list_all_iff is_digit_def)
  with e assms(1-4) show ?thesis
    by (cases v; cases w) (auto simp: num_text_def float_text_def split: if_splits)
qed

lemma render_same_kind:
  "floats_ok v \<Longrightarrow> floats_ok w \<Longrightarrow> render a sp v @ r = render a sp w @ r' \<Longrightarrow> json_kind v = json_kind w"
  using render_kind [of v a sp] render_kind [of w a sp] by (metis hd_append2)

theorem render_prefix:
  "floats_ok v \<Longrightarrow> floats_ok w \<Longrightarrow> follows r \<Longrightarrow> follows r' \<Longrightarrow>
    render a sp v @ r = render a sp w @ r' \<Longrightarrow> v = w \<and> r = r'"
proof (induction v arbitrary: w r r')
  case JNull
  with render_same_kind [OF JNull.prems(1,2,5)] show ?case by (cases w) (auto split: if_splits)
next
  case (JBool b)
  with render_same_kind [OF JBool.prems(1,2,5)] show ?case by (cases w) (auto split: if_splits)
next
  case (JNum s)
  with render_same_kind [OF JNum.prems(1,2,5)] num_text_follow [of "JNum s" w r r' a sp] show ?case by simp
next
  case (JInt i)
  with render_same_kind [OF JInt.prems(1,2,5)] num_text_follow [of "JInt i" w r r' a sp] show ?case by simp
next
  case (JStr s)
  with render_same_kind [OF JStr.prems(1,2,5)] json_str_inj [of a s r _ r'] show ?case
    by (cases w) (auto split: if_splits)
next
  case (JList xs)
  with render_same_kind [OF JList.prems(1,2,5)] obtain ys where w: "w = JList ys"
    by (cases w) (auto split: if_splits)
  have ff: "floats_ok x" if "x \<in> set xs \<union> set ys" for x
    using JList.prems(1,2) w that by (auto simp: list_all_iff)
  from w JList.prems(5) have eq: "join ('','' @ sp) (map (render a sp) xs) @ CHR '']'' # r
      = join ('','' @ sp) (map (render a sp) ys) @ CHR '']'' # r'" by simp
  have item: "x = y \<and> r1 = r2" if "x \<in> set xs" "y \<in> set ys" "follows r1" "follows r2"
      "render a sp x @ r1 = render a sp y @ r2" for x y r1 r2
    by (rule JList.IH [OF that(1) ff ff that(3-5)]) (use that(1,2) in simp_all)
  have open_: "render a sp x \<noteq> [] \<and> hd (render a sp x) \<noteq> CHR '']''" if "x \<in> set xs \<union> set ys" for x
    using render_not_closing [OF ff [OF that], of a sp] by blast
  have "xs = ys \<and> r = r'" by (rule join_items_inj [OF item open_ _ eq]) simp_all
  with w show ?case by simp
next
  case (JObj kvs)
  let ?f = "\<lambda>(k, v). json_str a k @ '':'' @ sp @ render a sp v"
  from JObj.prems render_same_kind [OF JObj.prems(1,2,5)] obtain kvs' where w: "w = JObj kvs'"
    by (cases w) (auto split: if_splits)
  with JObj.prems(5) have eq: "join ('','' @ sp) (map ?f kvs) @ CHR ''}'' # r = join ('','' @ sp) (map ?f kvs') @ CHR ''}'' # r'"
    by simp
  have item: "x = y \<and> r1 = r2" if "x \<in> set kvs" "y \<in> set kvs'" "follows r1" "follows r2" "?f x @ r1 = ?f y @ r2" for x y r1 r2
  proof -
    obtain k v k' v' where xy: "x = (k, v)" "y = (k', v')" by (cases x; cases y)
    with that(5) have "json_str a k @ '':'' @ sp @ render a sp v @ r1 = json_str a k' @ '':'' @ sp @ render a sp v' @ r2"
      by simp
    from json_str_inj [OF this] have k: "k = k'" "render a sp v @ r1 = render a sp v' @ r2" by auto
    have "floats_ok v" "floats_ok v'"
      using JObj.prems(1,2) w that(1,2) xy by (auto simp: list_all_iff)
    moreover have "v \<in> Basic_BNFs.snds x" by (simp add: xy)
    ultimately have "v = v' \<and> r1 = r2" by (intro JObj.IH [OF that(1) _ _ _ that(3,4) k(2)])
    with k xy show ?thesis by simp
  qed
  have "kvs = kvs' \<and> r = r'"
    by (rule join_items_inj [OF item _ _ eq]) (auto simp: json_str_def)
  with w show ?case by simp
qed

corollary render_inj_floats: "floats_ok v \<Longrightarrow> floats_ok w \<Longrightarrow> render a sp v = render a sp w \<Longrightarrow> v = w"
  using render_prefix [of v w "[]" "[]" a sp] by simp

corollary render_inj: "float_free v \<Longrightarrow> float_free w \<Longrightarrow> render a sp v = render a sp w \<Longrightarrow> v = w"
  by (intro render_inj_floats float_free_floats_ok)

end
