(* ===== verification/Py_Ip.thy ===== *)
theory Py_Ip
  imports Py_Prelude "HOL-Library.Word"
begin

text \<open>
  The part of the standard library's \<^verbatim>\<open>ipaddress\<close> that the network code uses: parsing and
  printing of textual addresses and the special-purpose ranges of the IANA registries, as the Python
  releases that \<^verbatim>\<open>_supports_safe_ipaddress_classification\<close> admits have them. Addresses are words of
  32 and 128 bits; an IPv6 address carries its scope.
\<close>

unbundle bit_operations_syntax

type_synonym ipv4 = "32 word"
type_synonym ipv6 = "128 word"

datatype ip_address = IPv4 ipv4 | IPv6 ipv6 "string option"

section \<open>Textual form\<close>

definition parse_octet :: "string \<Rightarrow> nat option" where
  "parse_octet s =
     (if s = [] \<or> \<not> list_all is_digit s \<or> 3 < length s \<or> s \<noteq> ''0'' \<and> hd s = CHR ''0'' \<or> 255 < nat_of_digits s
      then None else Some (nat_of_digits s))"

definition parse_ipv4 :: "string \<Rightarrow> ipv4 option" where
  "parse_ipv4 s =
     (case map_opt parse_octet (split_on (CHR ''.'') s) of
        Some [a, b, c, d] \<Rightarrow> Some (of_nat (((a * 256 + b) * 256 + c) * 256 + d))
      | _ \<Rightarrow> None)"

definition is_hex_digit :: "char \<Rightarrow> bool" where
  "is_hex_digit c \<longleftrightarrow> is_digit c \<or> (let n = (of_char c :: nat) in 65 \<le> n \<and> n \<le> 70 \<or> 97 \<le> n \<and> n \<le> 102)"

definition hex_digit_val :: "char \<Rightarrow> nat" where
  "hex_digit_val c = (let n = (of_char c :: nat) in if n < 58 then n - 48 else if n < 71 then n - 55 else n - 87)"

definition parse_hextet :: "string \<Rightarrow> nat option" where
  "parse_hextet s =
     (if s = [] \<or> \<not> list_all is_hex_digit s \<or> 4 < length s then None
      else Some (foldl (\<lambda>n c. 16 * n + hex_digit_val c) 0 s))"

fun to_hex :: "nat \<Rightarrow> string" where
  "to_hex n = (let d = (\<lambda>k. if k < 10 then char_of (48 + k) else char_of (87 + k)) in
     if n < 16 then [d n] else to_hex (n div 16) @ [d (n mod 16)])"

declare to_hex.simps [simp del]

text \<open>An IPv4 suffix becomes two hexadecimal parts.\<close>

definition ipv6_parts :: "string \<Rightarrow> string list option" where
  "ipv6_parts s =
     (let parts = split_on (CHR '':'') s in
      if length parts < 3 then None
      else if CHR ''.'' \<in> set (last parts) then
        (case parse_ipv4 (last parts) of None \<Rightarrow> None
         | Some w \<Rightarrow> Some (butlast parts @ [to_hex (unat w div 65536), to_hex (unat w mod 65536)]))
      else Some parts)"

definition hextets_value :: "string list \<Rightarrow> nat option" where
  "hextets_value ps = map_option (foldl (\<lambda>n h. 65536 * n + h) 0) (map_opt parse_hextet ps)"

definition ipv6_of_parts :: "string list \<Rightarrow> nat option" where
  "ipv6_of_parts parts =
     (if 9 < length parts then None
      else case filter (\<lambda>i. parts ! i = []) [1..<length parts - 1] of
        [] \<Rightarrow> if length parts \<noteq> 8 then None else hextets_value parts
      | [skip] \<Rightarrow>
          let hi = (if hd parts = [] then skip - 1 else skip);
              lo = (if last parts = [] then length parts - skip - 2 else length parts - skip - 1)
          in if hd parts = [] \<and> hi \<noteq> 0 \<or> last parts = [] \<and> lo \<noteq> 0 \<or> 8 \<le> hi + lo then None
             else (case (hextets_value (take hi parts), hextets_value (drop (length parts - lo) parts)) of
                 (Some h, Some l) \<Rightarrow> Some (h * 65536 ^ (8 - hi) + l)
               | _ \<Rightarrow> None)
      | _ \<Rightarrow> None)"

definition split_scope :: "string \<Rightarrow> (string \<times> string option) option" where
  "split_scope s =
     (if CHR ''%'' \<in> set s then
        let a = takeWhile (\<lambda>c. c \<noteq> CHR ''%'') s; scope = tl (dropWhile (\<lambda>c. c \<noteq> CHR ''%'') s)
        in if scope = [] \<or> CHR ''%'' \<in> set scope then None else Some (a, Some scope)
      else Some (s, None))"

definition parse_ipv6 :: "string \<Rightarrow> (ipv6 \<times> string option) option" where
  "parse_ipv6 s =
     (if CHR ''/'' \<in> set s then None
      else case split_scope s of None \<Rightarrow> None | Some (a, scope) \<Rightarrow>
       (case ipv6_parts a of None \<Rightarrow> None | Some parts \<Rightarrow>
          map_option (\<lambda>n. (of_nat n, scope)) (ipv6_of_parts parts)))"

definition parse_ip :: "string \<Rightarrow> ip_address option" where
  "parse_ip s =
     (case parse_ipv4 s of
        Some w \<Rightarrow> Some (IPv4 w)
      | None \<Rightarrow> (case parse_ipv6 s of Some (w, scope) \<Rightarrow> Some (IPv6 w scope) | None \<Rightarrow> None))"

definition octets :: "ipv4 \<Rightarrow> nat list" where
  "octets w = [unat w div 16777216, unat w div 65536 mod 256, unat w div 256 mod 256, unat w mod 256]"

definition str_ipv4 :: "ipv4 \<Rightarrow> string" where
  "str_ipv4 w = join ''.'' (map string_of_nat (octets w))"

definition hextets :: "ipv6 \<Rightarrow> nat list" where
  "hextets w = map (\<lambda>i. unat w div 65536 ^ (7 - i) mod 65536) [0..<8]"

text \<open>The first longest run of zero parts: its start and its length.\<close>

fun best_run :: "nat \<Rightarrow> nat \<Rightarrow> nat \<times> nat \<Rightarrow> nat list \<Rightarrow> nat \<times> nat" where
  "best_run i n best [] = best"
| "best_run i n best (h # hs) =
     (if h = 0 then best_run (Suc i) (Suc n) (if snd best < Suc n then (i - n, Suc n) else best) hs
      else best_run (Suc i) 0 best hs)"

definition compress :: "nat list \<Rightarrow> string list" where
  "compress hs =
     (let (start, len) = best_run 0 0 (0, 0) hs; ts = map to_hex hs in
      if 1 < len then
        (if start = 0 then [[]] else []) @ take start ts @ [[]] @ drop (start + len) ts
        @ (if start + len = length hs then [[]] else [])
      else ts)"

definition str_ip :: "ip_address \<Rightarrow> string" where
  "str_ip a = (case a of IPv4 w \<Rightarrow> str_ipv4 w
     | IPv6 w scope \<Rightarrow> join '':'' (compress (hextets w)) @ (case scope of None \<Rightarrow> [] | Some z \<Rightarrow> CHR ''%'' # z))"

section \<open>Special-purpose ranges\<close>

definition in_net4 :: "ipv4 \<Rightarrow> nat \<times> nat \<times> nat \<times> nat \<Rightarrow> nat \<Rightarrow> bool" where
  "in_net4 w net len = (case net of (a, b, c, d) \<Rightarrow>
     drop_bit (32 - len) w = drop_bit (32 - len) (of_nat (((a * 256 + b) * 256 + c) * 256 + d)))"

definition in_net6 :: "ipv6 \<Rightarrow> nat list \<Rightarrow> nat \<Rightarrow> bool" where
  "in_net6 w prefix_hextets len =
     (drop_bit (128 - len) w =
      drop_bit (128 - len) (of_nat (foldl (\<lambda>n h. 65536 * n + h) 0 (take 8 (prefix_hextets @ replicate 8 0)))))"

text \<open>The private networks are those of \<^verbatim>\<open>ipaddress\<close> in Python 3.12.4 and 3.13.0; later releases only add to them
  (3fff::/20, the documentation network of RFC 9637).\<close>

definition private4 :: "ipv4 \<Rightarrow> bool" where
  "private4 w \<longleftrightarrow>
     list_ex (\<lambda>(net, len). in_net4 w net len)
       [((0, 0, 0, 0), 8), ((10, 0, 0, 0), 8), ((127, 0, 0, 0), 8), ((169, 254, 0, 0), 16), ((172, 16, 0, 0), 12),
        ((192, 0, 0, 0), 24), ((192, 0, 0, 170), 31), ((192, 0, 2, 0), 24), ((192, 168, 0, 0), 16),
        ((198, 18, 0, 0), 15), ((198, 51, 100, 0), 24), ((203, 0, 113, 0), 24), ((240, 0, 0, 0), 4),
        ((255, 255, 255, 255), 32)]
     \<and> \<not> in_net4 w (192, 0, 0, 9) 32 \<and> \<not> in_net4 w (192, 0, 0, 10) 32"

definition private6_net :: "ipv6 \<Rightarrow> bool" where
  "private6_net w \<longleftrightarrow>
     list_ex (\<lambda>(net, len). in_net6 w net len)
       [([0, 0, 0, 0, 0, 0, 0, 1], 128), ([0], 128), ([0, 0, 0, 0, 0, 0xffff], 96), ([0x64, 0xff9b, 1], 48),
        ([0x100], 64), ([0x2001], 23), ([0x2001, 0xdb8], 32), ([0x2002], 16), ([0xfc00], 7), ([0xfe80], 10)]
     \<and> \<not> list_ex (\<lambda>(net, len). in_net6 w net len)
       [([0x2001, 1, 0, 0, 0, 0, 0, 1], 128), ([0x2001, 1, 0, 0, 0, 0, 0, 2], 128), ([0x2001, 3], 32),
        ([0x2001, 4, 0x112], 48), ([0x2001, 0x20], 28), ([0x2001, 0x30], 28)]"

definition ipv4_mapped :: "ipv6 \<Rightarrow> ipv4 option" where
  "ipv4_mapped w = (if drop_bit 32 w = 0xFFFF then Some (ucast w) else None)"

definition is_private :: "ip_address \<Rightarrow> bool" where
  "is_private a = (case a of IPv4 w \<Rightarrow> private4 w
     | IPv6 w _ \<Rightarrow> (case ipv4_mapped w of Some v \<Rightarrow> private4 v | None \<Rightarrow> private6_net w))"

definition is_global :: "ip_address \<Rightarrow> bool" where
  "is_global a = (case a of IPv4 w \<Rightarrow> \<not> in_net4 w (100, 64, 0, 0) 10 \<and> \<not> private4 w
     | IPv6 _ _ \<Rightarrow> \<not> is_private a)"

definition is_loopback :: "ip_address \<Rightarrow> bool" where
  "is_loopback a = (case a of IPv4 w \<Rightarrow> in_net4 w (127, 0, 0, 0) 8 | IPv6 w _ \<Rightarrow> w = 1)"

definition is_link_local :: "ip_address \<Rightarrow> bool" where
  "is_link_local a = (case a of IPv4 w \<Rightarrow> in_net4 w (169, 254, 0, 0) 16 | IPv6 w _ \<Rightarrow> in_net6 w [0xfe80] 10)"

definition is_multicast :: "ip_address \<Rightarrow> bool" where
  "is_multicast a = (case a of IPv4 w \<Rightarrow> in_net4 w (224, 0, 0, 0) 4 | IPv6 w _ \<Rightarrow> in_net6 w [0xff00] 8)"

definition is_reserved :: "ip_address \<Rightarrow> bool" where
  "is_reserved a = (case a of IPv4 w \<Rightarrow> in_net4 w (240, 0, 0, 0) 4
     | IPv6 w _ \<Rightarrow> list_ex (\<lambda>(net, len). in_net6 w net len)
         [([0], 8), ([0x100], 8), ([0x200], 7), ([0x400], 6), ([0x800], 5), ([0x1000], 4), ([0x4000], 3),
          ([0x6000], 3), ([0x8000], 3), ([0xA000], 3), ([0xC000], 3), ([0xE000], 4), ([0xF000], 5), ([0xF800], 6),
          ([0xFE00], 9)])"

definition is_unspecified :: "ip_address \<Rightarrow> bool" where
  "is_unspecified a = (case a of IPv4 w \<Rightarrow> w = 0 | IPv6 w _ \<Rightarrow> w = 0)"

section \<open>Laws of the textual form\<close>

text \<open>A textual IPv4 address has four parts of digits; a textual IPv6 address has a colon.\<close>

lemma parse_octet_digits: "parse_octet s = Some n \<Longrightarrow> list_all is_digit s \<and> s \<noteq> []"
  by (simp add: parse_octet_def split: if_splits)

lemma parse_ipv4_shape:
  assumes "parse_ipv4 s = Some w"
  shows "length (split_on (CHR ''.'') s) = 4 \<and> (\<forall>p\<in>set (split_on (CHR ''.'') s). p \<noteq> [] \<and> list_all is_digit p)"
proof -
  from assms obtain a b c d where m: "map_opt parse_octet (split_on (CHR ''.'') s) = Some [a, b, c, d]"
    by (auto simp: parse_ipv4_def split: option.splits list.splits)
  have "\<forall>p\<in>set xs. \<exists>n. parse_octet p = Some n" if "map_opt parse_octet xs = Some ys" for xs ys
    using that by (induction xs arbitrary: ys) (auto split: option.splits)
  with m map_opt_length [OF m] parse_octet_digits show ?thesis by fastforce
qed

lemma split_on_length_sep: "length (split_on c s) = Suc (length (filter (\<lambda>x. x = c) s))"
  by (induction s) (auto split: list.splits)

lemma parse_ipv6_colon:
  assumes "parse_ipv6 s = Some r"
  shows "CHR '':'' \<in> set s"
proof -
  from assms obtain a scope where a: "split_scope s = Some (a, scope)" "ipv6_parts a \<noteq> None"
    by (auto simp: parse_ipv6_def split: option.splits if_splits)
  have "3 \<le> length (split_on (CHR '':'') a)"
    using a(2) by (auto simp: ipv6_parts_def Let_def split: if_splits)
  then have "filter (\<lambda>x. x = CHR '':'') a \<noteq> []" by (auto simp: split_on_length_sep)
  then have "CHR '':'' \<in> set a" by (auto simp: filter_empty_conv)
  with a(1) show ?thesis
    by (auto simp: split_scope_def Let_def split: if_splits dest: set_takeWhileD)
qed

end
