(* ===== verification/Sandbox_Policy.thy ===== *)
theory Sandbox_Policy
  imports Py_Regex Py_Json Py_Ip
begin

text \<open>
  \<^verbatim>\<open>src/icode/sandbox_policy.py\<close>: the versioned sandbox policy, its validation, its wire form and the
  tightening check. A policy is constructed from untyped arguments (\<open>policy_args\<close>), which
  \<open>post_init\<close> type-checks, normalises and validates into the record \<open>sandbox_policy\<close>; \<^verbatim>\<open>replace\<close> of
  the source goes through the same constructor. Resolving a path against the file system
  (\<^verbatim>\<open>expanduser().resolve(strict=False)\<close>) is the argument \<open>resolve\<close>, which is \<open>None\<close> where it raises;
  the hash is the argument \<open>sha256\<close>.
\<close>

definition POLICY_SCHEMA_VERSION :: int where
  "POLICY_SCHEMA_VERSION = 1"

datatype network_mode = DENY | PROXY_ALLOWLIST

definition mode_value :: "network_mode \<Rightarrow> string" where
  "mode_value m = (case m of DENY \<Rightarrow> ''deny'' | PROXY_ALLOWLIST \<Rightarrow> ''proxy_allowlist'')"

definition mode_of_value :: "string \<Rightarrow> network_mode option" where
  "mode_of_value s = (if s = ''deny'' then Some DENY else if s = ''proxy_allowlist'' then Some PROXY_ALLOWLIST else None)"

definition policy_error :: "string \<Rightarrow> exc" where
  "policy_error msg = PolicyValidationError msg"

definition require_utf8_scalar :: "string \<Rightarrow> string \<Rightarrow> unit res" where
  "require_utf8_scalar v location =
     raise_when (\<not> list_all is_scalar v) (policy_error (location @ '' must contain only UTF-8 encodable Unicode scalars''))"

definition normalize_path :: "(ppath \<Rightarrow> ppath option) \<Rightarrow> ppath \<Rightarrow> string \<Rightarrow> ppath res" where
  "normalize_path resolve p location =
     bindr (require_utf8_scalar (str_path p) location) (\<lambda>_.
       case resolve p of None \<Rightarrow> Inl (policy_error (''unable to normalize '' @ location)) | Some q \<Rightarrow> Inr q)"

fun map_res :: "('a \<Rightarrow> 'b res) \<Rightarrow> 'a list \<Rightarrow> 'b list res" where
  "map_res f [] = Inr []"
| "map_res f (x # xs) = bindr (f x) (\<lambda>y. bindr (map_res f xs) (\<lambda>ys. Inr (y # ys)))"

definition normalize_paths :: "(ppath \<Rightarrow> ppath option) \<Rightarrow> ppath list \<Rightarrow> string \<Rightarrow> ppath list res" where
  "normalize_paths resolve ps location =
     bindr (map_res (\<lambda>p. normalize_path resolve p (location @ '' item'')) ps)
       (\<lambda>qs. Inr (sort_key str_path (remdups qs)))"

definition roots_are_no_broader :: "ppath list \<Rightarrow> ppath list \<Rightarrow> bool" where
  "roots_are_no_broader candidate base \<longleftrightarrow> list_all (\<lambda>c. list_ex (\<lambda>b. path_within c b) base) candidate"

definition denies_preserved :: "ppath list \<Rightarrow> ppath list \<Rightarrow> bool" where
  "denies_preserved candidate base \<longleftrightarrow> list_all (\<lambda>b. list_ex (\<lambda>c. path_within b c) candidate) base"

section \<open>Host names\<close>

definition label_char :: "char \<Rightarrow> bool" where
  "label_char c \<longleftrightarrow> is_lower_letter c \<or> is_digit c"

definition DNS_LABEL_PATTERN :: regex where
  "DNS_LABEL_PATTERN =
     RSeq (RCls label_char)
       (ropt (RSeq (rrange 0 61 (RCls (\<lambda>c. label_char c \<or> c = CHR ''-''))) (RCls label_char)))"

definition DECIMAL_IPV4_PART_PATTERN :: regex where
  "DECIMAL_IPV4_PART_PATTERN = rplus (RCls is_digit)"

definition HEX_IPV4_PART_PATTERN :: regex where
  "HEX_IPV4_PART_PATTERN = RSeq (rilit ''0x'') (rplus (RCls is_hex_digit))"

definition is_legacy_ipv4_text :: "string \<Rightarrow> bool" where
  "is_legacy_ipv4_text domain =
     (let parts = split_on (CHR ''.'') domain in
      1 \<le> length parts \<and> length parts \<le> 4 \<and>
      list_all (\<lambda>p. re_fullmatch DECIMAL_IPV4_PART_PATTERN p \<or> re_fullmatch HEX_IPV4_PART_PATTERN p) parts)"

definition is_exact_dns_hostname_ascii :: "string \<Rightarrow> bool" where
  "is_exact_dns_hostname_ascii domain =
     (if domain = [] \<or> 253 < length domain then False
      else if \<not> list_all is_ascii domain then False
      else if is_legacy_ipv4_text domain then False
      else if parse_ip domain \<noteq> None then False
      else let labels = split_on (CHR ''.'') domain in
        2 \<le> length labels \<and> list_all (\<lambda>l. length l \<le> 63 \<and> re_fullmatch DNS_LABEL_PATTERN l) labels)"

definition is_exact_dns_hostname :: "string \<Rightarrow> bool" where
  "is_exact_dns_hostname domain = (list_all is_ascii domain \<and> is_exact_dns_hostname_ascii (lower domain))"

section \<open>The policy\<close>

record policy_args =
  arg_schema_version :: pyval
  arg_run_id :: pyval
  arg_ticket_id :: pyval
  arg_step :: pyval
  arg_workspace_root :: pyval
  arg_read_roots :: pyval
  arg_write_roots :: pyval
  arg_deny_read_roots :: pyval
  arg_deny_write_roots :: pyval
  arg_network_mode :: pyval
  arg_allowed_domains :: pyval
  arg_process_limit :: pyval
  arg_wall_timeout_seconds :: pyval
  arg_output_limit_bytes :: pyval
  arg_protected_paths :: pyval

record sandbox_policy =
  schema_version :: int
  run_id :: string
  ticket_id :: string
  step :: string
  workspace_root :: ppath
  read_roots :: "ppath list"
  write_roots :: "ppath list"
  deny_read_roots :: "ppath list"
  deny_write_roots :: "ppath list"
  network_mode :: network_mode
  allowed_domains :: "string list"
  process_limit :: int
  wall_timeout_seconds :: int
  output_limit_bytes :: int
  protected_paths :: "ppath list"

definition path_tuple :: "ppath list \<Rightarrow> pyval" where
  "path_tuple ps = PTuple (map PPath ps)"

text \<open>The attributes of an existing policy, as \<^verbatim>\<open>replace\<close> passes them on.\<close>

definition args_of :: "sandbox_policy \<Rightarrow> policy_args" where
  "args_of p =
     \<lparr>arg_schema_version = PInt (schema_version p), arg_run_id = PStr (run_id p), arg_ticket_id = PStr (ticket_id p),
      arg_step = PStr (step p), arg_workspace_root = PPath (workspace_root p),
      arg_read_roots = path_tuple (read_roots p), arg_write_roots = path_tuple (write_roots p),
      arg_deny_read_roots = path_tuple (deny_read_roots p), arg_deny_write_roots = path_tuple (deny_write_roots p),
      arg_network_mode = PEnum ''NetworkMode'' (mode_value (network_mode p)),
      arg_allowed_domains = PTuple (map PStr (allowed_domains p)),
      arg_process_limit = PInt (process_limit p), arg_wall_timeout_seconds = PInt (wall_timeout_seconds p),
      arg_output_limit_bytes = PInt (output_limit_bytes p), arg_protected_paths = path_tuple (protected_paths p)\<rparr>"

definition path_list_args :: "policy_args \<Rightarrow> (string \<times> pyval) list" where
  "path_list_args a =
     [(''read_roots'', arg_read_roots a), (''write_roots'', arg_write_roots a),
      (''deny_read_roots'', arg_deny_read_roots a), (''deny_write_roots'', arg_deny_write_roots a),
      (''protected_paths'', arg_protected_paths a)]"

definition check_path_tuple :: "string \<times> pyval \<Rightarrow> unit res" where
  "check_path_tuple nv = (case nv of (name, v) \<Rightarrow>
     (case v of
        PTuple xs \<Rightarrow> raise_when (\<not> list_all (\<lambda>x. as_path x \<noteq> None) xs) (policy_error (name @ '' items must be Path instances''))
      | _ \<Rightarrow> Inl (policy_error (name @ '' must be a tuple''))))"

definition as_mode :: "pyval \<Rightarrow> network_mode option" where
  "as_mode v = (case v of PEnum c s \<Rightarrow> if c = ''NetworkMode'' then mode_of_value s else None | _ \<Rightarrow> None)"

definition validate_declared_types :: "policy_args \<Rightarrow> unit res" where
  "validate_declared_types a =
     first_err (
       [raise_when (as_int (arg_schema_version a) = None) (policy_error ''schema_version must be integer 1'')]
       @ map (\<lambda>(name, v). raise_when (as_str v = None) (policy_error (name @ '' must be a string'')))
           [(''run_id'', arg_run_id a), (''ticket_id'', arg_ticket_id a), (''step'', arg_step a)]
       @ [raise_when (as_path (arg_workspace_root a) = None) (policy_error ''workspace_root must be a Path'')]
       @ map check_path_tuple (path_list_args a)
       @ [raise_when (as_mode (arg_network_mode a) = None) (policy_error ''network_mode must be a NetworkMode''),
          (case arg_allowed_domains a of
             PTuple xs \<Rightarrow> raise_when (\<not> list_all (\<lambda>x. as_str x \<noteq> None) xs) (policy_error ''allowed_domains items must be strings'')
           | _ \<Rightarrow> Inl (policy_error ''allowed_domains must be a tuple''))]
       @ map (\<lambda>(name, v). raise_when (as_int v = None) (policy_error (name @ '' must be a strictly positive integer'')))
           [(''process_limit'', arg_process_limit a), (''wall_timeout_seconds'', arg_wall_timeout_seconds a),
            (''output_limit_bytes'', arg_output_limit_bytes a)])"

definition tuple_items :: "(pyval \<Rightarrow> 'a option) \<Rightarrow> pyval \<Rightarrow> 'a list option" where
  "tuple_items f v = (case v of PTuple xs \<Rightarrow> map_opt f xs | _ \<Rightarrow> None)"

text \<open>The typed attributes, once \<open>validate_declared_types\<close> has accepted them.\<close>

definition typed_policy :: "policy_args \<Rightarrow> sandbox_policy option" where
  "typed_policy a =
     (case (as_int (arg_schema_version a), as_str (arg_run_id a), as_str (arg_ticket_id a), as_str (arg_step a),
            as_path (arg_workspace_root a)) of
        (Some sv, Some rid, Some tid, Some st, Some ws) \<Rightarrow>
     (case (tuple_items as_path (arg_read_roots a), tuple_items as_path (arg_write_roots a),
            tuple_items as_path (arg_deny_read_roots a), tuple_items as_path (arg_deny_write_roots a),
            tuple_items as_path (arg_protected_paths a)) of
        (Some rr, Some wr, Some dr, Some dw, Some pp) \<Rightarrow>
     (case (as_mode (arg_network_mode a), tuple_items as_str (arg_allowed_domains a), as_int (arg_process_limit a),
            as_int (arg_wall_timeout_seconds a), as_int (arg_output_limit_bytes a)) of
        (Some nm, Some ad, Some pl, Some wt, Some ob) \<Rightarrow>
          Some \<lparr>schema_version = sv, run_id = rid, ticket_id = tid, step = st, workspace_root = ws,
                read_roots = rr, write_roots = wr, deny_read_roots = dr, deny_write_roots = dw, network_mode = nm,
                allowed_domains = ad, process_limit = pl, wall_timeout_seconds = wt, output_limit_bytes = ob,
                protected_paths = pp\<rparr>
      | _ \<Rightarrow> None) | _ \<Rightarrow> None) | _ \<Rightarrow> None)"

definition path_lists :: "sandbox_policy \<Rightarrow> (string \<times> ppath list) list" where
  "path_lists p =
     [(''read_roots'', read_roots p), (''write_roots'', write_roots p), (''deny_read_roots'', deny_read_roots p),
      (''deny_write_roots'', deny_write_roots p), (''protected_paths'', protected_paths p)]"

definition validate_unicode_scalars :: "sandbox_policy \<Rightarrow> unit res" where
  "validate_unicode_scalars p =
     first_err (
       map (\<lambda>(name, v). require_utf8_scalar v name)
         [(''run_id'', run_id p), (''ticket_id'', ticket_id p), (''step'', step p)]
       @ [require_utf8_scalar (str_path (workspace_root p)) ''workspace_root'']
       @ concat (map (\<lambda>(name, ps). map (\<lambda>x. require_utf8_scalar (str_path x) (name @ '' item'')) ps) (path_lists p))
       @ map (\<lambda>d. require_utf8_scalar d ''allowed_domains item'') (allowed_domains p))"

definition validate :: "sandbox_policy \<Rightarrow> unit res" where
  "validate p =
     first_err (
       [validate_declared_types (args_of p), validate_unicode_scalars p,
        raise_when (schema_version p \<noteq> POLICY_SCHEMA_VERSION) (policy_error ''unsupported sandbox policy schema_version'')]
       @ map (\<lambda>(name, v). raise_when (strip v = [] \<or> list_ex is_ascii_control v)
             (policy_error (name @ '' must be non-blank and contain no ASCII control characters'')))
           [(''run_id'', run_id p), (''ticket_id'', ticket_id p), (''step'', step p)]
       @ map (\<lambda>(name, v). raise_when (v \<le> 0) (policy_error (name @ '' must be a strictly positive integer'')))
           [(''process_limit'', process_limit p), (''wall_timeout_seconds'', wall_timeout_seconds p),
            (''output_limit_bytes'', output_limit_bytes p)]
       @ [raise_when (network_mode p = DENY \<and> allowed_domains p \<noteq> [])
            (policy_error ''deny network mode cannot include allowed domains''),
          raise_when (network_mode p = PROXY_ALLOWLIST \<and> allowed_domains p = [])
            (policy_error ''proxy allowlist network mode requires at least one domain''),
          raise_when (filter (\<lambda>d. \<not> is_exact_dns_hostname_ascii d) (allowed_domains p) \<noteq> [])
            (policy_error ''allowed domain must be an exact ASCII DNS hostname'')]
       @ map (\<lambda>w. raise_when (\<not> path_within w (workspace_root p)) (policy_error ''write root must be within workspace_root''))
           (write_roots p)
       @ concat (map (\<lambda>(kind, allow, deny). map (\<lambda>a. raise_when (list_ex (path_within a) deny)
               (policy_error (kind @ '' root is fully covered by a deny root''))) allow)
           [(''read'', read_roots p, deny_read_roots p), (''write'', write_roots p, deny_write_roots p)])
       @ map (\<lambda>q. raise_when (\<not> list_ex (path_within q) (deny_write_roots p))
             (policy_error ''protected path is not covered by a deny-write root'')) (protected_paths p))"

definition post_init :: "(ppath \<Rightarrow> ppath option) \<Rightarrow> policy_args \<Rightarrow> sandbox_policy res" where
  "post_init resolve a =
     bindr (validate_declared_types a) (\<lambda>_.
     case typed_policy a of None \<Rightarrow> Inl (PyTypeError ''unreachable'') | Some p \<Rightarrow>
     bindr (validate_unicode_scalars p) (\<lambda>_.
     bindr (normalize_path resolve (workspace_root p) ''workspace_root'') (\<lambda>ws.
     bindr (normalize_paths resolve (read_roots p) ''read_roots'') (\<lambda>rr.
     bindr (normalize_paths resolve (write_roots p) ''write_roots'') (\<lambda>wr.
     bindr (normalize_paths resolve (deny_read_roots p) ''deny_read_roots'') (\<lambda>dr.
     bindr (normalize_paths resolve (deny_write_roots p) ''deny_write_roots'') (\<lambda>dw.
     bindr (normalize_paths resolve (protected_paths p) ''protected_paths'') (\<lambda>pp.
     let q = p\<lparr>workspace_root := ws, read_roots := rr, write_roots := wr, deny_read_roots := dr, deny_write_roots := dw,
               protected_paths := pp,
               allowed_domains := sorted_set (map (\<lambda>d. if is_exact_dns_hostname d then lower d else d) (allowed_domains p))\<rparr>
     in bindr (validate q) (\<lambda>_. Inr q)))))))))"

section \<open>Wire form\<close>

definition to_fields :: "sandbox_policy \<Rightarrow> (string \<times> pyval) list" where
  "to_fields p =
     [(''schema_version'', PInt (schema_version p)), (''run_id'', PStr (run_id p)), (''ticket_id'', PStr (ticket_id p)),
      (''step'', PStr (step p)), (''workspace_root'', PStr (str_path (workspace_root p))),
      (''read_roots'', PList (map (PStr \<circ> str_path) (read_roots p))),
      (''write_roots'', PList (map (PStr \<circ> str_path) (write_roots p))),
      (''deny_read_roots'', PList (map (PStr \<circ> str_path) (deny_read_roots p))),
      (''deny_write_roots'', PList (map (PStr \<circ> str_path) (deny_write_roots p))),
      (''network_mode'', PStr (mode_value (network_mode p))),
      (''allowed_domains'', PList (map PStr (allowed_domains p))),
      (''process_limit'', PInt (process_limit p)), (''wall_timeout_seconds'', PInt (wall_timeout_seconds p)),
      (''output_limit_bytes'', PInt (output_limit_bytes p)),
      (''protected_paths'', PList (map (PStr \<circ> str_path) (protected_paths p)))]"

definition to_dict :: "sandbox_policy \<Rightarrow> pyval" where
  "to_dict p = PDict (map (\<lambda>(k, v). (PStr k, v)) (to_fields p))"

definition policy_field_names :: "string list" where
  "policy_field_names =
     [''schema_version'', ''run_id'', ''ticket_id'', ''step'', ''workspace_root'', ''read_roots'', ''write_roots'',
      ''deny_read_roots'', ''deny_write_roots'', ''network_mode'', ''allowed_domains'', ''process_limit'',
      ''wall_timeout_seconds'', ''output_limit_bytes'', ''protected_paths'']"

definition path_list_names :: "string list" where
  "path_list_names = [''read_roots'', ''write_roots'', ''deny_read_roots'', ''deny_write_roots'', ''protected_paths'']"

definition check_string_list :: "string \<Rightarrow> pyval \<Rightarrow> unit res" where
  "check_string_list name v =
     (case v of
        PList xs \<Rightarrow> raise_when (\<not> list_all (\<lambda>x. as_str x \<noteq> None) xs) (policy_error (name @ '' items must be strings''))
      | _ \<Rightarrow> Inl (policy_error (name @ '' must be a list'')))"

definition list_items :: "pyval \<Rightarrow> string list" where
  "list_items v = (case v of PList xs \<Rightarrow> (case map_opt as_str xs of Some ss \<Rightarrow> ss | None \<Rightarrow> []) | _ \<Rightarrow> [])"

definition text_of :: "pyval \<Rightarrow> string" where
  "text_of v = (case v of PStr s \<Rightarrow> s | _ \<Rightarrow> [])"

definition paths_arg :: "pyval \<Rightarrow> pyval" where
  "paths_arg v = path_tuple (map parse_path (list_items v))"

definition check_wire :: "(string \<Rightarrow> pyval) \<Rightarrow> unit res" where
  "check_wire field =
     first_err (
       [raise_when (field ''schema_version'' \<noteq> PInt POLICY_SCHEMA_VERSION) (policy_error ''schema_version must be integer 1'')]
       @ map (\<lambda>n. raise_when (as_str (field n) = None) (policy_error (n @ '' must be a string'')))
           [''run_id'', ''ticket_id'', ''step'', ''workspace_root'']
       @ map (\<lambda>n. check_string_list n (field n)) path_list_names
       @ [check_string_list ''allowed_domains'' (field ''allowed_domains'')]
       @ map (\<lambda>n. raise_when (as_int (field n) = None) (policy_error (n @ '' must be an integer'')))
           [''process_limit'', ''wall_timeout_seconds'', ''output_limit_bytes'']
       @ [raise_when (as_str (field ''network_mode'') = None) (policy_error ''network_mode must be a string''),
          raise_when (mode_of_value (text_of (field ''network_mode'')) = None) (policy_error ''unsupported network_mode''),
          raise_when (\<not> is_absolute (parse_path (text_of (field ''workspace_root''))))
            (policy_error ''workspace_root must be an absolute path'')]
       @ concat (map (\<lambda>n. map (\<lambda>s. raise_when (\<not> is_absolute (parse_path s)) (policy_error (n @ '' items must be absolute paths'')))
             (list_items (field n))) path_list_names))"

definition from_dict :: "(ppath \<Rightarrow> ppath option) \<Rightarrow> pyval \<Rightarrow> sandbox_policy res" where
  "from_dict resolve data = (case data of
       PDict kvs \<Rightarrow>
         let missing = filter (\<lambda>n. PStr n \<notin> set (dict_keys kvs)) policy_field_names;
             unknown = filter (\<lambda>k. k \<notin> PStr ` set policy_field_names) (dict_keys kvs)
         in if missing \<noteq> [] \<or> unknown \<noteq> [] then
              Inl (policy_error (join ''; ''
                ((if missing \<noteq> [] then [''missing fields''] else []) @ (if unknown \<noteq> [] then [''unknown''] else []))))
            else let field = (\<lambda>n. dict_get_or PNone kvs (PStr n)) in
              bindr (check_wire field) (\<lambda>_.
                post_init resolve
                  \<lparr>arg_schema_version = field ''schema_version'', arg_run_id = field ''run_id'',
                   arg_ticket_id = field ''ticket_id'', arg_step = field ''step'',
                   arg_workspace_root = PPath (parse_path (text_of (field ''workspace_root''))),
                   arg_read_roots = paths_arg (field ''read_roots''), arg_write_roots = paths_arg (field ''write_roots''),
                   arg_deny_read_roots = paths_arg (field ''deny_read_roots''),
                   arg_deny_write_roots = paths_arg (field ''deny_write_roots''),
                   arg_network_mode = PEnum ''NetworkMode'' (text_of (field ''network_mode'')),
                   arg_allowed_domains = PTuple (map PStr (list_items (field ''allowed_domains''))),
                   arg_process_limit = field ''process_limit'', arg_wall_timeout_seconds = field ''wall_timeout_seconds'',
                   arg_output_limit_bytes = field ''output_limit_bytes'',
                   arg_protected_paths = paths_arg (field ''protected_paths'')\<rparr>)
     | _ \<Rightarrow> Inl (policy_error ''sandbox policy wire must be a mapping''))"

text \<open>Every value of \<open>to_dict\<close> is a JSON value, so \<^verbatim>\<open>dumps\<close> does not raise on it, and none is a float, so
  the printing of floats does not matter.\<close>

definition canonical_json :: "sandbox_policy \<Rightarrow> string" where
  "canonical_json p = (case dumps (\<lambda>_. []) False [] (to_dict p) of Inr s \<Rightarrow> s | Inl _ \<Rightarrow> [])"

definition policy_hash :: "(string \<Rightarrow> string) \<Rightarrow> sandbox_policy \<Rightarrow> string" where
  "policy_hash sha256 p = sha256 (canonical_json p)"

section \<open>Tightening\<close>

definition broadens :: "string \<Rightarrow> exc" where
  "broadens what = policy_error (''candidate policy broadens '' @ what)"

definition tighten_policy :: "sandbox_policy \<Rightarrow> sandbox_policy \<Rightarrow> sandbox_policy res" where
  "tighten_policy base candidate =
     (case validate base of Inl _ \<Rightarrow> Inl (policy_error ''base invalid; candidate policy broadens or cannot be proven narrower'')
      | Inr _ \<Rightarrow>
     (case validate candidate of
        Inl _ \<Rightarrow> Inl (policy_error ''candidate invalid; candidate policy broadens or cannot be proven narrower'')
      | Inr _ \<Rightarrow>
     bindr (first_err
       [raise_when (schema_version candidate \<noteq> schema_version base \<or> run_id candidate \<noteq> run_id base
            \<or> ticket_id candidate \<noteq> ticket_id base \<or> step candidate \<noteq> step base
            \<or> workspace_root candidate \<noteq> workspace_root base) (broadens ''by changing its identity''),
        raise_when (\<not> roots_are_no_broader (read_roots candidate) (read_roots base)) (broadens ''read_roots''),
        raise_when (\<not> roots_are_no_broader (write_roots candidate) (write_roots base)) (broadens ''write_roots''),
        raise_when (\<not> denies_preserved (deny_read_roots candidate) (deny_read_roots base))
          (broadens ''by weakening deny_read_roots''),
        raise_when (\<not> denies_preserved (deny_write_roots candidate) (deny_write_roots base))
          (broadens ''by weakening deny_write_roots''),
        raise_when (\<not> set (protected_paths base) \<subseteq> set (protected_paths candidate))
          (broadens ''by removing a protected path''),
        raise_when (process_limit candidate > process_limit base) (broadens ''process_limit''),
        raise_when (wall_timeout_seconds candidate > wall_timeout_seconds base) (broadens ''wall_timeout_seconds''),
        raise_when (output_limit_bytes candidate > output_limit_bytes base) (broadens ''output_limit_bytes''),
        (case network_mode base of
           DENY \<Rightarrow> raise_when (network_mode candidate \<noteq> DENY) (broadens ''network access'')
         | PROXY_ALLOWLIST \<Rightarrow>
             raise_when (network_mode candidate = PROXY_ALLOWLIST
               \<and> \<not> set (allowed_domains candidate) \<subseteq> set (allowed_domains base)) (broadens ''allowed domains''))])
       (\<lambda>_. Inr candidate)))"

text \<open>\<open>resolve_strict\<close> is \<^verbatim>\<open>expanduser().resolve(strict=True)\<close>, \<open>is_dir\<close> the directory test.\<close>

definition derive_read_only_reviewer_policy ::
  "(ppath \<Rightarrow> ppath option) \<Rightarrow> (ppath \<Rightarrow> ppath option) \<Rightarrow> (ppath \<Rightarrow> bool) \<Rightarrow> sandbox_policy option \<Rightarrow> pyval \<Rightarrow> pyval list
    \<Rightarrow> sandbox_policy res" where
  "derive_read_only_reviewer_policy resolve resolve_strict is_dir arg root_arg denied =
     (case arg of None \<Rightarrow> Inl (policy_error ''Reviewer base policy is invalid'') | Some base \<Rightarrow>
      if step base \<noteq> ''review'' then Inl (policy_error ''Reviewer policy must belong to the review step'')
      else
       let given = (case root_arg of PPath q \<Rightarrow> Some q | PStr s \<Rightarrow> Some (parse_path s) | _ \<Rightarrow> None)
       in case Option.bind given resolve_strict of
         None \<Rightarrow> Inl (policy_error ''Reviewer workspace root is unavailable'')
       | Some workspace \<Rightarrow>
          if \<not> is_dir workspace \<or> workspace_root base \<noteq> workspace
          then Inl (policy_error ''Reviewer workspace root does not match policy'')
          else if list_ex (\<lambda>r. \<not> path_within r workspace) (read_roots base)
          then Inl (policy_error ''Reviewer policy contains a read root outside the workspace'')
          else
            bindr (post_init resolve ((args_of base)\<lparr>arg_write_roots := PTuple [],
                arg_deny_read_roots := PTuple (map PPath (deny_read_roots base) @ denied),
                arg_network_mode := PEnum ''NetworkMode'' ''deny'', arg_allowed_domains := PTuple []\<rparr>))
              (\<lambda>candidate. tighten_policy base candidate))"

section \<open>Host names: what is accepted\<close>

abbreviation inner_char :: "char \<Rightarrow> bool" where
  "inner_char c \<equiv> label_char c \<or> c = CHR ''-''"

lemma dns_label_iff:
  "re_fullmatch DNS_LABEL_PATTERN s \<longleftrightarrow>
     s \<noteq> [] \<and> length s \<le> 63 \<and> list_all inner_char s \<and> label_char (hd s) \<and> label_char (last s)"
proof -
  have r: "rmatch s (rrange 0 61 (RCls inner_char)) 1 k \<longleftrightarrow> 1 \<le> k \<and> k \<le> 62 \<and> run_of inner_char s 1 k" for k
    by (simp add: rmatch_rrange_cls)
  have "re_fullmatch DNS_LABEL_PATTERN s \<longleftrightarrow> s \<noteq> [] \<and> label_char (s ! 0) \<and>
      (length s = 1 \<or> (\<exists>k. 1 \<le> k \<and> k \<le> 62 \<and> run_of inner_char s 1 k \<and> k < length s \<and> label_char (s ! k) \<and> length s = Suc k))"
    unfolding re_fullmatch_iff DNS_LABEL_PATTERN_def ropt_def rmatch_simps r by (auto simp: r [simplified])
  also have "\<dots> \<longleftrightarrow> s \<noteq> [] \<and> length s \<le> 63 \<and> list_all inner_char s \<and> label_char (hd s) \<and> label_char (last s)"
    (is "?l \<longleftrightarrow> ?r")
  proof
    assume l: ?l
    then have ne: "s \<noteq> []" and h: "label_char (hd s)" by (auto simp: hd_conv_nth)
    from l consider "length s = 1" | k where "1 \<le> k" "k \<le> 62" "run_of inner_char s 1 k" "label_char (s ! k)" "length s = Suc k"
      by blast
    then show ?r
    proof cases
      case 1
      with h show ?thesis by (cases s) auto
    next
      case 2
      have "inner_char (s ! i)" if "i < length s" for i
      proof (cases "i = 0 \<or> i = k")
        case True
        with h ne 2 show ?thesis by (auto simp: hd_conv_nth)
      next
        case False
        with 2 that show ?thesis by (auto simp: run_of_def)
      qed
      then have "list_all inner_char s" by (simp add: list_all_length)
      with 2 ne h show ?thesis by (simp add: last_conv_nth)
    qed
  next
    assume r: ?r
    show ?l
    proof (cases "length s = 1")
      case True
      with r show ?thesis by (auto simp: hd_conv_nth)
    next
      case False
      with r have "2 \<le> length s" by (cases s) (auto simp: Suc_le_eq)
      then have "1 \<le> length s - 1" "length s = Suc (length s - 1)" by auto
      with r show ?thesis
        by (intro conjI disjI2 exI [of _ "length s - 1"])
          (auto simp: hd_conv_nth last_conv_nth run_of_def list_all_length)
    qed
  qed
  finally show ?thesis .
qed

lemma label_char_props: "inner_char c \<Longrightarrow> lower_char c = c \<and> is_ascii c \<and> c \<noteq> CHR ''.'' \<and> c \<noteq> CHR '':''"
  by (auto simp: label_char_def is_lower_letter_def is_digit_def lower_char_def is_ascii_def Let_def)

lemma set_split_on: "set s \<subseteq> insert c (\<Union>(set ` set (split_on c s)))"
proof (induction s)
  case (Cons a s)
  then show ?case by (cases "split_on c s") auto
qed simp

lemma hostname_chars:
  assumes "is_exact_dns_hostname_ascii d" "c \<in> set d"
  shows "inner_char c \<or> c = CHR ''.''"
proof -
  have "list_all (\<lambda>l. re_fullmatch DNS_LABEL_PATTERN l) (split_on (CHR ''.'') d)"
    using assms(1) by (auto simp: is_exact_dns_hostname_ascii_def Let_def list_all_iff split: if_splits)
  with set_split_on [of d "CHR ''.''"] assms(2) show ?thesis
    by (auto simp: dns_label_iff list_all_iff)
qed

lemma hostname_lower: "is_exact_dns_hostname_ascii d \<Longrightarrow> lower d = d"
proof -
  assume d: "is_exact_dns_hostname_ascii d"
  have dot: "lower_char (CHR ''.'') = CHR ''.''" by code_simp
  have "lower_char c = c" if "c \<in> set d" for c
    using hostname_chars [OF d that] label_char_props [of c] dot by metis
  then show ?thesis unfolding lower_def by (rule map_idI)
qed

lemma hostname_ascii: "is_exact_dns_hostname_ascii d \<Longrightarrow> list_all is_ascii d"
  by (auto simp: is_exact_dns_hostname_ascii_def split: if_splits)

lemma hostname_canonical: "is_exact_dns_hostname_ascii d \<Longrightarrow> is_exact_dns_hostname d"
  by (simp add: is_exact_dns_hostname_def hostname_ascii hostname_lower)

lemma legacy_covers_ipv4: "parse_ipv4 d = Some w \<Longrightarrow> is_legacy_ipv4_text d"
  using parse_ipv4_shape [of d w]
  by (auto simp: is_legacy_ipv4_text_def Let_def list_all_iff DECIMAL_IPV4_PART_PATTERN_def re_fullmatch_rplus)

text \<open>The labels already exclude every textual IP address, so the \<^verbatim>\<open>ipaddress\<close> test never decides.\<close>

lemma hostname_iff_labels:
  "is_exact_dns_hostname_ascii d \<longleftrightarrow>
     length d \<le> 253 \<and> \<not> is_legacy_ipv4_text d \<and> 2 \<le> length (split_on (CHR ''.'') d)
     \<and> list_all (re_fullmatch DNS_LABEL_PATTERN) (split_on (CHR ''.'') d)" (is "?l \<longleftrightarrow> ?r")
proof
  assume ?l
  then show ?r by (auto simp: is_exact_dns_hostname_ascii_def Let_def list_all_iff split: if_splits)
next
  assume r: ?r
  have chars: "inner_char c \<or> c = CHR ''.''" if "c \<in> set d" for c
    using r set_split_on [of d "CHR ''.''"] that by (auto simp: dns_label_iff list_all_iff)
  then have "CHR '':'' \<notin> set d"
    using label_char_props by blast
  then have "parse_ipv6 d = None" using parse_ipv6_colon by (metis not_None_eq)
  moreover have "parse_ipv4 d = None" using legacy_covers_ipv4 [of d] r by (cases "parse_ipv4 d") auto
  ultimately have "parse_ip d = None" by (simp add: parse_ip_def)
  moreover have "list_all is_ascii d"
  proof -
    have "is_ascii (CHR ''.'')" by code_simp
    with chars label_char_props show ?thesis unfolding list_all_iff by metis
  qed
  moreover have "d \<noteq> []" using r by auto
  ultimately show ?l
    using r by (auto simp: is_exact_dns_hostname_ascii_def list_all_iff dns_label_iff)
qed

section \<open>Validation\<close>

lemma is_scalar_char [simp]: "is_scalar c"
proof -
  have "\<not> 55296 \<le> (of_char c :: nat)" using nat_of_char_less_256 [of c] by linarith
  then show ?thesis unfolding is_scalar_def by blast
qed

lemma require_utf8_scalar_Inr [simp]: "require_utf8_scalar v l = Inr ()"
  by (simp add: require_utf8_scalar_def list_all_iff raise_when_def)

lemma validate_unicode_scalars_Inr [simp]: "validate_unicode_scalars p = Inr ()"
  by (auto simp: validate_unicode_scalars_def)

lemma as_mode_value [simp]: "as_mode (PEnum ''NetworkMode'' (mode_value m)) = Some m"
  by (cases m) (simp_all add: as_mode_def mode_value_def mode_of_value_def)

lemma check_path_tuple_paths [simp]: "check_path_tuple (n, path_tuple ps) = Inr ()"
  by (simp add: check_path_tuple_def path_tuple_def list_all_iff)

lemma validate_declared_types_args_of [simp]: "validate_declared_types (args_of p) = Inr ()"
  by (simp add: validate_declared_types_def args_of_def path_list_args_def list_all_iff)

lemma tuple_items_paths [simp]: "tuple_items as_path (path_tuple ps) = Some ps"
  by (simp add: tuple_items_def path_tuple_def)

lemma tuple_items_strs [simp]: "tuple_items as_str (PTuple (map PStr ss)) = Some ss"
  by (simp add: tuple_items_def)

lemma typed_policy_args_of [simp]: "typed_policy (args_of p) = Some p"
  by (cases p) (simp add: typed_policy_def args_of_def)

definition visible_text :: "string \<Rightarrow> bool" where
  "visible_text v \<longleftrightarrow> strip v \<noteq> [] \<and> \<not> list_ex is_ascii_control v"

lemma validate_iff:
  "validate p = Inr () \<longleftrightarrow>
     schema_version p = 1 \<and> visible_text (run_id p) \<and> visible_text (ticket_id p) \<and> visible_text (step p)
     \<and> 0 < process_limit p \<and> 0 < wall_timeout_seconds p \<and> 0 < output_limit_bytes p
     \<and> (network_mode p = DENY \<longleftrightarrow> allowed_domains p = [])
     \<and> list_all is_exact_dns_hostname_ascii (allowed_domains p)
     \<and> (\<forall>w\<in>set (write_roots p). path_within w (workspace_root p) \<and> (\<forall>d\<in>set (deny_write_roots p). \<not> path_within w d))
     \<and> (\<forall>r\<in>set (read_roots p). \<forall>d\<in>set (deny_read_roots p). \<not> path_within r d)
     \<and> (\<forall>q\<in>set (protected_paths p). \<exists>d\<in>set (deny_write_roots p). path_within q d)"
proof -
  have m: "network_mode p = PROXY_ALLOWLIST \<longleftrightarrow> network_mode p \<noteq> DENY" by (cases "network_mode p") simp_all
  show ?thesis
    unfolding validate_def first_err_Inr_iff
    by (simp add: ball_Un POLICY_SCHEMA_VERSION_def visible_text_def list_ex_iff list_all_iff filter_empty_conv m not_le)
      blast
qed

lemma post_init_valid: "post_init resolve a = Inr p \<Longrightarrow> validate p = Inr ()"
  by (auto simp: post_init_def Let_def split: option.splits)

section \<open>Authority\<close>

text \<open>What a policy allows: the meaning that tightening may only shrink.\<close>

definition may_read :: "sandbox_policy \<Rightarrow> ppath \<Rightarrow> bool" where
  "may_read p x \<longleftrightarrow> list_ex (path_within x) (read_roots p) \<and> \<not> list_ex (path_within x) (deny_read_roots p)"

definition may_write :: "sandbox_policy \<Rightarrow> ppath \<Rightarrow> bool" where
  "may_write p x \<longleftrightarrow> list_ex (path_within x) (write_roots p) \<and> \<not> list_ex (path_within x) (deny_write_roots p)"

definition may_connect :: "sandbox_policy \<Rightarrow> string \<Rightarrow> bool" where
  "may_connect p host \<longleftrightarrow> network_mode p = PROXY_ALLOWLIST \<and> host \<in> set (allowed_domains p)"

datatype permission =
    Read_file ppath
  | Write_file ppath
  | Connect_to string
  | Run_processes int
  | Run_seconds int
  | Emit_bytes int

definition permits :: "sandbox_policy \<Rightarrow> permission \<Rightarrow> bool" where
  "permits p q = (case q of
       Read_file x \<Rightarrow> may_read p x
     | Write_file x \<Rightarrow> may_write p x
     | Connect_to h \<Rightarrow> may_connect p h
     | Run_processes n \<Rightarrow> n \<le> process_limit p
     | Run_seconds n \<Rightarrow> n \<le> wall_timeout_seconds p
     | Emit_bytes n \<Rightarrow> n \<le> output_limit_bytes p)"

definition narrower :: "sandbox_policy \<Rightarrow> sandbox_policy \<Rightarrow> bool" where
  "narrower base c \<longleftrightarrow>
     schema_version c = schema_version base \<and> run_id c = run_id base \<and> ticket_id c = ticket_id base
     \<and> step c = step base \<and> workspace_root c = workspace_root base
     \<and> roots_are_no_broader (read_roots c) (read_roots base) \<and> roots_are_no_broader (write_roots c) (write_roots base)
     \<and> denies_preserved (deny_read_roots c) (deny_read_roots base)
     \<and> denies_preserved (deny_write_roots c) (deny_write_roots base)
     \<and> set (protected_paths base) \<subseteq> set (protected_paths c)
     \<and> process_limit c \<le> process_limit base \<and> wall_timeout_seconds c \<le> wall_timeout_seconds base
     \<and> output_limit_bytes c \<le> output_limit_bytes base
     \<and> (network_mode c = PROXY_ALLOWLIST \<longrightarrow>
          network_mode base = PROXY_ALLOWLIST \<and> set (allowed_domains c) \<subseteq> set (allowed_domains base))"

lemma tighten_iff:
  "tighten_policy base c = Inr d \<longleftrightarrow> d = c \<and> validate base = Inr () \<and> validate c = Inr () \<and> narrower base c"
  by (cases "network_mode base"; cases "network_mode c")
    (auto simp: tighten_policy_def narrower_def not_less split: sum.splits)

lemma roots_no_broader_refl [simp]: "roots_are_no_broader rs rs"
  by (force simp: roots_are_no_broader_def list_all_iff list_ex_iff)

lemma denies_preserved_refl [simp]: "denies_preserved rs rs"
  by (force simp: denies_preserved_def list_all_iff list_ex_iff)

lemma roots_no_broader_trans:
  "roots_are_no_broader b a \<Longrightarrow> roots_are_no_broader c b \<Longrightarrow> roots_are_no_broader c a"
  unfolding roots_are_no_broader_def list_all_iff list_ex_iff by (meson path_within_trans)

lemma denies_preserved_trans:
  "denies_preserved b a \<Longrightarrow> denies_preserved c b \<Longrightarrow> denies_preserved c a"
  unfolding denies_preserved_def list_all_iff list_ex_iff by (meson path_within_trans)

lemma narrower_refl: "narrower p p"
  by (simp add: narrower_def)

lemma narrower_trans: "narrower a b \<Longrightarrow> narrower b c \<Longrightarrow> narrower a c"
  unfolding narrower_def
  by (intro conjI) (auto intro: roots_no_broader_trans denies_preserved_trans order_trans)

lemma no_broader_within: "roots_are_no_broader c b \<Longrightarrow> list_ex (path_within x) c \<Longrightarrow> list_ex (path_within x) b"
  unfolding roots_are_no_broader_def list_all_iff list_ex_iff by (meson path_within_trans)

lemma denies_within: "denies_preserved c b \<Longrightarrow> list_ex (path_within x) b \<Longrightarrow> list_ex (path_within x) c"
  unfolding denies_preserved_def list_all_iff list_ex_iff by (meson path_within_trans)

lemma narrower_permits: "narrower base c \<Longrightarrow> permits c q \<Longrightarrow> permits base q"
  by (cases q) (auto simp: permits_def narrower_def may_read_def may_write_def may_connect_def
      dest: no_broader_within denies_within)

section \<open>Tightening as an interface\<close>

text \<open>
  A tightening check returns its candidate or raises, is a preorder on valid policies, and never
  grants what the base does not. Clients tighten step by step.
\<close>

fun tighten_all :: "('p \<Rightarrow> 'p \<Rightarrow> 'p res) \<Rightarrow> 'p \<Rightarrow> 'p list \<Rightarrow> 'p res" where
  "tighten_all tighten b [] = Inr b"
| "tighten_all tighten b (c # cs) = bindr (tighten b c) (\<lambda>d. tighten_all tighten d cs)"

locale tightening =
  fixes ok :: "'p \<Rightarrow> bool"
    and tighten :: "'p \<Rightarrow> 'p \<Rightarrow> 'p res"
    and allows :: "'p \<Rightarrow> 'a \<Rightarrow> bool"
  assumes tighten_result: "tighten b c = Inr d \<Longrightarrow> d = c \<and> ok b \<and> ok c"
    and tighten_self: "ok b \<Longrightarrow> tighten b b = Inr b"
    and tighten_chain: "tighten a b = Inr b \<Longrightarrow> tighten b c = Inr c \<Longrightarrow> tighten a c = Inr c"
    and tighten_allows: "tighten b c = Inr d \<Longrightarrow> allows d q \<Longrightarrow> allows b q"
begin

lemma tighten_all_narrows: "ok b \<Longrightarrow> tighten_all tighten b cs = Inr d \<Longrightarrow> tighten b d = Inr d \<and> ok d"
proof (induction cs arbitrary: b)
  case Nil
  then show ?case by (simp add: tighten_self)
next
  case (Cons c cs)
  then obtain e where e: "tighten b c = Inr e" "tighten_all tighten e cs = Inr d" by auto
  with tighten_result [OF e(1)] have bc: "tighten b c = Inr c" "ok c" "tighten_all tighten c cs = Inr d" by simp_all
  with Cons.IH show ?case using tighten_chain by blast
qed

lemma tighten_all_allows: "ok b \<Longrightarrow> tighten_all tighten b cs = Inr d \<Longrightarrow> allows d q \<Longrightarrow> allows b q"
  using tighten_all_narrows tighten_allows by blast

end

interpretation policy: tightening "\<lambda>p. validate p = Inr ()" tighten_policy permits
  by unfold_locales (auto simp: tighten_iff narrower_refl intro: narrower_trans narrower_permits)

section \<open>Construction is stable\<close>

text \<open>A path whose resolution is itself; the hypothesis under which a constructed policy is rebuilt
  unchanged: the file system still resolves its paths to themselves.\<close>

definition resolved_policy :: "(ppath \<Rightarrow> ppath option) \<Rightarrow> sandbox_policy \<Rightarrow> bool" where
  "resolved_policy resolve p \<longleftrightarrow> resolve (workspace_root p) = Some (workspace_root p)
     \<and> (\<forall>x\<in>set (read_roots p @ write_roots p @ deny_read_roots p @ deny_write_roots p @ protected_paths p).
          resolve x = Some x)"

definition canonical_policy :: "sandbox_policy \<Rightarrow> bool" where
  "canonical_policy p \<longleftrightarrow> validate p = Inr () \<and> sorted (allowed_domains p) \<and> distinct (allowed_domains p)
     \<and> (\<forall>ps\<in>{read_roots p, write_roots p, deny_read_roots p, deny_write_roots p, protected_paths p}.
          sorted (map str_path ps) \<and> distinct ps)"

lemma normalize_paths_canonical:
  "normalize_paths resolve ps l = Inr qs \<Longrightarrow> sorted (map str_path qs) \<and> distinct qs"
  by (auto simp: normalize_paths_def)

lemma post_init_canonical: "post_init resolve a = Inr p \<Longrightarrow> canonical_policy p"
  by (auto simp: post_init_def canonical_policy_def Let_def split: option.splits
      dest: normalize_paths_canonical)

lemma map_res_fix: "(\<And>x. x \<in> set xs \<Longrightarrow> f x = Inr x) \<Longrightarrow> map_res f xs = Inr xs"
  by (induction xs) auto

lemma normalize_path_fix: "resolve x = Some x \<Longrightarrow> normalize_path resolve x l = Inr x"
  by (simp add: normalize_path_def)

lemma normalize_paths_fix:
  assumes "\<And>x. x \<in> set ps \<Longrightarrow> resolve x = Some x" "sorted (map str_path ps)" "distinct ps"
  shows "normalize_paths resolve ps l = Inr ps"
proof -
  have "map_res (\<lambda>p. normalize_path resolve p (l @ '' item'')) ps = Inr ps"
    using assms(1) by (intro map_res_fix normalize_path_fix) blast
  with assms(2,3) show ?thesis
    by (simp add: normalize_paths_def distinct_remdups_id sort_key_id_if_sorted)
qed

lemma canonical_domains:
  assumes "canonical_policy p"
  shows "sorted_set (map (\<lambda>d. if is_exact_dns_hostname d then lower d else d) (allowed_domains p)) = allowed_domains p"
proof -
  have "list_all is_exact_dns_hostname_ascii (allowed_domains p)"
    using assms by (simp add: canonical_policy_def validate_iff)
  then have "map (\<lambda>d. if is_exact_dns_hostname d then lower d else d) (allowed_domains p) = allowed_domains p"
    by (intro map_idI) (auto simp: list_all_iff hostname_canonical hostname_lower)
  with assms show ?thesis by (simp add: canonical_policy_def sorted_set_id)
qed

text \<open>Rebuilding a canonical policy from its own attributes gives it back.\<close>

lemma post_init_args_of:
  assumes "canonical_policy p" "resolved_policy resolve p"
  shows "post_init resolve (args_of p) = Inr p"
proof -
  have n: "normalize_path resolve (workspace_root p) l = Inr (workspace_root p)"
    "normalize_paths resolve (read_roots p) l = Inr (read_roots p)"
    "normalize_paths resolve (write_roots p) l = Inr (write_roots p)"
    "normalize_paths resolve (deny_read_roots p) l = Inr (deny_read_roots p)"
    "normalize_paths resolve (deny_write_roots p) l = Inr (deny_write_roots p)"
    "normalize_paths resolve (protected_paths p) l = Inr (protected_paths p)" for l
    using assms
    by (auto simp: canonical_policy_def resolved_policy_def intro!: normalize_paths_fix normalize_path_fix)
  have v: "validate p = Inr ()" using assms(1) by (simp add: canonical_policy_def)
  show ?thesis
    unfolding post_init_def
    by (simp add: n canonical_domains [OF assms(1)] v Let_def)
qed

section \<open>The wire form determines the policy\<close>

definition paths_wf :: "sandbox_policy \<Rightarrow> bool" where
  "paths_wf p \<longleftrightarrow> path_wf (workspace_root p)
     \<and> (\<forall>x\<in>set (read_roots p @ write_roots p @ deny_read_roots p @ deny_write_roots p @ protected_paths p). path_wf x)"

lemma path_wf_absolute: "path_wf p \<Longrightarrow> is_absolute p"
  by (simp add: path_wf_def is_absolute_def)

lemma map_parse_str: "(\<And>x. x \<in> set ps \<Longrightarrow> path_wf x) \<Longrightarrow> map (parse_path \<circ> str_path) ps = ps"
  by (rule map_idI) (simp add: parse_str_path)

lemma list_items_strs [simp]: "list_items (PList (map PStr ss)) = ss"
  by (simp add: list_items_def)

lemma list_items_paths [simp]: "list_items (PList (map (PStr \<circ> str_path) ps)) = map str_path ps"
  using list_items_strs [of "map str_path ps"] by (simp add: comp_def)

lemma check_string_list_strs [simp]: "check_string_list n (PList (map PStr ss)) = Inr ()"
  by (simp add: check_string_list_def list_all_iff)

lemma check_string_list_paths [simp]: "check_string_list n (PList (map (PStr \<circ> str_path) ps)) = Inr ()"
  using check_string_list_strs [of n "map str_path ps"] by (simp add: comp_def)

lemma paths_arg_paths: "(\<And>x. x \<in> set ps \<Longrightarrow> path_wf x) \<Longrightarrow> paths_arg (PList (map (PStr \<circ> str_path) ps)) = path_tuple ps"
  unfolding paths_arg_def list_items_paths map_map by (simp add: map_parse_str)

lemma to_fields_names: "map fst (to_fields p) = policy_field_names"
  by (simp add: to_fields_def policy_field_names_def)

lemma dict_get_PStr: "dict_get (map (\<lambda>(k, v). (PStr k, v)) d) (PStr n) = dict_get d n"
  by (induction d) auto

lemma to_dict_field:
  assumes "dict_get (to_fields p) n = Some v"
  shows "dict_get_or PNone (map (\<lambda>(k, v). (PStr k, v)) (to_fields p)) (PStr n) = v"
  using assms by (simp add: dict_get_or_def dict_get_PStr)

lemma mode_of_mode_value [simp]: "mode_of_value (mode_value m) = Some m"
  by (cases m) (simp_all add: mode_of_value_def mode_value_def)

lemma wire_field:
  "dict_get (to_fields p) ''schema_version'' = Some (PInt (schema_version p))"
  "dict_get (to_fields p) ''run_id'' = Some (PStr (run_id p))"
  "dict_get (to_fields p) ''ticket_id'' = Some (PStr (ticket_id p))"
  "dict_get (to_fields p) ''step'' = Some (PStr (step p))"
  "dict_get (to_fields p) ''workspace_root'' = Some (PStr (str_path (workspace_root p)))"
  "dict_get (to_fields p) ''read_roots'' = Some (PList (map (PStr \<circ> str_path) (read_roots p)))"
  "dict_get (to_fields p) ''write_roots'' = Some (PList (map (PStr \<circ> str_path) (write_roots p)))"
  "dict_get (to_fields p) ''deny_read_roots'' = Some (PList (map (PStr \<circ> str_path) (deny_read_roots p)))"
  "dict_get (to_fields p) ''deny_write_roots'' = Some (PList (map (PStr \<circ> str_path) (deny_write_roots p)))"
  "dict_get (to_fields p) ''network_mode'' = Some (PStr (mode_value (network_mode p)))"
  "dict_get (to_fields p) ''allowed_domains'' = Some (PList (map PStr (allowed_domains p)))"
  "dict_get (to_fields p) ''process_limit'' = Some (PInt (process_limit p))"
  "dict_get (to_fields p) ''wall_timeout_seconds'' = Some (PInt (wall_timeout_seconds p))"
  "dict_get (to_fields p) ''output_limit_bytes'' = Some (PInt (output_limit_bytes p))"
  "dict_get (to_fields p) ''protected_paths'' = Some (PList (map (PStr \<circ> str_path) (protected_paths p)))"
  by (simp_all add: to_fields_def)

lemma check_wire_to_dict:
  assumes "schema_version p = 1" "paths_wf p"
  shows "check_wire (\<lambda>n. dict_get_or PNone (map (\<lambda>(k, v). (PStr k, v)) (to_fields p)) (PStr n)) = Inr ()"
proof -
  have abs: "is_absolute (parse_path (str_path x))" if "path_wf x" for x
    using that by (simp add: parse_str_path path_wf_absolute)
  have wf: "path_wf x" if "x \<in> set (read_roots p) \<or> x \<in> set (write_roots p) \<or> x \<in> set (deny_read_roots p)
      \<or> x \<in> set (deny_write_roots p) \<or> x \<in> set (protected_paths p) \<or> x = workspace_root p" for x
    using assms(2) that by (auto simp: paths_wf_def)
  show ?thesis
    unfolding check_wire_def path_list_names_def list.map first_err_Inr_iff
      wire_field [THEN to_dict_field]
    using assms(1) by (auto simp: POLICY_SCHEMA_VERSION_def text_of_def raise_when_def abs wf)
qed

lemma from_dict_to_dict:
  assumes "canonical_policy p" "resolved_policy resolve p" "paths_wf p"
  shows "from_dict resolve (to_dict p) = Inr p"
proof -
  let ?kvs = "map (\<lambda>(k, v). (PStr k, v)) (to_fields p)"
  have keys: "dict_keys ?kvs = map PStr policy_field_names"
    unfolding to_fields_names [of p, symmetric] by (simp add: case_prod_beta comp_def)
  have sv: "schema_version p = 1" using assms(1) by (simp add: canonical_policy_def validate_iff)
  have args: "\<lparr>arg_schema_version = PInt (schema_version p), arg_run_id = PStr (run_id p), arg_ticket_id = PStr (ticket_id p),
      arg_step = PStr (step p), arg_workspace_root = PPath (parse_path (str_path (workspace_root p))),
      arg_read_roots = paths_arg (PList (map (PStr \<circ> str_path) (read_roots p))),
      arg_write_roots = paths_arg (PList (map (PStr \<circ> str_path) (write_roots p))),
      arg_deny_read_roots = paths_arg (PList (map (PStr \<circ> str_path) (deny_read_roots p))),
      arg_deny_write_roots = paths_arg (PList (map (PStr \<circ> str_path) (deny_write_roots p))),
      arg_network_mode = PEnum ''NetworkMode'' (mode_value (network_mode p)),
      arg_allowed_domains = PTuple (map PStr (allowed_domains p)),
      arg_process_limit = PInt (process_limit p), arg_wall_timeout_seconds = PInt (wall_timeout_seconds p),
      arg_output_limit_bytes = PInt (output_limit_bytes p),
      arg_protected_paths = paths_arg (PList (map (PStr \<circ> str_path) (protected_paths p)))\<rparr> = args_of p"
    using assms(3) by (simp add: args_of_def paths_wf_def parse_str_path paths_arg_paths)
  have "filter (\<lambda>n. PStr n \<notin> set (dict_keys ?kvs)) policy_field_names = []"
    "filter (\<lambda>k. k \<notin> PStr ` set policy_field_names) (dict_keys ?kvs) = []"
    unfolding keys by (auto simp: filter_empty_conv)
  then have "from_dict resolve (to_dict p) = post_init resolve (args_of p)"
    unfolding from_dict_def to_dict_def pyval.case Let_def check_wire_to_dict [OF sv assms(3)]
      wire_field [THEN to_dict_field] bindr_simps args [symmetric]
    by (simp add: text_of_def)
  with post_init_args_of [OF assms(1,2)] show ?thesis by simp
qed

definition json_wire :: "sandbox_policy \<Rightarrow> (string \<times> json) list" where
  "json_wire p =
     [(''schema_version'', JInt (schema_version p)), (''run_id'', JStr (run_id p)), (''ticket_id'', JStr (ticket_id p)),
      (''step'', JStr (step p)), (''workspace_root'', JStr (str_path (workspace_root p))),
      (''read_roots'', JList (map (JStr \<circ> str_path) (read_roots p))),
      (''write_roots'', JList (map (JStr \<circ> str_path) (write_roots p))),
      (''deny_read_roots'', JList (map (JStr \<circ> str_path) (deny_read_roots p))),
      (''deny_write_roots'', JList (map (JStr \<circ> str_path) (deny_write_roots p))),
      (''network_mode'', JStr (mode_value (network_mode p))),
      (''allowed_domains'', JList (map JStr (allowed_domains p))),
      (''process_limit'', JInt (process_limit p)), (''wall_timeout_seconds'', JInt (wall_timeout_seconds p)),
      (''output_limit_bytes'', JInt (output_limit_bytes p)),
      (''protected_paths'', JList (map (JStr \<circ> str_path) (protected_paths p)))]"

lemma json_items_strs [simp]: "json_items frepr (map PStr ss) = Some (map JStr ss)"
  by (induction ss) auto

lemma json_items_paths [simp]: "json_items frepr (map (PStr \<circ> str_path) ps) = Some (map (JStr \<circ> str_path) ps)"
  using json_items_strs [of frepr "map str_path ps"] by (simp add: comp_def)

lemma json_of_to_dict: "json_of frepr (to_dict p) = Some (JObj (json_wire p))"
  by (simp add: to_dict_def to_fields_def json_wire_def)

lemma sort_keys_strs [simp]: "map (sort_keys \<circ> (JStr \<circ> f)) xs = map (JStr \<circ> f) xs" "map (sort_keys \<circ> JStr) ss = map JStr ss"
  by simp_all

lemma sort_keys_wire: "map (\<lambda>(k, v). (k, sort_keys v)) (json_wire p) = json_wire p"
  by (simp add: json_wire_def)

lemma canonical_json_eq: "canonical_json p = render False [] (JObj (sort_key fst (json_wire p)))"
  unfolding canonical_json_def dumps_def json_of_to_dict by (simp add: sort_keys_wire)

lemma float_free_wire: "float_free (JObj (sort_key fst (json_wire p)))"
proof -
  have "list_all (\<lambda>(k, v). float_free v) (json_wire p)" by (simp add: json_wire_def list_all_iff)
  then show ?thesis by (simp add: list_all_iff)
qed

lemma distinct_wire: "distinct (map fst (json_wire p))"
  by (simp add: json_wire_def)

lemma map_JStr_eq: "map (JStr \<circ> str_path) ps = map (JStr \<circ> str_path) qs \<Longrightarrow>
    (\<And>x. x \<in> set ps \<union> set qs \<Longrightarrow> path_wf x) \<Longrightarrow> ps = qs"
  by (rule map_inj_on [of "JStr \<circ> str_path"]) (auto simp: inj_on_def str_path_inj)

lemma mode_value_inj [simp]: "mode_value m = mode_value n \<longleftrightarrow> m = n"
  by (cases m; cases n) (simp_all add: mode_value_def)

lemma inj_JStr_map [simp]: "map JStr xs = map JStr ys \<longleftrightarrow> xs = ys"
  by (rule inj_map_eq_map) (auto intro: injI)

lemma canonical_json_inj:
  assumes "canonical_json p = canonical_json q" "paths_wf p" "paths_wf q"
  shows "p = q"
proof -
  have "sort_key fst (json_wire p) = sort_key fst (json_wire q)"
    using render_inj [OF float_free_wire float_free_wire] assms(1) unfolding canonical_json_eq by blast
  then have "set (json_wire p) = set (json_wire q)" by (metis set_sort)
  then have m: "map_of (json_wire p) = map_of (json_wire q)"
    by (rule map_of_inject_set [OF distinct_wire distinct_wire, THEN iffD2])
  have f: "map_of (json_wire p) k = map_of (json_wire q) k" for k using m by simp
  have "workspace_root p = workspace_root q"
    using f [of "''workspace_root''"] assms(2,3) by (simp add: json_wire_def paths_wf_def str_path_inj)
  moreover have "read_roots p = read_roots q" "write_roots p = write_roots q" "deny_read_roots p = deny_read_roots q"
    "deny_write_roots p = deny_write_roots q" "protected_paths p = protected_paths q"
    using f [of "''read_roots''"] f [of "''write_roots''"] f [of "''deny_read_roots''"] f [of "''deny_write_roots''"]
      f [of "''protected_paths''"] assms(2,3)
    by (auto simp: json_wire_def paths_wf_def intro!: map_JStr_eq)
  moreover have "schema_version p = schema_version q" "run_id p = run_id q" "ticket_id p = ticket_id q" "step p = step q"
    "network_mode p = network_mode q" "allowed_domains p = allowed_domains q" "process_limit p = process_limit q"
    "wall_timeout_seconds p = wall_timeout_seconds q" "output_limit_bytes p = output_limit_bytes q"
    using f [of "''schema_version''"] f [of "''run_id''"] f [of "''ticket_id''"] f [of "''step''"]
      f [of "''network_mode''"] f [of "''allowed_domains''"] f [of "''process_limit''"]
      f [of "''wall_timeout_seconds''"] f [of "''output_limit_bytes''"]
    by (simp_all add: json_wire_def)
  ultimately show ?thesis by (simp add: sandbox_policy.equality)
qed

section \<open>What policies guarantee\<close>

lemma validated_write:
  assumes "validate p = Inr ()" "may_write p x"
  shows "path_within x (workspace_root p) \<and> (\<forall>q\<in>set (protected_paths p). \<not> path_within x q)"
proof -
  have w: "\<forall>w\<in>set (write_roots p). path_within w (workspace_root p)"
    and q: "\<forall>q\<in>set (protected_paths p). \<exists>d\<in>set (deny_write_roots p). path_within q d"
    using assms(1) by (simp_all add: validate_iff)
  show ?thesis
    using assms(2) w q unfolding may_write_def list_ex_iff by (meson path_within_trans)
qed

text \<open>C8. However often a policy is tightened, the result allows nothing the first policy does not:
  no file to read or write, no host to connect to, no more processes, seconds or bytes, and it keeps
  the run, ticket, step and workspace.\<close>

theorem tightening_never_broadens:
  assumes "validate base = Inr ()" and "tighten_all tighten_policy base cs = Inr p"
  shows "(permits p q \<longrightarrow> permits base q)
    \<and> run_id p = run_id base \<and> ticket_id p = ticket_id base \<and> step p = step base \<and> workspace_root p = workspace_root base"
  using policy.tighten_all_allows [OF assms] policy.tighten_all_narrows [OF assms]
  by (auto simp: tighten_iff narrower_def)

text \<open>A constructed policy, and whatever it is tightened to, never lets a write leave the
  workspace or touch a path below one of its protected paths.\<close>

theorem protected_paths_stay_protected:
  assumes "post_init resolve a = Inr base" and "tighten_all tighten_policy base cs = Inr p" and "may_write p x"
  shows "path_within x (workspace_root base) \<and> (\<forall>q\<in>set (protected_paths base). \<not> path_within x q)"
proof -
  have v: "validate base = Inr ()" using post_init_valid [OF assms(1)] .
  have "permits p (Write_file x)" using assms(3) by (simp add: permits_def)
  from policy.tighten_all_allows [OF v assms(2) this] have "may_write base x" by (simp add: permits_def)
  with v show ?thesis by (rule validated_write)
qed

text \<open>C31. Writing a constructed policy to its wire form and reading it back gives the same policy, as
  long as the file system still resolves its paths to themselves.\<close>

theorem policy_wire_roundtrip:
  assumes "post_init resolve a = Inr p" and "resolved_policy resolve p" and "paths_wf p"
  shows "from_dict resolve (to_dict p) = Inr p"
  by (rule from_dict_to_dict [OF post_init_canonical [OF assms(1)] assms(2,3)])

text \<open>The policy hash identifies the policy: two policies with the same hash are equal, unless the
  hash function itself collides on their canonical texts.\<close>

theorem policy_hash_identifies:
  assumes "policy_hash sha256 p = policy_hash sha256 q" and "paths_wf p" and "paths_wf q"
    and "inj_on sha256 {canonical_json p, canonical_json q}"
  shows "p = q"
proof -
  have "canonical_json p = canonical_json q"
    using assms(1,4) by (simp add: policy_hash_def inj_on_eq_iff)
  then show ?thesis using assms(2,3) by (rule canonical_json_inj)
qed

lemma post_init_fields:
  assumes "post_init resolve a = Inr p" and "typed_policy a = Some t"
  shows "network_mode p = network_mode t \<and> (write_roots t = [] \<longrightarrow> write_roots p = [])
    \<and> (\<forall>x y. x \<in> set (deny_read_roots t) \<longrightarrow> resolve x = Some y \<longrightarrow> y \<in> set (deny_read_roots p))"
proof -
  have mem: "y \<in> set ys" if "map_res (\<lambda>p. normalize_path resolve p l) xs = Inr ys" "x \<in> set xs" "resolve x = Some y" for xs ys x y l
    using that by (induction xs arbitrary: ys) (auto simp: normalize_path_def)
  show ?thesis
    using assms by (auto simp: post_init_def Let_def normalize_paths_def dest: mem)
qed

text \<open>The reviewer policy is a strict reduction of the step policy: it can write nothing and
  connect nowhere, reads only inside the workspace, and reads nothing below a root that was denied to
  it.\<close>

theorem reviewer_policy_read_only:
  assumes "derive_read_only_reviewer_policy resolve resolve_strict is_dir (Some base) root_arg denied = Inr p"
  shows "\<not> may_write p x \<and> \<not> may_connect p h \<and> (permits p q \<longrightarrow> permits base q)
    \<and> (may_read p x \<longrightarrow> path_within x (workspace_root base))
    \<and> (PPath d \<in> set denied \<longrightarrow> resolve d = Some e \<longrightarrow> path_within x e \<longrightarrow> \<not> may_read p x)"
proof -
  let ?args = "(args_of base)\<lparr>arg_write_roots := PTuple [],
                arg_deny_read_roots := PTuple (map PPath (deny_read_roots base) @ denied),
                arg_network_mode := PEnum ''NetworkMode'' ''deny'', arg_allowed_domains := PTuple []\<rparr>"
  from assms obtain c workspace where c: "post_init resolve ?args = Inr c" "tighten_policy base c = Inr p"
    "workspace_root base = workspace" "\<not> list_ex (\<lambda>r. \<not> path_within r workspace) (read_roots base)"
    by (auto simp: derive_read_only_reviewer_policy_def Let_def split: if_splits option.splits)
  have pc: "p = c" "narrower base c" "validate c = Inr ()" using c(2) by (simp_all add: tighten_iff)
  from c(1) obtain t where t: "typed_policy ?args = Some t"
    by (auto simp: post_init_def split: option.splits)
  then have "network_mode t = DENY" "write_roots t = []"
    and dr: "map_opt as_path (map PPath (deny_read_roots base) @ denied) = Some (deny_read_roots t)"
    by (auto simp: typed_policy_def tuple_items_def as_mode_def mode_of_value_def split: option.splits)
  with post_init_fields [OF c(1) t] have deny: "network_mode c = DENY" "write_roots c = []"
    and denied: "\<And>x y. x \<in> set (deny_read_roots t) \<Longrightarrow> resolve x = Some y \<Longrightarrow> y \<in> set (deny_read_roots c)"
    by auto
  have reads: "may_read p x \<Longrightarrow> path_within x (workspace_root base)"
  proof -
    assume "may_read p x"
    then have "may_read base x" using narrower_permits [OF pc(2), of "Read_file x"] pc(1) by (simp add: permits_def)
    with c(3,4) show ?thesis unfolding may_read_def list_ex_iff by (meson path_within_trans)
  qed
  have "\<not> may_read p x" if "PPath d \<in> set denied" "resolve d = Some e" "path_within x e"
  proof -
    have "d \<in> set (deny_read_roots t)" using map_opt_mem [OF dr, of d] that(1) by auto
    from denied [OF this that(2)] that(3) pc(1) show ?thesis by (auto simp: may_read_def list_ex_iff)
  qed
  with deny reads pc narrower_permits [OF pc(2), of q] show ?thesis
    by (auto simp: may_write_def may_connect_def)
qed

text \<open>Every domain a constructed policy allows is a lower-case host name of at least two labels,
  and is no textual IP address, not even in the legacy numeric forms.\<close>

theorem allowed_domains_are_hostnames:
  assumes "post_init resolve a = Inr p" and "d \<in> set (allowed_domains p)"
  shows "lower d = d \<and> parse_ip d = None \<and> \<not> is_legacy_ipv4_text d \<and> length d \<le> 253
    \<and> 2 \<le> length (split_on (CHR ''.'') d) \<and> (\<forall>l\<in>set (split_on (CHR ''.'') d). l \<noteq> [] \<and> length l \<le> 63)"
proof -
  have d: "is_exact_dns_hostname_ascii d"
    using post_init_valid [OF assms(1)] assms(2) by (auto simp: validate_iff list_all_iff)
  then have "parse_ip d = None" by (auto simp: is_exact_dns_hostname_ascii_def split: if_splits)
  with d hostname_lower [OF d] show ?thesis
    unfolding hostname_iff_labels by (auto simp: list_all_iff dns_label_iff)
qed

section \<open>Concrete instances\<close>

definition abs_path :: "string list \<Rightarrow> ppath" where
  "abs_path segs = \<lparr>path_root = ''/'', path_parts = segs\<rparr>"

definition demo_policy :: sandbox_policy where
  "demo_policy =
     \<lparr>schema_version = 1, run_id = ''r'', ticket_id = ''t'', step = ''review'', workspace_root = abs_path [''w''],
      read_roots = [abs_path [''w'']], write_roots = [abs_path [''w'']], deny_read_roots = [abs_path [''w'', ''k'']],
      deny_write_roots = [abs_path [''w'', ''g'']], network_mode = PROXY_ALLOWLIST, allowed_domains = [''a.io''],
      process_limit = 4, wall_timeout_seconds = 60, output_limit_bytes = 1000,
      protected_paths = [abs_path [''w'', ''g'', ''x'']]\<rparr>"

definition demo_narrow :: sandbox_policy where
  "demo_narrow = demo_policy\<lparr>write_roots := [abs_path [''w'', ''s'']], network_mode := DENY, allowed_domains := [],
     process_limit := 2\<rparr>"

lemma demo_hostname: "is_exact_dns_hostname_ascii ''a.io''"
proof -
  have "\<not> re_fullmatch DECIMAL_IPV4_PART_PATTERN ''a''" "\<not> re_fullmatch HEX_IPV4_PART_PATTERN ''a''" by code_simp+
  then have "\<not> is_legacy_ipv4_text ''a.io''" by (simp add: is_legacy_ipv4_text_def)
  then show ?thesis
    unfolding hostname_iff_labels
    by (simp add: dns_label_iff label_char_def is_lower_letter_def is_digit_def)
qed

lemma abs_path_within [simp]: "path_within (abs_path a) (abs_path b) \<longleftrightarrow> take (length b) a = b"
  by (simp add: path_within_def abs_path_def)

lemma demo_visible: "visible_text ''r''" "visible_text ''t''" "visible_text ''review''"
  by code_simp+

lemma demo_valid: "validate demo_policy = Inr ()" "validate demo_narrow = Inr ()"
  by (simp_all add: validate_iff demo_narrow_def demo_policy_def demo_visible demo_hostname)

lemma demo_canonical: "canonical_policy demo_policy" "resolved_policy Some demo_policy" "paths_wf demo_policy"
  using demo_valid(1)
  by (simp_all add: canonical_policy_def resolved_policy_def paths_wf_def demo_policy_def abs_path_def path_wf_def)

lemma demo_post_init: "post_init Some (args_of demo_policy) = Inr demo_policy"
  by (rule post_init_args_of [OF demo_canonical(1,2)])

lemma demo_tighten: "tighten_all tighten_policy demo_policy [demo_narrow] = Inr demo_narrow"
proof -
  have "tighten_policy demo_policy demo_narrow = Inr demo_narrow"
    using demo_valid unfolding tighten_iff
    by (simp add: narrower_def demo_narrow_def demo_policy_def roots_are_no_broader_def denies_preserved_def)
  then show ?thesis by simp
qed

theorem tightening_never_broadens_witness:
  "permits demo_narrow (Run_processes 2) \<and> permits demo_policy (Run_processes 2) \<and> run_id demo_narrow = ''r''"
proof -
  have "permits demo_narrow (Run_processes 2)" by (simp add: permits_def demo_narrow_def)
  with tightening_never_broadens [OF demo_valid(1) demo_tighten, of "Run_processes 2"]
  show ?thesis by (simp add: demo_policy_def)
qed

theorem protected_paths_stay_protected_witness:
  "may_write demo_narrow (abs_path [''w'', ''s'', ''f'']) \<and> path_within (abs_path [''w'', ''s'', ''f'']) (abs_path [''w''])
   \<and> \<not> path_within (abs_path [''w'', ''s'', ''f'']) (abs_path [''w'', ''g'', ''x''])"
proof -
  have w: "may_write demo_narrow (abs_path [''w'', ''s'', ''f''])"
    by (simp add: may_write_def demo_narrow_def demo_policy_def)
  with protected_paths_stay_protected [OF demo_post_init demo_tighten w] show ?thesis
    by (simp add: demo_policy_def)
qed

theorem policy_wire_roundtrip_witness: "from_dict Some (to_dict demo_policy) = Inr demo_policy"
  by (rule policy_wire_roundtrip [OF demo_post_init demo_canonical(2,3)])

theorem policy_hash_identifies_witness:
  "policy_hash (\<lambda>x. x) demo_policy \<noteq> policy_hash (\<lambda>x. x) demo_narrow"
proof
  assume "policy_hash (\<lambda>x. x) demo_policy = policy_hash (\<lambda>x. x) demo_narrow"
  moreover have "paths_wf demo_narrow"
    by (simp add: paths_wf_def demo_narrow_def demo_policy_def abs_path_def path_wf_def)
  ultimately have "demo_policy = demo_narrow"
    by (intro policy_hash_identifies [of "\<lambda>x. x"] demo_canonical(3)) simp_all
  then have "process_limit demo_policy = process_limit demo_narrow" by simp
  then show False by (simp add: demo_narrow_def demo_policy_def)
qed

lemma demo_reviewer:
  "derive_read_only_reviewer_policy Some Some (\<lambda>_. True) (Some demo_policy) (PPath (abs_path [''w'']))
     [PPath (abs_path [''w'', ''z''])] =
   Inr (demo_policy\<lparr>write_roots := [], deny_read_roots := [abs_path [''w'', ''k''], abs_path [''w'', ''z'']],
     network_mode := DENY, allowed_domains := []\<rparr>)" (is "_ = Inr ?p")
proof -
  have args: "(args_of demo_policy)\<lparr>arg_write_roots := PTuple [],
      arg_deny_read_roots := PTuple (map PPath (deny_read_roots demo_policy) @ [PPath (abs_path [''w'', ''z''])]),
      arg_network_mode := PEnum ''NetworkMode'' ''deny'', arg_allowed_domains := PTuple []\<rparr> = args_of ?p"
    by (simp add: args_of_def path_tuple_def mode_value_def demo_policy_def)
  have v: "validate ?p = Inr ()"
    by (simp add: validate_iff demo_policy_def demo_visible)
  have "sorted (map str_path [abs_path [''w'', ''k''], abs_path [''w'', ''z'']])" by code_simp
  then have "canonical_policy ?p" using v
    by (simp add: canonical_policy_def demo_policy_def) (simp add: abs_path_def)
  moreover have "resolved_policy Some ?p" by (simp add: resolved_policy_def demo_policy_def)
  ultimately have pi: "post_init Some (args_of ?p) = Inr ?p" by (rule post_init_args_of)
  have "tighten_policy demo_policy ?p = Inr ?p"
    using v demo_valid(1) unfolding tighten_iff
    by (simp add: narrower_def demo_policy_def roots_are_no_broader_def denies_preserved_def)
  with pi show ?thesis
    unfolding derive_read_only_reviewer_policy_def option.case pyval.case Let_def args
    by (simp add: demo_policy_def)
qed

theorem reviewer_policy_read_only_witness:
  "\<not> may_write (demo_policy\<lparr>write_roots := [], deny_read_roots := [abs_path [''w'', ''k''], abs_path [''w'', ''z'']],
     network_mode := DENY, allowed_domains := []\<rparr>) (abs_path [''w'', ''f''])
   \<and> \<not> may_read (demo_policy\<lparr>write_roots := [], deny_read_roots := [abs_path [''w'', ''k''], abs_path [''w'', ''z'']],
     network_mode := DENY, allowed_domains := []\<rparr>) (abs_path [''w'', ''z'', ''f''])"
  using reviewer_policy_read_only [OF demo_reviewer, of "abs_path [''w'', ''f'']" "''a.io''" "Run_seconds 1"]
    reviewer_policy_read_only [OF demo_reviewer, of "abs_path [''w'', ''z'', ''f'']" "''a.io''" "Run_seconds 1"
      "abs_path [''w'', ''z'']" "abs_path [''w'', ''z'']"]
  by simp

theorem allowed_domains_are_hostnames_witness: "lower ''a.io'' = ''a.io'' \<and> parse_ip ''a.io'' = None"
  using allowed_domains_are_hostnames [OF demo_post_init, of "''a.io''"] by (simp add: demo_policy_def)

end
