(* ===== verification/Guard.thy ===== *)
theory Guard
  imports Py_Regex
begin

text \<open>
  \<^verbatim>\<open>src/icode/guard.py\<close>: the application-level permission model. A scope is built from paths that
  are resolved once; the checks resolve their target and compare it lexically with the roots.
  \<^verbatim>\<open>Path.resolve\<close> is the argument \<open>resolve\<close> (\<open>None\<close> where it raises \<^verbatim>\<open>OSError\<close>). The texts of the reasons
  are constructors.
\<close>

section \<open>Verdicts\<close>

datatype decision = ALLOW | REQUIRE_APPROVAL | DENIED

datatype reason =
    Protected_read
  | Exact_file_allowed
  | File_not_allowed
  | Policy_allows_read
  | Policy_denies_read
  | Workspace_read
  | Readonly_root ppath
  | Outside_read
  | Protected_write
  | Policy_allows_write
  | Policy_denies_write
  | Workspace_write
  | Outside_write
  | Not_strings
  | No_program
  | Illegal_character
  | Empty_command
  | Shell_shape string
  | Dangerous nat
  | Destructive_find
  | Forced_clean
  | Inline_python
  | Recursive_force
  | Allowlisted string
  | Not_allowlisted string

record verdict =
  decision_of :: decision
  reason_of :: reason

definition verdict_allowed :: "verdict \<Rightarrow> bool" where
  "verdict_allowed v \<longleftrightarrow> decision_of v = ALLOW"

abbreviation verdict :: "decision \<Rightarrow> reason \<Rightarrow> verdict" where
  "verdict d r \<equiv> \<lparr>decision_of = d, reason_of = r\<rparr>"

section \<open>Scopes\<close>

definition DEFAULT_COMMAND_ALLOWLIST :: "string list" where
  "DEFAULT_COMMAND_ALLOWLIST =
     [''python'', ''python3'', ''py'', ''git'', ''ls'', ''dir'', ''cat'', ''type'', ''echo'', ''pwd'', ''cd'',
      ''grep'', ''rg'', ''find'', ''which'', ''where'', ''make'', ''gcc'', ''cc'', ''clang'',
      ''diff'', ''head'', ''tail'', ''wc'', ''sort'', ''uniq'']"

record scope =
  scope_root :: ppath
  readable_roots :: "ppath list"
  allowed_read_roots :: "ppath list option"
  allowed_read_files :: "ppath list option"
  allowed_write_roots :: "ppath list option"
  scope_deny_read :: "ppath list"
  scope_deny_write :: "ppath list"
  command_allowlist :: "string list"

definition resolve_all :: "(ppath \<Rightarrow> ppath option) \<Rightarrow> ppath list \<Rightarrow> ppath list res" where
  "resolve_all resolve ps = (case map_opt resolve ps of None \<Rightarrow> Inl PyOSError | Some qs \<Rightarrow> Inr qs)"

definition resolve_some :: "(ppath \<Rightarrow> ppath option) \<Rightarrow> ppath list option \<Rightarrow> ppath list option res" where
  "resolve_some resolve v = (case v of None \<Rightarrow> Inr None | Some ps \<Rightarrow> bindr (resolve_all resolve ps) (\<lambda>qs. Inr (Some qs)))"

text \<open>\<^verbatim>\<open>Scope.__post_init__\<close>, which \<^verbatim>\<open>replace\<close> runs again.\<close>

definition scope_post_init :: "(ppath \<Rightarrow> ppath option) \<Rightarrow> scope \<Rightarrow> scope res" where
  "scope_post_init resolve s =
     (case resolve (scope_root s) of None \<Rightarrow> Inl PyOSError | Some root_path \<Rightarrow>
      bindr (resolve_all resolve (readable_roots s)) (\<lambda>rr.
      bindr (resolve_some resolve (allowed_read_roots s)) (\<lambda>arr.
      bindr (resolve_some resolve (allowed_read_files s)) (\<lambda>arf.
      bindr (resolve_some resolve (allowed_write_roots s)) (\<lambda>awr.
      bindr (resolve_all resolve (scope_deny_read s)) (\<lambda>dr.
      bindr (resolve_all resolve (scope_deny_write s)) (\<lambda>dw.
        Inr (s\<lparr>scope_root := root_path, readable_roots := rr, allowed_read_roots := arr, allowed_read_files := arf,
               allowed_write_roots := awr, scope_deny_read := dr, scope_deny_write := dw\<rparr>))))))))"

section \<open>Files\<close>

definition guard_normalize :: "(ppath \<Rightarrow> ppath option) \<Rightarrow> ppath \<Rightarrow> ppath" where
  "guard_normalize resolve p = (case resolve p of None \<Rightarrow> p | Some q \<Rightarrow> q)"

definition guard_resolve :: "(ppath \<Rightarrow> ppath option) \<Rightarrow> scope \<Rightarrow> ppath \<Rightarrow> ppath" where
  "guard_resolve resolve s p =
     guard_normalize resolve (if is_absolute p then p else path_join (scope_root s) (path_parts p))"

definition within_any :: "ppath \<Rightarrow> ppath list \<Rightarrow> bool" where
  "within_any target roots = list_ex (path_within target) roots"

definition check_read :: "(ppath \<Rightarrow> ppath option) \<Rightarrow> scope \<Rightarrow> ppath \<Rightarrow> verdict" where
  "check_read resolve s p =
     (let target = guard_resolve resolve s p in
      if within_any target (scope_deny_read s) then verdict DENIED Protected_read
      else case allowed_read_files s of
        Some files \<Rightarrow>
          if target \<in> set files then verdict ALLOW Exact_file_allowed else verdict DENIED File_not_allowed
      | None \<Rightarrow>
      (case allowed_read_roots s of
        Some roots \<Rightarrow>
          if within_any target roots then verdict ALLOW Policy_allows_read else verdict DENIED Policy_denies_read
      | None \<Rightarrow>
          if path_within target (scope_root s) then verdict ALLOW Workspace_read
          else (case find (path_within target) (readable_roots s) of
              Some r \<Rightarrow> verdict ALLOW (Readonly_root r)
            | None \<Rightarrow> verdict REQUIRE_APPROVAL Outside_read)))"

definition check_write :: "(ppath \<Rightarrow> ppath option) \<Rightarrow> scope \<Rightarrow> ppath \<Rightarrow> verdict" where
  "check_write resolve s p =
     (let target = guard_resolve resolve s p in
      if within_any target (scope_deny_write s) then verdict DENIED Protected_write
      else case allowed_write_roots s of
        Some roots \<Rightarrow>
          if within_any target roots then verdict ALLOW Policy_allows_write else verdict DENIED Policy_denies_write
      | None \<Rightarrow>
          if path_within target (scope_root s) then verdict ALLOW Workspace_write
          else verdict DENIED Outside_write)"

section \<open>Commands\<close>

definition SHELL_METACHARS :: "string list" where
  "SHELL_METACHARS =
     [''&&'', ''||'', ''|'', '';'', ''>'', ''<'', ''$('', [CHR 96], [CHR 10], ''&'']"

text \<open>Classes of the patterns under \<^verbatim>\<open>re.IGNORECASE\<close>: \<^verbatim>\<open>[a-z]\<close> also matches capitals, \<^verbatim>\<open>.\<close> everything but a
  newline.\<close>

definition rspace :: regex where "rspace = RCls is_space"
definition rdot :: regex where "rdot = RCls (\<lambda>c. c \<noteq> CHR 10)"
definition raz :: regex where "raz = RCls is_letter"

definition rword :: "string \<Rightarrow> regex" where
  "rword w = rseqs [RWordB, rilit w, RWordB]"

definition DANGEROUS_PATTERNS :: "regex list" where
  "DANGEROUS_PATTERNS =
     [RAlt (rseqs [RWordB, rilit ''rm'', rplus rspace, rlit ''-'', RStar raz, rilit ''r'', RStar raz, rilit ''f''])
           (rseqs [RWordB, rilit ''rm'', rplus rspace, rlit ''-'', RStar raz, rilit ''f'', RStar raz, rilit ''r'']),
      rseqs [RWordB, rilit ''rm'', rplus rspace, rilit ''-rf'', RWordB],
      ralts [rword ''mkfs'', rword ''format'', rword ''fdisk''],
      rseqs [RWordB, rilit ''dd'', rplus rspace, rilit ''if=''],
      rseqs [rlit '':()'', RStar rspace, rlit ''{'', RStar rdot, rlit ''}'', RStar rspace, rlit '';''],
      ralts [rword ''shutdown'', rword ''reboot'', rword ''halt''],
      RAlt (rseqs [RWordB, rilit ''git'', rplus rspace, rilit ''push'', RWordB, RStar rdot, rilit ''--force''])
           (rseqs [RWordB, rilit ''git'', rplus rspace, rilit ''push'', RWordB, RStar rdot, rilit ''-f'', RWordB]),
      rseqs [RWordB, rilit ''git'', rplus rspace, rilit ''reset'', rplus rspace, rilit ''--hard'', RWordB],
      rseqs [RWordB, rilit ''chmod'', rplus rspace, rilit ''-R'', rplus rspace, rilit ''777'', RWordB],
      rseqs [RWordB, RAlt (rilit ''curl'') (rilit ''wget''), RWordB, RStar (RCls (\<lambda>c. c \<noteq> CHR ''|'')), rlit ''|'',
             RStar rspace, ralts [rilit ''sh'', rilit ''bash'', rilit ''zsh''], RWordB],
      RAlt (rseqs [RWordB, rilit ''reg'', rplus rspace, rilit ''delete'', RWordB]) (rword ''regedit''),
      rseqs [RWordB, rilit ''Remove-Item'', RWordB, RStar rdot, rilit ''-Recurse''],
      rseqs [RWordB, rilit ''del'', rplus rspace, rlit ''/'', RCls (\<lambda>c. lower_char c = CHR ''s'' \<or> lower_char c = CHR ''q''), RWordB]]"

definition DESTRUCTIVE_FIND_ARGUMENTS :: "string list" where
  "DESTRUCTIVE_FIND_ARGUMENTS = [''-delete'', ''-exec'', ''-execdir'', ''-ok'', ''-okdir'']"

definition SHORT_RECURSIVE :: regex where
  "SHORT_RECURSIVE = rseqs [rlit ''-'', RStar (RCls is_lower_letter), rlit ''r'', RStar (RCls is_lower_letter)]"

definition SHORT_FORCE :: regex where
  "SHORT_FORCE = rseqs [rlit ''-'', RStar (RCls is_lower_letter), rlit ''f'', RStar (RCls is_lower_letter)]"

definition argument_verdict :: "string \<Rightarrow> string list \<Rightarrow> verdict option" where
  "argument_verdict head parts =
     (let lowered = map lower parts in
      if head = ''find'' then
        if list_ex (\<lambda>token. token \<in> set DESTRUCTIVE_FIND_ARGUMENTS) (drop 1 lowered)
        then Some (verdict DENIED Destructive_find) else None
      else if head = ''git'' then
        if 1 < length lowered \<and> lowered ! 1 = ''clean'' then
          let flags = filter (starts_with ''-'') (drop 2 lowered);
              forced = list_ex (\<lambda>token. token = ''--force'' \<or> token = ''-f''
                \<or> \<not> starts_with ''--'' token \<and> contains ''f'' (drop 1 token)) flags
          in if forced then Some (verdict REQUIRE_APPROVAL Forced_clean) else None
        else None
      else if head = ''python'' \<or> head = ''python3'' \<or> head = ''py'' then
        if list_ex (\<lambda>token. token = ''-c'' \<or> \<not> starts_with ''--'' token \<and> starts_with ''-c'' token) (drop 1 lowered)
        then Some (verdict REQUIRE_APPROVAL Inline_python) else None
      else if head = ''rm'' then
        let long_recursive = (''--recursive'' \<in> set (drop 1 lowered));
            long_force = (''--force'' \<in> set (drop 1 lowered));
            short = filter (\<lambda>token. starts_with ''-'' token \<and> \<not> starts_with ''--'' token) (drop 1 lowered);
            short_recursive = list_ex (re_fullmatch SHORT_RECURSIVE) short;
            short_force = list_ex (re_fullmatch SHORT_FORCE) short
        in if (long_recursive \<or> short_recursive) \<and> (long_force \<or> short_force)
           then Some (verdict DENIED Recursive_force) else None
      else None)"

definition shell_shape_problem :: "string list \<Rightarrow> string option" where
  "shell_shape_problem parts = find (\<lambda>part. list_ex (\<lambda>meta. contains meta part) SHELL_METACHARS) parts"

text \<open>\<^verbatim>\<open>Path(head).name\<close>, and the executable suffix.\<close>

definition path_name :: "string \<Rightarrow> string" where
  "path_name s = (let ps = path_parts (parse_path s) in if ps = [] then [] else last ps)"

definition drop_exe :: "string \<Rightarrow> string" where
  "drop_exe h = (if ends_with ''.exe'' (lower h) then take (length h - 4) h else h)"

definition command_words :: "pyval \<Rightarrow> string list option" where
  "command_words argv = (case argv of
       PStr t \<Rightarrow> Some [t]
     | PList xs \<Rightarrow> if xs = [] then None else map_opt as_str xs
     | PTuple xs \<Rightarrow> if xs = [] then None else map_opt as_str xs
     | _ \<Rightarrow> None)"

text \<open>The checks on the words; \<open>whole\<close> tells that the command came as one string.\<close>

definition check_words :: "scope \<Rightarrow> bool \<Rightarrow> string list \<Rightarrow> verdict" where
  "check_words s whole parts =
     (if \<not> whole \<and> strip (hd parts) = [] then verdict DENIED No_program
      else if list_ex (contains [CHR 0x00]) parts then verdict DENIED Illegal_character
      else let text = join '' '' parts; stripped = strip text in
      if stripped = [] then verdict DENIED Empty_command
      else case shell_shape_problem parts of Some part \<Rightarrow> verdict DENIED (Shell_shape part) | None \<Rightarrow>
      (case find (\<lambda>i. re_search (DANGEROUS_PATTERNS ! i) stripped) [0..<length DANGEROUS_PATTERNS] of
        Some i \<Rightarrow> verdict DENIED (Dangerous i)
      | None \<Rightarrow>
         let head = drop_exe (path_name (strip (if whole then hd (split_ws text) else hd parts)));
             words = (if whole then split_ws stripped else parts)
         in (case argument_verdict head words of
               Some v \<Rightarrow> v
             | None \<Rightarrow>
                 if head \<in> set (command_allowlist s) then verdict ALLOW (Allowlisted head)
                 else verdict REQUIRE_APPROVAL (Not_allowlisted head))))"

definition check_command :: "scope \<Rightarrow> pyval \<Rightarrow> verdict" where
  "check_command s argv =
     (case command_words argv of
        None \<Rightarrow> verdict DENIED Not_strings
      | Some parts \<Rightarrow> check_words s (as_str argv \<noteq> None) parts)"

definition guard_summary :: "scope \<Rightarrow> (string \<times> pyval) list" where
  "guard_summary s =
     [(''workspace_root'', PStr (str_path (scope_root s))),
      (''readable_roots'', PList (map (PStr \<circ> str_path) (readable_roots s))),
      (''allowlist'', PList (map PStr (command_allowlist s))),
      (''is_sandbox'', PBool False)]"

section \<open>Strictness\<close>

text \<open>Decisions ordered by strictness, so that verdicts under two scopes can be compared.\<close>

instantiation decision :: linorder
begin

definition rank_decision :: "decision \<Rightarrow> nat" where
  "rank_decision d = (case d of ALLOW \<Rightarrow> 0 | REQUIRE_APPROVAL \<Rightarrow> 1 | DENIED \<Rightarrow> 2)"

definition less_eq_decision :: "decision \<Rightarrow> decision \<Rightarrow> bool" where
  "less_eq_decision a b \<longleftrightarrow> rank_decision a \<le> rank_decision b"

definition less_decision :: "decision \<Rightarrow> decision \<Rightarrow> bool" where
  "less_decision a b \<longleftrightarrow> rank_decision a < rank_decision b"

instance
  by standard (auto simp: less_eq_decision_def less_decision_def rank_decision_def split: decision.splits)

end

lemma ALLOW_least [simp]: "ALLOW \<le> d"
  by (simp add: less_eq_decision_def rank_decision_def)

lemma DENIED_greatest [simp]: "d \<le> DENIED"
  by (cases d) (simp_all add: less_eq_decision_def rank_decision_def)

lemma le_ALLOW [simp]: "d \<le> ALLOW \<longleftrightarrow> d = ALLOW"
  by (metis ALLOW_least order_antisym order_refl)

section \<open>What the checks allow\<close>

lemma find_within: "find (path_within t) rs = None \<longleftrightarrow> \<not> within_any t rs"
  by (auto simp: find_None_iff within_any_def list_ex_iff)

lemma check_read_allowed:
  "verdict_allowed (check_read resolve s p) \<longleftrightarrow>
    (let t = guard_resolve resolve s p in
     \<not> within_any t (scope_deny_read s) \<and>
     (case allowed_read_files s of
        Some files \<Rightarrow> t \<in> set files
      | None \<Rightarrow> (case allowed_read_roots s of
          Some roots \<Rightarrow> within_any t roots
        | None \<Rightarrow> path_within t (scope_root s) \<or> within_any t (readable_roots s))))"
  using find_within [of "guard_resolve resolve s p" "readable_roots s"]
  by (auto simp: check_read_def verdict_allowed_def Let_def split: option.splits)

lemma check_write_allowed:
  "verdict_allowed (check_write resolve s p) \<longleftrightarrow>
    (let t = guard_resolve resolve s p in
     \<not> within_any t (scope_deny_write s) \<and>
     (case allowed_write_roots s of Some roots \<Rightarrow> within_any t roots | None \<Rightarrow> path_within t (scope_root s)))"
  by (auto simp: check_write_def verdict_allowed_def Let_def split: option.splits)

lemma check_write_decides: "decision_of (check_write resolve s p) \<in> {ALLOW, DENIED}"
  by (simp add: check_write_def Let_def split: option.splits)

lemma command_words_simps [simp]:
  "command_words (PStr t) = Some [t]"
  "ps \<noteq> [] \<Longrightarrow> command_words (PList (map PStr ps)) = Some ps"
  by (simp_all add: command_words_def)

lemma argument_verdict_strict: "argument_verdict h w = Some v \<Longrightarrow> decision_of v \<noteq> ALLOW"
  by (auto simp: argument_verdict_def Let_def split: if_splits)

lemma no_danger:
  "find (\<lambda>i. re_search (DANGEROUS_PATTERNS ! i) t) [0..<length DANGEROUS_PATTERNS] = None \<longleftrightarrow>
    (\<forall>r\<in>set DANGEROUS_PATTERNS. \<not> re_search r t)"
  by (auto simp: find_None_iff all_set_conv_all_nth)

definition command_head :: "bool \<Rightarrow> string list \<Rightarrow> string" where
  "command_head whole parts =
     drop_exe (path_name (strip (if whole then hd (split_ws (join '' '' parts)) else hd parts)))"

lemma check_words_allowed:
  "verdict_allowed (check_words s whole parts) \<longleftrightarrow>
     (whole \<or> strip (hd parts) \<noteq> []) \<and> \<not> list_ex (contains [CHR 0x00]) parts \<and> strip (join '' '' parts) \<noteq> []
     \<and> shell_shape_problem parts = None
     \<and> (\<forall>r\<in>set DANGEROUS_PATTERNS. \<not> re_search r (strip (join '' '' parts)))
     \<and> argument_verdict (command_head whole parts)
          (if whole then split_ws (strip (join '' '' parts)) else parts) = None
     \<and> command_head whole parts \<in> set (command_allowlist s)"
  unfolding no_danger [symmetric]
  by (auto simp: check_words_def verdict_allowed_def command_head_def Let_def
      dest!: argument_verdict_strict split: option.splits)

lemma check_command_allowed:
  "verdict_allowed (check_command s argv) \<longleftrightarrow>
    (\<exists>parts. command_words argv = Some parts \<and> verdict_allowed (check_words s (as_str argv \<noteq> None) parts))"
  by (auto simp: check_command_def verdict_allowed_def split: option.splits)

lemma shell_shape_None:
  "shell_shape_problem parts = None \<longleftrightarrow> (\<forall>p\<in>set parts. \<forall>m\<in>set SHELL_METACHARS. \<not> contains m p)"
  by (auto simp: shell_shape_problem_def find_None_iff list_ex_iff)

lemma letters_star_mid:
  assumes "list_all P u" "x \<in> set u"
  shows "re_fullmatch (rseqs [rlit [CHR ''-''], RStar (RCls P), rlit [x], RStar (RCls P)]) (CHR ''-'' # u)"
proof -
  let ?s = "CHR ''-'' # u"
  obtain a b where u: "u = a @ x # b" using assms(2) by (meson split_list)
  have run: "run_of P ?s i j" if "1 \<le> i" "i \<le> j" "j \<le> length ?s" for i j
    using assms(1) that by (auto simp: run_of_def list_all_length nth_Cons')
  have "rmatch ?s (rlit [CHR ''-'']) 0 1" by simp
  moreover have "rmatch ?s (RStar (RCls P)) 1 (Suc (length a))"
    unfolding rmatch_star_cls by (rule run) (auto simp: u)
  moreover have "rmatch ?s (rlit [x]) (Suc (length a)) (Suc (Suc (length a)))"
    by (simp add: u nth_append)
  moreover have "rmatch ?s (RStar (RCls P)) (Suc (Suc (length a))) (length ?s)"
    unfolding rmatch_star_cls by (rule run) (auto simp: u)
  ultimately show ?thesis
    unfolding re_fullmatch_iff rseqs.simps by (blast intro: rmatch.m_seq)
qed

lemma drop_exe_rm: "command_head False (''rm'' # flags) = ''rm''"
  unfolding command_head_def by (simp add: if_False) code_simp

section \<open>What the guard guarantees\<close>

text \<open>What the absence of an objection to the arguments says, program by program.\<close>

definition is_short_flag :: "string \<Rightarrow> bool" where
  "is_short_flag t \<longleftrightarrow> starts_with ''-'' t \<and> \<not> starts_with ''--'' t"

lemma argument_verdict_None:
  assumes "argument_verdict head parts = None"
  shows "head = ''find'' \<Longrightarrow> t \<in> set (map lower (drop 1 parts)) \<Longrightarrow> t \<notin> {''-delete'', ''-exec'', ''-execdir'', ''-ok'', ''-okdir''}"
    and "head \<in> {''python'', ''python3'', ''py''} \<Longrightarrow> t \<in> set (map lower (drop 1 parts)) \<Longrightarrow> \<not> starts_with ''-c'' t"
    and "head = ''git'' \<Longrightarrow> map lower (drop 1 parts) = ''clean'' # flags \<Longrightarrow> t \<in> set flags \<Longrightarrow>
      t \<noteq> ''--force'' \<and> \<not> (is_short_flag t \<and> contains ''f'' (drop 1 t))"
    and "head = ''rm'' \<Longrightarrow>
      \<not> ((''--recursive'' \<in> set (map lower (drop 1 parts)) \<or> list_ex (\<lambda>t. is_short_flag t \<and> re_fullmatch SHORT_RECURSIVE t) (map lower (drop 1 parts)))
        \<and> (''--force'' \<in> set (map lower (drop 1 parts)) \<or> list_ex (\<lambda>t. is_short_flag t \<and> re_fullmatch SHORT_FORCE t) (map lower (drop 1 parts))))"
proof -
  note v = assms [unfolded argument_verdict_def Let_def drop_map]
  show "t \<notin> {''-delete'', ''-exec'', ''-execdir'', ''-ok'', ''-okdir''}" if "head = ''find''" "t \<in> set (map lower (drop 1 parts))"
    using v that by (auto simp: DESTRUCTIVE_FIND_ARGUMENTS_def list_ex_iff split: if_splits)
  show "\<not> starts_with ''-c'' t" if h: "head \<in> {''python'', ''python3'', ''py''}" and t: "t \<in> set (map lower (drop 1 parts))"
  proof
    assume c: "starts_with ''-c'' t"
    then have "\<not> starts_with ''--'' t" by (auto simp: starts_with_def)
    moreover have "\<not> list_ex (\<lambda>token. token = ''-c'' \<or> \<not> starts_with ''--'' token \<and> starts_with ''-c'' token) (map lower (drop 1 parts))"
      using v h by (auto split: if_splits)
    ultimately show False using c t unfolding list_ex_iff by blast
  qed
  show "t \<noteq> ''--force'' \<and> \<not> (is_short_flag t \<and> contains ''f'' (drop 1 t))"
    if h: "head = ''git''" and m: "map lower (drop 1 parts) = ''clean'' # flags" and t: "t \<in> set flags"
  proof -
    obtain w x xs where p: "parts = w # x # xs" "lower x = ''clean''" "flags = map lower xs"
      using m by (cases parts; cases "drop 1 parts") auto
    have "\<not> list_ex (\<lambda>token. token = ''--force'' \<or> token = ''-f'' \<or> \<not> starts_with ''--'' token \<and> contains ''f'' (drop 1 token))
        (filter (starts_with ''-'') flags)"
      using v h p by (auto simp: numeral_2_eq_2 split: if_splits)
    moreover have "starts_with ''-'' ''--force''" by (simp add: starts_with_def)
    ultimately show ?thesis using t by (auto simp: is_short_flag_def list_ex_iff)
  qed
  show "\<not> ((''--recursive'' \<in> set (map lower (drop 1 parts)) \<or> list_ex (\<lambda>t. is_short_flag t \<and> re_fullmatch SHORT_RECURSIVE t) (map lower (drop 1 parts)))
      \<and> (''--force'' \<in> set (map lower (drop 1 parts)) \<or> list_ex (\<lambda>t. is_short_flag t \<and> re_fullmatch SHORT_FORCE t) (map lower (drop 1 parts))))"
    if "head = ''rm''"
    using v that unfolding is_short_flag_def list_ex_iff by (simp split: if_splits)
qed

text \<open>C32. A command the guard allows outright is a list of strings without NUL and shell metacharacters, matches none of the
  dangerous patterns, and its program is on the allow list of the scope. Its arguments, compared in lower case, are not the
  destructive ones the guard knows: no deletion and no execution under \<^verbatim>\<open>find\<close>, no inline code under
  Python, no forced \<^verbatim>\<open>git clean\<close>, no \<^verbatim>\<open>rm\<close> that is both recursive and forced, in long or in
  short form.\<close>

theorem allowed_command_is_plain:
  assumes "decision_of (check_command s argv) = ALLOW"
  shows "\<exists>parts head args. command_words argv = Some parts \<and> head \<in> set (command_allowlist s)
    \<and> head = command_head (as_str argv \<noteq> None) parts
    \<and> args = map lower (drop 1 (if as_str argv \<noteq> None then split_ws (strip (join '' '' parts)) else parts))
    \<and> (\<forall>p\<in>set parts. \<not> contains [CHR 0x00] p \<and> (\<forall>m\<in>set SHELL_METACHARS. \<not> contains m p))
    \<and> (\<forall>r\<in>set DANGEROUS_PATTERNS. \<not> re_search r (strip (join '' '' parts)))
    \<and> (head = ''find'' \<longrightarrow> set args \<inter> {''-delete'', ''-exec'', ''-execdir'', ''-ok'', ''-okdir''} = {})
    \<and> (head \<in> {''python'', ''python3'', ''py''} \<longrightarrow> (\<forall>t\<in>set args. \<not> starts_with ''-c'' t))
    \<and> (\<forall>flags. head = ''git'' \<and> args = ''clean'' # flags \<longrightarrow>
        (\<forall>t\<in>set flags. t \<noteq> ''--force'' \<and> \<not> (is_short_flag t \<and> contains ''f'' (drop 1 t))))
    \<and> (head = ''rm'' \<longrightarrow>
        \<not> ((''--recursive'' \<in> set args \<or> list_ex (\<lambda>t. is_short_flag t \<and> re_fullmatch SHORT_RECURSIVE t) args)
          \<and> (''--force'' \<in> set args \<or> list_ex (\<lambda>t. is_short_flag t \<and> re_fullmatch SHORT_FORCE t) args)))"
proof -
  from assms obtain parts where p: "command_words argv = Some parts" "verdict_allowed (check_words s (as_str argv \<noteq> None) parts)"
    by (auto simp: verdict_allowed_def [symmetric] check_command_allowed)
  note c = p(2) [unfolded check_words_allowed shell_shape_None list_ex_iff]
  let ?words = "if as_str argv \<noteq> None then split_ws (strip (join '' '' parts)) else parts"
  let ?args = "map lower (drop 1 ?words)"
  let ?head = "command_head (as_str argv \<noteq> None) parts"
  have "argument_verdict ?head ?words = None" using c by blast
  note args = argument_verdict_None [OF this]
  show ?thesis
  proof (rule exI [of _ parts], rule exI [of _ ?head], rule exI [of _ ?args], intro conjI refl)
    show "command_words argv = Some parts" "?head \<in> set (command_allowlist s)"
      "\<forall>p\<in>set parts. \<not> contains [CHR 0x00] p \<and> (\<forall>m\<in>set SHELL_METACHARS. \<not> contains m p)"
      "\<forall>r\<in>set DANGEROUS_PATTERNS. \<not> re_search r (strip (join '' '' parts))"
      using p(1) c by blast+
    show "?head = ''find'' \<longrightarrow> set ?args \<inter> {''-delete'', ''-exec'', ''-execdir'', ''-ok'', ''-okdir''} = {}"
      "?head \<in> {''python'', ''python3'', ''py''} \<longrightarrow> (\<forall>t\<in>set ?args. \<not> starts_with ''-c'' t)" using args(1,2) by blast+
    show "\<forall>flags. ?head = ''git'' \<and> ?args = ''clean'' # flags \<longrightarrow>
        (\<forall>t\<in>set flags. t \<noteq> ''--force'' \<and> \<not> (is_short_flag t \<and> contains ''f'' (drop 1 t)))"
      by (intro allI impI ballI, elim conjE) (rule args(3))
    show "?head = ''rm'' \<longrightarrow>
        \<not> ((''--recursive'' \<in> set ?args \<or> list_ex (\<lambda>t. is_short_flag t \<and> re_fullmatch SHORT_RECURSIVE t) ?args)
          \<and> (''--force'' \<in> set ?args \<or> list_ex (\<lambda>t. is_short_flag t \<and> re_fullmatch SHORT_FORCE t) ?args))"
      by (intro impI) (rule args(4))
  qed
qed

text \<open>No scope lets a recursive forced removal through: \<^verbatim>\<open>rm\<close> with one flag that contains \<^verbatim>\<open>r\<close> and one
  that contains \<^verbatim>\<open>f\<close>, in any case and any position, is not allowed even when \<^verbatim>\<open>rm\<close> is on the allow
  list.\<close>

theorem recursive_force_never_allowed:
  assumes "x \<in> set flags" "lower x = CHR ''-'' # u" "list_all is_lower_letter u" "CHR ''r'' \<in> set u"
    and "y \<in> set flags" "lower y = CHR ''-'' # v" "list_all is_lower_letter v" "CHR ''f'' \<in> set v"
  shows "decision_of (check_command s (PList (map PStr (''rm'' # flags)))) \<noteq> ALLOW"
proof
  assume "decision_of (check_command s (PList (map PStr (''rm'' # flags)))) = ALLOW"
  then have "verdict_allowed (check_command s (PList (map PStr (''rm'' # flags))))" by (simp add: verdict_allowed_def)
  then have none: "argument_verdict ''rm'' (''rm'' # flags) = None"
    unfolding check_command_allowed check_words_allowed by (auto simp: command_words_def drop_exe_rm)
  have no_dashes: "\<not> starts_with ''--'' (CHR ''-'' # w)" if "list_all is_lower_letter w" for w
    using that by (cases w) (auto simp: starts_with_def is_lower_letter_def Let_def)
  have "re_fullmatch SHORT_RECURSIVE (lower x)" "re_fullmatch SHORT_FORCE (lower y)"
    unfolding SHORT_RECURSIVE_def SHORT_FORCE_def assms(2,6)
    using letters_star_mid [OF assms(3,4)] letters_star_mid [OF assms(7,8)] .
  moreover have "lower x \<in> set (filter (\<lambda>t. starts_with ''-'' t \<and> \<not> starts_with ''--'' t) (map lower flags))"
    "lower y \<in> set (filter (\<lambda>t. starts_with ''-'' t \<and> \<not> starts_with ''--'' t) (map lower flags))"
  proof -
    have "starts_with ''-'' (lower x)" "starts_with ''-'' (lower y)" by (simp_all add: starts_with_def assms(2,6))
    moreover have "\<not> starts_with ''--'' (lower x)" "\<not> starts_with ''--'' (lower y)"
      using no_dashes [OF assms(3)] no_dashes [OF assms(7)] unfolding assms(2,6) .
    ultimately show "lower x \<in> set (filter (\<lambda>t. starts_with ''-'' t \<and> \<not> starts_with ''--'' t) (map lower flags))"
      "lower y \<in> set (filter (\<lambda>t. starts_with ''-'' t \<and> \<not> starts_with ''--'' t) (map lower flags))"
      using assms(1,5) by simp_all
  qed
  ultimately show False
    using none by (auto simp: argument_verdict_def Let_def list_ex_iff split: if_splits)
qed

section \<open>Concrete instances\<close>

definition demo_scope :: scope where
  "demo_scope = \<lparr>scope_root = \<lparr>path_root = ''/'', path_parts = [''w'']\<rparr>, readable_roots = [], allowed_read_roots = None,
     allowed_read_files = None, allowed_write_roots = None, scope_deny_read = [],
     scope_deny_write = [\<lparr>path_root = ''/'', path_parts = [''w'', ''.git'']\<rparr>],
     command_allowlist = DEFAULT_COMMAND_ALLOWLIST\<rparr>"

text \<open>The least length a pattern needs, to see that a short command matches none.\<close>

primrec min_length :: "regex \<Rightarrow> nat" where
  "min_length REps = 0"
| "min_length (RCls P) = 1"
| "min_length (RSeq a b) = min_length a + min_length b"
| "min_length (RAlt a b) = min (min_length a) (min_length b)"
| "min_length (RStar r) = 0"
| "min_length RWordB = 0"
| "min_length RDollar = 0"
| "min_length REndZ = 0"

lemma rmatch_min_length: "rmatch s r i j \<Longrightarrow> i + min_length r \<le> j"
  by (induction rule: rmatch.induct) (auto dest: rmatch_mono)

lemma short_no_search: "length s < min_length r \<Longrightarrow> \<not> re_search r s"
  unfolding re_search_iff using rmatch_min_length rmatch_bound by fastforce

lemma demo_ls_allowed: "verdict_allowed (check_command demo_scope (PList [PStr ''ls'']))"
proof -
  have "list_all (\<lambda>r. 3 \<le> min_length r) DANGEROUS_PATTERNS" by code_simp
  moreover have "strip (join '' '' [''ls'']) = ''ls''" by code_simp
  ultimately have "\<forall>r\<in>set DANGEROUS_PATTERNS. \<not> re_search r (strip (join '' '' [''ls'']))"
    by (auto simp: list_all_iff intro!: short_no_search)
  moreover have "command_head False [''ls''] = ''ls''" "argument_verdict ''ls'' [''ls''] = None"
    "shell_shape_problem [''ls''] = None" "\<not> list_ex (contains [CHR 0x00]) [''ls'']" "strip (hd [''ls'']) \<noteq> []"
    "''ls'' \<in> set (command_allowlist demo_scope)" "strip (join '' '' [''ls'']) \<noteq> []" by code_simp+
  ultimately show ?thesis unfolding check_command_allowed check_words_allowed by (simp add: command_words_def)
qed

theorem allowed_command_is_plain_witness:
  "decision_of (check_command demo_scope (PList [PStr ''ls''])) = ALLOW
   \<and> (\<exists>parts head. command_words (PList [PStr ''ls'']) = Some parts \<and> head \<in> set (command_allowlist demo_scope))"
proof -
  have "decision_of (check_command demo_scope (PList [PStr ''ls''])) = ALLOW"
    using demo_ls_allowed by (simp add: verdict_allowed_def)
  moreover from allowed_command_is_plain [OF this]
  have "\<exists>parts head. command_words (PList [PStr ''ls'']) = Some parts \<and> head \<in> set (command_allowlist demo_scope)"
    by (elim exE conjE, intro exI conjI)
  ultimately show ?thesis ..
qed

theorem recursive_force_never_allowed_witness:
  "decision_of (check_command (demo_scope\<lparr>command_allowlist := [''rm'']\<rparr>) (PList [PStr ''rm'', PStr ''-R'', PStr ''-f'', PStr ''x''])) \<noteq> ALLOW"
proof -
  have l: "lower ''-R'' = CHR ''-'' # ''r''" "lower ''-f'' = CHR ''-'' # ''f''"
    "list_all is_lower_letter ''r''" "list_all is_lower_letter ''f''" by code_simp+
  show ?thesis
    using recursive_force_never_allowed [of "''-R''" "[''-R'', ''-f'', ''x'']" "''r''" "''-f''" "''f''"] l by simp
qed

end
