(* ===== verification/Agent_Scope.thy ===== *)
theory Agent_Scope
  imports Roles Write_Lease Sandbox_Policy Guard
begin

text \<open>
  \<^verbatim>\<open>src/icode/agent_scope.py\<close>: the context an agent gets from its role. Read-only roles lose every
  write root and the network; an executor's policy is narrowed to the region it declares. Each
  derivation goes through \<^verbatim>\<open>replace\<close> (the constructor) and \<open>tighten_policy\<close>.
\<close>

definition derive_agent_policy ::
  "(ppath \<Rightarrow> ppath option) \<Rightarrow> sandbox_policy option \<Rightarrow> pyval \<Rightarrow> pyval list \<Rightarrow> sandbox_policy res" where
  "derive_agent_policy resolve arg rname denied =
     (case arg of None \<Rightarrow> Inl (RoleError ''unknown_role'') | Some base \<Rightarrow>
      bindr (role rname) (\<lambda>r.
        if role_may_write r then Inr base
        else bindr (post_init resolve ((args_of base)\<lparr>arg_write_roots := PTuple [],
               arg_deny_read_roots := PTuple (map PPath (deny_read_roots base) @ denied),
               arg_network_mode := PEnum ''NetworkMode'' ''deny'', arg_allowed_domains := PTuple []\<rparr>))
             (\<lambda>candidate. tighten_policy base candidate)))"

definition derive_agent_guard_scope :: "(ppath \<Rightarrow> ppath option) \<Rightarrow> scope \<Rightarrow> pyval \<Rightarrow> scope res" where
  "derive_agent_guard_scope resolve base_scope rname =
     bindr (role rname) (\<lambda>r.
       if role_may_write r then Inr base_scope
       else scope_post_init resolve (base_scope\<lparr>allowed_write_roots := Some []\<rparr>))"

text \<open>\<^verbatim>\<open>Path.parents\<close>\<close>

definition path_parents :: "ppath \<Rightarrow> ppath list" where
  "path_parents p = map (\<lambda>n. p\<lparr>path_parts := take n (path_parts p)\<rparr>) (rev [0..<length (path_parts p)])"

definition converge_policy_to_region ::
  "(ppath \<Rightarrow> ppath option) \<Rightarrow> sandbox_policy option \<Rightarrow> pyval \<Rightarrow> sandbox_policy res" where
  "converge_policy_to_region resolve arg region =
     (case arg of None \<Rightarrow> Inl (RoleError ''unknown_role'') | Some base \<Rightarrow>
      bindr (normalize_region region) (\<lambda>parts.
        let region_path = path_join (workspace_root base) parts;
            narrowed = map (\<lambda>_. region_path)
              (filter (\<lambda>root_path. region_path = root_path \<or> root_path \<in> set (path_parents region_path)) (write_roots base))
        in if narrowed = [] then Inl (RoleError ''region_outside_write_scope'')
           else bindr (post_init resolve ((args_of base)\<lparr>arg_write_roots := path_tuple narrowed\<rparr>))
             (\<lambda>candidate. tighten_policy base candidate)))"

definition fingerprint_roots :: "ppath list option \<Rightarrow> pyval" where
  "fingerprint_roots v = (case v of None \<Rightarrow> PNone | Some ps \<Rightarrow> PList (map PStr (sort (map str_path ps))))"

definition scope_payload :: "scope \<Rightarrow> pyval" where
  "scope_payload s = PDict
     [(PStr ''workspace_root'', PStr (str_path (scope_root s))),
      (PStr ''readable_roots'', fingerprint_roots (Some (readable_roots s))),
      (PStr ''allowed_read_roots'', fingerprint_roots (allowed_read_roots s)),
      (PStr ''allowed_read_files'', fingerprint_roots (allowed_read_files s)),
      (PStr ''allowed_write_roots'', fingerprint_roots (allowed_write_roots s)),
      (PStr ''deny_read_roots'', fingerprint_roots (Some (scope_deny_read s))),
      (PStr ''deny_write_roots'', fingerprint_roots (Some (scope_deny_write s))),
      (PStr ''command_allowlist'', PList (map PStr (sort (command_allowlist s))))]"

definition scope_fingerprint :: "(string \<Rightarrow> string) \<Rightarrow> scope \<Rightarrow> string" where
  "scope_fingerprint sha256 s =
     sha256 (case dumps (\<lambda>_. []) False '' '' (scope_payload s) of Inr t \<Rightarrow> t | Inl _ \<Rightarrow> [])"

section \<open>Derived policies\<close>

lemma within_parents:
  "path_within p r \<longleftrightarrow> p = r \<or> r \<in> set (path_parents p)"
proof
  assume "path_within p r"
  then obtain t where t: "path_root p = path_root r" "path_parts p = path_parts r @ t"
    by (auto simp: path_within_parts_prefix)
  show "p = r \<or> r \<in> set (path_parents p)"
  proof (cases "t = []")
    case True
    with t show ?thesis by simp
  next
    case False
    with t have "length (path_parts r) < length (path_parts p)"
      "r = p\<lparr>path_parts := take (length (path_parts r)) (path_parts p)\<rparr>" by simp_all
    then show ?thesis by (auto simp: path_parents_def)
  qed
next
  assume "p = r \<or> r \<in> set (path_parents p)"
  then show "path_within p r" by (auto simp: path_parents_def path_within_def min_def)
qed

lemma normalize_paths_singleton:
  assumes "normalize_paths resolve (map (\<lambda>_. x) ys) l = Inr qs" "ys \<noteq> []"
  shows "\<exists>y. resolve x = Some y \<and> qs = [y]"
proof -
  have all: "map_res f (map (\<lambda>_. x) ys) = Inr zs \<Longrightarrow> ys \<noteq> [] \<Longrightarrow> \<exists>y. f x = Inr y \<and> zs = map (\<lambda>_. y) ys" for f zs
  proof (induction ys arbitrary: zs)
    case (Cons a ys)
    then show ?case by (cases ys) auto
  qed simp
  from assms obtain zs where zs: "map_res (\<lambda>p. normalize_path resolve p (l @ '' item'')) (map (\<lambda>_. x) ys) = Inr zs"
    "qs = sort_key str_path (remdups zs)" by (auto simp: normalize_paths_def)
  from all [OF zs(1) assms(2)] obtain y where y: "resolve x = Some y" "zs = map (\<lambda>_. y) ys"
    by (auto simp: normalize_path_def split: option.splits)
  have "remdups (map (\<lambda>_. y) ys) = [y]" using assms(2)
  proof (induction ys)
    case (Cons a ys)
    then show ?case by (cases ys) auto
  qed simp
  with zs(2) y show ?thesis by simp
qed

lemma typed_policy_update_write:
  "typed_policy ((args_of p)\<lparr>arg_write_roots := path_tuple ws\<rparr>) = Some (p\<lparr>write_roots := ws\<rparr>)"
  by (cases p) (simp add: typed_policy_def args_of_def)

lemma post_init_write_roots:
  assumes "post_init resolve a = Inr q" "typed_policy a = Some p"
  shows "normalize_paths resolve (write_roots p) ''write_roots'' = Inr (write_roots q)"
  using assms by (auto simp: post_init_def Let_def)

lemma converge_result:
  assumes "converge_policy_to_region resolve (Some base) region = Inr p"
  obtains parts x where "normalize_region region = Inr parts"
    "resolve (path_join (workspace_root base) parts) = Some x" "write_roots p = [x]" "narrower base p"
    "validate base = Inr ()" "validate p = Inr ()"
proof -
  from assms obtain parts narrowed where parts: "normalize_region region = Inr parts"
    and narrowed: "narrowed = map (\<lambda>_. path_join (workspace_root base) parts)
       (filter (\<lambda>r. path_join (workspace_root base) parts = r \<or> r \<in> set (path_parents (path_join (workspace_root base) parts)))
         (write_roots base))" "narrowed \<noteq> []"
    and pi: "post_init resolve ((args_of base)\<lparr>arg_write_roots := path_tuple narrowed\<rparr>) = Inr p"
    and t: "validate base = Inr ()" "validate p = Inr ()" "narrower base p"
    by (auto simp: converge_policy_to_region_def Let_def tighten_iff split: if_splits)
  from post_init_write_roots [OF pi typed_policy_update_write]
  have "normalize_paths resolve narrowed ''write_roots'' = Inr (write_roots p)" by simp
  with narrowed obtain x where "resolve (path_join (workspace_root base) parts) = Some x" "write_roots p = [x]"
    using normalize_paths_singleton [of resolve "path_join (workspace_root base) parts"] by force
  with parts t show thesis by (intro that)
qed

lemma derive_read_only:
  assumes "derive_agent_policy resolve (Some base) (PStr rn) denied = Inr p" "rn \<noteq> ROLE_EXECUTOR"
  shows "write_roots p = [] \<and> network_mode p = DENY \<and> narrower base p \<and> validate p = Inr () \<and> validate base = Inr ()"
proof -
  let ?args = "(args_of base)\<lparr>arg_write_roots := PTuple [],
               arg_deny_read_roots := PTuple (map PPath (deny_read_roots base) @ denied),
               arg_network_mode := PEnum ''NetworkMode'' ''deny'', arg_allowed_domains := PTuple []\<rparr>"
  from assms have c: "post_init resolve ?args = Inr p"
    and t: "validate base = Inr ()" "validate p = Inr ()" "narrower base p"
    by (auto simp: derive_agent_policy_def role_Inr tighten_iff split: if_splits)
  from c obtain q where q: "typed_policy ?args = Some q"
    by (auto simp: post_init_def split: option.splits)
  then have "network_mode q = DENY" "write_roots q = []"
    by (auto simp: typed_policy_def tuple_items_def as_mode_def mode_of_value_def split: option.splits)
  with post_init_fields [OF c q] t show ?thesis by simp
qed

lemma derive_executor: "derive_agent_policy resolve (Some base) (PStr ROLE_EXECUTOR) denied = Inr base"
  by (simp add: derive_agent_policy_def role_def ROLES_TABLE_def)

section \<open>Derived guard scopes\<close>

definition resolved_scope :: "(ppath \<Rightarrow> ppath option) \<Rightarrow> scope \<Rightarrow> bool" where
  "resolved_scope resolve s \<longleftrightarrow> resolve (scope_root s) = Some (scope_root s)
     \<and> (\<forall>x\<in>set (readable_roots s @ scope_deny_read s @ scope_deny_write s). resolve x = Some x)
     \<and> (\<forall>v\<in>{allowed_read_roots s, allowed_read_files s, allowed_write_roots s}. \<forall>ps. v = Some ps \<longrightarrow>
          (\<forall>x\<in>set ps. resolve x = Some x))"

lemma resolve_all_fix: "(\<And>x. x \<in> set ps \<Longrightarrow> resolve x = Some x) \<Longrightarrow> resolve_all resolve ps = Inr ps"
  using map_opt_map [of ps resolve "\<lambda>x. x"] by (simp add: resolve_all_def)

lemma resolve_some_fix:
  "(\<And>ps x. v = Some ps \<Longrightarrow> x \<in> set ps \<Longrightarrow> resolve x = Some x) \<Longrightarrow> resolve_some resolve v = Inr v"
  by (cases v) (simp_all add: resolve_some_def resolve_all_fix)

lemma scope_post_init_fix: "resolved_scope resolve s \<Longrightarrow> scope_post_init resolve s = Inr s"
  unfolding resolved_scope_def scope_post_init_def
  by (auto simp: resolve_all_fix resolve_some_fix)

lemma derive_guard_scope:
  assumes "resolved_scope resolve s" "rn \<in> set role_names"
  shows "derive_agent_guard_scope resolve s (PStr rn) =
    Inr (if rn = ROLE_EXECUTOR then s else s\<lparr>allowed_write_roots := Some []\<rparr>)"
proof -
  obtain r where r: "role (PStr rn) = Inr r" "role_may_write r = (rn = ROLE_EXECUTOR)"
    using assms(2) by (simp add: role_Inr)
  have "resolved_scope resolve (s\<lparr>allowed_write_roots := Some []\<rparr>)"
    using assms(1) by (auto simp: resolved_scope_def)
  from scope_post_init_fix [OF this] r show ?thesis by (simp add: derive_agent_guard_scope_def)
qed

section \<open>What the derivations guarantee\<close>

text \<open>The policy derived for a role other than the executor can write nothing and connect nowhere,
  and allows nothing the team's policy does not; the executor gets the team's policy unchanged.\<close>

theorem derived_policy_by_role:
  assumes "derive_agent_policy resolve (Some base) (PStr rn) denied = Inr p"
  shows "if rn = ROLE_EXECUTOR then p = base
    else (\<forall>x. \<not> may_write p x) \<and> (\<forall>h. \<not> may_connect p h) \<and> (\<forall>q. permits p q \<longrightarrow> permits base q)"
proof (cases "rn = ROLE_EXECUTOR")
  case True
  with assms show ?thesis by (simp add: derive_executor)
next
  case False
  from derive_read_only [OF assms False] False show ?thesis
    by (auto simp: may_write_def may_connect_def intro: narrower_permits)
qed

text \<open>C33. The guard scope derived for any role from a scope whose paths resolve to themselves (what its construction leaves) is at
  least as strict as that scope: reads and commands are judged the same, writes no more permissively, and a role other than the
  executor is denied every write.\<close>

theorem derived_scope_no_laxer:
  assumes "resolved_scope resolve s" and "rn \<in> set role_names"
    and "derive_agent_guard_scope resolve s (PStr rn) = Inr d"
  shows "check_read resolve d x = check_read resolve s x
    \<and> check_command d argv = check_command s argv
    \<and> decision_of (check_write resolve s x) \<le> decision_of (check_write resolve d x)
    \<and> (rn \<noteq> ROLE_EXECUTOR \<longrightarrow> decision_of (check_write resolve d x) = DENIED)"
proof -
  have d: "d = (if rn = ROLE_EXECUTOR then s else s\<lparr>allowed_write_roots := Some []\<rparr>)"
    using derive_guard_scope [OF assms(1,2)] assms(3) by simp
  have "check_read resolve (s\<lparr>allowed_write_roots := v\<rparr>) x = check_read resolve s x" for v
    by (simp add: check_read_def guard_resolve_def Let_def cong: option.case_cong if_cong)
  moreover have "check_command (s\<lparr>allowed_write_roots := v\<rparr>) argv = check_command s argv" for v
    by (simp add: check_command_def check_words_def Let_def cong: option.case_cong if_cong)
  moreover have "decision_of (check_write resolve (s\<lparr>allowed_write_roots := Some []\<rparr>) x) = DENIED"
    by (simp add: check_write_def within_any_def Let_def)
  ultimately show ?thesis using d by simp
qed

text \<open>When the workspace has no symbolic link on the way to the declared region, an executor's
  converged policy can write only inside that region, and allows nothing the policy before did not.\<close>

theorem converged_policy_writes_region:
  assumes "converge_policy_to_region resolve (Some base) region = Inr p"
    and "normalize_region region = Inr parts"
    and "resolve (path_join (workspace_root base) parts) = Some (path_join (workspace_root base) parts)"
  shows "(may_write p x \<longrightarrow> path_within x (path_join (workspace_root base) parts)) \<and> (permits p q \<longrightarrow> permits base q)"
proof -
  from assms(1) obtain parts' y where "normalize_region region = Inr parts'"
    "resolve (path_join (workspace_root base) parts') = Some y" "write_roots p = [y]" "narrower base p"
    by (rule converge_result)
  with assms(2,3) narrower_permits [of base p q] show ?thesis by (auto simp: may_write_def)
qed

section \<open>Concrete instances\<close>

text \<open>A workspace in which \<^verbatim>\<open>a\<close> is a symbolic link to \<^verbatim>\<open>b\<close>.\<close>

definition link_resolve :: "ppath \<Rightarrow> ppath option" where
  "link_resolve p = Some (if path_within p (abs_path [''w'', ''a'']) then
     abs_path (''w'' # ''b'' # drop 2 (path_parts p)) else p)"

definition demo_base :: sandbox_policy where
  "demo_base = demo_policy\<lparr>network_mode := DENY, allowed_domains := []\<rparr>"

lemma demo_base_canonical: "canonical_policy demo_base" "resolved_policy Some demo_base" "resolved_policy link_resolve demo_base"
proof -
  have "validate demo_base = Inr ()" by (simp add: validate_iff demo_base_def demo_policy_def demo_visible)
  then show "canonical_policy demo_base"
    by (simp add: canonical_policy_def demo_base_def demo_policy_def)
  show "resolved_policy Some demo_base" by (simp add: resolved_policy_def demo_base_def demo_policy_def)
  show "resolved_policy link_resolve demo_base"
    by (simp add: resolved_policy_def demo_base_def demo_policy_def link_resolve_def)
qed

lemma post_init_write_update:
  assumes "canonical_policy p" "resolved_policy resolve p" "resolve x = Some y"
    and "validate (p\<lparr>write_roots := [y]\<rparr>) = Inr ()"
  shows "post_init resolve ((args_of p)\<lparr>arg_write_roots := path_tuple [x]\<rparr>) = Inr (p\<lparr>write_roots := [y]\<rparr>)"
proof -
  have n: "normalize_path resolve (workspace_root p) l = Inr (workspace_root p)"
    "normalize_paths resolve (read_roots p) l = Inr (read_roots p)"
    "normalize_paths resolve (deny_read_roots p) l = Inr (deny_read_roots p)"
    "normalize_paths resolve (deny_write_roots p) l = Inr (deny_write_roots p)"
    "normalize_paths resolve (protected_paths p) l = Inr (protected_paths p)" for l
    using assms(1,2)
    by (auto simp: canonical_policy_def resolved_policy_def intro!: normalize_paths_fix normalize_path_fix)
  have w: "normalize_paths resolve [x] l = Inr [y]" for l
    using assms(3) by (simp add: normalize_paths_def normalize_path_def)
  have v: "validate_declared_types ((args_of p)\<lparr>arg_write_roots := path_tuple [x]\<rparr>) = Inr ()"
    using validate_declared_types_args_of [of "p\<lparr>write_roots := [x]\<rparr>"] by (simp add: args_of_def)
  show ?thesis
    unfolding post_init_def v typed_policy_update_write
    using assms(4) by (simp add: n w canonical_domains [OF assms(1)] Let_def)
qed

lemma demo_region_a: "normalize_region (PStr ''a'') = Inr [''a'']"
  by (rule demo_regions(1))

lemma demo_converge:
  assumes "resolve (abs_path [''w'', ''a'']) = Some (abs_path [''w'', c])" "resolved_policy resolve demo_base"
    "c = ''a'' \<or> c = ''b''"
  shows "converge_policy_to_region resolve (Some demo_base) (PStr ''a'') = Inr (demo_base\<lparr>write_roots := [abs_path [''w'', c]]\<rparr>)"
proof -
  let ?p = "demo_base\<lparr>write_roots := [abs_path [''w'', c]]\<rparr>"
  have v: "validate ?p = Inr ()" "validate demo_base = Inr ()"
    using assms(3) by (auto simp: validate_iff demo_base_def demo_policy_def demo_visible)
  have rp: "path_join (workspace_root demo_base) [''a''] = abs_path [''w'', ''a'']"
    by (simp add: path_join_def demo_base_def demo_policy_def abs_path_def)
  have ws: "write_roots demo_base = [abs_path [''w'']]" by (simp add: demo_base_def demo_policy_def)
  have "post_init resolve ((args_of demo_base)\<lparr>arg_write_roots := path_tuple [abs_path [''w'', ''a'']]\<rparr>) = Inr ?p"
    by (rule post_init_write_update [OF demo_base_canonical(1) assms(2,1) v(1)])
  moreover have "tighten_policy demo_base ?p = Inr ?p"
    using v unfolding tighten_iff
    by (simp add: narrower_def demo_base_def demo_policy_def roots_are_no_broader_def)
  ultimately show ?thesis
    unfolding converge_policy_to_region_def option.case demo_region_a bindr_simps Let_def rp ws
      within_parents [symmetric] by simp
qed

text \<open>With a symbolic link in the workspace, the converged policy follows the link while the lease is
  taken on the lexical region: an executor that declared (and leased) \<^verbatim>\<open>a\<close>, a link to \<^verbatim>\<open>b\<close>, gets a policy
  that lets it write below \<^verbatim>\<open>b\<close>, a region another agent can hold, because the two do not overlap.\<close>

theorem converged_policy_follows_links:
  "\<exists>p x. converge_policy_to_region link_resolve (Some demo_base) (PStr ''a'') = Inr p
    \<and> may_write p x \<and> path_within x (path_join (workspace_root demo_base) [''b''])
    \<and> normalize_region (PStr ''a'') = Inr [''a''] \<and> \<not> regions_overlap [''a''] [''b'']"
proof -
  have "link_resolve (abs_path [''w'', ''a'']) = Some (abs_path [''w'', ''b''])"
    by (simp add: link_resolve_def) (simp add: abs_path_def)
  from demo_converge [OF this demo_base_canonical(3)]
  have c: "converge_policy_to_region link_resolve (Some demo_base) (PStr ''a'') =
      Inr (demo_base\<lparr>write_roots := [abs_path [''w'', ''b'']]\<rparr>)" by simp
  have w: "may_write (demo_base\<lparr>write_roots := [abs_path [''w'', ''b'']]\<rparr>) (abs_path [''w'', ''b'', ''f''])"
    by (simp add: may_write_def demo_base_def demo_policy_def)
  have "path_within (abs_path [''w'', ''b'', ''f'']) (path_join (workspace_root demo_base) [''b''])"
    by (simp add: demo_base_def demo_policy_def path_within_def path_join_def abs_path_def)
  moreover have "\<not> regions_overlap [''a''] [''b'']" by (simp add: regions_overlap_def)
  ultimately show ?thesis using c w demo_region_a by blast
qed

theorem converged_policy_writes_region_witness:
  "path_within (abs_path [''w'', ''a'', ''f'']) (path_join (workspace_root demo_base) [''a''])"
proof -
  have c: "converge_policy_to_region Some (Some demo_base) (PStr ''a'') =
      Inr (demo_base\<lparr>write_roots := [abs_path [''w'', ''a'']]\<rparr>)"
    by (rule demo_converge [OF _ demo_base_canonical(2)]) simp_all
  have "may_write (demo_base\<lparr>write_roots := [abs_path [''w'', ''a'']]\<rparr>) (abs_path [''w'', ''a'', ''f''])"
    by (simp add: may_write_def demo_base_def demo_policy_def)
  with converged_policy_writes_region [OF c demo_region_a, of "abs_path [''w'', ''a'', ''f'']" "Run_seconds 1"] show ?thesis
    by simp
qed

lemma demo_derive_planner:
  "derive_agent_policy Some (Some demo_base) (PStr ROLE_PLANNER) [] = Inr (demo_base\<lparr>write_roots := []\<rparr>)"
    (is "_ = Inr ?p")
proof -
  have v: "validate ?p = Inr ()" "validate demo_base = Inr ()"
    by (simp_all add: validate_iff demo_base_def demo_policy_def demo_visible)
  have "canonical_policy ?p" using v demo_base_canonical(1) by (simp add: canonical_policy_def demo_base_def)
  moreover have "resolved_policy Some ?p" by (simp add: resolved_policy_def)
  ultimately have "post_init Some (args_of ?p) = Inr ?p" by (rule post_init_args_of)
  moreover have "(args_of demo_base)\<lparr>arg_write_roots := PTuple [],
      arg_deny_read_roots := PTuple (map PPath (deny_read_roots demo_base) @ []),
      arg_network_mode := PEnum ''NetworkMode'' ''deny'', arg_allowed_domains := PTuple []\<rparr> = args_of ?p"
    by (simp add: args_of_def path_tuple_def mode_value_def demo_base_def)
  moreover have "tighten_policy demo_base ?p = Inr ?p"
    using v unfolding tighten_iff by (simp add: narrower_def roots_are_no_broader_def demo_base_def)
  moreover have "role (PStr ROLE_PLANNER) = Inr \<lparr>role_name = ROLE_PLANNER, role_may_write = False, conclusions_kind = ''plan''\<rparr>"
    by (simp add: role_def ROLES_TABLE_def)
  ultimately show ?thesis unfolding derive_agent_policy_def option.case by simp
qed

theorem derived_policy_by_role_witness:
  "may_write demo_base (abs_path [''w'', ''f'']) \<and> \<not> may_write (demo_base\<lparr>write_roots := []\<rparr>) (abs_path [''w'', ''f''])"
proof -
  have "may_write demo_base (abs_path [''w'', ''f''])" by (simp add: may_write_def demo_base_def demo_policy_def)
  with derived_policy_by_role [OF demo_derive_planner] show ?thesis by simp
qed

theorem derived_scope_no_laxer_witness:
  "decision_of (check_write Some (demo_scope\<lparr>allowed_write_roots := Some []\<rparr>) (abs_path [''w'', ''f''])) = DENIED"
proof -
  have r: "resolved_scope Some demo_scope" by (simp add: resolved_scope_def)
  have p: "ROLE_PLANNER \<in> set role_names" by (simp add: role_names_def)
  from derived_scope_no_laxer [OF r p, of "demo_scope\<lparr>allowed_write_roots := Some []\<rparr>" "abs_path [''w'', ''f'']"]
  show ?thesis using derive_guard_scope [OF r p] by simp
qed

end
