(* ===== verification/Agent_Conclusion.thy ===== *)
theory Agent_Conclusion
  imports Roles Py_Json
begin

text \<open>
  \<^verbatim>\<open>src/icode/agent_conclusion.py\<close>: conclusions and the bounded, append-only ledger. The constructor
  checks run in the order of the source; \<open>sha256\<close> is the hash and \<open>frepr\<close> prints floats. The operations
  of the ledger are atomic, as its lock makes them.
\<close>

section \<open>Conclusions\<close>

definition OUTCOMES :: "string list" where
  "OUTCOMES = [''completed'', ''failed'', ''refused'']"

definition MAX_STEP :: nat where "MAX_STEP = 64"
definition MAX_KIND :: nat where "MAX_KIND = 64"
definition MAX_DETAIL :: nat where "MAX_DETAIL = 200"
definition MAX_EVIDENCE_JSON :: nat where "MAX_EVIDENCE_JSON = 4096"
definition DEFAULT_LIMIT :: int where "DEFAULT_LIMIT = 256"

lemmas conclusion_limits = MAX_STEP_def MAX_KIND_def MAX_DETAIL_def MAX_EVIDENCE_JSON_def

fun is_scalar_value :: "pyval \<Rightarrow> bool" where
  "is_scalar_value (PStr s) = True"
| "is_scalar_value (PInt i) = True"
| "is_scalar_value (PFloat f) = True"
| "is_scalar_value (PBool b) = True"
| "is_scalar_value (PEnum c s) = True"
| "is_scalar_value PNone = True"
| "is_scalar_value _ = False"

type_synonym evidence = "(string, pyval) dict"

definition evidence_error :: exc where
  "evidence_error = ConclusionError ''evidence_invalid''"

fun bound_items :: "evidence \<Rightarrow> (pyval \<times> pyval) list \<Rightarrow> evidence res" where
  "bound_items acc [] = Inr acc"
| "bound_items acc ((k, v) # kvs) =
     (case k of
        PStr key \<Rightarrow>
          if key = [] \<or> 32 < length key then Inl evidence_error
          else if is_scalar_value v then bound_items (dict_set key v acc) kvs
          else Inl evidence_error
      | _ \<Rightarrow> Inl evidence_error)"

definition evidence_dict :: "evidence \<Rightarrow> pyval" where
  "evidence_dict ev = PDict (map (\<lambda>(k, v). (PStr k, v)) ev)"

definition bounded_evidence :: "(pyfloat \<Rightarrow> string) \<Rightarrow> pyval \<Rightarrow> evidence res" where
  "bounded_evidence frepr v = (case v of
       PDict kvs \<Rightarrow>
         if kvs = [] then Inl (ConclusionError ''evidence_missing'')
         else bindr (bound_items [] kvs) (\<lambda>ev.
           bindr (dumps frepr False '' '' (evidence_dict ev)) (\<lambda>encoded.
             if MAX_EVIDENCE_JSON < length encoded then Inl evidence_error else Inr ev))
     | _ \<Rightarrow> Inl (ConclusionError ''evidence_missing''))"

record agent_conclusion =
  concl_agent_id :: string
  concl_role :: string
  concl_ticket :: string
  concl_step :: string
  concl_kind :: string
  context_digest :: string
  outcome :: string
  concl_evidence :: evidence
  detail :: string
  concl_digest :: string

definition conclusion_fields :: "agent_conclusion \<Rightarrow> (pyval \<times> pyval) list" where
  "conclusion_fields c =
     [(PStr ''agent_id'', PStr (concl_agent_id c)), (PStr ''role'', PStr (concl_role c)),
      (PStr ''ticket_id'', PStr (concl_ticket c)), (PStr ''step'', PStr (concl_step c)),
      (PStr ''kind'', PStr (concl_kind c)), (PStr ''context_digest'', PStr (context_digest c)),
      (PStr ''outcome'', PStr (outcome c)), (PStr ''evidence'', evidence_dict (concl_evidence c)),
      (PStr ''detail'', PStr (detail c))]"

definition conclusion_digest :: "(string \<Rightarrow> string) \<Rightarrow> (pyfloat \<Rightarrow> string) \<Rightarrow> agent_conclusion \<Rightarrow> string" where
  "conclusion_digest sha256 frepr c =
     sha256 (case dumps frepr False '' '' (PDict (conclusion_fields c)) of Inr t \<Rightarrow> t | Inl _ \<Rightarrow> [])"

definition is_lower_hex :: "char \<Rightarrow> bool" where
  "is_lower_hex c \<longleftrightarrow> c \<in> set ''0123456789abcdef''"

definition text_of_str :: "pyval \<Rightarrow> string" where
  "text_of_str v = (case v of PStr s \<Rightarrow> s | _ \<Rightarrow> [])"

text \<open>\<^verbatim>\<open>AgentConclusion.__post_init__\<close>; \<open>outcome\<close> and \<open>detail\<close> are strings at every call.\<close>

definition mk_AgentConclusion ::
  "(string \<Rightarrow> string) \<Rightarrow> (pyfloat \<Rightarrow> string) \<Rightarrow> pyval \<Rightarrow> pyval \<Rightarrow> pyval \<Rightarrow> pyval \<Rightarrow> pyval \<Rightarrow> pyval \<Rightarrow> string \<Rightarrow> pyval \<Rightarrow> string
    \<Rightarrow> agent_conclusion res" where
  "mk_AgentConclusion sha256 frepr aid rn tid st kind ctx oc ev dt =
     bindr (parse_agent_id aid) (\<lambda>(prefix, ticket, n).
     bindr (role rn) (\<lambda>r.
     if PStr prefix \<noteq> rn \<or> PStr ticket \<noteq> tid then Inl (ConclusionError ''agent_id_mismatch'')
     else if ticket = [] then Inl (ConclusionError ''invalid_ticket'')
     else (case st of PStr st_name \<Rightarrow>
       if st_name = [] \<or> MAX_STEP < length st_name then Inl (ConclusionError ''invalid_step'')
       else (case kind of PStr k \<Rightarrow>
         if k = [] \<or> MAX_KIND < length k then Inl (ConclusionError ''invalid_kind'')
         else if k \<noteq> conclusions_kind r then Inl (ConclusionError ''conclusion_out_of_role'')
         else (case ctx of PStr cd \<Rightarrow>
           if length cd \<noteq> 64 \<or> \<not> list_all is_lower_hex cd then Inl (ConclusionError ''invalid_context_digest'')
           else if oc \<notin> set OUTCOMES then Inl (ConclusionError ''invalid_outcome'')
           else bindr (if oc = ''completed'' then bounded_evidence frepr ev
                       else if dt = [] then Inl (ConclusionError ''detail_missing'') else Inr []) (\<lambda>e.
             if MAX_DETAIL < length dt then Inl (ConclusionError ''detail_oversize'')
             else let c = \<lparr>concl_agent_id = text_of_str aid, concl_role = prefix, concl_ticket = ticket, concl_step = st_name,
                           concl_kind = k, context_digest = cd, outcome = oc, concl_evidence = e, detail = dt,
                           concl_digest = []\<rparr>
                  in Inr (c\<lparr>concl_digest := conclusion_digest sha256 frepr c\<rparr>))
          | _ \<Rightarrow> Inl (ConclusionError ''invalid_context_digest''))
        | _ \<Rightarrow> Inl (ConclusionError ''invalid_kind''))
      | _ \<Rightarrow> Inl (ConclusionError ''invalid_step''))))"

definition project :: "agent_conclusion \<Rightarrow> pyval" where
  "project c = PDict (conclusion_fields c @ [(PStr ''digest'', PStr (concl_digest c))])"

section \<open>The ledger\<close>

record ledger =
  ledger_limit :: int
  entries :: "agent_conclusion list"
  digests :: "string list"

definition mk_ledger :: "pyval \<Rightarrow> ledger res" where
  "mk_ledger limit = (case limit of
       PInt n \<Rightarrow> if 1 \<le> n \<and> n \<le> 4096 then Inr \<lparr>ledger_limit = n, entries = [], digests = []\<rparr>
                else Inl (ConclusionError ''invalid_limit'')
     | _ \<Rightarrow> Inl (ConclusionError ''invalid_limit''))"

definition ledger_record :: "agent_conclusion option \<Rightarrow> ledger \<Rightarrow> string res \<times> ledger" where
  "ledger_record arg l =
     (case arg of None \<Rightarrow> (Inl (ConclusionError ''invalid_conclusion''), l) | Some c \<Rightarrow>
      if concl_digest c \<in> set (digests l) then (Inr (concl_digest c), l)
      else if ledger_limit l \<le> int (length (entries l)) then (Inl (ConclusionError ''ledger_full''), l)
      else (Inr (concl_digest c), l\<lparr>entries := entries l @ [c], digests := concl_digest c # digests l\<rparr>))"

definition ledger_conclusions :: "ledger \<Rightarrow> agent_conclusion list" where
  "ledger_conclusions l = entries l"

definition ledger_project :: "ledger \<Rightarrow> pyval list" where
  "ledger_project l = map project (entries l)"

definition has_completed :: "ledger \<Rightarrow> pyval \<Rightarrow> pyval \<Rightarrow> pyval \<Rightarrow> bool" where
  "has_completed l rn kind st = (case (rn, kind, st) of
       (PStr r, PStr k, PStr s) \<Rightarrow>
         list_ex (\<lambda>c. concl_role c = r \<and> concl_kind c = k \<and> concl_step c = s \<and> outcome c = ''completed'') (entries l)
     | _ \<Rightarrow> False)"

section \<open>What a conclusion carries\<close>

definition evidence_ok :: "evidence \<Rightarrow> bool" where
  "evidence_ok ev \<longleftrightarrow> (\<forall>(k, v)\<in>set ev. k \<noteq> [] \<and> length k \<le> 32 \<and> is_scalar_value v)"

lemma evidence_ok_set: "evidence_ok ev \<Longrightarrow> k \<noteq> [] \<Longrightarrow> length k \<le> 32 \<Longrightarrow> is_scalar_value v \<Longrightarrow> evidence_ok (dict_set k v ev)"
  by (induction ev) (auto simp: evidence_ok_def)

lemma dict_set_nonempty [simp]: "dict_set k v d \<noteq> []"
  by (cases d) auto

lemma bound_items_ok:
  "bound_items acc kvs = Inr ev \<Longrightarrow> evidence_ok acc \<Longrightarrow> evidence_ok ev \<and> (acc \<noteq> [] \<or> kvs \<noteq> [] \<longrightarrow> ev \<noteq> [])"
proof (induction acc kvs rule: bound_items.induct)
  case (2 acc k v kvs)
  then show ?case by (cases k) (auto simp: evidence_ok_set split: if_splits)
qed simp

lemma bound_items_get:
  "bound_items acc kvs = Inr ev \<Longrightarrow> dict_get ev k = (case map_of (rev kvs) (PStr k) of Some v \<Rightarrow> Some v | None \<Rightarrow> dict_get acc k)"
proof (induction acc kvs rule: bound_items.induct)
  case (2 acc k' v kvs)
  then show ?case by (cases k') (auto simp: map_add_def split: if_splits option.splits)
qed simp

lemma bounded_evidence_ok:
  "bounded_evidence frepr v = Inr ev \<Longrightarrow> evidence_ok ev \<and> ev \<noteq> []"
  using bound_items_ok [of "[]" _ ev]
  by (auto simp: bounded_evidence_def evidence_ok_def split: pyval.splits if_splits)

definition conclusion_ok :: "(string \<Rightarrow> string) \<Rightarrow> (pyfloat \<Rightarrow> string) \<Rightarrow> agent_conclusion \<Rightarrow> bool" where
  "conclusion_ok sha256 frepr c \<longleftrightarrow>
     (\<exists>n. parse_agent_id (PStr (concl_agent_id c)) = Inr (concl_role c, concl_ticket c, n))
     \<and> dict_get ROLE_CONCLUSION_KIND (concl_role c) = Some (concl_kind c)
     \<and> 1 \<le> length (concl_step c) \<and> length (concl_step c) \<le> 64
     \<and> length (context_digest c) = 64 \<and> list_all is_lower_hex (context_digest c)
     \<and> length (detail c) \<le> 200
     \<and> (outcome c = ''completed'' \<and> concl_evidence c \<noteq> [] \<and> evidence_ok (concl_evidence c)
        \<or> (outcome c = ''failed'' \<or> outcome c = ''refused'') \<and> concl_evidence c = [] \<and> detail c \<noteq> [])
     \<and> concl_digest c = conclusion_digest sha256 frepr (c\<lparr>concl_digest := []\<rparr>)"

lemma role_kind: "role (PStr s) = Inr r \<Longrightarrow> dict_get ROLE_CONCLUSION_KIND s = Some (conclusions_kind r)"
  by (auto simp: role_Inr role_names_def ROLE_CONCLUSION_KIND_def)

lemma mk_conclusion_ok:
  assumes "mk_AgentConclusion sha256 frepr aid rn tid st kind ctx oc ev dt = Inr c"
  shows "conclusion_ok sha256 frepr c"
proof -
  from assms obtain prefix ticket n r st_name k cd e where
    p: "parse_agent_id aid = Inr (prefix, ticket, n)" "role rn = Inr r" "rn = PStr prefix" "tid = PStr ticket"
    and b: "st = PStr st_name" "st_name \<noteq> []" "length st_name \<le> 64" "kind = PStr k" "k = conclusions_kind r"
      "ctx = PStr cd" "length cd = 64" "list_all is_lower_hex cd" "oc \<in> set OUTCOMES" "length dt \<le> 200"
    and e: "(if oc = ''completed'' then bounded_evidence frepr ev
         else if dt = [] then Inl (ConclusionError ''detail_missing'') else Inr []) = Inr e"
    and c: "c = \<lparr>concl_agent_id = text_of_str aid, concl_role = prefix, concl_ticket = ticket, concl_step = st_name,
        concl_kind = k, context_digest = cd, outcome = oc, concl_evidence = e, detail = dt,
        concl_digest = conclusion_digest sha256 frepr \<lparr>concl_agent_id = text_of_str aid, concl_role = prefix,
          concl_ticket = ticket, concl_step = st_name, concl_kind = k, context_digest = cd, outcome = oc,
          concl_evidence = e, detail = dt, concl_digest = []\<rparr>\<rparr>"
    unfolding mk_AgentConclusion_def
    by (auto simp: conclusion_limits Let_def simp del: bound_items.simps split: if_splits pyval.splits)
  from p(1) obtain a where a: "aid = PStr a"
    by (cases aid) (auto simp: parse_agent_id_def)
  have "dict_get ROLE_CONCLUSION_KIND prefix = Some k" using role_kind p(2,3) b(5) by simp
  moreover have "oc = ''completed'' \<and> e \<noteq> [] \<and> evidence_ok e \<or> (oc = ''failed'' \<or> oc = ''refused'') \<and> e = [] \<and> dt \<noteq> []"
    using e b(9) bounded_evidence_ok [of frepr ev e] by (auto simp: OUTCOMES_def split: if_splits)
  ultimately show ?thesis
    using p a b c by (auto simp: conclusion_ok_def text_of_str_def Suc_le_eq)
qed

section \<open>Append-only logs\<close>

text \<open>What a client of an append-only log relies on: adding keeps the invariant, and either leaves the
  items alone or appends the one given; on success an item that counts as the same is there.\<close>

fun add_all :: "('e \<Rightarrow> 'l \<Rightarrow> 'r res \<times> 'l) \<Rightarrow> 'e list \<Rightarrow> 'l \<Rightarrow> 'l" where
  "add_all add [] l = l"
| "add_all add (e # es) l = add_all add es (snd (add e l))"

locale append_log =
  fixes inv :: "'l \<Rightarrow> bool"
    and add :: "'e \<Rightarrow> 'l \<Rightarrow> 'r res \<times> 'l"
    and items :: "'l \<Rightarrow> 'e list"
    and key :: "'e \<Rightarrow> 'k"
  assumes inv_add: "inv l \<Longrightarrow> inv (snd (add e l))"
    and add_items: "inv l \<Longrightarrow> items (snd (add e l)) = items l \<or> items (snd (add e l)) = items l @ [e]"
    and add_present: "inv l \<Longrightarrow> add e l = (Inr r, l') \<Longrightarrow> key e \<in> key ` set (items l')"
    and add_again: "inv l \<Longrightarrow> key e \<in> key ` set (items l) \<Longrightarrow> snd (add e l) = l"
    and keys_distinct: "inv l \<Longrightarrow> distinct (map key (items l))"
begin

lemma add_all_inv: "inv l \<Longrightarrow> inv (add_all add es l)"
  by (induction es arbitrary: l) (simp_all add: inv_add)

lemma add_all_extends: "inv l \<Longrightarrow> \<exists>rest. items (add_all add es l) = items l @ rest \<and> set rest \<subseteq> set es"
proof (induction es arbitrary: l)
  case Nil
  then show ?case by simp
next
  case (Cons e es)
  from Cons.IH [OF inv_add [OF Cons.prems], of e] obtain rest where
    r: "items (add_all add (e # es) l) = items (snd (add e l)) @ rest" "set rest \<subseteq> set es" by auto
  show ?case
  proof (cases "items (snd (add e l)) = items l")
    case True
    with r show ?thesis by (intro exI [of _ rest]) auto
  next
    case False
    with add_items [OF Cons.prems, of e] r show ?thesis by (intro exI [of _ "e # rest"]) auto
  qed
qed

lemma add_all_idempotent: "inv l \<Longrightarrow> key e \<in> key ` set (items l) \<Longrightarrow> add_all add (replicate n e) l = l"
  by (induction n) (simp_all add: add_again)

end

definition ledger_inv :: "ledger \<Rightarrow> bool" where
  "ledger_inv l \<longleftrightarrow> int (length (entries l)) \<le> ledger_limit l \<and> set (digests l) = concl_digest ` set (entries l)
     \<and> distinct (map concl_digest (entries l))"

lemma ledger_inv_mk: "mk_ledger v = Inr l \<Longrightarrow> ledger_inv l"
  by (auto simp: mk_ledger_def ledger_inv_def split: pyval.splits if_splits)

interpretation ledger: append_log ledger_inv "\<lambda>c. ledger_record (Some c)" entries concl_digest
  by unfold_locales (auto simp: ledger_record_def ledger_inv_def split: if_splits)

lemma has_completed_mono:
  "set (entries l) \<subseteq> set (entries l') \<Longrightarrow> has_completed l r k s \<Longrightarrow> has_completed l' r k s"
  by (auto simp: has_completed_def list_ex_iff split: pyval.splits)

section \<open>What the ledger guarantees\<close>

text \<open>Every conclusion that can be constructed names a role, ticket and kind that agree with its
  agent identifier, carries a well-formed context digest, and carries bounded non-empty evidence if
  it is completed, or a failure code and no evidence if it is not.\<close>

theorem constructed_conclusion_ok:
  assumes "mk_AgentConclusion sha256 frepr aid rn tid st kind ctx oc ev dt = Inr c"
  shows "(\<exists>n. parse_agent_id (PStr (concl_agent_id c)) = Inr (concl_role c, concl_ticket c, n))
     \<and> dict_get ROLE_CONCLUSION_KIND (concl_role c) = Some (concl_kind c)
     \<and> length (context_digest c) = 64 \<and> list_all is_lower_hex (context_digest c)
     \<and> (outcome c = ''completed'' \<and> concl_evidence c \<noteq> [] \<and> evidence_ok (concl_evidence c)
        \<or> (outcome c = ''failed'' \<or> outcome c = ''refused'') \<and> concl_evidence c = [] \<and> detail c \<noteq> [])"
  using mk_conclusion_ok [OF assms] by (simp add: conclusion_ok_def)

text \<open>C23. However many conclusions are recorded, the ledger keeps what it has in its order, adds only
  conclusions it was given, never holds more than its limit and never the same digest twice;
  recording a conclusion it has changes nothing.\<close>

theorem ledger_append_only_bounded:
  assumes "mk_ledger v = Inr l0" and "l = add_all (\<lambda>c. ledger_record (Some c)) cs l0"
    and "l' = add_all (\<lambda>c. ledger_record (Some c)) cs' l"
  shows "(\<exists>rest. entries l' = entries l @ rest \<and> set rest \<subseteq> set cs') \<and> int (length (entries l')) \<le> ledger_limit l'
    \<and> distinct (map concl_digest (entries l'))
    \<and> (\<forall>c\<in>set (entries l'). snd (ledger_record (Some c) l') = l')"
proof -
  have i: "ledger_inv l" using ledger.add_all_inv [OF ledger_inv_mk [OF assms(1)]] assms(2) by simp
  have i': "ledger_inv l'" using ledger.add_all_inv [OF i] assms(3) by simp
  show ?thesis
    using ledger.add_all_extends [OF i, of cs'] ledger.add_again [OF i'] i' assms(3)
    by (auto simp: ledger_inv_def)
qed

section \<open>Concrete instances\<close>

definition zeros64 :: string where
  "zeros64 = replicate 64 (CHR ''0'')"

definition demo_conclusion :: agent_conclusion where
  "demo_conclusion = \<lparr>concl_agent_id = ''planner#t1#1'', concl_role = ''planner'', concl_ticket = ''t1'', concl_step = ''s'',
     concl_kind = ''plan'', context_digest = zeros64, outcome = ''refused'', concl_evidence = [], detail = ''x'',
     concl_digest = ''d''\<rparr>"

lemma demo_parse: "parse_agent_id (PStr ''planner#t1#1'') = Inr (''planner'', ''t1'', 1)"
proof -
  have "plain_ticket ''t1''" by code_simp
  moreover have "''planner'' \<in> set role_names" by (simp add: role_names_def role_names_defs)
  ultimately show ?thesis
    using parse_format_agent_id [of "''planner''" "''t1''" 1]
    by (simp add: format_agent_id_def string_of_int_def string_of_nat_one)
qed

lemma demo_mk_conclusion:
  "mk_AgentConclusion (\<lambda>_. ''d'') (\<lambda>_. []) (PStr ''planner#t1#1'') (PStr ''planner'') (PStr ''t1'') (PStr ''s'') (PStr ''plan'')
     (PStr zeros64) ''refused'' PNone ''x'' = Inr demo_conclusion"
proof -
  have r: "role (PStr ''planner'') = Inr \<lparr>role_name = ''planner'', role_may_write = False, conclusions_kind = ''plan''\<rparr>"
    by (simp add: role_def ROLES_TABLE_def role_names_defs)
  have z: "list_all is_lower_hex zeros64" "length zeros64 = 64"
    by (simp_all add: zeros64_def list_all_iff is_lower_hex_def)
  show ?thesis
    unfolding mk_AgentConclusion_def demo_parse bindr_simps r
    by (simp add: z conclusion_limits OUTCOMES_def demo_conclusion_def text_of_str_def conclusion_digest_def)
qed

theorem constructed_conclusion_ok_witness:
  "dict_get ROLE_CONCLUSION_KIND (concl_role demo_conclusion) = Some (concl_kind demo_conclusion) \<and> detail demo_conclusion \<noteq> []"
  using constructed_conclusion_ok [OF demo_mk_conclusion] by (auto simp: demo_conclusion_def)

theorem ledger_append_only_bounded_witness:
  "\<exists>l. mk_ledger (PInt 1) = Inr l \<and>
    snd (ledger_record (Some demo_conclusion) (add_all (\<lambda>c. ledger_record (Some c)) [demo_conclusion] l))
      = add_all (\<lambda>c. ledger_record (Some c)) [demo_conclusion] l"
proof -
  let ?l = "\<lparr>ledger_limit = 1, entries = [], digests = []\<rparr>"
  have mk: "mk_ledger (PInt 1) = Inr ?l" by (simp add: mk_ledger_def)
  from ledger_append_only_bounded [OF mk refl refl, of "[demo_conclusion]" "[]"]
  have "\<forall>c\<in>set (entries (add_all (\<lambda>c. ledger_record (Some c)) [demo_conclusion] ?l)).
      snd (ledger_record (Some c) (add_all (\<lambda>c. ledger_record (Some c)) [demo_conclusion] ?l))
        = add_all (\<lambda>c. ledger_record (Some c)) [demo_conclusion] ?l" by simp
  moreover have "demo_conclusion \<in> set (entries (add_all (\<lambda>c. ledger_record (Some c)) [demo_conclusion] ?l))"
    by (simp add: ledger_record_def)
  ultimately show ?thesis using mk by blast
qed

end
