(* ===== verification/Agent_Team.thy ===== *)
theory Agent_Team
  imports Agent_Scope Agent_Conclusion
begin

text \<open>
  \<^verbatim>\<open>src/icode/multi_agent.py\<close>: a team spawns agents, runs their work under a region lease, records a
  conclusion for every outcome and gates a step on the conclusions. The state is the team record and
  the shared lock files; an agent's work is an argument that returns a value or raises. The file
  system, hash and float printing are the fields of \<open>team_env\<close>.
\<close>

record team_env =
  env_resolve :: "ppath \<Rightarrow> ppath option"
  env_sha256 :: "string \<Rightarrow> string"
  env_frepr :: "pyfloat \<Rightarrow> string"

definition MAX_PARALLEL_CEILING :: int where
  "MAX_PARALLEL_CEILING = 8"

record agent_handle =
  handle_identity :: agent_identity
  handle_policy :: "sandbox_policy option"
  handle_scope :: "scope option"
  handle_digest :: string

record gate_receipt =
  gate_ok :: bool
  gate_required :: "string list"
  gate_satisfied :: "string list"
  gate_missing :: "string list"

record team =
  team_ticket :: pyval
  team_policy :: "sandbox_policy option"
  team_scope :: "scope option"
  max_parallel :: int
  team_registry :: role_registry
  team_ledger :: ledger
  team_leases :: "write_board option"
  team_handles :: "(string, agent_handle) dict"

definition path_of_arg :: "pyval \<Rightarrow> ppath option" where
  "path_of_arg v = (case v of PPath p \<Rightarrow> Some p | PStr s \<Rightarrow> Some (parse_path s) | _ \<Rightarrow> None)"

definition lease_dir_inside :: "(ppath \<Rightarrow> ppath option) \<Rightarrow> ppath option \<Rightarrow> pyval \<Rightarrow> bool res" where
  "lease_dir_inside resolve root_arg dir =
     (case root_arg of None \<Rightarrow> Inr False | Some r \<Rightarrow>
      (case path_of_arg dir of None \<Rightarrow> Inl (PyTypeError ''lease_dir'') | Some d \<Rightarrow>
       (case (resolve d, resolve r) of
          (Some dp, Some rp) \<Rightarrow> Inr (dp = rp \<or> rp \<in> set (path_parents dp))
        | _ \<Rightarrow> Inl PyOSError)))"

definition mk_team ::
  "team_env \<Rightarrow> pyval \<Rightarrow> pyval \<Rightarrow> sandbox_policy option \<Rightarrow> scope option \<Rightarrow> pyval \<Rightarrow> pyval \<Rightarrow> team res" where
  "mk_team env ticket dir pol sc par limit =
     (if \<not> is_valid_ticket_id ticket then Inl (RoleError ''invalid_ticket'')
      else case par of PInt n \<Rightarrow>
        if \<not> (1 \<le> n \<and> n \<le> MAX_PARALLEL_CEILING) then Inl (RoleError ''invalid_parallel'')
        else bindr (mk_ledger limit) (\<lambda>led.
          let root_arg = (case pol of Some p \<Rightarrow> Some (workspace_root p)
                          | None \<Rightarrow> (case sc of Some s \<Rightarrow> Some (scope_root s) | None \<Rightarrow> None))
          in bindr (if dir = PNone then Inr None
                    else bindr (lease_dir_inside (env_resolve env) root_arg dir) (\<lambda>inside.
                      if inside then Inl (LeaseError ''invalid_lease_dir'')
                      else bindr (mk_board dir) (\<lambda>b. Inr (Some b)))) (\<lambda>board.
            Inr \<lparr>team_ticket = ticket, team_policy = pol, team_scope = sc, max_parallel = n,
                 team_registry = empty_registry, team_ledger = led, team_leases = board, team_handles = []\<rparr>))
      | _ \<Rightarrow> Inl (RoleError ''invalid_parallel''))"

section \<open>Spawning\<close>

definition option_res :: "('a \<Rightarrow> 'b res) \<Rightarrow> 'a option \<Rightarrow> 'b option res" where
  "option_res f v = (case v of None \<Rightarrow> Inr None | Some x \<Rightarrow> bindr (f x) (\<lambda>y. Inr (Some y)))"

definition boundary_digest :: "team_env \<Rightarrow> sandbox_policy option \<Rightarrow> scope option \<Rightarrow> string res" where
  "boundary_digest env pol sc = (case (pol, sc) of
       (Some p, Some s) \<Rightarrow> Inr (env_sha256 env (policy_hash (env_sha256 env) p @ scope_fingerprint (env_sha256 env) s))
     | (Some p, None) \<Rightarrow> Inr (policy_hash (env_sha256 env) p)
     | (None, Some s) \<Rightarrow> Inr (scope_fingerprint (env_sha256 env) s)
     | (None, None) \<Rightarrow> Inl (RoleError ''context_boundary_missing''))"

definition team_spawn :: "team_env \<Rightarrow> pyval \<Rightarrow> team \<Rightarrow> agent_handle res \<times> team" where
  "team_spawn env rname tm =
     (case spawn (team_registry tm) rname (team_ticket tm) of
        (Inl e, reg) \<Rightarrow> (Inl e, tm\<lparr>team_registry := reg\<rparr>)
      | (Inr ident, reg) \<Rightarrow>
         let tm1 = tm\<lparr>team_registry := reg\<rparr> in
         case bindr (option_res (\<lambda>p. derive_agent_policy (env_resolve env) (Some p) rname []) (team_policy tm)) (\<lambda>pol.
              bindr (option_res (\<lambda>s. derive_agent_guard_scope (env_resolve env) s rname) (team_scope tm)) (\<lambda>sc.
              bindr (boundary_digest env pol sc) (\<lambda>dg.
                Inr \<lparr>handle_identity = ident, handle_policy = pol, handle_scope = sc, handle_digest = dg\<rparr>))) of
           Inl e \<Rightarrow> (Inl e, tm1)
         | Inr h \<Rightarrow> (Inr h, tm1\<lparr>team_handles := dict_set (agent_id ident) h (team_handles tm1)\<rparr>))"

definition team_handle :: "team \<Rightarrow> pyval \<Rightarrow> agent_handle res" where
  "team_handle tm v =
     (case (case v of PStr a \<Rightarrow> dict_get (team_handles tm) a | _ \<Rightarrow> None) of
        None \<Rightarrow> Inl (RoleError ''unknown_agent'') | Some h \<Rightarrow> Inr h)"

section \<open>Running\<close>

definition validate_step :: "pyval \<Rightarrow> string res" where
  "validate_step v = (case v of
       PStr s \<Rightarrow> if strip s = [] \<or> 64 < length s then Inl (RoleError ''invalid_step'') else Inr (strip s)
     | _ \<Rightarrow> Inl (RoleError ''invalid_step''))"

text \<open>The argument of \<^verbatim>\<open>run\<close> is a handle or something else.\<close>

definition require_handle :: "team \<Rightarrow> agent_handle option \<Rightarrow> agent_identity res" where
  "require_handle tm arg =
     (case arg of None \<Rightarrow> Inl (RoleError ''invalid_handle'')
      | Some h \<Rightarrow> require (team_registry tm) (PStr (agent_id (handle_identity h))))"

definition record_conclusion ::
  "team_env \<Rightarrow> agent_handle \<Rightarrow> string \<Rightarrow> string \<Rightarrow> string \<Rightarrow> pyval \<Rightarrow> string \<Rightarrow> ledger \<Rightarrow> agent_conclusion res \<times> ledger" where
  "record_conclusion env h st kind oc ev dt led =
     (let i = handle_identity h in
      case mk_AgentConclusion (env_sha256 env) (env_frepr env) (PStr (agent_id i)) (PStr (ident_role i)) (PStr (ident_ticket i))
             (PStr st) (PStr kind) (PStr (handle_digest h)) oc ev dt of
        Inl e \<Rightarrow> (Inl e, led)
      | Inr c \<Rightarrow> (case ledger_record (Some c) led of (Inl e, led') \<Rightarrow> (Inl e, led') | (Inr _, led') \<Rightarrow> (Inr c, led')))"

definition is_conclusion_error :: "exc \<Rightarrow> bool" where
  "is_conclusion_error e = (case e of ConclusionError _ \<Rightarrow> True | _ \<Rightarrow> False)"

text \<open>The identity and the boundary are written over whatever the work returned.\<close>

definition merge_evidence :: "agent_identity \<Rightarrow> string \<Rightarrow> (pyval \<times> pyval) list \<Rightarrow> pyval" where
  "merge_evidence i dg kvs =
     PDict (dict_set (PStr ''context_digest'') (PStr dg) (dict_set (PStr ''agent_id'') (PStr (agent_id i)) kvs))"

definition run_work ::
  "team_env \<Rightarrow> agent_identity \<Rightarrow> agent_handle \<Rightarrow> (agent_handle \<Rightarrow> pyval res) \<Rightarrow> string \<Rightarrow> string \<Rightarrow> ledger
    \<Rightarrow> agent_conclusion res \<times> ledger" where
  "run_work env i h work st kind led =
     (if handle_digest h = [] then record_conclusion env h st kind ''refused'' (PDict []) ''context_boundary_missing'' led
      else case work h of
        Inl _ \<Rightarrow> record_conclusion env h st kind ''failed'' (PDict []) ''agent_work_failed'' led
      | Inr produced \<Rightarrow>
         (case (case produced of
              PNone \<Rightarrow> record_conclusion env h st kind ''refused'' (PDict []) ''evidence_missing'' led
            | PDict kvs \<Rightarrow>
                if kvs = [] then record_conclusion env h st kind ''refused'' (PDict []) ''evidence_missing'' led
                else record_conclusion env h st kind ''completed'' (merge_evidence i (handle_digest h) kvs) [] led
            | _ \<Rightarrow> record_conclusion env h st kind ''failed'' (PDict []) ''evidence_invalid'' led) of
            (Inl e, led') \<Rightarrow>
              if is_conclusion_error e then record_conclusion env h st kind ''failed'' (PDict []) ''evidence_invalid'' led'
              else (Inl e, led')
          | ok \<Rightarrow> ok))"

text \<open>The handle of this run: an executor's policy converges to the declared region.\<close>

definition run_handle :: "team_env \<Rightarrow> agent_identity \<Rightarrow> agent_handle \<Rightarrow> bool \<Rightarrow> pyval \<Rightarrow> agent_handle res" where
  "run_handle env i h may region =
     (case handle_policy h of
        Some p \<Rightarrow>
          if may then bindr (converge_policy_to_region (env_resolve env) (Some p) region) (\<lambda>narrowed.
            Inr \<lparr>handle_identity = i, handle_policy = Some narrowed, handle_scope = handle_scope h,
                 handle_digest = policy_hash (env_sha256 env) narrowed\<rparr>)
          else Inr h
      | None \<Rightarrow> Inr h)"

text \<open>The part of \<^verbatim>\<open>run\<close> under a write region: converge, lease, work, record, release.\<close>

definition run_leased ::
  "team_env \<Rightarrow> os_answers \<Rightarrow> agent_identity \<Rightarrow> agent_handle \<Rightarrow> bool \<Rightarrow> (agent_handle \<Rightarrow> pyval res) \<Rightarrow> string \<Rightarrow> string \<Rightarrow> pyval
    \<Rightarrow> team \<times> lock_files \<Rightarrow> agent_conclusion res \<times> team \<times> lock_files" where
  "run_leased env ans i h may work st kind region s =
     (case s of (tm, fs) \<Rightarrow>
      case team_leases tm of None \<Rightarrow> (Inl (LeaseError ''lease_unavailable''), tm, fs) | Some board \<Rightarrow>
     (case run_handle env i h may region of Inl e \<Rightarrow> (Inl e, tm, fs) | Inr h' \<Rightarrow>
     (case acquire (env_sha256 env) ans region (PStr (agent_id i)) (board, fs) of
        (Inl e, b1, fs1) \<Rightarrow>
          (case e of
             LeaseBusy _ _ \<Rightarrow>
               (case record_conclusion env h' st kind ''refused'' (PDict []) ''lease_busy'' (team_ledger tm) of (res, led) \<Rightarrow>
                  (res, tm\<lparr>team_leases := Some b1, team_ledger := led\<rparr>, fs1))
           | _ \<Rightarrow> (Inl e, tm\<lparr>team_leases := Some b1\<rparr>, fs1))
      | (Inr l, b1, fs1) \<Rightarrow>
          (case run_work env i h' work st kind (team_ledger tm) of (res, led) \<Rightarrow>
           (case release l (b1, fs1) of (l', b2, fs2) \<Rightarrow>
             (res, tm\<lparr>team_leases := Some b2, team_ledger := led\<rparr>, fs2))))))"

definition run ::
  "team_env \<Rightarrow> os_answers \<Rightarrow> agent_handle option \<Rightarrow> (agent_handle \<Rightarrow> pyval res) \<Rightarrow> pyval \<Rightarrow> pyval \<Rightarrow> team \<times> lock_files
    \<Rightarrow> agent_conclusion res \<times> team \<times> lock_files" where
  "run env ans arg work st_arg region s =
     (case s of (tm, fs) \<Rightarrow>
      case require_handle tm arg of Inl e \<Rightarrow> (Inl e, tm, fs) | Inr i \<Rightarrow>
     (case arg of None \<Rightarrow> (Inl (RoleError ''invalid_handle''), tm, fs) | Some h \<Rightarrow>
     (case validate_step st_arg of Inl e \<Rightarrow> (Inl e, tm, fs) | Inr st \<Rightarrow>
     (case role (PStr (ident_role i)) of Inl e \<Rightarrow> (Inl e, tm, fs) | Inr r \<Rightarrow>
      let kind = conclusions_kind r; may = role_may_write r in
      case assert_conclusion_kind (team_registry tm) (Some i) (PStr kind) of Inl e \<Rightarrow> (Inl e, tm, fs) | Inr _ \<Rightarrow>
      if region = PNone then
        if may then (Inl (RoleError ''write_region_required''), tm, fs)
        else (case run_work env i h work st kind (team_ledger tm) of (res, led) \<Rightarrow> (res, tm\<lparr>team_ledger := led\<rparr>, fs))
      else
       (case (if may then Inr () else assert_may_write (team_registry tm) (Some i)) of Inl e \<Rightarrow> (Inl e, tm, fs)
        | Inr _ \<Rightarrow> run_leased env ans i h may work st kind region (tm, fs))))))"

section \<open>Gating\<close>

fun gate_items :: "ledger \<Rightarrow> string \<Rightarrow> (pyval \<times> pyval) list \<Rightarrow> (string \<times> bool) list res" where
  "gate_items led st [] = Inr []"
| "gate_items led st ((rn, kind) # rest) =
     bindr (role rn) (\<lambda>r.
       if kind \<noteq> PStr (conclusions_kind r) then Inl (RoleError ''conclusion_out_of_role'')
       else bindr (gate_items led st rest) (\<lambda>items.
         Inr ((role_name r @ '':'' @ conclusions_kind r, has_completed led rn kind (PStr st)) # items)))"

definition step_gate :: "team \<Rightarrow> pyval \<Rightarrow> pyval \<Rightarrow> gate_receipt res" where
  "step_gate tm st_arg required =
     bindr (validate_step st_arg) (\<lambda>st.
       case required of PDict kvs \<Rightarrow>
         if kvs = [] then Inl (RoleError ''invalid_gate'')
         else bindr (gate_items (team_ledger tm) st kvs) (\<lambda>items.
           let missing = map fst (filter (\<lambda>(p, ok). \<not> ok) items) in
           Inr \<lparr>gate_ok = (missing = []), gate_required = map fst items,
                gate_satisfied = map fst (filter (\<lambda>(p, ok). ok) items), gate_missing = missing\<rparr>)
       | _ \<Rightarrow> Inl (RoleError ''invalid_gate''))"

definition team_conclusions :: "team \<Rightarrow> pyval list" where
  "team_conclusions tm = ledger_project (team_ledger tm)"

section \<open>How a run can end\<close>

lemma run_leased_outcomes:
  assumes "run_leased env ans i h may work st kind region (tm, fs) = (res, tm', fs')"
  obtains (early) e where "res = Inl e" "tm' = tm" "fs' = fs"
  | (failed) board e b1 where "team_leases tm = Some board"
      "acquire (env_sha256 env) ans region (PStr (agent_id i)) (board, fs) = (Inl e, b1, fs')"
      "res = Inl e" "tm' = tm\<lparr>team_leases := Some b1\<rparr>"
  | (busy) h' board r owner b1 led where "team_leases tm = Some board" "run_handle env i h may region = Inr h'"
      "acquire (env_sha256 env) ans region (PStr (agent_id i)) (board, fs) = (Inl (LeaseBusy r owner), b1, fs')"
      "record_conclusion env h' st kind ''refused'' (PDict []) ''lease_busy'' (team_ledger tm) = (res, led)"
      "tm' = tm\<lparr>team_leases := Some b1, team_ledger := led\<rparr>"
  | (leased) h' board l b1 fs1 l' b2 led where "team_leases tm = Some board" "run_handle env i h may region = Inr h'"
      "acquire (env_sha256 env) ans region (PStr (agent_id i)) (board, fs) = (Inr l, b1, fs1)"
      "run_work env i h' work st kind (team_ledger tm) = (res, led)" "release l (b1, fs1) = (l', b2, fs')"
      "tm' = tm\<lparr>team_leases := Some b2, team_ledger := led\<rparr>"
proof (cases "team_leases tm")
  case None
  with assms show thesis by (intro early) (auto simp: run_leased_def)
next
  case board: (Some board)
  show thesis
  proof (cases "run_handle env i h may region")
    case (Inl e)
    with assms board show thesis by (intro early) (auto simp: run_leased_def)
  next
    case h': (Inr h')
    obtain r b1 fs1 where a: "acquire (env_sha256 env) ans region (PStr (agent_id i)) (board, fs) = (r, b1, fs1)"
      by (metis prod_cases3)
    show thesis
    proof (cases r)
      case (Inl e)
      obtain res1 led where rc: "record_conclusion env h' st kind ''refused'' (PDict []) ''lease_busy'' (team_ledger tm) = (res1, led)"
        by (metis prod.exhaust)
      have "run_leased env ans i h may work st kind region (tm, fs) =
          (case e of LeaseBusy _ _ \<Rightarrow> (res1, tm\<lparr>team_leases := Some b1, team_ledger := led\<rparr>, fs1)
           | _ \<Rightarrow> (Inl e, tm\<lparr>team_leases := Some b1\<rparr>, fs1))"
        by (cases e) (simp_all add: run_leased_def board h' a Inl rc)
      with assms board h' a Inl rc show thesis
        by (cases e) (auto intro: failed busy)
    next
      case (Inr l)
      obtain res1 led where w: "run_work env i h' work st kind (team_ledger tm) = (res1, led)" by (metis prod.exhaust)
      obtain l' b2 fs2 where rl: "release l (b1, fs1) = (l', b2, fs2)" by (metis prod_cases3)
      from assms have "res = res1" "tm' = tm\<lparr>team_leases := Some b2, team_ledger := led\<rparr>" "fs' = fs2"
        by (simp_all add: run_leased_def board h' a Inr w rl)
      with leased [OF board h'] a Inr w rl show thesis by simp
    qed
  qed
qed

lemma run_outcomes:
  assumes "run env ans arg work st_arg region (tm, fs) = (res, tm', fs')"
  obtains (refused_early) e where "res = Inl e" "tm' = tm" "fs' = fs"
  | (unleased) h i st kind led where "arg = Some h" "require (team_registry tm) (PStr (agent_id (handle_identity h))) = Inr i"
      "region = PNone" "run_work env i h work st kind (team_ledger tm) = (res, led)"
      "dict_get ROLE_CONCLUSION_KIND (ident_role i) = Some kind" "ident_role i \<noteq> ROLE_EXECUTOR"
      "validate_step st_arg = Inr st" "tm' = tm\<lparr>team_ledger := led\<rparr>" "fs' = fs"
  | (region) h i st kind where "arg = Some h" "require (team_registry tm) (PStr (agent_id (handle_identity h))) = Inr i"
      "region \<noteq> PNone" "run_leased env ans i h True work st kind region (tm, fs) = (res, tm', fs')"
      "dict_get ROLE_CONCLUSION_KIND (ident_role i) = Some kind" "ident_role i = ROLE_EXECUTOR"
      "validate_step st_arg = Inr st"
proof (cases "require_handle tm arg")
  case (Inl e)
  with assms show thesis by (intro refused_early) (auto simp: run_def)
next
  case (Inr i)
  then obtain h where h: "arg = Some h" "require (team_registry tm) (PStr (agent_id (handle_identity h))) = Inr i"
    by (auto simp: require_handle_def split: option.splits)
  show thesis
  proof (cases "validate_step st_arg")
    case (Inl e)
    with assms Inr h show thesis by (intro refused_early) (auto simp: run_def)
  next
    case st: (Inr st)
    show thesis
    proof (cases "role (PStr (ident_role i))")
      case (Inl e)
      with assms Inr st h show thesis by (intro refused_early) (auto simp: run_def)
    next
      case r: (Inr r)
      note kind = role_kind [OF r]
      have may: "role_may_write r = (ident_role i = ROLE_EXECUTOR)" using r by (simp add: role_Inr)
      show thesis
      proof (cases "assert_conclusion_kind (team_registry tm) (Some i) (PStr (conclusions_kind r))")
        case (Inl e)
        with assms Inr st h r show thesis by (intro refused_early) (auto simp: run_def)
      next
        case ck: (Inr k)
        have eq: "run env ans arg work st_arg region (tm, fs) =
           (if region = PNone then
              if ident_role i = ROLE_EXECUTOR then (Inl (RoleError ''write_region_required''), tm, fs)
              else (case run_work env i h work st (conclusions_kind r) (team_ledger tm) of (res, led) \<Rightarrow> (res, tm\<lparr>team_ledger := led\<rparr>, fs))
            else (case (if ident_role i = ROLE_EXECUTOR then Inr () else assert_may_write (team_registry tm) (Some i)) of
                Inl e \<Rightarrow> (Inl e, tm, fs)
              | Inr _ \<Rightarrow> run_leased env ans i h (ident_role i = ROLE_EXECUTOR) work st (conclusions_kind r) region (tm, fs)))"
          by (simp only: run_def prod.case h(1) Inr [unfolded h(1)] sum.case option.case st r Let_def ck may)
        show thesis
        proof (cases "region = PNone")
          case True
          obtain res1 led where w: "run_work env i h work st (conclusions_kind r) (team_ledger tm) = (res1, led)"
            by (metis prod.exhaust)
          show thesis
          proof (cases "ident_role i = ROLE_EXECUTOR")
            case ex: True
            with eq True assms show thesis by (intro refused_early) auto
          next
            case False
            with eq True assms w have "res = res1" "tm' = tm\<lparr>team_ledger := led\<rparr>" "fs' = fs" by auto
            with unleased [OF h True _ kind False st] w show thesis by simp
          qed
        next
          case rg: False
          show thesis
          proof (cases "ident_role i = ROLE_EXECUTOR")
            case True
            with eq assms rg have "run_leased env ans i h True work st (conclusions_kind r) region (tm, fs) = (res, tm', fs')"
              by simp
            from region [OF h rg this kind True st] show thesis .
          next
            case False
            have "assert_may_write (team_registry tm) (Some i) \<noteq> Inr ()"
              using False r by (auto simp: assert_may_write_def identity_may_write_def role_Inr split: option.splits)
            then obtain e where "assert_may_write (team_registry tm) (Some i) = Inl e"
              by (cases "assert_may_write (team_registry tm) (Some i)") auto
            with eq assms rg False show thesis by (intro refused_early) auto
          qed
        qed
      qed
    qed
  qed
qed

section \<open>The ledger during a run\<close>

abbreviation env_ok :: "team_env \<Rightarrow> agent_conclusion \<Rightarrow> bool" where
  "env_ok env c \<equiv> conclusion_ok (env_sha256 env) (env_frepr env) c"

text \<open>What recording leaves behind: the ledger grew, by well-formed conclusions only.\<close>

definition ledger_grew :: "team_env \<Rightarrow> ledger \<Rightarrow> ledger \<Rightarrow> bool" where
  "ledger_grew env l l' \<longleftrightarrow> ledger_inv l' \<and> (\<exists>rest. entries l' = entries l @ rest \<and> (\<forall>c\<in>set rest. env_ok env c))"

lemma ledger_grew_refl: "ledger_inv l \<Longrightarrow> ledger_grew env l l"
  by (simp add: ledger_grew_def)

lemma ledger_grew_trans: "ledger_grew env a b \<Longrightarrow> ledger_grew env b c \<Longrightarrow> ledger_grew env a c"
  by (auto simp: ledger_grew_def)

lemma mk_conclusion_fields:
  assumes "mk_AgentConclusion sha256 frepr (PStr a) (PStr r) (PStr t) (PStr st) (PStr kind) (PStr cd) oc ev dt = Inr c"
  shows "concl_agent_id c = a \<and> concl_role c = r \<and> concl_ticket c = t \<and> concl_step c = st \<and> concl_kind c = kind
    \<and> context_digest c = cd \<and> outcome c = oc \<and> detail c = dt
    \<and> (oc = ''completed'' \<longrightarrow> bounded_evidence frepr ev = Inr (concl_evidence c))"
  using assms unfolding mk_AgentConclusion_def
  by (auto simp: Let_def text_of_str_def simp del: bound_items.simps split: if_splits)

definition made_by :: "agent_handle \<Rightarrow> string \<Rightarrow> string \<Rightarrow> agent_conclusion \<Rightarrow> bool" where
  "made_by h st kind c \<longleftrightarrow> concl_agent_id c = agent_id (handle_identity h) \<and> concl_role c = ident_role (handle_identity h)
     \<and> concl_ticket c = ident_ticket (handle_identity h) \<and> concl_step c = st \<and> concl_kind c = kind
     \<and> context_digest c = handle_digest h"

lemma record_conclusion_effect:
  assumes "record_conclusion env h st kind oc ev dt l = (res, l')" and "ledger_inv l"
  shows "ledger_grew env l l' \<and>
    (\<forall>c. res = Inr c \<longrightarrow> env_ok env c \<and> made_by h st kind c \<and> outcome c = oc
       \<and> concl_digest c \<in> concl_digest ` set (entries l')
       \<and> (oc = ''completed'' \<longrightarrow> bounded_evidence (env_frepr env) ev = Inr (concl_evidence c)))"
proof (cases "mk_AgentConclusion (env_sha256 env) (env_frepr env) (PStr (agent_id (handle_identity h)))
    (PStr (ident_role (handle_identity h))) (PStr (ident_ticket (handle_identity h)))
    (PStr st) (PStr kind) (PStr (handle_digest h)) oc ev dt")
  case (Inl e)
  with assms show ?thesis by (auto simp: record_conclusion_def Let_def ledger_grew_refl)
next
  case (Inr c)
  obtain r l1 where l1: "ledger_record (Some c) l = (r, l1)" by (metis prod.exhaust)
  have ok: "env_ok env c" using mk_conclusion_ok [OF Inr] .
  have inv: "ledger_inv l1" using ledger.inv_add [OF assms(2), of c] l1 by simp
  have "entries l1 = entries l \<or> entries l1 = entries l @ [c]" using ledger.add_items [OF assms(2), of c] l1 by simp
  then have grew: "ledger_grew env l l1" using inv ok by (auto simp: ledger_grew_def)
  have res: "l' = l1" "\<And>c'. res = Inr c' \<Longrightarrow> c' = c \<and> (\<exists>d. r = Inr d)"
    using assms(1) Inr l1 by (auto simp: record_conclusion_def Let_def split: sum.splits)
  show ?thesis
    using grew res ok mk_conclusion_fields [OF Inr] ledger.add_present [OF assms(2), of c] l1
    by (auto simp: made_by_def)
qed

lemma run_work_effect:
  assumes "run_work env i h work st kind l = (res, l')" and "ledger_inv l"
  shows "ledger_grew env l l' \<and>
    (\<forall>c. res = Inr c \<longrightarrow> env_ok env c \<and> made_by h st kind c \<and> concl_digest c \<in> concl_digest ` set (entries l')
       \<and> (outcome c = ''completed'' \<longrightarrow> (\<exists>kvs. work h = Inr (PDict kvs)
            \<and> bounded_evidence (env_frepr env) (merge_evidence i (handle_digest h) kvs) = Inr (concl_evidence c))))"
proof -
  have plain: "ledger_grew env l0 l1 \<and> (\<forall>c. r = Inr c \<longrightarrow> env_ok env c \<and> made_by h st kind c
      \<and> concl_digest c \<in> concl_digest ` set (entries l1) \<and> outcome c = oc)"
    if "record_conclusion env h st kind oc (PDict []) dt l0 = (r, l1)" "ledger_inv l0" "oc \<noteq> ''completed''" for oc dt l0 r l1
    using record_conclusion_effect [OF that(1,2)] by blast
  show ?thesis
  proof (cases "handle_digest h = []")
    case True
    with assms have "record_conclusion env h st kind ''refused'' (PDict []) ''context_boundary_missing'' l = (res, l')"
      by (simp add: run_work_def)
    from plain [OF this assms(2)] show ?thesis by auto
  next
    case hd: False
    show ?thesis
    proof (cases "work h")
      case (Inl e)
      with hd assms have "record_conclusion env h st kind ''failed'' (PDict []) ''agent_work_failed'' l = (res, l')"
        by (simp add: run_work_def)
      from plain [OF this assms(2)] show ?thesis by auto
    next
      case (Inr produced)
      define first where "first = (case produced of
              PNone \<Rightarrow> record_conclusion env h st kind ''refused'' (PDict []) ''evidence_missing'' l
            | PDict kvs \<Rightarrow>
                if kvs = [] then record_conclusion env h st kind ''refused'' (PDict []) ''evidence_missing'' l
                else record_conclusion env h st kind ''completed'' (merge_evidence i (handle_digest h) kvs) [] l
            | _ \<Rightarrow> record_conclusion env h st kind ''failed'' (PDict []) ''evidence_invalid'' l)"
      obtain r1 l1 where f: "first = (r1, l1)" by (metis prod.exhaust)
      have eff: "ledger_grew env l l1 \<and> (\<forall>c. r1 = Inr c \<longrightarrow> env_ok env c \<and> made_by h st kind c
          \<and> concl_digest c \<in> concl_digest ` set (entries l1)
          \<and> (outcome c = ''completed'' \<longrightarrow> (\<exists>kvs. work h = Inr (PDict kvs)
            \<and> bounded_evidence (env_frepr env) (merge_evidence i (handle_digest h) kvs) = Inr (concl_evidence c))))"
      proof (cases "\<exists>kvs. produced = PDict kvs \<and> kvs \<noteq> []")
        case True
        then obtain kvs where kvs: "produced = PDict kvs" "kvs \<noteq> []" by blast
        with f have "record_conclusion env h st kind ''completed'' (merge_evidence i (handle_digest h) kvs) [] l = (r1, l1)"
          by (simp add: first_def)
        from record_conclusion_effect [OF this assms(2)] kvs Inr show ?thesis by auto
      next
        case False
        then have "record_conclusion env h st kind ''refused'' (PDict []) ''evidence_missing'' l = (r1, l1)
            \<or> record_conclusion env h st kind ''failed'' (PDict []) ''evidence_invalid'' l = (r1, l1)"
          using f by (cases produced) (auto simp: first_def)
        then show ?thesis by (elim disjE) (drule plain [OF _ assms(2)], simp, force)+
      qed
      from hd Inr assms(1) f have rw: "(case r1 of
            Inl e \<Rightarrow> if is_conclusion_error e then record_conclusion env h st kind ''failed'' (PDict []) ''evidence_invalid'' l1
                  else (Inl e, l1)
          | Inr c \<Rightarrow> (Inr c, l1)) = (res, l')"
        unfolding run_work_def first_def [symmetric] by (cases r1) (auto simp: first_def [symmetric])
      show ?thesis
      proof (cases r1)
        case (Inr c)
        with rw eff show ?thesis by auto
      next
        case (Inl e)
        have i1: "ledger_inv l1" using eff by (simp add: ledger_grew_def)
        show ?thesis
        proof (cases "is_conclusion_error e")
          case True
          with rw Inl have "record_conclusion env h st kind ''failed'' (PDict []) ''evidence_invalid'' l1 = (res, l')" by simp
          from plain [OF this i1] eff show ?thesis by (auto intro: ledger_grew_trans)
        next
          case False
          with rw Inl eff show ?thesis by auto
        qed
      qed
    qed
  qed
qed

section \<open>The team invariant\<close>

definition team_inv :: "team_env \<Rightarrow> team \<Rightarrow> bool" where
  "team_inv env tm \<longleftrightarrow> registry_inv (team_registry tm) \<and> ledger_inv (team_ledger tm)
     \<and> (\<forall>c\<in>set (entries (team_ledger tm)). env_ok env c) \<and> (\<forall>b. team_leases tm = Some b \<longrightarrow> board_inv b)"

lemma mk_ledger_entries: "mk_ledger limit = Inr led \<Longrightarrow> entries led = []"
  by (auto simp: mk_ledger_def split: pyval.splits if_splits)

lemma mk_team_fields:
  assumes "mk_team env ticket dir pol sc par limit = Inr tm"
  shows "team_registry tm = empty_registry \<and> mk_ledger limit = Inr (team_ledger tm)
    \<and> (\<forall>b. team_leases tm = Some b \<longrightarrow> mk_board dir = Inr b)"
  using assms by (auto simp: mk_team_def Let_def split: pyval.splits if_splits)

lemma team_inv_mk: "mk_team env ticket dir pol sc par limit = Inr tm \<Longrightarrow> team_inv env tm"
  using mk_team_fields [of env ticket dir pol sc par limit tm] mk_ledger_entries [of limit "team_ledger tm"]
  by (auto simp: team_inv_def registry_inv_empty ledger_inv_mk board_inv_empty)

lemma team_spawn_effect:
  assumes "team_spawn env rname tm = (res, tm')"
  shows "team_ledger tm' = team_ledger tm \<and> team_leases tm' = team_leases tm
    \<and> team_registry tm' = snd (spawn (team_registry tm) rname (team_ticket tm))"
  using assms by (auto simp: team_spawn_def Let_def split: prod.splits sum.splits)

lemma team_inv_spawn: "team_inv env tm \<Longrightarrow> team_spawn env rname tm = (res, tm') \<Longrightarrow> team_inv env tm'"
  using team_spawn_effect registry_inv_spawn by (simp add: team_inv_def)

text \<open>Every way a run ends leaves the leases as they were and only grows the ledger.\<close>

definition same_leases :: "team \<times> lock_files \<Rightarrow> team \<times> lock_files \<Rightarrow> bool" where
  "same_leases s s' \<longleftrightarrow> map_option held (team_leases (fst s')) = map_option held (team_leases (fst s))
     \<and> file_locks (snd s') = file_locks (snd s)"

lemma run_effect:
  assumes r: "run env ans arg work st_arg region (tm, fs) = (res, tm', fs')" and inv: "team_inv env tm"
  shows "same_leases (tm, fs) (tm', fs') \<and> ledger_grew env (team_ledger tm) (team_ledger tm')
    \<and> team_registry tm' = team_registry tm \<and> (\<forall>b. team_leases tm' = Some b \<longrightarrow> board_inv b)"
proof -
  have li: "ledger_inv (team_ledger tm)" and bi: "\<And>b. team_leases tm = Some b \<Longrightarrow> board_inv b"
    using inv by (simp_all add: team_inv_def)
  from r show ?thesis
  proof (cases rule: run_outcomes)
    case (refused_early e)
    with li bi show ?thesis by (simp add: same_leases_def ledger_grew_refl)
  next
    case (unleased h i st kind led)
    with run_work_effect [OF unleased(4) li] bi show ?thesis by (simp add: same_leases_def)
  next
    case (region h i st kind)
    from region(4) show ?thesis
    proof (cases rule: run_leased_outcomes)
      case (early e)
      with li bi show ?thesis by (simp add: same_leases_def ledger_grew_refl)
    next
      case (failed board e b1)
      with acquire_failure [OF failed(2)] board_inv_acquire [OF bi failed(2)] li show ?thesis
        by (simp add: same_leases_def ledger_grew_refl)
    next
      case (busy h' board q owner b1 led)
      with acquire_failure [OF busy(3)] board_inv_acquire [OF bi busy(3)] record_conclusion_effect [OF busy(4) li]
      show ?thesis by (simp add: same_leases_def)
    next
      case (leased h' board l b1 fs1 l' b2 led)
      have "board_inv b1" using board_inv_acquire [OF bi [OF leased(1)] leased(3)] .
      then have "board_inv b2" using board_inv_release [of b1 l fs1] leased(5) by simp
      with release_acquired [OF leased(3)] run_work_effect [OF leased(4) li] leased show ?thesis
        by (simp add: same_leases_def)
    qed
  qed
qed

lemma team_inv_run:
  assumes "run env ans arg work st_arg region (tm, fs) = (res, tm', fs')" and "team_inv env tm"
  shows "team_inv env tm'"
  using run_effect [OF assms] assms(2) by (auto simp: team_inv_def ledger_grew_def)

datatype team_op =
    Spawn_op pyval
  | Run_op os_answers "agent_handle option" "agent_handle \<Rightarrow> pyval res" pyval pyval

fun team_step :: "team_env \<Rightarrow> team_op \<Rightarrow> team \<times> lock_files \<Rightarrow> team \<times> lock_files" where
  "team_step env (Spawn_op rname) (tm, fs) = (snd (team_spawn env rname tm), fs)"
| "team_step env (Run_op ans arg work st region) s = snd (run env ans arg work st region s)"

definition team_run :: "team_env \<Rightarrow> team_op list \<Rightarrow> team \<times> lock_files \<Rightarrow> team \<times> lock_files" where
  "team_run env ops s = fold (team_step env) ops s"

lemma team_step_effect:
  assumes "team_inv env (fst s)"
  shows "team_inv env (fst (team_step env op s)) \<and> same_leases s (team_step env op s)
    \<and> ledger_grew env (team_ledger (fst s)) (team_ledger (fst (team_step env op s)))"
proof -
  obtain tm fs where s: "s = (tm, fs)" by (cases s)
  show ?thesis
  proof (cases op)
    case (Spawn_op rname)
    obtain res tm' where t: "team_spawn env rname tm = (res, tm')" by (metis prod.exhaust)
    have "ledger_inv (team_ledger tm)" using assms s by (simp add: team_inv_def)
    with team_spawn_effect [OF t] team_inv_spawn [OF _ t] assms s t Spawn_op show ?thesis
      by (simp add: same_leases_def ledger_grew_refl)
  next
    case (Run_op ans arg work st region)
    obtain res tm' fs' where r: "run env ans arg work st region (tm, fs) = (res, tm', fs')" by (metis prod_cases3)
    with run_effect [OF r] team_inv_run [OF r] assms s Run_op show ?thesis by simp
  qed
qed

lemma team_run_effect:
  "team_inv env (fst s) \<Longrightarrow> team_inv env (fst (team_run env ops s)) \<and> same_leases s (team_run env ops s)
    \<and> ledger_grew env (team_ledger (fst s)) (team_ledger (fst (team_run env ops s)))"
proof (induction ops arbitrary: s)
  case Nil
  then show ?case by (simp add: team_run_def same_leases_def ledger_grew_def team_inv_def)
next
  case (Cons op ops)
  note e = team_step_effect [OF Cons.prems, of op]
  have "team_run env (op # ops) s = team_run env ops (team_step env op s)" by (simp add: team_run_def)
  with e Cons.IH [of "team_step env op s"] show ?case
    by (auto simp: same_leases_def intro: ledger_grew_trans)
qed

section \<open>The gate\<close>

lemma gate_items_Inr:
  assumes "gate_items led st kvs = Inr items"
  shows "map snd items = map (\<lambda>(rn, kind). has_completed led rn kind (PStr st)) kvs"
  using assms by (induction led st kvs arbitrary: items rule: gate_items.induct)
    (auto split: if_splits)

lemma gate_ok_iff:
  assumes "step_gate tm st_arg (PDict kvs) = Inr rc" and "validate_step st_arg = Inr st"
  shows "gate_ok rc \<longleftrightarrow> (\<forall>(rn, kind)\<in>set kvs. has_completed (team_ledger tm) rn kind (PStr st))"
proof -
  from assms obtain items where items: "gate_items (team_ledger tm) st kvs = Inr items"
    and ok: "gate_ok rc \<longleftrightarrow> map fst (filter (\<lambda>(p, ok). \<not> ok) items) = []"
    by (auto simp: step_gate_def Let_def split: if_splits)
  have "gate_ok rc \<longleftrightarrow> (\<forall>b\<in>set (map snd items). b)" using ok by (auto simp: filter_empty_conv)
  then show ?thesis unfolding gate_items_Inr [OF items] by auto
qed

lemma has_completed_iff:
  "has_completed l rn kind (PStr st) \<longleftrightarrow> (\<exists>c\<in>set (entries l). rn = PStr (concl_role c) \<and> kind = PStr (concl_kind c)
     \<and> concl_step c = st \<and> outcome c = ''completed'')"
  by (cases rn; cases kind) (auto simp: has_completed_def list_ex_iff)

section \<open>What a team guarantees\<close>

text \<open>C9. Whatever a run does (return, record a refusal, or raise, with any answers of the operating
  system), afterwards the board holds exactly the regions it held before and the kernel exactly the
  locks: no run leaves a lease behind.\<close>

theorem run_leaves_no_lease:
  assumes "mk_team env ticket dir pol sc par limit = Inr tm0"
    and "run env ans arg work st_arg region (team_run env ops (tm0, fs0)) = (res, tm', fs')"
  shows "map_option held (team_leases tm') = map_option held (team_leases (fst (team_run env ops (tm0, fs0))))
    \<and> map_option held (team_leases tm') = map_option held (team_leases tm0)
    \<and> file_locks fs' = file_locks fs0"
proof -
  obtain tm fs where s: "team_run env ops (tm0, fs0) = (tm, fs)" by (metis prod.exhaust)
  note e = team_run_effect [of env "(tm0, fs0)" ops, unfolded s fst_conv, OF team_inv_mk [OF assms(1)]]
  with run_effect [of env ans arg work st_arg region tm fs res tm' fs'] assms(2) s show ?thesis
    by (simp add: same_leases_def)
qed

text \<open>C10. The gate of a step opens exactly when every required role has a completed conclusion for that
  step, made by an agent whose identifier carries that very role, with non-empty evidence; a
  conclusion of one role can never stand in for another.\<close>

theorem gate_opens_iff_roles_completed:
  assumes "mk_team env ticket dir pol sc par limit = Inr tm0" and "team_run env ops (tm0, fs0) = (tm, fs)"
    and "step_gate tm st_arg (PDict required) = Inr rc" and "validate_step st_arg = Inr st"
  shows "gate_ok rc \<longleftrightarrow> (\<forall>(rn, kind)\<in>set required. \<exists>c\<in>set (entries (team_ledger tm)).
      rn = PStr (concl_role c) \<and> kind = PStr (concl_kind c) \<and> concl_step c = st \<and> outcome c = ''completed''
      \<and> concl_evidence c \<noteq> [] \<and> (\<exists>n. parse_agent_id (PStr (concl_agent_id c)) = Inr (concl_role c, concl_ticket c, n)))"
proof -
  have "team_inv env tm"
    using team_run_effect [of env "(tm0, fs0)" ops] team_inv_mk [OF assms(1)] assms(2) by simp
  then have ok: "\<And>c. c \<in> set (entries (team_ledger tm)) \<Longrightarrow> env_ok env c" by (simp add: team_inv_def)
  show ?thesis
    unfolding gate_ok_iff [OF assms(3,4)] has_completed_iff using ok by (fastforce simp: conclusion_ok_def)
qed

text \<open>A gate that is open stays open: no later spawn or run can close it.\<close>

theorem gate_stays_open:
  assumes "mk_team env ticket dir pol sc par limit = Inr tm0"
    and "step_gate (fst (team_run env ops (tm0, fs0))) st (PDict required) = Inr rc" and "gate_ok rc"
    and "step_gate (fst (team_run env later (team_run env ops (tm0, fs0)))) st (PDict required) = Inr rc'"
  shows "gate_ok rc'"
proof -
  obtain st_name where v: "validate_step st = Inr st_name" using assms(2) by (auto simp: step_gate_def)
  let ?s = "team_run env ops (tm0, fs0)"
  have i: "team_inv env (fst ?s)" using team_run_effect [of env "(tm0, fs0)" ops] team_inv_mk [OF assms(1)] by simp
  have "set (entries (team_ledger (fst ?s))) \<subseteq> set (entries (team_ledger (fst (team_run env later ?s))))"
    using team_run_effect [OF i, of later] by (auto simp: ledger_grew_def)
  with gate_ok_iff [OF assms(2) v] gate_ok_iff [OF assms(4) v] assms(3) show ?thesis
    using has_completed_mono by blast
qed

lemma dict_get_rev: "dict_ok d \<Longrightarrow> map_of (rev d) = map_of d"
  by (subst map_of_inject_set) (simp_all add: dict_ok_def rev_map [symmetric])

lemma merged_evidence_forced:
  assumes "bounded_evidence frepr (merge_evidence i dg kvs) = Inr ev" and "dict_ok kvs"
  shows "dict_get ev ''agent_id'' = Some (PStr (agent_id i)) \<and> dict_get ev ''context_digest'' = Some (PStr dg)"
proof -
  let ?m = "dict_set (PStr ''context_digest'') (PStr dg) (dict_set (PStr ''agent_id'') (PStr (agent_id i)) kvs)"
  have b: "bound_items [] ?m = Inr ev"
    using assms(1) by (auto simp: bounded_evidence_def merge_evidence_def simp del: bound_items.simps split: if_splits)
  have "dict_ok ?m" using assms(2) by blast
  then have "map_of (rev ?m) = map_of ?m" by (rule dict_get_rev)
  then show ?thesis
    using bound_items_get [OF b, of "''agent_id''"] bound_items_get [OF b, of "''context_digest''"] by simp
qed

text \<open>C30. A completed conclusion of a run is about the agent that ran: whatever the work returned, the
  evidence carries the registered identifier and the context digest of the run, the kind is the one of
  the agent's role, and the conclusion is in the ledger.\<close>

theorem completed_run_is_attributed:
  assumes "mk_team env ticket dir pol sc par limit = Inr tm0"
    and "run env ans (Some h) work st_arg region (team_run env ops (tm0, fs0)) = (Inr c, tm', fs')"
    and "outcome c = ''completed''" and "\<And>k kvs. work k = Inr (PDict kvs) \<Longrightarrow> dict_ok kvs"
  shows "dict_get (concl_evidence c) ''agent_id'' = Some (PStr (agent_id (handle_identity h)))
    \<and> dict_get (concl_evidence c) ''context_digest'' = Some (PStr (context_digest c))
    \<and> dict_get ROLE_CONCLUSION_KIND (concl_role c) = Some (concl_kind c)
    \<and> concl_digest c \<in> concl_digest ` set (entries (team_ledger tm'))"
proof -
  obtain tm fs where s: "team_run env ops (tm0, fs0) = (tm, fs)" by (metis prod.exhaust)
  have inv: "team_inv env tm" using team_run_effect [of env "(tm0, fs0)" ops] team_inv_mk [OF assms(1)] s by simp
  then have li: "ledger_inv (team_ledger tm)" and ri: "registry_inv (team_registry tm)" by (simp_all add: team_inv_def)
  have known: "agent_id i = agent_id (handle_identity h)"
    if "require (team_registry tm) (PStr (agent_id (handle_identity h))) = Inr i" for i
    using that known_identity_wf [OF ri] by (auto simp: require_def split: option.splits)
  have core: "dict_get (concl_evidence c) ''agent_id'' = Some (PStr (agent_id i))
      \<and> dict_get (concl_evidence c) ''context_digest'' = Some (PStr (context_digest c))
      \<and> dict_get ROLE_CONCLUSION_KIND (concl_role c) = Some (concl_kind c)
      \<and> concl_digest c \<in> concl_digest ` set (entries led)"
    if w: "run_work env i h' work st kind (team_ledger tm) = (Inr c, led)" for i h' st kind led
  proof -
    have "outcome c = ''completed'' \<longrightarrow> (\<exists>kvs. work h' = Inr (PDict kvs)
        \<and> bounded_evidence (env_frepr env) (merge_evidence i (handle_digest h') kvs) = Inr (concl_evidence c))"
      and "env_ok env c" "made_by h' st kind c" "concl_digest c \<in> concl_digest ` set (entries led)"
      using run_work_effect [OF w li] by simp_all
    then obtain kvs where c: "env_ok env c" "made_by h' st kind c"
      "concl_digest c \<in> concl_digest ` set (entries led)" "work h' = Inr (PDict kvs)"
      "bounded_evidence (env_frepr env) (merge_evidence i (handle_digest h') kvs) = Inr (concl_evidence c)"
      using assms(3) by blast
    from merged_evidence_forced [OF c(5) assms(4) [OF c(4)]] c show ?thesis
      by (simp add: made_by_def conclusion_ok_def)
  qed
  from assms(2) have "run env ans (Some h) work st_arg region (tm, fs) = (Inr c, tm', fs')" by (simp add: s)
  then show ?thesis
  proof (cases rule: run_outcomes)
    case (unleased h0 i st kind led)
    have "require (team_registry tm) (PStr (agent_id (handle_identity h))) = Inr i" using unleased(1,2) by simp
    from known [OF this] core [OF unleased(4)] unleased(8) show ?thesis by simp
  next
    case (region h0 i st kind)
    have "require (team_registry tm) (PStr (agent_id (handle_identity h))) = Inr i" using region(1,2) by simp
    note same = known [OF this]
    from region(4) show ?thesis
    proof (cases rule: run_leased_outcomes)
      case (busy h' board q owner b1 led)
      with record_conclusion_effect [OF busy(4) li] assms(3) show ?thesis by auto
    next
      case (leased h' board l b1 fs1 l' b2 led)
      from core [OF leased(4)] same leased(6) show ?thesis by simp
    qed auto
  qed auto
qed

text \<open>A role that may not write is refused a write region before anything happens, an executor is
  refused a run without one; in both cases the work does not run and nothing changes.\<close>

theorem region_discipline:
  assumes "registry_inv (team_registry tm)" and "require_handle tm (Some h) = Inr i" and "validate_step st_arg = Inr st"
    and "(ident_role i = ROLE_EXECUTOR) = (region = PNone)"
  shows "run env ans (Some h) work st_arg region (tm, fs) =
    (Inl (RoleError (if region = PNone then ''write_region_required'' else ''role_write_denied'')), tm, fs)"
proof -
  have known: "identity (team_registry tm) (PStr (agent_id i)) = Some i"
    using assms(2) known_identity_wf [OF assms(1)] by (auto simp: require_handle_def require_def split: option.splits)
  with assms(1) have wf: "identity_wf i" using known_identity_wf by blast
  from identity_wf_role [OF wf] obtain r where r: "role (PStr (ident_role i)) = Inr r"
    "role_may_write r = (ident_role i = ROLE_EXECUTOR)" by blast
  have ck: "assert_conclusion_kind (team_registry tm) (Some i) (PStr (conclusions_kind r)) = Inr (conclusions_kind r)"
    by (simp add: assert_conclusion_kind_def known r(1))
  have mw: "assert_may_write (team_registry tm) (Some i) =
      (if ident_role i = ROLE_EXECUTOR then Inr () else Inl (RoleError ''role_write_denied''))"
    by (simp add: assert_may_write_def known identity_may_write_def r)
  show ?thesis
    unfolding run_def prod.case assms(2,3) sum.case option.case r(1) Let_def ck r(2) mw
    using assms(4) by simp
qed

section \<open>Concrete instances\<close>

definition demo_env :: team_env where
  "demo_env = \<lparr>env_resolve = Some, env_sha256 = (\<lambda>_. zeros64), env_frepr = (\<lambda>_. [])\<rparr>"

definition demo_team :: "write_board option \<Rightarrow> team" where
  "demo_team b = \<lparr>team_ticket = PStr ''t1'', team_policy = None, team_scope = Some demo_scope, max_parallel = 1,
     team_registry = empty_registry, team_ledger = \<lparr>ledger_limit = 4, entries = [], digests = []\<rparr>,
     team_leases = b, team_handles = []\<rparr>"

definition demo_handle :: agent_handle where
  "demo_handle = \<lparr>handle_identity = demo_planner, handle_policy = None,
     handle_scope = Some (demo_scope\<lparr>allowed_write_roots := Some []\<rparr>), handle_digest = zeros64\<rparr>"

definition demo_work :: "agent_handle \<Rightarrow> pyval res" where
  "demo_work h = Inr (PDict [(PStr ''ok'', PBool True)])"

definition demo_evidence :: evidence where
  "demo_evidence = [(''ok'', PBool True), (''agent_id'', PStr ''planner#t1#1''), (''context_digest'', PStr zeros64)]"

definition demo_done :: agent_conclusion where
  "demo_done = \<lparr>concl_agent_id = ''planner#t1#1'', concl_role = ''planner'', concl_ticket = ''t1'', concl_step = ''s'',
     concl_kind = ''plan'', context_digest = zeros64, outcome = ''completed'', concl_evidence = demo_evidence, detail = [],
     concl_digest = zeros64\<rparr>"

abbreviation demo_spawned :: "write_board option \<Rightarrow> team" where
  "demo_spawned b \<equiv> (demo_team b)
     \<lparr>team_registry := \<lparr>identities = [(''planner#t1#1'', demo_planner)], ordinals = [((''planner'', ''t1''), 1)]\<rparr>,
      team_handles := [(''planner#t1#1'', demo_handle)]\<rparr>"

lemma demo_ticket: "is_valid_ticket_id (PStr ''t1'')"
  by code_simp

lemma demo_mk_team:
  "mk_team demo_env (PStr ''t1'') PNone None (Some demo_scope) (PInt 1) (PInt 4) = Inr (demo_team None)"
  by (simp add: mk_team_def demo_ticket MAX_PARALLEL_CEILING_def mk_ledger_def demo_team_def Let_def)

lemma demo_mk_team_leased:
  "mk_team demo_env (PStr ''t1'') (PPath demo_lease_dir) None (Some demo_scope) (PInt 1) (PInt 4) = Inr (demo_team (Some demo_board))"
proof -
  have "mk_board (PPath demo_lease_dir) = Inr demo_board" by (simp add: mk_board_def demo_board_def)
  moreover have "lease_dir_inside Some (Some (scope_root demo_scope)) (PPath demo_lease_dir) = Inr False"
    by (simp add: lease_dir_inside_def path_of_arg_def path_parents_def demo_lease_dir_def demo_scope_def)
  ultimately show ?thesis
    by (simp add: mk_team_def demo_ticket MAX_PARALLEL_CEILING_def mk_ledger_def demo_team_def Let_def demo_env_def)
qed

lemma demo_spawn_planner: "spawn empty_registry (PStr ''planner'') (PStr ''t1'') =
    (Inr demo_planner, \<lparr>identities = [(''planner#t1#1'', demo_planner)], ordinals = [((''planner'', ''t1''), 1)]\<rparr>)"
proof -
  have "plain_ticket ''t1''" by code_simp
  then show ?thesis
    unfolding spawn_Inr_iff [OF registry_inv_empty]
    by (simp add: role_names_def role_names_defs empty_registry_def dict_get_or_def demo_planner_def
        format_agent_id_def string_of_int_def string_of_nat_one)
qed

lemma demo_planner_role: "role (PStr ''planner'') = Inr \<lparr>role_name = ''planner'', role_may_write = False, conclusions_kind = ''plan''\<rparr>"
  by (simp add: role_def ROLES_TABLE_def role_names_defs)

lemma demo_scope_planner:
  "derive_agent_guard_scope Some demo_scope (PStr ''planner'') = Inr (demo_scope\<lparr>allowed_write_roots := Some []\<rparr>)"
  by (simp add: derive_agent_guard_scope_def demo_planner_role scope_post_init_def resolve_all_def resolve_some_def demo_scope_def)

lemma demo_team_spawn: "team_spawn demo_env (PStr ''planner'') (demo_team b) = (Inr demo_handle, demo_spawned b)"
proof -
  have e: "env_resolve demo_env = Some" "\<And>x. env_sha256 demo_env x = zeros64" by (simp_all add: demo_env_def)
  show ?thesis
    by (simp add: team_spawn_def demo_team_def demo_spawn_planner option_res_def boundary_digest_def e demo_scope_planner
        scope_fingerprint_def demo_handle_def demo_planner_def Let_def)
qed

lemma demo_bounded: "bounded_evidence (\<lambda>_. []) (merge_evidence demo_planner zeros64 [(PStr ''ok'', PBool True)]) = Inr demo_evidence"
  unfolding zeros64_def demo_evidence_def demo_planner_def merge_evidence_def by code_simp

lemma demo_planner_run:
  "run demo_env ans (Some demo_handle) demo_work (PStr ''s'') PNone (demo_spawned b, fs) =
    (Inr demo_done, (demo_spawned b)\<lparr>team_ledger := \<lparr>ledger_limit = 4, entries = [demo_done], digests = [zeros64]\<rparr>\<rparr>, fs)"
proof -
  have z: "list_all is_lower_hex zeros64" "length zeros64 = 64" "zeros64 \<noteq> []"
    by (simp_all add: zeros64_def list_all_iff is_lower_hex_def)
  have e: "env_frepr demo_env = (\<lambda>_. [])" "env_sha256 demo_env = (\<lambda>_. zeros64)" by (simp_all add: demo_env_def)
  have mk: "mk_AgentConclusion (\<lambda>_. zeros64) (\<lambda>_. []) (PStr ''planner#t1#1'') (PStr ''planner'') (PStr ''t1'') (PStr ''s'') (PStr ''plan'')
     (PStr zeros64) ''completed'' (merge_evidence demo_planner zeros64 [(PStr ''ok'', PBool True)]) [] = Inr demo_done"
    unfolding mk_AgentConclusion_def demo_parse bindr_simps demo_planner_role
    by (simp add: z demo_bounded conclusion_limits OUTCOMES_def demo_done_def text_of_str_def conclusion_digest_def)
  have w: "run_work demo_env demo_planner demo_handle demo_work ''s'' ''plan'' \<lparr>ledger_limit = 4, entries = [], digests = []\<rparr> =
      (Inr demo_done, \<lparr>ledger_limit = 4, entries = [demo_done], digests = [zeros64]\<rparr>)"
    using mk by (simp add: run_work_def record_conclusion_def demo_handle_def demo_work_def demo_planner_def z e ledger_record_def
        demo_done_def Let_def)
  have rq: "require_handle (demo_spawned b) (Some demo_handle) = Inr demo_planner"
    by (simp add: require_handle_def require_def identity_def demo_handle_def demo_planner_def)
  have st: "validate_step (PStr ''s'') = Inr ''s''" by code_simp
  have ck: "assert_conclusion_kind (team_registry (demo_spawned b)) (Some demo_planner) (PStr ''plan'') = Inr ''plan''"
    by (simp add: assert_conclusion_kind_def identity_def demo_planner_def demo_planner_role)
  have i: "ident_role demo_planner = ''planner''" by (simp add: demo_planner_def)
  show ?thesis
    unfolding run_def prod.case rq sum.case option.case st i demo_planner_role Let_def agent_role.simps ck
    using w by (simp add: demo_team_def)
qed

theorem run_leaves_no_lease_witness:
  "\<exists>res tm' fs'. run demo_env demo_os (Some demo_handle) demo_work (PStr ''s'') (PStr ''a'') (demo_team (Some demo_board), no_files)
      = (res, tm', fs') \<and> map_option held (team_leases tm') = Some [] \<and> file_locks fs' = file_locks no_files"
proof -
  obtain res tm' fs' where r: "run demo_env demo_os (Some demo_handle) demo_work (PStr ''s'') (PStr ''a'')
      (demo_team (Some demo_board), no_files) = (res, tm', fs')" by (metis prod_cases3)
  have h: "held demo_board = []" by (rule held_empty [of "PPath demo_lease_dir"]) (simp add: mk_board_def demo_board_def)
  from run_leaves_no_lease [OF demo_mk_team_leased, of demo_os _ demo_work _ _ "[]", unfolded team_run_def fold_simps id_apply, OF r] r h
  show ?thesis by (auto simp: demo_team_def)
qed

abbreviation demo_team_ops :: "team_op list" where
  "demo_team_ops \<equiv> [Spawn_op (PStr ''planner''), Run_op demo_os (Some demo_handle) demo_work (PStr ''s'') PNone]"

lemma demo_team_run:
  "team_run demo_env demo_team_ops (demo_team b, fs) =
    ((demo_spawned b)\<lparr>team_ledger := \<lparr>ledger_limit = 4, entries = [demo_done], digests = [zeros64]\<rparr>\<rparr>, fs)"
  by (simp add: team_run_def demo_team_spawn demo_planner_run)

lemma demo_gate:
  "step_gate ((demo_spawned b)\<lparr>team_ledger := \<lparr>ledger_limit = 4, entries = [demo_done], digests = [zeros64]\<rparr>\<rparr>) (PStr ''s'')
     (PDict [(PStr ''planner'', PStr ''plan'')]) =
   Inr \<lparr>gate_ok = True, gate_required = [''planner:plan''], gate_satisfied = [''planner:plan''], gate_missing = []\<rparr>"
proof -
  have st: "validate_step (PStr ''s'') = Inr ''s''" by code_simp
  show ?thesis
    by (simp add: step_gate_def st demo_planner_role has_completed_def demo_done_def Let_def)
qed

theorem gate_opens_iff_roles_completed_witness:
  "\<exists>c\<in>{demo_done}. outcome c = ''completed'' \<and> concl_evidence c \<noteq> [] \<and> concl_role c = ''planner''"
proof -
  have st: "validate_step (PStr ''s'') = Inr ''s''" by code_simp
  from gate_opens_iff_roles_completed [OF demo_mk_team demo_team_run demo_gate st] show ?thesis by simp
qed

theorem gate_stays_open_witness:
  "\<exists>rc. step_gate (fst (team_run demo_env [] (team_run demo_env demo_team_ops (demo_team None, no_files)))) (PStr ''s'')
      (PDict [(PStr ''planner'', PStr ''plan'')]) = Inr rc \<and> gate_ok rc"
proof -
  have g: "step_gate (fst (team_run demo_env demo_team_ops (demo_team None, no_files))) (PStr ''s'') (PDict [(PStr ''planner'', PStr ''plan'')]) =
     Inr \<lparr>gate_ok = True, gate_required = [''planner:plan''], gate_satisfied = [''planner:plan''], gate_missing = []\<rparr>"
    unfolding demo_team_run fst_conv by (rule demo_gate)
  then have g': "step_gate (fst (team_run demo_env [] (team_run demo_env demo_team_ops (demo_team None, no_files)))) (PStr ''s'')
      (PDict [(PStr ''planner'', PStr ''plan'')]) =
     Inr \<lparr>gate_ok = True, gate_required = [''planner:plan''], gate_satisfied = [''planner:plan''], gate_missing = []\<rparr>"
    by (simp add: team_run_def)
  from gate_stays_open [OF demo_mk_team g _ g'] g' show ?thesis by simp
qed

theorem completed_run_is_attributed_witness:
  "dict_get (concl_evidence demo_done) ''agent_id'' = Some (PStr ''planner#t1#1'')"
proof -
  have r: "run demo_env demo_os (Some demo_handle) demo_work (PStr ''s'') PNone
      (team_run demo_env [Spawn_op (PStr ''planner'')] (demo_team None, no_files)) =
    (Inr demo_done, (demo_spawned None)\<lparr>team_ledger := \<lparr>ledger_limit = 4, entries = [demo_done], digests = [zeros64]\<rparr>\<rparr>, no_files)"
    by (simp add: team_run_def demo_team_spawn demo_planner_run)
  have "outcome demo_done = ''completed''" by (simp add: demo_done_def)
  from completed_run_is_attributed [OF demo_mk_team r this] show ?thesis
    by (simp add: demo_work_def dict_ok_def demo_handle_def demo_planner_def)
qed

theorem region_discipline_witness:
  "run demo_env demo_os (Some demo_handle) demo_work (PStr ''s'') (PStr ''a'') (demo_spawned None, no_files) =
    (Inl (RoleError ''role_write_denied''), demo_spawned None, no_files)"
proof -
  have i: "registry_inv (team_registry (demo_spawned None))"
    using registry_inv_spawn [OF registry_inv_empty, of "PStr ''planner''" "PStr ''t1''"] by (simp add: demo_spawn_planner)
  have rq: "require_handle (demo_spawned None) (Some demo_handle) = Inr demo_planner"
    by (simp add: require_handle_def require_def identity_def demo_handle_def demo_planner_def)
  have st: "validate_step (PStr ''s'') = Inr ''s''" by code_simp
  from region_discipline [OF i rq st, of "PStr ''a''"] show ?thesis
    by (simp add: demo_planner_def ROLE_EXECUTOR_def)
qed

end
