(* ===== verification/Network_Lease.thy ===== *)
theory Network_Lease
  imports Sandbox_Policy
begin

text \<open>
  \<^verbatim>\<open>src/icode/network_lease.py\<close>, the data: a temporary network lease, its validation, the checks of a
  live lease against a deny-only policy and a request, the payload the host signs, and the issued
  lease. The authority that issues and revokes leases is in \<open>Network_Authority\<close>. SHA-256 and HMAC
  are arguments.
\<close>

definition NETWORK_LEASE_SCHEMA_VERSION :: int where
  "NETWORK_LEASE_SCHEMA_VERSION = 2"

definition NANOSECONDS_PER_SECOND :: int where
  "NANOSECONDS_PER_SECOND = 1000000000"

definition MAX_NETWORK_LEASE_TTL_SECONDS :: int where
  "MAX_NETWORK_LEASE_TTL_SECONDS = 15 * 60"

definition MAX_NETWORK_LEASE_TTL_NS :: int where
  "MAX_NETWORK_LEASE_TTL_NS = MAX_NETWORK_LEASE_TTL_SECONDS * NANOSECONDS_PER_SECOND"

definition MAX_NETWORK_LEASE_DOMAINS :: nat where
  "MAX_NETWORK_LEASE_DOMAINS = 32"

definition HTTPS_PORT :: int where
  "HTTPS_PORT = 443"

lemmas lease_limits = NETWORK_LEASE_SCHEMA_VERSION_def NANOSECONDS_PER_SECOND_def MAX_NETWORK_LEASE_TTL_SECONDS_def
  MAX_NETWORK_LEASE_TTL_NS_def MAX_NETWORK_LEASE_DOMAINS_def HTTPS_PORT_def

definition hex_lower :: "char \<Rightarrow> bool" where
  "hex_lower c \<longleftrightarrow> c \<in> set ''0123456789abcdef''"

definition LEASE_ID_PATTERN :: regex where
  "LEASE_ID_PATTERN = rrange 32 32 (RCls hex_lower)"

definition POLICY_HASH_PATTERN :: regex where
  "POLICY_HASH_PATTERN = rrange 64 64 (RCls hex_lower)"

definition SIGNATURE_PATTERN :: regex where
  "SIGNATURE_PATTERN = rrange 64 64 (RCls hex_lower)"

definition lease_error :: "string \<Rightarrow> exc" where
  "lease_error msg = NetworkLeaseValidationError msg"

datatype network_purpose = PACKAGE_INSTALL | WEB_READ

definition purpose_value :: "network_purpose \<Rightarrow> string" where
  "purpose_value p = (case p of PACKAGE_INSTALL \<Rightarrow> ''package_install'' | WEB_READ \<Rightarrow> ''web_read'')"

definition purpose_of_value :: "string \<Rightarrow> network_purpose option" where
  "purpose_of_value s =
     (if s = ''package_install'' then Some PACKAGE_INSTALL else if s = ''web_read'' then Some WEB_READ else None)"

definition as_purpose :: "pyval \<Rightarrow> network_purpose option" where
  "as_purpose v = (case v of PEnum c s \<Rightarrow> if c = ''NetworkPurpose'' then purpose_of_value s else None | _ \<Rightarrow> None)"

abbreviation purpose_arg :: "network_purpose \<Rightarrow> pyval" where
  "purpose_arg p \<equiv> PEnum ''NetworkPurpose'' (purpose_value p)"

lemma as_purpose_arg [simp]: "as_purpose (purpose_arg p) = Some p"
  by (cases p) (simp_all add: as_purpose_def purpose_value_def purpose_of_value_def)

section \<open>The lease\<close>

text \<open>The arguments of the constructor before their types are checked.\<close>

record lease_args =
  larg_schema_version :: pyval
  larg_lease_id :: pyval
  larg_approval_id :: pyval
  larg_run_id :: pyval
  larg_ticket_id :: pyval
  larg_step :: pyval
  larg_policy_hash :: pyval
  larg_purpose :: pyval
  larg_allowed_domains :: pyval
  larg_port :: pyval
  larg_issued_at :: pyval
  larg_expires_at :: pyval
  larg_generation :: pyval

record network_lease =
  lease_schema_version :: int
  lease_id :: string
  approval_id :: string
  lease_run_id :: string
  lease_ticket_id :: string
  lease_step :: string
  lease_policy_hash :: string
  lease_purpose :: network_purpose
  lease_domains :: "string list"
  lease_port :: int
  issued_at :: int
  expires_at :: int
  lease_generation :: int

definition lease_declared_types :: "lease_args \<Rightarrow> unit res" where
  "lease_declared_types a =
     first_err (
       [raise_when (as_int (larg_schema_version a) = None) (lease_error ''schema_version must be an integer''),
        raise_when (as_str (larg_lease_id a) = None) (lease_error ''lease_id must be a string''),
        raise_when (as_str (larg_approval_id a) = None) (lease_error ''approval_id must be a string'')]
       @ map (\<lambda>(name, v). raise_when (as_str v = None) (lease_error (name @ '' must be a string'')))
           [(''run_id'', larg_run_id a), (''ticket_id'', larg_ticket_id a), (''step'', larg_step a),
            (''policy_hash'', larg_policy_hash a)]
       @ [raise_when (as_purpose (larg_purpose a) = None) (lease_error ''purpose must be a NetworkPurpose''),
          raise_when (tuple_items as_str (larg_allowed_domains a) = None)
            (lease_error ''allowed_domains must be a tuple of strings'')]
       @ map (\<lambda>(name, v). raise_when (as_int v = None) (lease_error (name @ '' must be an integer'')))
           [(''port'', larg_port a), (''issued_at_monotonic_ns'', larg_issued_at a),
            (''expires_at_monotonic_ns'', larg_expires_at a), (''generation'', larg_generation a)])"

definition typed_lease :: "lease_args \<Rightarrow> network_lease option" where
  "typed_lease a =
     (case (as_int (larg_schema_version a), as_str (larg_lease_id a), as_str (larg_approval_id a), as_str (larg_run_id a),
            as_str (larg_ticket_id a), as_str (larg_step a), as_str (larg_policy_hash a)) of
        (Some sv, Some lid, Some aid, Some rid, Some tid, Some st, Some ph) \<Rightarrow>
     (case (as_purpose (larg_purpose a), tuple_items as_str (larg_allowed_domains a), as_int (larg_port a),
            as_int (larg_issued_at a), as_int (larg_expires_at a), as_int (larg_generation a)) of
        (Some p, Some ds, Some pt, Some t0, Some t1, Some g) \<Rightarrow>
          Some \<lparr>lease_schema_version = sv, lease_id = lid, approval_id = aid, lease_run_id = rid, lease_ticket_id = tid,
                lease_step = st, lease_policy_hash = ph, lease_purpose = p, lease_domains = ds, lease_port = pt,
                issued_at = t0, expires_at = t1, lease_generation = g\<rparr>
      | _ \<Rightarrow> None)
      | _ \<Rightarrow> None)"

definition check_lease_text :: "string \<times> string \<Rightarrow> unit res" where
  "check_lease_text nv = (case nv of (name, v) \<Rightarrow>
     first_err
       [raise_when (\<not> list_all is_scalar v) (lease_error (name @ '' must contain UTF-8 encodable Unicode scalars'')),
        raise_when (strip v = [] \<or> list_ex is_ascii_control v)
          (lease_error (name @ '' must be non-blank and contain no ASCII control characters''))])"

text \<open>\<^verbatim>\<open>NetworkLease.validate\<close>; the declared types hold of the record.\<close>

definition validate_lease :: "network_lease \<Rightarrow> unit res" where
  "validate_lease l =
     first_err (
       [raise_when (lease_schema_version l \<noteq> NETWORK_LEASE_SCHEMA_VERSION)
          (lease_error ''unsupported network lease schema_version''),
        raise_when (\<not> re_fullmatch LEASE_ID_PATTERN (lease_id l)) (lease_error ''lease_id must be 32 lowercase hex characters''),
        raise_when (approval_id l = [] \<or> 256 < length (approval_id l))
          (lease_error ''approval_id must be non-blank and bounded'')]
       @ map check_lease_text
           [(''approval_id'', approval_id l), (''run_id'', lease_run_id l), (''ticket_id'', lease_ticket_id l),
            (''step'', lease_step l)]
       @ [raise_when (\<not> re_fullmatch POLICY_HASH_PATTERN (lease_policy_hash l))
            (lease_error ''policy_hash must be a lowercase SHA-256 hex digest''),
          raise_when (lease_domains l = [] \<or> \<not> list_all is_exact_dns_hostname (lease_domains l))
            (lease_error ''allowed_domains must contain exact ASCII DNS hostnames''),
          raise_when (MAX_NETWORK_LEASE_DOMAINS < length (lease_domains l))
            (lease_error ''a network lease may contain at most 32 domains''),
          raise_when (lease_port l \<noteq> HTTPS_PORT)
            (lease_error ''temporary network leases currently require HTTPS port 443''),
          raise_when (issued_at l \<le> 0) (lease_error ''issued_at_monotonic_ns must be positive''),
          raise_when (expires_at l \<le> issued_at l) (lease_error ''lease expiry must follow its issue time''),
          raise_when (MAX_NETWORK_LEASE_TTL_NS < expires_at l - issued_at l)
            (lease_error ''network lease lifetime exceeds 15 minutes''),
          raise_when (lease_generation l \<le> 0) (lease_error ''generation must be a positive integer'')])"

definition canonical_domains :: "string list \<Rightarrow> string list" where
  "canonical_domains ds = sorted_set (map (\<lambda>d. if is_exact_dns_hostname d then lower d else d) ds)"

text \<open>\<^verbatim>\<open>NetworkLease.__post_init__\<close>.\<close>

definition mk_network_lease :: "lease_args \<Rightarrow> network_lease res" where
  "mk_network_lease a =
     bindr (lease_declared_types a) (\<lambda>_.
     case typed_lease a of None \<Rightarrow> Inl (PyTypeError ''unreachable'') | Some l \<Rightarrow>
     let l' = l\<lparr>lease_domains := canonical_domains (lease_domains l)\<rparr>
     in bindr (validate_lease l') (\<lambda>_. Inr l'))"

section \<open>Live leases\<close>

definition deny_only :: "sandbox_policy \<Rightarrow> bool" where
  "deny_only p \<longleftrightarrow> network_mode p = DENY \<and> allowed_domains p = []"

definition checked_policy :: "string \<Rightarrow> sandbox_policy option \<Rightarrow> sandbox_policy res" where
  "checked_policy msg arg =
     (case arg of None \<Rightarrow> Inl (lease_error ''a valid SandboxPolicy is required'') | Some p \<Rightarrow>
     (case validate p of Inl _ \<Rightarrow> Inl (lease_error ''sandbox policy is invalid'') | Inr _ \<Rightarrow>
      if \<not> deny_only p then Inl (lease_error msg) else Inr p))"

definition validate_scope ::
  "(string \<Rightarrow> string) \<Rightarrow> network_lease \<Rightarrow> sandbox_policy option \<Rightarrow> pyval \<Rightarrow> pyval \<Rightarrow> int \<Rightarrow> unit res" where
  "validate_scope sha256 l arg purpose now gen =
     bindr (validate_lease l) (\<lambda>_.
     bindr (checked_policy ''network lease must overlay a deny-only sandbox policy'' arg) (\<lambda>p.
     first_err
       [raise_when (lease_run_id l \<noteq> run_id p \<or> lease_ticket_id l \<noteq> ticket_id p \<or> lease_step l \<noteq> step p
            \<or> lease_policy_hash l \<noteq> policy_hash sha256 p)
          (lease_error ''network lease is bound to a different policy''),
        raise_when (as_purpose purpose \<noteq> Some (lease_purpose l)) (lease_error ''request purpose differs from the lease''),
        (case now of
           PInt t \<Rightarrow> if t < 0 then Inl (lease_error ''now_monotonic_ns must be a non-negative integer'')
             else raise_when (\<not> (issued_at l \<le> t \<and> t < expires_at l)) (lease_error ''network lease is not currently active'')
         | _ \<Rightarrow> Inl (lease_error ''now_monotonic_ns must be a non-negative integer'')),
        raise_when (gen \<noteq> lease_generation l) (lease_error ''network lease generation was revoked or replaced'')]))"

definition check_target :: "network_lease \<Rightarrow> pyval \<Rightarrow> pyval \<Rightarrow> unit res" where
  "check_target l hostname port =
     (case hostname of
        PStr h \<Rightarrow>
          if \<not> is_exact_dns_hostname h then Inl (lease_error ''request hostname must be an exact DNS hostname'')
          else if lower h \<notin> set (lease_domains l) then Inl (lease_error ''request hostname is not authorized by the lease'')
          else raise_when (port \<noteq> PInt (lease_port l)) (lease_error ''request port is not authorized by the lease'')
      | _ \<Rightarrow> Inl (lease_error ''request hostname must be an exact DNS hostname''))"

definition validate_request ::
  "(string \<Rightarrow> string) \<Rightarrow> network_lease \<Rightarrow> sandbox_policy option \<Rightarrow> pyval \<Rightarrow> pyval \<Rightarrow> pyval \<Rightarrow> pyval \<Rightarrow> int \<Rightarrow> unit res" where
  "validate_request sha256 l arg purpose hostname port now gen =
     bindr (validate_scope sha256 l arg purpose now gen) (\<lambda>_. check_target l hostname port)"

section \<open>The signed payload\<close>

definition payload_fields :: "network_lease \<Rightarrow> (string \<times> pyval) list" where
  "payload_fields l =
     [(''schema_version'', PInt (lease_schema_version l)), (''lease_id'', PStr (lease_id l)),
      (''approval_id'', PStr (approval_id l)), (''run_id'', PStr (lease_run_id l)), (''ticket_id'', PStr (lease_ticket_id l)),
      (''step'', PStr (lease_step l)), (''policy_hash'', PStr (lease_policy_hash l)),
      (''purpose'', PStr (purpose_value (lease_purpose l))), (''allowed_domains'', PList (map PStr (lease_domains l))),
      (''port'', PInt (lease_port l)), (''issued_at_monotonic_ns'', PInt (issued_at l)),
      (''expires_at_monotonic_ns'', PInt (expires_at l)), (''generation'', PInt (lease_generation l))]"

definition canonical_payload :: "network_lease \<Rightarrow> string res" where
  "canonical_payload l =
     bindr (validate_lease l) (\<lambda>_. dumps (\<lambda>_. []) True [] (PDict (map (\<lambda>(k, v). (PStr k, v)) (payload_fields l))))"

record issued_lease =
  lease :: network_lease
  signature :: string

definition mk_issued_lease :: "network_lease option \<Rightarrow> pyval \<Rightarrow> issued_lease res" where
  "mk_issued_lease arg sig =
     (case arg of None \<Rightarrow> Inl (lease_error ''issued lease payload is invalid'') | Some l \<Rightarrow>
     (case sig of
        PStr s \<Rightarrow> if re_fullmatch SIGNATURE_PATTERN s then Inr \<lparr>lease = l, signature = s\<rparr>
          else Inl (lease_error ''lease signature must be a SHA-256 HMAC hex digest'')
      | _ \<Rightarrow> Inl (lease_error ''lease signature must be a SHA-256 HMAC hex digest'')))"

section \<open>What the checks accept\<close>

definition lease_text :: "string \<Rightarrow> bool" where
  "lease_text v \<longleftrightarrow> list_all is_scalar v \<and> visible_text v"

definition valid_lease :: "network_lease \<Rightarrow> bool" where
  "valid_lease l \<longleftrightarrow>
     lease_schema_version l = 2 \<and> length (lease_id l) = 32 \<and> list_all hex_lower (lease_id l)
     \<and> approval_id l \<noteq> [] \<and> length (approval_id l) \<le> 256
     \<and> lease_text (approval_id l) \<and> lease_text (lease_run_id l) \<and> lease_text (lease_ticket_id l) \<and> lease_text (lease_step l)
     \<and> length (lease_policy_hash l) = 64 \<and> list_all hex_lower (lease_policy_hash l)
     \<and> lease_domains l \<noteq> [] \<and> list_all is_exact_dns_hostname (lease_domains l) \<and> length (lease_domains l) \<le> 32
     \<and> lease_port l = 443 \<and> 0 < issued_at l \<and> issued_at l < expires_at l
     \<and> expires_at l \<le> issued_at l + 900000000000 \<and> 0 < lease_generation l"

lemma check_lease_text_iff [simp]: "check_lease_text (n, v) = Inr () \<longleftrightarrow> lease_text v"
  by (auto simp: check_lease_text_def lease_text_def visible_text_def)

lemma pattern_iffs:
  "re_fullmatch LEASE_ID_PATTERN s \<longleftrightarrow> length s = 32 \<and> list_all hex_lower s"
  "re_fullmatch POLICY_HASH_PATTERN s \<longleftrightarrow> length s = 64 \<and> list_all hex_lower s"
  "re_fullmatch SIGNATURE_PATTERN s \<longleftrightarrow> length s = 64 \<and> list_all hex_lower s"
  by (auto simp: LEASE_ID_PATTERN_def POLICY_HASH_PATTERN_def SIGNATURE_PATTERN_def re_fullmatch_rrange)

lemma validate_lease_iff: "validate_lease l = Inr () \<longleftrightarrow> valid_lease l"
  unfolding validate_lease_def valid_lease_def pattern_iffs by (auto simp: lease_limits)

lemma deny_only_iff: "validate p = Inr () \<Longrightarrow> deny_only p \<longleftrightarrow> network_mode p = DENY"
  by (auto simp: deny_only_def validate_iff)

lemma checked_policy_Inr: "checked_policy msg arg = Inr p \<longleftrightarrow> arg = Some p \<and> validate p = Inr () \<and> deny_only p"
  by (auto simp: checked_policy_def split: option.splits sum.splits)

definition lease_bound :: "(string \<Rightarrow> string) \<Rightarrow> network_lease \<Rightarrow> sandbox_policy \<Rightarrow> bool" where
  "lease_bound sha256 l p \<longleftrightarrow> lease_run_id l = run_id p \<and> lease_ticket_id l = ticket_id p \<and> lease_step l = step p
     \<and> lease_policy_hash l = policy_hash sha256 p"

lemma validate_scope_iff:
  "validate_scope sha256 l arg purpose now gen = Inr () \<longleftrightarrow>
     valid_lease l \<and> (\<exists>p. arg = Some p \<and> validate p = Inr () \<and> deny_only p \<and> lease_bound sha256 l p)
     \<and> as_purpose purpose = Some (lease_purpose l) \<and> gen = lease_generation l
     \<and> (\<exists>t. now = PInt t \<and> 0 \<le> t \<and> issued_at l \<le> t \<and> t < expires_at l)"
  unfolding validate_scope_def
  by (auto simp: validate_lease_iff checked_policy_Inr lease_bound_def split: pyval.splits if_splits)

lemma check_target_iff:
  "check_target l hostname port = Inr () \<longleftrightarrow>
     (\<exists>h. hostname = PStr h \<and> is_exact_dns_hostname h \<and> lower h \<in> set (lease_domains l)) \<and> port = PInt (lease_port l)"
  by (cases hostname) (auto simp: check_target_def)

lemma validate_request_iff:
  "validate_request sha256 l arg purpose hostname port now gen = Inr () \<longleftrightarrow>
     validate_scope sha256 l arg purpose now gen = Inr () \<and> check_target l hostname port = Inr ()"
  by (simp add: validate_request_def)

lemma mk_network_lease_valid:
  assumes "mk_network_lease a = Inr l"
  shows "valid_lease l \<and> sorted (lease_domains l) \<and> distinct (lease_domains l)"
  using assms by (auto simp: mk_network_lease_def Let_def validate_lease_iff canonical_domains_def split: option.splits)

text \<open>The payload determines the lease.\<close>

definition payload_wire :: "network_lease \<Rightarrow> (string \<times> json) list" where
  "payload_wire l =
     [(''schema_version'', JInt (lease_schema_version l)), (''lease_id'', JStr (lease_id l)),
      (''approval_id'', JStr (approval_id l)), (''run_id'', JStr (lease_run_id l)), (''ticket_id'', JStr (lease_ticket_id l)),
      (''step'', JStr (lease_step l)), (''policy_hash'', JStr (lease_policy_hash l)),
      (''purpose'', JStr (purpose_value (lease_purpose l))), (''allowed_domains'', JList (map JStr (lease_domains l))),
      (''port'', JInt (lease_port l)), (''issued_at_monotonic_ns'', JInt (issued_at l)),
      (''expires_at_monotonic_ns'', JInt (expires_at l)), (''generation'', JInt (lease_generation l))]"

lemma canonical_payload_eq:
  "canonical_payload l = Inr x \<longleftrightarrow> valid_lease l \<and> x = render True [] (JObj (sort_key fst (payload_wire l)))"
proof -
  have j: "json_of f (PDict (map (\<lambda>(k, v). (PStr k, v)) (payload_fields l))) = Some (JObj (payload_wire l))" for f
    by (simp add: payload_fields_def payload_wire_def)
  have s: "map (\<lambda>(k, v). (k, sort_keys v)) (payload_wire l) = payload_wire l" by (simp add: payload_wire_def)
  show ?thesis unfolding canonical_payload_def dumps_def j by (auto simp: validate_lease_iff s)
qed

lemma purpose_value_inj [simp]: "purpose_value p = purpose_value q \<longleftrightarrow> p = q"
  by (cases p; cases q) (simp_all add: purpose_value_def)

lemma canonical_payload_inj:
  assumes "canonical_payload l = Inr x" and "canonical_payload m = Inr x"
  shows "l = m"
proof -
  have ff: "float_free (JObj (sort_key fst (payload_wire l)))" for l
  proof -
    have "list_all (\<lambda>(k, v). float_free v) (payload_wire l)" by (simp add: payload_wire_def list_all_iff)
    then show ?thesis by (simp add: list_all_iff)
  qed
  have "render True [] (JObj (sort_key fst (payload_wire l))) = render True [] (JObj (sort_key fst (payload_wire m)))"
    using assms unfolding canonical_payload_eq by metis
  then have "sort_key fst (payload_wire l) = sort_key fst (payload_wire m)"
    using render_inj [OF ff ff] by blast
  then have "set (payload_wire l) = set (payload_wire m)" by (metis set_sort)
  moreover have "distinct (map fst (payload_wire l))" for l by (simp add: payload_wire_def)
  ultimately have f: "map_of (payload_wire l) k = map_of (payload_wire m) k" for k
    using map_of_inject_set by metis
  show ?thesis
    using f [of "''schema_version''"] f [of "''lease_id''"] f [of "''approval_id''"] f [of "''run_id''"] f [of "''ticket_id''"]
      f [of "''step''"] f [of "''policy_hash''"] f [of "''purpose''"] f [of "''allowed_domains''"] f [of "''port''"]
      f [of "''issued_at_monotonic_ns''"] f [of "''expires_at_monotonic_ns''"] f [of "''generation''"]
    by (intro network_lease.equality) (simp_all add: payload_wire_def)
qed

end
