(* ===== verification/Approvals.thy ===== *)
theory Approvals
  imports Py_Prelude
begin

text \<open>
  \<^verbatim>\<open>src/icode/approvals.py\<close>: the request put before a person and the three approvers. The text shown
  to the person is output only and is not modelled; the reason is free text. The words of
  \<open>AFFIRMATIVE\<close> outside the code points 0 to 255 cannot occur in a modelled answer.
\<close>

record approval_request =
  req_tool :: string
  req_arguments :: "(string, pyval) dict"
  req_opclass :: string
  req_workspace :: string

definition AFFIRMATIVE :: "string set" where
  "AFFIRMATIVE = {''y'', ''yes'', ''ok''}"

definition deny_all_ask :: "approval_request \<Rightarrow> bool" where
  "deny_all_ask r = False"

text \<open>\<open>None\<close> is an end of input or an interrupt.\<close>

definition cli_ask :: "string option \<Rightarrow> approval_request \<Rightarrow> bool" where
  "cli_ask answer r = (case answer of None \<Rightarrow> False | Some a \<Rightarrow> lower (strip a) \<in> AFFIRMATIVE)"

record scripted_approver =
  answers :: "bool list"
  default_answer :: bool
  seen :: "approval_request list"

definition scripted_ask :: "approval_request \<Rightarrow> scripted_approver \<Rightarrow> bool \<times> scripted_approver" where
  "scripted_ask r a =
     (let a1 = a\<lparr>seen := seen a @ [r]\<rparr> in
      case answers a1 of [] \<Rightarrow> (default_answer a1, a1) | b # bs \<Rightarrow> (b, a1\<lparr>answers := bs\<rparr>))"

fun scripted_asks :: "approval_request list \<Rightarrow> scripted_approver \<Rightarrow> bool list \<times> scripted_approver" where
  "scripted_asks [] a = ([], a)"
| "scripted_asks (r # rs) a =
     (case scripted_ask r a of (b, a1) \<Rightarrow> (case scripted_asks rs a1 of (bs, a2) \<Rightarrow> (b # bs, a2)))"

text \<open>A script is answered in order, then by the default, and every request is seen.\<close>

lemma scripted_asks_eq:
  "scripted_asks rs a =
    (take (length rs) (answers a) @ replicate (length rs - length (answers a)) (default_answer a),
     a\<lparr>answers := drop (length rs) (answers a), seen := seen a @ rs\<rparr>)"
proof (induction rs arbitrary: a)
  case (Cons r rs)
  show ?case
    by (cases "answers a") (simp_all add: scripted_ask_def Cons.IH Let_def)
qed simp

lemma cli_ask_default: "strip a = [] \<Longrightarrow> \<not> cli_ask (Some a) r"
  by (simp add: cli_ask_def AFFIRMATIVE_def lower_def)

end
