(* ===== verification/Network_Authority.thy ===== *)
theory Network_Authority
  imports Network_Lease Approvals
begin

text \<open>
  \<^verbatim>\<open>src/icode/network_lease.py\<close>, the authority: it asks for approval, signs leases, registers the
  connections of a trusted proxy, closes them on expiry and revocation, and keeps a scope closed until
  that is confirmed. Every critical section under the authority's lock is one function on the state;
  the public operations compose them, and \<open>auth_step\<close> interleaves them for any number of threads.
  Random tokens, the clock, the approver, HMAC and the answers of close and release callbacks are
  arguments.
\<close>

type_synonym policy_key = "string \<times> string \<times> string \<times> string"

record net_env =
  net_sha256 :: "string \<Rightarrow> string"
  net_hmac :: "string \<Rightarrow> string \<Rightarrow> string"

text \<open>A handle is compared by object identity, which the serial number stands for.\<close>

record conn_handle =
  connection_id :: string
  handle_serial :: nat

record connection =
  conn_handle :: conn_handle
  conn_key :: policy_key
  conn_lease :: network_lease
  close_callback :: nat
  release_callback :: "nat option"
  conn_pending :: bool
  conn_closing :: bool

record authority =
  auth_key :: string
  generations :: "(policy_key, int) dict"
  revoking :: "policy_key set"
  active_connections :: "(string, connection) dict"
  next_serial :: nat

definition mk_authority :: "string \<Rightarrow> authority" where
  "mk_authority key = \<lparr>auth_key = key, generations = [], revoking = {}, active_connections = [], next_serial = 0\<rparr>"

definition policy_key :: "net_env \<Rightarrow> sandbox_policy option \<Rightarrow> policy_key res" where
  "policy_key env arg =
     bindr (checked_policy ''network leases require a deny-only sandbox policy'' arg) (\<lambda>p.
       Inr (run_id p, ticket_id p, step p, policy_hash (net_sha256 env) p))"

definition generation_of :: "authority \<Rightarrow> policy_key \<Rightarrow> int" where
  "generation_of s k = dict_get_or 1 (generations s) k"

section \<open>Requesting a lease\<close>

record lease_request =
  lr_policy :: sandbox_policy
  lr_key :: policy_key
  lr_purpose :: network_purpose
  lr_domains :: "string list"
  lr_ttl :: int

text \<open>The checks before the prompt; \<open>approver\<close> is \<open>None\<close> when it has no callable \<^verbatim>\<open>ask\<close>.\<close>

definition request_checks ::
  "net_env \<Rightarrow> sandbox_policy option \<Rightarrow> pyval \<Rightarrow> pyval \<Rightarrow> pyval \<Rightarrow> 'a option \<Rightarrow> (lease_request \<times> 'a) res" where
  "request_checks env arg purpose domains ttl approver =
     bindr (policy_key env arg) (\<lambda>k.
     case (arg, as_purpose purpose) of (Some p, Some pu) \<Rightarrow>
       (case tuple_items as_str domains of
          None \<Rightarrow> Inl (lease_error ''allowed_domains must be a tuple of strings'')
        | Some ds \<Rightarrow>
          if ds = [] \<or> \<not> list_all is_exact_dns_hostname ds
          then Inl (lease_error ''requested domains must be exact ASCII DNS hostnames'')
          else let normalized = sorted_set (map lower ds) in
          if MAX_NETWORK_LEASE_DOMAINS < length normalized
          then Inl (lease_error ''a network lease may contain at most 32 domains'')
          else (case ttl of
             PInt n \<Rightarrow>
               if \<not> (1 \<le> n \<and> n \<le> MAX_NETWORK_LEASE_TTL_SECONDS)
               then Inl (lease_error ''ttl_seconds must be from 1 through 900'')
               else (case approver of
                   None \<Rightarrow> Inl (NetworkLeaseApprovalDenied ''network approval service is unavailable'')
                 | Some ask \<Rightarrow> Inr (\<lparr>lr_policy = p, lr_key = k, lr_purpose = pu, lr_domains = normalized, lr_ttl = n\<rparr>, ask))
           | _ \<Rightarrow> Inl (lease_error ''ttl_seconds must be from 1 through 900'')))
     | _ \<Rightarrow> Inl (lease_error ''purpose must be a NetworkPurpose''))"

definition request_snapshot :: "policy_key \<Rightarrow> authority \<Rightarrow> int res" where
  "request_snapshot k s =
     (if k \<in> revoking s then Inl (lease_error ''network scope revocation cleanup is incomplete'')
      else Inr (generation_of s k))"

definition approval_of :: "lease_request \<Rightarrow> string \<Rightarrow> approval_request" where
  "approval_of r approval =
     \<lparr>req_tool = ''temporary_network_access'',
      req_arguments =
        [(''lease_request_id'', PStr approval), (''run_id'', PStr (run_id (lr_policy r))),
         (''ticket_id'', PStr (ticket_id (lr_policy r))), (''step'', PStr (step (lr_policy r))),
         (''purpose'', PStr (purpose_value (lr_purpose r))), (''domains'', PList (map PStr (lr_domains r))),
         (''port'', PInt HTTPS_PORT), (''ttl_seconds'', PInt (lr_ttl r))],
      req_opclass = ''network_authorization'', req_workspace = str_path (workspace_root (lr_policy r))\<rparr>"

text \<open>\<^verbatim>\<open>issued_at + n\<close> on the value the caller gave as the time; a float sum is taken without rounding,
  and the lease constructor refuses it.\<close>

definition py_add :: "pyval \<Rightarrow> int \<Rightarrow> pyval res" where
  "py_add v n = (case v of
       PInt i \<Rightarrow> Inr (PInt (i + n))
     | PBool b \<Rightarrow> Inr (PInt ((if b then 1 else 0) + n))
     | PFloat f \<Rightarrow> Inr (PFloat (case f of Fin q \<Rightarrow> Fin (q + of_int n) | NegZero \<Rightarrow> Fin (of_int n) | g \<Rightarrow> g))
     | _ \<Rightarrow> Inl (PyTypeError ''unsupported operand''))"

definition request_commit ::
  "net_env \<Rightarrow> lease_request \<Rightarrow> int \<Rightarrow> string \<Rightarrow> string \<Rightarrow> pyval \<Rightarrow> authority \<Rightarrow> issued_lease res" where
  "request_commit env r gen approval token now s =
     (if lr_key r \<in> revoking s \<or> generation_of s (lr_key r) \<noteq> gen
      then Inl (lease_error ''network scope was revoked while approval was pending'')
      else bindr (py_add now (lr_ttl r * NANOSECONDS_PER_SECOND)) (\<lambda>expiry.
           bindr (mk_network_lease
             \<lparr>larg_schema_version = PInt NETWORK_LEASE_SCHEMA_VERSION, larg_lease_id = PStr token, larg_approval_id = PStr approval,
              larg_run_id = PStr (run_id (lr_policy r)), larg_ticket_id = PStr (ticket_id (lr_policy r)),
              larg_step = PStr (step (lr_policy r)), larg_policy_hash = PStr (policy_hash (net_sha256 env) (lr_policy r)),
              larg_purpose = purpose_arg (lr_purpose r), larg_allowed_domains = PTuple (map PStr (lr_domains r)),
              larg_port = PInt HTTPS_PORT, larg_issued_at = now, larg_expires_at = expiry, larg_generation = PInt gen\<rparr>) (\<lambda>l.
           bindr (canonical_payload l) (\<lambda>payload.
             mk_issued_lease (Some l) (PStr (net_hmac env (auth_key s) payload))))))"

text \<open>\<open>during\<close> is what other threads do to the authority while the prompt is open; \<open>clock\<close> is the
  monotonic clock, used when the caller gives no time.\<close>

definition request_lease ::
  "net_env \<Rightarrow> sandbox_policy option \<Rightarrow> pyval \<Rightarrow> pyval \<Rightarrow> pyval \<Rightarrow> pyval \<Rightarrow> int \<Rightarrow> string \<Rightarrow> string
    \<Rightarrow> (approval_request \<Rightarrow> pyval res) option \<Rightarrow> (authority \<Rightarrow> authority) \<Rightarrow> authority \<Rightarrow> issued_lease res \<times> authority" where
  "request_lease env arg purpose domains ttl now_arg clock approval_token token approver during s =
     (case request_checks env arg purpose domains ttl approver of Inl e \<Rightarrow> (Inl e, s) | Inr (r, ask) \<Rightarrow>
     (case request_snapshot (lr_key r) s of Inl e \<Rightarrow> (Inl e, s) | Inr gen \<Rightarrow>
      let approval = ''ap-net-'' @ approval_token; s1 = during s in
      case ask (approval_of r approval) of
        Inl _ \<Rightarrow> (Inl (NetworkLeaseApprovalDenied ''network approval failed closed''), s1)
      | Inr v \<Rightarrow>
          if v \<noteq> PBool True then (Inl (NetworkLeaseApprovalDenied ''network lease request was denied or timed out''), s1)
          else (request_commit env r gen approval token (if now_arg = PNone then PInt clock else now_arg) s1, s1)))"

section \<open>Verifying\<close>

definition verify_signature :: "net_env \<Rightarrow> issued_lease \<Rightarrow> policy_key \<Rightarrow> authority \<Rightarrow> unit res" where
  "verify_signature env i k s =
     (if k \<in> revoking s then Inl (lease_error ''network scope revocation cleanup is incomplete'')
      else bindr (canonical_payload (lease i)) (\<lambda>payload.
        raise_when (net_hmac env (auth_key s) payload \<noteq> signature i) (lease_error ''network lease signature is invalid'')))"

definition verify_scope_locked ::
  "net_env \<Rightarrow> issued_lease \<Rightarrow> sandbox_policy option \<Rightarrow> policy_key \<Rightarrow> pyval \<Rightarrow> pyval \<Rightarrow> authority \<Rightarrow> unit res" where
  "verify_scope_locked env i arg k purpose now s =
     bindr (verify_signature env i k s) (\<lambda>_.
       validate_scope (net_sha256 env) (lease i) arg purpose now (generation_of s k))"

definition verify_request_locked ::
  "net_env \<Rightarrow> issued_lease \<Rightarrow> sandbox_policy option \<Rightarrow> policy_key \<Rightarrow> pyval \<Rightarrow> pyval \<Rightarrow> pyval \<Rightarrow> pyval \<Rightarrow> authority \<Rightarrow> unit res" where
  "verify_request_locked env i arg k purpose hostname port now s =
     bindr (verify_signature env i k s) (\<lambda>_.
       validate_request (net_sha256 env) (lease i) arg purpose hostname port now (generation_of s k))"

definition verify_request ::
  "net_env \<Rightarrow> issued_lease option \<Rightarrow> sandbox_policy option \<Rightarrow> pyval \<Rightarrow> pyval \<Rightarrow> pyval \<Rightarrow> pyval \<Rightarrow> authority \<Rightarrow> unit res" where
  "verify_request env iarg arg purpose hostname port now s =
     (case iarg of None \<Rightarrow> Inl (lease_error ''issued network lease is required'') | Some i \<Rightarrow>
      bindr (policy_key env arg) (\<lambda>k. verify_request_locked env i arg k purpose hostname port now s))"

definition verify_scope ::
  "net_env \<Rightarrow> issued_lease option \<Rightarrow> sandbox_policy option \<Rightarrow> pyval \<Rightarrow> pyval \<Rightarrow> authority \<Rightarrow> unit res" where
  "verify_scope env iarg arg purpose now s =
     (case iarg of None \<Rightarrow> Inl (lease_error ''issued network lease is required'') | Some i \<Rightarrow>
      bindr (policy_key env arg) (\<lambda>k. verify_scope_locked env i arg k purpose now s))"

text \<open>An optional clock argument: absent, not callable, or one that answers or raises.\<close>

datatype clock_arg = No_clock | Bad_clock | Clock "pyval res"

definition read_clock :: "pyval res \<Rightarrow> pyval res" where
  "read_clock answer =
     (case answer of
        Inl _ \<Rightarrow> Inl (lease_error ''monotonic clock callback failed'')
      | Inr v \<Rightarrow> (case v of
            PInt t \<Rightarrow> if t < 0 then Inl (lease_error ''monotonic clock callback returned an invalid value'') else Inr v
          | _ \<Rightarrow> Inl (lease_error ''monotonic clock callback returned an invalid value'')))"

definition scope_guard ::
  "net_env \<Rightarrow> issued_lease option \<Rightarrow> sandbox_policy option \<Rightarrow> pyval \<Rightarrow> clock_arg \<Rightarrow> authority \<Rightarrow> unit res" where
  "scope_guard env iarg arg purpose clock s =
     (case iarg of None \<Rightarrow> Inl (lease_error ''issued network lease is required'') | Some i \<Rightarrow>
     (case clock of
        Clock answer \<Rightarrow>
          bindr (policy_key env arg) (\<lambda>k.
          bindr (read_clock answer) (\<lambda>now. verify_scope_locked env i arg k purpose now s))
      | _ \<Rightarrow> Inl (lease_error ''monotonic clock callback is invalid'')))"

section \<open>Connections\<close>

definition live_entry :: "conn_handle \<Rightarrow> authority \<Rightarrow> connection option" where
  "live_entry h s = (case dict_get (active_connections s) (connection_id h) of
       None \<Rightarrow> None | Some e \<Rightarrow> if conn_handle e = h then Some e else None)"

definition put_entry :: "connection \<Rightarrow> authority \<Rightarrow> authority" where
  "put_entry e s = s\<lparr>active_connections := dict_set (connection_id (conn_handle e)) e (active_connections s)\<rparr>"

definition drop_entry :: "conn_handle \<Rightarrow> authority \<Rightarrow> authority" where
  "drop_entry h s = s\<lparr>active_connections := dict_del (connection_id h) (active_connections s)\<rparr>"

definition connections :: "authority \<Rightarrow> connection list" where
  "connections s = map snd (active_connections s)"

datatype close_start = Gone | Already_closing | Call nat

definition close_begin :: "conn_handle \<Rightarrow> authority \<Rightarrow> close_start \<times> authority" where
  "close_begin h s = (case live_entry h s of
       None \<Rightarrow> (Gone, s)
     | Some e \<Rightarrow> if conn_closing e then (Already_closing, s)
                else (Call (close_callback e), put_entry (e\<lparr>conn_closing := True\<rparr>) s))"

definition close_end :: "conn_handle \<Rightarrow> bool \<Rightarrow> authority \<Rightarrow> authority" where
  "close_end h confirmed s = (case live_entry h s of
       None \<Rightarrow> s
     | Some e \<Rightarrow> if confirmed then drop_entry h s else put_entry (e\<lparr>conn_closing := False\<rparr>) s)"

text \<open>
  What the other threads of the host do to the authority while a thread that closes connections is outside the lock: before it
  looks at a connection, while it waits for the close of another thread (with the answer whether the wait ended in time),
  while it runs the callback of the connection, and after the last connection. Nothing in particular is assumed of them here;
  \<open>alone\<close> is a thread nobody interferes with, where the waits that end in time are given.
\<close>

record meanwhile =
  mw_before :: "conn_handle \<Rightarrow> authority \<Rightarrow> authority"
  mw_wait :: "conn_handle \<Rightarrow> authority \<Rightarrow> bool \<times> authority"
  mw_call :: "conn_handle \<Rightarrow> authority \<Rightarrow> authority"
  mw_after :: "authority \<Rightarrow> authority"

definition alone :: "(conn_handle \<Rightarrow> bool) \<Rightarrow> meanwhile" where
  "alone finished = \<lparr>mw_before = (\<lambda>h s. s), mw_wait = (\<lambda>h s. (finished h, s)), mw_call = (\<lambda>h s. s), mw_after = (\<lambda>s. s)\<rparr>"

lemma alone_simps [simp]:
  "mw_before (alone finished) h s = s" "mw_wait (alone finished) h s = (finished h, s)" "mw_call (alone finished) h s = s"
  "mw_after (alone finished) s = s"
  by (simp_all add: alone_def)

text \<open>One turn of the loop of \<^verbatim>\<open>_close_active_connections\<close>: the number of closed and of failed connections.
  \<open>confirms\<close> tells which callbacks return \<^verbatim>\<open>True\<close>. A connection that another thread is closing counts as failed
  when the wait runs out or the connection is still registered after it.\<close>

definition close_one ::
  "(nat \<Rightarrow> bool) \<Rightarrow> meanwhile \<Rightarrow> conn_handle \<Rightarrow> authority \<Rightarrow> nat \<times> nat \<times> authority" where
  "close_one confirms others h s = (case close_begin h (mw_before others h s) of
       (Gone, s1) \<Rightarrow> (0, 0, s1)
     | (Already_closing, s1) \<Rightarrow>
         (case mw_wait others h s1 of (in_time, s2) \<Rightarrow>
          if \<not> in_time then (0, 1, s2) else (0, if live_entry h s2 \<noteq> None then 1 else 0, s2))
     | (Call cb, s1) \<Rightarrow>
         let s2 = mw_call others h s1 in
         if confirms cb then (1, 0, close_end h True s2) else (0, 1, close_end h False s2))"

fun close_loop ::
  "(nat \<Rightarrow> bool) \<Rightarrow> meanwhile \<Rightarrow> conn_handle list \<Rightarrow> authority \<Rightarrow> nat \<times> nat \<times> authority" where
  "close_loop confirms others [] s = (0, 0, s)"
| "close_loop confirms others (h # hs) s =
     (case close_one confirms others h s of (c, f, s1) \<Rightarrow>
      (case close_loop confirms others hs s1 of (c', f', s2) \<Rightarrow> (c + c', f + f', s2)))"

definition close_active_connections ::
  "(nat \<Rightarrow> bool) \<Rightarrow> meanwhile \<Rightarrow> conn_handle list \<Rightarrow> authority \<Rightarrow> nat res \<times> authority" where
  "close_active_connections confirms others hs s =
     (case close_loop confirms others hs s of (c, f, s1) \<Rightarrow>
      (if 0 < f then Inl (NetworkLeaseConnectionCloseError f) else Inr c, mw_after others s1))"

definition expired :: "int \<Rightarrow> connection \<Rightarrow> bool" where
  "expired now e \<longleftrightarrow> expires_at (conn_lease e) \<le> now"

definition stale :: "authority \<Rightarrow> int \<Rightarrow> connection \<Rightarrow> bool" where
  "stale s now e \<longleftrightarrow> expired now e \<or> lease_generation (conn_lease e) \<noteq> generation_of s (conn_key e)"

definition sweep_begin :: "int \<Rightarrow> authority \<Rightarrow> conn_handle list \<times> policy_key set \<times> authority" where
  "sweep_begin now s =
     (let s1 = s\<lparr>revoking := revoking s \<union> conn_key ` set (filter (expired now) (connections s))\<rparr>
      in (map conn_handle (filter (stale s now) (connections s)), revoking s1, s1))"

definition sweep_finish :: "int \<Rightarrow> policy_key set \<Rightarrow> authority \<Rightarrow> authority" where
  "sweep_finish now keys s =
     s\<lparr>revoking := revoking s - {k \<in> keys. \<not> list_ex (\<lambda>e. conn_key e = k \<and> stale s now e) (connections s)}\<rparr>"

definition close_expired_connections ::
  "(nat \<Rightarrow> bool) \<Rightarrow> meanwhile \<Rightarrow> pyval \<Rightarrow> authority \<Rightarrow> nat res \<times> authority" where
  "close_expired_connections confirms others now_arg s =
     (case now_arg of
        PInt now \<Rightarrow>
          if now < 0 then (Inl (lease_error ''now_monotonic_ns must be a non-negative integer''), s)
          else (case sweep_begin now s of (hs, keys, s1) \<Rightarrow>
               (case close_active_connections confirms others hs s1 of
                  (Inl e, s2) \<Rightarrow> (Inl e, s2)
                | (Inr c, s2) \<Rightarrow> (Inr c, sweep_finish now keys s2)))
      | _ \<Rightarrow> (Inl (lease_error ''now_monotonic_ns must be a non-negative integer''), s))"

definition revoke_begin :: "policy_key \<Rightarrow> authority \<Rightarrow> conn_handle list \<times> int \<times> authority" where
  "revoke_begin k s =
     (let g = generation_of s k + 1;
          s1 = s\<lparr>generations := dict_set k g (generations s), revoking := insert k (revoking s)\<rparr>
      in (map conn_handle (filter (\<lambda>e. conn_key e = k) (connections s1)), g, s1))"

definition revoke_finish :: "policy_key \<Rightarrow> authority \<Rightarrow> authority" where
  "revoke_finish k s =
     (if list_ex (\<lambda>e. conn_key e = k) (connections s) then s else s\<lparr>revoking := revoking s - {k}\<rparr>)"

definition revoke ::
  "net_env \<Rightarrow> (nat \<Rightarrow> bool) \<Rightarrow> meanwhile \<Rightarrow> sandbox_policy option \<Rightarrow> authority \<Rightarrow> int res \<times> authority" where
  "revoke env confirms others arg s =
     (case policy_key env arg of Inl e \<Rightarrow> (Inl e, s) | Inr k \<Rightarrow>
     (case revoke_begin k s of (hs, g, s1) \<Rightarrow>
     (case close_active_connections confirms others hs s1 of
        (Inl e, s2) \<Rightarrow> (Inl e, s2)
      | (Inr _, s2) \<Rightarrow> (Inr g, revoke_finish k s2))))"

section \<open>Registering, releasing and promoting\<close>

text \<open>An optional callback argument: absent, not callable, or one named by a number.\<close>

datatype callback_arg = No_callback | Not_callable | Callback nat

definition register_locked ::
  "net_env \<Rightarrow> issued_lease \<Rightarrow> sandbox_policy option \<Rightarrow> policy_key \<Rightarrow> pyval \<Rightarrow> pyval \<Rightarrow> pyval \<Rightarrow> pyval \<Rightarrow> string \<Rightarrow> nat \<Rightarrow> nat option \<Rightarrow> bool
    \<Rightarrow> authority \<Rightarrow> conn_handle res \<times> authority" where
  "register_locked env i arg k purpose hostname port now token close release pending s =
     (case verify_request_locked env i arg k purpose hostname port now s of Inl e \<Rightarrow> (Inl e, s) | Inr _ \<Rightarrow>
      let h = \<lparr>connection_id = token, handle_serial = next_serial s\<rparr>
      in (Inr h, put_entry \<lparr>conn_handle = h, conn_key = k, conn_lease = lease i, close_callback = close,
                            release_callback = release, conn_pending = pending, conn_closing = False\<rparr>
                   (s\<lparr>next_serial := Suc (next_serial s)\<rparr>)))"

definition register_args :: "callback_arg \<Rightarrow> callback_arg \<Rightarrow> pyval \<Rightarrow> clock_arg \<Rightarrow> (nat \<times> nat option \<times> bool) res" where
  "register_args close release pending clock =
     (case close of
        Callback c \<Rightarrow>
          if release = Not_callable then Inl (lease_error ''connection release callback is invalid'')
          else (case pending of
             PBool b \<Rightarrow>
               if b \<and> clock = No_clock then Inl (lease_error ''pending connection requires a monotonic clock callback'')
               else if clock = Bad_clock then Inl (lease_error ''monotonic clock callback is invalid'')
               else Inr (c, (case release of Callback r \<Rightarrow> Some r | _ \<Rightarrow> None), b)
           | _ \<Rightarrow> Inl (lease_error ''pending must be a boolean''))
      | _ \<Rightarrow> Inl (lease_error ''connection close callback is required''))"

definition register_active_connection ::
  "net_env \<Rightarrow> (nat \<Rightarrow> bool) \<Rightarrow> meanwhile \<Rightarrow> issued_lease \<Rightarrow> sandbox_policy option \<Rightarrow> pyval \<Rightarrow> pyval \<Rightarrow> pyval \<Rightarrow> pyval
    \<Rightarrow> string \<Rightarrow> callback_arg \<Rightarrow> pyval \<Rightarrow> clock_arg \<Rightarrow> callback_arg \<Rightarrow> authority \<Rightarrow> conn_handle res \<times> authority" where
  "register_active_connection env confirms others i arg purpose hostname port now token close pending clock release s =
     (case register_args close release pending clock of Inl e \<Rightarrow> (Inl e, s) | Inr (c, r, b) \<Rightarrow>
     (case close_expired_connections confirms others now s of
        (Inl e, s1) \<Rightarrow> (Inl e, s1)
      | (Inr _, s1) \<Rightarrow>
     (case policy_key env arg of Inl e \<Rightarrow> (Inl e, s1) | Inr k \<Rightarrow>
     (case (case clock of Clock answer \<Rightarrow> read_clock answer | _ \<Rightarrow> Inr now) of Inl e \<Rightarrow> (Inl e, s1) | Inr t \<Rightarrow>
        register_locked env i arg k purpose hostname port t token c r b s1))))"

definition release_begin :: "conn_handle \<Rightarrow> authority \<Rightarrow> (bool + nat) \<times> authority" where
  "release_begin h s = (case live_entry h s of
       None \<Rightarrow> (Inl False, s)
     | Some e \<Rightarrow>
         if conn_closing e then (Inl False, s)
         else (case release_callback e of
             None \<Rightarrow> (Inl True, drop_entry h s)
           | Some cb \<Rightarrow> (Inr cb, put_entry (e\<lparr>conn_closing := True\<rparr>) s)))"

text \<open>\<open>None\<close> as handle argument is a value that is no handle. The end of a release is the end of a close:
  the entry goes if the callback confirmed it, and is no longer closing otherwise.\<close>

definition release_active_connection ::
  "(nat \<Rightarrow> bool) \<Rightarrow> conn_handle option \<Rightarrow> authority \<Rightarrow> bool res \<times> authority" where
  "release_active_connection confirms harg s =
     (case harg of None \<Rightarrow> (Inl (lease_error ''active network connection handle is invalid''), s) | Some h \<Rightarrow>
     (case release_begin h s of
        (Inl b, s1) \<Rightarrow> (Inr b, s1)
      | (Inr cb, s1) \<Rightarrow> (Inr (confirms cb), close_end h (confirms cb) s1)))"

definition may_promote :: "int \<Rightarrow> connection \<Rightarrow> authority \<Rightarrow> bool" where
  "may_promote now e s \<longleftrightarrow> \<not> conn_closing e \<and> conn_pending e \<and> conn_key e \<notin> revoking s
     \<and> issued_at (conn_lease e) \<le> now \<and> now < expires_at (conn_lease e)
     \<and> lease_generation (conn_lease e) = generation_of s (conn_key e)"

definition promote_locked :: "conn_handle \<Rightarrow> int \<Rightarrow> nat \<Rightarrow> authority \<Rightarrow> bool \<times> authority" where
  "promote_locked h now close s = (case live_entry h s of
       None \<Rightarrow> (False, s)
     | Some e \<Rightarrow> if may_promote now e s
                then (True, put_entry (e\<lparr>close_callback := close, conn_pending := False\<rparr>) s) else (False, s))"

definition promote_active_connection ::
  "conn_handle option \<Rightarrow> pyval \<Rightarrow> callback_arg \<Rightarrow> authority \<Rightarrow> bool res \<times> authority" where
  "promote_active_connection harg now_arg close s =
     (case harg of None \<Rightarrow> (Inl (lease_error ''active network connection handle is invalid''), s) | Some h \<Rightarrow>
     (case now_arg of
        PInt now \<Rightarrow>
          if now < 0 then (Inl (lease_error ''now_monotonic_ns must be a non-negative integer''), s)
          else (case close of
             Callback c \<Rightarrow> (case promote_locked h now c s of (b, s1) \<Rightarrow> (Inr b, s1))
           | _ \<Rightarrow> (Inl (lease_error ''connected socket close callback is required''), s))
      | _ \<Rightarrow> (Inl (lease_error ''now_monotonic_ns must be a non-negative integer''), s)))"

section \<open>Sockets\<close>

text \<open>
  A socket argument: whether it is a standard socket, its descriptor, and what the operating system
  answers about its family, type and peer (\<open>None\<close> for an error). The descriptors the process has open
  are a set; \<open>dup_answer\<close> is the new descriptor of a duplicate or \<open>None\<close> for an error, and \<open>gone\<close> tells
  which descriptors a call of \<^verbatim>\<open>close\<close> gives up, whether it raises or not.
\<close>

record sock_arg =
  sock_standard :: bool
  sock_fd :: int
  sock_inet :: bool
  sock_stream :: "bool option"
  sock_peer :: bool
  dup_answer :: "int option"

definition stream_error :: exc where
  "stream_error = lease_error ''active proxy sockets must be connected IPv4/IPv6 TCP streams''"

definition check_socket :: "sock_arg \<Rightarrow> unit res" where
  "check_socket k =
     (if \<not> sock_inet k then Inl stream_error
      else case sock_stream k of
        None \<Rightarrow> Inl stream_error
      | Some b \<Rightarrow> if \<not> b then Inl stream_error else raise_when (\<not> sock_peer k) stream_error)"

definition check_sockets :: "sock_arg list option \<Rightarrow> sock_arg list res" where
  "check_sockets arg =
     (case arg of None \<Rightarrow> Inl (lease_error ''active proxy sockets must be a non-empty tuple'') | Some ks \<Rightarrow>
      bindr (first_err (
        [raise_when (ks = []) (lease_error ''active proxy sockets must be a non-empty tuple''),
         raise_when (\<not> list_all sock_standard ks) (lease_error ''active proxy sockets must be standard socket objects''),
         raise_when (list_ex (\<lambda>k. sock_fd k < 0) ks) (lease_error ''active proxy sockets must all be open''),
         raise_when (\<not> distinct (map sock_fd ks))
           (lease_error ''active proxy socket tuple contains duplicate file descriptors'')]
        @ map check_socket ks)) (\<lambda>_. Inr ks))"

text \<open>The duplicates made so far and whether all could be made.\<close>

fun dup_sockets :: "sock_arg list \<Rightarrow> int list \<times> bool" where
  "dup_sockets [] = ([], True)"
| "dup_sockets (k # ks) = (case dup_answer k of
       None \<Rightarrow> ([], False)
     | Some fd \<Rightarrow> (case dup_sockets ks of (fds, ok) \<Rightarrow> (fd # fds, ok)))"

definition discard_owned_sockets :: "(int \<Rightarrow> bool) \<Rightarrow> int list \<Rightarrow> int set \<Rightarrow> int set" where
  "discard_owned_sockets gone owned fds = fds - set (filter gone owned)"

text \<open>The close callback of a registered tuple of duplicates, and its release callback: both close every
  duplicate and tell whether none is left open.\<close>

definition close_sockets :: "(int \<Rightarrow> bool) \<Rightarrow> int list \<Rightarrow> int set \<Rightarrow> bool \<times> int set" where
  "close_sockets gone owned fds = (list_all gone owned, fds - set (filter gone owned))"

definition release_sockets :: "(int \<Rightarrow> bool) \<Rightarrow> int list \<Rightarrow> int set \<Rightarrow> bool \<times> int set" where
  "release_sockets gone owned fds = (list_all gone owned, fds - set (filter gone owned))"

lemma close_sockets_confirmed: "close_sockets gone owned fds = (True, fds') \<Longrightarrow> set owned \<inter> fds' = {}"
  by (auto simp: close_sockets_def list_all_iff)

definition register_active_sockets ::
  "(int \<Rightarrow> bool) \<Rightarrow> net_env \<Rightarrow> (nat \<Rightarrow> bool) \<Rightarrow> meanwhile \<Rightarrow> issued_lease \<Rightarrow> sandbox_policy option \<Rightarrow> pyval \<Rightarrow> pyval \<Rightarrow> pyval \<Rightarrow> pyval
    \<Rightarrow> string \<Rightarrow> sock_arg list option \<Rightarrow> clock_arg \<Rightarrow> nat \<Rightarrow> nat \<Rightarrow> authority \<times> int set
    \<Rightarrow> conn_handle res \<times> authority \<times> int set" where
  "register_active_sockets gone env confirms others i arg purpose hostname port now token sockets clock close_cb release_cb st =
     (case st of (s, fds) \<Rightarrow>
     (case check_sockets sockets of Inl e \<Rightarrow> (Inl e, s, fds) | Inr ks \<Rightarrow>
     (case dup_sockets ks of (owned, ok) \<Rightarrow>
      let opened = fds \<union> set owned in
      if \<not> ok then (Inl PyOSError, s, discard_owned_sockets gone owned opened)
      else (case register_active_connection env confirms others i arg purpose hostname port now token
                   (Callback close_cb) (PBool False) clock (Callback release_cb) s of
              (Inl e, s1) \<Rightarrow> (Inl e, s1, discard_owned_sockets gone owned opened)
            | (Inr h, s1) \<Rightarrow> (Inr h, s1, opened)))))"

section \<open>The expiry monitor\<close>

text \<open>The sweep interval as \<^verbatim>\<open>float()\<close> gives it. No double lies strictly between 1/100 and the double written
  0.01, so the comparison with 1/100 is the one with \<^verbatim>\<open>MIN_NETWORK_LEASE_SWEEP_INTERVAL_SECONDS\<close>.\<close>

definition sweep_interval_ok :: "pyval \<Rightarrow> bool" where
  "sweep_interval_ok v = (case v of
       PInt i \<Rightarrow> i = 1
     | PFloat f \<Rightarrow> (case f of Fin q \<Rightarrow> 1 / 100 \<le> q \<and> q \<le> 1 | _ \<Rightarrow> False)
     | _ \<Rightarrow> False)"

record monitor =
  mon_thread :: bool
  mon_alive :: bool
  mon_started :: bool
  mon_stopped :: bool
  mon_failure_count :: nat
  mon_last_error :: "string option"

definition mk_monitor :: "authority option \<Rightarrow> pyval \<Rightarrow> monitor res" where
  "mk_monitor arg interval =
     (case arg of None \<Rightarrow> Inl (lease_error ''a host NetworkLeaseAuthority is required'') | Some _ \<Rightarrow>
      if \<not> sweep_interval_ok interval then Inl (lease_error ''sweep interval must be between 0.01 and 1.0 seconds'')
      else Inr \<lparr>mon_thread = False, mon_alive = False, mon_started = False, mon_stopped = False,
                mon_failure_count = 0, mon_last_error = None\<rparr>)"

definition mon_running :: "monitor \<Rightarrow> bool" where
  "mon_running m \<longleftrightarrow> mon_thread m \<and> mon_alive m"

definition healthy_guard :: "monitor \<Rightarrow> unit res" where
  "healthy_guard m =
     raise_when (\<not> mon_started m \<or> mon_stopped m \<or> \<not> mon_thread m \<or> \<not> mon_alive m \<or> mon_failure_count m \<noteq> 0)
       (lease_error ''network lease expiry monitor is unhealthy'')"

text \<open>\<open>starts\<close> tells whether the operating system could start the thread.\<close>

definition mon_start :: "bool \<Rightarrow> monitor \<Rightarrow> unit res \<times> monitor" where
  "mon_start starts m =
     (if mon_started m \<or> mon_stopped m then (Inl (PyRuntimeError ''network lease expiry monitor is single-use''), m)
      else if starts then (Inr (), m\<lparr>mon_thread := True, mon_started := True, mon_alive := True\<rparr>)
      else (Inl (PyRuntimeError ''can not start new thread''), m\<lparr>mon_thread := False, mon_started := False\<rparr>))"

text \<open>\<open>joined\<close> tells whether the thread ended within the join interval, \<open>own\<close> whether it called \<^verbatim>\<open>stop\<close>.\<close>

definition mon_stop :: "bool \<Rightarrow> bool \<Rightarrow> monitor \<Rightarrow> bool \<times> monitor" where
  "mon_stop own joined m =
     (let m1 = m\<lparr>mon_stopped := True\<rparr> in
      if \<not> mon_thread m1 then (True, m1)
      else if own then (False, m1)
      else let m2 = (if joined then m1\<lparr>mon_alive := False\<rparr> else m1) in (\<not> mon_alive m2, m2))"

text \<open>One turn of the thread's loop: the stop event is set exactly when the monitor is stopped.\<close>

definition mon_turn ::
  "(nat \<Rightarrow> bool) \<Rightarrow> meanwhile \<Rightarrow> int \<Rightarrow> monitor \<times> authority \<Rightarrow> monitor \<times> authority" where
  "mon_turn confirms others now ms =
     (case ms of (m, s) \<Rightarrow>
      if \<not> mon_alive m then (m, s)
      else if mon_stopped m then (m\<lparr>mon_alive := False\<rparr>, s)
      else (case close_expired_connections confirms others (PInt now) s of
          (Inl _, s1) \<Rightarrow> (m\<lparr>mon_failure_count := Suc (mon_failure_count m), mon_last_error := Some ''connection_cleanup_failed''\<rparr>, s1)
        | (Inr _, s1) \<Rightarrow> (m\<lparr>mon_last_error := None\<rparr>, s1)))"

section \<open>Interleavings\<close>

text \<open>
  What the threads of the host can do to the authority: any critical section, at any time, with any
  arguments. The callbacks run outside the lock, so their answers come as steps of their own; a thread
  that closes connections takes the steps \<open>close_started\<close> and \<open>close_ended\<close>.
\<close>

inductive auth_step :: "net_env \<Rightarrow> authority \<Rightarrow> authority \<Rightarrow> bool" for env where
  registered: "policy_key env arg = Inr k \<Longrightarrow> auth_step env s
     (snd (register_locked env i arg k purpose hostname port now token close release pending s))"
| close_started: "auth_step env s (snd (close_begin h s))"
| close_ended: "auth_step env s (close_end h confirmed s)"
| release_started: "auth_step env s (snd (release_begin h s))"
| promoted: "auth_step env s (snd (promote_locked h now close s))"
| sweep_started: "auth_step env s (snd (snd (sweep_begin now s)))"
| sweep_ended: "auth_step env s (sweep_finish now keys s)"
| revoke_started: "auth_step env s (snd (snd (revoke_begin k s)))"
| revoke_ended: "auth_step env s (revoke_finish k s)"

inductive_cases auth_stepE: "auth_step env s s'"

abbreviation auth_steps :: "net_env \<Rightarrow> authority \<Rightarrow> authority \<Rightarrow> bool" where
  "auth_steps env \<equiv> (auth_step env)\<^sup>*\<^sup>*"

definition honest :: "net_env \<Rightarrow> meanwhile \<Rightarrow> bool" where
  "honest env others \<longleftrightarrow> (\<forall>h s. auth_steps env s (mw_before others h s) \<and> auth_steps env s (snd (mw_wait others h s))
     \<and> auth_steps env s (mw_call others h s)) \<and> (\<forall>s. auth_steps env s (mw_after others s))"

text \<open>The other threads, too, only take critical sections.\<close>

lemma honestD:
  assumes "honest env others"
  shows "auth_steps env s (mw_before others h s)" "mw_wait others h s = (b, s2) \<Longrightarrow> auth_steps env s s2"
    "auth_steps env s (mw_call others h s)" "auth_steps env s (mw_after others s)"
  using assms by (auto simp: honest_def) (metis snd_conv)

lemma honest_alone: "honest env (alone finished)"
  by (simp add: honest_def)

definition lease_key :: "network_lease \<Rightarrow> policy_key" where
  "lease_key l = (lease_run_id l, lease_ticket_id l, lease_step l, lease_policy_hash l)"

text \<open>
  The invariant: every registered connection is stored under its own identifier and carries a valid
  lease of its scope, of a generation that is not newer than the scope's; and if it is older, the
  scope is marked as being revoked.
\<close>

definition conn_ok :: "authority \<Rightarrow> string \<Rightarrow> connection \<Rightarrow> bool" where
  "conn_ok s cid e \<longleftrightarrow> connection_id (conn_handle e) = cid \<and> valid_lease (conn_lease e)
     \<and> lease_key (conn_lease e) = conn_key e
     \<and> lease_generation (conn_lease e) \<le> generation_of s (conn_key e)
     \<and> (lease_generation (conn_lease e) \<noteq> generation_of s (conn_key e) \<longrightarrow> conn_key e \<in> revoking s)"

definition auth_inv :: "authority \<Rightarrow> bool" where
  "auth_inv s \<longleftrightarrow> dict_ok (active_connections s) \<and> (\<forall>k. 1 \<le> generation_of s k)
     \<and> (\<forall>cid e. dict_get (active_connections s) cid = Some e \<longrightarrow> conn_ok s cid e)"

lemma auth_inv_mk: "auth_inv (mk_authority key)"
  by (simp add: auth_inv_def mk_authority_def generation_of_def dict_get_or_def)

lemma auth_inv_conn: "auth_inv s \<Longrightarrow> e \<in> set (connections s) \<Longrightarrow> conn_ok s (connection_id (conn_handle e)) e"
  by (auto simp: auth_inv_def connections_def conn_ok_def dict_get_mem)

lemma generation_of_simps [simp]:
  "generation_of (put_entry e s) k = generation_of s k"
  "generation_of (drop_entry h s) k = generation_of s k"
  "generation_of (s\<lparr>revoking := R\<rparr>) k = generation_of s k"
  "generation_of (s\<lparr>next_serial := n\<rparr>) k = generation_of s k"
  by (simp_all add: generation_of_def put_entry_def drop_entry_def)

lemma revoking_simps [simp]:
  "revoking (put_entry e s) = revoking s" "revoking (drop_entry h s) = revoking s"
  by (simp_all add: put_entry_def drop_entry_def)

lemma conn_ok_same:
  "(\<And>k. generation_of s' k = generation_of s k) \<Longrightarrow> revoking s' = revoking s \<Longrightarrow> conn_ok s' cid e = conn_ok s cid e"
  by (simp add: conn_ok_def)

lemma auth_inv_put:
  assumes "auth_inv s" and "conn_ok s (connection_id (conn_handle e)) e"
  shows "auth_inv (put_entry e s)"
proof -
  have "conn_ok (put_entry e s) cid x = conn_ok s cid x" for cid x by (rule conn_ok_same) simp_all
  with assms show ?thesis by (auto simp: auth_inv_def) (simp_all add: put_entry_def split: if_splits)
qed

lemma auth_inv_drop:
  assumes "auth_inv s"
  shows "auth_inv (drop_entry h s)"
proof -
  have "conn_ok (drop_entry h s) cid x = conn_ok s cid x" for cid x by (rule conn_ok_same) simp_all
  with assms show ?thesis by (auto simp: auth_inv_def) (simp_all add: drop_entry_def split: if_splits)
qed

lemma live_entry_ok:
  "auth_inv s \<Longrightarrow> live_entry h s = Some e \<Longrightarrow> conn_handle e = h \<and> conn_ok s (connection_id (conn_handle e)) e"
  by (auto simp: live_entry_def auth_inv_def split: option.splits if_splits)

text \<open>Changing the flags or the callback of a registered connection keeps the invariant.\<close>

lemma auth_inv_update:
  assumes "auth_inv s" and "live_entry h s = Some e"
    and "conn_handle e' = conn_handle e" "conn_key e' = conn_key e" "conn_lease e' = conn_lease e"
  shows "auth_inv (put_entry e' s)"
  using live_entry_ok [OF assms(1,2)] assms(3-) by (intro auth_inv_put [OF assms(1)]) (unfold conn_ok_def, metis)

lemma auth_inv_close_begin: "auth_inv s \<Longrightarrow> auth_inv (snd (close_begin h s))"
  by (auto simp: close_begin_def split: option.splits intro: auth_inv_update)

lemma auth_inv_close_end: "auth_inv s \<Longrightarrow> auth_inv (close_end h c s)"
  by (auto simp: close_end_def split: option.splits intro: auth_inv_update auth_inv_drop)

lemma auth_inv_release_begin: "auth_inv s \<Longrightarrow> auth_inv (snd (release_begin h s))"
  by (auto simp: release_begin_def split: option.splits intro: auth_inv_update auth_inv_drop)

lemma auth_inv_promote: "auth_inv s \<Longrightarrow> auth_inv (snd (promote_locked h now c s))"
  by (auto simp: promote_locked_def split: option.splits intro: auth_inv_update)

lemma policy_key_Inr:
  "policy_key env arg = Inr k \<longleftrightarrow> (\<exists>p. arg = Some p \<and> validate p = Inr () \<and> deny_only p
     \<and> k = (run_id p, ticket_id p, step p, policy_hash (net_sha256 env) p))"
  by (auto simp: policy_key_def checked_policy_Inr)

lemma verify_signature_iff:
  "verify_signature env i k s = Inr () \<longleftrightarrow> k \<notin> revoking s
     \<and> (\<exists>payload. canonical_payload (lease i) = Inr payload \<and> net_hmac env (auth_key s) payload = signature i)"
  by (auto simp: verify_signature_def)

text \<open>What a verified scope means.\<close>

lemma verify_scope_locked_iff:
  "verify_scope_locked env i arg k purpose now s = Inr () \<longleftrightarrow>
     verify_signature env i k s = Inr () \<and> validate_scope (net_sha256 env) (lease i) arg purpose now (generation_of s k) = Inr ()"
  by (simp add: verify_scope_locked_def)

lemma verify_request_locked_iff:
  "verify_request_locked env i arg k purpose hostname port now s = Inr () \<longleftrightarrow>
     verify_scope_locked env i arg k purpose now s = Inr () \<and> check_target (lease i) hostname port = Inr ()"
  by (auto simp: verify_request_locked_def verify_scope_locked_def validate_request_def)

lemma verified_scope:
  assumes "verify_scope_locked env i arg k purpose now s = Inr ()" and "policy_key env arg = Inr k"
  shows "k \<notin> revoking s \<and> lease_key (lease i) = k \<and> lease_generation (lease i) = generation_of s k \<and> valid_lease (lease i)
    \<and> (\<exists>t. now = PInt t \<and> issued_at (lease i) \<le> t \<and> t < expires_at (lease i))"
  using assms unfolding verify_scope_locked_iff validate_scope_iff verify_signature_iff policy_key_Inr
  by (auto simp: lease_key_def lease_bound_def)

lemma auth_inv_register:
  assumes "auth_inv s" and "policy_key env arg = Inr k"
  shows "auth_inv (snd (register_locked env i arg k purpose hostname port now token c r b s))"
proof (cases "verify_request_locked env i arg k purpose hostname port now s")
  case (Inr u)
  then have "verify_scope_locked env i arg k purpose now s = Inr ()" by (simp add: verify_request_locked_iff)
  note v = verified_scope [OF this assms(2)]
  have "conn_ok (s\<lparr>next_serial := n\<rparr>) cid x = conn_ok s cid x" for n cid x by (rule conn_ok_same) simp_all
  then have s: "auth_inv (s\<lparr>next_serial := n\<rparr>)" for n using assms(1) by (simp add: auth_inv_def)
  show ?thesis
    using v Inr by (auto simp: register_locked_def Let_def conn_ok_def intro!: auth_inv_put [OF s])
qed (simp add: register_locked_def assms(1))

lemma auth_inv_sweep_begin: "auth_inv s \<Longrightarrow> auth_inv (snd (snd (sweep_begin now s)))"
  by (auto simp: sweep_begin_def Let_def auth_inv_def conn_ok_def)

lemma revoke_begin_state:
  "generation_of (snd (snd (revoke_begin k s))) k' = (if k' = k then generation_of s k + 1 else generation_of s k')"
  "revoking (snd (snd (revoke_begin k s))) = insert k (revoking s)"
  "active_connections (snd (snd (revoke_begin k s))) = active_connections s"
  by (simp_all add: revoke_begin_def Let_def generation_of_def)

lemma auth_inv_revoke_begin:
  assumes "auth_inv s"
  shows "auth_inv (snd (snd (revoke_begin k s)))"
proof -
  have "conn_ok (snd (snd (revoke_begin k s))) cid e" if "conn_ok s cid e" for cid e
    using that by (auto simp: conn_ok_def revoke_begin_state)
  moreover have g: "1 \<le> generation_of s k'" for k' using assms by (cases k') (simp add: auth_inv_def)
  have "1 \<le> generation_of (snd (snd (revoke_begin k s))) k'" for k'
    using g [of k'] g [of k] by (simp add: revoke_begin_state)
  ultimately show ?thesis using assms by (simp add: auth_inv_def revoke_begin_state)
qed

lemma auth_inv_discard:
  assumes "auth_inv s" and "\<And>e. e \<in> set (connections s) \<Longrightarrow> lease_generation (conn_lease e) \<noteq> generation_of s (conn_key e) \<Longrightarrow> conn_key e \<notin> K"
  shows "auth_inv (s\<lparr>revoking := revoking s - K\<rparr>)"
proof -
  have "e \<in> set (connections s)" if "dict_get (active_connections s) cid = Some e" for cid e
    using map_of_SomeD [OF that] by (force simp: connections_def)
  with assms show ?thesis by (auto simp: auth_inv_def conn_ok_def)
qed

lemma auth_inv_sweep_finish: "auth_inv s \<Longrightarrow> auth_inv (sweep_finish now keys s)"
  unfolding sweep_finish_def by (rule auth_inv_discard) (auto simp: list_ex_iff stale_def)

lemma auth_inv_revoke_finish: "auth_inv s \<Longrightarrow> auth_inv (revoke_finish k s)"
  unfolding revoke_finish_def by (auto simp: list_ex_iff intro: auth_inv_discard)

lemmas auth_inv_sections = auth_inv_close_begin auth_inv_close_end auth_inv_release_begin auth_inv_promote auth_inv_register
  auth_inv_sweep_begin auth_inv_sweep_finish auth_inv_revoke_begin auth_inv_revoke_finish

lemma auth_inv_step: "auth_step env s s' \<Longrightarrow> auth_inv s \<Longrightarrow> auth_inv s'"
  by (induction rule: auth_step.induct) (auto intro: auth_inv_sections)

lemma auth_inv_steps: "auth_steps env s s' \<Longrightarrow> auth_inv s \<Longrightarrow> auth_inv s'"
  by (induction rule: rtranclp_induct) (auto intro: auth_inv_step)

section \<open>The operations as runs of critical sections\<close>

lemma step_generation_mono: "auth_step env s s' \<Longrightarrow> generation_of s k \<le> generation_of s' k"
  by (induction rule: auth_step.induct)
    (auto simp: register_locked_def Let_def close_begin_def close_end_def release_begin_def promote_locked_def sweep_begin_def
      sweep_finish_def revoke_begin_state revoke_finish_def split: sum.splits option.splits)

lemma steps_generation_mono: "auth_steps env s s' \<Longrightarrow> generation_of s k \<le> generation_of s' k"
  by (induction rule: rtranclp_induct) (auto dest: step_generation_mono [of _ _ _ k])

lemma close_one_steps:
  assumes "honest env others"
  shows "auth_steps env s (snd (snd (close_one confirms others h s)))"
proof -
  note h = honestD [OF assms]
  obtain st s1 where b: "close_begin h (mw_before others h s) = (st, s1)" by (metis prod.exhaust)
  have 1: "auth_steps env s s1" using h(1) [of s h] close_started [of env "mw_before others h s" h] b
    by (metis rtranclp.rtrancl_into_rtrancl snd_conv)
  have 2: "auth_steps env s (close_end h c (mw_call others h s1))" for c
    using rtranclp_trans [OF 1 h(3) [of s1 h]] close_ended by (rule rtranclp.rtrancl_into_rtrancl)
  have 3: "auth_steps env s (snd (mw_wait others h s1))" using 1 h(2) [of h s1] by (metis prod.collapse rtranclp_trans)
  show ?thesis using b 1 2 3 by (cases st) (auto simp: close_one_def Let_def split: prod.splits)
qed

lemma close_loop_steps:
  assumes "honest env others"
  shows "auth_steps env s (snd (snd (close_loop confirms others hs s)))"
proof (induction hs arbitrary: s)
  case (Cons h hs)
  obtain c f s1 where 1: "close_one confirms others h s = (c, f, s1)" by (metis prod_cases3)
  then have "auth_steps env s s1" using close_one_steps [OF assms, of s confirms h] by simp
  with Cons.IH [of s1] 1 show ?case by (auto split: prod.splits)
qed simp

lemma close_active_steps:
  assumes "honest env others"
  shows "auth_steps env s (snd (close_active_connections confirms others hs s))"
proof -
  obtain c f s1 where l: "close_loop confirms others hs s = (c, f, s1)" by (metis prod_cases3)
  have "auth_steps env s s1" using close_loop_steps [OF assms, of s confirms hs] l by simp
  from rtranclp_trans [OF this honestD(4) [OF assms]] l show ?thesis by (simp add: close_active_connections_def)
qed

lemma close_expired_steps:
  assumes "honest env others"
  shows "auth_steps env s (snd (close_expired_connections confirms others now s))"
proof (cases now)
  case (PInt t)
  obtain hs keys s1 where b: "sweep_begin t s = (hs, keys, s1)" by (metis prod_cases3)
  obtain r s2 where c: "close_active_connections confirms others hs s1 = (r, s2)" by (metis prod.exhaust)
  have 1: "auth_step env s s1" using sweep_started [of env s t] b by simp
  have "auth_steps env s1 s2" using close_active_steps [OF assms, of s1 confirms hs] c by simp
  with 1 have 2: "auth_steps env s s2" by (rule converse_rtranclp_into_rtranclp)
  then have "auth_steps env s (sweep_finish t keys s2)" using sweep_ended by (rule rtranclp.rtrancl_into_rtrancl)
  with 2 PInt b c show ?thesis by (cases r) (auto simp: close_expired_connections_def)
qed (simp_all add: close_expired_connections_def)

lemma revoke_steps:
  assumes "revoke env confirms others arg s = (res, s')" and "policy_key env arg = Inr k" and "honest env others"
  shows "auth_steps env (snd (snd (revoke_begin k s))) s'"
proof -
  obtain hs g s1 where b: "revoke_begin k s = (hs, g, s1)" by (metis prod_cases3)
  obtain r s2 where c: "close_active_connections confirms others hs s1 = (r, s2)" by (metis prod.exhaust)
  have 2: "auth_steps env s1 s2" using close_active_steps [OF assms(3), of s1 confirms hs] c by simp
  then have "auth_steps env s1 (revoke_finish k s2)" using revoke_ended by (rule rtranclp.rtrancl_into_rtrancl)
  with 2 assms b c show ?thesis by (cases r) (auto simp: revoke_def)
qed

lemma revoke_generation:
  assumes "revoke env confirms others arg s = (res, s')" and "policy_key env arg = Inr k" and "honest env others"
  shows "generation_of s k < generation_of s' k"
  using steps_generation_mono [OF revoke_steps [OF assms], of k] by (simp add: revoke_begin_state)

lemma auth_inv_close_expired: "honest env others \<Longrightarrow> auth_inv s \<Longrightarrow> auth_inv (snd (close_expired_connections confirms others now s))"
  by (rule auth_inv_steps [OF close_expired_steps])

section \<open>Issuing\<close>

lemma request_checks_Inr:
  assumes "request_checks env arg purpose domains ttl approver = Inr (r, ask)"
  shows "arg = Some (lr_policy r) \<and> policy_key env arg = Inr (lr_key r) \<and> as_purpose purpose = Some (lr_purpose r) \<and> approver = Some ask
    \<and> ttl = PInt (lr_ttl r) \<and> 1 \<le> lr_ttl r \<and> lr_ttl r \<le> 900
    \<and> (\<exists>ds. domains = PTuple (map PStr ds) \<and> lr_domains r = sorted_set (map lower ds) \<and> list_all is_exact_dns_hostname ds)"
proof -
  from assms obtain k where k: "policy_key env arg = Inr k" by (auto simp: request_checks_def)
  then obtain p where p: "arg = Some p" by (auto simp: policy_key_Inr)
  from assms k p obtain pu where pu: "as_purpose purpose = Some pu"
    by (cases "as_purpose purpose") (simp_all add: request_checks_def)
  from assms k p pu obtain ds where ds: "tuple_items as_str domains = Some ds"
    by (cases "tuple_items as_str domains") (simp_all add: request_checks_def)
  have d: "domains = PTuple (map PStr ds)" using ds by (cases domains) (simp_all add: tuple_items_def)
  from assms k p pu ds obtain n where n: "ttl = PInt n"
    by (cases ttl) (simp_all add: request_checks_def Let_def split: if_splits)
  from assms k p pu ds n have g: "ds \<noteq> []" "list_all is_exact_dns_hostname ds" "1 \<le> n" "n \<le> 900" "approver = Some ask"
      "r = \<lparr>lr_policy = p, lr_key = k, lr_purpose = pu, lr_domains = sorted_set (map lower ds), lr_ttl = n\<rparr>"
    by (cases approver; simp add: request_checks_def Let_def lease_limits split: if_splits)+
  show ?thesis using g k p pu d n by auto
qed

lemma request_lease_issued:
  assumes "request_lease env arg purpose domains ttl now_arg clock apt tok approver during s = (Inr i, s')"
  obtains r ask where "request_checks env arg purpose domains ttl approver = Inr (r, ask)" "lr_key r \<notin> revoking s"
    "ask (approval_of r (''ap-net-'' @ apt)) = Inr (PBool True)" "s' = during s"
    "request_commit env r (generation_of s (lr_key r)) (''ap-net-'' @ apt) tok (if now_arg = PNone then PInt clock else now_arg) s' = Inr i"
  using assms unfolding request_lease_def request_snapshot_def Let_def
  by (auto split: sum.splits if_splits)

lemma request_commit_Inr:
  assumes "request_commit env r gen approval tok now s = Inr i"
  shows "lr_key r \<notin> revoking s \<and> generation_of s (lr_key r) = gen \<and> valid_lease (lease i)
    \<and> lease_run_id (lease i) = run_id (lr_policy r) \<and> lease_ticket_id (lease i) = ticket_id (lr_policy r)
    \<and> lease_step (lease i) = step (lr_policy r) \<and> lease_policy_hash (lease i) = policy_hash (net_sha256 env) (lr_policy r)
    \<and> lease_purpose (lease i) = lr_purpose r \<and> lease_domains (lease i) = canonical_domains (lr_domains r)
    \<and> lease_generation (lease i) = gen \<and> now = PInt (issued_at (lease i))
    \<and> expires_at (lease i) = issued_at (lease i) + lr_ttl r * NANOSECONDS_PER_SECOND
    \<and> (\<exists>payload. canonical_payload (lease i) = Inr payload \<and> signature i = net_hmac env (auth_key s) payload)"
proof -
  obtain expiry l payload where c: "lr_key r \<notin> revoking s" "generation_of s (lr_key r) = gen"
      "py_add now (lr_ttl r * NANOSECONDS_PER_SECOND) = Inr expiry"
      "mk_network_lease
             \<lparr>larg_schema_version = PInt NETWORK_LEASE_SCHEMA_VERSION, larg_lease_id = PStr tok, larg_approval_id = PStr approval,
              larg_run_id = PStr (run_id (lr_policy r)), larg_ticket_id = PStr (ticket_id (lr_policy r)),
              larg_step = PStr (step (lr_policy r)), larg_policy_hash = PStr (policy_hash (net_sha256 env) (lr_policy r)),
              larg_purpose = purpose_arg (lr_purpose r), larg_allowed_domains = PTuple (map PStr (lr_domains r)),
              larg_port = PInt HTTPS_PORT, larg_issued_at = now, larg_expires_at = expiry, larg_generation = PInt gen\<rparr> = Inr l"
      "canonical_payload l = Inr payload" "mk_issued_lease (Some l) (PStr (net_hmac env (auth_key s) payload)) = Inr i"
    using assms by (auto simp: request_commit_def split: if_splits)
  from c(6) have i: "lease i = l" "signature i = net_hmac env (auth_key s) payload"
    by (auto simp: mk_issued_lease_def split: if_splits)
  from c(4) obtain t where t: "now = PInt t" by (auto simp: mk_network_lease_def lease_declared_types_def)
  with c(3) have e: "expiry = PInt (t + lr_ttl r * NANOSECONDS_PER_SECOND)" by (simp add: py_add_def)
  from c(4) have l: "l = \<lparr>lease_schema_version = NETWORK_LEASE_SCHEMA_VERSION, lease_id = tok, approval_id = approval,
      lease_run_id = run_id (lr_policy r), lease_ticket_id = ticket_id (lr_policy r), lease_step = step (lr_policy r),
      lease_policy_hash = policy_hash (net_sha256 env) (lr_policy r), lease_purpose = lr_purpose r,
      lease_domains = canonical_domains (lr_domains r), lease_port = HTTPS_PORT, issued_at = t,
      expires_at = t + lr_ttl r * NANOSECONDS_PER_SECOND, lease_generation = gen\<rparr>"
    by (auto simp: mk_network_lease_def typed_lease_def tuple_items_def Let_def t e)
  have "valid_lease l" using mk_network_lease_valid [OF c(4)] by blast
  with c(1,2,5) show ?thesis unfolding i l t by simp
qed

section \<open>Epochs\<close>

text \<open>
  What a client of the authority relies on: a token is accepted only while its stamp is the current
  epoch of its scope, and epochs never go back; so a token that was superseded once is never accepted
  again, whatever the threads do.
\<close>

locale epoch_authority =
  fixes move :: "'s \<Rightarrow> 's \<Rightarrow> bool"
    and epoch :: "'s \<Rightarrow> 'k \<Rightarrow> int"
    and accepts :: "'s \<Rightarrow> 't \<Rightarrow> bool"
    and scope_of :: "'t \<Rightarrow> 'k"
    and stamp :: "'t \<Rightarrow> int"
  assumes epoch_mono: "move s s' \<Longrightarrow> epoch s k \<le> epoch s' k"
    and accepts_current: "accepts s t \<Longrightarrow> stamp t = epoch s (scope_of t)"
begin

lemma epoch_mono_moves: "move\<^sup>*\<^sup>* s s' \<Longrightarrow> epoch s k \<le> epoch s' k"
  by (induction rule: rtranclp_induct) (auto dest: epoch_mono [of _ _ k])

lemma superseded_never_accepted: "stamp t < epoch s (scope_of t) \<Longrightarrow> move\<^sup>*\<^sup>* s s' \<Longrightarrow> \<not> accepts s' t"
  using epoch_mono_moves [of s s' "scope_of t"] accepts_current [of s' t] by auto

end

definition lease_accepted :: "net_env \<Rightarrow> authority \<Rightarrow> issued_lease \<Rightarrow> bool" where
  "lease_accepted env s i \<longleftrightarrow> (\<exists>arg purpose now. verify_scope env (Some i) arg purpose now s = Inr ())"

lemma verify_scope_cases:
  assumes "verify_scope env (Some i) arg purpose now s = Inr ()"
  obtains k where "policy_key env arg = Inr k" "verify_scope_locked env i arg k purpose now s = Inr ()"
  using assms by (auto simp: verify_scope_def)

lemma verify_request_scope:
  "verify_request env (Some i) arg purpose hostname port now s = Inr () \<Longrightarrow> verify_scope env (Some i) arg purpose now s = Inr ()"
  by (auto simp: verify_request_def verify_scope_def verify_request_locked_iff)

interpretation epochs: epoch_authority "auth_step env" generation_of "lease_accepted env" "\<lambda>i. lease_key (lease i)"
    "\<lambda>i. lease_generation (lease i)" for env
proof unfold_locales
  show "generation_of s k \<le> generation_of s' k" if "auth_step env s s'" for s s' k
    using step_generation_mono [OF that] .
  show "lease_generation (lease i) = generation_of s (lease_key (lease i))" if "lease_accepted env s i" for s i
    using that by (auto simp: lease_accepted_def elim!: verify_scope_cases dest: verified_scope)
qed

lemma scope_guard_accepts: "scope_guard env (Some i) arg purpose clock s = Inr () \<Longrightarrow> lease_accepted env s i"
  by (force simp: scope_guard_def lease_accepted_def verify_scope_def split: clock_arg.splits)

lemma registered_accepts:
  assumes "register_active_connection env confirms others i arg purpose hostname port now token close pending clock release s = (Inr h, s')"
    and "honest env others"
  shows "\<exists>s1. auth_steps env s s1 \<and> lease_accepted env s1 i"
proof -
  obtain c r b where a: "register_args close release pending clock = Inr (c, r, b)"
    using assms(1) by (auto simp: register_active_connection_def split: sum.splits)
  obtain res s1 where e: "close_expired_connections confirms others now s = (res, s1)" by (metis prod.exhaust)
  have st: "auth_steps env s s1" using close_expired_steps [OF assms(2), of s confirms now] e by simp
  obtain k t where k: "policy_key env arg = Inr k"
      "register_locked env i arg k purpose hostname port t token c r b s1 = (Inr h, s')"
    using assms(1) a e by (auto simp: register_active_connection_def split: sum.splits)
  then have "verify_request_locked env i arg k purpose hostname port t s1 = Inr ()"
    by (auto simp: register_locked_def Let_def split: sum.splits)
  then have "verify_scope env (Some i) arg purpose t s1 = Inr ()" using k(1) by (simp add: verify_request_locked_iff verify_scope_def)
  with st show ?thesis by (auto simp: lease_accepted_def)
qed

section \<open>Closing connections\<close>

lemma dict_set_same: "dict_get d k = Some v \<Longrightarrow> dict_set k v d = d"
  by (induction d) (auto split: if_splits)

lemma dict_set_set: "dict_set k v (dict_set k w d) = dict_set k v d"
  by (induction d) auto

lemma dict_del_set_same: "dict_del k (dict_set k v d) = dict_del k d"
  by (induction d) (auto simp: AList.delete_eq)

lemma live_entry_get: "live_entry h s = Some e \<Longrightarrow> dict_get (active_connections s) (connection_id h) = Some e \<and> conn_handle e = h"
  by (auto simp: live_entry_def split: option.splits if_splits)

subsection \<open>Undisturbed\<close>

text \<open>Closing a connection that nobody else is closing removes it, or leaves it as it was.\<close>

lemma close_one_live:
  assumes "live_entry h s = Some e" and "\<not> conn_closing e"
  shows "close_one confirms (alone finished) h s = (if confirms (close_callback e) then (1, 0, drop_entry h s) else (0, 1, s))"
proof -
  note g = live_entry_get [OF assms(1)]
  have l: "live_entry h (put_entry (e\<lparr>conn_closing := True\<rparr>) s) = Some (e\<lparr>conn_closing := True\<rparr>)"
    using g by (simp add: live_entry_def put_entry_def)
  have "drop_entry h (put_entry (e\<lparr>conn_closing := True\<rparr>) s) = drop_entry h s"
    using g by (simp add: drop_entry_def put_entry_def dict_del_set_same)
  moreover have "put_entry (e\<lparr>conn_closing := True\<rparr>\<lparr>conn_closing := False\<rparr>) (put_entry (e\<lparr>conn_closing := True\<rparr>) s) = s"
  proof -
    have "e\<lparr>conn_closing := True\<rparr>\<lparr>conn_closing := False\<rparr> = e" using assms(2) by simp
    then show ?thesis using g by (simp add: put_entry_def dict_set_set dict_set_same)
  qed
  ultimately show ?thesis
    using assms l by (simp add: close_one_def close_begin_def close_end_def)
qed

lemma close_one_closing:
  assumes "live_entry h s = Some e" and "conn_closing e"
  shows "close_one confirms (alone finished) h s = (0, 1, s)"
  using assms by (simp add: close_one_def close_begin_def)

lemma close_one_gone: "live_entry h s = None \<Longrightarrow> close_one confirms (alone finished) h s = (0, 0, s)"
  by (simp add: close_one_def close_begin_def)

lemma auth_inv_id: "auth_inv s \<Longrightarrow> dict_get (active_connections s) cid = Some x \<Longrightarrow> connection_id (conn_handle x) = cid"
  by (simp add: auth_inv_def conn_ok_def)

lemma drop_entry_connections:
  assumes "auth_inv s" and "live_entry h s = Some e"
  shows "connections (drop_entry h s) = filter (\<lambda>x. x \<noteq> e) (connections s)"
proof -
  let ?d = "active_connections s"
  have ok: "dict_ok ?d" using assms(1) by (simp add: auth_inv_def)
  have id: "connection_id h \<noteq> fst q \<longleftrightarrow> snd q \<noteq> e" if m: "q \<in> set ?d" for q
  proof -
    have "dict_get ?d (fst q) = Some (snd q)" using dict_get_mem [OF ok, of "fst q" "snd q"] m by simp
    then show ?thesis using live_entry_get [OF assms(2)] auth_inv_id [OF assms(1)] by (metis option.inject)
  qed
  have "connections (drop_entry h s) = map snd (filter (\<lambda>q. connection_id h \<noteq> fst q) ?d)"
    by (simp add: connections_def drop_entry_def AList.delete_eq case_prod_beta')
  also have "filter (\<lambda>q. connection_id h \<noteq> fst q) ?d = filter (\<lambda>q. snd q \<noteq> e) ?d"
    by (rule filter_cong [OF refl]) (rule id)
  finally show ?thesis by (simp add: connections_def filter_map comp_def)
qed

definition closable :: "(nat \<Rightarrow> bool) \<Rightarrow> connection \<Rightarrow> bool" where
  "closable confirms e \<longleftrightarrow> \<not> conn_closing e \<and> confirms (close_callback e)"

lemma close_one_spec:
  "close_one confirms (alone finished) h s = (case live_entry h s of
       None \<Rightarrow> (0, 0, s)
     | Some e \<Rightarrow> if closable confirms e then (1, 0, drop_entry h s) else (0, 1, s))"
proof (cases "live_entry h s")
  case (Some e)
  then show ?thesis
    by (cases "conn_closing e") (simp_all add: closable_def close_one_live close_one_closing)
qed (simp add: close_one_gone)

lemma live_entry_conn: "live_entry h s = Some e \<Longrightarrow> e \<in> set (connections s) \<and> conn_handle e = h"
  using map_of_SomeD [of "active_connections s" "connection_id h" e] live_entry_get [of h s e] by (force simp: connections_def)

lemma conn_live_entry:
  assumes "auth_inv s" and "e \<in> set (connections s)"
  shows "live_entry (conn_handle e) s = Some e"
proof -
  obtain cid where m: "(cid, e) \<in> set (active_connections s)" using assms(2) by (auto simp: connections_def)
  then have g: "dict_get (active_connections s) cid = Some e" using assms(1) dict_get_mem by (force simp: auth_inv_def)
  with auth_inv_id [OF assms(1) g] show ?thesis by (simp add: live_entry_def)
qed

lemma live_entry_drop_other:
  assumes "live_entry h s = Some e" and "h' \<noteq> h"
  shows "live_entry h' (drop_entry h s) = live_entry h' s"
proof (cases "connection_id h' = connection_id h")
  case True
  with assms live_entry_get [OF assms(1)] show ?thesis by (auto simp: live_entry_def drop_entry_def)
next
  case False
  then show ?thesis by (simp add: live_entry_def drop_entry_def)
qed

lemma close_loop_spec:
  assumes "auth_inv s" and "distinct hs" and "close_loop confirms (alone finished) hs s = (c, f, s')"
  shows "connections s' = filter (\<lambda>e. \<not> (conn_handle e \<in> set hs \<and> closable confirms e)) (connections s)
    \<and> f = length (filter (\<lambda>h. \<exists>e. live_entry h s = Some e \<and> \<not> closable confirms e) hs)
    \<and> generations s' = generations s \<and> revoking s' = revoking s \<and> auth_inv s'"
  using assms
proof (induction hs arbitrary: s c f s')
  case (Cons h hs)
  obtain c1 f1 s1 where one: "close_one confirms (alone finished) h s = (c1, f1, s1)" by (metis prod_cases3)
  obtain c2 f2 where rest: "close_loop confirms (alone finished) hs s1 = (c2, f2, s')" "c = c1 + c2" "f = f1 + f2"
    using Cons.prems(3) one by (auto split: prod.splits)
  have "auth_inv s1" "generations s1 = generations s" "revoking s1 = revoking s"
    using one Cons.prems(1) by (auto simp: close_one_spec drop_entry_def [of h s, symmetric] split: option.splits if_splits
        intro: auth_inv_drop) (simp_all add: drop_entry_def)
  moreover have "connections s1 = filter (\<lambda>e. \<not> (conn_handle e = h \<and> closable confirms e)) (connections s)"
  proof (cases "\<exists>e. live_entry h s = Some e \<and> closable confirms e")
    case True
    then obtain e where e: "live_entry h s = Some e" "closable confirms e" by blast
    have "x \<noteq> e \<longleftrightarrow> \<not> (conn_handle x = h \<and> closable confirms x)" if "x \<in> set (connections s)" for x
      using conn_live_entry [OF Cons.prems(1) that] e live_entry_conn [OF e(1)] by auto
    moreover have "connections s1 = filter (\<lambda>x. x \<noteq> e) (connections s)"
      using one e drop_entry_connections [OF Cons.prems(1) e(1)] by (simp add: close_one_spec)
    ultimately show ?thesis by (simp cong: filter_cong)
  next
    case False
    have "\<not> (conn_handle x = h \<and> closable confirms x)" if "x \<in> set (connections s)" for x
      using conn_live_entry [OF Cons.prems(1) that] False by blast
    moreover have "s1 = s" using one False by (auto simp: close_one_spec split: option.splits if_splits)
    ultimately show ?thesis by (simp add: filter_id_conv)
  qed
  moreover have "live_entry h' s1 = live_entry h' s" if "h' \<in> set hs" for h'
  proof -
    have "h' \<noteq> h" using that Cons.prems(2) by auto
    with one live_entry_drop_other show ?thesis by (auto simp: close_one_spec split: option.splits if_splits)
  qed
  then have "filter (\<lambda>h. \<exists>e. live_entry h s1 = Some e \<and> \<not> closable confirms e) hs
      = filter (\<lambda>h. \<exists>e. live_entry h s = Some e \<and> \<not> closable confirms e) hs"
    by (intro filter_cong) simp_all
  moreover have "f1 = (if \<exists>e. live_entry h s = Some e \<and> \<not> closable confirms e then 1 else 0)"
    using one by (auto simp: close_one_spec split: option.splits if_splits)
  moreover have "distinct hs" using Cons.prems(2) by simp
  note ih = Cons.IH [OF _ this rest(1)]
  ultimately have "auth_inv s'" "generations s' = generations s" "revoking s' = revoking s"
      "f = length (filter (\<lambda>h. \<exists>e. live_entry h s = Some e \<and> \<not> closable confirms e) (h # hs))"
      "connections s' = filter (\<lambda>e. \<not> (conn_handle e \<in> set hs \<and> closable confirms e))
         (filter (\<lambda>e. \<not> (conn_handle e = h \<and> closable confirms e)) (connections s))"
    using rest(3) by simp_all
  then show ?case by (auto intro!: filter_cong)
qed simp

lemma distinct_handles:
  assumes "auth_inv s"
  shows "distinct (map conn_handle (connections s))"
proof -
  have "distinct (map fst (active_connections s))" using assms by (simp add: auth_inv_def dict_ok_def)
  moreover have "fst q = connection_id (conn_handle (snd q))" if "q \<in> set (active_connections s)" for q
    using assms that auth_inv_id [OF assms] dict_get_mem [of "active_connections s" "fst q" "snd q"]
    by (simp add: auth_inv_def)
  then have "map fst (active_connections s) = map (connection_id \<circ> conn_handle) (connections s)"
    by (simp add: connections_def)
  ultimately have "distinct (map connection_id (map conn_handle (connections s)))" by simp
  then show ?thesis unfolding distinct_map [of connection_id] by (rule conjunct1)
qed

lemma close_filtered:
  assumes "auth_inv s" and "close_active_connections confirms (alone finished) (map conn_handle (filter P (connections s))) s = (res, s')"
  shows "connections s' = filter (\<lambda>e. \<not> (P e \<and> closable confirms e)) (connections s) \<and> generations s' = generations s
    \<and> revoking s' = revoking s \<and> auth_inv s'
    \<and> (let bad = filter (\<lambda>e. P e \<and> \<not> closable confirms e) (connections s)
       in (\<exists>n. res = Inr n) = (bad = []) \<and> (bad \<noteq> [] \<longrightarrow> res = Inl (NetworkLeaseConnectionCloseError (length bad))))"
proof -
  let ?hs = "map conn_handle (filter P (connections s))"
  obtain c f s1 where l: "close_loop confirms (alone finished) ?hs s = (c, f, s1)" by (metis prod_cases3)
  have d: "distinct ?hs" using distinct_handles [OF assms(1)] distinct_map_filter by blast
  note spec = close_loop_spec [OF assms(1) d l]
  have mem: "conn_handle e \<in> set ?hs \<longleftrightarrow> P e" if "e \<in> set (connections s)" for e
    using that distinct_handles [OF assms(1)] by (auto simp: distinct_map inj_on_def)
  have live: "(\<exists>x. live_entry (conn_handle e) s = Some x \<and> \<not> closable confirms x) \<longleftrightarrow> \<not> closable confirms e"
    if "e \<in> set (connections s)" for e using conn_live_entry [OF assms(1) that] by simp
  have f: "f = length (filter (\<lambda>e. P e \<and> \<not> closable confirms e) (connections s))"
  proof -
    have "f = length (filter (\<lambda>e. \<exists>x. live_entry (conn_handle e) s = Some x \<and> \<not> closable confirms x) (filter P (connections s)))"
      using spec by (simp add: filter_map comp_def)
    also have "filter (\<lambda>e. \<exists>x. live_entry (conn_handle e) s = Some x \<and> \<not> closable confirms x) (filter P (connections s))
        = filter (\<lambda>e. P e \<and> \<not> closable confirms e) (connections s)"
      using live by (simp add: conj_comms cong: filter_cong)
    finally show ?thesis .
  qed
  have "connections s1 = filter (\<lambda>e. \<not> (P e \<and> closable confirms e)) (connections s)"
    using spec mem by (auto intro!: filter_cong)
  moreover have "s' = s1" "res = (if 0 < f then Inl (NetworkLeaseConnectionCloseError f) else Inr c)"
    using assms(2) l by (auto simp: close_active_connections_def)
  ultimately show ?thesis using spec f by (auto simp: Let_def)
qed

subsection \<open>Among other threads\<close>

text \<open>A handle whose connection has gone stays gone: new connections get new handles.\<close>

definition gone_for_good :: "conn_handle \<Rightarrow> authority \<Rightarrow> bool" where
  "gone_for_good h s \<longleftrightarrow> live_entry h s = None \<and> handle_serial h < next_serial s"

lemma live_entry_put:
  "live_entry h (put_entry e s) = (if connection_id h = connection_id (conn_handle e) then (if conn_handle e = h then Some e else None) else live_entry h s)"
  by (simp add: live_entry_def put_entry_def)

lemma live_entry_drop:
  "live_entry h (drop_entry h' s) = (if connection_id h = connection_id h' then None else live_entry h s)"
  by (simp add: live_entry_def drop_entry_def)

lemma live_entry_same: "active_connections s' = active_connections s \<Longrightarrow> live_entry h s' = live_entry h s"
  by (simp add: live_entry_def)

lemma next_serial_simps [simp]:
  "next_serial (put_entry e s) = next_serial s" "next_serial (drop_entry h s) = next_serial s"
  by (simp_all add: put_entry_def drop_entry_def)

lemma gone_put: "gone_for_good h s \<Longrightarrow> live_entry h' s = Some e \<Longrightarrow> conn_handle e' = conn_handle e \<Longrightarrow> gone_for_good h (put_entry e' s)"
  using live_entry_get [of h' s e] by (auto simp: gone_for_good_def live_entry_put)

lemma gone_drop: "gone_for_good h s \<Longrightarrow> gone_for_good h (drop_entry h' s)"
  by (simp add: gone_for_good_def live_entry_drop)

lemma gone_register: "gone_for_good h s \<Longrightarrow> gone_for_good h (snd (register_locked env i arg k purpose hostname port now token close release pending s))"
  by (auto simp: register_locked_def Let_def gone_for_good_def live_entry_put split: sum.split) (auto simp: live_entry_def)

lemma gone_step: "auth_step env s s' \<Longrightarrow> gone_for_good h s \<Longrightarrow> gone_for_good h s'"
proof (induction rule: auth_step.induct)
  case (close_started s h')
  then show ?case by (auto simp: close_begin_def intro: gone_put split: option.split)
next
  case (close_ended s h' c)
  then show ?case by (auto simp: close_end_def intro: gone_put gone_drop split: option.split)
next
  case (release_started s h')
  then show ?case by (auto simp: release_begin_def intro: gone_put gone_drop split: option.split)
next
  case (promoted s h' now close)
  then show ?case by (auto simp: promote_locked_def intro: gone_put split: option.split)
qed (simp_all add: gone_register, auto simp: gone_for_good_def sweep_begin_def sweep_finish_def revoke_begin_def revoke_finish_def live_entry_def Let_def)

lemma gone_steps: "auth_steps env s s' \<Longrightarrow> gone_for_good h s \<Longrightarrow> gone_for_good h s'"
  by (induction rule: rtranclp_induct) (auto intro: gone_step)

lemma next_serial_step: "auth_step env s s' \<Longrightarrow> next_serial s \<le> next_serial s'"
  by (induction rule: auth_step.induct)
    (auto simp: register_locked_def Let_def close_begin_def close_end_def release_begin_def promote_locked_def sweep_begin_def
      sweep_finish_def revoke_begin_def revoke_finish_def split: sum.splits option.splits)

lemma next_serial_steps: "auth_steps env s s' \<Longrightarrow> next_serial s \<le> next_serial s'"
  by (induction rule: rtranclp_induct) (auto dest: next_serial_step)

definition serial_inv :: "authority \<Rightarrow> bool" where
  "serial_inv s \<longleftrightarrow> (\<forall>h e. live_entry h s = Some e \<longrightarrow> handle_serial h < next_serial s)"

lemma serial_inv_put: "serial_inv s \<Longrightarrow> live_entry h' s = Some e \<Longrightarrow> conn_handle e' = conn_handle e \<Longrightarrow> serial_inv (put_entry e' s)"
  using live_entry_get [of h' s e] by (auto simp: serial_inv_def live_entry_put)

lemma serial_inv_drop: "serial_inv s \<Longrightarrow> serial_inv (drop_entry h' s)"
  by (auto simp: serial_inv_def live_entry_drop)

lemma serial_inv_register: "serial_inv s \<Longrightarrow> serial_inv (snd (register_locked env i arg k purpose hostname port now token close release pending s))"
  by (auto simp: register_locked_def Let_def serial_inv_def live_entry_put split: sum.split if_splits)
    (metis live_entry_same less_SucI authority.select_convs(4) authority.surjective authority.update_convs(5))

lemma serial_inv_step: "auth_step env s s' \<Longrightarrow> serial_inv s \<Longrightarrow> serial_inv s'"
proof (induction rule: auth_step.induct)
  case (close_started s h')
  then show ?case by (auto simp: close_begin_def intro: serial_inv_put split: option.split)
next
  case (close_ended s h' c)
  then show ?case by (auto simp: close_end_def intro: serial_inv_put serial_inv_drop split: option.split)
next
  case (release_started s h')
  then show ?case by (auto simp: release_begin_def intro: serial_inv_put serial_inv_drop split: option.split)
next
  case (promoted s h' now close)
  then show ?case by (auto simp: promote_locked_def intro: serial_inv_put split: option.split)
qed (simp_all add: serial_inv_register, auto simp: serial_inv_def sweep_begin_def sweep_finish_def revoke_begin_def revoke_finish_def live_entry_def Let_def)

lemma serial_inv_steps: "auth_steps env (mk_authority key) s \<Longrightarrow> serial_inv s"
proof (induction rule: rtranclp_induct)
  case base
  show ?case by (simp add: serial_inv_def mk_authority_def live_entry_def)
qed (rule serial_inv_step)

lemma connection_serial: "auth_inv s \<Longrightarrow> serial_inv s \<Longrightarrow> e \<in> set (connections s) \<Longrightarrow> handle_serial (conn_handle e) < next_serial s"
  using conn_live_entry [of s e] by (auto simp: serial_inv_def)

lemma close_end_confirmed: "live_entry h (close_end h True s) = None"
  by (auto simp: close_end_def live_entry_drop split: option.split)

text \<open>A turn without a failure leaves its connection gone, whoever closed it.\<close>

lemma close_one_counts:
  assumes "honest env others" and "close_one confirms others h s = (c, f, s')" and "handle_serial h < next_serial s"
  shows "f \<le> 1 \<and> (f = 0 \<longrightarrow> gone_for_good h s') \<and> handle_serial h < next_serial s'"
proof -
  have n: "handle_serial h < next_serial s'"
    using next_serial_steps [OF close_one_steps [OF assms(1), of s confirms h]] assms(2,3) by simp
  obtain st s1 where b: "close_begin h (mw_before others h s) = (st, s1)" by (metis prod.exhaust)
  have "f \<le> 1 \<and> (f = 0 \<longrightarrow> live_entry h s' = None)"
  proof (cases st)
    case Gone
    with b have "live_entry h s1 = None" by (auto simp: close_begin_def split: option.splits if_splits)
    with b Gone assms(2) show ?thesis by (simp add: close_one_def)
  next
    case Already_closing
    with b assms(2) show ?thesis by (auto simp: close_one_def split: prod.splits if_splits)
  next
    case (Call cb)
    with b assms(2) show ?thesis by (auto simp: close_one_def Let_def close_end_confirmed split: if_splits)
  qed
  with n show ?thesis by (simp add: gone_for_good_def)
qed

lemma close_loop_counts:
  assumes "honest env others"
  shows "close_loop confirms others hs s = (c, f, s') \<Longrightarrow> \<forall>h\<in>set hs. handle_serial h < next_serial s \<Longrightarrow>
    f \<le> length hs \<and> (f = 0 \<longrightarrow> (\<forall>h\<in>set hs. gone_for_good h s'))"
proof (induction hs arbitrary: s c f)
  case (Cons h hs)
  obtain c1 f1 s1 where one: "close_one confirms others h s = (c1, f1, s1)" by (metis prod_cases3)
  obtain c2 f2 where rest: "close_loop confirms others hs s1 = (c2, f2, s')" "f = f1 + f2"
    using Cons.prems(1) one by (auto split: prod.splits)
  note o = close_one_counts [OF assms one]
  have steps: "auth_steps env s s1" "auth_steps env s1 s'"
    using close_one_steps [OF assms, of s confirms h] one close_loop_steps [OF assms, of s1 confirms hs] rest(1) by simp_all
  have "\<forall>h\<in>set hs. handle_serial h < next_serial s1"
    using Cons.prems(2) next_serial_steps [OF steps(1)] by fastforce
  with Cons.IH [OF rest(1)] o Cons.prems(2) rest(2) gone_steps [OF steps(2), of h] show ?case by auto
qed simp

lemma close_active_counts:
  assumes "honest env others" and "close_active_connections confirms others hs s = (res, s')" and "\<forall>h\<in>set hs. handle_serial h < next_serial s"
  shows "(\<exists>n. res = Inl (NetworkLeaseConnectionCloseError n) \<and> 0 < n \<and> n \<le> length hs) \<or> (\<exists>c. res = Inr c) \<and> (\<forall>h\<in>set hs. gone_for_good h s')"
proof -
  obtain c f s1 where l: "close_loop confirms others hs s = (c, f, s1)" by (metis prod_cases3)
  from close_loop_counts [OF assms(1) l assms(3)] assms(2) l gone_steps [OF honestD(4) [OF assms(1)]] show ?thesis
    by (auto simp: close_active_connections_def split: if_splits)
qed

text \<open>Nothing fails when every callback confirms and the other threads finish the closes this thread waits for.\<close>

definition finishes_closes :: "meanwhile \<Rightarrow> bool" where
  "finishes_closes others \<longleftrightarrow> (\<forall>h s e. live_entry h s = Some e \<longrightarrow> conn_closing e \<longrightarrow>
     fst (mw_wait others h s) \<and> live_entry h (snd (mw_wait others h s)) = None)"

lemma close_one_no_failure:
  assumes "\<forall>cb. confirms cb" and "finishes_closes others"
  shows "fst (snd (close_one confirms others h s)) = 0"
proof (cases "live_entry h (mw_before others h s)")
  case (Some e)
  obtain b s2 where w: "mw_wait others h (mw_before others h s) = (b, s2)" by (metis prod.exhaust)
  have "b \<and> live_entry h s2 = None" if "conn_closing e"
    using assms(2) [unfolded finishes_closes_def, rule_format, OF Some that] w by simp
  with Some w assms(1) show ?thesis
    by (cases "conn_closing e") (simp_all add: close_one_def close_begin_def Let_def)
qed (simp add: close_one_def close_begin_def)

lemma close_active_no_failure:
  assumes "\<forall>cb. confirms cb" and "finishes_closes others"
  shows "\<exists>c. fst (close_active_connections confirms others hs s) = Inr c"
proof -
  have "fst (snd (close_loop confirms others hs s)) = 0"
  proof (induction hs arbitrary: s)
    case (Cons h hs)
    then show ?case using close_one_no_failure [OF assms, of h s] by (auto split: prod.splits) (metis fst_conv snd_conv)
  qed simp
  then show ?thesis by (auto simp: close_active_connections_def split: prod.splits)
qed

section \<open>What the authority guarantees\<close>

lemma revoked_not_accepted:
  assumes "request_lease env arg purpose domains ttl now_arg clock apt tok approver during s = (Inr i, s0)"
    and "auth_steps env s0 s1" and "revoke env confirms others arg s1 = (res, s2)" and "auth_steps env s2 s3"
    and "honest env others"
  shows "\<not> lease_accepted env s3 i"
proof -
  from assms(1) obtain r ask where r: "request_checks env arg purpose domains ttl approver = Inr (r, ask)"
    "request_commit env r (generation_of s (lr_key r)) (''ap-net-'' @ apt) tok (if now_arg = PNone then PInt clock else now_arg) s0 = Inr i"
    by (rule request_lease_issued)
  note c = request_commit_Inr [OF r(2)]
  have k: "policy_key env arg = Inr (lr_key r)" "arg = Some (lr_policy r)" using request_checks_Inr [OF r(1)] by auto
  then have key: "lease_key (lease i) = lr_key r" using c by (auto simp: policy_key_Inr lease_key_def)
  have "lease_generation (lease i) < generation_of s2 (lease_key (lease i))"
    using c steps_generation_mono [OF assms(2), of "lr_key r"] revoke_generation [OF assms(3) k(1) assms(5)] key by simp
  from epochs.superseded_never_accepted [OF this assms(4)] show ?thesis .
qed

text \<open>C2. Once the scope of an issued lease has been revoked, even if the revocation reports connections
  that would not close, that lease is never accepted again: not by a check, not by a guard and not to
  register a connection, whatever the threads of the host do in between, during the revocation and during the registration.\<close>

theorem revoked_lease_never_accepted:
  assumes "request_lease env arg purpose domains ttl now_arg clock apt tok approver during s = (Inr i, s0)"
    and "auth_steps env s0 s1" and "revoke env confirms others arg s1 = (res, s2)" and "auth_steps env s2 s3"
    and "honest env others" and "honest env others'"
  shows "\<not> lease_accepted env s3 i
    \<and> fst (register_active_connection env confirms' others' i arg' purpose' hostname port now token close pending clock' release s3) \<noteq> Inr h"
proof -
  note never = revoked_not_accepted [OF assms(1-3) _ assms(5)]
  have "\<nexists>s'. register_active_connection env confirms' others' i arg' purpose' hostname port now token close pending clock' release s3 = (Inr h, s')"
    using registered_accepts [of env confirms' others' i arg' purpose' hostname port now token close pending clock' release s3 h]
      never assms(4,6) by (meson rtranclp_trans)
  with never [OF assms(4)] show ?thesis by (metis prod.collapse)
qed

text \<open>C34. In every state the threads can reach, as long as a connection of a superseded generation is still
  registered, its scope is closed: no lease of the scope is accepted and none is issued.\<close>

theorem stale_connection_closes_scope:
  assumes "auth_steps env (mk_authority key) s" and "e \<in> set (connections s)"
    and "lease_generation (conn_lease e) \<noteq> generation_of s (conn_key e)" and "policy_key env arg = Inr (conn_key e)"
  shows "verify_scope env (Some i) arg purpose now s \<noteq> Inr ()
    \<and> fst (request_lease env arg purpose domains ttl now_arg clock apt tok approver during s) \<noteq> Inr i"
proof -
  have "auth_inv s" using auth_inv_steps [OF assms(1) auth_inv_mk] .
  from auth_inv_conn [OF this assms(2)] assms(3) have rev: "conn_key e \<in> revoking s" by (simp add: conn_ok_def)
  have "verify_scope env (Some i) arg purpose now s \<noteq> Inr ()"
    using rev assms(4) by (auto elim!: verify_scope_cases dest: verified_scope)
  moreover have "fst (request_lease env arg purpose domains ttl now_arg clock apt tok approver during s) \<noteq> Inr i"
  proof
    assume "fst (request_lease env arg purpose domains ttl now_arg clock apt tok approver during s) = Inr i"
    then obtain s' where "request_lease env arg purpose domains ttl now_arg clock apt tok approver during s = (Inr i, s')"
      by (metis prod.collapse)
    then obtain r ask where r: "request_checks env arg purpose domains ttl approver = Inr (r, ask)" "lr_key r \<notin> revoking s"
      by (rule request_lease_issued)
    with request_checks_Inr [OF r(1)] assms(4) rev show False by auto
  qed
  ultimately show ?thesis ..
qed

lemma revoke_closes:
  assumes "revoke env confirms others arg s = (res, s')" and "policy_key env arg = Inr k"
  obtains r s2 where "close_active_connections confirms others (map conn_handle (filter (\<lambda>e. conn_key e = k) (connections s))) (snd (snd (revoke_begin k s))) = (r, s2)"
    "(res, s') = (case r of Inl e \<Rightarrow> (Inl e, s2) | Inr _ \<Rightarrow> (Inr (generation_of s k + 1), revoke_finish k s2))"
proof -
  define s1 where "s1 = snd (snd (revoke_begin k s))"
  have b: "revoke_begin k s = (map conn_handle (filter (\<lambda>e. conn_key e = k) (connections s)), generation_of s k + 1, s1)"
    by (simp add: s1_def revoke_begin_def Let_def connections_def)
  obtain r s2 where c: "close_active_connections confirms others (map conn_handle (filter (\<lambda>e. conn_key e = k) (connections s))) s1 = (r, s2)"
    by (metis prod.exhaust)
  have "(res, s') = (case r of Inl e \<Rightarrow> (Inl e, s2) | Inr _ \<Rightarrow> (Inr (generation_of s k + 1), revoke_finish k s2))"
    using assms b c by (cases r) (simp_all add: revoke_def)
  with c that show ?thesis unfolding s1_def by blast
qed

text \<open>An undisturbed revocation removes exactly the connections of the scope whose close is confirmed.\<close>

lemma revoke_alone:
  assumes "auth_inv s" and "policy_key env arg = Inr k" and "revoke env confirms (alone finished) arg s = (res, s')"
  shows "generation_of s' k = generation_of s k + 1
    \<and> connections s' = filter (\<lambda>e. \<not> (conn_key e = k \<and> closable confirms e)) (connections s)
    \<and> (let left = filter (\<lambda>e. conn_key e = k) (connections s') in
       if left = [] then res = Inr (generation_of s' k) \<and> k \<notin> revoking s'
       else res = Inl (NetworkLeaseConnectionCloseError (length left)) \<and> k \<in> revoking s')"
proof -
  obtain s1 where b: "revoke_begin k s = (map conn_handle (filter (\<lambda>e. conn_key e = k) (connections s1)), generation_of s k + 1, s1)"
    and s1: "s1 = snd (snd (revoke_begin k s))" by (simp add: revoke_begin_def Let_def)
  have i: "auth_inv s1" using auth_inv_revoke_begin [OF assms(1)] s1 by simp
  have c1: "connections s1 = connections s" using s1 by (simp add: connections_def revoke_begin_state)
  obtain r s2 where c: "close_active_connections confirms (alone finished) (map conn_handle (filter (\<lambda>e. conn_key e = k) (connections s1))) s1 = (r, s2)"
    by (metis prod.exhaust)
  note cf = close_filtered [OF i c]
  have g: "generation_of s2 k = generation_of s k + 1"
    using cf s1 by (simp add: generation_of_def revoke_begin_def Let_def)
  have left: "filter (\<lambda>e. conn_key e = k) (connections s2) = filter (\<lambda>e. conn_key e = k \<and> \<not> closable confirms e) (connections s1)"
    using cf by (auto intro!: filter_cong)
  have out: "(res, s') = (case r of Inl e \<Rightarrow> (Inl e, s2) | Inr _ \<Rightarrow> (Inr (generation_of s k + 1), revoke_finish k s2))"
    using assms(2,3) b c by (cases r) (simp_all add: revoke_def)
  show ?thesis
  proof (cases r)
    case (Inl x)
    with out have "res = Inl x" "s' = s2" by simp_all
    moreover have "k \<in> revoking s2" using cf s1 by (simp add: revoke_begin_state)
    ultimately show ?thesis using cf g left Inl c1 by (auto simp: Let_def)
  next
    case (Inr n)
    with out have o: "res = Inr (generation_of s k + 1)" "s' = revoke_finish k s2" by simp_all
    from cf Inr have none: "filter (\<lambda>e. conn_key e = k) (connections s2) = []" unfolding left by (simp add: Let_def)
    then have "\<not> list_ex (\<lambda>e. conn_key e = k) (connections s2)" by (auto simp: list_ex_iff filter_empty_conv)
    with o have s': "s' = s2\<lparr>revoking := revoking s2 - {k}\<rparr>" by (simp add: revoke_finish_def)
    then have "connections s' = connections s2" by (simp add: connections_def)
    then show ?thesis using cf g none o(1) c1 s' by (simp add: Let_def)
  qed
qed

text \<open>C37. A revocation raises the generation of its scope. Whatever the other threads of the host do between its critical
  sections: when it returns, it returns the generation it set, and every connection of the scope it found is gone for good,
  closed by itself or by another thread; otherwise it reports the number of closes that failed, at most one for each of those
  connections; and as long as a connection of a superseded generation is registered its scope stays closed. When every callback
  confirms and the other threads finish the closes it waits for, it does return. Undisturbed, it removes exactly the connections
  of the scope that it can close, and reports the number of the others.\<close>

theorem revoke_outcome:
  assumes "auth_steps env (mk_authority key) s" and "policy_key env arg = Inr k" and "revoke env confirms others arg s = (res, s')"
    and "honest env others"
  shows "generation_of s k < generation_of s' k
    \<and> (case res of
         Inr g \<Rightarrow> g = generation_of s k + 1 \<and> (\<forall>e\<in>set (connections s). conn_key e = k \<longrightarrow> gone_for_good (conn_handle e) s')
       | Inl x \<Rightarrow> \<exists>n. x = NetworkLeaseConnectionCloseError n \<and> 0 < n \<and> n \<le> length (filter (\<lambda>e. conn_key e = k) (connections s)))
    \<and> (\<forall>e\<in>set (connections s'). lease_generation (conn_lease e) \<noteq> generation_of s' (conn_key e) \<longrightarrow> conn_key e \<in> revoking s')
    \<and> ((\<forall>cb. confirms cb) \<and> finishes_closes others \<longrightarrow> res = Inr (generation_of s k + 1))
    \<and> (\<forall>finished. others = alone finished \<longrightarrow>
        connections s' = filter (\<lambda>e. \<not> (conn_key e = k \<and> closable confirms e)) (connections s)
        \<and> (let left = filter (\<lambda>e. conn_key e = k) (connections s') in
           if left = [] then res = Inr (generation_of s k + 1) \<and> k \<notin> revoking s'
           else res = Inl (NetworkLeaseConnectionCloseError (length left)) \<and> k \<in> revoking s'))"
proof -
  have inv: "auth_inv s" and ser: "serial_inv s" using auth_inv_steps [OF assms(1) auth_inv_mk] serial_inv_steps [OF assms(1)] .
  let ?s1 = "snd (snd (revoke_begin k s))" and ?hs = "map conn_handle (filter (\<lambda>e. conn_key e = k) (connections s))"
  have steps: "auth_steps env s s'"
    using revoke_steps [OF assms(3,2,4)] revoke_started by (rule converse_rtranclp_into_rtranclp [rotated])
  from assms(3,2) obtain r s2 where c: "close_active_connections confirms others ?hs ?s1 = (r, s2)"
    "(res, s') = (case r of Inl e \<Rightarrow> (Inl e, s2) | Inr _ \<Rightarrow> (Inr (generation_of s k + 1), revoke_finish k s2))" by (rule revoke_closes)
  have "next_serial ?s1 = next_serial s" by (simp add: revoke_begin_def Let_def)
  then have n: "\<forall>h\<in>set ?hs. handle_serial h < next_serial ?s1" using connection_serial [OF inv ser] by auto
  have fin: "gone_for_good h (revoke_finish k s2)" if "gone_for_good h s2" for h using gone_step [OF revoke_ended that] .
  have "case res of
         Inr g \<Rightarrow> g = generation_of s k + 1 \<and> (\<forall>e\<in>set (connections s). conn_key e = k \<longrightarrow> gone_for_good (conn_handle e) s')
       | Inl x \<Rightarrow> \<exists>n. x = NetworkLeaseConnectionCloseError n \<and> 0 < n \<and> n \<le> length (filter (\<lambda>e. conn_key e = k) (connections s))"
    using close_active_counts [OF assms(4) c(1) n] c(2) fin by auto
  moreover have "lease_generation (conn_lease e) \<noteq> generation_of s' (conn_key e) \<longrightarrow> conn_key e \<in> revoking s'" if "e \<in> set (connections s')" for e
    using auth_inv_conn [OF auth_inv_steps [OF steps inv] that] by (simp add: conn_ok_def)
  moreover have "(\<forall>cb. confirms cb) \<and> finishes_closes others \<longrightarrow> res = Inr (generation_of s k + 1)"
    using close_active_no_failure [of confirms others ?hs ?s1] c by auto
  moreover have "connections s' = filter (\<lambda>e. \<not> (conn_key e = k \<and> closable confirms e)) (connections s)
        \<and> (let left = filter (\<lambda>e. conn_key e = k) (connections s') in
           if left = [] then res = Inr (generation_of s k + 1) \<and> k \<notin> revoking s'
           else res = Inl (NetworkLeaseConnectionCloseError (length left)) \<and> k \<in> revoking s')" if "others = alone finished" for finished
    using revoke_alone [OF inv assms(2) assms(3) [unfolded that]] by (metis (no_types, lifting))
  ultimately show ?thesis using revoke_generation [OF assms(3,2,4)] by blast
qed

text \<open>An undisturbed sweep that reports success leaves no expired and no revoked connection registered.\<close>

lemma sweep_leaves_no_stale:
  assumes "auth_inv s" and "close_expired_connections confirms (alone finished) (PInt now) s = (Inr n, s')"
  shows "\<forall>e\<in>set (connections s'). \<not> stale s' now e"
proof -
  obtain keys s1 where b: "sweep_begin now s = (map conn_handle (filter (stale s now) (connections s1)), keys, s1)"
    and s1: "s1 = snd (snd (sweep_begin now s))" by (simp add: sweep_begin_def Let_def connections_def)
  have i: "auth_inv s1" using auth_inv_sweep_begin [OF assms(1)] s1 by simp
  obtain r s2 where c: "close_active_connections confirms (alone finished) (map conn_handle (filter (stale s now) (connections s1))) s1 = (r, s2)"
    by (metis prod.exhaust)
  note cf = close_filtered [OF i c]
  from assms(2) b c have r: "r = Inr n" "s' = sweep_finish now keys s2"
    by (auto simp: close_expired_connections_def split: if_splits sum.splits)
  have gen: "generation_of s' k = generation_of s k" for k
    using cf s1 r(2) by (simp add: generation_of_def sweep_begin_def sweep_finish_def Let_def)
  have "connections s' = connections s2" using r(2) by (simp add: connections_def sweep_finish_def)
  moreover from cf r(1) have "filter (\<lambda>e. stale s now e \<and> \<not> closable confirms e) (connections s1) = []" by (simp add: Let_def)
  ultimately have "\<forall>e\<in>set (connections s'). \<not> stale s now e" using cf by (auto simp: filter_empty_conv)
  then show ?thesis using gen by (simp add: stale_def)
qed

text \<open>A monitor that is healthy after a turn of its thread has swept: every connection that had expired or whose generation
  was revoked when the turn began is gone, and if no other thread interfered no such connection is registered at all.\<close>

theorem healthy_monitor_has_swept:
  assumes "auth_steps env (mk_authority key) s" and "mon_turn confirms others now (m, s) = (m', s')" and "0 \<le> now"
    and "healthy_guard m' = Inr ()" and "honest env others"
  shows "(\<forall>e\<in>set (connections s). expires_at (conn_lease e) \<le> now \<or> lease_generation (conn_lease e) \<noteq> generation_of s (conn_key e) \<longrightarrow>
      gone_for_good (conn_handle e) s')
    \<and> (\<forall>finished. others = alone finished \<longrightarrow>
      (\<forall>e\<in>set (connections s'). now < expires_at (conn_lease e) \<and> lease_generation (conn_lease e) = generation_of s' (conn_key e)))"
proof -
  have inv: "auth_inv s" and ser: "serial_inv s" using auth_inv_steps [OF assms(1) auth_inv_mk] serial_inv_steps [OF assms(1)] .
  obtain r s1 where c: "close_expired_connections confirms others (PInt now) s = (r, s1)" by (metis prod.exhaust)
  from assms(2,4) c obtain n where r: "r = Inr n" "s' = s1"
    by (cases r) (auto simp: mon_turn_def healthy_guard_def split: if_splits)
  obtain keys t where b: "sweep_begin now s = (map conn_handle (filter (stale s now) (connections s)), keys, t)" "next_serial t = next_serial s"
    by (simp add: sweep_begin_def Let_def)
  obtain x s2 where a: "close_active_connections confirms others (map conn_handle (filter (stale s now) (connections s))) t = (x, s2)"
    by (metis prod.exhaust)
  from c r b a have o: "x = Inr n" "s' = sweep_finish now keys s2"
    using assms(3) by (auto simp: close_expired_connections_def split: sum.splits)
  have "\<forall>h\<in>set (map conn_handle (filter (stale s now) (connections s))). handle_serial h < next_serial t"
    using connection_serial [OF inv ser] b(2) by auto
  from close_active_counts [OF assms(5) a this] o(1)
  have "gone_for_good (conn_handle e) s'" if "e \<in> set (connections s)" "stale s now e" for e
    using that gone_step [OF sweep_ended] unfolding o(2) by auto
  moreover have "now < expires_at (conn_lease e) \<and> lease_generation (conn_lease e) = generation_of s' (conn_key e)"
    if "others = alone finished" "e \<in> set (connections s')" for finished e
    using sweep_leaves_no_stale [OF inv c [unfolded that(1) r]] that(2) by (simp add: stale_def expired_def not_le r)
  ultimately show ?thesis by (simp add: stale_def expired_def)
qed

lemma canonical_domains_lower: "canonical_domains (sorted_set (map lower ds)) = sorted_set (map lower ds)"
proof -
  have "(if is_exact_dns_hostname d then lower d else d) = d" if "d \<in> set (sorted_set (map lower ds))" for d
    using that by auto
  then have "map (\<lambda>d. if is_exact_dns_hostname d then lower d else d) (sorted_set (map lower ds)) = sorted_set (map lower ds)"
    by (rule map_idI)
  then show ?thesis by (simp add: canonical_domains_def)
qed

text \<open>A lease is issued only when the approver answered \<^verbatim>\<open>True\<close> to the very request, and it is exactly what
  was asked: the requested domains in lower case, HTTPS, the requested time of at most fifteen
  minutes, the scope and its current generation.\<close>

theorem issued_lease_is_what_was_approved:
  assumes "request_lease env arg purpose domains ttl now_arg clock apt tok approver during s = (Inr i, s')"
  shows "\<exists>p ds n ask r. arg = Some p \<and> domains = PTuple (map PStr ds) \<and> ttl = PInt n \<and> approver = Some ask
    \<and> 1 \<le> n \<and> n \<le> 900 \<and> expires_at (lease i) = issued_at (lease i) + n * 1000000000
    \<and> ask (approval_of r (''ap-net-'' @ apt)) = Inr (PBool True) \<and> lr_domains r = lease_domains (lease i) \<and> lr_ttl r = n \<and> lr_policy r = p
    \<and> set (lease_domains (lease i)) = lower ` set ds \<and> length (lease_domains (lease i)) \<le> 32 \<and> lease_port (lease i) = 443
    \<and> as_purpose purpose = Some (lease_purpose (lease i))
    \<and> policy_key env arg = Inr (lease_key (lease i)) \<and> lease_generation (lease i) = generation_of s' (lease_key (lease i))"
proof -
  from assms obtain r ask where r: "request_checks env arg purpose domains ttl approver = Inr (r, ask)"
    "ask (approval_of r (''ap-net-'' @ apt)) = Inr (PBool True)"
    "request_commit env r (generation_of s (lr_key r)) (''ap-net-'' @ apt) tok (if now_arg = PNone then PInt clock else now_arg) s' = Inr i"
    by (rule request_lease_issued)
  note ck = request_checks_Inr [OF r(1)] and c = request_commit_Inr [OF r(3)]
  from ck obtain ds where ds: "domains = PTuple (map PStr ds)" "lr_domains r = sorted_set (map lower ds)" by blast
  have key: "lease_key (lease i) = lr_key r" using c ck by (auto simp: policy_key_Inr lease_key_def)
  have dom: "lease_domains (lease i) = lr_domains r" using c ds(2) by (simp add: canonical_domains_lower)
  have v: "valid_lease (lease i)" using c by blast
  have pk: "arg = Some (lr_policy r)" "policy_key env (Some (lr_policy r)) = Inr (lr_key r)" using ck by auto
  show ?thesis
    using r(2) ck c ds key dom v pk
    by (intro exI [of _ "lr_policy r"] exI [of _ ds] exI [of _ "lr_ttl r"] exI [of _ ask] exI [of _ r])
      (simp add: valid_lease_def NANOSECONDS_PER_SECOND_def)
qed

lemma step_auth_key: "auth_step env s s' \<Longrightarrow> auth_key s' = auth_key s"
  by (induction rule: auth_step.induct)
    (auto simp: register_locked_def Let_def close_begin_def close_end_def release_begin_def promote_locked_def sweep_begin_def
      sweep_finish_def revoke_begin_def revoke_finish_def put_entry_def drop_entry_def split: sum.splits option.splits)

lemma steps_auth_key: "auth_steps env s s' \<Longrightarrow> auth_key s' = auth_key s"
  by (induction rule: rtranclp_induct) (auto dest: step_auth_key)

text \<open>C36. A lease presented with the signature of an issued lease is accepted only if it is that lease in every
  field, provided the two payloads do not collide under the HMAC.\<close>

theorem tampered_lease_refused:
  assumes "request_lease env arg purpose domains ttl now_arg clock apt tok approver during s = (Inr i, s0)"
    and "auth_steps env s0 s1" and "verify_scope env (Some j) arg' purpose' now s1 = Inr ()" and "signature j = signature i"
    and "\<And>x y. canonical_payload (lease i) = Inr x \<Longrightarrow> canonical_payload (lease j) = Inr y \<Longrightarrow>
      net_hmac env (auth_key s0) x = net_hmac env (auth_key s0) y \<Longrightarrow> x = y"
  shows "j = i"
proof -
  from assms(1) obtain r ask where
    "request_commit env r (generation_of s (lr_key r)) (''ap-net-'' @ apt) tok (if now_arg = PNone then PInt clock else now_arg) s0 = Inr i"
    by (rule request_lease_issued)
  then obtain x where x: "canonical_payload (lease i) = Inr x" "signature i = net_hmac env (auth_key s0) x"
    using request_commit_Inr by blast
  from assms(3) obtain k where "verify_scope_locked env j arg' k purpose' now s1 = Inr ()" by (rule verify_scope_cases)
  then obtain y where y: "canonical_payload (lease j) = Inr y" "net_hmac env (auth_key s1) y = signature j"
    by (auto simp: verify_scope_locked_iff verify_signature_iff)
  have "net_hmac env (auth_key s0) x = net_hmac env (auth_key s0) y"
    using x(2) y(2) assms(4) steps_auth_key [OF assms(2)] by metis
  then have "x = y" by (rule assms(5) [OF x(1) y(1)])
  then have "lease j = lease i" using canonical_payload_inj x(1) y(1) by blast
  with assms(4) show ?thesis by (simp add: issued_lease.equality)
qed

text \<open>A failed registration of sockets leaves the process with the descriptors it had.\<close>

lemma failed_registration_leaks_nothing:
  assumes "register_active_sockets gone env confirms others i arg purpose hostname port now token (Some ks) clock cc rc (s, fds) = (Inl e, s', fds')"
    and "\<And>k fd. k \<in> set ks \<Longrightarrow> dup_answer k = Some fd \<Longrightarrow> fd \<notin> fds \<and> gone fd"
  shows "fds' = fds"
proof -
  have "set (fst (dup_sockets ks')) \<inter> fds = {} \<and> list_all gone (fst (dup_sockets ks'))" if "set ks' \<subseteq> set ks" for ks'
    using that assms(2) by (induction ks') (auto split: option.splits prod.splits)
  then have d: "set (fst (dup_sockets ks)) \<inter> fds = {}" "filter gone (fst (dup_sockets ks)) = fst (dup_sockets ks)"
    by (auto simp: list_all_iff filter_id_conv)
  have "check_sockets (Some ks) = Inr ks'' \<Longrightarrow> ks'' = ks" for ks'' by (auto simp: check_sockets_def)
  with d assms(1) show ?thesis
    by (fastforce simp: register_active_sockets_def discard_owned_sockets_def Let_def split: sum.splits prod.splits if_splits)
qed

section \<open>Concrete instances\<close>

definition hex64 :: string where
  "hex64 = replicate 64 (CHR ''0'')"

definition demo_net_env :: net_env where
  "demo_net_env = \<lparr>net_sha256 = (\<lambda>_. hex64), net_hmac = (\<lambda>_ _. hex64)\<rparr>"

definition demo_net_lease :: network_lease where
  "demo_net_lease = \<lparr>lease_schema_version = 2, lease_id = replicate 32 (CHR ''0''), approval_id = ''ap-net-0'', lease_run_id = ''r'',
     lease_ticket_id = ''t'', lease_step = ''review'', lease_policy_hash = hex64, lease_purpose = WEB_READ, lease_domains = [''a.io''],
     lease_port = 443, issued_at = 5, expires_at = 60000000005, lease_generation = 1\<rparr>"

definition demo_issued :: issued_lease where
  "demo_issued = \<lparr>lease = demo_net_lease, signature = hex64\<rparr>"

definition demo_request :: lease_request where
  "demo_request = \<lparr>lr_policy = demo_narrow, lr_key = (''r'', ''t'', ''review'', hex64), lr_purpose = WEB_READ, lr_domains = [''a.io''], lr_ttl = 60\<rparr>"

definition demo_ask :: "approval_request \<Rightarrow> pyval res" where
  "demo_ask r = Inr (PBool True)"

lemma hex64_ok: "length hex64 = 64" "list_all hex_lower hex64"
  by (simp_all add: hex64_def list_all_iff hex_lower_def)

lemma demo_hostname_any: "is_exact_dns_hostname ''a.io''"
proof -
  have "lower ''a.io'' = ''a.io''" "list_all is_ascii ''a.io''" by code_simp+
  then show ?thesis using demo_hostname by (simp add: is_exact_dns_hostname_def)
qed

lemma demo_texts: "lease_text ''ap-net-0''" "lease_text ''r''" "lease_text ''t''" "lease_text ''review''"
proof -
  have s: "list_all is_scalar v" for v :: string by (simp add: list_all_iff)
  have "visible_text ''ap-net-0''" by code_simp
  then show "lease_text ''ap-net-0''" "lease_text ''r''" "lease_text ''t''" "lease_text ''review''"
    using demo_visible s by (simp_all add: lease_text_def)
qed

lemma demo_lease_valid: "valid_lease demo_net_lease"
proof -
  have "list_all hex_lower (replicate 32 (CHR ''0''))" by (simp add: list_all_iff hex_lower_def)
  then show ?thesis using hex64_ok demo_texts demo_hostname_any by (simp add: valid_lease_def demo_net_lease_def)
qed

lemma demo_key: "policy_key demo_net_env (Some demo_narrow) = Inr (''r'', ''t'', ''review'', hex64)"
  unfolding policy_key_Inr using demo_valid(2)
  by (simp add: deny_only_def policy_hash_def demo_net_env_def) (simp add: demo_narrow_def demo_policy_def)

lemma demo_lease_key: "lease_key demo_net_lease = (''r'', ''t'', ''review'', hex64)"
  by (simp add: lease_key_def demo_net_lease_def)

lemma demo_checks:
  "request_checks demo_net_env (Some demo_narrow) (purpose_arg WEB_READ) (PTuple [PStr ''a.io'']) (PInt 60) (Some demo_ask) = Inr (demo_request, demo_ask)"
proof -
  have "sorted_set (map lower [''a.io'']) = [''a.io'']" by code_simp
  then show ?thesis
    by (simp add: request_checks_def demo_key tuple_items_def demo_hostname_any lease_limits demo_request_def)
qed

lemma demo_commit:
  assumes "generations s = []" and "revoking s = {}"
  shows "request_commit demo_net_env demo_request 1 ''ap-net-0'' (replicate 32 (CHR ''0'')) (PInt 5) s = Inr demo_issued"
proof -
  have "lower ''a.io'' = ''a.io''" by code_simp
  then have c: "canonical_domains [''a.io''] = [''a.io'']"
    using demo_hostname_any by (simp add: canonical_domains_def sorted_set_def)
  have p: "run_id demo_narrow = ''r''" "ticket_id demo_narrow = ''t''" "step demo_narrow = ''review''"
    by (simp_all add: demo_narrow_def demo_policy_def)
  have mk: "mk_network_lease
             \<lparr>larg_schema_version = PInt NETWORK_LEASE_SCHEMA_VERSION, larg_lease_id = PStr (replicate 32 (CHR ''0'')), larg_approval_id = PStr ''ap-net-0'',
              larg_run_id = PStr ''r'', larg_ticket_id = PStr ''t'', larg_step = PStr ''review'', larg_policy_hash = PStr hex64,
              larg_purpose = purpose_arg WEB_READ, larg_allowed_domains = PTuple [PStr ''a.io''],
              larg_port = PInt HTTPS_PORT, larg_issued_at = PInt 5, larg_expires_at = PInt 60000000005, larg_generation = PInt 1\<rparr> = Inr demo_net_lease"
    using demo_lease_valid
    by (simp add: mk_network_lease_def lease_declared_types_def typed_lease_def tuple_items_def Let_def c validate_lease_iff)
      (simp add: demo_net_lease_def lease_limits)
  have "mk_issued_lease (Some demo_net_lease) (PStr hex64) = Inr demo_issued"
    using hex64_ok by (simp add: mk_issued_lease_def pattern_iffs demo_issued_def)
  moreover obtain x where "canonical_payload demo_net_lease = Inr x" using demo_lease_valid canonical_payload_eq by blast
  ultimately show ?thesis
    using assms mk by (simp add: request_commit_def generation_of_def dict_get_or_def py_add_def demo_request_def p policy_hash_def demo_net_env_def
        NANOSECONDS_PER_SECOND_def)
qed

lemma demo_request_lease:
  "request_lease demo_net_env (Some demo_narrow) (purpose_arg WEB_READ) (PTuple [PStr ''a.io'']) (PInt 60) (PInt 5) 0 ''0'' (replicate 32 (CHR ''0''))
     (Some demo_ask) id (mk_authority ''k'') = (Inr demo_issued, mk_authority ''k'')"
proof -
  have k: "lr_key demo_request \<notin> revoking (mk_authority ''k'')" "generation_of (mk_authority ''k'') (lr_key demo_request) = 1"
    by (simp_all add: mk_authority_def generation_of_def dict_get_or_def)
  have "request_commit demo_net_env demo_request 1 ''ap-net-0'' (replicate 32 (CHR ''0'')) (PInt 5) (mk_authority ''k'') = Inr demo_issued"
    by (rule demo_commit) (simp_all add: mk_authority_def)
  then show ?thesis unfolding request_lease_def demo_checks using k by (simp add: request_snapshot_def demo_ask_def)
qed

lemma demo_verify:
  assumes "generations s = []" and "revoking s = {}"
  shows "verify_scope_locked demo_net_env demo_issued (Some demo_narrow) (''r'', ''t'', ''review'', hex64) (purpose_arg WEB_READ) (PInt 7) s = Inr ()"
proof -
  have "verify_signature demo_net_env demo_issued (''r'', ''t'', ''review'', hex64) s = Inr ()"
    using assms demo_lease_valid by (simp add: verify_signature_iff demo_issued_def canonical_payload_eq demo_net_env_def)
  moreover have "validate_scope (net_sha256 demo_net_env) demo_net_lease (Some demo_narrow) (purpose_arg WEB_READ) (PInt 7) 1 = Inr ()"
    unfolding validate_scope_iff using demo_lease_valid demo_valid(2) demo_key
    by (auto simp: policy_key_Inr lease_bound_def demo_net_lease_def)
  ultimately show ?thesis
    using assms by (simp add: verify_scope_locked_iff generation_of_def dict_get_or_def demo_issued_def)
qed

definition demo_conn :: connection where
  "demo_conn = \<lparr>conn_handle = \<lparr>connection_id = ''c'', handle_serial = 0\<rparr>, conn_key = (''r'', ''t'', ''review'', hex64), conn_lease = demo_net_lease,
     close_callback = 0, release_callback = None, conn_pending = False, conn_closing = False\<rparr>"

definition demo_auth :: authority where
  "demo_auth = \<lparr>auth_key = ''k'', generations = [], revoking = {}, active_connections = [(''c'', demo_conn)], next_serial = 1\<rparr>"

lemma demo_target_ok: "check_target demo_net_lease (PStr ''a.io'') (PInt 443) = Inr ()"
proof -
  have "lower ''a.io'' = ''a.io''" by code_simp
  then show ?thesis using demo_hostname_any by (simp add: check_target_iff demo_net_lease_def)
qed

lemma demo_register: "auth_step demo_net_env (mk_authority ''k'') demo_auth"
proof -
  have "verify_scope_locked demo_net_env demo_issued (Some demo_narrow) (''r'', ''t'', ''review'', hex64) (purpose_arg WEB_READ) (PInt 7)
      (mk_authority ''k'') = Inr ()" by (rule demo_verify) (simp_all add: mk_authority_def)
  with demo_target_ok have "verify_request_locked demo_net_env demo_issued (Some demo_narrow) (''r'', ''t'', ''review'', hex64) (purpose_arg WEB_READ)
      (PStr ''a.io'') (PInt 443) (PInt 7) (mk_authority ''k'') = Inr ()"
    by (simp add: verify_request_locked_iff demo_issued_def)
  then have "snd (register_locked demo_net_env demo_issued (Some demo_narrow) (''r'', ''t'', ''review'', hex64) (purpose_arg WEB_READ)
      (PStr ''a.io'') (PInt 443) (PInt 7) ''c'' 0 None False (mk_authority ''k'')) = demo_auth"
    by (simp add: register_locked_def Let_def mk_authority_def put_entry_def demo_auth_def demo_conn_def demo_issued_def)
  with registered [OF demo_key, of "mk_authority ''k''" demo_issued] show ?thesis by metis
qed

lemma demo_auth_inv: "auth_inv demo_auth"
  using auth_inv_step [OF demo_register auth_inv_mk] .

theorem revoked_lease_never_accepted_witness:
  "\<exists>s2. snd (revoke demo_net_env (\<lambda>_. True) (alone (\<lambda>_. True)) (Some demo_narrow) demo_auth) = s2 \<and> \<not> lease_accepted demo_net_env s2 demo_issued"
proof -
  obtain res s2 where r: "revoke demo_net_env (\<lambda>_. True) (alone (\<lambda>_. True)) (Some demo_narrow) demo_auth = (res, s2)" by (metis prod.exhaust)
  from revoked_lease_never_accepted [OF demo_request_lease r_into_rtranclp [where r = "auth_step demo_net_env", OF demo_register] r rtranclp.rtrancl_refl
    honest_alone honest_alone] r
  show ?thesis by simp
qed

theorem stale_connection_closes_scope_witness:
  "\<exists>s. snd (snd (revoke_begin (''r'', ''t'', ''review'', hex64) demo_auth)) = s
     \<and> verify_scope demo_net_env (Some demo_issued) (Some demo_narrow) (purpose_arg WEB_READ) (PInt 7) s \<noteq> Inr ()"
proof -
  let ?s = "snd (snd (revoke_begin (''r'', ''t'', ''review'', hex64) demo_auth))"
  have "auth_step demo_net_env demo_auth ?s" by (rule revoke_started)
  with demo_register have st: "auth_steps demo_net_env (mk_authority ''k'') ?s"
    by (meson r_into_rtranclp rtranclp.rtrancl_into_rtrancl)
  have m: "demo_conn \<in> set (connections ?s)" by (simp add: connections_def revoke_begin_state demo_auth_def)
  have g: "lease_generation (conn_lease demo_conn) \<noteq> generation_of ?s (conn_key demo_conn)"
    by (simp add: revoke_begin_state demo_conn_def demo_net_lease_def)
      (simp add: generation_of_def demo_auth_def dict_get_or_def)
  have k: "policy_key demo_net_env (Some demo_narrow) = Inr (conn_key demo_conn)" using demo_key by (simp add: demo_conn_def)
  from stale_connection_closes_scope [OF st m g k] show ?thesis by blast
qed

text \<open>Another thread is closing the connection when the revocation begins, and finishes while the revocation waits.\<close>

definition demo_finisher :: meanwhile where
  "demo_finisher = (alone (\<lambda>_. True))\<lparr>mw_wait := (\<lambda>h s. (True, close_end h True s))\<rparr>"

lemma demo_finisher_ok: "honest env demo_finisher" "finishes_closes demo_finisher"
  using close_ended by (auto simp: demo_finisher_def honest_def finishes_closes_def close_end_confirmed alone_def)

theorem revoke_outcome_witness:
  "fst (revoke demo_net_env (\<lambda>_. False) (alone (\<lambda>_. True)) (Some demo_narrow) demo_auth) = Inl (NetworkLeaseConnectionCloseError 1)
   \<and> fst (revoke demo_net_env (\<lambda>_. True) demo_finisher (Some demo_narrow) (snd (close_begin (conn_handle demo_conn) demo_auth))) = Inr 2"
proof
  let ?k = "(''r'', ''t'', ''review'', hex64)" and ?closing = "snd (close_begin (conn_handle demo_conn) demo_auth)"
  have st: "auth_steps demo_net_env (mk_authority ''k'') demo_auth" using demo_register by blast
  obtain res s' where r: "revoke demo_net_env (\<lambda>_. False) (alone (\<lambda>_. True)) (Some demo_narrow) demo_auth = (res, s')" by (metis prod.exhaust)
  note o = revoke_outcome [OF st demo_key r honest_alone, THEN conjunct2, THEN conjunct2, THEN conjunct2, THEN conjunct2, rule_format, OF refl]
  have "connections demo_auth = [demo_conn]" by (simp add: connections_def demo_auth_def)
  with o have "connections s' = [demo_conn]" by (simp add: closable_def)
  moreover have "conn_key demo_conn = ?k" by (simp add: demo_conn_def)
  ultimately have "filter (\<lambda>e. conn_key e = ?k) (connections s') = [demo_conn]" by simp
  with o r show "fst (revoke demo_net_env (\<lambda>_. False) (alone (\<lambda>_. True)) (Some demo_narrow) demo_auth) = Inl (NetworkLeaseConnectionCloseError 1)"
    by (simp add: Let_def)
  have st2: "auth_steps demo_net_env (mk_authority ''k'') ?closing" using st close_started by (rule rtranclp.rtrancl_into_rtrancl)
  obtain res2 s2 where r2: "revoke demo_net_env (\<lambda>_. True) demo_finisher (Some demo_narrow) ?closing = (res2, s2)" by (metis prod.exhaust)
  have "generation_of ?closing ?k = 1"
    by (simp add: close_begin_def live_entry_def demo_auth_def demo_conn_def) (simp add: generation_of_def dict_get_or_def)
  with revoke_outcome [OF st2 demo_key r2 demo_finisher_ok(1)] demo_finisher_ok(2)
  have "res2 = Inr 2" by auto
  with r2 show "fst (revoke demo_net_env (\<lambda>_. True) demo_finisher (Some demo_narrow) ?closing) = Inr 2" by simp
qed

theorem healthy_monitor_has_swept_witness:
  "connections demo_auth = [demo_conn] \<and> expires_at (conn_lease demo_conn) \<le> 70000000000
   \<and> {e \<in> set (connections (snd (mon_turn (\<lambda>_. True) (alone (\<lambda>_. True)) 70000000000
      (\<lparr>mon_thread = True, mon_alive = True, mon_started = True, mon_stopped = False, mon_failure_count = 0, mon_last_error = None\<rparr>, demo_auth)))).
     expires_at (conn_lease e) \<le> 70000000000} = {}"
proof -
  let ?m = "\<lparr>mon_thread = True, mon_alive = True, mon_started = True, mon_stopped = False, mon_failure_count = 0, mon_last_error = None\<rparr>"
  have "close_expired_connections (\<lambda>_. True) (alone (\<lambda>_. True)) (PInt 70000000000) demo_auth =
      (Inr 1, \<lparr>auth_key = ''k'', generations = [], revoking = {}, active_connections = [], next_serial = 1\<rparr>)"
    by (simp add: close_expired_connections_def sweep_begin_def Let_def connections_def demo_auth_def stale_def expired_def demo_conn_def
        demo_net_lease_def close_active_connections_def close_one_spec live_entry_def closable_def drop_entry_def sweep_finish_def)
  then have t: "mon_turn (\<lambda>_. True) (alone (\<lambda>_. True)) 70000000000 (?m, demo_auth) =
      (?m, \<lparr>auth_key = ''k'', generations = [], revoking = {}, active_connections = [], next_serial = 1\<rparr>)"
    by (simp add: mon_turn_def)
  have "healthy_guard ?m = Inr ()" by (simp add: healthy_guard_def)
  from healthy_monitor_has_swept [OF r_into_rtranclp [where r = "auth_step demo_net_env", OF demo_register] t _ this honest_alone] t show ?thesis
    by (simp add: connections_def demo_auth_def demo_conn_def demo_net_lease_def)
qed

theorem issued_lease_is_what_was_approved_witness:
  "expires_at (lease demo_issued) = issued_at (lease demo_issued) + 60 * 1000000000 \<and> set (lease_domains (lease demo_issued)) = {lower ''a.io''}"
  using issued_lease_is_what_was_approved [OF demo_request_lease] by auto

theorem tampered_lease_refused_witness:
  "verify_scope demo_net_env (Some demo_issued) (Some demo_narrow) (purpose_arg WEB_READ) (PInt 7) (mk_authority ''k'') = Inr ()
   \<and> demo_issued = demo_issued"
proof -
  have "verify_scope_locked demo_net_env demo_issued (Some demo_narrow) (''r'', ''t'', ''review'', hex64) (purpose_arg WEB_READ) (PInt 7)
      (mk_authority ''k'') = Inr ()" by (rule demo_verify) (simp_all add: mk_authority_def)
  then have v: "verify_scope demo_net_env (Some demo_issued) (Some demo_narrow) (purpose_arg WEB_READ) (PInt 7) (mk_authority ''k'') = Inr ()"
    using demo_key by (simp add: verify_scope_def)
  from tampered_lease_refused [OF demo_request_lease rtranclp.rtrancl_refl v refl] v show ?thesis by simp
qed

end
