(* ===== verification/Connect_Request.thy ===== *)
theory Connect_Request
  imports Network_Lease
begin

text \<open>
  \<^verbatim>\<open>src/icode/connect_request.py\<close>: the parser of the head of an HTTPS CONNECT request. Bytes are
  characters; every refusal is the same error.
\<close>

definition CRLF :: string where
  "CRLF = [CHR 13, CHR 10]"

definition HEADER_TERMINATOR :: string where
  "HEADER_TERMINATOR = CRLF @ CRLF"

definition MAX_CONNECT_REQUEST_HEAD_BYTES :: nat where
  "MAX_CONNECT_REQUEST_HEAD_BYTES = 16 * 1024"

definition MAX_CONNECT_REQUEST_HEADERS :: nat where
  "MAX_CONNECT_REQUEST_HEADERS = 32"

definition header_name_char :: "char \<Rightarrow> bool" where
  "header_name_char c \<longleftrightarrow> c \<in> set ''!#$%&*+.^_|~-'' \<or> c = CHR 39 \<or> c = CHR 96 \<or> is_digit c \<or> is_letter c"

definition HEADER_NAME_PATTERN :: regex where
  "HEADER_NAME_PATTERN = rplus (RCls header_name_char)"

definition HTTPS_PORT_TEXT :: string where
  "HTTPS_PORT_TEXT = ''443''"

definition invalid_request :: exc where
  "invalid_request = ConnectRequestError ''invalid or unsupported CONNECT request''"

record connect_target =
  target_hostname :: string
  target_port :: int

text \<open>\<^verbatim>\<open>b.split(CRLF)\<close>, and \<^verbatim>\<open>b.count(p)\<close> of a non-empty pattern: occurrences that do not overlap.\<close>

fun split_crlf :: "string \<Rightarrow> string list" where
  "split_crlf [] = [[]]"
| "split_crlf [c] = [[c]]"
| "split_crlf (c # d # s) =
     (if c = CHR 13 \<and> d = CHR 10 then [] # split_crlf s
      else (case split_crlf (d # s) of [] \<Rightarrow> [[c]] | y # ys \<Rightarrow> (c # y) # ys))"

fun count_sub :: "string \<Rightarrow> string \<Rightarrow> nat" where
  "count_sub p [] = 0"
| "count_sub p (c # s) =
     (if starts_with p (c # s) then Suc (count_sub p (drop (length p - 1) s)) else count_sub p s)"

section \<open>The fields\<close>

definition parse_authority :: "string \<Rightarrow> string res" where
  "parse_authority a = (case split_on (CHR '':'') a of
       [h, p] \<Rightarrow>
         if p \<noteq> HTTPS_PORT_TEXT then Inl invalid_request
         else if \<not> list_all is_ascii h then Inl invalid_request
         else if \<not> is_exact_dns_hostname h then Inl invalid_request
         else Inr (lower h)
     | _ \<Rightarrow> Inl invalid_request)"

definition is_blank :: "char \<Rightarrow> bool" where
  "is_blank c \<longleftrightarrow> c = CHR '' '' \<or> c = CHR 9"

definition host_of :: "string \<Rightarrow> string option" where
  "host_of h = (if \<not> list_all is_ascii h then None else if \<not> is_exact_dns_hostname h then None else Some (lower h))"

definition parse_host_field :: "string \<Rightarrow> string option" where
  "parse_host_field v = (case split_on (CHR '':'') (strip_of is_blank v) of
       [h] \<Rightarrow> host_of h
     | [h, p] \<Rightarrow> if p \<noteq> HTTPS_PORT_TEXT then None else host_of h
     | _ \<Rightarrow> None)"

definition header_value_char :: "char \<Rightarrow> bool" where
  "header_value_char c \<longleftrightarrow> \<not> ((of_char c :: nat) < 32 \<and> (of_char c :: nat) \<noteq> 9) \<and> (of_char c :: nat) \<noteq> 127"

text \<open>The loop over the header lines; \<open>n\<close> counts the \<^verbatim>\<open>Host\<close> fields so far.\<close>

fun check_headers :: "string \<Rightarrow> nat \<Rightarrow> string list \<Rightarrow> unit res" where
  "check_headers hostname n [] = raise_when (n \<noteq> 1) invalid_request"
| "check_headers hostname n (line # rest) =
     (if line = [] \<or> is_blank (hd line) then Inl invalid_request
      else let name = takeWhile (\<lambda>c. c \<noteq> CHR '':'') line; tail = dropWhile (\<lambda>c. c \<noteq> CHR '':'') line in
      if tail = [] \<or> name = [] then Inl invalid_request
      else let v = tl tail in
      if \<not> re_fullmatch HEADER_NAME_PATTERN name then Inl invalid_request
      else if \<not> list_all header_value_char v then Inl invalid_request
      else if lower name \<noteq> ''host'' then Inl invalid_request
      else if Suc n \<noteq> 1 \<or> parse_host_field v \<noteq> Some hostname then Inl invalid_request
      else check_headers hostname (Suc n) rest)"

text \<open>The lines of a head, before the terminator.\<close>

definition parse_lines :: "string list \<Rightarrow> connect_target res" where
  "parse_lines lines =
     (if lines = [] \<or> MAX_CONNECT_REQUEST_HEADERS < length lines - 1 then Inl invalid_request
      else if list_ex is_ascii_control (hd lines) then Inl invalid_request
      else (case split_on (CHR '' '') (hd lines) of
          [verb, authority, version] \<Rightarrow>
            if verb \<noteq> ''CONNECT'' then Inl invalid_request
            else bindr (parse_authority authority) (\<lambda>hostname.
              if version = ''HTTP/1.0'' then
                (if length lines \<noteq> 1 then Inl invalid_request
                 else Inr \<lparr>target_hostname = hostname, target_port = HTTPS_PORT\<rparr>)
              else if version \<noteq> ''HTTP/1.1'' then Inl invalid_request
              else bindr (check_headers hostname 0 (tl lines)) (\<lambda>_.
                Inr \<lparr>target_hostname = hostname, target_port = HTTPS_PORT\<rparr>))
        | _ \<Rightarrow> Inl invalid_request))"

definition parse_https_connect_request_head :: "pyval \<Rightarrow> connect_target res" where
  "parse_https_connect_request_head arg = (case arg of
       PBytes head \<Rightarrow>
         if head = [] \<or> MAX_CONNECT_REQUEST_HEAD_BYTES < length head then Inl invalid_request
         else if \<not> ends_with HEADER_TERMINATOR head \<or> count_sub HEADER_TERMINATOR head \<noteq> 1 then Inl invalid_request
         else parse_lines (split_crlf (take (length head - length HEADER_TERMINATOR) head))
     | _ \<Rightarrow> Inl invalid_request)"

section \<open>Splitting\<close>

lemma split_crlf_nonempty [simp]: "split_crlf s \<noteq> []"
  by (induction s rule: split_crlf.induct) (auto split: list.splits)

lemma join_split_crlf: "join CRLF (split_crlf s) = s"
proof (induction s rule: split_crlf.induct)
  case (3 c d s)
  show ?case
  proof (cases "c = CHR 13 \<and> d = CHR 10")
    case True
    then obtain y ys where "split_crlf s = y # ys" by (cases "split_crlf s") auto
    with 3 True show ?thesis by (simp add: CRLF_def)
  next
    case False
    then obtain y ys where y: "split_crlf (d # s) = y # ys" by (cases "split_crlf (d # s)") auto
    with 3 False show ?thesis by (cases ys) (auto simp: CRLF_def)
  qed
qed simp_all

lemma split_crlf_plain: "CHR 13 \<notin> set a \<Longrightarrow> split_crlf a = [a]"
  by (induction a rule: split_crlf.induct) auto

lemma split_crlf_append: "CHR 13 \<notin> set a \<Longrightarrow> split_crlf (a @ CRLF @ s) = a # split_crlf s"
proof (induction a)
  case (Cons c a)
  then obtain d t where t: "a @ CRLF @ s = d # t" by (cases "a @ CRLF @ s") (auto simp: CRLF_def)
  with Cons show ?case by (auto simp: CRLF_def)
qed (simp add: CRLF_def)

lemma count_sub_skip: "CHR 13 \<notin> set a \<Longrightarrow> count_sub HEADER_TERMINATOR (a @ s) = count_sub HEADER_TERMINATOR s"
  by (induction a) (auto simp: HEADER_TERMINATOR_def CRLF_def starts_with_def)

lemma count_sub_end: "count_sub HEADER_TERMINATOR HEADER_TERMINATOR = 1"
  by (simp add: HEADER_TERMINATOR_def CRLF_def starts_with_def)

lemma count_sub_line:
  assumes "CHR 13 \<notin> set b" and "b \<noteq> []"
  shows "count_sub HEADER_TERMINATOR (CRLF @ b @ HEADER_TERMINATOR) = 1"
proof -
  have "count_sub HEADER_TERMINATOR (CRLF @ b @ HEADER_TERMINATOR) = count_sub HEADER_TERMINATOR ([CHR 10] @ b @ HEADER_TERMINATOR)"
    using assms by (cases b) (auto simp: HEADER_TERMINATOR_def CRLF_def starts_with_def)
  also have "\<dots> = 1" using count_sub_skip [of "CHR 10 # b" HEADER_TERMINATOR] assms(1) count_sub_end by simp
  finally show ?thesis .
qed

lemma ends_with_append [simp]: "ends_with t (s @ t)"
  by (simp add: ends_with_def starts_with_def)

lemma ends_with_split: "ends_with t s \<Longrightarrow> s = take (length s - length t) s @ t"
proof -
  assume "ends_with t s"
  then have "drop (length s - length t) s = t"
    by (simp add: ends_with_def starts_with_def take_rev)
  then show "s = take (length s - length t) s @ t" by (metis append_take_drop_id)
qed

section \<open>What the parser accepts\<close>

lemma lower_nth_code: "c \<in> set ''host'' \<Longrightarrow> lower_char d = c \<Longrightarrow> d \<noteq> CHR 13"
  by (auto simp: lower_char_def Let_def split: if_splits)

lemma parse_authority_Inr:
  "parse_authority a = Inr h \<longleftrightarrow> (\<exists>d. a = d @ '':443'' \<and> is_exact_dns_hostname d \<and> CHR '':'' \<notin> set d \<and> h = lower d)"
proof
  assume "parse_authority a = Inr h"
  then obtain d p where s: "split_on (CHR '':'') a = [d, p]" and d: "p = ''443''" "is_exact_dns_hostname d" "h = lower d"
    by (auto simp: parse_authority_def HTTPS_PORT_TEXT_def split: list.splits if_splits)
  have "a = d @ '':'' @ p" using join_split_on [of "CHR '':''" a] s by simp
  moreover have "CHR '':'' \<notin> set d" using split_on_pieces [of d "CHR '':''" a] s by simp
  ultimately show "\<exists>d. a = d @ '':443'' \<and> is_exact_dns_hostname d \<and> CHR '':'' \<notin> set d \<and> h = lower d" using d by auto
next
  assume "\<exists>d. a = d @ '':443'' \<and> is_exact_dns_hostname d \<and> CHR '':'' \<notin> set d \<and> h = lower d"
  then obtain d where d: "a = d @ '':443''" "is_exact_dns_hostname d" "CHR '':'' \<notin> set d" "h = lower d" by blast
  then have "split_on (CHR '':'') a = [d, ''443'']" using split_on_append [of "CHR '':''" d "''443''"] by simp
  with d show "parse_authority a = Inr h"
    by (simp add: parse_authority_def HTTPS_PORT_TEXT_def is_exact_dns_hostname_def)
qed

lemma check_headers_one:
  "check_headers h 0 lines = Inr () \<longleftrightarrow> (\<exists>name v. lines = [name @ '':'' @ v] \<and> lower name = ''host'' \<and> CHR '':'' \<notin> set name
      \<and> list_all header_name_char name \<and> list_all header_value_char v \<and> parse_host_field v = Some h)"
proof (cases lines)
  case (Cons line rest)
  define name tail where nt: "name = takeWhile (\<lambda>c. c \<noteq> CHR '':'') line" "tail = dropWhile (\<lambda>c. c \<noteq> CHR '':'') line"
  have line: "line = name @ tail" by (simp add: nt)
  have c: "CHR '':'' \<notin> set name" by (auto simp: nt dest: set_takeWhileD)
  have t: "tail \<noteq> [] \<Longrightarrow> hd tail = CHR '':''" using hd_dropWhile [of "\<lambda>c. c \<noteq> CHR '':''" line] by (auto simp: nt)
  have uniq: "name = n \<and> tail = '':'' @ v" if "line = n @ '':'' @ v" "CHR '':'' \<notin> set n" for n v
  proof -
    have "\<And>x. x \<in> set n \<Longrightarrow> x \<noteq> CHR '':''" using that(2) by auto
    then show ?thesis using that(1) by (simp add: nt takeWhile_append2 dropWhile_append2)
  qed
  have blank: "\<not> is_blank (hd line)" if "name \<noteq> []" "list_all header_name_char name"
  proof -
    have "header_name_char (hd name)" using that by (cases name) auto
    moreover have "hd line = hd name" using that(1) line by simp
    ultimately show ?thesis by (auto simp: is_blank_def header_name_char_def is_digit_def is_letter_def is_lower_letter_def is_upper_letter_def)
  qed
  have more: "check_headers h (Suc 0) rest = Inr () \<longleftrightarrow> rest = []"
    by (cases rest) (auto simp: Let_def)
  have "check_headers h 0 lines = Inr () \<longleftrightarrow> tail \<noteq> [] \<and> list_all header_name_char name \<and> list_all header_value_char (tl tail)
      \<and> lower name = ''host'' \<and> parse_host_field (tl tail) = Some h \<and> rest = []"
    unfolding Cons check_headers.simps Let_def nt(1) [symmetric] nt(2) [symmetric]
    using blank line more by (auto simp: HEADER_NAME_PATTERN_def re_fullmatch_rplus lower_def)
  also have "\<dots> \<longleftrightarrow> (\<exists>name v. lines = [name @ '':'' @ v] \<and> lower name = ''host'' \<and> CHR '':'' \<notin> set name
      \<and> list_all header_name_char name \<and> list_all header_value_char v \<and> parse_host_field v = Some h)" (is "?a \<longleftrightarrow> ?b")
  proof
    assume a: ?a
    then have "tail = '':'' @ tl tail" using t by (cases tail) auto
    with a line c Cons show ?b by (intro exI [of _ name] exI [of _ "tl tail"]) auto
  next
    assume ?b
    then obtain n v where b: "line = n @ '':'' @ v" "rest = []" "lower n = ''host''" "CHR '':'' \<notin> set n" "list_all header_name_char n"
      "list_all header_value_char v" "parse_host_field v = Some h" using Cons by auto
    with uniq [OF b(1,4)] show ?a by simp
  qed
  finally show ?thesis .
qed (simp add: raise_when_def)

lemma hostname_char:
  assumes "is_exact_dns_hostname d" and "c \<in> set d"
  shows "c \<noteq> CHR '':'' \<and> c \<noteq> CHR '' '' \<and> c \<noteq> CHR 13 \<and> \<not> is_ascii_control c"
proof -
  have l: "is_exact_dns_hostname_ascii (lower d)" using assms(1) by (simp add: is_exact_dns_hostname_def)
  have "lower_char c \<in> set (lower d)" using assms(2) by (simp add: lower_def)
  then have "inner_char (lower_char c) \<or> lower_char c = CHR ''.''"
    using l set_split_on [of "lower d" "CHR ''.''"] unfolding hostname_iff_labels
    by (auto simp: dns_label_iff list_all_iff)
  then show ?thesis
    by (auto simp: label_char_def is_lower_letter_def is_digit_def is_ascii_control_def lower_char_def Let_def split: if_splits)
qed

lemma lower_char_code:
  "(of_char (lower_char c) :: nat) = (let n = of_char c in if 65 \<le> n \<and> n \<le> 90 \<or> 192 \<le> n \<and> n \<le> 222 \<and> n \<noteq> 215 then n + 32 else n)"
  using nat_of_char_less_256 [of c] by (auto simp: lower_char_def Let_def of_char_of take_bit_nat_def)

lemma lower_letter: "is_lower_letter (lower_char c) \<Longrightarrow> is_letter c"
  by (auto simp: is_lower_letter_def lower_char_code Let_def is_letter_def is_upper_letter_def split: if_splits)

lemma host_name_chars:
  assumes "lower name = ''host''"
  shows "list_all header_name_char name \<and> CHR '':'' \<notin> set name \<and> CHR 13 \<notin> set name \<and> name \<noteq> []"
proof -
  have "lower_char c \<in> set ''host''" if "c \<in> set name" for c
    using that assms by (metis (no_types, lifting) image_eqI list.set_map lower_def)
  then have "is_lower_letter (lower_char c)" if "c \<in> set name" for c
    using that by (fastforce simp: is_lower_letter_def)
  then have "is_letter c" if "c \<in> set name" for c using that lower_letter by blast
  moreover have "\<not> is_letter (CHR '':'')" "\<not> is_letter (CHR 13)" by code_simp+
  moreover have "name \<noteq> []" using assms by (auto simp: lower_def)
  ultimately show ?thesis unfolding list_all_iff header_name_char_def by blast
qed

definition connect_line :: "string \<Rightarrow> string \<Rightarrow> string" where
  "connect_line d version = ''CONNECT '' @ d @ '':443 '' @ version"

lemma connect_line_plain:
  assumes "is_exact_dns_hostname d" and "version = ''HTTP/1.0'' \<or> version = ''HTTP/1.1''"
  shows "CHR 13 \<notin> set (connect_line d version) \<and> \<not> list_ex is_ascii_control (connect_line d version)
    \<and> split_on (CHR '' '') (connect_line d version) = [''CONNECT'', d @ '':443'', version]"
proof -
  have d: "CHR '' '' \<notin> set d" "CHR 13 \<notin> set d" "\<not> list_ex is_ascii_control d"
    using hostname_char [OF assms(1)] by (auto simp: list_ex_iff)
  have s: "split_on (CHR '' '') (a @ CHR '' '' # b @ CHR '' '' # e) = [a, b, e]"
    if "CHR '' '' \<notin> set a" "CHR '' '' \<notin> set b" "CHR '' '' \<notin> set e" for a b e
    using that by (simp add: split_on_append split_on_no_sep)
  have "split_on (CHR '' '') (connect_line d version) = [''CONNECT'', d @ '':443'', version]"
    using s [of "''CONNECT''" "d @ '':443''" version] d(1) assms(2) by (auto simp: connect_line_def)
  with d assms(2) show ?thesis by (auto simp: connect_line_def is_ascii_control_def list_ex_iff)
qed

lemma request_line_shape:
  assumes "split_on (CHR '' '') line = [''CONNECT'', authority, version]" and "parse_authority authority = Inr h"
  shows "\<exists>d. is_exact_dns_hostname d \<and> h = lower d \<and> line = connect_line d version"
  using join_split_on [of "CHR '' ''" line] assms unfolding parse_authority_Inr by (auto simp: connect_line_def)

lemma parse_head_lines:
  "parse_https_connect_request_head (PBytes head) = Inr t \<longleftrightarrow> length head \<le> 16384
     \<and> (\<exists>body. head = body @ HEADER_TERMINATOR \<and> count_sub HEADER_TERMINATOR head = 1 \<and> parse_lines (split_crlf body) = Inr t)"
  (is "?l \<longleftrightarrow> ?r")
proof
  assume ?l
  then have h: "length head \<le> 16384" "ends_with HEADER_TERMINATOR head" "count_sub HEADER_TERMINATOR head = 1"
      "parse_lines (split_crlf (take (length head - length HEADER_TERMINATOR) head)) = Inr t"
    by (auto simp: parse_https_connect_request_head_def MAX_CONNECT_REQUEST_HEAD_BYTES_def split: if_splits)
  from ends_with_split [OF h(2)] h show ?r by blast
next
  assume ?r
  then obtain body where b: "length head \<le> 16384" "head = body @ HEADER_TERMINATOR" "count_sub HEADER_TERMINATOR head = 1"
    "parse_lines (split_crlf body) = Inr t" by blast
  then have "head \<noteq> []" "ends_with HEADER_TERMINATOR head" "take (length head - length HEADER_TERMINATOR) head = body"
    by (auto simp: HEADER_TERMINATOR_def CRLF_def) 
  with b show ?l by (simp add: parse_https_connect_request_head_def MAX_CONNECT_REQUEST_HEAD_BYTES_def)
qed

lemma parse_lines_Inr:
  "parse_lines lines = Inr t \<longleftrightarrow> (\<exists>d. is_exact_dns_hostname d \<and> t = \<lparr>target_hostname = lower d, target_port = 443\<rparr>
     \<and> (lines = [connect_line d ''HTTP/1.0''] \<or>
        (\<exists>name v. lines = [connect_line d ''HTTP/1.1'', name @ '':'' @ v] \<and> lower name = ''host'' \<and> list_all header_value_char v
           \<and> parse_host_field v = Some (lower d))))" (is "?l \<longleftrightarrow> ?r")
proof
  assume l: ?l
  then obtain line rest where lines: "lines = line # rest" by (cases lines) (auto simp: parse_lines_def)
  from l obtain authority version h where s: "split_on (CHR '' '') line = [''CONNECT'', authority, version]"
      "parse_authority authority = Inr h"
      "version = ''HTTP/1.0'' \<and> rest = [] \<and> t = \<lparr>target_hostname = h, target_port = 443\<rparr> \<or>
       version = ''HTTP/1.1'' \<and> check_headers h 0 rest = Inr () \<and> t = \<lparr>target_hostname = h, target_port = 443\<rparr>"
    unfolding lines parse_lines_def by (auto simp: HTTPS_PORT_def split: if_splits list.splits)
  from request_line_shape [OF s(1,2)] obtain d where d: "is_exact_dns_hostname d" "h = lower d" "line = connect_line d version" by blast
  from s(3) show ?r
  proof (elim disjE conjE)
    assume "version = ''HTTP/1.0''" "rest = []" "t = \<lparr>target_hostname = h, target_port = 443\<rparr>"
    with d lines show ?r by blast
  next
    assume v: "version = ''HTTP/1.1''" "check_headers h 0 rest = Inr ()" "t = \<lparr>target_hostname = h, target_port = 443\<rparr>"
    then obtain name v where "rest = [name @ '':'' @ v]" "lower name = ''host''" "list_all header_value_char v" "parse_host_field v = Some h"
      unfolding check_headers_one by blast
    with v d lines show ?r by blast
  qed
next
  assume ?r
  then obtain d where d: "is_exact_dns_hostname d" "t = \<lparr>target_hostname = lower d, target_port = 443\<rparr>"
    and c: "lines = [connect_line d ''HTTP/1.0''] \<or> (\<exists>name v. lines = [connect_line d ''HTTP/1.1'', name @ '':'' @ v]
      \<and> lower name = ''host'' \<and> list_all header_value_char v \<and> parse_host_field v = Some (lower d))" by blast
  have a: "parse_authority (d @ '':443'') = Inr (lower d)"
    unfolding parse_authority_Inr using d(1) hostname_char by blast
  from c show ?l
  proof (elim disjE exE conjE)
    assume "lines = [connect_line d ''HTTP/1.0'']"
    with connect_line_plain [OF d(1), of "''HTTP/1.0''"] a d(2) show ?l by (simp add: parse_lines_def HTTPS_PORT_def)
  next
    fix name v assume n: "lines = [connect_line d ''HTTP/1.1'', name @ '':'' @ v]" "lower name = ''host''" "list_all header_value_char v"
      "parse_host_field v = Some (lower d)"
    with host_name_chars [OF n(2)] have "check_headers (lower d) 0 [name @ '':'' @ v] = Inr ()"
      unfolding check_headers_one by blast
    with n connect_line_plain [OF d(1), of "''HTTP/1.1''"] a d(2) show ?l
      by (simp add: parse_lines_def HTTPS_PORT_def MAX_CONNECT_REQUEST_HEADERS_def del: check_headers.simps)
  qed
qed

lemma value_no_cr: "list_all header_value_char v \<Longrightarrow> CHR 13 \<notin> set v"
  by (auto simp: list_all_iff header_value_char_def)

lemma connect_head_http10:
  assumes "is_exact_dns_hostname d" and "length head \<le> 16384" and "head = ''CONNECT '' @ d @ '':443 HTTP/1.0'' @ CRLF @ CRLF"
  shows "parse_https_connect_request_head (PBytes head) = Inr \<lparr>target_hostname = lower d, target_port = 443\<rparr>"
proof -
  let ?b = "connect_line d ''HTTP/1.0''"
  have p: "CHR 13 \<notin> set ?b" using connect_line_plain [OF assms(1)] by blast
  have h: "head = ?b @ HEADER_TERMINATOR" using assms(3) by (simp add: connect_line_def HEADER_TERMINATOR_def)
  have "count_sub HEADER_TERMINATOR head = 1" unfolding h using count_sub_skip [OF p] count_sub_end by simp
  moreover have "parse_lines (split_crlf ?b) = Inr \<lparr>target_hostname = lower d, target_port = 443\<rparr>"
    unfolding split_crlf_plain [OF p] parse_lines_Inr using assms(1) by blast
  ultimately show ?thesis unfolding parse_head_lines using assms(2) h by blast
qed

text \<open>C24. A byte string is accepted as a CONNECT head exactly when it is, byte for byte, one CONNECT line for
  port 443 of an exact host name, alone for HTTP/1.0 or with exactly one Host field that names the same
  host for HTTP/1.1, and at most 16 KiB long; the target is that host in lower case.\<close>

theorem connect_head_accepted_iff:
  "parse_https_connect_request_head (PBytes head) = Inr t \<longleftrightarrow> length head \<le> 16384
    \<and> (\<exists>d. is_exact_dns_hostname d \<and> t = \<lparr>target_hostname = lower d, target_port = 443\<rparr>
       \<and> (head = ''CONNECT '' @ d @ '':443 HTTP/1.0'' @ CRLF @ CRLF \<or>
          (\<exists>name v. lower name = ''host'' \<and> list_all header_value_char v \<and> parse_host_field v = Some (lower d)
             \<and> head = ''CONNECT '' @ d @ '':443 HTTP/1.1'' @ CRLF @ name @ '':'' @ v @ CRLF @ CRLF)))" (is "?l \<longleftrightarrow> ?r")
proof
  assume ?l
  then obtain body where b: "length head \<le> 16384" "head = body @ HEADER_TERMINATOR" "parse_lines (split_crlf body) = Inr t"
    unfolding parse_head_lines by blast
  have body: "body = join CRLF (split_crlf body)" by (simp add: join_split_crlf)
  from b(3) obtain d where d: "is_exact_dns_hostname d" "t = \<lparr>target_hostname = lower d, target_port = 443\<rparr>"
    "split_crlf body = [connect_line d ''HTTP/1.0''] \<or> (\<exists>name v. split_crlf body = [connect_line d ''HTTP/1.1'', name @ '':'' @ v]
      \<and> lower name = ''host'' \<and> list_all header_value_char v \<and> parse_host_field v = Some (lower d))"
    unfolding parse_lines_Inr by blast
  from d(3) show ?r
  proof (elim disjE exE conjE)
    assume "split_crlf body = [connect_line d ''HTTP/1.0'']"
    with body have "head = ''CONNECT '' @ d @ '':443 HTTP/1.0'' @ CRLF @ CRLF"
      using b(2) by (simp add: connect_line_def HEADER_TERMINATOR_def)
    with b(1) d(1,2) show ?r by blast
  next
    fix name v assume n: "split_crlf body = [connect_line d ''HTTP/1.1'', name @ '':'' @ v]" "lower name = ''host''"
      "list_all header_value_char v" "parse_host_field v = Some (lower d)"
    with body have "head = ''CONNECT '' @ d @ '':443 HTTP/1.1'' @ CRLF @ name @ '':'' @ v @ CRLF @ CRLF"
      using b(2) by (simp add: connect_line_def HEADER_TERMINATOR_def)
    with b(1) d(1,2) n show ?r by blast
  qed
next
  assume ?r
  then obtain d where d: "length head \<le> 16384" "is_exact_dns_hostname d" "t = \<lparr>target_hostname = lower d, target_port = 443\<rparr>"
    and c: "head = ''CONNECT '' @ d @ '':443 HTTP/1.0'' @ CRLF @ CRLF \<or> (\<exists>name v. lower name = ''host'' \<and> list_all header_value_char v
      \<and> parse_host_field v = Some (lower d) \<and> head = ''CONNECT '' @ d @ '':443 HTTP/1.1'' @ CRLF @ name @ '':'' @ v @ CRLF @ CRLF)" by blast
  from c show ?l
  proof (elim disjE exE conjE)
    assume h: "head = ''CONNECT '' @ d @ '':443 HTTP/1.0'' @ CRLF @ CRLF"
    show ?l using connect_head_http10 [OF d(2,1) h] d(3) by simp
  next
    fix name v assume n: "lower name = ''host''" "list_all header_value_char v" "parse_host_field v = Some (lower d)"
      and h: "head = ''CONNECT '' @ d @ '':443 HTTP/1.1'' @ CRLF @ name @ '':'' @ v @ CRLF @ CRLF"
    let ?a = "connect_line d ''HTTP/1.1''" and ?f = "name @ '':'' @ v"
    have p: "CHR 13 \<notin> set ?a" using connect_line_plain [OF d(2)] by blast
    have f: "CHR 13 \<notin> set ?f" using host_name_chars [OF n(1)] value_no_cr [OF n(2)] by simp
    have h': "head = (?a @ CRLF @ ?f) @ HEADER_TERMINATOR" using h by (simp add: connect_line_def HEADER_TERMINATOR_def)
    have "count_sub HEADER_TERMINATOR head = 1"
      using count_sub_skip [OF p, of "CRLF @ ?f @ HEADER_TERMINATOR"] count_sub_line [OF f] h' by simp
    moreover have "split_crlf (?a @ CRLF @ ?f) = [?a, ?f]" unfolding split_crlf_append [OF p] split_crlf_plain [OF f] ..
    then have "parse_lines (split_crlf (?a @ CRLF @ ?f)) = Inr t" unfolding parse_lines_Inr using d(2,3) n by metis
    ultimately show ?l unfolding parse_head_lines using d(1) h' by blast
  qed
qed

end
