(* ===== verification/Py_Ip_Text.thy ===== *)
theory Py_Ip_Text
  imports Py_Ip
begin

text \<open>
  The textual form of an address denotes the address: \<^verbatim>\<open>ipaddress.ip_address(str(a)) == a\<close> for IPv4 and for
  IPv6 without a scope, through the compression of the longest run of zero parts.
\<close>

section \<open>IPv4\<close>

lemma octets_bound: "\<forall>n\<in>set (octets w). n < 256"
proof -
  have "unat w < 2 ^ 32" using unsigned_less [of w] by simp
  then have "unat w div 16777216 < 256" by (simp add: less_mult_imp_div_less)
  then show ?thesis by (simp add: octets_def)
qed

lemma octets_value: "octets w = [a, b, c, d] \<Longrightarrow> ((a * 256 + b) * 256 + c) * 256 + d = unat w"
proof -
  assume o: "octets w = [a, b, c, d]"
  let ?n = "unat w"
  have "?n = ?n div 256 * 256 + ?n mod 256" "?n div 256 = ?n div 65536 * 256 + ?n div 256 mod 256"
    "?n div 65536 = ?n div 16777216 * 256 + ?n div 65536 mod 256"
    using div_mult_mod_eq [of ?n 256] div_mult_mod_eq [of "?n div 256" 256] div_mult_mod_eq [of "?n div 65536" 256]
    by (simp_all add: div_mult2_eq [symmetric])
  with o show ?thesis by (simp add: octets_def)
qed

lemma string_of_nat_small:
  "string_of_nat n = (if n < 10 then [digit_char n] else if n < 100 then [digit_char (n div 10), digit_char (n mod 10)]
     else [digit_char (n div 100), digit_char (n div 10 mod 10), digit_char (n mod 10)])" if "n < 1000"
proof -
  have d: "n div 10 div 10 = n div 100" by (simp add: div_mult2_eq [symmetric])
  show ?thesis
    using that d by (auto simp: string_of_nat.simps [of n] string_of_nat.simps [of "n div 10"] string_of_nat.simps [of "n div 100"])
qed

lemma digit_char_zero: "d < 10 \<Longrightarrow> digit_char d = CHR ''0'' \<longleftrightarrow> d = 0"
  by (simp add: char_eq_iff_code)

lemma parse_octet_string: "n < 256 \<Longrightarrow> parse_octet (string_of_nat n) = Some n"
proof -
  assume n: "n < 256"
  have len: "length (string_of_nat n) \<le> 3" using n by (simp add: string_of_nat_small)
  have z: "hd (string_of_nat n) = CHR ''0'' \<Longrightarrow> n = 0"
    using n by (auto simp: string_of_nat_small digit_char_zero split: if_splits)
  have "string_of_nat 0 = ''0''" by code_simp
  with n len z string_of_nat_digits [of n] show ?thesis by (auto simp: parse_octet_def)
qed

lemma map_opt_octets: "\<forall>n\<in>set ns. n < 256 \<Longrightarrow> map_opt parse_octet (map string_of_nat ns) = Some ns"
  by (induction ns) (simp_all add: parse_octet_string)

lemma parse_str_ipv4: "parse_ip (str_ip (IPv4 w)) = Some (IPv4 w)"
proof -
  obtain a b c d where o: "octets w = [a, b, c, d]" by (simp add: octets_def)
  have "CHR ''.'' \<notin> set (string_of_nat n)" for n using string_of_nat_digits [of n] by (auto simp: list_all_iff is_digit_def)
  then have "split_on (CHR ''.'') (str_ipv4 w) = map string_of_nat (octets w)"
    unfolding str_ipv4_def by (intro split_on_join) (auto simp: octets_def)
  then have m: "map_opt parse_octet (split_on (CHR ''.'') (str_ipv4 w)) = Some [a, b, c, d]"
    using map_opt_octets [OF octets_bound [of w]] o by simp
  have "parse_ipv4 (str_ipv4 w) = Some (of_nat (unat w))"
    unfolding parse_ipv4_def m option.case list.case octets_value [OF o] ..
  then show ?thesis by (simp add: parse_ip_def str_ip_def)
qed

section \<open>Hexadecimal parts\<close>

lemma hex_char_props:
  assumes "k < 16"
  shows "is_hex_digit (if k < 10 then char_of (48 + k) else char_of (87 + k))
    \<and> hex_digit_val (if k < 10 then char_of (48 + k) else char_of (87 + k)) = k"
proof -
  have "(of_char (char_of (48 + k) :: char) :: nat) = 48 + k" "(of_char (char_of (87 + k) :: char) :: nat) = 87 + k"
    using assms by (simp_all add: of_char_of take_bit_nat_def)
  then show ?thesis using assms by (auto simp: is_hex_digit_def is_digit_def hex_digit_val_def Let_def)
qed

definition hex_value :: "string \<Rightarrow> nat" where
  "hex_value s = foldl (\<lambda>n c. 16 * n + hex_digit_val c) 0 s"

lemma to_hex_props: "to_hex n \<noteq> [] \<and> list_all is_hex_digit (to_hex n) \<and> hex_value (to_hex n) = n"
proof (induction n rule: to_hex.induct)
  case (1 n)
  show ?case
  proof (cases "n < 16")
    case True
    then show ?thesis using hex_char_props [OF True] by (simp add: to_hex.simps [of n] hex_value_def)
  next
    case False
    have "n mod 16 < 16" by simp
    note h = hex_char_props [OF this]
    from 1 False have "to_hex (n div 16) \<noteq> []" "list_all is_hex_digit (to_hex (n div 16))" "hex_value (to_hex (n div 16)) = n div 16"
      by simp_all
    with False h show ?thesis by (simp add: to_hex.simps [of n] hex_value_def)
  qed
qed

lemma to_hex_length: "n < 16 ^ Suc k \<Longrightarrow> length (to_hex n) \<le> Suc k"
proof (induction k arbitrary: n)
  case 0
  then show ?case by (simp add: to_hex.simps [of n])
next
  case (Suc k)
  have "n div 16 < 16 ^ Suc k" using Suc.prems by (simp add: less_mult_imp_div_less)
  from Suc.IH [OF this] show ?case by (simp add: to_hex.simps [of n])
qed

lemma parse_hextet_to_hex: "n < 65536 \<Longrightarrow> parse_hextet (to_hex n) = Some n"
  using to_hex_props [of n] to_hex_length [of n 3] by (simp add: parse_hextet_def hex_value_def)

lemma to_hex_chars: "c \<in> set (to_hex n) \<Longrightarrow> c \<noteq> CHR '':'' \<and> c \<noteq> CHR ''.'' \<and> c \<noteq> CHR ''%'' \<and> c \<noteq> CHR ''/''"
  using to_hex_props [of n] by (auto simp: list_all_iff is_hex_digit_def is_digit_def)

definition hextets_nat :: "nat list \<Rightarrow> nat" where
  "hextets_nat hs = foldl (\<lambda>n h. 65536 * n + h) 0 hs"

lemma hextets_value_to_hex:
  assumes "\<forall>h\<in>set hs. h < 65536"
  shows "hextets_value (map to_hex hs) = Some (hextets_nat hs)"
proof -
  have "map_opt parse_hextet (map to_hex hs) = Some hs"
    using assms by (induction hs) (simp_all add: parse_hextet_to_hex)
  then show ?thesis by (simp add: hextets_value_def hextets_nat_def)
qed

lemma hextets_nat_append: "hextets_nat (xs @ ys) = hextets_nat xs * 65536 ^ length ys + hextets_nat ys"
proof (induction ys rule: rev_induct)
  case (snoc y ys)
  then show ?case by (simp add: hextets_nat_def append_assoc [symmetric] algebra_simps del: append_assoc)
qed (simp add: hextets_nat_def)

lemma hextets_nat_zeros: "hextets_nat (replicate k 0) = 0"
  by (induction k) (simp_all add: hextets_nat_def)

lemma hextets_bound: "\<forall>h\<in>set (hextets w). h < 65536"
  by (simp add: hextets_def)

lemma length_hextets [simp]: "length (hextets w) = 8"
  by (simp add: hextets_def)

lemma hextets_nat_hextets: "hextets_nat (hextets w) = unat w"
proof -
  let ?n = "unat w"
  have "hextets_nat (map (\<lambda>i. ?n div 65536 ^ (k - i) mod 65536) [0..<Suc k]) = ?n mod 65536 ^ Suc k" for k
  proof (induction k)
    case 0
    then show ?case by (simp add: hextets_nat_def)
  next
    case (Suc k)
    have "[0..<Suc (Suc k)] = 0 # map Suc [0..<Suc k]" by (simp add: map_Suc_upt upt_conv_Cons)
    then have eq: "map (\<lambda>i. ?n div 65536 ^ (Suc k - i) mod 65536) [0..<Suc (Suc k)] =
        [?n div 65536 ^ Suc k mod 65536] @ map (\<lambda>i. ?n div 65536 ^ (k - i) mod 65536) [0..<Suc k]"
      by (simp add: comp_def del: upt_Suc)
    have "hextets_nat (map (\<lambda>i. ?n div 65536 ^ (Suc k - i) mod 65536) [0..<Suc (Suc k)]) =
        ?n div 65536 ^ Suc k mod 65536 * 65536 ^ Suc k + ?n mod 65536 ^ Suc k"
      unfolding eq hextets_nat_append Suc.IH by (simp add: hextets_nat_def del: upt_Suc)
    also have "\<dots> = ?n mod 65536 ^ Suc (Suc k)"
      using mod_mult2_eq [of ?n "65536 ^ Suc k" 65536] by (simp add: mult.commute)
    finally show ?case .
  qed
  from this [of 7] have "hextets_nat (hextets w) = ?n mod 65536 ^ 8" by (simp add: hextets_def del: upt_Suc)
  moreover have "?n < 65536 ^ 8" using unsigned_less [of w, where ?'a = nat] by simp
  ultimately show ?thesis by simp
qed

section \<open>Compression\<close>

text \<open>The best run is a run of zeros inside the list.\<close>

definition zero_run :: "nat list \<Rightarrow> nat \<Rightarrow> nat \<Rightarrow> bool" where
  "zero_run hs start len \<longleftrightarrow> start + len \<le> length hs \<and> (\<forall>i<len. hs ! (start + i) = 0)"

lemma best_run_zero_run:
  assumes "zero_run pre (length pre - n) n" and "n \<le> length pre" and "zero_run pre (fst best) (snd best)"
  shows "zero_run (pre @ hs) (fst (best_run (length pre) n best hs)) (snd (best_run (length pre) n best hs))"
  using assms
proof (induction hs arbitrary: pre n best)
  case (Cons h hs)
  have ext: "zero_run (pre @ [h]) a b" if "zero_run pre a b" for a b
    using that by (auto simp: zero_run_def nth_append)
  show ?case
  proof (cases "h = 0")
    case True
    have new: "zero_run (pre @ [h]) (length pre - n) (Suc n)"
      using Cons.prems(1,2) True by (auto simp: zero_run_def nth_append less_Suc_eq)
    let ?best = "if snd best < Suc n then (length pre - n, Suc n) else best"
    have b: "zero_run (pre @ [h]) (fst ?best) (snd ?best)" using new ext [OF Cons.prems(3)] by simp
    have "zero_run (pre @ [h]) (length (pre @ [h]) - Suc n) (Suc n)" using new by simp
    from Cons.IH [OF this _ b] Cons.prems(2) True show ?thesis by simp
  next
    case False
    have "zero_run (pre @ [h]) (length (pre @ [h]) - 0) 0" by (simp add: zero_run_def)
    from Cons.IH [OF this _ ext [OF Cons.prems(3)]] False show ?thesis by simp
  qed
qed simp

lemma zero_run_split:
  assumes "zero_run hs start len"
  shows "hs = take start hs @ replicate len 0 @ drop (start + len) hs"
proof (rule nth_equalityI)
  show "length hs = length (take start hs @ replicate len 0 @ drop (start + len) hs)" using assms by (simp add: zero_run_def)
  show "hs ! i = (take start hs @ replicate len 0 @ drop (start + len) hs) ! i" if "i < length hs" for i
  proof -
    have "hs ! i = 0" if "start \<le> i" "i < start + len"
      using assms that by (auto simp: zero_run_def dest: spec [of _ "i - start"])
    with assms that show ?thesis by (auto simp: zero_run_def nth_append)
  qed
qed

lemma filter_single: "a \<le> k \<Longrightarrow> k < b \<Longrightarrow> (\<And>i. a \<le> i \<Longrightarrow> i < b \<Longrightarrow> P i \<longleftrightarrow> i = k) \<Longrightarrow> filter P [a..<b] = [k]"
proof -
  assume k: "a \<le> k" "k < b" and P: "\<And>i. a \<le> i \<Longrightarrow> i < b \<Longrightarrow> P i \<longleftrightarrow> i = k"
  have "[a..<b] = [a..<k] @ [k..<b]" using k upt_add_eq_append [of a k "b - k"] by simp
  then have "[a..<b] = [a..<k] @ [k] @ [Suc k..<b]" using k by (simp add: upt_conv_Cons)
  then show "filter P [a..<b] = [k]" using P k by (simp add: filter_empty_conv)
qed

text \<open>One side of the gap: a single empty part at the edge, or non-empty parts.\<close>

definition gap_side :: "string list \<Rightarrow> bool" where
  "gap_side X \<longleftrightarrow> X = [[]] \<or> X \<noteq> [] \<and> [] \<notin> set X"

lemma ipv6_of_parts_gap:
  assumes "gap_side X" and "gap_side Y" and "length X + length Y \<le> 8"
    and "X = [[]] \<or> Y = [[]] \<or> length X + length Y < 8"
    and "hextets_value (if X = [[]] then [] else X) = Some h" and "hextets_value (if Y = [[]] then [] else Y) = Some l"
  shows "ipv6_of_parts (X @ [[]] @ Y) = Some (h * 65536 ^ (8 - (if X = [[]] then 0 else length X)) + l)"
proof -
  let ?P = "X @ [[]] @ Y"
  have ne: "X \<noteq> []" "Y \<noteq> []" using assms(1,2) by (auto simp: gap_side_def)
  have "?P ! i = [] \<longleftrightarrow> i = length X" if i: "1 \<le> i" "i < length ?P - 1" for i
  proof -
    have x: "X ! i \<noteq> []" if "i < length X" using assms(1) that i(1) nth_mem [OF that] unfolding gap_side_def by (metis One_nat_def length_Cons less_one list.size(3) not_le)
    have y: "Y ! (i - Suc (length X)) \<noteq> []" if "length X < i"
    proof -
      have "i - Suc (length X) < length Y - 1" using that i(2) by simp
      then have "Y ! (i - Suc (length X)) \<in> set Y" "1 < length Y" by (simp_all add: less_diff_conv)
      then show ?thesis using assms(2) unfolding gap_side_def by auto
    qed
    consider "i < length X" | "i = length X" | "length X < i" by linarith
    then show ?thesis using x y by cases (auto simp: nth_append nth_Cons' Suc_diff_Suc)
  qed
  then have f: "filter (\<lambda>i. ?P ! i = []) [1..<length ?P - 1] = [length X]"
    using ne by (intro filter_single) (auto simp: Suc_le_eq)
  have hd: "hd ?P = [] \<longleftrightarrow> X = [[]]" using assms(1) by (auto simp: gap_side_def hd_append dest: hd_in_set)
  have la: "last ?P = [] \<longleftrightarrow> Y = [[]]" using assms(2) ne by (auto simp: gap_side_def dest: last_in_set)
  let ?hi = "if X = [[]] then 0 else length X" and ?lo = "if Y = [[]] then 0 else length Y"
  have hi: "(if hd ?P = [] then length X - 1 else length X) = ?hi" using hd by auto
  have lo: "(if last ?P = [] then length ?P - length X - 2 else length ?P - length X - 1) = ?lo" using la by auto
  have t: "take ?hi ?P = (if X = [[]] then [] else X)" "drop (length ?P - ?lo) ?P = (if Y = [[]] then [] else Y)" by auto
  have ok: "\<not> (hd ?P = [] \<and> ?hi \<noteq> 0 \<or> last ?P = [] \<and> ?lo \<noteq> 0 \<or> 8 \<le> ?hi + ?lo)" using hd la assms(3,4) ne by auto
  have "\<not> 9 < length ?P" using assms(3) by simp
  then show ?thesis
    unfolding ipv6_of_parts_def f list.case Let_def hi lo t using ok assms(5,6) by (simp only: if_False option.case prod.case)
qed

section \<open>IPv6\<close>

lemma set_split: "set s \<subseteq> insert c (\<Union>(set ` set (split_on c s)))"
proof (induction s)
  case (Cons a s)
  then show ?case by (cases "split_on c s") auto
qed simp

lemma to_hex_side: "hs \<noteq> [] \<Longrightarrow> gap_side (map to_hex hs) \<and> map to_hex hs \<noteq> [[]]"
proof -
  assume ne: "hs \<noteq> []"
  have "to_hex x \<noteq> []" for x using to_hex_props by blast
  then have "[] \<notin> set (map to_hex hs)" by (metis (no_types, lifting) ex_map_conv)
  then show ?thesis using ne unfolding gap_side_def by auto
qed

lemma plain_parts:
  assumes "length hs = 8" and "\<forall>h\<in>set hs. h < 65536"
  shows "ipv6_of_parts (map to_hex hs) = Some (hextets_nat hs)"
proof -
  have "filter (\<lambda>i. map to_hex hs ! i = []) [1..<length (map to_hex hs) - 1] = []"
    using to_hex_props by (auto simp: filter_empty_conv)
  then show ?thesis
    unfolding ipv6_of_parts_def using assms(1) hextets_value_to_hex [OF assms(2)] by (simp only: length_map list.case) simp
qed

lemma compress_parts:
  assumes "length hs = 8" and "\<forall>h\<in>set hs. h < 65536"
  shows "ipv6_of_parts (compress hs) = Some (hextets_nat hs) \<and> 3 \<le> length (compress hs)
    \<and> (\<forall>p\<in>set (compress hs). p = [] \<or> (\<exists>n. p = to_hex n))"
proof -
  obtain start len where b: "best_run 0 0 (0, 0) hs = (start, len)" by (metis prod.exhaust)
  have z: "zero_run hs start len" using best_run_zero_run [of "[]" 0 "(0, 0)" hs] b by (simp add: zero_run_def)
  show ?thesis
  proof (cases "1 < len")
    case False
    then have "compress hs = map to_hex hs" using b by (simp add: compress_def)
    then show ?thesis using plain_parts [OF assms] assms(1) by auto
  next
    case len: True
    have le: "start + len \<le> 8" using z assms(1) by (simp add: zero_run_def)
    define X where "X = (if start = 0 then [[]] else map to_hex (take start hs))"
    define Y where "Y = (if start + len = 8 then [[]] else map to_hex (drop (start + len) hs))"
    have c: "compress hs = X @ [[]] @ Y"
      using b len assms(1) by (simp add: compress_def Let_def X_def Y_def take_map drop_map)
    have ts: "start \<noteq> 0 \<Longrightarrow> take start hs \<noteq> []" "start + len \<noteq> 8 \<Longrightarrow> drop (start + len) hs \<noteq> []" using assms(1) le by auto
    have X: "gap_side X" "X = [[]] \<longleftrightarrow> start = 0" "start \<noteq> 0 \<Longrightarrow> length X = start"
      using to_hex_side [OF ts(1)] assms(1) le by (auto simp: X_def gap_side_def)
    have Y: "gap_side Y" "Y = [[]] \<longleftrightarrow> start + len = 8" "start + len \<noteq> 8 \<Longrightarrow> length Y = 8 - (start + len)"
      using to_hex_side [OF ts(2)] assms(1) by (auto simp: Y_def gap_side_def)
    have small: "\<forall>h\<in>set (take start hs). h < 65536" "\<forall>h\<in>set (drop (start + len) hs). h < 65536"
      using assms(2) by (auto dest: in_set_takeD in_set_dropD)
    have h: "hextets_value (if X = [[]] then [] else X) = Some (hextets_nat (take start hs))"
      using X(2) hextets_value_to_hex [OF small(1)] by (simp add: X_def hextets_value_def hextets_nat_def split: if_splits)
    have l: "hextets_value (if Y = [[]] then [] else Y) = Some (hextets_nat (drop (start + len) hs))"
      using Y(2) hextets_value_to_hex [OF small(2)] assms(1) by (simp add: Y_def hextets_value_def hextets_nat_def split: if_splits)
    have lx: "length X = (if start = 0 then 1 else start)" using X(3) by (simp add: X_def)
    have ly: "length Y = (if start + len = 8 then 1 else 8 - (start + len))" using Y(3) by (simp add: Y_def)
    have "ipv6_of_parts (X @ [[]] @ Y) =
        Some (hextets_nat (take start hs) * 65536 ^ (8 - (if X = [[]] then 0 else length X)) + hextets_nat (drop (start + len) hs))"
      by (rule ipv6_of_parts_gap [OF X(1) Y(1) _ _ h l]) (use lx ly le len X(2) Y(2) in auto)
    also have "(if X = [[]] then 0 else length X) = start" using X(2,3) by auto
    also have "hextets_nat (take start hs) * 65536 ^ (8 - start) + hextets_nat (drop (start + len) hs) = hextets_nat hs"
    proof -
      have "length (replicate len (0::nat) @ drop (start + len) hs) = 8 - start" using assms(1) le by simp
      then have "hextets_nat (take start hs @ replicate len 0 @ drop (start + len) hs) =
          hextets_nat (take start hs) * 65536 ^ (8 - start) + hextets_nat (drop (start + len) hs)"
        unfolding hextets_nat_append by (simp add: hextets_nat_append hextets_nat_zeros)
      then show ?thesis using zero_run_split [OF z] by simp
    qed
    finally have "ipv6_of_parts (compress hs) = Some (hextets_nat hs)" using c by simp
    moreover have "3 \<le> length (compress hs)" using c lx ly le by auto
    moreover have "\<forall>p\<in>set (compress hs). p = [] \<or> (\<exists>n. p = to_hex n)" using c by (auto simp: X_def Y_def split: if_splits)
    ultimately show ?thesis by blast
  qed
qed

lemma parse_str_ipv6: "parse_ip (str_ip (IPv6 w None)) = Some (IPv6 w None)"
proof -
  let ?P = "compress (hextets w)" and ?s = "join '':'' (compress (hextets w))"
  note c = compress_parts [OF length_hextets hextets_bound, of w]
  have ne: "?P \<noteq> []" using c by auto
  have chars: "ch \<noteq> CHR '':'' \<and> ch \<noteq> CHR ''.'' \<and> ch \<noteq> CHR ''%'' \<and> ch \<noteq> CHR ''/''" if "p \<in> set ?P" "ch \<in> set p" for p ch
  proof -
    from c that(1) consider "p = []" | n where "p = to_hex n" by blast
    then show ?thesis using that(2) to_hex_chars by cases auto
  qed
  have split: "split_on (CHR '':'') ?s = ?P" by (rule split_on_join [OF ne]) (use chars in blast)
  have sub: "set ?s \<subseteq> insert (CHR '':'') (\<Union>(set ` set ?P))" using split set_split [of ?s "CHR '':''"] by simp
  have "CHR ''/'' \<notin> set ?s" "CHR ''%'' \<notin> set ?s" "CHR ''.'' \<notin> set ?s" using sub chars by auto
  moreover have "ipv6_parts ?s = Some ?P"
    unfolding ipv6_parts_def split Let_def using c chars last_in_set [OF ne] by auto
  ultimately have p6: "parse_ipv6 ?s = Some (w, None)"
    using c hextets_nat_hextets [of w] by (simp add: parse_ipv6_def split_scope_def)
  have "parse_ipv4 ?s = None"
  proof (rule ccontr)
    assume "parse_ipv4 ?s \<noteq> None"
    then obtain v where "parse_ipv4 ?s = Some v" by blast
    from parse_ipv4_shape [OF this] have "4 = length (split_on (CHR ''.'') ?s)" by simp
    also have "\<dots> = 1" using \<open>CHR ''.'' \<notin> set ?s\<close> by (simp add: split_on_no_sep)
    finally show False by simp
  qed
  with p6 show ?thesis by (simp add: parse_ip_def str_ip_def)
qed

end
