(* ===== verification/Network_Destination.thy ===== *)
theory Network_Destination
  imports Network_Lease Py_Ip_Text
begin

text \<open>
  \<^verbatim>\<open>src/icode/network_destination.py\<close>: resolving an approved host name to numeric public addresses. The
  resolver is an argument that answers a value or raises; the socket constants are those of Linux, and
  a member of an \<^verbatim>\<open>IntEnum\<close> is the integer it is.
\<close>

definition AF_INET :: int where "AF_INET = 2"
definition AF_INET6 :: int where "AF_INET6 = 10"
definition SOCK_STREAM :: int where "SOCK_STREAM = 1"
definition IPPROTO_TCP :: int where "IPPROTO_TCP = 6"

lemmas socket_constants = AF_INET_def AF_INET6_def SOCK_STREAM_def IPPROTO_TCP_def

definition dest_error :: "string \<Rightarrow> exc" where
  "dest_error msg = NetworkDestinationError msg"

record resolved_target =
  tgt_family :: int
  tgt_socket_type :: int
  tgt_protocol :: int
  tgt_sockaddr :: "pyval list"

definition supports_safe_ipaddress_classification :: "pyval \<Rightarrow> bool" where
  "supports_safe_ipaddress_classification version = (case version of
       PTuple [PInt a, PInt b, PInt c, PStr level] \<Rightarrow>
         level = ''final'' \<and>
         ([3, 13, 0] \<le> [a, b, c] \<or> a = 3 \<and> b = 12 \<and> [3, 12, 4] \<le> [a, b, c] \<or> a = 3 \<and> b = 11 \<and> [3, 11, 10] \<le> [a, b, c])
     | _ \<Rightarrow> False)"

definition is_global_unicast :: "ip_address \<Rightarrow> bool" where
  "is_global_unicast a \<longleftrightarrow>
     (case a of IPv6 w _ \<Rightarrow> ipv4_mapped w = None | IPv4 _ \<Rightarrow> True)
     \<and> is_global a \<and> \<not> is_private a \<and> \<not> is_loopback a \<and> \<not> is_link_local a \<and> \<not> is_multicast a \<and> \<not> is_reserved a \<and> \<not> is_unspecified a"

definition ip_version :: "ip_address \<Rightarrow> int" where
  "ip_version a = (case a of IPv4 _ \<Rightarrow> 4 | IPv6 _ _ \<Rightarrow> 6)"

section \<open>One answer\<close>

definition check_kind :: "pyval \<Rightarrow> (int \<times> pyval list) res" where
  "check_kind answer = (case answer of
       PTuple [fam, kind, proto, name, addr] \<Rightarrow>
         (case (fam, kind, proto, addr) of
            (PInt f, PInt k, PInt p, PTuple sockaddr) \<Rightarrow>
              if (f = AF_INET \<or> f = AF_INET6) \<and> k = SOCK_STREAM \<and> (p = 0 \<or> p = IPPROTO_TCP) then Inr (f, sockaddr)
              else Inl (dest_error ''DNS returned a non-TCP or unsupported destination'')
          | _ \<Rightarrow> Inl (dest_error ''DNS returned a non-TCP or unsupported destination''))
     | _ \<Rightarrow> Inl (dest_error ''DNS returned a malformed TCP destination''))"

definition check_address :: "int \<Rightarrow> int \<Rightarrow> pyval list \<Rightarrow> ip_address res" where
  "check_address port family sockaddr =
     (if length sockaddr \<noteq> (if family = AF_INET then 2 else 4) then Inl (dest_error ''DNS returned an invalid IP socket address'')
      else case (sockaddr ! 0, sockaddr ! 1) of
        (PStr text, PInt p) \<Rightarrow>
          if p \<noteq> port \<or> CHR ''%'' \<in> set text then Inl (dest_error ''DNS returned an invalid or scoped IP address'')
          else (case parse_ip text of
              None \<Rightarrow> Inl (dest_error ''DNS returned a non-numeric IP address'')
            | Some a \<Rightarrow>
                if ip_version a \<noteq> (if family = AF_INET then 4 else 6) \<or> \<not> is_global_unicast a
                then Inl (dest_error ''DNS resolved to a non-public IP address'') else Inr a)
      | _ \<Rightarrow> Inl (dest_error ''DNS returned an invalid IP socket address''))"

definition normalized_sockaddr :: "int \<Rightarrow> int \<Rightarrow> pyval list \<Rightarrow> ip_address \<Rightarrow> pyval list res" where
  "normalized_sockaddr port family sockaddr a =
     (if family = AF_INET then Inr [PStr (str_ip a), PInt port]
      else if sockaddr ! 2 = PInt 0 \<and> sockaddr ! 3 = PInt 0 then Inr [PStr (str_ip a), PInt port, PInt 0, PInt 0]
      else Inl (dest_error ''DNS returned a scoped or altered IPv6 address''))"

definition check_answer :: "int \<Rightarrow> pyval \<Rightarrow> resolved_target res" where
  "check_answer port answer =
     bindr (check_kind answer) (\<lambda>(family, sockaddr).
     bindr (check_address port family sockaddr) (\<lambda>a.
     bindr (normalized_sockaddr port family sockaddr a) (\<lambda>normalized.
       Inr \<lparr>tgt_family = family, tgt_socket_type = SOCK_STREAM, tgt_protocol = IPPROTO_TCP, tgt_sockaddr = normalized\<rparr>)))"

text \<open>The loop over the answers; a target whose family and address were seen is dropped.\<close>

fun collect_targets :: "int \<Rightarrow> resolved_target list \<Rightarrow> pyval list \<Rightarrow> resolved_target list res" where
  "collect_targets port targets [] = Inr targets"
| "collect_targets port targets (answer # rest) =
     bindr (check_answer port answer) (\<lambda>t.
       if list_ex (\<lambda>u. tgt_family u = tgt_family t \<and> tgt_sockaddr u = tgt_sockaddr t) targets
       then collect_targets port targets rest
       else collect_targets port (targets @ [t]) rest)"

section \<open>Resolving\<close>

text \<open>\<open>None\<close> as resolver is a value that cannot be called. The resolver is asked for the absolute name.\<close>

definition dns_answers :: "pyval \<Rightarrow> pyval list" where
  "dns_answers answers = (case answers of PList xs \<Rightarrow> xs | PTuple xs \<Rightarrow> xs | _ \<Rightarrow> [])"

definition resolve_public_tcp_targets ::
  "pyval \<Rightarrow> (string \<Rightarrow> int \<Rightarrow> pyval res) option \<Rightarrow> pyval \<Rightarrow> pyval \<Rightarrow> resolved_target list res" where
  "resolve_public_tcp_targets version resolver hostname port_arg = (case hostname of
       PStr h \<Rightarrow>
         if \<not> is_exact_dns_hostname h then Inl (dest_error ''hostname must be an exact ASCII DNS name'')
         else if port_arg \<noteq> PInt HTTPS_PORT then Inl (dest_error ''network destinations currently require HTTPS port 443'')
         else if \<not> supports_safe_ipaddress_classification version
         then Inl (dest_error ''Python runtime is too old for safe IANA special-range classification'')
         else (case resolver of
             None \<Rightarrow> Inl (dest_error ''a trusted DNS resolver is required'')
           | Some resolve \<Rightarrow>
             (case resolve (lower h @ ''.'') HTTPS_PORT of
                Inl e \<Rightarrow> Inl (if e = PyOSError then dest_error ''DNS resolution failed'' else e)
              | Inr answers \<Rightarrow>
                 (case dns_answers answers of
                    [] \<Rightarrow> Inl (dest_error ''DNS returned no usable TCP destinations'')
                  | x # xs \<Rightarrow>
                      bindr (collect_targets HTTPS_PORT [] (x # xs)) (\<lambda>targets.
                        if targets = [] then Inl (dest_error ''DNS returned no usable TCP destinations'') else Inr targets))))
     | _ \<Rightarrow> Inl (dest_error ''hostname must be an exact ASCII DNS name''))"

section \<open>What a target is\<close>

definition public_target :: "resolved_target \<Rightarrow> bool" where
  "public_target t \<longleftrightarrow> tgt_socket_type t = SOCK_STREAM \<and> tgt_protocol t = IPPROTO_TCP \<and>
     (\<exists>a. is_global_unicast a \<and>
        (tgt_family t = AF_INET \<and> (\<exists>w. a = IPv4 w) \<and> tgt_sockaddr t = [PStr (str_ip a), PInt 443] \<or>
         tgt_family t = AF_INET6 \<and> (\<exists>w. a = IPv6 w None) \<and> tgt_sockaddr t = [PStr (str_ip a), PInt 443, PInt 0, PInt 0]))"

lemma parse_ip_unscoped: "CHR ''%'' \<notin> set s \<Longrightarrow> parse_ip s = Some (IPv6 w scope) \<Longrightarrow> scope = None"
  by (auto simp: parse_ip_def parse_ipv6_def split_scope_def split: option.splits if_splits)

lemma check_kind_Inr: "check_kind answer = Inr (f, sockaddr) \<Longrightarrow> f = AF_INET \<or> f = AF_INET6"
  by (auto simp: check_kind_def split: pyval.splits list.splits if_splits)

lemma check_address_Inr:
  assumes "check_address port f sockaddr = Inr a"
  shows "is_global_unicast a \<and> (if f = AF_INET then \<exists>w. a = IPv4 w else \<exists>w. a = IPv6 w None)"
proof -
  from assms obtain s where t: "CHR ''%'' \<notin> set s" "parse_ip s = Some a" "ip_version a = (if f = AF_INET then 4 else 6)"
      "is_global_unicast a"
    by (auto simp: check_address_def split: if_splits pyval.splits option.splits)
  with parse_ip_unscoped [OF t(1)] show ?thesis by (cases a) (auto simp: ip_version_def split: if_splits)
qed

lemma check_answer_public:
  assumes "check_answer 443 answer = Inr t"
  shows "public_target t"
proof -
  from assms obtain f sockaddr a n where k: "check_kind answer = Inr (f, sockaddr)" and a: "check_address 443 f sockaddr = Inr a"
    and n: "normalized_sockaddr 443 f sockaddr a = Inr n"
    and t: "t = \<lparr>tgt_family = f, tgt_socket_type = SOCK_STREAM, tgt_protocol = IPPROTO_TCP, tgt_sockaddr = n\<rparr>"
    by (auto simp: check_answer_def)
  from check_kind_Inr [OF k] check_address_Inr [OF a] n t show ?thesis
    by (auto simp: public_target_def normalized_sockaddr_def socket_constants split: if_splits)
qed

text \<open>The loop keeps one target for every answer, without repetition, and gives up at the first bad answer.\<close>

lemma collect_targets_Inr:
  assumes "collect_targets port ts answers = Inr ts'"
  shows "(\<forall>x\<in>set answers. \<exists>t. check_answer port x = Inr t \<and> (\<exists>u\<in>set ts'. tgt_family u = tgt_family t \<and> tgt_sockaddr u = tgt_sockaddr t))
    \<and> (\<exists>new. ts' = ts @ new \<and> (\<forall>u\<in>set new. \<exists>x\<in>set answers. check_answer port x = Inr u))
    \<and> (distinct (map (\<lambda>t. (tgt_family t, tgt_sockaddr t)) ts) \<longrightarrow> distinct (map (\<lambda>t. (tgt_family t, tgt_sockaddr t)) ts'))"
  using assms
proof (induction answers arbitrary: ts)
  case (Cons x xs)
  from Cons.prems obtain t where t: "check_answer port x = Inr t"
    and rest: "collect_targets port (if list_ex (\<lambda>u. tgt_family u = tgt_family t \<and> tgt_sockaddr u = tgt_sockaddr t) ts then ts else ts @ [t]) xs = Inr ts'"
    by (auto split: if_splits)
  note ih = Cons.IH [OF rest]
  show ?case
  proof (cases "list_ex (\<lambda>u. tgt_family u = tgt_family t \<and> tgt_sockaddr u = tgt_sockaddr t) ts")
    case True
    with ih t show ?thesis by (auto simp: list_ex_iff)
  next
    case False
    then have "distinct (map (\<lambda>t. (tgt_family t, tgt_sockaddr t)) (ts @ [t]))"
      if "distinct (map (\<lambda>t. (tgt_family t, tgt_sockaddr t)) ts)" using that by (auto simp: list_ex_iff)
    with ih t False show ?thesis by auto
  qed
qed simp

text \<open>The text pinned in a target reads back as the very address that was classified.\<close>

lemma public_target_pinned:
  assumes "public_target t"
  shows "\<exists>s a. hd (tgt_sockaddr t) = PStr s \<and> parse_ip s = Some a \<and> is_global_unicast a"
  using assms parse_str_ipv4 parse_str_ipv6 unfolding public_target_def by force

lemma resolve_public_tcp_targets_Inr:
  assumes "resolve_public_tcp_targets version (Some resolve) (PStr h) port = Inr ts"
  shows "\<exists>answers. resolve (lower h @ ''.'') 443 = Inr answers \<and> collect_targets 443 [] (dns_answers answers) = Inr ts
    \<and> ts \<noteq> [] \<and> is_exact_dns_hostname h \<and> port = PInt 443 \<and> supports_safe_ipaddress_classification version"
proof -
  from assms have g: "is_exact_dns_hostname h" "port = PInt 443" "supports_safe_ipaddress_classification version"
    by (auto simp: resolve_public_tcp_targets_def HTTPS_PORT_def split: if_splits)
  then have "(case resolve (lower h @ ''.'') 443 of
      Inl e \<Rightarrow> Inl (if e = PyOSError then dest_error ''DNS resolution failed'' else e)
    | Inr answers \<Rightarrow> (case dns_answers answers of
          [] \<Rightarrow> Inl (dest_error ''DNS returned no usable TCP destinations'')
        | x # xs \<Rightarrow> bindr (collect_targets 443 [] (x # xs)) (\<lambda>targets.
            if targets = [] then Inl (dest_error ''DNS returned no usable TCP destinations'') else Inr targets))) = Inr ts"
    using assms unfolding resolve_public_tcp_targets_def HTTPS_PORT_def by simp
  then obtain answers x xs where r: "resolve (lower h @ ''.'') 443 = Inr answers" "dns_answers answers = x # xs"
    "bindr (collect_targets 443 [] (x # xs)) (\<lambda>targets.
        if targets = [] then Inl (dest_error ''DNS returned no usable TCP destinations'') else Inr targets) = Inr ts"
    by (auto split: sum.splits list.splits simp del: collect_targets.simps)
  from r(3) have "collect_targets 443 [] (x # xs) = Inr ts" "ts \<noteq> []"
    by (auto split: if_splits simp del: collect_targets.simps)
  with r g show ?thesis by metis
qed

lemma targets_public:
  assumes "resolve_public_tcp_targets version (Some resolve) (PStr h) port = Inr ts"
  shows "ts \<noteq> [] \<and> (\<forall>t\<in>set ts. public_target t)"
  using resolve_public_tcp_targets_Inr [OF assms] by (auto dest!: collect_targets_Inr intro: check_answer_public)

text \<open>C35. What the resolver hands out can be connected to without asking DNS again: there is at least one target and
  none twice; each pins an address text that reads back as a globally routable unicast address, at port 443
  with no scope and no flow label; and every answer of DNS to the absolute name is one of the targets, so one
  private address among the answers refuses them all.\<close>

theorem resolved_targets_public:
  assumes "resolve_public_tcp_targets version (Some resolve) (PStr h) port = Inr ts"
  shows "ts \<noteq> [] \<and> distinct (map (\<lambda>t. (tgt_family t, tgt_sockaddr t)) ts)
    \<and> (\<forall>t\<in>set ts. public_target t \<and> (\<exists>s a. hd (tgt_sockaddr t) = PStr s \<and> parse_ip s = Some a \<and> is_global_unicast a))
    \<and> (\<exists>answers. resolve (lower h @ ''.'') 443 = Inr answers \<and> (\<forall>x\<in>set (dns_answers answers).
         \<exists>t. check_answer 443 x = Inr t \<and> (\<exists>u\<in>set ts. tgt_family u = tgt_family t \<and> tgt_sockaddr u = tgt_sockaddr t)))"
proof -
  from resolve_public_tcp_targets_Inr [OF assms] obtain answers where r: "resolve (lower h @ ''.'') 443 = Inr answers"
    and c: "collect_targets 443 [] (dns_answers answers) = Inr ts" and ne: "ts \<noteq> []" by blast
  note k = collect_targets_Inr [OF c]
  have "\<forall>t\<in>set ts. public_target t \<and> (\<exists>s a. hd (tgt_sockaddr t) = PStr s \<and> parse_ip s = Some a \<and> is_global_unicast a)"
    using targets_public [OF assms] public_target_pinned by blast
  moreover have "distinct (map (\<lambda>t. (tgt_family t, tgt_sockaddr t)) ts)" using k by simp
  ultimately show ?thesis using r ne k by blast
qed

definition demo_dns :: "string \<Rightarrow> int \<Rightarrow> pyval res" where
  "demo_dns name port = Inr (PList [PTuple [PInt 2, PInt 1, PInt 6, PStr [], PTuple [PStr ''8.8.8.8'', PInt port]]])"

definition demo_target :: resolved_target where
  "demo_target = \<lparr>tgt_family = 2, tgt_socket_type = 1, tgt_protocol = 6, tgt_sockaddr = [PStr ''8.8.8.8'', PInt 443]\<rparr>"

lemma demo_answer:
  "check_answer 443 (PTuple [PInt 2, PInt 1, PInt 6, PStr [], PTuple [PStr ''8.8.8.8'', PInt 443]]) = Inr demo_target"
proof -
  have "octets 0x08080808 = [8, 8, 8, 8]" by (simp add: octets_def)
  moreover have "join ''.'' (map string_of_nat [8, 8, 8, 8]) = ''8.8.8.8''" by code_simp
  ultimately have s: "str_ip (IPv4 0x08080808) = ''8.8.8.8''" by (simp add: str_ip_def str_ipv4_def)
  then have p: "parse_ip ''8.8.8.8'' = Some (IPv4 0x08080808)" using parse_str_ipv4 [of "0x08080808"] by simp
  have d: "in_net4 w (a, b, c, d) len \<longleftrightarrow> unat w div 2 ^ (32 - len) = unat (of_nat (((a * 256 + b) * 256 + c) * 256 + d) :: ipv4) div 2 ^ (32 - len)"
    for w a b c d len unfolding in_net4_def prod.case word_unat_eq_iff unat_drop_bit_eq by (simp only: drop_bit_eq_div)
  have g: "is_global_unicast (IPv4 0x08080808)"
    by (simp add: is_global_unicast_def is_global_def is_private_def private4_def is_loopback_def is_link_local_def is_multicast_def
        is_reserved_def is_unspecified_def d)
  show ?thesis
    by (simp add: check_answer_def check_kind_def check_address_def normalized_sockaddr_def socket_constants p g s demo_target_def ip_version_def)
qed

lemma demo_resolve:
  assumes "is_exact_dns_hostname h"
  shows "resolve_public_tcp_targets (PTuple [PInt 3, PInt 12, PInt 7, PStr ''final'']) (Some demo_dns) (PStr h) (PInt 443) = Inr [demo_target]"
  using assms by (simp add: resolve_public_tcp_targets_def supports_safe_ipaddress_classification_def demo_dns_def dns_answers_def HTTPS_PORT_def demo_answer)

theorem resolved_targets_public_witness: "\<exists>a. demo_dns ''a.io.'' 443 = Inr a \<and> public_target demo_target"
proof -
  have "is_exact_dns_hostname ''a.io''"
  proof -
    have "lower ''a.io'' = ''a.io''" "list_all is_ascii ''a.io''" by code_simp+
    then show ?thesis using demo_hostname by (simp add: is_exact_dns_hostname_def)
  qed
  moreover have "lower ''a.io'' @ ''.'' = ''a.io.''" by code_simp
  ultimately show ?thesis using resolved_targets_public [OF demo_resolve] by (simp add: demo_dns_def)
qed

end
