(* ===== verification/Leased_Connect.thy ===== *)
theory Leased_Connect
  imports Network_Authority Connect_Request Network_Destination
begin

text \<open>
  \<^verbatim>\<open>src/icode/leased_connect.py\<close>: preparing the targets of a CONNECT request under a lease. The two checks of
  the lease read the authority at two moments, \<open>before\<close> and \<open>after\<close> the blocking DNS query; what the other threads
  do to the authority in between is the argument \<open>during\<close>, and \<open>t1\<close> and \<open>t2\<close> are the two readings of the
  monotonic clock.
\<close>

record connect_targets =
  ct_hostname :: string
  ct_port :: int
  ct_targets :: "resolved_target list"

definition resolve_leased_https_connect_targets ::
  "net_env \<Rightarrow> pyval \<Rightarrow> pyval \<Rightarrow> issued_lease option \<Rightarrow> sandbox_policy option \<Rightarrow> pyval
    \<Rightarrow> (string \<Rightarrow> int \<Rightarrow> pyval res) option \<Rightarrow> int \<Rightarrow> int \<Rightarrow> (authority \<Rightarrow> authority) \<Rightarrow> authority \<Rightarrow> connect_targets res" where
  "resolve_leased_https_connect_targets env version request_head iarg arg purpose resolver t1 t2 during s =
     bindr (parse_https_connect_request_head request_head) (\<lambda>target.
     bindr (verify_request env iarg arg purpose (PStr (target_hostname target)) (PInt (target_port target)) (PInt t1) s) (\<lambda>_.
     bindr (resolve_public_tcp_targets version resolver (PStr (target_hostname target)) (PInt (target_port target))) (\<lambda>targets.
     bindr (verify_request env iarg arg purpose (PStr (target_hostname target)) (PInt (target_port target)) (PInt t2) (during s)) (\<lambda>_.
       Inr \<lparr>ct_hostname = target_hostname target, ct_port = target_port target, ct_targets = targets\<rparr>))))"

lemma verify_request_Inr:
  assumes "verify_request env iarg arg purpose (PStr h) port (PInt t) s = Inr ()"
  shows "\<exists>i p. iarg = Some i \<and> arg = Some p \<and> lease_accepted env s i \<and> lower h \<in> set (lease_domains (lease i)) \<and> t < expires_at (lease i)
     \<and> lease_bound (net_sha256 env) (lease i) p"
proof -
  from assms obtain i k where i: "iarg = Some i" "policy_key env arg = Inr k" "verify_request_locked env i arg k purpose (PStr h) port (PInt t) s = Inr ()"
    by (auto simp: verify_request_def split: option.splits)
  from i have "lease_accepted env s i" using verify_request_scope [of env i arg purpose "PStr h" port "PInt t" s] assms by (metis lease_accepted_def)
  with i show ?thesis
    by (auto simp: verify_request_locked_iff verify_scope_locked_iff validate_scope_iff check_target_iff)
qed

text \<open>C14. Targets are handed out only under the lease: the request head is an accepted CONNECT for the host and port
  reported, the lease was accepted for that host before the query and is accepted again after it, at both
  clock readings within its lifetime, and every target is a public address. A lease that is refused before the query is
  refused the same way whatever the resolver is: DNS is not asked.\<close>

theorem connect_targets_need_lease:
  assumes "resolve_leased_https_connect_targets env version head iarg arg purpose (Some resolve) t1 t2 during s = r"
  shows "(\<forall>v. r = Inr v \<longrightarrow>
      parse_https_connect_request_head head = Inr \<lparr>target_hostname = ct_hostname v, target_port = ct_port v\<rparr>
      \<and> (\<exists>i. iarg = Some i \<and> lease_accepted env s i \<and> lease_accepted env (during s) i
          \<and> lower (ct_hostname v) \<in> set (lease_domains (lease i)) \<and> t1 < expires_at (lease i) \<and> t2 < expires_at (lease i))
      \<and> ct_targets v \<noteq> [] \<and> (\<forall>t\<in>set (ct_targets v). public_target t))
    \<and> (\<forall>target e. parse_https_connect_request_head head = Inr target \<longrightarrow>
        verify_request env iarg arg purpose (PStr (target_hostname target)) (PInt (target_port target)) (PInt t1) s = Inl e \<longrightarrow>
        (\<forall>resolver. resolve_leased_https_connect_targets env version head iarg arg purpose resolver t1 t2 during s = Inl e))"
proof (intro conjI allI impI)
  fix v assume "r = Inr v"
  with assms obtain target where t: "parse_https_connect_request_head head = Inr target"
    and v1: "verify_request env iarg arg purpose (PStr (target_hostname target)) (PInt (target_port target)) (PInt t1) s = Inr ()"
    and d: "resolve_public_tcp_targets version (Some resolve) (PStr (target_hostname target)) (PInt (target_port target)) = Inr (ct_targets v)"
    and v2: "verify_request env iarg arg purpose (PStr (target_hostname target)) (PInt (target_port target)) (PInt t2) (during s) = Inr ()"
    and h: "target_hostname target = ct_hostname v" "target_port target = ct_port v"
    by (auto simp: resolve_leased_https_connect_targets_def)
  from t h show "parse_https_connect_request_head head = Inr \<lparr>target_hostname = ct_hostname v, target_port = ct_port v\<rparr>" by (metis connect_target.surjective old.unit.exhaust)
  from verify_request_Inr [OF v1] verify_request_Inr [OF v2] h
  show "\<exists>i. iarg = Some i \<and> lease_accepted env s i \<and> lease_accepted env (during s) i
      \<and> lower (ct_hostname v) \<in> set (lease_domains (lease i)) \<and> t1 < expires_at (lease i) \<and> t2 < expires_at (lease i)" by auto
  from targets_public [OF d] show "ct_targets v \<noteq> []" "\<forall>t\<in>set (ct_targets v). public_target t" by auto
qed (simp add: resolve_leased_https_connect_targets_def)

text \<open>Revocation wins against a query that is under way: if the scope of an issued lease is revoked while DNS is
  being asked, even by a revocation that reports connections that would not close, no target is handed out.\<close>

theorem revoked_during_dns_refused:
  assumes "request_lease env arg purpose domains ttl now_arg clock apt tok approver other s = (Inr i, s0)"
    and "auth_steps env s0 before" and "auth_steps env before s1"
    and "revoke env confirms others arg s1 = (res, s2)" and "auth_steps env s2 (during before)"
    and "honest env others"
  shows "\<exists>e. resolve_leased_https_connect_targets env version head (Some i) arg' purpose' resolver t1 t2 during before = Inl e"
proof -
  have no: "\<not> lease_accepted env (during before) i"
    using revoked_not_accepted [OF assms(1) _ assms(4-6)] assms(2,3) by (meson rtranclp_trans)
  have "verify_request env (Some i) arg' purpose' (PStr h) port (PInt t2) (during before) \<noteq> Inr ()" for h port
    using no verify_request_Inr [of env "Some i"] by blast
  then show ?thesis unfolding resolve_leased_https_connect_targets_def
    by (auto simp: bindr_def split: sum.splits)
qed

section \<open>A request served and a request revoked\<close>

definition demo_head :: string where
  "demo_head = ''CONNECT a.io:443 HTTP/1.0'' @ CRLF @ CRLF"

abbreviation (input) demo_version :: pyval where
  "demo_version \<equiv> PTuple [PInt 3, PInt 12, PInt 7, PStr ''final'']"

lemma demo_head_parsed: "parse_https_connect_request_head (PBytes demo_head) = Inr \<lparr>target_hostname = ''a.io'', target_port = 443\<rparr>"
proof -
  have "lower ''a.io'' = ''a.io''" by code_simp
  then show ?thesis using connect_head_http10 [OF demo_hostname_any, of demo_head] by (simp add: demo_head_def CRLF_def)
qed

lemma demo_request_verified:
  "verify_request demo_net_env (Some demo_issued) (Some demo_narrow) (purpose_arg WEB_READ) (PStr ''a.io'') (PInt 443) (PInt 7) (mk_authority ''k'') = Inr ()"
  using demo_target_ok demo_verify [of "mk_authority ''k''"]
  by (simp add: verify_request_def demo_key verify_request_locked_iff demo_issued_def mk_authority_def)

theorem connect_targets_need_lease_witness:
  "\<exists>v. resolve_leased_https_connect_targets demo_net_env demo_version (PBytes demo_head) (Some demo_issued) (Some demo_narrow) (purpose_arg WEB_READ)
     (Some demo_dns) 7 7 id (mk_authority ''k'') = Inr v \<and> ct_hostname v = ''a.io'' \<and> (\<forall>t\<in>set (ct_targets v). public_target t)"
proof -
  have "resolve_leased_https_connect_targets demo_net_env demo_version (PBytes demo_head) (Some demo_issued) (Some demo_narrow) (purpose_arg WEB_READ)
     (Some demo_dns) 7 7 id (mk_authority ''k'') = Inr \<lparr>ct_hostname = ''a.io'', ct_port = 443, ct_targets = [demo_target]\<rparr>"
    using demo_resolve [OF demo_hostname_any] demo_request_verified
    by (simp add: resolve_leased_https_connect_targets_def demo_head_parsed)
  with connect_targets_need_lease [OF this] show ?thesis by auto
qed

theorem revoked_during_dns_refused_witness:
  "\<exists>e. resolve_leased_https_connect_targets demo_net_env demo_version (PBytes demo_head) (Some demo_issued) (Some demo_narrow) (purpose_arg WEB_READ)
     (Some demo_dns) 7 7 (\<lambda>s. snd (revoke demo_net_env (\<lambda>_. True) (alone (\<lambda>_. True)) (Some demo_narrow) s)) (mk_authority ''k'') = Inl e"
proof -
  obtain res s2 where r: "revoke demo_net_env (\<lambda>_. True) (alone (\<lambda>_. True)) (Some demo_narrow) (mk_authority ''k'') = (res, s2)" by (metis prod.exhaust)
  show ?thesis
    by (rule revoked_during_dns_refused [OF demo_request_lease rtranclp.rtrancl_refl rtranclp.rtrancl_refl r _ honest_alone]) (simp add: r)
qed

end
