(* ===== verification/Py_Dyn.thy ===== *)
theory Py_Dyn
  imports Py_Prelude "HOL-Library.Log_Nat"
begin

text \<open>
  Dictionaries and sets over dynamically typed values, as the code that reads JSON metadata uses them:
  \<^verbatim>\<open>d.get(k)\<close> with a string key, \<^verbatim>\<open>d.update(e)\<close>, the test \<^verbatim>\<open>x in frozenset\<close> (which raises on a value that
  cannot be hashed), the slice \<^verbatim>\<open>xs[-n:]\<close> and the conversion of an integer to a double.
\<close>

section \<open>Dictionaries with string keys\<close>

type_synonym pydict = "(pyval, pyval) dict"

definition pget :: "pydict \<Rightarrow> string \<Rightarrow> pyval" where
  "pget d k = (case dict_get d (PStr k) of None \<Rightarrow> PNone | Some v \<Rightarrow> v)"

definition pset :: "string \<Rightarrow> pyval \<Rightarrow> pydict \<Rightarrow> pydict" where
  "pset k v d = dict_set (PStr k) v d"

definition pdel :: "string \<Rightarrow> pydict \<Rightarrow> pydict" where
  "pdel k d = dict_del (PStr k) d"

definition pupdate :: "pydict \<Rightarrow> (string \<times> pyval) list \<Rightarrow> pydict" where
  "pupdate d kvs = foldl (\<lambda>d (k, v). pset k v d) d kvs"

definition as_dict :: "pyval \<Rightarrow> pydict option" where
  "as_dict v = (case v of PDict d \<Rightarrow> Some d | _ \<Rightarrow> None)"

lemma pget_pset [simp, dict_simps]: "pget (pset k v d) k' = (if k' = k then v else pget d k')"
  by (simp add: pget_def pset_def)

lemma pget_pdel [simp, dict_simps]: "pget (pdel k d) k' = (if k' = k then PNone else pget d k')"
  by (simp add: pget_def pdel_def)

lemma pget_Nil [simp]: "pget [] k = PNone"
  by (simp add: pget_def)

lemma pupdate_simps [simp]:
  "pupdate d [] = d"
  "pupdate d ((k, v) # kvs) = pupdate (pset k v d) kvs"
  by (simp_all add: pupdate_def)

lemma pget_pupdate_cases: "pget (pupdate d kvs) k = pget d k \<or> (k, pget (pupdate d kvs) k) \<in> set kvs"
proof (induction kvs arbitrary: d)
  case (Cons a kvs)
  obtain k' v where a: "a = (k', v)" by (cases a)
  show ?case using Cons.IH [of "pset k' v d"] by (cases "k = k'") (auto simp: a)
qed simp

lemma pget_pupdate_notin: "k \<notin> fst ` set kvs \<Longrightarrow> pget (pupdate d kvs) k = pget d k"
  using pget_pupdate_cases [of d kvs k] by force

lemma as_dict_Some [simp]: "as_dict v = Some d \<longleftrightarrow> v = PDict d"
  by (cases v) (auto simp: as_dict_def)

lemma as_dict_PDict [simp]: "as_dict (PDict d) = Some d"
  by (simp add: as_dict_def)

section \<open>Membership in a set of strings\<close>

fun hashable :: "pyval \<Rightarrow> bool" where
  "hashable (PList xs) = False"
| "hashable (PDict d) = False"
| "hashable (PTuple xs) = list_all hashable xs"
| "hashable v = True"

text \<open>Python's \<^verbatim>\<open>v in frozenset({...})\<close> for a set of strings.\<close>

definition in_strs :: "pyval \<Rightarrow> string list \<Rightarrow> bool res" where
  "in_strs v xs = (if hashable v then Inr (list_ex (\<lambda>x. v = PStr x) xs) else Inl (PyTypeError ''unhashable type''))"

lemma in_strs_True [simp]: "in_strs v xs = Inr True \<longleftrightarrow> (\<exists>x. v = PStr x \<and> x \<in> set xs)"
  by (auto simp: in_strs_def list_ex_iff)

lemma in_strs_PStr [simp]: "in_strs (PStr x) xs = Inr (x \<in> set xs)"
  by (auto simp: in_strs_def list_ex_iff)

lemma in_strs_PNone [simp]: "in_strs PNone xs = Inr False"
  by (simp add: in_strs_def list_ex_iff)

section \<open>The strings of a list\<close>

fun strs_of :: "pyval list \<Rightarrow> string list" where
  "strs_of [] = []"
| "strs_of (PStr s # xs) = s # strs_of xs"
| "strs_of (x # xs) = strs_of xs"

lemma strs_of_map_PStr [simp]: "strs_of (map PStr xs) = xs"
  by (induction xs) simp_all

lemma strs_of_append [simp]: "strs_of (xs @ ys) = strs_of xs @ strs_of ys"
  by (induction xs rule: strs_of.induct) simp_all

definition list_strs :: "pyval \<Rightarrow> string list" where
  "list_strs v = (case v of PList xs \<Rightarrow> strs_of xs | _ \<Rightarrow> [])"

section \<open>Slices\<close>

text \<open>\<^verbatim>\<open>xs[-n:]\<close>: the last \<open>n\<close> elements; everything when \<open>n\<close> is zero, and from \<open>- n\<close> on when it is negative.\<close>

definition last_n :: "int \<Rightarrow> 'a list \<Rightarrow> 'a list" where
  "last_n n xs = (if 0 < n then drop (length xs - nat n) xs else drop (nat (- n)) xs)"

lemma last_n_pos: "0 < n \<Longrightarrow> last_n n xs = drop (length xs - nat n) xs"
  by (simp add: last_n_def)

lemma length_last_n: "0 < n \<Longrightarrow> length (last_n n xs) = min (length xs) (nat n)"
  by (simp add: last_n_def)

lemma last_n_short: "0 < n \<Longrightarrow> int (length xs) \<le> n \<Longrightarrow> last_n n xs = xs"
  by (simp add: last_n_def)

lemma set_last_n: "set (last_n n xs) \<subseteq> set xs"
  by (auto simp: last_n_def dest: in_set_dropD)

lemma last_n_snoc: "0 < n \<Longrightarrow> \<exists>ys. last_n n (xs @ [x]) = ys @ [x]"
  by (simp add: last_n_def Suc_diff_le)

lemma last_n_one: "last_n 1 xs = (if xs = [] then [] else [last xs])"
  by (cases xs rule: rev_cases) (simp_all add: last_n_def)

section \<open>Integers as doubles\<close>

text \<open>\<^verbatim>\<open>float(n)\<close>: round to 53 significant bits, half to even; \<^verbatim>\<open>OverflowError\<close> beyond the largest double.\<close>

definition round53 :: "int \<Rightarrow> int" where
  "round53 n = (let k = nat (bitlen n) - 53; q = n div 2 ^ k; r = n mod 2 ^ k; half = 2 ^ (k - 1) in
     if k = 0 then n else (if half < r \<or> r = half \<and> odd q then q + 1 else q) * 2 ^ k)"

definition float_of_int :: "int \<Rightarrow> pyfloat res" where
  "float_of_int i = (let m = round53 \<bar>i\<bar> in
     if 2 ^ 1024 \<le> m then Inl PyOverflowError else Inr (Fin (of_int (if i < 0 then - m else m))))"

lemma float_of_int_small: "\<bar>i\<bar> < 2 ^ 53 \<Longrightarrow> float_of_int i = Inr (Fin (of_int i))"
proof -
  assume i: "\<bar>i\<bar> < 2 ^ 53"
  have "bitlen \<bar>i\<bar> \<le> 53"
  proof (cases "\<bar>i\<bar> = 0")
    case False
    then have p: "0 < \<bar>i\<bar>" by simp
    then have "2 ^ nat (bitlen \<bar>i\<bar> - 1) \<le> \<bar>i\<bar>" by (rule bitlen_bounds [THEN conjunct1])
    with i have "(2::int) ^ nat (bitlen \<bar>i\<bar> - 1) < 2 ^ 53" by linarith
    then have "nat (bitlen \<bar>i\<bar> - 1) < 53" by (rule power_less_imp_less_exp [rotated]) simp
    then show ?thesis by linarith
  qed simp
  then have "round53 \<bar>i\<bar> = \<bar>i\<bar>" by (simp add: round53_def Let_def)
  moreover have "\<bar>i\<bar> < 2 ^ 1024"
    by (rule order.strict_trans2 [OF i]) (rule power_increasing, simp_all)
  ultimately show ?thesis by (auto simp: float_of_int_def Let_def not_le [symmetric])
qed

end
