(* ===== verification/Failure_Policy.thy ===== *)
theory Failure_Policy
  imports Py_Dyn
begin

text \<open>
  \<^verbatim>\<open>src/icode/failure_policy.py\<close>: the class of a failure, the bounded decision taken for it under the answer of
  the machine policy, and the detection of failures that repeat. The answer of the policy channel is an
  untrusted value. The Chinese reason texts are the constructors of \<open>fail_reason\<close>.
\<close>

definition FAILURE_CLASSES :: "string list" where
  "FAILURE_CLASSES = [''retryable_transport'', ''capability_unavailable'', ''deterministic_failure'', ''policy_schema_security'',
     ''ambiguous_side_effect'', ''destructive_risk'']"

definition ACTIONS :: "string list" where
  "ACTIONS = [''retry'', ''fallback'', ''manual'', ''stop'']"

definition RAW_ACTIONS :: "string list" where
  "RAW_ACTIONS = [''retry'', ''fallback'', ''repair_then_retry'', ''verify_receipt'', ''human_decision'', ''block'']"

definition CLASS_BY_ERROR :: "(string, string) dict" where
  "CLASS_BY_ERROR =
     [(''isolation_unavailable'', ''capability_unavailable''),
      (''execution_unavailable'', ''capability_unavailable''),
      (''verification_plan_provider_failed'', ''capability_unavailable''),
      (''backend_error'', ''capability_unavailable''),
      (''status_unavailable'', ''capability_unavailable''),
      (''invalid_ticket'', ''policy_schema_security''),
      (''invalid_status'', ''policy_schema_security''),
      (''verification_plan_invalid'', ''policy_schema_security''),
      (''verification_plan_identity_mismatch'', ''policy_schema_security''),
      (''verification_plan_required'', ''policy_schema_security''),
      (''chain_failed'', ''deterministic_failure''),
      (''step_blocked'', ''deterministic_failure''),
      (''gate_blocked'', ''deterministic_failure''),
      (''executor_failed'', ''deterministic_failure''),
      (''chain_error'', ''ambiguous_side_effect''),
      (''executor_error'', ''ambiguous_side_effect''),
      (''no_progress_stuck'', ''ambiguous_side_effect'')]"

definition STUCK_THRESHOLD :: int where
  "STUCK_THRESHOLD = 2"

definition HISTORY_LIMIT :: int where
  "HISTORY_LIMIT = 8"

datatype fail_reason = No_reason | Security_gate | Destructive_action | No_trusted_policy | Policy_blocks | Fallback_disabled
  | Fallback_allowed | Retries_spent | Retry_not_allowed | Retry_allowed | Repair_first | Verify_first | Human_decides | No_progress

record failure_decision =
  failure_class :: string
  fd_action :: string
  auto_retry :: bool
  max_attempts :: int
  backoff_seconds :: pyfloat
  conclusion_ceiling :: string
  fd_reason :: fail_reason

text \<open>The constructor with its \<^verbatim>\<open>__post_init__\<close>; \<open>plain_decision\<close> are the defaults of the keyword arguments.\<close>

definition mk_FailureDecision :: "failure_decision \<Rightarrow> failure_decision res" where
  "mk_FailureDecision d =
     (if failure_class d \<notin> set FAILURE_CLASSES then Inl (PyValueError ''unknown failure class'')
      else if fd_action d \<notin> set ACTIONS then Inl (PyValueError ''unknown failure action'') else Inr d)"

definition plain_decision :: "string \<Rightarrow> string \<Rightarrow> fail_reason \<Rightarrow> failure_decision" where
  "plain_decision cls action reason = \<lparr>failure_class = cls, fd_action = action, auto_retry = False, max_attempts = 0,
     backoff_seconds = Fin 0, conclusion_ceiling = [], fd_reason = reason\<rparr>"

text \<open>The public projection; the reason text is given by \<open>reason_text\<close>.\<close>

definition decision_public :: "(fail_reason \<Rightarrow> string) \<Rightarrow> failure_decision \<Rightarrow> (string \<times> pyval) list" where
  "decision_public reason_text d =
     [(''class'', PStr (failure_class d)), (''action'', PStr (fd_action d)), (''auto_retry'', PBool (auto_retry d)),
      (''max_attempts'', PInt (max_attempts d)), (''conclusion_ceiling'', PStr (conclusion_ceiling d)),
      (''reason'', PStr (reason_text (fd_reason d)))]"

definition classify_failure :: "pyval \<Rightarrow> string" where
  "classify_failure error_code = (case error_code of
       PStr code \<Rightarrow> if code = [] then ''ambiguous_side_effect'' else dict_get_or ''ambiguous_side_effect'' CLASS_BY_ERROR code
     | _ \<Rightarrow> ''ambiguous_side_effect'')"

definition token_or_dash :: "pyval \<Rightarrow> string" where
  "token_or_dash v = (case v of PStr s \<Rightarrow> if s = [] then ''-'' else s | _ \<Rightarrow> ''-'')"

definition failure_fingerprint :: "pyval \<Rightarrow> pyval \<Rightarrow> string" where
  "failure_fingerprint error_code step = token_or_dash step @ '':'' @ token_or_dash error_code"

definition is_stuck :: "int \<Rightarrow> string list \<Rightarrow> string \<Rightarrow> bool" where
  "is_stuck threshold history fingerprint \<longleftrightarrow> 2 \<le> threshold \<and> fingerprint \<noteq> [] \<and>
     (let recent = last_n (threshold - 1) history in
      int (length recent) = threshold - 1 \<and> list_all (\<lambda>item. item = fingerprint) recent)"

definition record_failure :: "int \<Rightarrow> pyval list \<Rightarrow> string \<Rightarrow> string list" where
  "record_failure limit history fingerprint = last_n limit (last_n limit (strs_of history) @ [fingerprint])"

section \<open>The answer of the policy channel\<close>

record parsed_policy =
  pp_action :: string
  pp_ceiling :: string
  pp_auto_retry :: bool
  pp_max_attempts :: int
  pp_backoff :: pyfloat

definition float_nonneg :: "pyfloat \<Rightarrow> bool" where
  "float_nonneg f = (case f of Fin r \<Rightarrow> 0 \<le> r | NegZero \<Rightarrow> True | PosInf \<Rightarrow> True | NegInf \<Rightarrow> False | NaN \<Rightarrow> False)"

definition parse_backoff :: "pyval \<Rightarrow> pyfloat option res" where
  "parse_backoff v = (case v of
       PNone \<Rightarrow> Inr (Some (Fin 0))
     | PInt n \<Rightarrow> if 0 \<le> n then bindr (float_of_int n) (\<lambda>f. Inr (Some f)) else Inr None
     | PFloat f \<Rightarrow> Inr (if float_nonneg f then Some f else None)
     | _ \<Rightarrow> Inr None)"

definition parse_policy :: "pyval \<Rightarrow> parsed_policy option res" where
  "parse_policy policy = (case policy of
       PDict d \<Rightarrow>
         (case (pget d ''action'', pget d ''conclusion_ceiling'', pget d ''auto_retry'', pget d ''max_attempts'') of
            (PStr action, PStr ceil, PBool auto, PInt attempts) \<Rightarrow>
              if action \<notin> set RAW_ACTIONS \<or> ceil = [] \<or> attempts < 0 then Inr None
              else bindr (parse_backoff (pget d ''backoff_seconds'')) (\<lambda>b.
                Inr (map_option (\<lambda>f. \<lparr>pp_action = action, pp_ceiling = ceil, pp_auto_retry = auto,
                  pp_max_attempts = attempts, pp_backoff = f\<rparr>) b))
          | _ \<Rightarrow> Inr None)
     | _ \<Rightarrow> Inr None)"

section \<open>The decision\<close>

definition normal_class :: "string \<Rightarrow> string" where
  "normal_class cls = (if cls \<in> set FAILURE_CLASSES then cls else ''ambiguous_side_effect'')"

definition normal_attempts :: "pyval \<Rightarrow> int" where
  "normal_attempts v = (case v of PInt n \<Rightarrow> if n < 0 then 0 else n | _ \<Rightarrow> 0)"

definition decide_parsed :: "string \<Rightarrow> int \<Rightarrow> bool \<Rightarrow> parsed_policy \<Rightarrow> failure_decision" where
  "decide_parsed cls attempts allow_retry p =
     (let base = (\<lambda>action reason. (plain_decision cls action reason)
            \<lparr>max_attempts := pp_max_attempts p, conclusion_ceiling := pp_ceiling p\<rparr>) in
      if pp_action p = ''block'' then base ''stop'' Policy_blocks
      else if pp_action p = ''fallback'' then
        (if \<not> allow_retry then base ''manual'' Fallback_disabled else base ''fallback'' Fallback_allowed)
      else if pp_action p = ''retry'' then
        (if \<not> (pp_auto_retry p \<and> allow_retry \<and> attempts < pp_max_attempts p)
         then (base ''manual'' (if pp_max_attempts p \<le> attempts then Retries_spent else Retry_not_allowed))\<lparr>auto_retry := pp_auto_retry p\<rparr>
         else (base ''retry'' Retry_allowed)\<lparr>auto_retry := True, backoff_seconds := pp_backoff p\<rparr>)
      else base ''manual'' (if pp_action p = ''repair_then_retry'' then Repair_first
                            else if pp_action p = ''verify_receipt'' then Verify_first else Human_decides))"

definition decide_failure :: "string \<Rightarrow> pyval \<Rightarrow> pyval \<Rightarrow> bool \<Rightarrow> failure_decision res" where
  "decide_failure cls_arg attempts_arg policy allow_retry =
     (let cls = normal_class cls_arg; attempts = normal_attempts attempts_arg in
      if cls = ''policy_schema_security'' then mk_FailureDecision (plain_decision cls ''stop'' Security_gate)
      else if cls = ''destructive_risk'' then mk_FailureDecision (plain_decision cls ''manual'' Destructive_action)
      else bindr (parse_policy policy) (\<lambda>parsed. case parsed of
          None \<Rightarrow> mk_FailureDecision (plain_decision cls ''manual'' No_trusted_policy)
        | Some p \<Rightarrow> mk_FailureDecision (decide_parsed cls attempts allow_retry p)))"

definition stop_for_no_progress :: "failure_decision \<Rightarrow> failure_decision res" where
  "stop_for_no_progress d =
     (if fd_action d = ''stop'' then Inr d
      else mk_FailureDecision (d\<lparr>fd_action := ''stop'', auto_retry := False, fd_reason := No_progress\<rparr>))"

section \<open>Laws\<close>

lemma normal_class_ok: "normal_class cls \<in> set FAILURE_CLASSES"
  by (simp add: normal_class_def FAILURE_CLASSES_def)

lemma normal_attempts_nonneg: "0 \<le> normal_attempts v"
  by (simp add: normal_attempts_def split: pyval.split)

lemma classify_failure_ok: "classify_failure v \<in> set FAILURE_CLASSES"
proof -
  have "c \<in> set FAILURE_CLASSES" if "dict_get CLASS_BY_ERROR code = Some c" for code c
    using map_of_SomeD [OF that] by (auto simp: CLASS_BY_ERROR_def FAILURE_CLASSES_def)
  then show ?thesis
    by (auto simp: classify_failure_def dict_get_or_def FAILURE_CLASSES_def split: pyval.split option.split)
qed

lemma decide_parsed_ok:
  "failure_class (decide_parsed cls attempts allow p) = cls" "fd_action (decide_parsed cls attempts allow p) \<in> set ACTIONS"
  by (simp_all add: decide_parsed_def plain_decision_def Let_def ACTIONS_def)

lemma decide_parsed_retry_iff:
  "fd_action (decide_parsed cls attempts allow p) = ''retry'' \<longleftrightarrow>
     pp_action p = ''retry'' \<and> pp_auto_retry p \<and> allow \<and> attempts < pp_max_attempts p"
  by (simp add: decide_parsed_def plain_decision_def Let_def)

lemma mk_FailureDecision_Inr [simp]:
  "failure_class d \<in> set FAILURE_CLASSES \<Longrightarrow> fd_action d \<in> set ACTIONS \<Longrightarrow> mk_FailureDecision d = Inr d"
  by (simp add: mk_FailureDecision_def)

lemma plain_decision_simps [simp]:
  "failure_class (plain_decision cls action reason) = cls" "fd_action (plain_decision cls action reason) = action"
  by (simp_all add: plain_decision_def)

text \<open>The decision as a function of the parsed policy: it is never refused by its own constructor.\<close>

lemma decide_failure_eq:
  "decide_failure cls attempts policy allow =
     (if normal_class cls = ''policy_schema_security'' then Inr (plain_decision (normal_class cls) ''stop'' Security_gate)
      else if normal_class cls = ''destructive_risk'' then Inr (plain_decision (normal_class cls) ''manual'' Destructive_action)
      else bindr (parse_policy policy) (\<lambda>parsed. case parsed of
          None \<Rightarrow> Inr (plain_decision (normal_class cls) ''manual'' No_trusted_policy)
        | Some p \<Rightarrow> Inr (decide_parsed (normal_class cls) (normal_attempts attempts) allow p)))"
proof -
  have a: "''stop'' \<in> set ACTIONS" "''manual'' \<in> set ACTIONS" by (simp_all add: ACTIONS_def)
  have m: "mk_FailureDecision (plain_decision (normal_class cls) act r) = Inr (plain_decision (normal_class cls) act r)"
    if "act \<in> set ACTIONS" for act r using normal_class_ok that by simp
  have p: "mk_FailureDecision (decide_parsed (normal_class cls) n allow p) = Inr (decide_parsed (normal_class cls) n allow p)" for n p
    using decide_parsed_ok normal_class_ok by simp
  show ?thesis unfolding decide_failure_def Let_def m [OF a(1)] m [OF a(2)] p ..
qed

lemma parse_policy_PNone [simp]: "parse_policy PNone = Inr None"
  by (simp add: parse_policy_def)

lemma decide_without_policy:
  "\<exists>d. decide_failure cls attempts PNone allow = Inr d \<and> failure_class d = normal_class cls \<and> fd_action d \<in> {''stop'', ''manual''}"
  by (simp add: decide_failure_eq)

lemma record_failure_length: "0 < limit \<Longrightarrow> int (length (record_failure limit h fp)) \<le> limit"
  by (simp add: record_failure_def length_last_n)

lemma record_failure_last: "0 < limit \<Longrightarrow> record_failure limit h fp \<noteq> [] \<and> last (record_failure limit h fp) = fp"
  using last_n_snoc [of limit "last_n limit (strs_of h)" fp] by (auto simp: record_failure_def)

lemma is_stuck_two: "is_stuck 2 history fp \<longleftrightarrow> fp \<noteq> [] \<and> history \<noteq> [] \<and> last history = fp"
  by (auto simp: is_stuck_def Let_def last_n_one)

lemma failure_fingerprint_nonempty [simp]: "failure_fingerprint code step \<noteq> []"
  by (simp add: failure_fingerprint_def)

section \<open>When a failure is retried\<close>

lemma decide_failure_raises:
  "raises_only {PyOverflowError} (decide_failure cls attempts policy allow)"
proof -
  have "raises_only {PyOverflowError} (float_of_int n)" for n by (simp add: float_of_int_def Let_def raises_only_def)
  then have "raises_only {PyOverflowError} (parse_backoff v)" for v
    unfolding parse_backoff_def by (cases v) (auto intro!: raises_rules)
  then have "raises_only {PyOverflowError} (parse_policy policy)"
    unfolding parse_policy_def by (auto intro!: raises_rules split: pyval.split)
  then show ?thesis unfolding decide_failure_eq by (auto intro!: raises_rules)
qed

text \<open>A failure is retried exactly when the machine policy answered, in the strict form, that this class is retried
  automatically, the caller permits it and fewer attempts were made than the policy grants: no answer, a
  malformed answer, a security failure or a destructive action never lead to a retry. The decision always
  has one of the six classes and one of the four actions.\<close>

theorem retry_only_under_policy:
  assumes "decide_failure cls attempts policy allow = Inr d"
  shows "(fd_action d = ''retry'' \<longleftrightarrow>
      normal_class cls \<notin> {''policy_schema_security'', ''destructive_risk''} \<and>
      (\<exists>p. parse_policy policy = Inr (Some p) \<and> pp_action p = ''retry'' \<and> pp_auto_retry p \<and> allow \<and> normal_attempts attempts < pp_max_attempts p))
    \<and> failure_class d = normal_class cls \<and> failure_class d \<in> set FAILURE_CLASSES \<and> fd_action d \<in> set ACTIONS"
proof (cases "normal_class cls \<in> {''policy_schema_security'', ''destructive_risk''}")
  case True
  with assms show ?thesis using normal_class_ok [of cls] by (auto simp: decide_failure_eq ACTIONS_def)
next
  case False
  with assms obtain q where q: "parse_policy policy = Inr q"
    "d = (case q of None \<Rightarrow> plain_decision (normal_class cls) ''manual'' No_trusted_policy
       | Some p \<Rightarrow> decide_parsed (normal_class cls) (normal_attempts attempts) allow p)"
    by (auto simp: decide_failure_eq split: option.splits)
  show ?thesis
  proof (cases q)
    case None
    with q False show ?thesis using normal_class_ok [of cls] by (simp add: ACTIONS_def)
  next
    case (Some p)
    with q False show ?thesis using normal_class_ok [of cls] decide_parsed_ok decide_parsed_retry_iff by simp
  qed
qed

definition demo_policy_answer :: pyval where
  "demo_policy_answer = PDict [(PStr ''action'', PStr ''retry''), (PStr ''conclusion_ceiling'', PStr ''static''), (PStr ''auto_retry'', PBool True),
     (PStr ''max_attempts'', PInt 3)]"

lemma demo_policy_parsed:
  "parse_policy demo_policy_answer = Inr (Some \<lparr>pp_action = ''retry'', pp_ceiling = ''static'', pp_auto_retry = True, pp_max_attempts = 3, pp_backoff = Fin 0\<rparr>)"
  by (simp add: parse_policy_def demo_policy_answer_def pget_def RAW_ACTIONS_def parse_backoff_def)

theorem retry_only_under_policy_witness:
  "\<exists>d. decide_failure ''retryable_transport'' (PInt 1) demo_policy_answer True = Inr d \<and> fd_action d = ''retry''"
proof -
  have n: "normal_class ''retryable_transport'' = ''retryable_transport''" by (simp add: normal_class_def FAILURE_CLASSES_def)
  obtain d where d: "decide_failure ''retryable_transport'' (PInt 1) demo_policy_answer True = Inr d"
    using n demo_policy_parsed by (simp add: decide_failure_eq)
  with retry_only_under_policy [OF d] show ?thesis using n demo_policy_parsed by (simp add: normal_attempts_def)
qed

end
