(* ===== verification/Tickets.thy ===== *)
theory Tickets
  imports Py_Regex Failure_Policy
begin

text \<open>
  \<^verbatim>\<open>src/icode/tickets.py\<close>: the requests a browser may make, reading a ticket's metadata, its public projection
  and the controlled update of the agent extension. The ticket directories of a workspace are a list of
  directory and metadata, in the order of their slots; a directory whose metadata cannot be read has none.
  The control plane, a program outside the repository, is an argument: it answers an update with the new
  state of the directories and whether it accepted, or raises.
\<close>

section \<open>Vocabulary\<close>

definition SUPPORTED_LOCALES :: "string list" where
  "SUPPORTED_LOCALES = [''zh-CN'', ''en-US'']"

definition EXECUTION_MODES :: "string list" where
  "EXECUTION_MODES = [''interactive'', ''autonomous'']"

definition PRIORITIES :: "string list" where
  "PRIORITIES = [''low'', ''normal'', ''high'', ''urgent'']"

definition CREATE_TICKET_FIELDS :: "string list" where
  "CREATE_TICKET_FIELDS = [''project_id'', ''title'', ''description'', ''expected_result'', ''priority'', ''locale'', ''execution_mode'', ''request_id'']"

definition token_char :: "char \<Rightarrow> bool" where
  "token_char c \<longleftrightarrow> is_letter c \<or> is_digit c \<or> c \<in> {CHR ''.'', CHR ''_'', CHR '':'', CHR ''-''}"

definition REQUEST_ID_RE :: regex where
  "REQUEST_ID_RE = RSeq (rrange 1 140 (RCls token_char)) RDollar"

definition RUNTIME_TOKEN_RE :: regex where
  "RUNTIME_TOKEN_RE = RSeq (rrange 1 96 (RCls token_char)) RDollar"

definition code_char :: "char \<Rightarrow> bool" where
  "code_char c \<longleftrightarrow> is_lower_letter c \<or> is_digit c \<or> c = CHR ''_''"

definition RUNTIME_CODE_RE :: regex where
  "RUNTIME_CODE_RE = RSeq (RSeq (RCls is_lower_letter) (rrange 0 63 (RCls code_char))) RDollar"

definition RUNTIME_TIMESTAMP_RE :: regex where
  "RUNTIME_TIMESTAMP_RE =
     (let d = RCls is_digit; c = (\<lambda>x. RCls (\<lambda>y. y = x)) in
      rseqs [rexact 4 d, c (CHR ''-''), rexact 2 d, c (CHR ''-''), rexact 2 d, c (CHR ''T''), rexact 2 d, c (CHR '':''), rexact 2 d, c (CHR '':''),
        rexact 2 d, ropt (RSeq (c (CHR ''.'')) (rrange 1 6 d)), c (CHR ''Z''), RDollar])"

definition AUTONOMOUS_RUN_STATES :: "string list" where
  "AUTONOMOUS_RUN_STATES = [''pending'', ''starting'', ''running'', ''pause_requested'', ''paused'', ''cancel_requested'', ''cancelled'',
     ''succeeded'', ''failed'', ''blocked'', ''interrupted'']"

definition RUN_TIMESTAMP_FIELDS :: "string list" where
  "RUN_TIMESTAMP_FIELDS = [''requested_at'', ''started_at'', ''updated_at'', ''finished_at'']"

definition STATUS_STAGE_KEYS :: "(string, string) dict" where
  "STATUS_STAGE_KEYS =
     [(''log_in_progress'', ''understanding''), (''log_done'', ''understanding''), (''init_in_progress'', ''submitted''),
      (''plan_done'', ''reviewing_plan''), (''review_in_progress'', ''reviewing_plan''), (''review_done'', ''finalizing_plan''),
      (''plan_finalized'', ''ready_to_implement''), (''code_in_progress'', ''working''), (''code_done'', ''checking''),
      (''deepcheck_in_progress'', ''checking''), (''deepcheck_done'', ''preparing_delivery''), (''completed'', ''completed''),
      (''debug_in_progress'', ''working''), (''debug_done'', ''completed'')]"

definition full :: "regex \<Rightarrow> pyval \<Rightarrow> bool" where
  "full r v = (case v of PStr s \<Rightarrow> re_fullmatch r s | _ \<Rightarrow> False)"

section \<open>The request to create a ticket\<close>

definition required_text :: "pydict \<Rightarrow> string \<Rightarrow> nat \<Rightarrow> string res" where
  "required_text payload field limit = (case pget payload field of
       PStr v \<Rightarrow> if strip v = [] \<or> limit < length (strip v) then Inl TicketError else Inr (strip v)
     | _ \<Rightarrow> Inl TicketError)"

record create_request =
  cr_project_id :: string
  cr_title :: string
  cr_description :: string
  cr_expected_result :: string
  cr_priority :: string
  cr_locale :: string
  cr_execution_mode :: string
  cr_request_id :: string

definition normalize_create_ticket_payload :: "pyval \<Rightarrow> create_request res" where
  "normalize_create_ticket_payload payload = (case payload of
       PDict d \<Rightarrow>
         if set (dict_keys d) \<noteq> set (map PStr CREATE_TICKET_FIELDS) then Inl TicketError
         else
           bindr (required_text d ''project_id'' 80) (\<lambda>project_id.
           bindr (required_text d ''title'' 160) (\<lambda>title.
           bindr (required_text d ''description'' 5600) (\<lambda>description.
           bindr (required_text d ''expected_result'' 1600) (\<lambda>expected_result.
           bindr (required_text d ''priority'' 16) (\<lambda>priority.
           bindr (required_text d ''locale'' 16) (\<lambda>locl.
           bindr (required_text d ''execution_mode'' 16) (\<lambda>execution_mode.
           bindr (required_text d ''request_id'' 140) (\<lambda>request_id.
             if priority \<notin> set PRIORITIES \<or> locl \<notin> set SUPPORTED_LOCALES \<or> execution_mode \<notin> set EXECUTION_MODES
               \<or> \<not> re_fullmatch REQUEST_ID_RE request_id then Inl TicketError
             else Inr \<lparr>cr_project_id = project_id, cr_title = title, cr_description = description, cr_expected_result = expected_result,
               cr_priority = priority, cr_locale = locl, cr_execution_mode = execution_mode, cr_request_id = request_id\<rparr>))))))))
     | _ \<Rightarrow> Inl TicketError)"

section \<open>Reading metadata\<close>

text \<open>What an attempt to read the file gives: it is absent or locked for a moment, it is damaged, it parses, or the parser raises
  something the function does not catch (\<^verbatim>\<open>RecursionError\<close>, the \<^verbatim>\<open>ValueError\<close> of an integer with too many digits).\<close>

datatype metadata_read = Not_openable | Damaged | Parsed pyval | Uncaught exc

definition METADATA_READ_ATTEMPTS :: nat where
  "METADATA_READ_ATTEMPTS = 5"

fun load_metadata_from :: "nat \<Rightarrow> nat \<Rightarrow> (nat \<Rightarrow> metadata_read) \<Rightarrow> pydict res" where
  "load_metadata_from attempt 0 reads = Inl TicketError"
| "load_metadata_from attempt (Suc left) reads = (case reads attempt of
       Not_openable \<Rightarrow> if left = 0 then Inl TicketError else load_metadata_from (Suc attempt) left reads
     | Damaged \<Rightarrow> Inl TicketError
     | Uncaught e \<Rightarrow> Inl e
     | Parsed v \<Rightarrow> (case v of PDict d \<Rightarrow> Inr d | _ \<Rightarrow> Inl TicketError))"

definition load_metadata :: "(nat \<Rightarrow> metadata_read) \<Rightarrow> pydict res" where
  "load_metadata reads = load_metadata_from 0 METADATA_READ_ATTEMPTS reads"

type_synonym ticket_dirs = "(string \<times> pydict option) list"

definition resolve_ticket_record :: "ticket_dirs \<Rightarrow> string \<Rightarrow> (string \<times> pydict) res" where
  "resolve_ticket_record dirs ticket_id =
     (if ticket_id = [] then Inl TicketError
      else case concat (map (\<lambda>(out_dir, m). case m of None \<Rightarrow> []
                 | Some md \<Rightarrow> if pget md ''ticket_id'' = PStr ticket_id then [(out_dir, md)] else []) dirs) of
          [r] \<Rightarrow> Inr r
        | _ \<Rightarrow> Inl TicketError)"

definition agent_extension :: "pydict \<Rightarrow> pydict" where
  "agent_extension metadata = (case pget metadata ''extensions'' of
       PDict ext \<Rightarrow> (case pget ext ''icode_agent'' of PDict d \<Rightarrow> d | _ \<Rightarrow> [])
     | _ \<Rightarrow> [])"

section \<open>The public projection\<close>

definition keep_when :: "bool \<Rightarrow> string \<Rightarrow> pyval \<Rightarrow> (string \<times> pyval) list" where
  "keep_when b k v = (if b then [(k, v)] else [])"

definition public_failure :: "pyval \<Rightarrow> (string \<times> pyval) list" where
  "public_failure failure = (case failure of
       PDict f \<Rightarrow>
         (case (pget f ''class'', pget f ''action'', pget f ''stuck'') of
            (PStr c, PStr a, PBool stuck) \<Rightarrow>
              keep_when (c \<in> set FAILURE_CLASSES \<and> a \<in> set ACTIONS) ''failure''
                (PDict [(PStr ''class'', PStr c), (PStr ''action'', PStr a), (PStr ''stuck'', PBool stuck)])
          | _ \<Rightarrow> [])
     | _ \<Rightarrow> [])"

definition public_autonomous_run :: "pydict \<Rightarrow> pydict option res" where
  "public_autonomous_run agent = (case pget agent ''autonomous_run'' of
       PDict runtime \<Rightarrow>
         bindr (in_strs (pget runtime ''state'') AUTONOMOUS_RUN_STATES) (\<lambda>known.
           Inr (Some (pupdate []
             (keep_when known ''state'' (pget runtime ''state'')
              @ keep_when (case pget runtime ''revision'' of PInt n \<Rightarrow> 0 \<le> n | _ \<Rightarrow> False) ''revision'' (pget runtime ''revision'')
              @ concat (map (\<lambda>k. keep_when (full RUNTIME_TOKEN_RE (pget runtime k)) k (pget runtime k)) [''run_id'', ''last_step''])
              @ keep_when (full RUNTIME_CODE_RE (pget runtime ''error_code'')) ''error_code'' (pget runtime ''error_code'')
              @ public_failure (pget runtime ''failure_decision'')
              @ concat (map (\<lambda>k. keep_when (full RUNTIME_TIMESTAMP_RE (pget runtime k)) k (pget runtime k)) RUN_TIMESTAMP_FIELDS)))))
     | _ \<Rightarrow> Inr None)"

definition str_or :: "pyval \<Rightarrow> pyval \<Rightarrow> pyval" where
  "str_or v dflt = (case v of PStr s \<Rightarrow> PStr s | _ \<Rightarrow> dflt)"

definition one_of :: "pyval \<Rightarrow> string list \<Rightarrow> string \<Rightarrow> pyval res" where
  "one_of v xs dflt = bindr (in_strs v xs) (\<lambda>b. Inr (if b then v else PStr dflt))"

definition nonempty_str :: "pyval \<Rightarrow> bool" where
  "nonempty_str v = (case v of PStr s \<Rightarrow> s \<noteq> [] | _ \<Rightarrow> False)"

record ticket_env =
  te_project_id :: string
  te_project_name :: string
  te_str :: "pyval \<Rightarrow> string"
  te_acceptance :: "string \<Rightarrow> pyval option"

text \<open>The labels of \<^verbatim>\<open>status_display\<close>, which are texts for people, are left out of the projection.\<close>

definition public_ticket :: "ticket_env \<Rightarrow> pydict \<Rightarrow> pydict res" where
  "public_ticket env metadata = (case pget metadata ''ticket_id'' of
       PStr ticket_id \<Rightarrow>
         if ticket_id = [] then Inl TicketError
         else
           (let agent = agent_extension metadata;
                stat = (case pget metadata ''status'' of PStr s \<Rightarrow> s | _ \<Rightarrow> ''unknown'');
                title = (if nonempty_str (pget agent ''title'') then pget agent ''title''
                         else if nonempty_str (pget metadata ''requirement_summary'') then pget metadata ''requirement_summary''
                         else PStr ticket_id)
            in
            bindr (one_of (pget agent ''priority'') PRIORITIES ''normal'') (\<lambda>priority.
            bindr (one_of (pget agent ''locale'') SUPPORTED_LOCALES ''zh-CN'') (\<lambda>locl.
            bindr (one_of (pget agent ''requested_execution_mode'') EXECUTION_MODES ''interactive'') (\<lambda>requested.
            bindr (one_of (pget agent ''effective_execution_mode'') EXECUTION_MODES ''interactive'') (\<lambda>effective.
            bindr (one_of (pget agent ''mode_status'') [''active'', ''pending_activation''] ''active'') (\<lambda>mode_status.
            bindr (public_autonomous_run agent) (\<lambda>run.
              Inr (pupdate [] ([(''ticket_id'', PStr ticket_id), (''project_id'', PStr (te_project_id env)),
                 (''project_name'', PStr (te_project_name env)), (''title'', title),
                 (''summary'', str_or (pget metadata ''requirement_summary'') (PStr [])), (''status'', PStr stat),
                 (''stage_key'', PStr (dict_get_or ''unknown'' STATUS_STAGE_KEYS stat)), (''priority'', priority), (''locale'', locl),
                 (''requested_execution_mode'', requested), (''effective_execution_mode'', effective), (''mode_status'', mode_status),
                 (''updated_at'', str_or (pget metadata ''updated_at'') (case dict_get metadata (PStr ''created_at'') of None \<Rightarrow> PStr [] | Some v \<Rightarrow> v))]
                 @ (case run of None \<Rightarrow> [] | Some r \<Rightarrow> [(''autonomous_run'', PDict r)]))))))))))
     | _ \<Rightarrow> Inl TicketError)"

definition ticket_detail :: "ticket_env \<Rightarrow> ticket_dirs \<Rightarrow> string \<Rightarrow> pydict res" where
  "ticket_detail env dirs ticket_id =
     bindr (resolve_ticket_record dirs ticket_id) (\<lambda>(out_dir, metadata).
     bindr (public_ticket env metadata) (\<lambda>public.
       let agent = agent_extension metadata in
       Inr (pupdate public
         ([(''requirement'', str_or (pget metadata ''requirement'') (PStr [])),
           (''description'', str_or (pget agent ''description'') (PStr [])),
           (''expected_result'', str_or (pget agent ''expected_result'') (PStr [])),
           (''completed_steps'', PList (case pget metadata ''completed_steps'' of PList xs \<Rightarrow> map (PStr \<circ> te_str env) xs | _ \<Rightarrow> []))]
          @ (case te_acceptance env out_dir of None \<Rightarrow> [] | Some a \<Rightarrow> [(''acceptance'', a)])))))"

section \<open>Updating the agent extension\<close>

type_synonym control_plane = "string \<Rightarrow> string \<Rightarrow> pydict \<Rightarrow> string \<Rightarrow> ticket_dirs \<Rightarrow> bool res \<times> ticket_dirs"

definition merged_extensions :: "pydict \<Rightarrow> (string \<times> pyval) list \<Rightarrow> pydict" where
  "merged_extensions metadata patch =
     pset ''icode_agent'' (PDict (pupdate (agent_extension metadata) patch)) (case pget metadata ''extensions'' of PDict ext \<Rightarrow> ext | _ \<Rightarrow> [])"

definition update_agent_extension ::
  "ticket_env \<Rightarrow> control_plane \<Rightarrow> string \<Rightarrow> (string \<times> pyval) list \<Rightarrow> string \<Rightarrow> ticket_dirs \<Rightarrow> pydict res \<times> ticket_dirs" where
  "update_agent_extension env cp ticket_id patch request_id dirs =
     (if \<not> re_fullmatch REQUEST_ID_RE request_id then (Inl TicketError, dirs)
      else case resolve_ticket_record dirs ticket_id of
        Inl e \<Rightarrow> (Inl e, dirs)
      | Inr (out_dir, metadata) \<Rightarrow>
          (case cp out_dir ticket_id (merged_extensions metadata patch) request_id dirs of
             (Inl e, dirs') \<Rightarrow> (Inl e, dirs')
           | (Inr accepted, dirs') \<Rightarrow>
               if \<not> accepted then (Inl TicketError, dirs') else (ticket_detail env dirs' ticket_id, dirs')))"

section \<open>Laws\<close>

lemma fullmatch_dollar: "re_fullmatch (RSeq r RDollar) s \<longleftrightarrow> re_fullmatch r s"
  by (auto simp: re_fullmatch_iff dollar_at_def dest: rmatch_bound)

lemma request_id_iff: "re_fullmatch REQUEST_ID_RE s \<longleftrightarrow> 1 \<le> length s \<and> length s \<le> 140 \<and> list_all token_char s"
  by (simp add: REQUEST_ID_RE_def fullmatch_dollar re_fullmatch_rrange)

lemma runtime_token_iff: "re_fullmatch RUNTIME_TOKEN_RE s \<longleftrightarrow> 1 \<le> length s \<and> length s \<le> 96 \<and> list_all token_char s"
  by (simp add: RUNTIME_TOKEN_RE_def fullmatch_dollar re_fullmatch_rrange)

lemma required_text_Inr: "required_text d k n = Inr v \<Longrightarrow> v \<noteq> [] \<and> length v \<le> n \<and> (\<exists>s. pget d k = PStr s \<and> v = strip s)"
  by (auto simp: required_text_def split: pyval.splits if_splits)

text \<open>The retry loop reads at most five times and answers what the first readable state of the file is.\<close>

lemma load_metadata_from_iff:
  "load_metadata_from i n reads = Inr d \<longleftrightarrow> (\<exists>k<n. (\<forall>j<k. reads (i + j) = Not_openable) \<and> reads (i + k) = Parsed (PDict d))"
proof (induction n arbitrary: i)
  case (Suc n)
  have ex: "(\<exists>k<Suc n. (\<forall>j<k. reads (i + j) = Not_openable) \<and> reads (i + k) = Parsed (PDict d)) \<longleftrightarrow>
      reads i = Parsed (PDict d) \<or> reads i = Not_openable \<and>
        (\<exists>k<n. (\<forall>j<k. reads (Suc i + j) = Not_openable) \<and> reads (Suc i + k) = Parsed (PDict d))"
    by (auto simp: Ex_less_Suc2 All_less_Suc2)
  show ?case
  proof (cases "reads i")
    case Not_openable
    with Suc.IH [of "Suc i"] show ?thesis unfolding ex by (cases n) auto
  next
    case (Parsed v)
    then show ?thesis unfolding ex by (cases v) auto
  qed (simp_all add: ex)
qed simp

section \<open>What the code guarantees\<close>

text \<open>C40. Reading the metadata of a ticket ends after at most five attempts, and succeeds exactly when the file, after at
  most four moments in which it cannot be opened, holds a JSON object.\<close>

theorem load_metadata_within_five_reads:
  "load_metadata reads = Inr d \<longleftrightarrow> (\<exists>k<5. (\<forall>j<k. reads j = Not_openable) \<and> reads k = Parsed (PDict d))"
  unfolding load_metadata_def load_metadata_from_iff METADATA_READ_ATTEMPTS_def by simp

text \<open>An accepted request to create a ticket has exactly the eight fields, every text is stripped, non-empty and within its
  limit, priority, language and mode are of the closed vocabularies, and the request identifier has at most
  140 characters of the token alphabet.\<close>

theorem create_request_bounds:
  assumes "normalize_create_ticket_payload payload = Inr r"
  shows "(\<exists>d. payload = PDict d \<and> set (dict_keys d) = set (map PStr CREATE_TICKET_FIELDS)
        \<and> (\<exists>t. pget d ''title'' = PStr t \<and> cr_title r = strip t))
    \<and> 1 \<le> length (cr_project_id r) \<and> length (cr_project_id r) \<le> 80 \<and> 1 \<le> length (cr_title r) \<and> length (cr_title r) \<le> 160
    \<and> 1 \<le> length (cr_description r) \<and> length (cr_description r) \<le> 5600
    \<and> 1 \<le> length (cr_expected_result r) \<and> length (cr_expected_result r) \<le> 1600
    \<and> cr_priority r \<in> set PRIORITIES \<and> cr_locale r \<in> set SUPPORTED_LOCALES \<and> cr_execution_mode r \<in> set EXECUTION_MODES
    \<and> 1 \<le> length (cr_request_id r) \<and> length (cr_request_id r) \<le> 140 \<and> list_all token_char (cr_request_id r)"
proof -
  from assms obtain d where d: "payload = PDict d" "set (dict_keys d) = set (map PStr CREATE_TICKET_FIELDS)"
    "required_text d ''project_id'' 80 = Inr (cr_project_id r)" "required_text d ''title'' 160 = Inr (cr_title r)"
    "required_text d ''description'' 5600 = Inr (cr_description r)" "required_text d ''expected_result'' 1600 = Inr (cr_expected_result r)"
    "cr_priority r \<in> set PRIORITIES" "cr_locale r \<in> set SUPPORTED_LOCALES" "cr_execution_mode r \<in> set EXECUTION_MODES"
    "re_fullmatch REQUEST_ID_RE (cr_request_id r)"
    unfolding normalize_create_ticket_payload_def by (auto split: pyval.splits if_splits)
  note t = d(3-6) [THEN required_text_Inr]
  from d(1,2) t(2) have "\<exists>d. payload = PDict d \<and> set (dict_keys d) = set (map PStr CREATE_TICKET_FIELDS)
        \<and> (\<exists>t. pget d ''title'' = PStr t \<and> cr_title r = strip t)" by metis
  with t d(7-10) show ?thesis by (simp add: request_id_iff Suc_le_eq)
qed

text \<open>C39. The public projection of a run discloses only the eleven named fields, each in its closed format: a known state, a
  revision that is not negative, tokens of at most 96 characters, a stable error code, time stamps, and of
  the failure decision its class, action and whether it is stuck. Nothing else of the stored run is shown.\<close>

theorem public_run_is_sanitised:
  assumes "public_autonomous_run agent = Inr (Some public)" and "pget public k = v" and "v \<noteq> PNone"
  shows "(\<exists>s. k = ''state'' \<and> v = PStr s \<and> s \<in> set AUTONOMOUS_RUN_STATES) \<or> (\<exists>n. k = ''revision'' \<and> v = PInt n \<and> 0 \<le> n)
    \<or> k \<in> {''run_id'', ''last_step''} \<and> (\<exists>s. v = PStr s \<and> 1 \<le> length s \<and> length s \<le> 96 \<and> list_all token_char s)
    \<or> k = ''error_code'' \<and> full RUNTIME_CODE_RE v
    \<or> k \<in> set RUN_TIMESTAMP_FIELDS \<and> full RUNTIME_TIMESTAMP_RE v
    \<or> (\<exists>c a b. k = ''failure'' \<and> v = PDict [(PStr ''class'', PStr c), (PStr ''action'', PStr a), (PStr ''stuck'', PBool b)]
        \<and> c \<in> set FAILURE_CLASSES \<and> a \<in> set ACTIONS)"
proof -
  from assms(1) obtain runtime known where r: "in_strs (pget runtime ''state'') AUTONOMOUS_RUN_STATES = Inr known"
    and p: "public = pupdate []
             (keep_when known ''state'' (pget runtime ''state'')
              @ keep_when (case pget runtime ''revision'' of PInt n \<Rightarrow> 0 \<le> n | _ \<Rightarrow> False) ''revision'' (pget runtime ''revision'')
              @ concat (map (\<lambda>k. keep_when (full RUNTIME_TOKEN_RE (pget runtime k)) k (pget runtime k)) [''run_id'', ''last_step''])
              @ keep_when (full RUNTIME_CODE_RE (pget runtime ''error_code'')) ''error_code'' (pget runtime ''error_code'')
              @ public_failure (pget runtime ''failure_decision'')
              @ concat (map (\<lambda>k. keep_when (full RUNTIME_TIMESTAMP_RE (pget runtime k)) k (pget runtime k)) RUN_TIMESTAMP_FIELDS))"
      (is "_ = pupdate [] (?a @ ?b @ ?c @ ?d @ ?e @ ?f)")
    by (auto simp: public_autonomous_run_def split: pyval.splits)
  from pget_pupdate_cases [of "[]" "?a @ ?b @ ?c @ ?d @ ?e @ ?f" k] assms(2,3) p
  have "(k, v) \<in> set ?a \<or> (k, v) \<in> set ?b \<or> (k, v) \<in> set ?c \<or> (k, v) \<in> set ?d \<or> (k, v) \<in> set ?e \<or> (k, v) \<in> set ?f" by auto
  moreover have "\<exists>s. k = ''state'' \<and> v = PStr s \<and> s \<in> set AUTONOMOUS_RUN_STATES" if "(k, v) \<in> set ?a"
    using that r by (cases known) (auto simp: keep_when_def)
  moreover have "\<exists>n. k = ''revision'' \<and> v = PInt n \<and> 0 \<le> n" if "(k, v) \<in> set ?b"
    using that by (auto simp: keep_when_def split: if_splits pyval.splits)
  moreover have "k \<in> {''run_id'', ''last_step''} \<and> (\<exists>s. v = PStr s \<and> 1 \<le> length s \<and> length s \<le> 96 \<and> list_all token_char s)" if "(k, v) \<in> set ?c"
    using that by (auto simp: keep_when_def full_def runtime_token_iff split: if_splits pyval.splits)
  moreover have "k = ''error_code'' \<and> full RUNTIME_CODE_RE v" if "(k, v) \<in> set ?d" using that by (auto simp: keep_when_def split: if_splits)
  moreover have "k \<in> set RUN_TIMESTAMP_FIELDS \<and> full RUNTIME_TIMESTAMP_RE v" if "(k, v) \<in> set ?f"
    using that by (auto simp: keep_when_def split: if_splits)
  moreover have "\<exists>c a b. k = ''failure'' \<and> v = PDict [(PStr ''class'', PStr c), (PStr ''action'', PStr a), (PStr ''stuck'', PBool b)]
        \<and> c \<in> set FAILURE_CLASSES \<and> a \<in> set ACTIONS" if "(k, v) \<in> set ?e"
    using that by (auto simp: public_failure_def keep_when_def split: if_splits pyval.splits)
  ultimately show ?thesis by blast
qed

section \<open>A request and a stored run\<close>

definition demo_payload :: pydict where
  "demo_payload = map (\<lambda>(k, v). (PStr k, PStr v)) [(''project_id'', ''p''), (''title'', '' t ''), (''description'', ''d''), (''expected_result'', ''e''),
     (''priority'', ''low''), (''locale'', ''en-US''), (''execution_mode'', ''autonomous''), (''request_id'', ''r1'')]"

theorem create_request_bounds_witness:
  "\<exists>r. normalize_create_ticket_payload (PDict demo_payload) = Inr r \<and> cr_title r = ''t'' \<and> length (cr_request_id r) \<le> 140"
proof -
  have s: "strip ''p'' = ''p''" "strip '' t '' = ''t''" "strip ''d'' = ''d''" "strip ''e'' = ''e''" "strip ''low'' = ''low''" "strip ''en-US'' = ''en-US''"
    "strip ''autonomous'' = ''autonomous''" "strip ''r1'' = ''r1''" by code_simp+
  have "list_all token_char ''r1''" by code_simp
  then have "re_fullmatch REQUEST_ID_RE ''r1''" by (simp add: request_id_iff)
  moreover have "set (dict_keys demo_payload) = set (map PStr CREATE_TICKET_FIELDS)" by (simp add: demo_payload_def CREATE_TICKET_FIELDS_def)
  ultimately have e: "\<exists>r. normalize_create_ticket_payload (PDict demo_payload) = Inr r \<and> cr_title r = ''t''"
    by (simp add: normalize_create_ticket_payload_def required_text_def demo_payload_def pget_def s PRIORITIES_def SUPPORTED_LOCALES_def EXECUTION_MODES_def)
  then obtain r where r: "normalize_create_ticket_payload (PDict demo_payload) = Inr r" "cr_title r = ''t''" by blast
  with create_request_bounds [OF r(1)] show ?thesis by blast
qed

definition demo_agent :: pydict where
  "demo_agent = [(PStr ''autonomous_run'', PDict [(PStr ''state'', PStr ''running''), (PStr ''revision'', PInt 2), (PStr ''api_key'', PStr ''secret'')])]"

theorem public_run_is_sanitised_witness:
  "\<exists>public. public_autonomous_run demo_agent = Inr (Some public) \<and> pget public ''revision'' = PInt 2 \<and> pget public ''api_key'' = PNone"
proof -
  have e: "\<exists>public. public_autonomous_run demo_agent = Inr (Some public) \<and> pget public ''revision'' = PInt 2"
    by (simp add: public_autonomous_run_def demo_agent_def pget_def pset_def AUTONOMOUS_RUN_STATES_def keep_when_def full_def public_failure_def RUN_TIMESTAMP_FIELDS_def)
  then obtain public where p: "public_autonomous_run demo_agent = Inr (Some public)" "pget public ''revision'' = PInt 2" by blast
  from public_run_is_sanitised [OF p(1) refl, of "''api_key''"] have "pget public ''api_key'' = PNone"
    by (auto simp: RUN_TIMESTAMP_FIELDS_def)
  with p show ?thesis by blast
qed

theorem load_metadata_within_five_reads_witness:
  "load_metadata (\<lambda>n. if n < 4 then Not_openable else Parsed (PDict [])) = Inr []
   \<and> load_metadata (\<lambda>n. if n < 5 then Not_openable else Parsed (PDict [])) \<noteq> Inr []"
proof
  let ?r = "\<lambda>(m::nat) n. if n < m then Not_openable else Parsed (PDict [])"
  have "(\<forall>j<4. ?r 4 j = Not_openable) \<and> ?r 4 4 = Parsed (PDict [])" by simp
  then have "\<exists>k<5. (\<forall>j<k. ?r 4 j = Not_openable) \<and> ?r 4 k = Parsed (PDict [])" by (intro exI [of _ 4]) simp
  then show "load_metadata (?r 4) = Inr []" using load_metadata_within_five_reads [of "?r 4" "[]"] by simp
  show "load_metadata (?r 5) \<noteq> Inr []" using load_metadata_within_five_reads [of "?r 5" "[]"] by auto
qed

end
