(* ===== verification/Autonomy.thy ===== *)
theory Autonomy
  imports Tickets
begin

text \<open>
  \<^verbatim>\<open>src/icode/autonomy.py\<close>: the manager of autonomous runs. Every section a manager runs under its lock is one
  function on the manager and on the world it shares with the other managers of the process: the threads, the
  registry of process workers, the run controls and the ticket directories. A run control and its worker
  thread are created together and carry one number. The executor, the control plane, the workspace manager,
  the clock, \<^verbatim>\<open>uuid4\<close> and the hash are arguments.
\<close>

section \<open>Vocabulary\<close>

definition INTENTS :: "string list" where
  "INTENTS = [''start'', ''pause'', ''resume'', ''cancel'', ''takeover'']"

definition ACTIVE_STATES :: "string list" where
  "ACTIVE_STATES = [''starting'', ''running'', ''pause_requested'', ''cancel_requested'']"

definition TERMINAL_RESULT_STATES :: "string list" where
  "TERMINAL_RESULT_STATES = [''succeeded'', ''failed'', ''blocked'']"

definition READ_ONLY_STEPS :: "string list" where
  "READ_ONLY_STEPS = [''deepcheck'', ''review'']"

definition WORKER_RETRY_LIMIT :: nat where
  "WORKER_RETRY_LIMIT = 1"

definition STABLE_CODE_RE :: regex where
  "STABLE_CODE_RE = RUNTIME_CODE_RE"

definition STEP_RE :: regex where
  "STEP_RE = RUNTIME_TOKEN_RE"

definition INTENT_RECEIPT_RE :: regex where
  "INTENT_RECEIPT_RE = RSeq (rrange 64 64 (RCls (\<lambda>c. is_digit c \<or> CHR ''a'' \<le> c \<and> c \<le> CHR ''f''))) RDollar"

definition INTENT_RECEIPT_LIMIT :: int where
  "INTENT_RECEIPT_LIMIT = 64"

definition normalize_intent_payload :: "pyval \<Rightarrow> (string \<times> string) res" where
  "normalize_intent_payload payload = (case payload of
       PDict d \<Rightarrow>
         if set (dict_keys d) \<noteq> {PStr ''intent'', PStr ''request_id''} then Inl (AutonomyError ''invalid_intent'')
         else bindr (in_strs (pget d ''intent'') INTENTS) (\<lambda>known.
           case (known, pget d ''intent'', pget d ''request_id'') of
             (True, PStr intent, PStr request_id) \<Rightarrow>
               if re_fullmatch REQUEST_ID_RE request_id then Inr (intent, request_id) else Inl (AutonomyError ''invalid_intent'')
           | _ \<Rightarrow> Inl (AutonomyError ''invalid_intent''))
     | _ \<Rightarrow> Inl (AutonomyError ''invalid_intent''))"

record exec_result =
  er_state :: string
  er_last_step :: "string option"
  er_error_code :: "string option"

definition mk_ExecutionResult :: "pyval \<Rightarrow> pyval \<Rightarrow> pyval \<Rightarrow> exec_result res" where
  "mk_ExecutionResult state last_step error_code =
     bindr (in_strs state TERMINAL_RESULT_STATES) (\<lambda>known.
     if \<not> known then Inl (PyValueError ''executor result state must be succeeded/failed/blocked'')
     else if last_step \<noteq> PNone \<and> \<not> full STEP_RE last_step then Inl (PyValueError ''last_step must be a stable step token'')
     else if error_code \<noteq> PNone \<and> \<not> full STABLE_CODE_RE error_code then Inl (PyValueError ''error_code must be a stable code'')
     else (case state of
         PStr s \<Rightarrow> Inr \<lparr>er_state = s, er_last_step = as_str last_step, er_error_code = as_str error_code\<rparr>
       | _ \<Rightarrow> Inl (PyTypeError [])))"

definition opt_val :: "string option \<Rightarrow> pyval" where
  "opt_val x = (case x of None \<Rightarrow> PNone | Some s \<Rightarrow> PStr s)"

section \<open>State\<close>

datatype thread_state = Unstarted | Alive | Dead

record run_control =
  rc_ticket :: string
  rc_run_id :: string
  rc_stop :: "string option"
  rc_session :: bool
  rc_key :: string

record world =
  threads :: "(nat, thread_state) dict"
  process_workers :: "(string, nat) dict"
  run_controls :: "(nat, run_control) dict"
  dirs :: ticket_dirs
  next_thread :: nat

record manager =
  mgr_enabled :: bool
  mgr_workers :: "(string, nat) dict"
  mgr_controls :: "(string, nat) dict"
  mgr_receipts :: "(string \<times> string \<times> string) list"
  shutting_down :: bool

record auto_env =
  ae_tickets :: ticket_env
  ae_control :: control_plane
  ae_sha256 :: "string \<Rightarrow> string"
  ae_resolve :: "string \<Rightarrow> string"
  ae_reason :: "fail_reason \<Rightarrow> string"

definition mk_manager :: "bool \<Rightarrow> bool \<Rightarrow> bool \<Rightarrow> bool \<Rightarrow> manager" where
  "mk_manager enabled has_executor native has_workspace_manager =
     \<lparr>mgr_enabled = (enabled \<and> has_executor \<and> (\<not> native \<or> has_workspace_manager)), mgr_workers = [], mgr_controls = [], mgr_receipts = [],
      shutting_down = False\<rparr>"

lemma mk_manager_simps:
  "mgr_workers (mk_manager e x n h) = []" "mgr_controls (mk_manager e x n h) = []"
  by (simp_all add: mk_manager_def)

definition is_alive :: "world \<Rightarrow> nat \<Rightarrow> bool" where
  "is_alive w t \<longleftrightarrow> dict_get (threads w) t = Some Alive"

section \<open>Identities and receipts\<close>

definition revision_of :: "pydict \<Rightarrow> int" where
  "revision_of runtime = (case pget runtime ''revision'' of PInt n \<Rightarrow> if 0 \<le> n then n else 0 | _ \<Rightarrow> 0)"

definition internal_request :: "auto_env \<Rightarrow> string \<Rightarrow> string \<Rightarrow> string" where
  "internal_request env ticket_id suffix =
     ''autonomy-'' @ take 80 suffix @ ''-'' @ take 20 (ae_sha256 env (ticket_id @ ''|'' @ suffix))"

definition intent_receipt_token :: "auto_env \<Rightarrow> string \<Rightarrow> string \<Rightarrow> string \<Rightarrow> string" where
  "intent_receipt_token env ticket_id intent request_id = ae_sha256 env (ticket_id @ ''|'' @ intent @ ''|'' @ request_id)"

definition add_once :: "string \<Rightarrow> string list \<Rightarrow> string list" where
  "add_once x xs = (if x \<in> set xs then xs else xs @ [x])"

text \<open>The receipts of the stored run; the identity of the last intent counts as one, as older runs stored only that.\<close>

definition with_last_intent :: "auto_env \<Rightarrow> string \<Rightarrow> bool \<Rightarrow> pyval \<Rightarrow> pyval \<Rightarrow> string list \<Rightarrow> string list" where
  "with_last_intent env ticket_id known last_intent last_request stored =
     (case (known, last_intent, last_request) of
        (True, PStr intent, PStr request_id) \<Rightarrow>
          if re_fullmatch REQUEST_ID_RE request_id then add_once (intent_receipt_token env ticket_id intent request_id) stored else stored
      | _ \<Rightarrow> stored)"

definition intent_receipts :: "auto_env \<Rightarrow> string \<Rightarrow> pydict \<Rightarrow> string list res" where
  "intent_receipts env ticket_id runtime =
     bindr (in_strs (pget runtime ''last_intent'') INTENTS) (\<lambda>known.
       Inr (last_n INTENT_RECEIPT_LIMIT
         (with_last_intent env ticket_id known (pget runtime ''last_intent'') (pget runtime ''last_intent_request_id'')
            (filter (re_fullmatch INTENT_RECEIPT_RE) (list_strs (pget runtime ''intent_receipts''))))))"

definition append_intent_receipt :: "auto_env \<Rightarrow> string \<Rightarrow> pydict \<Rightarrow> string \<Rightarrow> string \<Rightarrow> string list res" where
  "append_intent_receipt env ticket_id runtime intent request_id =
     bindr (intent_receipts env ticket_id runtime) (\<lambda>receipts.
       Inr (last_n INTENT_RECEIPT_LIMIT (add_once (intent_receipt_token env ticket_id intent request_id) receipts)))"

section \<open>Reading the tickets\<close>

definition ticket_lookup :: "'a res \<Rightarrow> 'a res" where
  "ticket_lookup r = (case r of Inl e \<Rightarrow> Inl (if e = TicketError then AutonomyError ''ticket_not_found'' else e) | Inr x \<Rightarrow> Inr x)"

definition ticket_of :: "auto_env \<Rightarrow> world \<Rightarrow> string \<Rightarrow> pydict res" where
  "ticket_of env w ticket_id = ticket_lookup (ticket_detail (ae_tickets env) (dirs w) ticket_id)"

definition raw_runtime :: "world \<Rightarrow> string \<Rightarrow> pydict res" where
  "raw_runtime w ticket_id =
     bindr (ticket_lookup (resolve_ticket_record (dirs w) ticket_id)) (\<lambda>(out_dir, metadata).
       Inr (case pget (agent_extension metadata) ''autonomous_run'' of PDict runtime \<Rightarrow> runtime | _ \<Rightarrow> []))"

definition process_worker_key :: "auto_env \<Rightarrow> world \<Rightarrow> string \<Rightarrow> string res" where
  "process_worker_key env w ticket_id =
     bindr (ticket_lookup (resolve_ticket_record (dirs w) ticket_id)) (\<lambda>(out_dir, metadata). Inr (ae_resolve env out_dir))"

record execution_context =
  ec_ticket_id :: string
  ec_out_dir :: string
  ec_in_session :: bool
  ec_requirement :: string
  ec_status :: string
  ec_completed_steps :: "string list"

definition execution_context_of :: "auto_env \<Rightarrow> world \<Rightarrow> string \<Rightarrow> run_control \<Rightarrow> execution_context res" where
  "execution_context_of env w ticket_id control =
     bindr (ticket_lookup (resolve_ticket_record (dirs w) ticket_id)) (\<lambda>(out_dir, metadata).
       Inr \<lparr>ec_ticket_id = ticket_id, ec_out_dir = out_dir, ec_in_session = rc_session control,
         ec_requirement = (case pget metadata ''requirement'' of PStr s \<Rightarrow> s | _ \<Rightarrow> []),
         ec_status = (case pget metadata ''status'' of PStr s \<Rightarrow> s | _ \<Rightarrow> ''unknown''),
         ec_completed_steps = (case pget metadata ''completed_steps'' of PList xs \<Rightarrow> map (te_str (ae_tickets env)) xs | _ \<Rightarrow> [])\<rparr>)"

definition update_ticket :: "auto_env \<Rightarrow> string \<Rightarrow> (string \<times> pyval) list \<Rightarrow> string \<Rightarrow> world \<Rightarrow> pydict res \<times> world" where
  "update_ticket env ticket_id patch request_id w =
     (case update_agent_extension (ae_tickets env) (ae_control env) ticket_id patch request_id (dirs w) of
        (r, d) \<Rightarrow> (r, w\<lparr>dirs := d\<rparr>))"

definition persist_intent :: "auto_env \<Rightarrow> string \<Rightarrow> (string \<times> pyval) list \<Rightarrow> string \<Rightarrow> world \<Rightarrow> pydict res \<times> world" where
  "persist_intent env ticket_id patch request_id w =
     (case update_ticket env ticket_id patch request_id w of
        (Inl e, w') \<Rightarrow> (Inl (if e = TicketError then AutonomyError ''state_persistence_failed'' else e), w')
      | (Inr public, w') \<Rightarrow> (Inr public, w'))"

section \<open>The registry of process workers\<close>

definition reserve_process_worker :: "string \<Rightarrow> nat \<Rightarrow> world \<Rightarrow> bool \<times> world" where
  "reserve_process_worker key worker w =
     (case dict_get (process_workers w) key of
        Some existing \<Rightarrow>
          if dict_get (threads w) existing = Some Unstarted \<or> is_alive w existing then (False, w)
          else (True, w\<lparr>process_workers := dict_set key worker (dict_del key (process_workers w))\<rparr>)
      | None \<Rightarrow> (True, w\<lparr>process_workers := dict_set key worker (process_workers w)\<rparr>))"

definition release_process_worker :: "string \<Rightarrow> nat \<Rightarrow> world \<Rightarrow> world" where
  "release_process_worker key worker w =
     (if dict_get (process_workers w) key = Some worker then w\<lparr>process_workers := dict_del key (process_workers w)\<rparr> else w)"

definition has_live_process_worker :: "auto_env \<Rightarrow> string \<Rightarrow> world \<Rightarrow> bool res \<times> world" where
  "has_live_process_worker env ticket_id w =
     (case process_worker_key env w ticket_id of
        Inl e \<Rightarrow> (Inl e, w)
      | Inr key \<Rightarrow>
          (case dict_get (process_workers w) key of
             None \<Rightarrow> (Inr False, w)
           | Some worker \<Rightarrow>
               if dict_get (threads w) worker = Some Unstarted \<or> is_alive w worker then (Inr True, w)
               else (Inr False, w\<lparr>process_workers := dict_del key (process_workers w)\<rparr>)))"

definition set_control :: "nat \<Rightarrow> run_control \<Rightarrow> world \<Rightarrow> world" where
  "set_control c control w = w\<lparr>run_controls := dict_set c control (run_controls w)\<rparr>"

definition release_worker_locked :: "string \<Rightarrow> nat \<Rightarrow> manager \<times> world \<Rightarrow> manager \<times> world" where
  "release_worker_locked ticket_id c mw = (case mw of (m, w) \<Rightarrow>
     (case dict_get (run_controls w) c of
        None \<Rightarrow> (m, w)
      | Some control \<Rightarrow>
          let w1 = set_control c (control\<lparr>rc_session := False\<rparr>) w in
          if dict_get (mgr_controls m) ticket_id = Some c then
            (m\<lparr>mgr_controls := dict_del ticket_id (mgr_controls m), mgr_workers := dict_del ticket_id (mgr_workers m)\<rparr>,
             (case dict_get (mgr_workers m) ticket_id of None \<Rightarrow> w1 | Some worker \<Rightarrow> release_process_worker (rc_key control) worker w1))
          else (m, w1)))"

section \<open>Starting and resuming\<close>

text \<open>What the surroundings answer to one intent: the workspace manager (when there is one), whether the thread can be
  started, the identifier from \<^verbatim>\<open>uuid4\<close> and the times.\<close>

record intent_answers =
  ia_workspace :: "unit res option"
  ia_thread_starts :: bool
  ia_uuid :: string
  ia_now :: string
  ia_later :: string
  ia_latest :: string

definition START_FROM :: "string list" where
  "START_FROM = [''pending'', ''cancelled'', ''succeeded'', ''failed'', ''blocked'', ''interrupted'']"

definition RESUME_FROM :: "string list" where
  "RESUME_FROM = [''paused'', ''failed'', ''blocked'', ''interrupted'']"

definition require_capability :: "manager \<Rightarrow> pydict \<Rightarrow> unit res" where
  "require_capability m ticket =
     (if \<not> mgr_enabled m then Inl (AutonomyError ''capability_disabled'')
      else if pget ticket ''requested_execution_mode'' \<noteq> PStr ''autonomous'' then Inl (AutonomyError ''autonomous_not_requested'')
      else Inr ())"

definition may_start_from :: "string \<Rightarrow> pyval \<Rightarrow> bool res" where
  "may_start_from intent state =
     (if intent = ''start'' then bindr (in_strs state START_FROM) (\<lambda>b. Inr (b \<or> state = PNone)) else in_strs state RESUME_FROM)"

definition kept_history :: "pydict \<Rightarrow> (string \<times> pyval) list" where
  "kept_history runtime =
     (let kept = last_n HISTORY_LIMIT (list_strs (pget runtime ''failure_history'')) in
      if kept = [] then [] else [(''failure_history'', PList (map PStr kept))])"

definition starting_runtime :: "string \<Rightarrow> string \<Rightarrow> string \<Rightarrow> string \<Rightarrow> string list \<Rightarrow> pydict \<Rightarrow> pydict" where
  "starting_runtime run_id now intent request_id receipts runtime =
     pupdate [] ([(''state'', PStr ''starting''), (''run_id'', PStr run_id), (''revision'', PInt (revision_of runtime + 1)),
       (''requested_at'', PStr now), (''updated_at'', PStr now), (''last_intent'', PStr intent), (''last_intent_request_id'', PStr request_id),
       (''intent_receipts'', PList (map PStr receipts))] @ kept_history runtime)"

definition interactive_patch :: "pydict \<Rightarrow> (string \<times> pyval) list" where
  "interactive_patch runtime =
     [(''effective_execution_mode'', PStr ''interactive''), (''mode_status'', PStr ''pending_activation''), (''autonomous_run'', PDict runtime)]"

definition interrupted_runtime :: "string \<Rightarrow> string \<Rightarrow> string \<Rightarrow> pydict \<Rightarrow> pydict" where
  "interrupted_runtime now later code runtime =
     pupdate runtime [(''state'', PStr ''interrupted''), (''revision'', PInt (revision_of runtime + 1)), (''updated_at'', PStr now),
       (''finished_at'', PStr later), (''error_code'', PStr code)]"

definition workspace_error :: "exc \<Rightarrow> exc" where
  "workspace_error e = (if e = WorkspaceBusyError then AutonomyError ''workspace_busy''
     else if e = WorkspaceError then AutonomyError ''workspace_setup_failed'' else e)"

text \<open>The part after the registration: open the workspace, persist, start the thread.\<close>

definition launch_worker ::
  "auto_env \<Rightarrow> intent_answers \<Rightarrow> string \<Rightarrow> string \<Rightarrow> string \<Rightarrow> pydict \<Rightarrow> nat \<Rightarrow> manager \<times> world \<Rightarrow> pydict res \<times> manager \<times> world" where
  "launch_worker env a ticket_id intent request_id starting c mw = (case mw of (m, w) \<Rightarrow>
     let opened = (case ia_workspace a of None \<Rightarrow> Inr False | Some (Inr _) \<Rightarrow> Inr True | Some (Inl e) \<Rightarrow> Inl (workspace_error e)) in
     (case opened of
        Inl e \<Rightarrow> (Inl e, release_worker_locked ticket_id c (m, w))
      | Inr session \<Rightarrow>
          let w1 = (case dict_get (run_controls w) c of None \<Rightarrow> w | Some control \<Rightarrow> set_control c (control\<lparr>rc_session := session\<rparr>) w) in
          (case persist_intent env ticket_id
               [(''effective_execution_mode'', PStr ''autonomous''), (''mode_status'', PStr ''active''), (''autonomous_run'', PDict starting)]
               (internal_request env ticket_id (''intent-'' @ intent @ ''-'' @ request_id)) w1 of
             (Inl e, w2) \<Rightarrow> (Inl e, release_worker_locked ticket_id c (m, w2))
           | (Inr public, w2) \<Rightarrow>
               if ia_thread_starts a then (Inr public, m, w2\<lparr>threads := dict_set c Alive (threads w2)\<rparr>)
               else
                 (case release_worker_locked ticket_id c (m, w2) of (m3, w3) \<Rightarrow>
                  let interrupted = interrupted_runtime (ia_later a) (ia_latest a) ''worker_start_failed'' starting in
                  (case persist_intent env ticket_id (interactive_patch interrupted)
                       (internal_request env ticket_id (''run-run-'' @ ia_uuid a @ ''-'' @ string_of_int (revision_of interrupted) @ ''-start-failed'')) w3 of
                     (Inl e, w4) \<Rightarrow> (Inl e, m3, w4)
                   | (Inr _, w4) \<Rightarrow> (Inl (AutonomyError ''worker_start_failed''), m3, w4))))))"

definition register_worker :: "string \<Rightarrow> string \<Rightarrow> string \<Rightarrow> manager \<times> world \<Rightarrow> (nat option) \<times> manager \<times> world" where
  "register_worker ticket_id run_id key mw = (case mw of (m, w) \<Rightarrow>
     let c = next_thread w;
         w1 = w\<lparr>next_thread := Suc c, threads := dict_set c Unstarted (threads w),
                run_controls := dict_set c \<lparr>rc_ticket = ticket_id, rc_run_id = run_id, rc_stop = None, rc_session = False, rc_key = key\<rparr> (run_controls w)\<rparr> in
     (case reserve_process_worker key c w1 of
        (False, w2) \<Rightarrow> (None, m, w2)
      | (True, w2) \<Rightarrow>
          (Some c, m\<lparr>mgr_controls := dict_set ticket_id c (mgr_controls m), mgr_workers := dict_set ticket_id c (mgr_workers m)\<rparr>, w2)))"

text \<open>Everything that can refuse the intent before a worker exists: the run to be written and the worker's key.\<close>

definition prepare_start ::
  "auto_env \<Rightarrow> intent_answers \<Rightarrow> pydict \<Rightarrow> string \<Rightarrow> string \<Rightarrow> string \<Rightarrow> manager \<Rightarrow> world \<Rightarrow> (pydict \<times> string) res" where
  "prepare_start env a ticket ticket_id intent request_id m w =
     bindr (require_capability m ticket) (\<lambda>_.
     if (case dict_get (mgr_workers m) ticket_id of None \<Rightarrow> False | Some t \<Rightarrow> is_alive w t) then Inl (AutonomyError ''invalid_transition'')
     else
       bindr (raw_runtime w ticket_id) (\<lambda>runtime.
       bindr (may_start_from intent (pget runtime ''state'')) (\<lambda>ok.
       if \<not> ok then Inl (AutonomyError ''invalid_transition'')
       else
         bindr (append_intent_receipt env ticket_id runtime intent request_id) (\<lambda>receipts.
         bindr (process_worker_key env w ticket_id) (\<lambda>key.
           Inr (starting_runtime (''run-'' @ ia_uuid a) (ia_now a) intent request_id receipts runtime, key))))))"

definition start_or_resume_locked ::
  "auto_env \<Rightarrow> intent_answers \<Rightarrow> pydict \<Rightarrow> string \<Rightarrow> string \<Rightarrow> string \<Rightarrow> manager \<times> world \<Rightarrow> pydict res \<times> manager \<times> world" where
  "start_or_resume_locked env a ticket ticket_id intent request_id mw = (case mw of (m, w) \<Rightarrow>
     (case prepare_start env a ticket ticket_id intent request_id m w of
        Inl e \<Rightarrow> (Inl e, m, w)
      | Inr (starting, key) \<Rightarrow>
          (case register_worker ticket_id (''run-'' @ ia_uuid a) key (m, w) of
             (None, m1, w1) \<Rightarrow> (Inl (AutonomyError ''invalid_transition''), m1, w1)
           | (Some c, m1, w1) \<Rightarrow> launch_worker env a ticket_id intent request_id starting c (m1, w1))))"

section \<open>Requesting a stop\<close>

definition requested_runtime :: "string \<Rightarrow> string \<Rightarrow> string \<Rightarrow> string list \<Rightarrow> pydict \<Rightarrow> pydict" where
  "requested_runtime now intent request_id receipts runtime =
     pupdate runtime [(''state'', PStr (if intent = ''cancel'' then ''cancel_requested'' else ''pause_requested'')),
       (''revision'', PInt (revision_of runtime + 1)), (''updated_at'', PStr now), (''last_intent'', PStr intent),
       (''last_intent_request_id'', PStr request_id), (''intent_receipts'', PList (map PStr receipts))]"

definition prepare_stop ::
  "auto_env \<Rightarrow> intent_answers \<Rightarrow> string \<Rightarrow> string \<Rightarrow> string \<Rightarrow> manager \<Rightarrow> world \<Rightarrow> (nat \<times> pydict) res" where
  "prepare_stop env a ticket_id intent request_id m w =
     bindr (raw_runtime w ticket_id) (\<lambda>runtime.
       case (dict_get (mgr_controls m) ticket_id, dict_get (mgr_workers m) ticket_id) of
         (Some c, Some t) \<Rightarrow>
           if \<not> is_alive w t then Inl (AutonomyError ''invalid_transition'')
           else
             bindr (in_strs (pget runtime ''state'') [''starting'', ''running'', ''pause_requested'']) (\<lambda>stoppable.
             if \<not> stoppable \<or> pget runtime ''state'' = PStr ''pause_requested'' \<and> intent = ''pause'' then Inl (AutonomyError ''invalid_transition'')
             else bindr (append_intent_receipt env ticket_id runtime intent request_id) (\<lambda>receipts.
               Inr (c, requested_runtime (ia_now a) intent request_id receipts runtime)))
       | _ \<Rightarrow> Inl (AutonomyError ''invalid_transition''))"

definition request_stop_locked ::
  "auto_env \<Rightarrow> intent_answers \<Rightarrow> string \<Rightarrow> string \<Rightarrow> string \<Rightarrow> manager \<times> world \<Rightarrow> pydict res \<times> manager \<times> world" where
  "request_stop_locked env a ticket_id intent request_id mw = (case mw of (m, w) \<Rightarrow>
     (case prepare_stop env a ticket_id intent request_id m w of
        Inl e \<Rightarrow> (Inl e, m, w)
      | Inr (c, requested) \<Rightarrow>
          (case persist_intent env ticket_id [(''autonomous_run'', PDict requested)]
               (internal_request env ticket_id (''intent-'' @ intent @ ''-'' @ request_id)) w of
             (Inl e, w1) \<Rightarrow> (Inl e, m, w1)
           | (Inr public, w1) \<Rightarrow>
               (Inr public, m, case dict_get (run_controls w1) c of None \<Rightarrow> w1 | Some control \<Rightarrow> set_control c (control\<lparr>rc_stop := Some intent\<rparr>) w1))))"

section \<open>An intent\<close>

definition already_applied :: "auto_env \<Rightarrow> string \<Rightarrow> string \<Rightarrow> string \<Rightarrow> pydict \<Rightarrow> bool res" where
  "already_applied env ticket_id intent request_id runtime =
     bindr (intent_receipts env ticket_id runtime) (\<lambda>receipts.
       Inr (intent_receipt_token env ticket_id intent request_id \<in> set receipts
         \<or> pget runtime ''last_intent'' = PStr intent \<and> pget runtime ''last_intent_request_id'' = PStr request_id))"

definition with_receipt :: "string \<times> string \<times> string \<Rightarrow> pydict res \<times> manager \<times> world \<Rightarrow> pydict res \<times> manager \<times> world" where
  "with_receipt key r = (case r of (Inr public, m, w) \<Rightarrow> (Inr public, m\<lparr>mgr_receipts := key # mgr_receipts m\<rparr>, w) | _ \<Rightarrow> r)"

definition handle_intent :: "auto_env \<Rightarrow> intent_answers \<Rightarrow> string \<Rightarrow> pyval \<Rightarrow> manager \<times> world \<Rightarrow> pydict res \<times> manager \<times> world" where
  "handle_intent env a ticket_id payload mw = (case mw of (m, w) \<Rightarrow>
     (case normalize_intent_payload payload of
        Inl e \<Rightarrow> (Inl e, m, w)
      | Inr (intent, request_id) \<Rightarrow>
          if (ticket_id, intent, request_id) \<in> set (mgr_receipts m) then (ticket_of env w ticket_id, m, w)
          else if shutting_down m then (Inl (AutonomyError ''manager_shutdown''), m, w)
          else
            (case bindr (ticket_of env w ticket_id) (\<lambda>ticket.
                  bindr (raw_runtime w ticket_id) (\<lambda>runtime.
                  bindr (already_applied env ticket_id intent request_id runtime) (\<lambda>applied. Inr (ticket, applied)))) of
               Inl e \<Rightarrow> (Inl e, m, w)
             | Inr (ticket, applied) \<Rightarrow>
                 with_receipt (ticket_id, intent, request_id)
                   (if applied then (Inr ticket, m, w)
                    else if intent \<in> {''start'', ''resume''} then start_or_resume_locked env a ticket ticket_id intent request_id (m, w)
                    else request_stop_locked env a ticket_id intent request_id (m, w)))))"

section \<open>The worker\<close>

text \<open>The internal exception a safe point raises to end the run.\<close>

definition run_stopped :: exc where
  "run_stopped = PyRuntimeError ''_RunStopped''"

definition running_runtime :: "string \<Rightarrow> string \<Rightarrow> pydict \<Rightarrow> pydict" where
  "running_runtime now later runtime =
     pupdate runtime [(''state'', PStr ''running''), (''revision'', PInt (revision_of runtime + 1)), (''started_at'', PStr now), (''updated_at'', PStr later)]"

text \<open>The first section of \<^verbatim>\<open>_worker_main\<close>: \<open>True\<close> when the executor is to be called.\<close>

definition worker_begin :: "auto_env \<Rightarrow> string \<Rightarrow> string \<Rightarrow> nat \<Rightarrow> run_control \<Rightarrow> manager \<Rightarrow> world \<Rightarrow> bool res \<times> world" where
  "worker_begin env now later c control m w =
     (let ticket_id = rc_ticket control in
      case raw_runtime w ticket_id of
        Inl e \<Rightarrow> (Inl e, w)
      | Inr runtime \<Rightarrow>
          if shutting_down m \<or> pget runtime ''run_id'' \<noteq> PStr (rc_run_id control) then (Inr False, w)
          else
            (case (if pget runtime ''state'' \<noteq> PStr ''starting'' then (Inr [], w)
                   else update_ticket env ticket_id
                     [(''autonomous_run'', PDict (running_runtime now later runtime))]
                     (internal_request env ticket_id
                        (''run-'' @ rc_run_id control @ ''-'' @ string_of_int (revision_of runtime + 1) @ ''-running'')) w) of
               (Inl e, w1) \<Rightarrow> (Inl e, w1)
             | (Inr _, w1) \<Rightarrow> (bindr (execution_context_of env w1 ticket_id control) (\<lambda>_. Inr True), w1)))"

subsection \<open>Failures\<close>

definition failure_history :: "pydict \<Rightarrow> string \<Rightarrow> string option \<Rightarrow> string list \<times> int \<times> string" where
  "failure_history runtime error_code last_step =
     (let history = list_strs (pget runtime ''failure_history''); fingerprint = failure_fingerprint (PStr error_code) (opt_val last_step) in
      (history, int (count_list history fingerprint) + 1, fingerprint))"

text \<open>The optional decision method of the executor: it raises, or answers a decision or something else.\<close>

type_synonym decider = "(pyval \<Rightarrow> pyval \<Rightarrow> int \<Rightarrow> failure_decision option res) option"

definition failure_decision_for :: "decider \<Rightarrow> exec_result \<Rightarrow> int \<Rightarrow> failure_decision res" where
  "failure_decision_for decide r attempts =
     (let code = opt_val (er_error_code r); fallback = decide_failure (classify_failure code) (PInt attempts) PNone True in
      case decide of
        None \<Rightarrow> fallback
      | Some f \<Rightarrow> (case f code (opt_val (er_last_step r)) attempts of Inr (Some d) \<Rightarrow> Inr d | _ \<Rightarrow> fallback))"

text \<open>The decision method of the native executor; the control plane answers, refuses or raises (\<open>None\<close>).\<close>

definition native_failure_decision ::
  "(string \<Rightarrow> string \<Rightarrow> int \<Rightarrow> pyval option) \<Rightarrow> pyval \<Rightarrow> pyval \<Rightarrow> int \<Rightarrow> failure_decision option res" where
  "native_failure_decision policy error_code step_arg attempts =
     (let cls = classify_failure error_code;
          opclass = (if list_ex (\<lambda>s. step_arg = PStr s) READ_ONLY_STEPS then ''read_only'' else ''managed_write'');
          payload = (if cls \<in> {''retryable_transport'', ''capability_unavailable''}
                     then (case policy opclass cls attempts of Some v \<Rightarrow> v | None \<Rightarrow> PNone) else PNone)
      in bindr (decide_failure cls (PInt attempts) payload True) (\<lambda>d. Inr (Some d)))"

definition retry_wanted :: "decider \<Rightarrow> exec_result \<Rightarrow> pydict \<Rightarrow> bool res" where
  "retry_wanted decide r runtime =
     (case er_error_code r of
        None \<Rightarrow> Inr False
      | Some code \<Rightarrow>
          if er_state r \<notin> set TERMINAL_RESULT_STATES then Inr False
          else (case failure_history runtime code (er_last_step r) of (history, attempts, fingerprint) \<Rightarrow>
            bindr (failure_decision_for decide r attempts) (\<lambda>d. Inr (fd_action d = ''retry''))))"

definition final_code :: "exec_result \<Rightarrow> string option" where
  "final_code r = (case er_error_code r of
       Some code \<Rightarrow> Some code
     | None \<Rightarrow> if er_state r = ''failed'' then Some ''executor_failed''
               else if er_state r = ''blocked'' then Some ''execution_blocked'' else None)"

definition terminal_runtime :: "auto_env \<Rightarrow> decider \<Rightarrow> string \<Rightarrow> string \<Rightarrow> exec_result \<Rightarrow> pydict \<Rightarrow> pydict res" where
  "terminal_runtime env decide now later r runtime =
     (let t0 = pupdate runtime [(''state'', PStr (er_state r)), (''revision'', PInt (revision_of runtime + 1)), (''updated_at'', PStr now),
                 (''finished_at'', PStr later)];
          t1 = (case er_last_step r of None \<Rightarrow> t0 | Some s \<Rightarrow> pset ''last_step'' (PStr s) t0);
          t2 = (case final_code r of None \<Rightarrow> pdel ''error_code'' t1 | Some code \<Rightarrow> pset ''error_code'' (PStr code) t1);
          t3 = (if er_state r = ''succeeded'' then pset ''failure_history'' (PList []) (pdel ''failure_decision'' t2) else t2)
      in
      case final_code r of
        None \<Rightarrow> Inr t3
      | Some code \<Rightarrow>
          (case failure_history runtime code (er_last_step r) of (history, attempts, fingerprint) \<Rightarrow>
           bindr (failure_decision_for decide r attempts) (\<lambda>d0.
           let stuck = is_stuck STUCK_THRESHOLD history fingerprint in
           bindr (if stuck then stop_for_no_progress d0 else Inr d0) (\<lambda>d.
           let t4 = pset ''failure_history'' (PList (map PStr (record_failure HISTORY_LIMIT (map PStr history) fingerprint)))
                      (pset ''failure_decision'' (PDict (pupdate [] (decision_public (ae_reason env) d @ [(''stuck'', PBool stuck)]))) t3)
           in Inr (if stuck then pset ''error_code'' (PStr ''no_progress_stuck'') t4 else t4)))))"

subsection \<open>The later sections\<close>

definition owns :: "manager \<Rightarrow> nat \<Rightarrow> run_control \<Rightarrow> bool" where
  "owns m c control \<longleftrightarrow> \<not> shutting_down m \<and> dict_get (mgr_controls m) (rc_ticket control) = Some c"

definition worker_finish ::
  "auto_env \<Rightarrow> decider \<Rightarrow> string \<Rightarrow> string \<Rightarrow> nat \<Rightarrow> run_control \<Rightarrow> exec_result \<Rightarrow> manager \<Rightarrow> world \<Rightarrow> unit res \<times> world" where
  "worker_finish env decide now later c control r m w =
     (let ticket_id = rc_ticket control in
      if \<not> owns m c control then (Inr (), w)
      else case raw_runtime w ticket_id of
        Inl e \<Rightarrow> (Inl e, w)
      | Inr runtime \<Rightarrow>
          if pget runtime ''run_id'' \<noteq> PStr (rc_run_id control) then (Inr (), w)
          else (case terminal_runtime env decide now later r runtime of
              Inl e \<Rightarrow> (Inl e, w)
            | Inr terminal \<Rightarrow>
                (case update_ticket env ticket_id [(''autonomous_run'', PDict terminal)]
                    (internal_request env ticket_id
                       (''run-'' @ rc_run_id control @ ''-'' @ string_of_int (revision_of terminal) @ ''-'' @ er_state r)) w of
                   (Inl e, w1) \<Rightarrow> (Inl e, w1) | (Inr _, w1) \<Rightarrow> (Inr (), w1))))"

definition failed_runtime :: "string \<Rightarrow> string \<Rightarrow> pydict \<Rightarrow> pydict" where
  "failed_runtime now later runtime =
     pupdate runtime [(''state'', PStr ''failed''), (''revision'', PInt (revision_of runtime + 1)), (''updated_at'', PStr now),
       (''finished_at'', PStr later), (''error_code'', PStr ''executor_error'')]"

definition record_executor_failure :: "auto_env \<Rightarrow> string \<Rightarrow> string \<Rightarrow> nat \<Rightarrow> run_control \<Rightarrow> manager \<Rightarrow> world \<Rightarrow> world" where
  "record_executor_failure env now later c control m w =
     (let ticket_id = rc_ticket control in
      if \<not> owns m c control then w
      else case raw_runtime w ticket_id of
        Inl e \<Rightarrow> w
      | Inr runtime \<Rightarrow>
          if pget runtime ''run_id'' \<noteq> PStr (rc_run_id control) then w
          else snd (update_ticket env ticket_id
            [(''autonomous_run'', PDict (failed_runtime now later runtime))]
            (internal_request env ticket_id (''run-'' @ rc_run_id control @ ''-'' @ string_of_int (revision_of runtime + 1) @ ''-failed'')) w))"

text \<open>A safe point. The stop that applies is the shutdown of the manager, or the intent the control holds.\<close>

definition stop_intent :: "manager \<Rightarrow> run_control \<Rightarrow> string option" where
  "stop_intent m control = (if shutting_down m then Some ''interrupted'' else rc_stop control)"

definition safe_point_patch :: "string \<Rightarrow> string \<Rightarrow> string \<Rightarrow> string option \<Rightarrow> pydict \<Rightarrow> (string \<times> pyval) list" where
  "safe_point_patch now later stp stop runtime =
     (let base = pupdate runtime [(''revision'', PInt (revision_of runtime + 1)), (''updated_at'', PStr now), (''last_step'', PStr stp)];
          interactive = [(''effective_execution_mode'', PStr ''interactive''), (''mode_status'', PStr ''pending_activation'')]
      in case stop of
        None \<Rightarrow> [(''autonomous_run'', PDict (pset ''state'' (PStr ''running'') base))]
      | Some i \<Rightarrow>
          if i = ''cancel'' then (''autonomous_run'', PDict (pset ''finished_at'' (PStr later) (pset ''state'' (PStr ''cancelled'') base))) # interactive
          else if i = ''pause'' \<or> i = ''takeover'' then
            (''autonomous_run'', PDict (pset ''finished_at'' (PStr later) (pset ''state'' (PStr ''paused'') base)))
              # (if i = ''takeover'' then interactive else [])
          else (''autonomous_run'', PDict (pset ''finished_at'' (PStr later) (pset ''error_code'' (PStr ''shutdown'') (pset ''state'' (PStr ''interrupted'') base))))
              # interactive)"

definition safe_point :: "auto_env \<Rightarrow> string \<Rightarrow> string \<Rightarrow> nat \<Rightarrow> run_control \<Rightarrow> pyval \<Rightarrow> manager \<Rightarrow> world \<Rightarrow> unit res \<times> world" where
  "safe_point env now later c control step_arg m w = (case step_arg of
       PStr stp \<Rightarrow>
         if \<not> re_fullmatch STEP_RE stp then (Inl (PyValueError ''safe point step must be a stable step token''), w)
         else if dict_get (mgr_controls m) (rc_ticket control) \<noteq> Some c then (Inl run_stopped, w)
         else (case raw_runtime w (rc_ticket control) of
             Inl e \<Rightarrow> (Inl e, w)
           | Inr runtime \<Rightarrow>
               if pget runtime ''run_id'' \<noteq> PStr (rc_run_id control) then (Inl run_stopped, w)
               else
                 (case update_ticket env (rc_ticket control) (safe_point_patch now later stp (stop_intent m control) runtime)
                     (internal_request env (rc_ticket control)
                        (''run-'' @ rc_run_id control @ ''-'' @ string_of_int (revision_of runtime + 1) @ ''-safe-point'')) w of
                    (Inl e, w1) \<Rightarrow> (Inl e, w1)
                  | (Inr _, w1) \<Rightarrow> (if stop_intent m control = None then Inr () else Inl run_stopped, w1)))
     | _ \<Rightarrow> (Inl (PyValueError ''safe point step must be a stable step token''), w))"

section \<open>Shutdown and recovery\<close>

definition shutdown_one :: "auto_env \<Rightarrow> string \<Rightarrow> string \<Rightarrow> string \<times> nat \<Rightarrow> world \<Rightarrow> world" where
  "shutdown_one env now later entry w = (case entry of (ticket_id, c) \<Rightarrow>
     (case dict_get (run_controls w) c of
        None \<Rightarrow> w
      | Some control \<Rightarrow>
          let w1 = set_control c (control\<lparr>rc_stop := Some ''interrupted''\<rparr>) w in
          (case raw_runtime w1 ticket_id of
             Inl e \<Rightarrow> w1
           | Inr runtime \<Rightarrow>
               if in_strs (pget runtime ''state'') ACTIVE_STATES \<noteq> Inr True then w1
               else snd (update_ticket env ticket_id (interactive_patch (interrupted_runtime now later ''shutdown'' runtime))
                 (internal_request env ticket_id (''run-'' @ rc_run_id control @ ''-'' @ string_of_int (revision_of runtime + 1) @ ''-shutdown'')) w1))))"

definition shutdown_manager :: "auto_env \<Rightarrow> string \<Rightarrow> string \<Rightarrow> manager \<times> world \<Rightarrow> manager \<times> world" where
  "shutdown_manager env now later mw = (case mw of (m, w) \<Rightarrow>
     if shutting_down m then (m, w)
     else (m\<lparr>shutting_down := True\<rparr>, fold (shutdown_one env now later) (mgr_controls m) w))"

text \<open>Recovery at construction, over the tickets the snapshot lists. An unhashable state raises and ends the recovery.\<close>

definition recover_one :: "auto_env \<Rightarrow> string \<Rightarrow> string \<Rightarrow> string \<Rightarrow> world \<Rightarrow> unit res \<times> world" where
  "recover_one env now later ticket_id w =
     (case raw_runtime w ticket_id of
        Inl e \<Rightarrow> (Inr (), w)
      | Inr runtime \<Rightarrow>
          (case in_strs (pget runtime ''state'') ACTIVE_STATES of
             Inl e \<Rightarrow> (Inl e, w)
           | Inr active \<Rightarrow>
               if \<not> active then (Inr (), w)
               else
                 (case has_live_process_worker env ticket_id w of
                    (Inl e, w1) \<Rightarrow> (Inr (), w1)
                  | (Inr live, w1) \<Rightarrow>
                      if live then (Inr (), w1)
                      else
                        (let recovered = interrupted_runtime now later ''process_restarted'' runtime in
                         case update_ticket env ticket_id (interactive_patch recovered)
                             (internal_request env ticket_id (''recover-'' @ string_of_int (revision_of recovered))) w1 of
                           (Inl e, w2) \<Rightarrow> (if e = TicketError then Inr () else Inl e, w2)
                         | (Inr _, w2) \<Rightarrow> (Inr (), w2)))))"

fun recover_stale_runs :: "auto_env \<Rightarrow> string \<Rightarrow> string \<Rightarrow> string list \<Rightarrow> world \<Rightarrow> unit res \<times> world" where
  "recover_stale_runs env now later [] w = (Inr (), w)"
| "recover_stale_runs env now later (t # ts) w =
     (case recover_one env now later t w of
        (Inl e, w1) \<Rightarrow> (Inl e, w1)
      | (Inr _, w1) \<Rightarrow> recover_stale_runs env now later ts w1)"

section \<open>Managers and workers of a process\<close>

text \<open>Where a worker is in \<^verbatim>\<open>_worker_main\<close>. \<open>Executing n\<close> is the n-th call of the executor.\<close>

datatype wpc = At_begin | Executing nat | Checking exec_result | Finishing exec_result | Failing | Releasing | Done

record system =
  managers :: "nat \<Rightarrow> manager option"
  sys_world :: world
  wpcs :: "nat \<Rightarrow> (nat \<times> wpc) option"

definition spawned :: "nat \<Rightarrow> world \<Rightarrow> world \<Rightarrow> (nat \<Rightarrow> (nat \<times> wpc) option) \<Rightarrow> nat \<Rightarrow> (nat \<times> wpc) option" where
  "spawned i w w' p = (if next_thread w < next_thread w' \<and> is_alive w' (next_thread w) then p(next_thread w \<mapsto> (i, At_begin)) else p)"

definition after_safe_point :: "nat \<Rightarrow> unit res \<Rightarrow> wpc" where
  "after_safe_point n r = (case r of Inr _ \<Rightarrow> Executing n | Inl e \<Rightarrow> if e = run_stopped then Releasing else Failing)"

definition after_check :: "manager \<Rightarrow> nat \<Rightarrow> run_control \<Rightarrow> exec_result \<Rightarrow> bool res \<Rightarrow> wpc" where
  "after_check m c control r wanted = (case wanted of
       Inl e \<Rightarrow> Failing
     | Inr b \<Rightarrow> if b \<and> owns m c control \<and> 0 < WORKER_RETRY_LIMIT then Executing 2 else Finishing r)"

text \<open>One section of one manager or worker, with what its surroundings answer; other processes may change the ticket
  directories at any time, and several managers of one process share the world.\<close>

inductive sys_step :: "auto_env \<Rightarrow> decider \<Rightarrow> system \<Rightarrow> system \<Rightarrow> bool" for env decide where
  construct: "managers s i = None \<Longrightarrow> recover_stale_runs env now later tids (sys_world s) = (Inr u, w') \<Longrightarrow>
    sys_step env decide s (s\<lparr>managers := (managers s)(i \<mapsto> mk_manager enabled has_executor native has_ws), sys_world := w'\<rparr>)"
| intent: "managers s i = Some m \<Longrightarrow> handle_intent env a ticket_id payload (m, sys_world s) = (r, m', w') \<Longrightarrow>
    sys_step env decide s (s\<lparr>managers := (managers s)(i \<mapsto> m'), sys_world := w', wpcs := spawned i (sys_world s) w' (wpcs s)\<rparr>)"
| begins: "wpcs s c = Some (i, At_begin) \<Longrightarrow> managers s i = Some m \<Longrightarrow> dict_get (run_controls (sys_world s)) c = Some control \<Longrightarrow>
    worker_begin env now later c control m (sys_world s) = (r, w') \<Longrightarrow>
    sys_step env decide s (s\<lparr>sys_world := w',
      wpcs := (wpcs s)(c \<mapsto> (i, case r of Inl e \<Rightarrow> Failing | Inr b \<Rightarrow> if b then Executing 1 else Releasing))\<rparr>)"
| safe: "wpcs s c = Some (i, Executing n) \<Longrightarrow> managers s i = Some m \<Longrightarrow> dict_get (run_controls (sys_world s)) c = Some control \<Longrightarrow>
    safe_point env now later c control stp m (sys_world s) = (r, w') \<Longrightarrow>
    sys_step env decide s (s\<lparr>sys_world := w', wpcs := (wpcs s)(c \<mapsto> (i, after_safe_point n r))\<rparr>)"
| returns: "wpcs s c = Some (i, Executing n) \<Longrightarrow>
    sys_step env decide s (s\<lparr>wpcs := (wpcs s)(c \<mapsto> (i, if n = 1 then Checking r else Finishing r))\<rparr>)"
| raises: "wpcs s c = Some (i, Executing n) \<Longrightarrow> sys_step env decide s (s\<lparr>wpcs := (wpcs s)(c \<mapsto> (i, Failing))\<rparr>)"
| checks: "wpcs s c = Some (i, Checking r) \<Longrightarrow> managers s i = Some m \<Longrightarrow> dict_get (run_controls (sys_world s)) c = Some control \<Longrightarrow>
    sys_step env decide s (s\<lparr>wpcs := (wpcs s)(c \<mapsto> (i, after_check m c control r
      (bindr (raw_runtime (sys_world s) (rc_ticket control)) (retry_wanted decide r))))\<rparr>)"
| finishes: "wpcs s c = Some (i, Finishing r) \<Longrightarrow> managers s i = Some m \<Longrightarrow> dict_get (run_controls (sys_world s)) c = Some control \<Longrightarrow>
    worker_finish env decide now later c control r m (sys_world s) = (x, w') \<Longrightarrow>
    sys_step env decide s (s\<lparr>sys_world := w', wpcs := (wpcs s)(c \<mapsto> (i, case x of Inl e \<Rightarrow> Failing | Inr _ \<Rightarrow> Releasing))\<rparr>)"
| fails: "wpcs s c = Some (i, Failing) \<Longrightarrow> managers s i = Some m \<Longrightarrow> dict_get (run_controls (sys_world s)) c = Some control \<Longrightarrow>
    sys_step env decide s (s\<lparr>sys_world := record_executor_failure env now later c control m (sys_world s),
      wpcs := (wpcs s)(c \<mapsto> (i, Releasing))\<rparr>)"
| releases: "wpcs s c = Some (i, Releasing) \<Longrightarrow> managers s i = Some m \<Longrightarrow> dict_get (run_controls (sys_world s)) c = Some control \<Longrightarrow>
    release_worker_locked (rc_ticket control) c (m, sys_world s) = (m', w') \<Longrightarrow>
    sys_step env decide s (s\<lparr>managers := (managers s)(i \<mapsto> m'), sys_world := w', wpcs := (wpcs s)(c \<mapsto> (i, Done))\<rparr>)"
| exits: "wpcs s c = Some (i, Done) \<Longrightarrow>
    sys_step env decide s (s\<lparr>sys_world := (sys_world s)\<lparr>threads := dict_set c Dead (threads (sys_world s))\<rparr>\<rparr>)"
| shuts_down: "managers s i = Some m \<Longrightarrow> shutdown_manager env now later (m, sys_world s) = (m', w') \<Longrightarrow>
    sys_step env decide s (s\<lparr>managers := (managers s)(i \<mapsto> m'), sys_world := w'\<rparr>)"
| elsewhere: "sys_step env decide s (s\<lparr>sys_world := (sys_world s)\<lparr>dirs := d\<rparr>\<rparr>)"

inductive_cases sys_stepE: "sys_step env decide s s'"

abbreviation sys_steps :: "auto_env \<Rightarrow> decider \<Rightarrow> system \<Rightarrow> system \<Rightarrow> bool" where
  "sys_steps env decide \<equiv> (sys_step env decide)\<^sup>*\<^sup>*"

definition empty_system :: "ticket_dirs \<Rightarrow> system" where
  "empty_system d = \<lparr>managers = (\<lambda>_. None), sys_world = \<lparr>threads = [], process_workers = [], run_controls = [], dirs = d, next_thread = 0\<rparr>,
     wpcs = (\<lambda>_. None)\<rparr>"

section \<open>The registry invariant\<close>

text \<open>The part of the world the invariant speaks of: not the directories, the sessions or the stop intents.\<close>

definition ctl_view :: "world \<Rightarrow> nat \<Rightarrow> (string \<times> string) option" where
  "ctl_view w c = map_option (\<lambda>control. (rc_ticket control, rc_key control)) (dict_get (run_controls w) c)"

definition same_reg :: "world \<Rightarrow> world \<Rightarrow> bool" where
  "same_reg w w' \<longleftrightarrow> threads w' = threads w \<and> process_workers w' = process_workers w \<and> next_thread w' = next_thread w \<and> ctl_view w' = ctl_view w"

definition registered :: "(nat \<Rightarrow> manager option) \<Rightarrow> world \<Rightarrow> nat \<Rightarrow> nat \<Rightarrow> bool" where
  "registered ms w i c \<longleftrightarrow> (\<exists>ticket_id key m. ctl_view w c = Some (ticket_id, key) \<and> dict_get (process_workers w) key = Some c
     \<and> ms i = Some m \<and> dict_get (mgr_controls m) ticket_id = Some c)"

definition worker_inv :: "(nat \<Rightarrow> manager option) \<Rightarrow> world \<Rightarrow> (nat \<Rightarrow> (nat \<times> wpc) option) \<Rightarrow> bool" where
  "worker_inv ms w p \<longleftrightarrow>
     (\<forall>c i pc. p c = Some (i, pc) \<longrightarrow> c < next_thread w \<and> (\<forall>n. pc = Executing n \<longrightarrow> n \<le> 2) \<and> (pc \<noteq> Done \<longrightarrow> is_alive w c \<and> registered ms w i c))
     \<and> (\<forall>i m ticket_id. ms i = Some m \<longrightarrow> dict_get (mgr_workers m) ticket_id = dict_get (mgr_controls m) ticket_id)"

lemma same_reg_refl [simp]: "same_reg w w"
  by (simp add: same_reg_def)

lemma same_reg_trans: "same_reg a b \<Longrightarrow> same_reg b c \<Longrightarrow> same_reg a c"
  by (simp add: same_reg_def)

lemma same_reg_dirs [simp]: "same_reg w (w\<lparr>dirs := d\<rparr>)"
  by (simp add: same_reg_def ctl_view_def fun_eq_iff)

lemma same_reg_update: "update_ticket env ticket_id patch req w = (r, w') \<Longrightarrow> same_reg w w'"
  by (auto simp: update_ticket_def split: prod.splits)

lemma same_reg_persist: "persist_intent env ticket_id patch req w = (r, w') \<Longrightarrow> same_reg w w'"
  by (auto simp: persist_intent_def split: prod.splits sum.splits dest: same_reg_update)

lemma same_reg_set_control:
  "dict_get (run_controls w) c = Some control \<Longrightarrow> rc_ticket control' = rc_ticket control \<Longrightarrow> rc_key control' = rc_key control \<Longrightarrow>
    same_reg w (set_control c control' w)"
  by (simp add: same_reg_def set_control_def ctl_view_def fun_eq_iff)

lemma registered_same_reg: "same_reg w w' \<Longrightarrow> registered ms w' i c = registered ms w i c"
  by (simp add: registered_def same_reg_def)

lemma worker_inv_same_reg: "worker_inv ms w p \<Longrightarrow> same_reg w w' \<Longrightarrow> worker_inv ms w' p"
  by (simp add: worker_inv_def registered_same_reg is_alive_def) (simp add: same_reg_def)

lemma worker_invD:
  assumes "worker_inv ms w p"
  shows "p c = Some (i, pc) \<Longrightarrow> c < next_thread w"
    and "p c = Some (i, pc) \<Longrightarrow> pc \<noteq> Done \<Longrightarrow> is_alive w c \<and> registered ms w i c"
    and "p c = Some (i, Executing n) \<Longrightarrow> n \<le> 2"
    and "ms i = Some m \<Longrightarrow> dict_get (mgr_workers m) ticket_id = dict_get (mgr_controls m) ticket_id"
  using assms unfolding worker_inv_def by blast+

lemma worker_inv_manager:
  assumes "worker_inv ms w p" and "ms i = Some m" and "mgr_controls m' = mgr_controls m" and "mgr_workers m' = mgr_workers m"
  shows "worker_inv (ms(i \<mapsto> m')) w p"
proof -
  have "registered (ms(i \<mapsto> m')) w j c = registered ms w j c" for j c using assms(2,3) by (auto simp: registered_def)
  then show ?thesis using assms unfolding worker_inv_def by simp
qed

lemma worker_inv_new_manager:
  assumes "worker_inv ms w p" and "ms i = None" and "mgr_controls m' = []" and "mgr_workers m' = []"
  shows "worker_inv (ms(i \<mapsto> m')) w p"
proof -
  have "registered (ms(i \<mapsto> m')) w j c" if "registered ms w j c" for j c using assms(2) that by (auto simp: registered_def)
  then show ?thesis using assms unfolding worker_inv_def by simp
qed

lemma worker_inv_pc:
  assumes "worker_inv ms w p" and "p c = Some (i, pc)" and "pc \<noteq> Done" and "\<And>n. pc' = Executing n \<Longrightarrow> n \<le> 2"
  shows "worker_inv ms w (p(c \<mapsto> (i, pc')))"
  using assms unfolding worker_inv_def by auto

lemma reserve_cases:
  assumes "reserve_process_worker key c w = (b, w')"
  shows "threads w' = threads w \<and> next_thread w' = next_thread w \<and> run_controls w' = run_controls w \<and> (\<not> b \<longrightarrow> process_workers w' = process_workers w)
    \<and> (b \<longrightarrow> dict_get (process_workers w') = (dict_get (process_workers w))(key \<mapsto> c)
        \<and> (\<forall>e. dict_get (process_workers w) key = Some e \<longrightarrow> \<not> is_alive w e))"
proof (cases "dict_get (process_workers w) key")
  case None
  then show ?thesis using assms by (auto simp: reserve_process_worker_def fun_eq_iff)
next
  case (Some e)
  then show ?thesis
    using assms by (cases "dict_get (threads w) e = Some Unstarted \<or> is_alive w e") (auto simp: reserve_process_worker_def fun_eq_iff)
qed

text \<open>Registering a new worker: no worker that is still executing loses its place.\<close>

lemma worker_inv_register:
  assumes inv: "worker_inv ms w p" and m: "ms i = Some m"
    and idle: "\<And>t. dict_get (mgr_workers m) ticket_id = Some t \<Longrightarrow> \<not> is_alive w t"
    and r: "register_worker ticket_id run_id key (m, w) = (oc, m', w')"
  shows "worker_inv (ms(i \<mapsto> m')) w' p \<and> next_thread w' = Suc (next_thread w) \<and> \<not> is_alive w' (next_thread w)
    \<and> (\<forall>c. oc = Some c \<longrightarrow> c = next_thread w \<and> registered (ms(i \<mapsto> m')) w' i c \<and> ctl_view w' c = Some (ticket_id, key))"
proof -
  define c where "c = next_thread w"
  have fresh: "p c = None" using worker_invD(1) [OF inv] by (metis c_def less_irrefl not_None_eq surj_pair)
  define w1 where "w1 = w\<lparr>next_thread := Suc c, threads := dict_set c Unstarted (threads w),
    run_controls := dict_set c \<lparr>rc_ticket = ticket_id, rc_run_id = run_id, rc_stop = None, rc_session = False, rc_key = key\<rparr> (run_controls w)\<rparr>"
  obtain b w2 where b: "reserve_process_worker key c w1 = (b, w2)" by (metis prod.exhaust)
  have out: "(oc, m', w') = (if b then (Some c, m\<lparr>mgr_controls := dict_set ticket_id c (mgr_controls m), mgr_workers := dict_set ticket_id c (mgr_workers m)\<rparr>, w2)
      else (None, m, w2))"
    using r b unfolding register_worker_def prod.case c_def w1_def Let_def by (auto split: bool.splits)
  note res = reserve_cases [OF b]
  have view: "ctl_view w' = (ctl_view w)(c \<mapsto> (ticket_id, key))" using out res by (auto simp: ctl_view_def fun_eq_iff w1_def split: if_splits)
  have thr: "threads w' = dict_set c Unstarted (threads w)" "next_thread w' = Suc c" using out res by (auto simp: w1_def split: if_splits)
  have none: "oc = None \<longrightarrow> m' = m \<and> process_workers w' = process_workers w" using out res by (auto simp: w1_def split: if_splits)
  have got: "oc = Some x \<longrightarrow> x = c \<and> dict_get (process_workers w') = (dict_get (process_workers w))(key \<mapsto> c)
      \<and> m' = m\<lparr>mgr_controls := dict_set ticket_id c (mgr_controls m), mgr_workers := dict_set ticket_id c (mgr_workers m)\<rparr>
      \<and> (\<forall>e. dict_get (process_workers w) key = Some e \<longrightarrow> e = c \<or> \<not> is_alive w e)" for x
    using out res by (auto simp: w1_def is_alive_def split: if_splits)
  have alive: "is_alive w' t = is_alive w t" if "t \<noteq> c" for t using that thr by (simp add: is_alive_def)
  have keep: "registered (ms(i \<mapsto> m')) w' j t" if t: "registered ms w j t" "is_alive w t" "t \<noteq> c" for j t
  proof -
    from t(1) obtain tid k mj where k: "ctl_view w t = Some (tid, k)" "dict_get (process_workers w) k = Some t" "ms j = Some mj"
      "dict_get (mgr_controls mj) tid = Some t" by (auto simp: registered_def)
    show ?thesis
    proof (cases oc)
      case None
      then show ?thesis using k t(3) none view m by (auto simp: registered_def)
    next
      case (Some x)
      then have "k \<noteq> key" using k(2) t(2,3) got by auto
      moreover have "tid \<noteq> ticket_id" if "j = i"
        using that k(3,4) m idle t(2) worker_invD(4) [OF inv m, of tid] by auto
      ultimately show ?thesis using Some k t(3) got view m by (auto simp: registered_def)
    qed
  qed
  have "worker_inv (ms(i \<mapsto> m')) w' p"
    unfolding worker_inv_def
  proof (intro conjI allI impI)
    fix t j pc assume a: "p t = Some (j, pc)"
    with fresh have ne: "t \<noteq> c" by auto
    show "t < next_thread w'" using worker_invD(1) [OF inv a] thr c_def by simp
    show "n \<le> 2" if "pc = Executing n" for n using worker_invD(3) [OF inv] a that by blast
    show "is_alive w' t" "registered (ms(i \<mapsto> m')) w' j t" if "pc \<noteq> Done"
      using worker_invD(2) [OF inv a that] alive [OF ne] keep ne by auto
  next
    fix j mj tid assume "(ms(i \<mapsto> m')) j = Some mj"
    then show "dict_get (mgr_workers mj) tid = dict_get (mgr_controls mj) tid"
      using worker_invD(4) [OF inv] m none got by (cases oc) (auto split: if_splits)
  qed
  moreover have "\<not> is_alive w' c" using thr by (simp add: is_alive_def)
  moreover have "registered (ms(i \<mapsto> m')) w' i c" if "oc = Some x" for x using got that view by (auto simp: registered_def)
  ultimately show ?thesis using thr(2) got view by (auto simp: c_def)
qed

text \<open>Releasing a worker frees its own registration only.\<close>

lemma worker_inv_release:
  assumes inv: "worker_inv ms w p" and m: "ms i = Some m" and r: "release_worker_locked ticket_id c (m, w) = (m', w')"
    and p': "p' = p \<and> p c = None \<or> p' = p(c \<mapsto> (i, Done)) \<and> p c \<noteq> None"
  shows "worker_inv (ms(i \<mapsto> m')) w' p' \<and> threads w' = threads w \<and> next_thread w' = next_thread w"
proof (cases "dict_get (run_controls w) c")
  case None
  then have e: "m' = m" "w' = w" using r by (simp_all add: release_worker_locked_def)
  have "ms(i \<mapsto> m) = ms" using m by (simp add: fun_upd_idem)
  then show ?thesis using e inv p' worker_invD [OF inv] unfolding worker_inv_def by (auto split: if_splits)
next
  case (Some control)
  have w: "threads w' = threads w" "next_thread w' = next_thread w" "ctl_view w' = ctl_view w"
    using r Some by (auto simp: release_worker_locked_def release_process_worker_def set_control_def ctl_view_def fun_eq_iff Let_def
        split: if_splits option.splits)
  have reg: "dict_get (process_workers w') k = Some t" if "dict_get (process_workers w) k = Some t" "t \<noteq> c" for k t
    using r Some that worker_invD(4) [OF inv m, of ticket_id]
    by (auto simp: release_worker_locked_def release_process_worker_def set_control_def Let_def split: if_splits option.splits)
  have ctl: "dict_get (mgr_controls m') tid = Some t" if "dict_get (mgr_controls m) tid = Some t" "t \<noteq> c" for tid t
    using r Some that by (auto simp: release_worker_locked_def Let_def split: if_splits)
  have eq: "dict_get (mgr_workers m') tid = dict_get (mgr_controls m') tid" for tid
    using r Some worker_invD(4) [OF inv m] by (auto simp: release_worker_locked_def Let_def split: if_splits)
  have keep: "registered (ms(i \<mapsto> m')) w' j t" if "registered ms w j t" "t \<noteq> c" for j t
    using that reg ctl m w(3) by (auto simp: registered_def)
  have pc: "p t = Some (j, pc) \<and> t \<noteq> c" if "p' t = Some (j, pc)" "pc \<noteq> Done" for t j pc
    using that p' by (auto split: if_splits)
  have dom: "p t \<noteq> None" if "p' t \<noteq> None" for t using that p' by (auto split: if_splits)
  have "worker_inv (ms(i \<mapsto> m')) w' p'"
    unfolding worker_inv_def
  proof (intro conjI allI impI)
    fix t j pc assume a: "p' t = Some (j, pc)"
    then show "t < next_thread w'" using dom worker_invD(1) [OF inv] w(2) by fastforce
    show "n \<le> 2" if "pc = Executing n" for n using pc [OF a] worker_invD(3) [OF inv] that by blast
    show "is_alive w' t" "registered (ms(i \<mapsto> m')) w' j t" if "pc \<noteq> Done"
      using pc [OF a that] worker_invD(2) [OF inv _ that] keep w(1) by (auto simp: is_alive_def)
  next
    fix j mj tid assume "(ms(i \<mapsto> m')) j = Some mj"
    then show "dict_get (mgr_workers mj) tid = dict_get (mgr_controls mj) tid"
      using worker_invD(4) [OF inv] eq by (auto split: if_splits)
  qed
  with w show ?thesis by simp
qed

lemma worker_inv_start:
  assumes inv: "worker_inv ms w p" and c: "registered ms w i c" "c < next_thread w" "p c = None"
  shows "worker_inv ms (w\<lparr>threads := dict_set c Alive (threads w)\<rparr>) (p(c \<mapsto> (i, At_begin)))"
proof -
  let ?w = "w\<lparr>threads := dict_set c Alive (threads w)\<rparr>"
  have "registered ms ?w = registered ms w" by (simp add: registered_def ctl_view_def fun_eq_iff)
  moreover have "is_alive ?w t" if "is_alive w t \<or> t = c" for t using that by (auto simp: is_alive_def)
  ultimately show ?thesis using inv c unfolding worker_inv_def by auto
qed

lemma same_reg_session:
  "same_reg w (case dict_get (run_controls w) c of None \<Rightarrow> w | Some control \<Rightarrow> set_control c (control\<lparr>rc_session := b\<rparr>) w)"
  by (auto split: option.split intro!: same_reg_set_control)

text \<open>The outcome of a launch: the worker is released again, runs, or could not be started. The world it acts on differs from
  the one at the registration by the session and by what the control plane wrote.\<close>

definition launch_world :: "auto_env \<Rightarrow> string \<Rightarrow> nat \<Rightarrow> world \<Rightarrow> world \<Rightarrow> bool" where
  "launch_world env ticket_id c w x \<longleftrightarrow> x = w \<or> (\<exists>b patch req q. persist_intent env ticket_id patch req
     (case dict_get (run_controls w) c of None \<Rightarrow> w | Some control \<Rightarrow> set_control c (control\<lparr>rc_session := b\<rparr>) w) = (q, x))"

lemma launch_cases:
  assumes "launch_worker env a ticket_id intent request_id starting c (m, w) = (r, m', w')"
  obtains (released) x e where "launch_world env ticket_id c w x" "release_worker_locked ticket_id c (m, x) = (m', w')" "r = Inl e"
    | (started) x v where "launch_world env ticket_id c w x" "m' = m" "w' = x\<lparr>threads := dict_set c Alive (threads x)\<rparr>" "r = Inr v"
    | (unstarted) x w3 patch req y e where "launch_world env ticket_id c w x" "release_worker_locked ticket_id c (m, x) = (m', w3)"
        "persist_intent env ticket_id patch req w3 = (y, w')" "r = Inl e"
proof -
  define opened where "opened = (case ia_workspace a of None \<Rightarrow> Inr False | Some (Inr _) \<Rightarrow> Inr True | Some (Inl e) \<Rightarrow> Inl (workspace_error e))"
  note l = assms [unfolded launch_worker_def prod.case opened_def [symmetric] Let_def]
  show ?thesis
  proof (cases opened)
    case (Inl e)
    with l show ?thesis by (intro released [of w e]) (auto simp: launch_world_def)
  next
    case (Inr b)
    define w1 where "w1 = (case dict_get (run_controls w) c of None \<Rightarrow> w | Some control \<Rightarrow> set_control c (control\<lparr>rc_session := b\<rparr>) w)"
    obtain q x where q: "persist_intent env ticket_id
               [(''effective_execution_mode'', PStr ''autonomous''), (''mode_status'', PStr ''active''), (''autonomous_run'', PDict starting)]
               (internal_request env ticket_id (''intent-'' @ intent @ ''-'' @ request_id)) w1 = (q, x)" by (metis prod.exhaust)
    then have lw: "launch_world env ticket_id c w x" unfolding launch_world_def w1_def by blast
    obtain m3 w3 where rel: "release_worker_locked ticket_id c (m, x) = (m3, w3)" by (metis prod.exhaust)
    show ?thesis
    proof (cases q)
      case (Inl e)
      with l Inr q [unfolded w1_def] rel show ?thesis by (intro released [OF lw, of e]) auto
    next
      case (Inr public)
      note l = l [unfolded \<open>opened = Inr b\<close> sum.case w1_def [symmetric] q Inr prod.case rel]
      show ?thesis
      proof (cases "ia_thread_starts a")
        case True
        with l show ?thesis by (intro started [OF lw]) auto
      next
        case False
        obtain y w4 where y: "persist_intent env ticket_id (interactive_patch (interrupted_runtime (ia_later a) (ia_latest a) ''worker_start_failed'' starting))
           (internal_request env ticket_id (''run-run-'' @ ia_uuid a @ ''-'' @ string_of_int (revision_of (interrupted_runtime (ia_later a) (ia_latest a)
              ''worker_start_failed'' starting)) @ ''-start-failed'')) w3 = (y, w4)" by (metis prod.exhaust)
        from l False y have "m' = m3" "w' = w4" "\<exists>e. r = Inl e" by (auto split: sum.splits)
        with rel y lw show ?thesis using unstarted by blast
      qed
    qed
  qed
qed

lemma same_reg_launch_world: "launch_world env ticket_id c w x \<Longrightarrow> same_reg w x"
  unfolding launch_world_def by (auto dest: same_reg_persist intro: same_reg_trans [OF same_reg_session])

lemma worker_inv_launch:
  assumes inv: "worker_inv ms w p" and m: "ms i = Some m" and c: "registered ms w i c" "c < next_thread w" "p c = None" "\<not> is_alive w c"
    and l: "launch_worker env a ticket_id intent request_id starting c (m, w) = (r, m', w')"
  shows "worker_inv (ms(i \<mapsto> m')) w' (if is_alive w' c then p(c \<mapsto> (i, At_begin)) else p) \<and> next_thread w' = next_thread w
    \<and> (is_alive w' c \<longleftrightarrow> (\<exists>v. r = Inr v))"
proof -
  have rel: "worker_inv (ms(i \<mapsto> m2)) w2 p \<and> next_thread w2 = next_thread w \<and> \<not> is_alive w2 c"
    if "same_reg w x" "release_worker_locked ticket_id c (m, x) = (m2, w2)" for x m2 w2
    using worker_inv_release [OF worker_inv_same_reg [OF inv that(1)] m that(2), of p] c(3,4) that(1)
    by (auto simp: is_alive_def same_reg_def)
  from l show ?thesis
  proof (cases rule: launch_cases)
    case (released x e)
    with rel [OF same_reg_launch_world] show ?thesis by auto
  next
    case (started x v)
    note s = same_reg_launch_world [OF started(1)]
    have "worker_inv ms w' (p(c \<mapsto> (i, At_begin)))"
      unfolding started(3) using worker_inv_start [OF worker_inv_same_reg [OF inv s]] c(1-3) s registered_same_reg [OF s] by (simp add: same_reg_def)
    moreover have "is_alive w' c" "next_thread w' = next_thread w" using started(3) s by (simp_all add: is_alive_def same_reg_def)
    moreover have "ms(i \<mapsto> m) = ms" using m by (simp add: fun_upd_idem)
    ultimately show ?thesis using started(2,4) by simp
  next
    case (unstarted x w3 patch req y e)
    note s' = same_reg_persist [OF unstarted(3)]
    from rel [OF same_reg_launch_world [OF unstarted(1)] unstarted(2)] have
      r: "worker_inv (ms(i \<mapsto> m')) w3 p" "next_thread w3 = next_thread w" "\<not> is_alive w3 c" by auto
    from worker_inv_same_reg [OF r(1) s'] r(2,3) s' unstarted(4) show ?thesis by (simp add: is_alive_def same_reg_def)
  qed
qed

lemma prepare_start_idle:
  "prepare_start env a ticket ticket_id intent request_id m w = Inr x \<Longrightarrow> dict_get (mgr_workers m) ticket_id = Some t \<Longrightarrow> \<not> is_alive w t"
  by (auto simp: prepare_start_def split: if_splits)

text \<open>The outcome of a start: refused with nothing changed, refused by the registry, or launched.\<close>

lemma start_or_resume_cases:
  assumes "start_or_resume_locked env a ticket ticket_id intent request_id (m, w) = (r, m', w')"
  obtains (refused) e where "prepare_start env a ticket ticket_id intent request_id m w = Inl e" "r = Inl e" "m' = m" "w' = w"
    | (taken) starting key where "prepare_start env a ticket ticket_id intent request_id m w = Inr (starting, key)"
        "register_worker ticket_id (''run-'' @ ia_uuid a) key (m, w) = (None, m', w')" "r = Inl (AutonomyError ''invalid_transition'')"
    | (launched) starting key c m1 w1 where "prepare_start env a ticket ticket_id intent request_id m w = Inr (starting, key)"
        "register_worker ticket_id (''run-'' @ ia_uuid a) key (m, w) = (Some c, m1, w1)"
        "launch_worker env a ticket_id intent request_id starting c (m1, w1) = (r, m', w')"
proof (cases "prepare_start env a ticket ticket_id intent request_id m w")
  case (Inl e)
  with assms show ?thesis by (intro refused) (auto simp: start_or_resume_locked_def)
next
  case (Inr x)
  obtain starting key where x: "x = (starting, key)" by (cases x)
  obtain oc m1 w1 where g: "register_worker ticket_id (''run-'' @ ia_uuid a) key (m, w) = (oc, m1, w1)" by (metis prod.exhaust)
  show ?thesis
  proof (cases oc)
    case None
    with assms Inr x g show ?thesis by (intro taken) (auto simp: start_or_resume_locked_def)
  next
    case (Some c)
    with assms Inr x g show ?thesis by (intro launched) (auto simp: start_or_resume_locked_def)
  qed
qed

lemma worker_inv_start_or_resume:
  assumes inv: "worker_inv ms w p" and m: "ms i = Some m"
    and r: "start_or_resume_locked env a ticket ticket_id intent request_id (m, w) = (r, m', w')"
  shows "worker_inv (ms(i \<mapsto> m')) w' (spawned i w w' p)"
  using r
proof (cases rule: start_or_resume_cases)
  case refused
  then show ?thesis using inv m by (simp add: spawned_def fun_upd_idem)
next
  case taken
  with worker_inv_register [OF inv m prepare_start_idle [OF taken(1)] taken(2)] show ?thesis by (simp add: spawned_def)
next
  case (launched starting key c m1 w1)
  note g = worker_inv_register [OF inv m prepare_start_idle [OF launched(1)] launched(2)]
  then have c: "c = next_thread w" "registered (ms(i \<mapsto> m1)) w1 i c" by auto
  have pc: "p c = None" using worker_invD(1) [OF inv] c(1) by (metis less_irrefl not_None_eq surj_pair)
  have inv1: "worker_inv (ms(i \<mapsto> m1)) w1 p" and n: "next_thread w1 = Suc (next_thread w)" and na: "\<not> is_alive w1 c" using g c(1) by auto
  have "worker_inv ((ms(i \<mapsto> m1))(i \<mapsto> m')) w' (if is_alive w' c then p(c \<mapsto> (i, At_begin)) else p) \<and> next_thread w' = next_thread w1"
    using worker_inv_launch [OF inv1 _ c(2) _ pc na launched(3)] n c(1) by auto
  then show ?thesis using n c(1) by (simp add: spawned_def split: if_splits)
qed

lemma request_stop_frame:
  assumes "request_stop_locked env a ticket_id intent request_id (m, w) = (r, m', w')"
  shows "m' = m \<and> same_reg w w'"
proof (cases "prepare_stop env a ticket_id intent request_id m w")
  case (Inl e)
  with assms show ?thesis by (simp add: request_stop_locked_def)
next
  case (Inr x)
  obtain c requested where x: "x = (c, requested)" by (cases x)
  obtain q w1 where q: "persist_intent env ticket_id [(''autonomous_run'', PDict requested)]
      (internal_request env ticket_id (''intent-'' @ intent @ ''-'' @ request_id)) w = (q, w1)" by (metis prod.exhaust)
  have "same_reg w1 (case dict_get (run_controls w1) c of None \<Rightarrow> w1 | Some control \<Rightarrow> set_control c (control\<lparr>rc_stop := Some intent\<rparr>) w1)"
    by (auto split: option.split intro!: same_reg_set_control)
  with same_reg_persist [OF q] assms Inr x q show ?thesis
    by (auto simp: request_stop_locked_def split: sum.splits intro: same_reg_trans)
qed

text \<open>An intent either changes nothing, or is a start or a stop followed by the note of its receipt.\<close>

lemma handle_intent_cases:
  assumes "handle_intent env a ticket_id payload (m, w) = (r, m', w')"
  obtains (unchanged) "w' = w" "mgr_controls m' = mgr_controls m" "mgr_workers m' = mgr_workers m" "shutting_down m' = shutting_down m"
      "set (mgr_receipts m) \<subseteq> set (mgr_receipts m')"
    | (acted) intent request_id ticket m1 where "normalize_intent_payload payload = Inr (intent, request_id)" "\<not> shutting_down m"
      "(if intent \<in> {''start'', ''resume''} then start_or_resume_locked env a ticket ticket_id intent request_id (m, w)
        else request_stop_locked env a ticket_id intent request_id (m, w)) = (r, m1, w')"
      "m' = (case r of Inl e \<Rightarrow> m1 | Inr v \<Rightarrow> m1\<lparr>mgr_receipts := (ticket_id, intent, request_id) # mgr_receipts m1\<rparr>)"
proof (cases "normalize_intent_payload payload")
  case (Inl e)
  with assms show ?thesis by (intro unchanged) (auto simp: handle_intent_def)
next
  case (Inr x)
  obtain intent request_id where x: "x = (intent, request_id)" by (cases x)
  define look where "look = bindr (ticket_of env w ticket_id) (\<lambda>ticket. bindr (raw_runtime w ticket_id) (\<lambda>runtime.
      bindr (already_applied env ticket_id intent request_id runtime) (\<lambda>applied. Inr (ticket, applied))))"
  note h = assms [unfolded handle_intent_def prod.case Inr x sum.case look_def [symmetric]]
  show ?thesis
  proof (cases "(ticket_id, intent, request_id) \<in> set (mgr_receipts m) \<or> shutting_down m \<or> (\<exists>e. look = Inl e) \<or> (\<exists>t. look = Inr (t, True))")
    case True
    with h show ?thesis by (intro unchanged) (auto simp: with_receipt_def split: if_splits)
  next
    case False
    then obtain ticket where l: "look = Inr (ticket, False)" by (metis (full_types) old.sum.exhaust prod.exhaust)
    obtain r1 m1 w1 where o: "(if intent \<in> {''start'', ''resume''} then start_or_resume_locked env a ticket ticket_id intent request_id (m, w)
        else request_stop_locked env a ticket_id intent request_id (m, w)) = (r1, m1, w1)" by (metis prod.exhaust)
    have "with_receipt (ticket_id, intent, request_id) (r1, m1, w1) = (r, m', w')" using h False l o by (simp split: if_splits)
    then have "r1 = r" "w1 = w'" "m' = (case r of Inl e \<Rightarrow> m1 | Inr v \<Rightarrow> m1\<lparr>mgr_receipts := (ticket_id, intent, request_id) # mgr_receipts m1\<rparr>)"
      by (auto simp: with_receipt_def split: sum.splits)
    with o False show ?thesis using Inr x by (intro acted) auto
  qed
qed

lemma worker_inv_intent:
  assumes inv: "worker_inv ms w p" and m: "ms i = Some m" and h: "handle_intent env a ticket_id payload (m, w) = (r, m', w')"
  shows "worker_inv (ms(i \<mapsto> m')) w' (spawned i w w' p)"
  using h
proof (cases rule: handle_intent_cases)
  case unchanged
  then show ?thesis using worker_inv_manager [OF inv m] by (simp add: spawned_def)
next
  case (acted intent request_id ticket m1)
  have "worker_inv (ms(i \<mapsto> m1)) w' (spawned i w w' p)"
  proof (cases "intent \<in> {''start'', ''resume''}")
    case True
    with acted(3) worker_inv_start_or_resume [OF inv m] show ?thesis by auto
  next
    case False
    with acted(3) have "request_stop_locked env a ticket_id intent request_id (m, w) = (r, m1, w')" by (simp split: if_splits)
    from request_stop_frame [OF this] have f: "m1 = m" "same_reg w w'" by auto
    then show ?thesis using worker_inv_same_reg [OF inv f(2)] m by (simp add: spawned_def same_reg_def fun_upd_idem)
  qed
  from worker_inv_manager [OF this, of i m1 m'] acted(4) show ?thesis by (simp split: sum.splits)
qed

text \<open>The remaining sections leave the registry alone, apart from entries of dead threads.\<close>

lemma same_reg_sections:
  "worker_begin env now later c control m w = (b, w') \<Longrightarrow> same_reg w w'"
  "safe_point env now later c control stp m w = (u, w') \<Longrightarrow> same_reg w w'"
  "worker_finish env decide now later c control r m w = (v, w') \<Longrightarrow> same_reg w w'"
  by (auto simp: worker_begin_def safe_point_def worker_finish_def Let_def split: sum.splits if_splits prod.splits pyval.splits dest: same_reg_update)

lemma same_reg_failure: "same_reg w (record_executor_failure env now later c control m w)"
  by (auto simp: record_executor_failure_def Let_def split: sum.splits intro: same_reg_update [OF prod.collapse [symmetric]])

lemma same_reg_shutdown_one: "same_reg w (shutdown_one env now later entry w)"
proof -
  obtain ticket_id c where e: "entry = (ticket_id, c)" by (cases entry)
  show ?thesis
  proof (cases "dict_get (run_controls w) c")
    case (Some control)
    let ?w = "set_control c (control\<lparr>rc_stop := Some ''interrupted''\<rparr>) w"
    have s: "same_reg w ?w" using Some by (auto intro!: same_reg_set_control)
    then have "same_reg w (snd (update_ticket env t patch req ?w))" for t patch req
      using same_reg_trans [OF s] same_reg_update [OF prod.collapse [symmetric]] by blast
    with s Some show ?thesis by (auto simp: shutdown_one_def e Let_def split: sum.splits)
  qed (simp add: shutdown_one_def e)
qed

lemma same_reg_shutdown: "same_reg w (fold (shutdown_one env now later) xs w)"
  by (induction xs arbitrary: w) (auto intro: same_reg_trans [OF same_reg_shutdown_one])

lemma worker_inv_forget_dead:
  assumes inv: "worker_inv ms w p" and k: "dict_get (process_workers w) key = Some t" "\<not> is_alive w t"
  shows "worker_inv ms (w\<lparr>process_workers := dict_del key (process_workers w)\<rparr>) p"
proof -
  let ?w = "w\<lparr>process_workers := dict_del key (process_workers w)\<rparr>"
  have "registered ms ?w i c" if "registered ms w i c" "is_alive w c" for i c
  proof -
    from that(1) obtain ticket_id k' m where r: "ctl_view w c = Some (ticket_id, k')" "dict_get (process_workers w) k' = Some c"
      "ms i = Some m" "dict_get (mgr_controls m) ticket_id = Some c" by (auto simp: registered_def)
    have "k' \<noteq> key" using r(2) k that(2) by auto
    moreover have "ctl_view ?w = ctl_view w" by (simp add: ctl_view_def fun_eq_iff)
    ultimately show ?thesis using r by (simp add: registered_def)
  qed
  moreover have "is_alive ?w = is_alive w" by (simp add: is_alive_def fun_eq_iff)
  ultimately show ?thesis using inv unfolding worker_inv_def by auto
qed

lemma worker_inv_live_check:
  assumes inv: "worker_inv ms w p" and h: "has_live_process_worker env ticket_id w = (r, w')"
  shows "worker_inv ms w' p"
  using h inv worker_inv_forget_dead [OF inv] unfolding has_live_process_worker_def by (auto split: sum.splits option.splits if_splits)

lemma worker_inv_recover_one:
  assumes inv: "worker_inv ms w p" and r: "recover_one env now later ticket_id w = (x, w')"
  shows "worker_inv ms w' p"
proof -
  obtain y w1 where h: "has_live_process_worker env ticket_id w = (y, w1)" by (metis prod.exhaust)
  note i1 = worker_inv_live_check [OF inv h]
  have "w' = w \<or> w' = w1 \<or> (\<exists>patch req z. update_ticket env ticket_id patch req w1 = (z, w'))"
    using r h unfolding recover_one_def Let_def by (auto split: sum.splits if_splits prod.splits)
  then show ?thesis using inv i1 worker_inv_same_reg [OF i1] same_reg_update by blast
qed

lemma worker_inv_recover: "worker_inv ms w p \<Longrightarrow> recover_stale_runs env now later tids w = (x, w') \<Longrightarrow> worker_inv ms w' p"
proof (induction tids arbitrary: w)
  case (Cons t ts)
  obtain y w1 where o: "recover_one env now later t w = (y, w1)" by (metis prod.exhaust)
  from worker_inv_recover_one [OF Cons.prems(1) o] Cons.IH [of w1] Cons.prems(2) o show ?case by (auto split: sum.splits)
qed simp

abbreviation sys_inv :: "system \<Rightarrow> bool" where
  "sys_inv s \<equiv> worker_inv (managers s) (sys_world s) (wpcs s)"

lemma sys_inv_updates:
  "worker_inv ms w p \<Longrightarrow> sys_inv (s\<lparr>managers := ms, sys_world := w, wpcs := p\<rparr>)"
  "worker_inv ms w (wpcs s) \<Longrightarrow> sys_inv (s\<lparr>managers := ms, sys_world := w\<rparr>)"
  "worker_inv (managers s) w p \<Longrightarrow> sys_inv (s\<lparr>sys_world := w, wpcs := p\<rparr>)"
  "worker_inv (managers s) (sys_world s) p \<Longrightarrow> sys_inv (s\<lparr>wpcs := p\<rparr>)"
  "worker_inv (managers s) w (wpcs s) \<Longrightarrow> sys_inv (s\<lparr>sys_world := w\<rparr>)"
  by simp_all

lemma sys_inv_step: "sys_step env decide s s' \<Longrightarrow> sys_inv s \<Longrightarrow> sys_inv s'"
proof (induction rule: sys_step.induct)
  case (construct s i now later tids u w' enabled has_executor native has_ws)
  have "worker_inv (managers s) w' (wpcs s)" using worker_inv_recover construct by blast
  then show ?case by (intro sys_inv_updates worker_inv_new_manager) (simp_all add: construct(1) mk_manager_simps)
next
  case (intent s i m a ticket_id payload r m' w')
  show ?case by (rule sys_inv_updates(1)) (rule worker_inv_intent [OF intent(3,1,2)])
next
  case (begins s c i m control now later r w')
  from worker_inv_same_reg [OF begins(5) same_reg_sections(1) [OF begins(4)]] begins(1) show ?case
    by (intro sys_inv_updates(3) worker_inv_pc) (auto split: sum.splits if_splits)
next
  case (safe s c i n m control now later stp r w')
  have "n' \<le> 2" if "after_safe_point n r = Executing n'" for n'
    using that worker_invD(3) [OF safe(5) safe(1)] by (auto simp: after_safe_point_def split: sum.splits if_splits)
  with worker_inv_same_reg [OF safe(5) same_reg_sections(2) [OF safe(4)]] safe(1) show ?case
    by (intro sys_inv_updates(3) worker_inv_pc) auto
next
  case (returns s c i n r)
  then show ?case by (intro sys_inv_updates(4) worker_inv_pc) (auto split: if_splits)
next
  case (raises s c i n)
  then show ?case by (intro sys_inv_updates(4) worker_inv_pc) auto
next
  case (checks s c i r m control)
  then show ?case by (intro sys_inv_updates(4) worker_inv_pc) (auto simp: after_check_def split: sum.splits if_splits)
next
  case (finishes s c i r m control now later x w')
  from worker_inv_same_reg [OF finishes(5) same_reg_sections(3) [OF finishes(4)]] finishes(1) show ?case
    by (intro sys_inv_updates(3) worker_inv_pc) (auto split: sum.splits)
next
  case (fails s c i m control now later)
  from worker_inv_same_reg [OF fails(4) same_reg_failure] fails(1) show ?case by (intro sys_inv_updates(3) worker_inv_pc) auto
next
  case (releases s c i m control m' w')
  from worker_inv_release [OF releases(5,2,4), of "(wpcs s)(c \<mapsto> (i, Done))"] releases(1) show ?case
    by (intro sys_inv_updates(1)) auto
next
  case (exits s c i)
  let ?w = "(sys_world s)\<lparr>threads := dict_set c Dead (threads (sys_world s))\<rparr>"
  have "registered (managers s) ?w = registered (managers s) (sys_world s)" by (simp add: registered_def ctl_view_def fun_eq_iff)
  moreover have "is_alive ?w t = is_alive (sys_world s) t" if "t \<noteq> c" for t using that by (simp add: is_alive_def)
  ultimately have "worker_inv (managers s) ?w (wpcs s)"
    using exits unfolding worker_inv_def by (auto simp: fun_eq_iff) (metis prod.inject option.inject)+
  then show ?case by (rule sys_inv_updates(5))
next
  case (shuts_down s i m now later m' w')
  then have "mgr_controls m' = mgr_controls m" "mgr_workers m' = mgr_workers m" "same_reg (sys_world s) w'"
    using same_reg_shutdown by (auto simp: shutdown_manager_def split: if_splits)
  with worker_inv_manager [OF worker_inv_same_reg [OF shuts_down(3)] shuts_down(1)] show ?case by (intro sys_inv_updates(2)) auto
next
  case (elsewhere s d)
  from worker_inv_same_reg [OF elsewhere same_reg_dirs] show ?case by (rule sys_inv_updates(5))
qed

lemma sys_inv_steps: "sys_steps env decide (empty_system d) s \<Longrightarrow> sys_inv s"
proof (induction rule: rtranclp_induct)
  case base
  show ?case by (simp add: empty_system_def worker_inv_def)
qed (rule sys_inv_step)

section \<open>What only grows\<close>

text \<open>The receipts of a manager, and the stop intent of a run control, are never taken back.\<close>

definition ctl_fresh :: "world \<Rightarrow> bool" where
  "ctl_fresh w \<longleftrightarrow> (\<forall>c. dict_get (run_controls w) c \<noteq> None \<longrightarrow> c < next_thread w)"

definition stop_set :: "world \<Rightarrow> nat \<Rightarrow> bool" where
  "stop_set w c \<longleftrightarrow> (\<exists>control. dict_get (run_controls w) c = Some control \<and> rc_stop control \<noteq> None)"

definition stops_kept :: "world \<Rightarrow> world \<Rightarrow> bool" where
  "stops_kept w w' \<longleftrightarrow> (ctl_fresh w \<longrightarrow> ctl_fresh w') \<and> (\<forall>c. ctl_fresh w \<longrightarrow> stop_set w c \<longrightarrow> stop_set w' c)"

lemma stops_kept_refl [simp]: "stops_kept w w"
  by (simp add: stops_kept_def)

lemma stops_kept_trans: "stops_kept a b \<Longrightarrow> stops_kept b c \<Longrightarrow> stops_kept a c"
  by (auto simp: stops_kept_def)

lemma stops_kept_same: "run_controls w' = run_controls w \<Longrightarrow> next_thread w' = next_thread w \<Longrightarrow> stops_kept w w'"
  by (simp add: stops_kept_def ctl_fresh_def stop_set_def)

lemma stops_kept_update: "update_ticket env ticket_id patch req w = (r, w') \<Longrightarrow> stops_kept w w'"
  by (auto simp: update_ticket_def split: prod.splits intro!: stops_kept_same)

lemma stops_kept_persist: "persist_intent env ticket_id patch req w = (r, w') \<Longrightarrow> stops_kept w w'"
  by (auto simp: persist_intent_def split: prod.splits sum.splits dest: stops_kept_update)

lemma stops_kept_set_control:
  "dict_get (run_controls w) c = Some control \<Longrightarrow> rc_stop control \<noteq> None \<longrightarrow> rc_stop control' \<noteq> None \<Longrightarrow> stops_kept w (set_control c control' w)"
  by (auto simp: stops_kept_def ctl_fresh_def stop_set_def set_control_def)

lemma stops_kept_release: "release_worker_locked ticket_id c (m, w) = (m', w') \<Longrightarrow> stops_kept w w' \<and> mgr_receipts m' = mgr_receipts m"
proof (cases "dict_get (run_controls w) c")
  case (Some control)
  assume r: "release_worker_locked ticket_id c (m, w) = (m', w')"
  let ?w = "set_control c (control\<lparr>rc_session := False\<rparr>) w"
  have "stops_kept w ?w" using Some by (auto intro!: stops_kept_set_control)
  moreover have "stops_kept ?w w'" "mgr_receipts m' = mgr_receipts m"
    using r Some by (auto simp: release_worker_locked_def release_process_worker_def Let_def split: if_splits option.splits intro!: stops_kept_same)
  ultimately show ?thesis using stops_kept_trans by blast
qed (simp add: release_worker_locked_def)

lemma stops_kept_register:
  assumes "register_worker ticket_id run_id key (m, w) = (oc, m', w')"
  shows "stops_kept w w' \<and> mgr_receipts m' = mgr_receipts m"
proof -
  define c where "c = next_thread w"
  define w1 where "w1 = w\<lparr>next_thread := Suc c, threads := dict_set c Unstarted (threads w),
    run_controls := dict_set c \<lparr>rc_ticket = ticket_id, rc_run_id = run_id, rc_stop = None, rc_session = False, rc_key = key\<rparr> (run_controls w)\<rparr>"
  obtain b w2 where b: "reserve_process_worker key c w1 = (b, w2)" by (metis prod.exhaust)
  have o: "w' = w2" "mgr_receipts m' = mgr_receipts m"
    using assms b unfolding register_worker_def prod.case c_def w1_def Let_def by (auto split: bool.splits)
  have "stops_kept w w1" by (auto simp: stops_kept_def ctl_fresh_def stop_set_def w1_def c_def less_Suc_eq)
  moreover have "stops_kept w1 w2" using reserve_cases [OF b] by (auto intro: stops_kept_same)
  ultimately show ?thesis using o stops_kept_trans by blast
qed

lemma stops_kept_launch_world: "launch_world env ticket_id c w x \<Longrightarrow> stops_kept w x"
proof -
  have "stops_kept w (case dict_get (run_controls w) c of None \<Rightarrow> w | Some control \<Rightarrow> set_control c (control\<lparr>rc_session := b\<rparr>) w)" for b
    by (auto split: option.split intro!: stops_kept_set_control)
  then show "launch_world env ticket_id c w x \<Longrightarrow> stops_kept w x"
    unfolding launch_world_def by (auto dest: stops_kept_persist intro: stops_kept_trans)
qed

lemma stops_kept_launch:
  assumes "launch_worker env a ticket_id intent request_id starting c (m, w) = (r, m', w')"
  shows "stops_kept w w' \<and> mgr_receipts m' = mgr_receipts m"
  using assms
proof (cases rule: launch_cases)
  case (released x e)
  then show ?thesis using stops_kept_release [OF released(2)] stops_kept_trans [OF stops_kept_launch_world] by blast
next
  case (started x v)
  have "stops_kept x w'" unfolding started(3) by (rule stops_kept_same) simp_all
  then show ?thesis using started(2) stops_kept_trans [OF stops_kept_launch_world [OF started(1)]] by blast
next
  case (unstarted x w3 patch req y e)
  then show ?thesis
    using stops_kept_release [OF unstarted(2)] stops_kept_persist [OF unstarted(3)] stops_kept_trans stops_kept_launch_world by meson
qed

lemma stops_kept_request_stop:
  assumes "request_stop_locked env a ticket_id intent request_id (m, w) = (r, m', w')"
  shows "stops_kept w w' \<and> m' = m"
proof (cases "prepare_stop env a ticket_id intent request_id m w")
  case (Inl e)
  with assms show ?thesis by (simp add: request_stop_locked_def)
next
  case (Inr x)
  obtain c requested where x: "x = (c, requested)" by (cases x)
  obtain q w1 where q: "persist_intent env ticket_id [(''autonomous_run'', PDict requested)]
      (internal_request env ticket_id (''intent-'' @ intent @ ''-'' @ request_id)) w = (q, w1)" by (metis prod.exhaust)
  have "stops_kept w1 (case dict_get (run_controls w1) c of None \<Rightarrow> w1 | Some control \<Rightarrow> set_control c (control\<lparr>rc_stop := Some intent\<rparr>) w1)"
    by (auto split: option.split intro!: stops_kept_set_control)
  with stops_kept_persist [OF q] assms Inr x q show ?thesis
    by (auto simp: request_stop_locked_def split: sum.splits intro: stops_kept_trans)
qed

lemma stops_kept_intent:
  assumes "handle_intent env a ticket_id payload (m, w) = (r, m', w')"
  shows "stops_kept w w' \<and> set (mgr_receipts m) \<subseteq> set (mgr_receipts m')"
  using assms
proof (cases rule: handle_intent_cases)
  case unchanged
  then show ?thesis by simp
next
  case (acted intent request_id ticket m1)
  have "stops_kept w w' \<and> mgr_receipts m1 = mgr_receipts m"
  proof (cases "intent \<in> {''start'', ''resume''}")
    case True
    with acted(3) have "start_or_resume_locked env a ticket ticket_id intent request_id (m, w) = (r, m1, w')" by (simp split: if_splits)
    then show ?thesis
    proof (cases rule: start_or_resume_cases)
      case (launched starting key c m2 w2)
      with stops_kept_register [OF launched(2)] stops_kept_launch [OF launched(3)] show ?thesis using stops_kept_trans by auto
    qed (auto dest: stops_kept_register)
  next
    case False
    with acted(3) have "request_stop_locked env a ticket_id intent request_id (m, w) = (r, m1, w')" by (simp split: if_splits)
    from stops_kept_request_stop [OF this] show ?thesis by simp
  qed
  with acted(4) show ?thesis by (auto split: sum.splits)
qed

lemma stops_kept_sections:
  "worker_begin env now later c control m w = (b, w') \<Longrightarrow> stops_kept w w'"
  "safe_point env now later c control stp m w = (u, w') \<Longrightarrow> stops_kept w w'"
  "worker_finish env decide now later c control r m w = (v, w') \<Longrightarrow> stops_kept w w'"
  by (auto simp: worker_begin_def safe_point_def worker_finish_def Let_def split: sum.splits if_splits prod.splits pyval.splits dest: stops_kept_update)

lemma stops_kept_failure: "stops_kept w (record_executor_failure env now later c control m w)"
  by (auto simp: record_executor_failure_def Let_def split: sum.splits intro: stops_kept_update [OF prod.collapse [symmetric]])

lemma stops_kept_shutdown_one: "stops_kept w (shutdown_one env now later entry w)"
proof -
  obtain ticket_id c where e: "entry = (ticket_id, c)" by (cases entry)
  show ?thesis
  proof (cases "dict_get (run_controls w) c")
    case (Some control)
    let ?w = "set_control c (control\<lparr>rc_stop := Some ''interrupted''\<rparr>) w"
    have s: "stops_kept w ?w" using Some by (auto intro!: stops_kept_set_control)
    then have "stops_kept w (snd (update_ticket env t patch req ?w))" for t patch req
      using stops_kept_trans [OF s] stops_kept_update [OF prod.collapse [symmetric]] by blast
    with s Some show ?thesis by (auto simp: shutdown_one_def e Let_def split: sum.splits)
  qed (simp add: shutdown_one_def e)
qed

lemma stops_kept_shutdown: "stops_kept w (fold (shutdown_one env now later) xs w)"
  by (induction xs arbitrary: w) (auto intro: stops_kept_trans [OF stops_kept_shutdown_one])

lemma stops_kept_recover_one: "recover_one env now later ticket_id w = (x, w') \<Longrightarrow> stops_kept w w'"
proof -
  assume r: "recover_one env now later ticket_id w = (x, w')"
  obtain y w1 where h: "has_live_process_worker env ticket_id w = (y, w1)" by (metis prod.exhaust)
  then have k: "stops_kept w w1" by (auto simp: has_live_process_worker_def split: sum.splits option.splits if_splits intro!: stops_kept_same)
  have "w' = w \<or> w' = w1 \<or> (\<exists>patch req z. update_ticket env ticket_id patch req w1 = (z, w'))"
    using r h unfolding recover_one_def Let_def by (auto split: sum.splits if_splits prod.splits)
  then show ?thesis using k stops_kept_update stops_kept_trans stops_kept_refl by blast
qed

lemma stops_kept_recover: "recover_stale_runs env now later tids w = (x, w') \<Longrightarrow> stops_kept w w'"
proof (induction tids arbitrary: w)
  case (Cons t ts)
  obtain y w1 where o: "recover_one env now later t w = (y, w1)" by (metis prod.exhaust)
  from stops_kept_recover_one [OF o] Cons.IH [of w1] Cons.prems o show ?case by (auto split: sum.splits intro: stops_kept_trans)
qed simp

definition managers_kept :: "system \<Rightarrow> system \<Rightarrow> bool" where
  "managers_kept s s' \<longleftrightarrow> (\<forall>i m. managers s i = Some m \<longrightarrow> (\<exists>m'. managers s' i = Some m' \<and> set (mgr_receipts m) \<subseteq> set (mgr_receipts m')))"

lemma sys_step_grows: "sys_step env decide s s' \<Longrightarrow> stops_kept (sys_world s) (sys_world s') \<and> managers_kept s s'"
proof (induction rule: sys_step.induct)
  case (construct s i now later tids u w' enabled has_executor native has_ws)
  then show ?case using stops_kept_recover by (auto simp: managers_kept_def)
next
  case (intent s i m a ticket_id payload r m' w')
  then show ?case using stops_kept_intent [OF intent(2)] by (auto simp: managers_kept_def)
next
  case (releases s c i m control m' w')
  then show ?case using stops_kept_release [OF releases(4)] by (auto simp: managers_kept_def)
next
  case (exits s c i)
  then show ?case by (auto simp: managers_kept_def intro!: stops_kept_same)
next
  case (shuts_down s i m now later m' w')
  then show ?case using stops_kept_shutdown by (auto simp: managers_kept_def shutdown_manager_def split: if_splits)
next
  case (elsewhere s d)
  then show ?case by (auto simp: managers_kept_def intro!: stops_kept_same)
qed (auto simp: managers_kept_def dest: stops_kept_sections intro: stops_kept_failure)

lemma sys_steps_grow: "sys_steps env decide s s' \<Longrightarrow> stops_kept (sys_world s) (sys_world s') \<and> managers_kept s s'"
proof (induction rule: rtranclp_induct)
  case base
  show ?case by (auto simp: managers_kept_def)
next
  case (step y z)
  with sys_step_grows [OF step(2)] show ?case
    using stops_kept_trans unfolding managers_kept_def by (meson order_trans)
qed

lemma ctl_fresh_steps: "sys_steps env decide (empty_system d) s \<Longrightarrow> ctl_fresh (sys_world s)"
  using sys_steps_grow [of env decide "empty_system d" s] by (auto simp: stops_kept_def empty_system_def ctl_fresh_def)

section \<open>What the manager guarantees\<close>


text \<open>An accepted intent is applied once: the same request, repeated at any later time to the same manager, answers the
  current view of the ticket and changes neither the manager, nor a worker, nor the stored run.\<close>

theorem repeated_intent_changes_nothing:
  assumes "managers s i = Some m" and "handle_intent env a ticket_id payload (m, sys_world s) = (Inr v, m', w')"
    and "sys_steps env decide (s\<lparr>managers := (managers s)(i \<mapsto> m'), sys_world := w', wpcs := spawned i (sys_world s) w' (wpcs s)\<rparr>) s2"
    and "managers s2 i = Some m2"
  shows "handle_intent env a' ticket_id payload (m2, sys_world s2) = (ticket_of env (sys_world s2) ticket_id, m2, sys_world s2)"
proof -
  from assms(2) obtain intent request_id where n: "normalize_intent_payload payload = Inr (intent, request_id)"
    by (cases "normalize_intent_payload payload") (auto simp: handle_intent_def)
  have "(ticket_id, intent, request_id) \<in> set (mgr_receipts m')"
    using assms(2) n by (auto simp: handle_intent_def with_receipt_def split: if_splits sum.splits prod.splits)
  moreover have "set (mgr_receipts m') \<subseteq> set (mgr_receipts m2)"
    using sys_steps_grow [OF assms(3), THEN conjunct2, unfolded managers_kept_def, rule_format, of i m'] assms(4) by auto
  ultimately show ?thesis using n by (auto simp: handle_intent_def)
qed

lemma request_stop_accepted:
  assumes "request_stop_locked env a ticket_id intent request_id (m, w) = (Inr v, m', w')" and "dict_get (mgr_controls m) ticket_id = Some c"
    and "dict_get (run_controls w) c \<noteq> None"
  shows "stop_set w' c"
proof (cases "prepare_stop env a ticket_id intent request_id m w")
  case (Inl e)
  with assms show ?thesis by (simp add: request_stop_locked_def)
next
  case (Inr x)
  obtain c' requested where x: "x = (c', requested)" by (cases x)
  then have c: "c' = c" using Inr assms(2) by (auto simp: prepare_stop_def split: option.splits if_splits)
  obtain q w1 where q: "persist_intent env ticket_id [(''autonomous_run'', PDict requested)]
      (internal_request env ticket_id (''intent-'' @ intent @ ''-'' @ request_id)) w = (q, w1)" by (metis prod.exhaust)
  have w': "w' = (case dict_get (run_controls w1) c of None \<Rightarrow> w1 | Some control \<Rightarrow> set_control c (control\<lparr>rc_stop := Some intent\<rparr>) w1)"
    using assms(1) Inr x c q by (simp add: request_stop_locked_def split: sum.splits)
  have "ctl_view w1 c = ctl_view w c" using same_reg_persist [OF q] by (simp add: same_reg_def)
  then have "dict_get (run_controls w1) c \<noteq> None" using assms(3) by (auto simp: ctl_view_def)
  then show ?thesis unfolding w' by (auto simp: stop_set_def set_control_def)
qed

text \<open>C15. Once the manager has accepted a pause, a cancellation or a takeover for the ticket of a worker, no later safe point of
  that worker returns to its executor: every one of them ends the run, whatever happened in between.\<close>

theorem accepted_stop_ends_run:
  assumes "sys_steps env decide (empty_system d) s" and "managers s i = Some m"
    and "wpcs s c = Some (i, pc)" and "pc \<noteq> Done" and "dict_get (run_controls (sys_world s)) c = Some control"
    and "request_stop_locked env a (rc_ticket control) intent request_id (m, sys_world s) = (Inr v, m', w')"
    and "sys_steps env decide (s\<lparr>managers := (managers s)(i \<mapsto> m'), sys_world := w'\<rparr>) s2"
    and "dict_get (run_controls (sys_world s2)) c = Some control2"
  shows "fst (safe_point env now later c control2 stp m2 (sys_world s2)) \<noteq> Inr ()"
proof -
  have reg: "dict_get (mgr_controls m) (rc_ticket control) = Some c"
    using worker_invD(2) [OF sys_inv_steps [OF assms(1)] assms(3,4)] assms(2,5) by (auto simp: registered_def ctl_view_def)
  have "stop_set w' c" using request_stop_accepted [OF assms(6) reg] assms(5) by simp
  moreover have "ctl_fresh w'" using stops_kept_request_stop [OF assms(6)] ctl_fresh_steps [OF assms(1)] by (simp add: stops_kept_def)
  ultimately have "stop_set (sys_world s2) c" using sys_steps_grow [OF assms(7)] by (simp add: stops_kept_def)
  with assms(8) have "stop_intent m2 control2 \<noteq> None" by (auto simp: stop_set_def stop_intent_def)
  then show ?thesis by (auto simp: safe_point_def split: pyval.splits sum.splits prod.splits)
qed

section \<open>The stored run from write to write\<close>

text \<open>One write of the stored run: an accepted intent, the result the executor reported, or any other section: the worker that
  begins, a safe point, an exception of the executor, and the interruptions of a failed thread start, a shutdown or a recovery.\<close>

datatype run_write = Wrote_intent string string | Wrote_result exec_result | Wrote_section

fun is_intent_write :: "run_write \<Rightarrow> bool" where
  "is_intent_write (Wrote_intent intent request_id) = True"
| "is_intent_write _ = False"


inductive run_rewritten :: "auto_env \<Rightarrow> string \<Rightarrow> run_write \<Rightarrow> pydict \<Rightarrow> pydict \<Rightarrow> bool" for env ticket_id where
  by_start: "normalize_intent_payload payload = Inr (intent, request_id) \<Longrightarrow> intent \<in> {''start'', ''resume''} \<Longrightarrow> raw_runtime w ticket_id = Inr run \<Longrightarrow>
    prepare_start env a ticket ticket_id intent request_id m w = Inr (run', key) \<Longrightarrow>
    run_rewritten env ticket_id (Wrote_intent intent request_id) run run'"
| by_stop: "normalize_intent_payload payload = Inr (intent, request_id) \<Longrightarrow> intent \<notin> {''start'', ''resume''} \<Longrightarrow> raw_runtime w ticket_id = Inr run \<Longrightarrow>
    prepare_stop env a ticket_id intent request_id m w = Inr (c, run') \<Longrightarrow>
    run_rewritten env ticket_id (Wrote_intent intent request_id) run run'"
| by_result: "terminal_runtime env decide now later r run = Inr run' \<Longrightarrow> run_rewritten env ticket_id (Wrote_result r) run run'"
| by_begin: "run_rewritten env ticket_id Wrote_section run (running_runtime now later run)"
| by_safe_point: "(''autonomous_run'', PDict run') \<in> set (safe_point_patch now later stp stop run) \<Longrightarrow> run_rewritten env ticket_id Wrote_section run run'"
| by_exception: "run_rewritten env ticket_id Wrote_section run (failed_runtime now later run)"
| by_interruption: "run_rewritten env ticket_id Wrote_section run (interrupted_runtime now later code run)"

inductive run_becomes :: "auto_env \<Rightarrow> string \<Rightarrow> run_write list \<Rightarrow> pydict \<Rightarrow> pydict \<Rightarrow> bool" for env ticket_id where
  unwritten: "run_becomes env ticket_id [] run run"
| written: "run_rewritten env ticket_id x run run1 \<Longrightarrow> run_becomes env ticket_id xs run1 run2 \<Longrightarrow> run_becomes env ticket_id (x # xs) run run2"

inductive_cases run_becomes_ConsE: "run_becomes env ticket_id (x # xs) run run2"

section \<open>Failures that repeat\<close>

lemma section_keeps:
  assumes "run_rewritten env ticket_id Wrote_section run run'"
    and "k \<in> {''failure_history'', ''intent_receipts'', ''last_intent'', ''last_intent_request_id'', ''run_id''}"
  shows "pget run' k = pget run k"
  using assms
  by (cases rule: run_rewritten.cases)
    (auto simp: running_runtime_def failed_runtime_def interrupted_runtime_def safe_point_patch_def Let_def split: option.splits if_splits)



lemma normalized_intent:
  assumes "normalize_intent_payload payload = Inr (intent, request_id)"
  shows "intent \<in> set INTENTS" and "re_fullmatch REQUEST_ID_RE request_id"
proof -
  obtain d where d: "payload = PDict d" using assms by (cases payload) (simp_all add: normalize_intent_payload_def)
  define v q where "v = pget d ''intent''" and "q = pget d ''request_id''"
  from assms obtain known where k: "in_strs v INTENTS = Inr known" and
    c: "(case (known, v, q) of (True, PStr i, PStr r) \<Rightarrow> if re_fullmatch REQUEST_ID_RE r then Inr (i, r) else Inl (AutonomyError ''invalid_intent'')
        | _ \<Rightarrow> Inl (AutonomyError ''invalid_intent'')) = Inr (intent, request_id)"
    unfolding normalize_intent_payload_def d pyval.case v_def [symmetric] q_def [symmetric] by (cases "in_strs v INTENTS") (simp_all split: if_splits)
  from c have "known \<and> v = PStr intent \<and> re_fullmatch REQUEST_ID_RE request_id"
    by (cases known; cases v; cases q) (simp_all split: if_splits)
  with k show "intent \<in> set INTENTS" "re_fullmatch REQUEST_ID_RE request_id" by simp_all
qed

lemma intent_write_run:
  assumes "run_rewritten env ticket_id (Wrote_intent intent request_id) run run'"
  obtains receipts now run_id where "append_intent_receipt env ticket_id run intent request_id = Inr receipts"
    "intent \<in> set INTENTS" "re_fullmatch REQUEST_ID_RE request_id"
    "run' = (if intent \<in> {''start'', ''resume''} then starting_runtime run_id now intent request_id receipts run
       else requested_runtime now intent request_id receipts run)"
proof -
  from assms show ?thesis
  proof (cases rule: run_rewritten.cases)
    case (by_start payload w a ticket m key)
    from by_start(3,4) obtain receipts where "append_intent_receipt env ticket_id run intent request_id = Inr receipts"
      "run' = starting_runtime (''run-'' @ ia_uuid a) (ia_now a) intent request_id receipts run"
      by (auto simp: prepare_start_def split: if_splits)
    with normalized_intent [OF by_start(1)] by_start(2) that show ?thesis by simp
  next
    case (by_stop payload w a m c)
    from by_stop(3,4) obtain receipts where "append_intent_receipt env ticket_id run intent request_id = Inr receipts"
      "run' = requested_runtime (ia_now a) intent request_id receipts run"
      by (auto simp: prepare_stop_def split: option.splits if_splits)
    with normalized_intent [OF by_stop(1)] by_stop(2) that show ?thesis by simp
  qed
qed




section \<open>Receipts across a restart\<close>

definition near_end :: "string \<Rightarrow> nat \<Rightarrow> string list \<Rightarrow> bool" where
  "near_end t j xs \<longleftrightarrow> (\<exists>ys zs. xs = ys @ t # zs \<and> length zs \<le> j)"

lemma near_end_append:
  assumes "near_end t j xs" and "j < 63"
  shows "near_end t (Suc j) (last_n INTENT_RECEIPT_LIMIT (add_once x xs))"
proof -
  from assms(1) obtain ys zs where s: "xs = ys @ t # zs" "length zs \<le> j" by (auto simp: near_end_def)
  define zs' where "zs' = (if x \<in> set xs then zs else zs @ [x])"
  have a: "add_once x xs = ys @ t # zs'" "length zs' \<le> Suc j" using s by (auto simp: add_once_def zs'_def)
  let ?n = "length (add_once x xs) - 64"
  have "?n \<le> length ys" using a assms(2) by simp
  then have "drop ?n (add_once x xs) = drop ?n ys @ t # zs'" using a(1) by simp
  then show ?thesis using a(2) by (auto simp: near_end_def last_n_def INTENT_RECEIPT_LIMIT_def)
qed

lemma near_end_snoc: "x \<notin> set xs \<Longrightarrow> near_end x 0 (last_n INTENT_RECEIPT_LIMIT (add_once x xs))"
  using last_n_snoc [of INTENT_RECEIPT_LIMIT xs x] by (auto simp: near_end_def add_once_def INTENT_RECEIPT_LIMIT_def)

text \<open>What an accepted intent stored is read back unchanged.\<close>

lemma receipts_read_back:
  assumes "\<And>x. re_fullmatch INTENT_RECEIPT_RE (ae_sha256 env x)" and "append_intent_receipt env ticket_id runtime intent request_id = Inr receipts"
    and "intent \<in> set INTENTS" and "re_fullmatch REQUEST_ID_RE request_id"
    and "list_strs (pget stored ''intent_receipts'') = receipts" "pget stored ''last_intent'' = PStr intent" "pget stored ''last_intent_request_id'' = PStr request_id"
  shows "intent_receipts env ticket_id stored = Inr receipts"
proof -
  let ?t = "intent_receipt_token env ticket_id intent request_id"
  from assms(2) obtain old where old: "intent_receipts env ticket_id runtime = Inr old" "receipts = last_n INTENT_RECEIPT_LIMIT (add_once ?t old)"
    by (auto simp: append_intent_receipt_def)
  have hex_old: "\<forall>x\<in>set old. re_fullmatch INTENT_RECEIPT_RE x"
  proof -
    have "\<forall>x\<in>set (with_last_intent env ticket_id known v q ys). re_fullmatch INTENT_RECEIPT_RE x"
      if "\<forall>x\<in>set ys. re_fullmatch INTENT_RECEIPT_RE x" for known v q ys
      using that assms(1) unfolding with_last_intent_def prod.case
      by (simp add: add_once_def intent_receipt_token_def split: bool.split pyval.split)
    note all = this
    from old(1) obtain known where "old = last_n INTENT_RECEIPT_LIMIT
        (with_last_intent env ticket_id known (pget runtime ''last_intent'') (pget runtime ''last_intent_request_id'')
          (filter (re_fullmatch INTENT_RECEIPT_RE) (list_strs (pget runtime ''intent_receipts''))))" (is "_ = last_n _ ?ys")
      by (auto simp: intent_receipts_def)
    moreover have "\<forall>x\<in>set ?ys. re_fullmatch INTENT_RECEIPT_RE x" by (rule all) simp
    ultimately show ?thesis using set_last_n [of INTENT_RECEIPT_LIMIT ?ys] by blast
  qed
  have hex: "\<forall>x\<in>set receipts. re_fullmatch INTENT_RECEIPT_RE x"
  proof -
    have "\<forall>x\<in>set (add_once ?t old). re_fullmatch INTENT_RECEIPT_RE x" using hex_old assms(1) by (simp add: add_once_def intent_receipt_token_def)
    then show ?thesis using set_last_n [of INTENT_RECEIPT_LIMIT "add_once ?t old"] unfolding old(2) by blast
  qed
  have len: "int (length receipts) \<le> INTENT_RECEIPT_LIMIT" using old(2) by (simp add: length_last_n INTENT_RECEIPT_LIMIT_def)
  have t: "?t \<in> set receipts"
  proof (cases "?t \<in> set old")
    case False
    from near_end_snoc [OF this] old(2) show ?thesis by (auto simp: near_end_def)
  next
    case True
    have "int (length old) \<le> INTENT_RECEIPT_LIMIT" using old(1) by (auto simp: intent_receipts_def length_last_n INTENT_RECEIPT_LIMIT_def)
    then have "receipts = old" using True old(2) last_n_short [of INTENT_RECEIPT_LIMIT old] by (simp add: add_once_def INTENT_RECEIPT_LIMIT_def)
    with True show ?thesis by simp
  qed
  have "filter (re_fullmatch INTENT_RECEIPT_RE) receipts = receipts" using hex by (simp add: filter_id_conv)
  moreover have "add_once ?t receipts = receipts" using t by (simp add: add_once_def)
  moreover have "last_n INTENT_RECEIPT_LIMIT receipts = receipts" using len by (intro last_n_short) (simp_all add: INTENT_RECEIPT_LIMIT_def)
  ultimately show ?thesis unfolding intent_receipts_def assms(5-7) using assms(3,4) by (simp add: with_last_intent_def)
qed

text \<open>An accepted intent, whether it starts a fresh run or updates the stored one, adds its receipt; no other write touches them.\<close>

lemma intent_write_receipts:
  assumes "\<And>x. re_fullmatch INTENT_RECEIPT_RE (ae_sha256 env x)" and "run_rewritten env ticket_id (Wrote_intent intent request_id) run run'"
    and "intent_receipts env ticket_id run = Inr old"
  shows "intent_receipts env ticket_id run' = Inr (last_n INTENT_RECEIPT_LIMIT (add_once (intent_receipt_token env ticket_id intent request_id) old))"
proof -
  from assms(2) obtain receipts now run_id where w: "append_intent_receipt env ticket_id run intent request_id = Inr receipts"
    "intent \<in> set INTENTS" "re_fullmatch REQUEST_ID_RE request_id"
    "run' = (if intent \<in> {''start'', ''resume''} then starting_runtime run_id now intent request_id receipts run
       else requested_runtime now intent request_id receipts run)" by (rule intent_write_run)
  have "list_strs (pget run' ''intent_receipts'') = receipts" "pget run' ''last_intent'' = PStr intent" "pget run' ''last_intent_request_id'' = PStr request_id"
    by (auto simp: w(4) starting_runtime_def requested_runtime_def kept_history_def Let_def list_strs_def)
  from receipts_read_back [OF assms(1) w(1-3) this] show ?thesis using w(1) assms(3) by (simp add: append_intent_receipt_def)
qed

lemma terminal_keeps:
  assumes "terminal_runtime env decide now later r run = Inr run'" and "k \<in> {''intent_receipts'', ''last_intent'', ''last_intent_request_id''}"
  shows "pget run' k = pget run k"
  using assms by (auto simp: terminal_runtime_def failure_history_def Let_def split: option.splits if_splits)

lemma other_write_receipts:
  assumes "run_rewritten env ticket_id x run run'" and "\<not> is_intent_write x"
  shows "intent_receipts env ticket_id run' = intent_receipts env ticket_id run"
proof -
  have "pget run' k = pget run k" if "k \<in> {''intent_receipts'', ''last_intent'', ''last_intent_request_id''}" for k
    using assms that section_keeps terminal_keeps by (cases x) (auto elim: run_rewritten.cases)
  then show ?thesis by (simp add: intent_receipts_def)
qed

lemma near_end_writes:
  assumes hex: "\<And>x. re_fullmatch INTENT_RECEIPT_RE (ae_sha256 env x)"
  shows "run_becomes env ticket_id rest run run' \<Longrightarrow> intent_receipts env ticket_id run = Inr receipts \<Longrightarrow> near_end t j receipts \<Longrightarrow>
    j + length (filter is_intent_write rest) < 64 \<Longrightarrow> \<exists>receipts' j'. intent_receipts env ticket_id run' = Inr receipts' \<and> near_end t j' receipts'"
proof (induction arbitrary: receipts j rule: run_becomes.induct)
  case (written x run run1 xs run2)
  show ?case
  proof (cases x)
    case (Wrote_intent i q)
    with written.hyps(1) intent_write_receipts [OF hex] written.prems(1)
    have "intent_receipts env ticket_id run1 = Inr (last_n INTENT_RECEIPT_LIMIT (add_once (intent_receipt_token env ticket_id i q) receipts))" by blast
    from written.IH [OF this near_end_append [OF written.prems(2)]] written.prems(3) Wrote_intent show ?thesis by simp
  qed (use other_write_receipts [OF written.hyps(1)] written in auto)
qed blast

text \<open>C38. An accepted intent is recognised after a restart: a manager that has only the stored run answers it as applied already,
  whatever was written since, a fresh run of a start or a resume included, as long as at most 63 further intents were accepted.
  The hash is assumed to answer 64 hexadecimal digits.\<close>

theorem receipt_survives_restart:
  assumes "\<And>x. re_fullmatch INTENT_RECEIPT_RE (ae_sha256 env x)"
    and "already_applied env ticket_id intent request_id run = Inr False"
    and "run_becomes env ticket_id (Wrote_intent intent request_id # rest) run stored" and "length (filter is_intent_write rest) \<le> 63"
  shows "already_applied env ticket_id intent request_id stored = Inr True"
proof -
  let ?t = "intent_receipt_token env ticket_id intent request_id"
  from assms(2) obtain old where old: "intent_receipts env ticket_id run = Inr old" "?t \<notin> set old" by (auto simp: already_applied_def)
  from assms(3) obtain run1 where w: "run_rewritten env ticket_id (Wrote_intent intent request_id) run run1" "run_becomes env ticket_id rest run1 stored"
    by (rule run_becomes_ConsE)
  from near_end_writes [OF assms(1) w(2) intent_write_receipts [OF assms(1) w(1) old(1)] near_end_snoc [OF old(2)]] assms(4)
  obtain receipts' j' where "intent_receipts env ticket_id stored = Inr receipts'" "near_end ?t j' receipts'" by auto
  then show ?thesis by (auto simp: already_applied_def near_end_def)
qed

section \<open>Two defects\<close>

text \<open>An intent of the wrong type is not refused as an invalid intent: when it cannot be hashed the test for membership raises.\<close>

lemma unhashable_intent_raises:
  "normalize_intent_payload (PDict [(PStr ''intent'', PList []), (PStr ''request_id'', PStr q)]) = Inl (PyTypeError ''unhashable type'')"
  by (simp add: normalize_intent_payload_def pget_def in_strs_def insert_commute)

text \<open>A failure without a code is recorded as \<^verbatim>\<open>executor_failed\<close>, which the table classifies as deterministic, but the decision
  recorded with it is for the class of a missing code.\<close>

lemma missing_code_decided_as_ambiguous:
  assumes "er_error_code r = None" and "er_state r = ''failed''" and "terminal_runtime env None now later r [] = Inr t"
  shows "pget t ''error_code'' = PStr ''executor_failed'' \<and> classify_failure (PStr ''executor_failed'') = ''deterministic_failure''
    \<and> (\<exists>f. pget t ''failure_decision'' = PDict f \<and> pget f ''class'' = PStr ''ambiguous_side_effect'')"
proof -
  have c: "classify_failure PNone = ''ambiguous_side_effect''" "normal_class ''ambiguous_side_effect'' = ''ambiguous_side_effect''"
    by (simp_all add: classify_failure_def normal_class_def FAILURE_CLASSES_def)
  have "classify_failure (PStr ''executor_failed'') = ''deterministic_failure''" by (simp add: classify_failure_def dict_get_or_def CLASS_BY_ERROR_def)
  with assms c show ?thesis
    by (auto simp: terminal_runtime_def final_code_def failure_history_def failure_decision_for_def Let_def list_strs_def opt_val_def is_stuck_two STUCK_THRESHOLD_def
        decide_failure_eq decision_public_def)
qed

section \<open>A run, concretely\<close>

definition demo_meta :: "pydict \<Rightarrow> pydict" where
  "demo_meta agent = [(PStr ''ticket_id'', PStr ''T''), (PStr ''extensions'', PDict [(PStr ''icode_agent'', PDict agent)])]"

definition demo_dirs :: "pydict \<Rightarrow> ticket_dirs" where
  "demo_dirs agent = [(''d'', Some (demo_meta agent))]"

definition demo_tickets :: ticket_env where
  "demo_tickets = \<lparr>te_project_id = ''p'', te_project_name = ''n'', te_str = (\<lambda>_. []), te_acceptance = (\<lambda>_. None)\<rparr>"

text \<open>A control plane that accepts every update.\<close>

definition demo_control :: control_plane where
  "demo_control out_dir ticket_id ext req d =
     (Inr True, map (\<lambda>(dir, m). (dir, if dir = out_dir then map_option (pset ''extensions'' (PDict ext)) m else m)) d)"

definition demo_auto :: auto_env where
  "demo_auto = \<lparr>ae_tickets = demo_tickets, ae_control = demo_control, ae_sha256 = (\<lambda>_. replicate 64 (CHR ''0'')), ae_resolve = id, ae_reason = (\<lambda>_. [])\<rparr>"

definition demo_answers :: intent_answers where
  "demo_answers = \<lparr>ia_workspace = None, ia_thread_starts = True, ia_uuid = ''u'', ia_now = ''t'', ia_later = ''t'', ia_latest = ''t''\<rparr>"

definition agent_ok :: "pydict \<Rightarrow> bool" where
  "agent_ok agent \<longleftrightarrow> (\<forall>k. hashable (pget agent k) \<or> k = ''autonomous_run'') \<and>
     (\<forall>r. pget agent ''autonomous_run'' = PDict r \<longrightarrow> hashable (pget r ''state''))"

lemma demo_resolve_ticket: "resolve_ticket_record (demo_dirs agent) ''T'' = Inr (''d'', demo_meta agent)"
  by (simp add: resolve_ticket_record_def demo_dirs_def demo_meta_def pget_def)

lemma demo_agent_extension: "agent_extension (demo_meta agent) = agent"
  by (simp add: agent_extension_def demo_meta_def pget_def)

lemma one_of_hashable: "hashable v \<Longrightarrow> \<exists>x. one_of v xs dflt = Inr x \<and> (\<forall>s\<in>set xs. v = PStr s \<longrightarrow> x = v)"
  by (auto simp: one_of_def in_strs_def list_ex_iff)

lemma demo_detail:
  assumes "agent_ok agent" and "pget agent ''requested_execution_mode'' = PStr ''autonomous''"
  shows "\<exists>v. ticket_detail demo_tickets (demo_dirs agent) ''T'' = Inr v \<and> pget v ''requested_execution_mode'' = PStr ''autonomous''"
proof -
  have h: "hashable (pget agent k)" if "k \<noteq> ''autonomous_run''" for k using assms(1) that by (auto simp: agent_ok_def)
  have o: "\<exists>x. one_of (pget agent k) xs dflt = Inr x" if "k \<noteq> ''autonomous_run''" for k xs dflt using one_of_hashable [OF h [OF that]] by blast
  have "\<exists>x. public_autonomous_run agent = Inr x"
    using assms(1) by (auto simp: public_autonomous_run_def agent_ok_def in_strs_def split: pyval.split)
  moreover have "\<exists>x. one_of (pget agent ''priority'') PRIORITIES ''normal'' = Inr x" "\<exists>x. one_of (pget agent ''locale'') SUPPORTED_LOCALES ''zh-CN'' = Inr x"
    "\<exists>x. one_of (pget agent ''effective_execution_mode'') EXECUTION_MODES ''interactive'' = Inr x"
    "\<exists>x. one_of (pget agent ''mode_status'') [''active'', ''pending_activation''] ''active'' = Inr x"
    by (rule o, simp)+
  moreover have "one_of (pget agent ''requested_execution_mode'') EXECUTION_MODES ''interactive'' = Inr (PStr ''autonomous'')"
    using assms(2) by (simp add: one_of_def EXECUTION_MODES_def)
  moreover have "pget (demo_meta agent) ''ticket_id'' = PStr ''T''" by (simp add: demo_meta_def pget_def)
  ultimately obtain v where "public_ticket demo_tickets (demo_meta agent) = Inr v" "pget v ''requested_execution_mode'' = PStr ''autonomous''"
    by (auto simp: public_ticket_def demo_agent_extension Let_def split: option.split)
  then show ?thesis by (simp add: ticket_detail_def demo_resolve_ticket demo_tickets_def Let_def)
qed

lemma demo_update:
  assumes "agent_ok (pupdate agent patch)" and "pget (pupdate agent patch) ''requested_execution_mode'' = PStr ''autonomous''"
    and "re_fullmatch REQUEST_ID_RE req" and "dirs w = demo_dirs agent"
  shows "\<exists>v. persist_intent demo_auto ''T'' patch req w = (Inr v, w\<lparr>dirs := demo_dirs (pupdate agent patch)\<rparr>)"
proof -
  have "merged_extensions (demo_meta agent) patch = [(PStr ''icode_agent'', PDict (pupdate agent patch))]"
    by (simp add: merged_extensions_def demo_agent_extension pset_def) (simp add: demo_meta_def pget_def)
  moreover have "snd (demo_control ''d'' ''T'' [(PStr ''icode_agent'', PDict (pupdate agent patch))] req (demo_dirs agent)) = demo_dirs (pupdate agent patch)"
    by (simp add: demo_control_def demo_dirs_def demo_meta_def pset_def)
  moreover obtain v where "ticket_detail demo_tickets (demo_dirs (pupdate agent patch)) ''T'' = Inr v" using demo_detail [OF assms(1,2)] by blast
  ultimately show ?thesis
    using assms(3,4) by (simp add: persist_intent_def update_ticket_def update_agent_extension_def demo_auto_def demo_resolve_ticket)
      (simp add: demo_control_def)
qed

definition demo_agent0 :: pydict where
  "demo_agent0 = [(PStr ''requested_execution_mode'', PStr ''autonomous'')]"

definition demo_starting :: pydict where
  "demo_starting = starting_runtime ''run-u'' ''t'' ''start'' ''r'' [replicate 64 (CHR ''0'')] []"

definition demo_patch :: "(string \<times> pyval) list" where
  "demo_patch = [(''effective_execution_mode'', PStr ''autonomous''), (''mode_status'', PStr ''active''), (''autonomous_run'', PDict demo_starting)]"

definition demo_intent :: "string \<Rightarrow> string \<Rightarrow> pyval" where
  "demo_intent intent request_id = PDict [(PStr ''intent'', PStr intent), (PStr ''request_id'', PStr request_id)]"

definition demo_control0 :: run_control where
  "demo_control0 = \<lparr>rc_ticket = ''T'', rc_run_id = ''run-u'', rc_stop = None, rc_session = False, rc_key = ''d''\<rparr>"

definition demo_manager :: manager where
  "demo_manager = mk_manager True True False False"

definition demo_world :: world where
  "demo_world = \<lparr>threads = [(0, Alive)], process_workers = [(''d'', 0)], run_controls = [(0, demo_control0)],
     dirs = demo_dirs (pupdate demo_agent0 demo_patch), next_thread = 1\<rparr>"

definition demo_manager1 :: manager where
  "demo_manager1 = demo_manager\<lparr>mgr_workers := [(''T'', 0)], mgr_controls := [(''T'', 0)], mgr_receipts := [(''T'', ''start'', ''r'')]\<rparr>"

abbreviation (input) demo_world0 :: world where
  "demo_world0 \<equiv> sys_world (empty_system (demo_dirs demo_agent0))"

lemma demo_agent0_ok: "agent_ok demo_agent0" "pget demo_agent0 ''requested_execution_mode'' = PStr ''autonomous''"
  by (simp_all add: agent_ok_def demo_agent0_def pget_def)

lemma demo_request_ids:
  "re_fullmatch REQUEST_ID_RE ''r''" "re_fullmatch REQUEST_ID_RE ''s''"
  "re_fullmatch REQUEST_ID_RE (internal_request demo_auto ''T'' ''intent-start-r'')" "re_fullmatch REQUEST_ID_RE (internal_request demo_auto ''T'' ''intent-cancel-s'')"
proof -
  have "list_all token_char ''autonomy-intent-start-r-00000000000000000000''" "list_all token_char ''autonomy-intent-cancel-s-00000000000000000000''"
    "list_all token_char ''r''" "list_all token_char ''s''" by code_simp+
  moreover have "replicate 20 (CHR ''0'') = ''00000000000000000000''" by (simp add: numeral_eq_Suc)
  ultimately show "re_fullmatch REQUEST_ID_RE ''r''" "re_fullmatch REQUEST_ID_RE ''s''"
    "re_fullmatch REQUEST_ID_RE (internal_request demo_auto ''T'' ''intent-start-r'')" "re_fullmatch REQUEST_ID_RE (internal_request demo_auto ''T'' ''intent-cancel-s'')"
    by (simp_all add: request_id_iff internal_request_def demo_auto_def)
qed

lemma demo_intents:
  "normalize_intent_payload (demo_intent ''start'' ''r'') = Inr (''start'', ''r'')"
  using demo_request_ids(1) by (simp add: normalize_intent_payload_def demo_intent_def pget_def INTENTS_def insert_commute)

lemma demo_patched:
  "agent_ok (pupdate demo_agent0 demo_patch)" "pget (pupdate demo_agent0 demo_patch) ''requested_execution_mode'' = PStr ''autonomous''"
  using demo_agent0_ok by (auto simp: agent_ok_def demo_patch_def demo_starting_def starting_runtime_def kept_history_def Let_def list_strs_def last_n_def)

lemma demo_token: "intent_receipt_token demo_auto ticket_id intent request_id = replicate 64 (CHR ''0'')"
  by (simp add: intent_receipt_token_def demo_auto_def)

lemma demo_start:
  "\<exists>v. handle_intent demo_auto demo_answers ''T'' (demo_intent ''start'' ''r'') (demo_manager, demo_world0) = (Inr v, demo_manager1, demo_world)"
proof -
  let ?w = demo_world0
  have w: "dirs ?w = demo_dirs demo_agent0" by (simp add: empty_system_def)
  obtain v where v: "ticket_of demo_auto ?w ''T'' = Inr v" "pget v ''requested_execution_mode'' = PStr ''autonomous''"
    using demo_detail [OF demo_agent0_ok] w by (auto simp: ticket_of_def ticket_lookup_def demo_auto_def)
  have run: "raw_runtime ?w ''T'' = Inr []"
    using w by (simp add: raw_runtime_def ticket_lookup_def demo_resolve_ticket demo_agent_extension) (simp add: demo_agent0_def pget_def)
  have rec: "intent_receipts demo_auto ''T'' [] = Inr []"
    by (simp add: intent_receipts_def with_last_intent_def list_strs_def last_n_def)
  have app: "append_intent_receipt demo_auto ''T'' [] ''start'' ''r'' = Inr [replicate 64 (CHR ''0'')]"
    unfolding append_intent_receipt_def rec demo_token by (simp add: add_once_def last_n_def INTENT_RECEIPT_LIMIT_def)
  have prep: "prepare_start demo_auto demo_answers v ''T'' ''start'' ''r'' demo_manager ?w = Inr (demo_starting, ''d'')"
    using v(2) w app by (simp add: prepare_start_def require_capability_def demo_manager_def mk_manager_def run may_start_from_def process_worker_key_def
        ticket_lookup_def demo_resolve_ticket demo_starting_def demo_answers_def) (simp add: demo_auto_def)
  define m1 where "m1 = demo_manager\<lparr>mgr_controls := [(''T'', 0)], mgr_workers := [(''T'', 0)]\<rparr>"
  define w1 where "w1 = \<lparr>threads = [(0, Unstarted)], process_workers = [(''d'', 0)], run_controls = [(0, demo_control0)], dirs = demo_dirs demo_agent0, next_thread = 1\<rparr>"
  have reg: "register_worker ''T'' (''run-'' @ ia_uuid demo_answers) ''d'' (demo_manager, ?w) = (Some 0, m1, w1)"
    by (simp add: register_worker_def reserve_process_worker_def Let_def empty_system_def demo_answers_def m1_def w1_def demo_manager_def mk_manager_def demo_control0_def)
  have dw: "dirs w1 = demo_dirs demo_agent0" by (simp add: w1_def)
  obtain u where u: "persist_intent demo_auto ''T'' demo_patch (internal_request demo_auto ''T'' ''intent-start-r'') w1 =
      (Inr u, w1\<lparr>dirs := demo_dirs (pupdate demo_agent0 demo_patch)\<rparr>)"
    using demo_update [OF demo_patched demo_request_ids(3) dw] by blast
  have s: "set_control 0 (demo_control0\<lparr>rc_session := False\<rparr>) w1 = w1" by (simp add: set_control_def w1_def demo_control0_def)
  have c: "dict_get (run_controls w1) 0 = Some demo_control0" by (simp add: w1_def)
  have launch: "launch_worker demo_auto demo_answers ''T'' ''start'' ''r'' demo_starting 0 (m1, w1) = (Inr u, m1, demo_world)"
    unfolding launch_worker_def demo_answers_def intent_answers.select_convs Let_def prod.case option.case sum.case c s
    using u by (simp add: demo_patch_def demo_world_def w1_def)
  have "start_or_resume_locked demo_auto demo_answers v ''T'' ''start'' ''r'' (demo_manager, ?w) = (Inr u, m1, demo_world)"
    unfolding start_or_resume_locked_def prod.case prep sum.case reg option.case launch ..
  moreover have "mgr_receipts demo_manager = []" "\<not> shutting_down demo_manager" by (simp_all add: demo_manager_def mk_manager_def)
  ultimately show ?thesis
    by (simp add: handle_intent_def demo_intents v(1) run already_applied_def rec with_receipt_def m1_def demo_manager1_def)
qed

definition demo_system :: system where
  "demo_system = (empty_system (demo_dirs demo_agent0))\<lparr>managers := (\<lambda>_. None)(0 \<mapsto> demo_manager)\<rparr>"

definition demo_running :: system where
  "demo_running = demo_system\<lparr>managers := (managers demo_system)(0 \<mapsto> demo_manager1), sys_world := demo_world,
     wpcs := spawned 0 (sys_world demo_system) demo_world (wpcs demo_system)\<rparr>"

lemma demo_system_reached: "sys_step demo_auto None (empty_system (demo_dirs demo_agent0)) demo_system"
proof -
  let ?s = "empty_system (demo_dirs demo_agent0)"
  have "sys_step demo_auto None ?s (?s\<lparr>managers := (managers ?s)(0 \<mapsto> mk_manager True True False False), sys_world := sys_world ?s\<rparr>)"
    by (rule construct [where tids = "[]"]) (simp_all add: empty_system_def)
  then show ?thesis by (simp add: demo_system_def demo_manager_def empty_system_def)
qed

lemma demo_running_reached: "sys_steps demo_auto None (empty_system (demo_dirs demo_agent0)) demo_running"
proof -
  from demo_start obtain v where v: "handle_intent demo_auto demo_answers ''T'' (demo_intent ''start'' ''r'') (demo_manager, sys_world demo_system)
      = (Inr v, demo_manager1, demo_world)" by (auto simp: demo_system_def)
  have "sys_step demo_auto None demo_system demo_running"
    unfolding demo_running_def by (rule intent [OF _ v]) (simp add: demo_system_def)
  with demo_system_reached show ?thesis by (meson converse_rtranclp_into_rtranclp r_into_rtranclp)
qed

lemma demo_running_worker:
  "managers demo_running 0 = Some demo_manager1" "wpcs demo_running 0 = Some (0, At_begin)" "sys_world demo_running = demo_world"
  "dict_get (run_controls demo_world) 0 = Some demo_control0"
  by (simp_all add: demo_running_def demo_system_def spawned_def empty_system_def demo_world_def is_alive_def)


theorem repeated_intent_changes_nothing_witness:
  "handle_intent demo_auto demo_answers ''T'' (demo_intent ''start'' ''r'') (demo_manager1, demo_world) =
     (ticket_of demo_auto demo_world ''T'', demo_manager1, demo_world)"
proof -
  have m: "managers demo_system 0 = Some demo_manager" by (simp add: demo_system_def)
  from demo_start obtain v where v: "handle_intent demo_auto demo_answers ''T'' (demo_intent ''start'' ''r'') (demo_manager, sys_world demo_system)
      = (Inr v, demo_manager1, demo_world)" by (auto simp: demo_system_def)
  from repeated_intent_changes_nothing [OF m v, where decide = None and ?s2.0 = demo_running and ?m2.0 = demo_manager1, folded demo_running_def] demo_running_worker(1,3)
  show ?thesis by simp
qed

definition demo_requested :: pydict where
  "demo_requested = requested_runtime ''t'' ''cancel'' ''s'' [replicate 64 (CHR ''0'')] demo_starting"

lemma demo_hex: "re_fullmatch INTENT_RECEIPT_RE (replicate 64 (CHR ''0''))"
  by (simp add: INTENT_RECEIPT_RE_def fullmatch_dollar re_fullmatch_rrange list_all_iff is_digit_def)

lemma demo_sha: "re_fullmatch INTENT_RECEIPT_RE (ae_sha256 demo_auto x)"
  using demo_hex by (simp add: demo_auto_def)

lemma demo_cancel:
  "\<exists>v w'. request_stop_locked demo_auto demo_answers ''T'' ''cancel'' ''s'' (demo_manager1, demo_world) = (Inr v, demo_manager1, w')"
proof -
  have d: "dirs demo_world = demo_dirs (pupdate demo_agent0 demo_patch)" by (simp add: demo_world_def)
  have run: "raw_runtime demo_world ''T'' = Inr demo_starting"
    using d by (simp add: raw_runtime_def ticket_lookup_def demo_resolve_ticket demo_agent_extension demo_patch_def)
  have st: "pget demo_starting ''state'' = PStr ''starting''" "pget demo_starting ''last_intent'' = PStr ''start''"
    "pget demo_starting ''last_intent_request_id'' = PStr ''r''" "list_strs (pget demo_starting ''intent_receipts'') = [replicate 64 (CHR ''0'')]"
    by (simp_all add: demo_starting_def starting_runtime_def kept_history_def Let_def list_strs_def last_n_def)
  have "intent_receipts demo_auto ''T'' demo_starting = Inr [replicate 64 (CHR ''0'')]"
    unfolding intent_receipts_def st using demo_hex demo_request_ids(1) demo_token
    by (simp add: INTENTS_def with_last_intent_def add_once_def last_n_def INTENT_RECEIPT_LIMIT_def)
  then have app: "append_intent_receipt demo_auto ''T'' demo_starting ''cancel'' ''s'' = Inr [replicate 64 (CHR ''0'')]"
    unfolding append_intent_receipt_def demo_token by (simp add: add_once_def last_n_def INTENT_RECEIPT_LIMIT_def)
  have "is_alive demo_world 0" by (simp add: is_alive_def demo_world_def)
  then have prep: "prepare_stop demo_auto demo_answers ''T'' ''cancel'' ''s'' demo_manager1 demo_world = Inr (0, demo_requested)"
    by (simp add: prepare_stop_def run st app demo_manager1_def demo_requested_def demo_answers_def)
  have ok: "agent_ok (pupdate (pupdate demo_agent0 demo_patch) [(''autonomous_run'', PDict demo_requested)])"
    "pget (pupdate (pupdate demo_agent0 demo_patch) [(''autonomous_run'', PDict demo_requested)]) ''requested_execution_mode'' = PStr ''autonomous''"
    using demo_patched by (auto simp: agent_ok_def demo_requested_def requested_runtime_def)
  from demo_update [OF ok demo_request_ids(4) d] obtain v where
    "persist_intent demo_auto ''T'' [(''autonomous_run'', PDict demo_requested)] (internal_request demo_auto ''T'' ''intent-cancel-s'') demo_world
      = (Inr v, demo_world\<lparr>dirs := demo_dirs (pupdate (pupdate demo_agent0 demo_patch) [(''autonomous_run'', PDict demo_requested)])\<rparr>)" by blast
  then show ?thesis by (simp add: request_stop_locked_def prep)
qed

theorem accepted_stop_ends_run_witness:
  "\<exists>v w' control. request_stop_locked demo_auto demo_answers ''T'' ''cancel'' ''s'' (demo_manager1, demo_world) = (Inr v, demo_manager1, w')
     \<and> fst (safe_point demo_auto ''t'' ''t'' 0 control (PStr ''plan'') demo_manager1 w') \<noteq> Inr ()"
proof -
  obtain v w' where c: "request_stop_locked demo_auto demo_answers ''T'' ''cancel'' ''s'' (demo_manager1, demo_world) = (Inr v, demo_manager1, w')"
    using demo_cancel by blast
  have "same_reg demo_world w'" using request_stop_frame [OF c] by simp
  then have "ctl_view w' 0 = ctl_view demo_world 0" by (simp add: same_reg_def)
  then obtain control where k: "dict_get (run_controls w') 0 = Some control" using demo_running_worker(4) by (auto simp: ctl_view_def)
  let ?s = "demo_running\<lparr>managers := (managers demo_running)(0 \<mapsto> demo_manager1), sys_world := w'\<rparr>"
  have a: "dict_get (run_controls (sys_world demo_running)) 0 = Some demo_control0" using demo_running_worker(3,4) by simp
  have r: "request_stop_locked demo_auto demo_answers (rc_ticket demo_control0) ''cancel'' ''s'' (demo_manager1, sys_world demo_running) = (Inr v, demo_manager1, w')"
    using c demo_running_worker(3) by (simp add: demo_control0_def)
  from accepted_stop_ends_run [OF demo_running_reached demo_running_worker(1,2) _ a r, where ?s2.0 = ?s and ?control2.0 = control] k
  have "fst (safe_point demo_auto ''t'' ''t'' 0 control (PStr ''plan'') demo_manager1 w') \<noteq> Inr ()" by simp
  with c show ?thesis by blast
qed



text \<open>A start of a ticket whose stored run allows it, as the manager prepares it.\<close>

lemma demo_restarts:
  assumes "may_start_from ''start'' (pget run ''state'') = Inr True" and "intent_receipts demo_auto ''T'' run = Inr old"
  shows "\<exists>run'. run_rewritten demo_auto ''T'' (Wrote_intent ''start'' ''r'') run run'"
proof -
  let ?w = "demo_world\<lparr>dirs := demo_dirs [(PStr ''autonomous_run'', PDict run)]\<rparr>"
  have r: "raw_runtime ?w ''T'' = Inr run"
    by (simp add: raw_runtime_def ticket_lookup_def demo_resolve_ticket demo_agent_extension) (simp add: pget_def)
  obtain receipts where "append_intent_receipt demo_auto ''T'' run ''start'' ''r'' = Inr receipts"
    using assms(2) by (simp add: append_intent_receipt_def)
  then obtain run' key where "prepare_start demo_auto demo_answers demo_agent0 ''T'' ''start'' ''r'' demo_manager ?w = Inr (run', key)"
    using assms(1) r by (simp add: prepare_start_def require_capability_def demo_manager_def mk_manager_def process_worker_key_def
        ticket_lookup_def demo_resolve_ticket demo_agent0_ok(2))
  from by_start [OF demo_intents _ r this] show ?thesis by auto
qed


theorem receipt_survives_restart_witness:
  "\<exists>stored. run_becomes demo_auto ''T'' [Wrote_intent ''start'' ''r'', Wrote_section, Wrote_section] [] stored
     \<and> already_applied demo_auto ''T'' ''start'' ''r'' stored = Inr True"
proof -
  have rec: "intent_receipts demo_auto ''T'' [] = Inr []"
    by (simp add: intent_receipts_def with_last_intent_def list_strs_def last_n_def)
  then have a: "already_applied demo_auto ''T'' ''start'' ''r'' [] = Inr False" by (simp add: already_applied_def)
  have "may_start_from ''start'' (pget [] ''state'') = Inr True" by (simp add: may_start_from_def)
  from demo_restarts [OF this rec] obtain run1 where r: "run_rewritten demo_auto ''T'' (Wrote_intent ''start'' ''r'') [] run1" by blast
  have s: "run_becomes demo_auto ''T'' [Wrote_intent ''start'' ''r'', Wrote_section, Wrote_section] []
      (interrupted_runtime ''t'' ''t'' ''shutdown'' (running_runtime ''t'' ''t'' run1))"
    by (rule written [OF r written [OF by_begin written [OF by_interruption unwritten]]])
  have "already_applied demo_auto ''T'' ''start'' ''r'' (interrupted_runtime ''t'' ''t'' ''shutdown'' (running_runtime ''t'' ''t'' run1)) = Inr True"
    using receipt_survives_restart [OF demo_sha a s] by simp
  with s show ?thesis by blast
qed

end
