(* ===== verification/Py_Text.thy ===== *)
theory Py_Text
  imports Py_Dyn Py_Json
begin

text \<open>
  Further pieces of the standard library on Python values: UTF-8 (of the code points 0 to 255), hexadecimal
  digests, the operator \<^verbatim>\<open>==\<close> on dynamically typed values (which identifies \<^verbatim>\<open>True\<close>, \<^verbatim>\<open>1\<close> and
  \<^verbatim>\<open>1.0\<close>), \<^verbatim>\<open>str(x)\<close>, and the rounding of a rational number to a double. The bytes of a file or a message
  are a \<open>string\<close> as well, one \<open>char\<close> per byte.
\<close>

section \<open>UTF-8\<close>

definition utf8_char :: "char \<Rightarrow> string" where
  "utf8_char c = (let n = (of_char c :: nat) in
     if n < 128 then [c] else [char_of (192 + n div 64), char_of (128 + n mod 64)])"

definition utf8 :: "string \<Rightarrow> string" where
  "utf8 s = concat (map utf8_char s)"

text \<open>The decoder, on the sequences of one and two bytes that encode the code points 0 to 255.\<close>

fun utf8_decode :: "string \<Rightarrow> string option" where
  "utf8_decode [] = Some []"
| "utf8_decode (b # bs) =
     (if (of_char b :: nat) < 128 then map_option (\<lambda>s. b # s) (utf8_decode bs)
      else case bs of [] \<Rightarrow> None
        | b' # bs' \<Rightarrow>
            if (of_char b :: nat) \<in> {194, 195} \<and> 128 \<le> (of_char b' :: nat) \<and> (of_char b' :: nat) < 192
            then map_option (\<lambda>s. char_of ((of_char b - 192) * 64 + (of_char b' - 128 :: nat)) # s) (utf8_decode bs')
            else None)"

lemma utf8_simps [simp]:
  "utf8 [] = []"
  "utf8 (c # s) = utf8_char c @ utf8 s"
  "utf8 (s @ t) = utf8 s @ utf8 t"
  by (simp_all add: utf8_def)

lemma utf8_decode_char: "utf8_decode (utf8_char c @ bs) = map_option (\<lambda>s. c # s) (utf8_decode bs)"
proof (cases "(of_char c :: nat) < 128")
  case False
  define n where "n = (of_char c :: nat)"
  have n: "128 \<le> n" "n < 256" using False nat_of_char_less_256 [of c] by (simp_all add: n_def)
  then have d: "n div 64 \<in> {2, 3}" by auto
  then have "of_char (char_of (192 + n div 64) :: char) = (192 + n div 64 :: nat)"
    "of_char (char_of (128 + n mod 64) :: char) = (128 + n mod 64 :: nat)"
    by (auto simp: of_char_of take_bit_nat_def mod_less less_trans [of _ 192])
  moreover have "n div 64 * 64 + n mod 64 = n" by simp
  then have "char_of (n div 64 * 64 + n mod 64) = c" unfolding n_def by simp
  ultimately show ?thesis using False d
    by (auto simp: utf8_char_def Let_def n_def [symmetric] simp del: div_mult_mod_eq)
qed (simp add: utf8_char_def Let_def)

lemma utf8_decode_utf8 [simp]: "utf8_decode (utf8 s) = Some s"
  by (induction s) (simp_all add: utf8_decode_char)

lemma utf8_inj [simp]: "utf8 s = utf8 t \<longleftrightarrow> s = t"
  by (metis utf8_decode_utf8 option.inject)

section \<open>Hexadecimal\<close>

definition hex_byte :: "char \<Rightarrow> string" where
  "hex_byte c = [hex_digit (of_char c div 16), hex_digit (of_char c mod 16)]"

definition hex_of :: "string \<Rightarrow> string" where
  "hex_of bs = concat (map hex_byte bs)"

definition is_hex_lower :: "char \<Rightarrow> bool" where
  "is_hex_lower c \<longleftrightarrow> is_digit c \<or> (let n = (of_char c :: nat) in 97 \<le> n \<and> n \<le> 102)"

text \<open>\<^verbatim>\<open>bytes.fromhex\<close> on a text of lower-case hexadecimal digits.\<close>

fun from_hex :: "string \<Rightarrow> string" where
  "from_hex (a # b # s) = char_of (16 * hex_val a + hex_val b) # from_hex s"
| "from_hex s = []"

text \<open>\<^verbatim>\<open>re.fullmatch(r"[0-9a-f]{64}", s)\<close>.\<close>

definition hex64_text :: "string \<Rightarrow> bool" where
  "hex64_text s \<longleftrightarrow> length s = 64 \<and> list_all is_hex_lower s"

lemma hex_digit_lower: "d < 16 \<Longrightarrow> is_hex_lower (hex_digit d)"
  by (auto simp: is_hex_lower_def is_digit_def Let_def of_char_hex_digit)

lemma length_hex_of [simp]: "length (hex_of bs) = 2 * length bs"
  by (induction bs) (simp_all add: hex_of_def hex_byte_def)

lemma hex_of_lower: "list_all is_hex_lower (hex_of bs)"
  by (induction bs) (simp_all add: hex_of_def hex_byte_def hex_digit_lower of_char_parts)

lemma hex64_hex_of: "length bs = 32 \<Longrightarrow> hex64_text (hex_of bs)"
  by (simp add: hex64_text_def hex_of_lower)

lemma from_hex_hex_of [simp]: "from_hex (hex_of bs) = bs"
proof (induction bs)
  case (Cons c bs)
  have "16 * ((of_char c :: nat) div 16) + of_char c mod 16 = of_char c" by simp
  then show ?case using Cons
    by (simp add: hex_of_def hex_byte_def of_char_parts del: mult_div_mod_eq)
qed (simp add: hex_of_def)

lemma hex_of_inj [simp]: "hex_of a = hex_of b \<longleftrightarrow> a = b"
  by (metis from_hex_hex_of)

lemma length_from_hex: "length (from_hex s) = length s div 2"
  by (induction s rule: from_hex.induct) simp_all

section \<open>Equality of Python values\<close>

definition num_val :: "pyval \<Rightarrow> pyfloat option" where
  "num_val v = (case v of
       PBool b \<Rightarrow> Some (Fin (if b then 1 else 0))
     | PInt i \<Rightarrow> Some (Fin (of_int i))
     | PFloat f \<Rightarrow> Some (if f = NegZero then Fin 0 else f)
     | _ \<Rightarrow> None)"

text \<open>
  \<^verbatim>\<open>==\<close> on values built from JSON: numbers compare by value, dictionaries (with string keys) without regard to
  order. Other values are compared by constructor. A NaN differs from itself.
\<close>

fun py_eq :: "pyval \<Rightarrow> pyval \<Rightarrow> bool"
  and py_eq_list :: "pyval list \<Rightarrow> pyval list \<Rightarrow> bool"
  and py_eq_items :: "(pyval \<times> pyval) list \<Rightarrow> (pyval \<times> pyval) list \<Rightarrow> bool" where
  "py_eq (PList xs) (PList ys) = py_eq_list xs ys"
| "py_eq (PTuple xs) (PTuple ys) = py_eq_list xs ys"
| "py_eq (PDict d) (PDict e) = (length d = length e \<and> py_eq_items d e)"
| "py_eq v w = (case (num_val v, num_val w) of
       (Some a, Some b) \<Rightarrow> a = b \<and> a \<noteq> NaN
     | (None, None) \<Rightarrow> v = w
     | _ \<Rightarrow> False)"
| "py_eq_list [] ys = (ys = [])"
| "py_eq_list (x # xs) ys = (case ys of [] \<Rightarrow> False | y # ys' \<Rightarrow> py_eq x y \<and> py_eq_list xs ys')"
| "py_eq_items [] e = True"
| "py_eq_items ((k, v) # d) e = (case dict_get e k of None \<Rightarrow> False | Some w \<Rightarrow> py_eq v w \<and> py_eq_items d e)"

lemma num_val_simps [simp]:
  "num_val PNone = None" "num_val (PStr s) = None" "num_val (PList xs) = None" "num_val (PDict d) = None"
  "num_val (PInt i) = Some (Fin (of_int i))" "num_val (PBool b) = Some (Fin (if b then 1 else 0))"
  "num_val (PBytes s) = None" "num_val (PTuple xs) = None" "num_val (PPath p) = None" "num_val (PEnum c s) = None"
  "num_val (POther n) = None"
  by (simp_all add: num_val_def)

lemma num_val_NoneD: "num_val v = None \<Longrightarrow> v \<noteq> PInt i \<and> v \<noteq> PBool b \<and> v \<noteq> PFloat f"
  by (auto simp: num_val_def)

lemma py_eq_PStr [simp]: "py_eq v (PStr s) \<longleftrightarrow> v = PStr s" "py_eq (PStr s) v \<longleftrightarrow> v = PStr s"
  by (cases v; auto simp: num_val_def split: option.splits)+

lemma py_eq_PNone [simp]: "py_eq v PNone \<longleftrightarrow> v = PNone" "py_eq PNone v \<longleftrightarrow> v = PNone"
  by (cases v; auto simp: num_val_def split: option.splits)+

lemma py_eq_PInt [simp]: "py_eq (PInt i) (PInt j) \<longleftrightarrow> i = j"
  by simp

section \<open>Text of a value\<close>

text \<open>\<^verbatim>\<open>str(x)\<close>; the texts of floats and containers are the argument.\<close>

definition py_str :: "(pyval \<Rightarrow> string) \<Rightarrow> pyval \<Rightarrow> string" where
  "py_str other v = (case v of
       PStr s \<Rightarrow> s
     | PNone \<Rightarrow> ''None''
     | PBool b \<Rightarrow> (if b then ''True'' else ''False'')
     | PInt i \<Rightarrow> string_of_int i
     | _ \<Rightarrow> other v)"

lemma py_str_PStr [simp]: "py_str other (PStr s) = s"
  by (simp add: py_str_def)

section \<open>Rounding to a double\<close>

definition round_half_even :: "rat \<Rightarrow> int" where
  "round_half_even x = (let f = \<lfloor>x\<rfloor>; r = x - of_int f in if 1 / 2 < r \<or> r = 1 / 2 \<and> odd f then f + 1 else f)"

definition times_pow2 :: "rat \<Rightarrow> int \<Rightarrow> rat" where
  "times_pow2 x e = (if 0 \<le> e then x * 2 ^ nat e else x / 2 ^ nat (- e))"

text \<open>Nearest double of a positive number, ties to even, with subnormals and overflow.\<close>

definition round_pos :: "rat \<Rightarrow> pyfloat" where
  "round_pos a = (case quotient_of a of (n, d) \<Rightarrow>
     (let e0 = bitlen n - bitlen d - 53;
          e1 = (if 2 ^ 53 \<le> times_pow2 a (- e0) then e0 + 1 else e0);
          e = max e1 (- 1074);
          m = times_pow2 (of_int (round_half_even (times_pow2 a (- e)))) e
      in if 2 ^ 1024 \<le> m then PosInf else Fin m))"

definition round_double :: "bool \<Rightarrow> rat \<Rightarrow> pyfloat" where
  "round_double negative a =
     (if a = 0 then (if negative then NegZero else Fin 0)
      else case round_pos a of
          Fin m \<Rightarrow> (if negative then (if m = 0 then NegZero else Fin (- m)) else Fin m)
        | f \<Rightarrow> (if negative then NegInf else f))"

definition float_add :: "pyfloat \<Rightarrow> pyfloat \<Rightarrow> pyfloat" where
  "float_add f g = (case (f, g) of
       (NaN, _) \<Rightarrow> NaN
     | (_, NaN) \<Rightarrow> NaN
     | (PosInf, NegInf) \<Rightarrow> NaN
     | (NegInf, PosInf) \<Rightarrow> NaN
     | (PosInf, _) \<Rightarrow> PosInf
     | (_, PosInf) \<Rightarrow> PosInf
     | (NegInf, _) \<Rightarrow> NegInf
     | (_, NegInf) \<Rightarrow> NegInf
     | (NegZero, h) \<Rightarrow> h
     | (h, NegZero) \<Rightarrow> h
     | (Fin a, Fin b) \<Rightarrow> round_double (a + b < 0) \<bar>a + b\<bar>)"

end
