(* ===== verification/Json_Load.thy ===== *)
theory Json_Load
  imports Py_Text
begin

text \<open>
  Reading JSON: the decoder of the standard library (\<^verbatim>\<open>json.loads\<close> with its two hooks and its recursion limit)
  and the strict reader \<^verbatim>\<open>loads_json_value\<close> of \<^verbatim>\<open>pack_verify.py\<close> built on it. The main result is the round
  trip: the strict reader recovers a float-free value from its printed text.

  Texts are over the code points 0 to 255; an escape of a larger code point is outside the model and refused.
\<close>

section \<open>The scanner\<close>

definition json_error :: exc where
  "json_error = PyValueError ''JSONDecodeError''"

definition is_ws :: "char \<Rightarrow> bool" where
  "is_ws c \<longleftrightarrow> c \<in> {CHR 32, CHR 9, CHR 10, CHR 13}"

definition skip_ws :: "string \<Rightarrow> string" where
  "skip_ws s = dropWhile is_ws s"

definition unescape :: "char \<Rightarrow> char option" where
  "unescape c =
     (if c \<in> {CHR 34, CHR 92, CHR ''/''} then Some c
      else if c = CHR ''b'' then Some (CHR 8)
      else if c = CHR ''f'' then Some (CHR 12)
      else if c = CHR ''n'' then Some (CHR 10)
      else if c = CHR ''r'' then Some (CHR 13)
      else if c = CHR ''t'' then Some (CHR 9)
      else None)"

definition hex_code :: "char \<Rightarrow> nat option" where
  "hex_code c = (let n = (of_char c :: nat) in
     if 48 \<le> n \<and> n \<le> 57 then Some (n - 48)
     else if 97 \<le> n \<and> n \<le> 102 then Some (n - 87)
     else if 65 \<le> n \<and> n \<le> 70 then Some (n - 55)
     else None)"

definition hex4 :: "char \<Rightarrow> char \<Rightarrow> char \<Rightarrow> char \<Rightarrow> nat option" where
  "hex4 a b c d = (case (hex_code a, hex_code b, hex_code c, hex_code d) of
       (Some i, Some j, Some k, Some l) \<Rightarrow> Some (((i * 16 + j) * 16 + k) * 16 + l)
     | _ \<Rightarrow> None)"

definition add_char :: "char \<Rightarrow> (string \<times> string) res \<Rightarrow> (string \<times> string) res" where
  "add_char c m = bindr m (\<lambda>(s, r). Inr (c # s, r))"

text \<open>The text after an opening quote: the string up to the closing quote and the rest.\<close>

fun scan_string :: "string \<Rightarrow> (string \<times> string) res" where
  "scan_string [] = Inl json_error"
| "scan_string (c # r) =
     (if c = CHR 34 then Inr ([], r)
      else if c = CHR 92 then
        (case r of [] \<Rightarrow> Inl json_error
         | e # r' \<Rightarrow>
             if e = CHR ''u'' then
               (case r' of
                  h1 # h2 # h3 # h4 # r'' \<Rightarrow>
                    (case hex4 h1 h2 h3 h4 of None \<Rightarrow> Inl json_error
                     | Some n \<Rightarrow> if n < 256 then add_char (char_of n) (scan_string r'')
                                 else Inl (PyValueError ''code point outside the modelled alphabet''))
                | _ \<Rightarrow> Inl json_error)
             else (case unescape e of None \<Rightarrow> Inl json_error | Some u \<Rightarrow> add_char u (scan_string r')))
      else if (of_char c :: nat) < 32 then Inl json_error
      else add_char c (scan_string r))"

text \<open>A number: its sign, its integer digits, its fraction digits and its exponent, if it has them.\<close>

definition scan_frac :: "string \<Rightarrow> string option \<times> string" where
  "scan_frac s = (case s of
       c # d # r \<Rightarrow> if c = CHR ''.'' \<and> is_digit d then (Some (takeWhile is_digit (d # r)), dropWhile is_digit (d # r)) else (None, s)
     | _ \<Rightarrow> (None, s))"

definition scan_exp :: "string \<Rightarrow> int option \<times> string" where
  "scan_exp s = (case s of [] \<Rightarrow> (None, s)
     | c # r \<Rightarrow>
         if c \<noteq> CHR ''e'' \<and> c \<noteq> CHR ''E'' then (None, s)
         else let signed = r \<noteq> [] \<and> hd r \<in> {CHR ''-'', CHR ''+''};
                  r' = (if signed then tl r else r);
                  ds = takeWhile is_digit r'
              in if ds = [] then (None, s)
                 else (Some (if signed \<and> hd r = CHR ''-'' then - int (nat_of_digits ds) else int (nat_of_digits ds)), dropWhile is_digit r'))"

text \<open>\<^verbatim>\<open>int\<close> of a text of more than 4300 digits raises \<^verbatim>\<open>ValueError\<close>; \<^verbatim>\<open>float\<close> rounds to the nearest double.\<close>

definition number_value :: "bool \<Rightarrow> string \<Rightarrow> string option \<Rightarrow> int option \<Rightarrow> pyval res" where
  "number_value negative ds fpart ex =
     (if fpart = None \<and> ex = None then
        (if 4300 < length ds then Inl (PyValueError ''Exceeds the limit (4300 digits) for integer string conversion'')
         else Inr (PInt (if negative then - int (nat_of_digits ds) else int (nat_of_digits ds))))
      else let fs = (case fpart of None \<Rightarrow> [] | Some f \<Rightarrow> f);
               e = (case ex of None \<Rightarrow> 0 | Some k \<Rightarrow> k) - int (length fs);
               m = rat_of_int (int (nat_of_digits (ds @ fs)))
           in Inr (PFloat (round_double negative (if 0 \<le> e then m * 10 ^ nat e else m / 10 ^ nat (- e)))))"

definition scan_number :: "string \<Rightarrow> (pyval \<times> string) res" where
  "scan_number s =
     (let negative = (s \<noteq> [] \<and> hd s = CHR ''-''); s1 = (if negative then tl s else s)
      in case s1 of [] \<Rightarrow> Inl json_error
        | c # r \<Rightarrow>
            if \<not> is_digit c then Inl json_error
            else let ds = (if c = CHR ''0'' then [c] else takeWhile is_digit s1);
                     r1 = (if c = CHR ''0'' then r else dropWhile is_digit s1)
                 in case scan_frac r1 of (fpart, r2) \<Rightarrow> (case scan_exp r2 of (ex, r3) \<Rightarrow>
                      bindr (number_value negative ds fpart ex) (\<lambda>v. Inr (v, r3))))"

record json_hooks =
  pairs_hook :: "(string \<times> pyval) list \<Rightarrow> pyval res"
  constant_hook :: "string \<Rightarrow> pyval res"

fun scan_items :: "(string \<Rightarrow> (pyval \<times> string) res) \<Rightarrow> nat \<Rightarrow> string \<Rightarrow> (pyval list \<times> string) res" where
  "scan_items f 0 s = Inl json_error"
| "scan_items f (Suc n) s = bindr (f s) (\<lambda>(v, r).
     (case skip_ws r of [] \<Rightarrow> Inl json_error
      | c # r' \<Rightarrow>
          if c = CHR '']'' then Inr ([v], r')
          else if c = CHR '','' then bindr (scan_items f n (skip_ws r')) (\<lambda>(vs, r''). Inr (v # vs, r''))
          else Inl json_error))"

fun scan_members :: "(string \<Rightarrow> (pyval \<times> string) res) \<Rightarrow> nat \<Rightarrow> string \<Rightarrow> ((string \<times> pyval) list \<times> string) res" where
  "scan_members f 0 s = Inl json_error"
| "scan_members f (Suc n) s = (case s of [] \<Rightarrow> Inl json_error
     | q # s' \<Rightarrow>
         if q \<noteq> CHR 34 then Inl json_error
         else bindr (scan_string s') (\<lambda>(k, r).
           (case skip_ws r of [] \<Rightarrow> Inl json_error
            | c # r' \<Rightarrow>
                if c \<noteq> CHR '':'' then Inl json_error
                else bindr (f (skip_ws r')) (\<lambda>(v, t).
                  (case skip_ws t of [] \<Rightarrow> Inl json_error
                   | d # t' \<Rightarrow>
                       if d = CHR ''}'' then Inr ([(k, v)], t')
                       else if d = CHR '','' then bindr (scan_members f n (skip_ws t')) (\<lambda>(kvs, t''). Inr ((k, v) # kvs, t''))
                       else Inl json_error)))))"

text \<open>An array or object after its opening bracket; every item takes a character, so the length is enough fuel.\<close>

definition scan_array :: "(string \<Rightarrow> (pyval \<times> string) res) \<Rightarrow> string \<Rightarrow> (pyval list \<times> string) res" where
  "scan_array f s = (let t = skip_ws s in
     if t \<noteq> [] \<and> hd t = CHR '']'' then Inr ([], tl t) else scan_items f (Suc (length t)) t)"

definition scan_object :: "(string \<Rightarrow> (pyval \<times> string) res) \<Rightarrow> string \<Rightarrow> ((string \<times> pyval) list \<times> string) res" where
  "scan_object f s = (let t = skip_ws s in
     if t \<noteq> [] \<and> hd t = CHR ''}'' then Inr ([], tl t) else scan_members f (Suc (length t)) t)"

definition literals :: "(string \<times> pyval) list" where
  "literals = [(''null'', PNone), (''true'', PBool True), (''false'', PBool False)]"

definition constants :: "string list" where
  "constants = [''NaN'', ''Infinity'', ''-Infinity'']"

definition scan_step :: "json_hooks \<Rightarrow> (string \<Rightarrow> (pyval \<times> string) res) option \<Rightarrow> string \<Rightarrow> (pyval \<times> string) res" where
  "scan_step h deeper s = (case s of [] \<Rightarrow> Inl json_error
     | c # r \<Rightarrow>
         if c = CHR 34 then bindr (scan_string r) (\<lambda>(t, r'). Inr (PStr t, r'))
         else if c = CHR ''{'' then
           (case deeper of None \<Rightarrow> Inl PyRecursionError
            | Some f \<Rightarrow> bindr (scan_object f r) (\<lambda>(kvs, r'). bindr (pairs_hook h kvs) (\<lambda>v. Inr (v, r'))))
         else if c = CHR ''['' then
           (case deeper of None \<Rightarrow> Inl PyRecursionError
            | Some f \<Rightarrow> bindr (scan_array f r) (\<lambda>(vs, r'). Inr (PList vs, r')))
         else case find (\<lambda>(w, v). starts_with w s) literals of
             Some (w, v) \<Rightarrow> Inr (v, drop (length w) s)
           | None \<Rightarrow> (case find (\<lambda>w. starts_with w s) constants of
                 Some w \<Rightarrow> bindr (constant_hook h w) (\<lambda>v. Inr (v, drop (length w) s))
               | None \<Rightarrow> scan_number s))"

text \<open>The number argument is the recursion limit: how many containers may be open.\<close>

primrec scan_value :: "json_hooks \<Rightarrow> nat \<Rightarrow> string \<Rightarrow> (pyval \<times> string) res" where
  "scan_value h 0 = scan_step h None"
| "scan_value h (Suc d) = scan_step h (Some (scan_value h d))"

definition json_loads :: "json_hooks \<Rightarrow> nat \<Rightarrow> string \<Rightarrow> pyval res" where
  "json_loads h limit text = bindr (scan_value h limit (skip_ws text)) (\<lambda>(v, r).
     if skip_ws r = [] then Inr v else Inl json_error)"

section \<open>The strict reader\<close>

definition MAX_JSON_CONTAINER_DEPTH :: nat where
  "MAX_JSON_CONTAINER_DEPTH = 128"

definition MAX_JSON_STRUCTURAL_TOKENS :: nat where
  "MAX_JSON_STRUCTURAL_TOKENS = 500000"

definition json_object_without_duplicates :: "(string \<times> pyval) list \<Rightarrow> pyval res" where
  "json_object_without_duplicates pairs =
     (if distinct (map fst pairs) then Inr (PDict (map (\<lambda>(k, v). (PStr k, v)) pairs))
      else Inl (PyValueError ''duplicate JSON member name''))"

definition reject_non_json_numeric_constant :: "string \<Rightarrow> pyval res" where
  "reject_non_json_numeric_constant c = Inl (PyValueError ''non-standard JSON numeric constant'')"

text \<open>\<^verbatim>\<open>None\<close> is no limit on the depth; the stack holds the opening brackets.\<close>

fun token_scan :: "nat option \<Rightarrow> bool \<Rightarrow> bool \<Rightarrow> nat \<Rightarrow> string \<Rightarrow> string \<Rightarrow> unit res" where
  "token_scan max_depth in_string escaped n stack [] = Inr ()"
| "token_scan max_depth in_string escaped n stack (c # s) =
     (if in_string then
        (if escaped then token_scan max_depth True False n stack s
         else if c = CHR 92 then token_scan max_depth True True n stack s
         else token_scan max_depth (c \<noteq> CHR 34) False n stack s)
      else if c = CHR 34 then token_scan max_depth True escaped n stack s
      else if c \<in> set ''{}[],:'' then
        (if MAX_JSON_STRUCTURAL_TOKENS < Suc n then Inl (PyValueError ''JSON structural tokens over the limit'')
         else case max_depth of None \<Rightarrow> token_scan max_depth False escaped (Suc n) stack s
           | Some d \<Rightarrow>
               if c \<in> set ''{['' then
                 (if d < Suc (length stack) then Inl (PyValueError ''JSON container depth over the limit'')
                  else token_scan max_depth False escaped (Suc n) (c # stack) s)
               else if c \<in> set ''}]'' \<and> stack \<noteq> [] \<and> hd stack = (if c = CHR ''}'' then CHR ''{'' else CHR ''['')
                 then token_scan max_depth False escaped (Suc n) (tl stack) s
               else token_scan max_depth False escaped (Suc n) stack s)
      else token_scan max_depth False escaped n stack s)"

definition check_json_structural_token_budget :: "nat option \<Rightarrow> string \<Rightarrow> unit res" where
  "check_json_structural_token_budget max_depth text = token_scan max_depth False False 0 [] text"

text \<open>A string over the code points 0 to 255 has no surrogates, so only floats and depth can be refused.\<close>

fun interoperable :: "nat \<Rightarrow> pyval \<Rightarrow> bool" where
  "interoperable d (PFloat f) = (f \<notin> {PosInf, NegInf, NaN})"
| "interoperable d (PDict kvs) =
     (Suc d \<le> MAX_JSON_CONTAINER_DEPTH \<and> list_all (\<lambda>(k, v). interoperable (Suc d) k \<and> interoperable (Suc d) v) kvs)"
| "interoperable d (PList xs) = (Suc d \<le> MAX_JSON_CONTAINER_DEPTH \<and> list_all (interoperable (Suc d)) xs)"
| "interoperable d v = True"

definition reject_non_interoperable_values :: "pyval \<Rightarrow> unit res" where
  "reject_non_interoperable_values v = raise_when (\<not> interoperable 0 v) (PyValueError ''value is not interoperable'')"

definition strict_hooks :: json_hooks where
  "strict_hooks = \<lparr>pairs_hook = json_object_without_duplicates, constant_hook = reject_non_json_numeric_constant\<rparr>"

definition loads_json_value :: "nat \<Rightarrow> string \<Rightarrow> pyval res" where
  "loads_json_value limit text =
     bindr (check_json_structural_token_budget None text) (\<lambda>_.
     bindr (json_loads strict_hooks limit text) (\<lambda>v.
     bindr (reject_non_interoperable_values v) (\<lambda>_. Inr v)))"

section \<open>Reading back what was printed\<close>

text \<open>The Python value that a JSON value is read as.\<close>

fun pyval_of :: "json \<Rightarrow> pyval" where
  "pyval_of JNull = PNone"
| "pyval_of (JBool b) = PBool b"
| "pyval_of (JInt i) = PInt i"
| "pyval_of (JNum s) = PNone"
| "pyval_of (JStr s) = PStr s"
| "pyval_of (JList xs) = PList (map pyval_of xs)"
| "pyval_of (JObj kvs) = PDict (map (\<lambda>(k, v). (PStr k, pyval_of v)) kvs)"

text \<open>Without floats, with distinct member names and with integers the reader converts.\<close>

fun plain_json :: "json \<Rightarrow> bool" where
  "plain_json (JNum s) = False"
| "plain_json (JInt i) = (length (string_of_nat (nat \<bar>i\<bar>)) \<le> 4300)"
| "plain_json (JList xs) = list_all plain_json xs"
| "plain_json (JObj kvs) = (distinct (map fst kvs) \<and> list_all (\<lambda>(k, v). plain_json v) kvs)"
| "plain_json j = True"

fun json_depth :: "json \<Rightarrow> nat" where
  "json_depth (JList xs) = Suc (Max (set (0 # map json_depth xs)))"
| "json_depth (JObj kvs) = Suc (Max (set (0 # map (\<lambda>(k, v). json_depth v) kvs)))"
| "json_depth j = 0"

lemma hex_code_hex_digit: "d < 16 \<Longrightarrow> hex_code (hex_digit d) = Some d"
  by (auto simp: hex_code_def Let_def of_char_hex_digit)

lemma scan_string_esc_char: "scan_string (esc_char a c @ t) = add_char c (scan_string t)"
proof -
  have z: "hex_code (CHR ''0'') = Some 0" by code_simp
  have "(of_char c :: nat) div 16 * 16 + of_char c mod 16 = of_char c" by simp
  then have u: "scan_string (esc_u c @ t) = add_char c (scan_string t)"
    using nat_of_char_less_256 [of c]
    by (simp add: esc_u_def hex4_def z hex_code_hex_digit of_char_parts del: div_mult_mod_eq)
  have s: "scan_string ([CHR 92, x] @ t) = add_char y (scan_string t)" if "unescape x = Some y" for x y
    using that by (auto simp: unescape_def split: if_splits)
  have p: "scan_string ([c] @ t) = add_char c (scan_string t)"
    if "c \<noteq> CHR 34" "c \<noteq> CHR 92" "\<not> (of_char c :: nat) < 32"
    using that by simp
  consider x where "esc_char a c = [CHR 92, x]" "unescape x = Some c" | "esc_char a c = esc_u c"
    | "esc_char a c = [c]" "c \<noteq> CHR 34" "c \<noteq> CHR 92" "\<not> (of_char c :: nat) < 32"
  proof -
    have "unescape (CHR 34) = Some (CHR 34)" "unescape (CHR 92) = Some (CHR 92)" "unescape (CHR ''n'') = Some (CHR 10)"
      "unescape (CHR ''r'') = Some (CHR 13)" "unescape (CHR ''t'') = Some (CHR 9)" "unescape (CHR ''f'') = Some (CHR 12)"
      "unescape (CHR ''b'') = Some (CHR 8)" by code_simp+
    note e = this
    show thesis
    proof (cases "c \<in> {CHR 34, CHR 92, CHR 10, CHR 13, CHR 9, CHR 12, CHR 8}")
      case True
      then have "\<exists>x. esc_char a c = [CHR 92, x] \<and> unescape x = Some c"
        by (elim insertE emptyE) (simp_all add: esc_char_def e)
      with that(1) show thesis by blast
    next
      case False
      then have "esc_char a c = (if (of_char c :: nat) < 32 \<or> a \<and> 126 < (of_char c :: nat) then esc_u c else [c])"
        by (simp add: esc_char_def)
      with False that(2,3) show thesis by (auto split: if_splits)
    qed
  qed
  then show ?thesis
  proof cases
    case (1 x)
    show ?thesis unfolding 1(1) by (rule s [OF 1(2)])
  next
    case 2
    show ?thesis unfolding 2 by (rule u)
  next
    case 3
    show ?thesis unfolding 3(1) by (rule p [OF 3(2-4)])
  qed
qed

lemma scan_string_text: "scan_string (concat (map (esc_char a) s) @ CHR 34 # r) = Inr (s, r)"
proof (induction s)
  case Nil
  show ?case by simp
next
  case (Cons c s)
  have "scan_string (concat (map (esc_char a) (c # s)) @ CHR 34 # r)
      = add_char c (scan_string (concat (map (esc_char a) s) @ CHR 34 # r))"
    by (simp only: list.map concat.simps append_assoc scan_string_esc_char)
  then show ?case by (simp only: Cons.IH) (simp add: add_char_def)
qed

declare scan_string.simps [simp del]

lemma string_of_nat_zero_hd: "hd (string_of_nat n) = CHR ''0'' \<Longrightarrow> n = 0"
proof (induction n rule: string_of_nat.induct)
  case (1 n)
  show ?case
  proof (cases "n < 10")
    case True
    have "digit_char n = CHR ''0'' \<Longrightarrow> n = 0"
      using True by (auto simp: digit_char_def of_char_of take_bit_nat_def dest!: arg_cong [of _ _ "of_char :: char \<Rightarrow> nat"])
    with 1 True show ?thesis by (subst (asm) string_of_nat.simps) simp
  next
    case False
    then have "hd (string_of_nat n) = hd (string_of_nat (n div 10))" by (subst string_of_nat.simps) simp
    with 1 False have "n div 10 = 0" by simp
    with False show ?thesis by simp
  qed
qed

lemma follows_no_number: "follows r \<Longrightarrow> scan_frac r = (None, r) \<and> scan_exp r = (None, r) \<and> (r = [] \<or> \<not> is_digit (hd r))"
proof (cases r)
  case (Cons c s)
  assume "follows r"
  then have c: "c \<in> {CHR '','', CHR '']'', CHR ''}''}" by (simp add: follows_def Cons)
  moreover have "\<not> is_digit (CHR '','')" "\<not> is_digit (CHR '']'')" "\<not> is_digit (CHR ''}'')" by code_simp+
  ultimately have "c \<noteq> CHR ''.''" "c \<noteq> CHR ''e''" "c \<noteq> CHR ''E''" "\<not> is_digit c" by auto
  then show ?thesis by (simp add: Cons scan_frac_def scan_exp_def split: list.split)
qed (simp add: scan_frac_def scan_exp_def)
lemma scan_number_nat:
  assumes "follows r" "length (string_of_nat n) \<le> 4300"
  shows "scan_number (string_of_nat n @ r) = Inr (PInt (int n), r)"
    and "scan_number (CHR ''-'' # string_of_nat n @ r) = Inr (PInt (- int n), r)"
proof -
  note f = follows_no_number [OF assms(1)]
  let ?d = "string_of_nat n"
  obtain c cs where d: "?d = c # cs" by (cases ?d) auto
  have dig: "is_digit c" "list_all is_digit cs" using string_of_nat_digits [of n] by (simp_all add: d)
  have nm: "c \<noteq> CHR ''-''" using dig(1) by (auto simp: is_digit_def Let_def)
  have run: "takeWhile is_digit (?d @ r) = ?d" "dropWhile is_digit (?d @ r) = r"
    using f string_of_nat_digits [of n] by (cases r; auto simp: takeWhile_append2 dropWhile_append2 list_all_iff)+
  have zero: "?d = ''0''" if "c = CHR ''0''"
  proof -
    have "n = 0" using string_of_nat_zero_hd [of n] that by (simp add: d)
    then show ?thesis by simp code_simp
  qed
  have v: "number_value neg ?d None None = Inr (PInt (if neg then - int n else int n))" for neg
    using assms(2) by (simp add: number_value_def)
  show "scan_number (?d @ r) = Inr (PInt (int n), r)"
    using run f v nm dig zero by (cases "c = CHR ''0''") (auto simp: scan_number_def Let_def d)
  show "scan_number (CHR ''-'' # ?d @ r) = Inr (PInt (- int n), r)"
    using run f v nm dig zero by (cases "c = CHR ''0''") (auto simp: scan_number_def Let_def d)
qed

lemma skip_ws_simps [simp]:
  "skip_ws [] = []"
  "\<not> is_ws c \<Longrightarrow> skip_ws (c # s) = c # s"
  "list_all is_ws sp \<Longrightarrow> skip_ws (sp @ s) = skip_ws s"
  "list_all is_ws sp \<Longrightarrow> skip_ws sp = []"
  by (auto simp: skip_ws_def list_all_iff dropWhile_append2 dropWhile_eq_Nil_conv)

lemma punctuation_not_ws [simp]:
  "\<not> is_ws (CHR '','')" "\<not> is_ws (CHR '']'')" "\<not> is_ws (CHR ''}'')" "\<not> is_ws (CHR '':'')" "\<not> is_ws (CHR 34)"
  "\<not> is_ws (CHR ''['')" "\<not> is_ws (CHR ''{'')"
  by code_simp+

lemma plain_json_float_free: "plain_json j \<Longrightarrow> float_free j"
  by (induction j) (auto simp: list_all_iff)

lemma render_hd_not_ws: "float_free j \<Longrightarrow> render a sp j \<noteq> [] \<and> \<not> is_ws (hd (render a sp j))"
proof (cases j)
  case (JInt i)
  have "\<not> is_ws c" if "is_digit c \<or> c = CHR ''-''" for c
    using that by (auto simp: is_ws_def is_digit_def)
  with JInt string_of_int_hd [of i] show ?thesis by auto
next
  case (JBool b)
  have "\<not> is_ws (CHR ''t'')" "\<not> is_ws (CHR ''f'')" by code_simp+
  with JBool show ?thesis by simp
next
  case JNull
  have "\<not> is_ws (CHR ''n'')" by code_simp
  with JNull show ?thesis by simp
qed (simp_all add: json_str_def)

lemma skip_ws_text: "t \<noteq> [] \<Longrightarrow> \<not> is_ws (hd t) \<Longrightarrow> skip_ws (t @ s) = t @ s"
  by (cases t) simp_all

lemma join_cons: "join sep (x # xs) = x @ (if xs = [] then [] else sep @ join sep xs)"
  by (cases xs) simp_all

lemma scan_items_join:
  assumes "\<And>x r. x \<in> set xs \<Longrightarrow> follows r \<Longrightarrow> f (g x @ r) = Inr (h x, r)"
    and "\<And>x. x \<in> set xs \<Longrightarrow> g x \<noteq> [] \<and> \<not> is_ws (hd (g x))" and "list_all is_ws sp"
    and "xs \<noteq> []" and "length xs \<le> n"
  shows "scan_items f n (join ('','' @ sp) (map g xs) @ CHR '']'' # r) = Inr (map h xs, r)"
  using assms
proof (induction xs arbitrary: n)
  case (Cons x xs)
  then obtain m where n: "n = Suc m" by (cases n) simp_all
  show ?case
  proof (cases "xs = []")
    case True
    then show ?thesis using Cons.prems(1) [of x] by (simp add: n)
  next
    case False
    let ?rest = "join ('','' @ sp) (map g xs) @ CHR '']'' # r"
    have "f (g x @ CHR '','' # sp @ ?rest) = Inr (h x, CHR '','' # sp @ ?rest)"
      by (rule Cons.prems(1)) simp_all
    moreover have "skip_ws ?rest = ?rest"
      using False Cons.prems(2) by (cases xs) (simp_all add: join_cons skip_ws_text)
    moreover have "scan_items f m ?rest = Inr (map h xs, r)"
      by (rule Cons.IH) (use Cons.prems False n in auto)
    ultimately show ?thesis using False Cons.prems(3) by (simp add: n join_cons)
  qed
qed simp

lemma scan_members_join:
  assumes "\<And>k v r. (k, v) \<in> set kvs \<Longrightarrow> follows r \<Longrightarrow> f (g v @ r) = Inr (h v, r)"
    and "\<And>k v. (k, v) \<in> set kvs \<Longrightarrow> g v \<noteq> [] \<and> \<not> is_ws (hd (g v))" and "list_all is_ws sp"
    and "kvs \<noteq> []" and "length kvs \<le> n"
  shows "scan_members f n (join ('','' @ sp) (map (\<lambda>(k, v). json_str a k @ '':'' @ sp @ g v) kvs) @ CHR ''}'' # r)
    = Inr (map (\<lambda>(k, v). (k, h v)) kvs, r)"
  using assms
proof (induction kvs arbitrary: n)
  case (Cons kv kvs)
  then obtain m where n: "n = Suc m" by (cases n) simp_all
  obtain k v where kv: "kv = (k, v)" by (cases kv)
  let ?g = "\<lambda>(k, v). json_str a k @ '':'' @ sp @ g v"
  let ?rest = "join ('','' @ sp) (map ?g kvs) @ CHR ''}'' # r"
  let ?tail = "if kvs = [] then CHR ''}'' # r else CHR '','' # sp @ ?rest"
  have shape: "join ('','' @ sp) (map ?g (kv # kvs)) @ CHR ''}'' # r
      = CHR 34 # concat (map (esc_char a) k) @ CHR 34 # CHR '':'' # sp @ g v @ ?tail"
    by (simp add: join_cons kv json_str_def)
  have "f (g v @ ?tail) = Inr (h v, ?tail)" by (rule Cons.prems(1) [of k]) (simp_all add: kv)
  moreover have "skip_ws (sp @ g v @ ?tail) = g v @ ?tail"
  proof -
    have "g v \<noteq> [] \<and> \<not> is_ws (hd (g v))" by (rule Cons.prems(2) [of k]) (simp add: kv)
    then have "skip_ws (g v @ ?tail) = g v @ ?tail" by (intro skip_ws_text) blast+
    with Cons.prems(3) show ?thesis by (simp only: skip_ws_simps)
  qed
  moreover have "skip_ws ?rest = ?rest \<and> scan_members f m ?rest = Inr (map (\<lambda>(k, v). (k, h v)) kvs, r)" if "kvs \<noteq> []"
  proof
    show "skip_ws ?rest = ?rest" using that by (cases kvs) (auto simp: join_cons json_str_def)
    show "scan_members f m ?rest = Inr (map (\<lambda>(k, v). (k, h v)) kvs, r)"
    proof (rule Cons.IH)
      show "f (g v @ r) = Inr (h v, r)" if "(k, v) \<in> set kvs" "follows r" for k v r
        using that by (intro Cons.prems(1) [of k]) simp_all
      show "g v \<noteq> [] \<and> \<not> is_ws (hd (g v))" if "(k, v) \<in> set kvs" for k v
        using that by (intro Cons.prems(2) [of k]) simp
    qed (use Cons.prems(3,5) that n in simp_all)
  qed
  ultimately show ?case
    unfolding shape n using Cons.prems(3) by (auto simp: scan_string_text kv)
qed simp

lemma length_join: "(\<And>x. x \<in> set xs \<Longrightarrow> g x \<noteq> []) \<Longrightarrow> length xs \<le> length (join sep (map g xs))"
proof (induction xs)
  case (Cons x xs)
  then have "length xs \<le> length (join sep (map g xs))" "1 \<le> length (g x)" by (auto simp: Suc_le_eq)
  then show ?case by (cases "xs = []") (auto simp: join_cons)
qed simp

lemma scan_array_open:
  "t \<noteq> [] \<Longrightarrow> \<not> is_ws (hd t) \<Longrightarrow> hd t \<noteq> CHR '']'' \<Longrightarrow> scan_array f t = scan_items f (Suc (length t)) t"
  by (cases t) (simp_all only: scan_array_def Let_def skip_ws_simps list.sel if_False simp_thms)

lemma scan_object_open:
  "t \<noteq> [] \<Longrightarrow> hd t = CHR 34 \<Longrightarrow> scan_object f t = scan_members f (Suc (length t)) t"
  by (cases t) (auto simp: scan_object_def Let_def simp del: scan_members.simps)

lemma json_depth_Suc:
  "json_depth (JList xs) \<le> Suc d \<longleftrightarrow> (\<forall>x\<in>set xs. json_depth x \<le> d)"
  "json_depth (JObj kvs) \<le> Suc d \<longleftrightarrow> (\<forall>(k, v)\<in>set kvs. json_depth v \<le> d)"
  by auto

theorem scan_render:
  assumes "plain_json j" "json_depth j \<le> d" "list_all is_ws sp" "follows r"
  shows "scan_value strict_hooks d (render a sp j @ r) = Inr (pyval_of j, r)"
  using assms
proof (induction j arbitrary: d r)
  case JNull
  then show ?case by (cases d) (simp_all add: scan_step_def literals_def starts_with_def)
next
  case (JBool b)
  then show ?case by (cases d; cases b) (simp_all add: scan_step_def literals_def starts_with_def)
next
  case (JNum s)
  then show ?case by simp
next
  case (JStr s)
  then show ?case by (cases d) (simp_all add: scan_step_def json_str_def scan_string_text)
next
  case (JInt i)
  obtain c cs where c: "string_of_int i = c # cs" "is_digit c \<or> c = CHR ''-''"
    using string_of_int_hd [of i] by (cases "string_of_int i") auto
  have other: "c \<noteq> CHR 34" "c \<noteq> CHR ''{''" "c \<noteq> CHR ''[''" "c \<notin> set ''ntfNI''"
    using c(2) by (auto simp: is_digit_def)
  have lit: "find (\<lambda>(w, v). starts_with w (c # t)) literals = None" for t
    using other(4) by (simp add: literals_def starts_with_def)
  have con: "find (\<lambda>w. starts_with w (string_of_int i @ r)) constants = None"
  proof -
    have m: "\<not> starts_with ''-Infinity'' (CHR ''-'' # string_of_nat n @ r)" for n
      using string_of_nat_digits [of n] by (cases "string_of_nat n") (auto simp: starts_with_def is_digit_def)
    have "\<not> starts_with ''-Infinity'' (string_of_int i @ r)"
    proof (cases "i < 0")
      case True
      then show ?thesis using m [of "nat (- i)"] by (simp add: string_of_int_def)
    next
      case False
      then have "is_digit c" using c(1) string_of_nat_digits [of "nat i"] by (simp add: string_of_int_def)
      then have "c \<noteq> CHR ''-''" by (auto simp: is_digit_def)
      then show ?thesis by (simp add: c(1) starts_with_def)
    qed
    moreover have "\<not> starts_with ''NaN'' (string_of_int i @ r)" "\<not> starts_with ''Infinity'' (string_of_int i @ r)"
      using other(4) by (simp_all add: c(1) starts_with_def)
    ultimately show ?thesis by (simp add: constants_def)
  qed
  have "scan_number (string_of_int i @ r) = Inr (PInt i, r)"
    using JInt scan_number_nat [of r "nat \<bar>i\<bar>"] by (cases "i < 0") (auto simp: string_of_int_def)
  then have "scan_step strict_hooks deeper (string_of_int i @ r) = Inr (PInt i, r)" for deeper
    using con other lit by (simp add: scan_step_def c(1))
  then show ?case by (cases d) simp_all
next
  case (JList xs)
  then obtain e where d: "d = Suc e" by (cases d) auto
  have item: "scan_value strict_hooks e (render a sp x @ r) = Inr (pyval_of x, r)" if "x \<in> set xs" "follows r" for x r
    by (rule JList.IH) (use that JList.prems d json_depth_Suc(1) in \<open>auto simp: list_all_iff\<close>)
  have open_: "render a sp x \<noteq> [] \<and> \<not> is_ws (hd (render a sp x)) \<and> hd (render a sp x) \<noteq> CHR '']''" if "x \<in> set xs" for x
    using that JList.prems(1) render_hd_not_ws [of x a sp] render_not_closing [of x a sp] plain_json_float_free [of x] float_free_floats_ok [of x]
    by (auto simp: list_all_iff)
  let ?t = "join ('','' @ sp) (map (render a sp) xs) @ CHR '']'' # r"
  have "scan_array (scan_value strict_hooks e) ?t = Inr (map pyval_of xs, r)"
  proof (cases xs)
    case Nil
    then show ?thesis by (simp add: scan_array_def)
  next
    case (Cons y ys)
    then have "?t \<noteq> [] \<and> \<not> is_ws (hd ?t) \<and> hd ?t \<noteq> CHR '']''" using open_ [of y] by (simp add: join_cons)
    moreover have "scan_items (scan_value strict_hooks e) (Suc (length ?t)) ?t = Inr (map pyval_of xs, r)"
      by (rule scan_items_join [OF item _ JList.prems(3)])
        (use open_ Cons length_join [of xs "render a sp" "'','' @ sp"] in auto)
    ultimately show ?thesis using scan_array_open [of ?t] by (simp only: simp_thms)
  qed
  then show ?case by (simp add: d scan_step_def)
next
  case (JObj kvs)
  then obtain e where d: "d = Suc e" by (cases d) auto
  have sub: "plain_json v \<and> json_depth v \<le> e" if "(k, v) \<in> set kvs" for k v
    using that JObj.prems(1,2) json_depth_Suc(2) [of kvs e] by (auto simp: list_all_iff d)
  have item: "scan_value strict_hooks e (render a sp v @ r) = Inr (pyval_of v, r)" if "(k, v) \<in> set kvs" "follows r" for k v r
    by (rule JObj.IH [OF that(1)]) (use that sub [OF that(1)] JObj.prems in auto)
  have open_: "render a sp v \<noteq> [] \<and> \<not> is_ws (hd (render a sp v))" if "(k, v) \<in> set kvs" for k v
    using sub [OF that] render_hd_not_ws [of v a sp] plain_json_float_free by blast
  let ?g = "\<lambda>(k, v). json_str a k @ '':'' @ sp @ render a sp v"
  let ?t = "join ('','' @ sp) (map ?g kvs) @ CHR ''}'' # r"
  have "scan_object (scan_value strict_hooks e) ?t = Inr (map (\<lambda>(k, v). (k, pyval_of v)) kvs, r)"
  proof (cases kvs)
    case Nil
    then show ?thesis by (simp add: scan_object_def)
  next
    case (Cons y ys)
    then have "?t \<noteq> [] \<and> hd ?t = CHR 34" by (cases y) (simp add: join_cons json_str_def)
    moreover have "scan_members (scan_value strict_hooks e) (Suc (length ?t)) ?t = Inr (map (\<lambda>(k, v). (k, pyval_of v)) kvs, r)"
      by (rule scan_members_join [OF item open_ JObj.prems(3)])
        (use Cons length_join [of kvs ?g "'','' @ sp"] in \<open>auto simp: json_str_def split: prod.splits\<close>)
    ultimately show ?thesis using scan_object_open [of ?t] by (simp only: simp_thms)
  qed
  moreover have "map fst (map (\<lambda>(k, v). (k, pyval_of v)) kvs) = map fst kvs" by (simp add: case_prod_beta)
  then have "json_object_without_duplicates (map (\<lambda>(k, v). (k, pyval_of v)) kvs) = Inr (pyval_of (JObj kvs))"
    using JObj.prems(1) by (simp add: json_object_without_duplicates_def case_prod_beta comp_def)
  ultimately show ?case by (simp add: d scan_step_def strict_hooks_def)
qed

lemma json_depth_member:
  "x \<in> set xs \<Longrightarrow> json_depth x < json_depth (JList xs)"
  "(k, v) \<in> set kvs \<Longrightarrow> json_depth v < json_depth (JObj kvs)"
  by (force simp: less_Suc_eq_le intro!: Max_ge)+

lemma interoperable_pyval_of: "plain_json j \<Longrightarrow> d + json_depth j \<le> MAX_JSON_CONTAINER_DEPTH \<Longrightarrow> interoperable d (pyval_of j)"
proof (induction j arbitrary: d)
  case (JList xs)
  have "interoperable (Suc d) (pyval_of x)" if "x \<in> set xs" for x
    by (rule JList.IH [OF that]) (use that JList.prems json_depth_member(1) [OF that] in \<open>simp_all add: list_all_iff del: json_depth.simps\<close>)
  then show ?case using JList.prems by (auto simp: list_all_iff)
next
  case (JObj kvs)
  have "interoperable (Suc d) (pyval_of v)" if "(k, v) \<in> set kvs" for k v
    by (rule JObj.IH [OF that]) (use that JObj.prems json_depth_member(2) [OF that] in \<open>auto simp add: list_all_iff simp del: json_depth.simps\<close>)
  then show ?case using JObj.prems by (auto simp: list_all_iff)
qed simp_all

text \<open>
  Reading back the printed text of a value gives the value, when the text keeps the limit on punctuation and the
  value the limit on nesting.
\<close>

theorem loads_json_value_render:
  assumes "plain_json j" "json_depth j \<le> MAX_JSON_CONTAINER_DEPTH" "json_depth j \<le> limit" "list_all is_ws sp"
    and "check_json_structural_token_budget None (render a sp j) = Inr ()"
  shows "loads_json_value limit (render a sp j) = Inr (pyval_of j)"
proof -
  have "skip_ws (render a sp j) = render a sp j"
    using skip_ws_text [of "render a sp j" "[]"] render_hd_not_ws [OF plain_json_float_free [OF assms(1)], of a sp] by simp
  moreover have "scan_value strict_hooks limit (render a sp j) = Inr (pyval_of j, [])"
    using scan_render [OF assms(1,3,4), of "[]" a] by simp
  ultimately show ?thesis
    using assms(5) interoperable_pyval_of [OF assms(1), of 0] assms(2)
    by (simp add: loads_json_value_def json_loads_def reject_non_interoperable_values_def raise_when_def)
qed

section \<open>What the strict reader returns\<close>

text \<open>Values made of JSON constructors, whose objects have distinct string keys.\<close>

fun json_val :: "pyval \<Rightarrow> bool" where
  "json_val (PList xs) = list_all json_val xs"
| "json_val (PDict kvs) = (distinct (map fst kvs) \<and> list_all (\<lambda>(k, v). (\<exists>s. k = PStr s) \<and> json_val v) kvs)"
| "json_val v = (case v of PNone \<Rightarrow> True | PBool _ \<Rightarrow> True | PInt _ \<Rightarrow> True | PFloat _ \<Rightarrow> True | PStr _ \<Rightarrow> True | _ \<Rightarrow> False)"

lemma scan_items_vals:
  assumes "\<And>s v r. f s = Inr (v, r) \<Longrightarrow> json_val v"
  shows "scan_items f n s = Inr (vs, r) \<Longrightarrow> list_all json_val vs"
proof (induction n arbitrary: s vs r)
  case (Suc n)
  obtain v t where v: "f s = Inr (v, t)" using Suc.prems by (cases "f s") auto
  with Suc.prems obtain c t' where c: "skip_ws t = c # t'" by (cases "skip_ws t") auto
  with Suc.prems v have "vs = [v] \<or> (\<exists>ws u r'. scan_items f n u = Inr (ws, r') \<and> vs = v # ws)"
    by (auto split: if_splits)
  then show ?case using assms [OF v] Suc.IH by auto
qed simp

lemma scan_members_vals:
  assumes "\<And>s v r. f s = Inr (v, r) \<Longrightarrow> json_val v"
  shows "scan_members f n s = Inr (kvs, r) \<Longrightarrow> list_all (\<lambda>(k, v). json_val v) kvs"
proof (induction n arbitrary: s kvs r)
  case (Suc n)
  obtain q s' where s: "s = q # s'" "q = CHR 34" using Suc.prems by (cases s) (auto split: if_splits)
  with Suc.prems obtain k t where k: "scan_string s' = Inr (k, t)" by (cases "scan_string s'") auto
  with Suc.prems s obtain t' where t: "skip_ws t = CHR '':'' # t'" by (cases "skip_ws t") (auto split: if_splits)
  with Suc.prems s k obtain v u where v: "f (skip_ws t') = Inr (v, u)" by (cases "f (skip_ws t')") auto
  with Suc.prems s k t obtain c u' where c: "skip_ws u = c # u'" by (cases "skip_ws u") auto
  with Suc.prems s k t v have "kvs = [(k, v)] \<or> (\<exists>ws u r'. scan_members f n u = Inr (ws, r') \<and> kvs = (k, v) # ws)"
    by (auto split: if_splits)
  then show ?case using assms [OF v] Suc.IH by auto
qed simp

lemma scan_number_val: "scan_number s = Inr (v, r) \<Longrightarrow> json_val v"
proof -
  assume "scan_number s = Inr (v, r)"
  then obtain neg ds fp ex where "number_value neg ds fp ex = Inr v"
    by (auto simp: scan_number_def Let_def split: list.splits if_split_asm prod.splits)
  then show ?thesis by (auto simp: number_value_def Let_def split: if_split_asm)
qed

lemma scan_step_val:
  assumes "\<And>f s v r. deeper = Some f \<Longrightarrow> f s = Inr (v, r) \<Longrightarrow> json_val v" "scan_step strict_hooks deeper s = Inr (v, r)"
  shows "json_val v"
proof -
  obtain c t where s: "s = c # t" using assms(2) by (cases s) (auto simp: scan_step_def)
  consider "c = CHR 34" | "c = CHR ''{''" | "c = CHR ''[''" | "c \<notin> {CHR 34, CHR ''{'', CHR ''[''}" by blast
  then show ?thesis
  proof cases
    case 1
    with assms(2) show ?thesis by (auto simp: s scan_step_def)
  next
    case 2
    with assms(2) obtain f kvs where f: "deeper = Some f" "scan_object f t = Inr (kvs, r)" "json_object_without_duplicates kvs = Inr v"
      by (auto simp: s scan_step_def strict_hooks_def split: option.splits)
    have "list_all (\<lambda>(k, v). json_val v) kvs"
      using f(2) scan_members_vals [OF assms(1) [OF f(1)]] by (auto simp: scan_object_def Let_def simp del: scan_members.simps split: if_splits)
    with f(3) show ?thesis
      by (auto simp: json_object_without_duplicates_def list_all_iff distinct_map case_prod_beta inj_on_def comp_def split: if_splits)
  next
    case 3
    with assms(2) obtain f vs where f: "deeper = Some f" "scan_array f t = Inr (vs, r)" "v = PList vs"
      by (auto simp: s scan_step_def split: option.splits)
    have "list_all json_val vs"
      using f(2) scan_items_vals [OF assms(1) [OF f(1)]] by (auto simp: scan_array_def Let_def simp del: scan_items.simps split: if_splits)
    with f(3) show ?thesis by simp
  next
    case 4
    then have "(\<exists>w. find (\<lambda>(w, v). starts_with w s) literals = Some (w, v)) \<or> scan_number s = Inr (v, r)"
      using assms(2) by (auto simp: s scan_step_def strict_hooks_def reject_non_json_numeric_constant_def split: option.splits)
    then show ?thesis
    proof
      assume "\<exists>w. find (\<lambda>(w, v). starts_with w s) literals = Some (w, v)"
      then have "v \<in> snd ` set literals" by (auto simp: find_Some_iff in_set_conv_nth intro!: image_eqI)
      then show ?thesis by (auto simp: literals_def)
    qed (rule scan_number_val)
  qed
qed

lemma scan_value_val: "scan_value strict_hooks d s = Inr (v, r) \<Longrightarrow> json_val v"
proof (induction d arbitrary: s v r)
  case 0
  then show ?case by (auto intro: scan_step_val [of None])
next
  case (Suc d)
  then show ?case by (auto intro: scan_step_val [of "Some (scan_value strict_hooks d)"])
qed

lemma json_loads_val: "json_loads strict_hooks limit s = Inr v \<Longrightarrow> json_val v"
  by (auto simp: json_loads_def split: if_splits dest: scan_value_val)

lemma loads_json_value_val: "loads_json_value limit s = Inr v \<Longrightarrow> json_val v \<and> interoperable 0 v"
  by (auto simp: loads_json_value_def reject_non_interoperable_values_def dest: json_loads_val)

text \<open>Such values can be printed, so \<^verbatim>\<open>json.dumps\<close> does not raise on what was read.\<close>

lemma json_of_val: "json_val v \<Longrightarrow> \<exists>j. json_of frepr v = Some j"
  and json_items_val: "list_all json_val vs \<Longrightarrow> \<exists>js. json_items frepr vs = Some js"
  and json_fields_val: "list_all (\<lambda>(k, v). (\<exists>s. k = PStr s) \<and> json_val v) kvs \<Longrightarrow> \<exists>js. json_fields frepr kvs = Some js"
  by (induction frepr v and frepr vs and frepr kvs rule: json_of_json_items_json_fields.induct) (fastforce split: option.splits)+

text \<open>\<^verbatim>\<open>json.dumps(v, ensure_ascii=False, sort_keys=True, separators=(",", ":"))\<close> of a value that was read.\<close>

definition canonical :: "(pyfloat \<Rightarrow> string) \<Rightarrow> pyval \<Rightarrow> string" where
  "canonical frepr v = (case dumps frepr False [] v of Inl _ \<Rightarrow> [] | Inr s \<Rightarrow> s)"

lemma dumps_canonical: "json_val v \<Longrightarrow> dumps frepr False [] v = Inr (canonical frepr v)"
  using json_of_val [of v frepr] by (auto simp: canonical_def dumps_def)

end
