(* ===== verification/Json_Canon.thy ===== *)
theory Json_Canon
  imports Json_Load
begin

text \<open>
  What a canonical text determines. The content of a value that was read is its JSON value with sorted keys; two values
  with the same canonical text have the same content, and equal contents have equal members. This is what a hash over the
  canonical text of an event, a metadata file or a manifest identifies.
\<close>

definition content :: "(pyfloat \<Rightarrow> string) \<Rightarrow> pyval \<Rightarrow> json option" where
  "content frepr v = map_option sort_keys (json_of frepr v)"

text \<open>Finite floats print with a point or an exponent, as \<^verbatim>\<open>float.__repr__\<close> documents.\<close>

definition reprs_ok :: "(pyfloat \<Rightarrow> string) \<Rightarrow> bool" where
  "reprs_ok frepr \<longleftrightarrow> (\<forall>f. f \<notin> {PosInf, NegInf, NaN} \<longrightarrow> float_text (frepr f))"

fun finite_floats :: "pyval \<Rightarrow> bool" where
  "finite_floats (PFloat f) = (f \<notin> {PosInf, NegInf, NaN})"
| "finite_floats (PList xs) = list_all finite_floats xs"
| "finite_floats (PDict kvs) = list_all (\<lambda>(k, v). finite_floats v) kvs"
| "finite_floats v = True"

lemma floats_ok_sort_keys: "floats_ok (sort_keys j) = floats_ok j"
proof (induction j rule: sort_keys.induct)
  case (2 kvs)
  then show ?case by (auto simp: list_all_iff)
qed (auto simp: list_all_iff)

lemma interoperable_finite: "interoperable d v \<Longrightarrow> finite_floats v"
  by (induction d v rule: interoperable.induct) (auto simp: list_all_iff)

lemma finite_floats_ok: "reprs_ok frepr \<Longrightarrow> finite_floats v \<Longrightarrow> json_val v \<Longrightarrow> json_of frepr v = Some j \<Longrightarrow> floats_ok j"
  and finite_items_ok: "reprs_ok frepr \<Longrightarrow> list_all finite_floats vs \<Longrightarrow> list_all json_val vs \<Longrightarrow> json_items frepr vs = Some js \<Longrightarrow> list_all floats_ok js"
  and finite_fields_ok: "reprs_ok frepr \<Longrightarrow> list_all (\<lambda>(k, v). finite_floats v) kvs \<Longrightarrow> list_all (\<lambda>(k, v). (\<exists>s. k = PStr s) \<and> json_val v) kvs \<Longrightarrow>
    json_fields frepr kvs = Some fs \<Longrightarrow> list_all (\<lambda>(k, v). floats_ok v) fs"
  by (induction frepr v and frepr vs and frepr kvs arbitrary: j and js and fs rule: json_of_json_items_json_fields.induct)
    (auto simp: reprs_ok_def split: option.splits)

lemma canonical_content:
  assumes "reprs_ok frepr" "json_val v" "json_val w" "finite_floats v" "finite_floats w" "canonical frepr v = canonical frepr w"
  shows "content frepr v = content frepr w"
proof -
  obtain j k where j: "json_of frepr v = Some j" "json_of frepr w = Some k" using assms(2,3) json_of_val by metis
  then have "floats_ok (sort_keys j)" "floats_ok (sort_keys k)"
    using assms finite_floats_ok by (simp_all add: floats_ok_sort_keys)
  moreover have "render False [] (sort_keys j) = render False [] (sort_keys k)" using assms(6) j by (simp add: canonical_def dumps_def)
  ultimately have "sort_keys j = sort_keys k" by (metis render_inj_floats)
  with j show ?thesis by (simp add: content_def)
qed

lemma content_canonical:
  assumes "json_val v" "json_val w" "content frepr v = content frepr w"
  shows "canonical frepr v = canonical frepr w"
  using assms json_of_val [of v frepr] json_of_val [of w frepr] by (auto simp: content_def canonical_def dumps_def)

text \<open>Members of equal contents.\<close>

lemma sort_key_fst_set: "distinct (map fst xs) \<Longrightarrow> map_of (sort_key fst xs) = map_of xs"
  by (rule map_of_eqI) (auto simp: distinct_map)

lemma json_fields_map_of:
  "json_fields frepr kvs = Some fs \<Longrightarrow> map_of fs k = (case dict_get kvs (PStr k) of None \<Rightarrow> None | Some v \<Rightarrow> json_of frepr v)"
proof (induction kvs arbitrary: fs)
  case (Cons kv kvs)
  obtain s v where kv: "kv = (PStr s, v)" using Cons.prems by (auto split: prod.splits pyval.splits)
  with Cons.prems obtain j js where "json_of frepr v = Some j" "json_fields frepr kvs = Some js" "fs = (s, j) # js"
    by (auto split: option.splits)
  with Cons.IH kv show ?case by auto
qed simp

lemma json_fields_keys: "json_fields frepr kvs = Some fs \<Longrightarrow> map fst kvs = map (\<lambda>(k, j). PStr k) fs"
proof (induction kvs arbitrary: fs)
  case (Cons kv kvs)
  obtain s v where kv: "kv = (PStr s, v)" using Cons.prems by (auto split: prod.splits pyval.splits)
  with Cons.prems obtain j js where "json_of frepr v = Some j" "json_fields frepr kvs = Some js" "fs = (s, j) # js"
    by (auto split: option.splits)
  with Cons.IH kv show ?case by auto
qed simp

lemma map_of_map_snd: "map_of (map (\<lambda>(k, v). (k, f v)) xs) k = map_option f (map_of xs k)"
  by (induction xs) auto

lemma content_dict_lookup:
  assumes "json_val (PDict d)" "content frepr (PDict d) = Some (JObj fs)"
  shows "map_of fs k = (case dict_get d (PStr k) of None \<Rightarrow> None | Some v \<Rightarrow> content frepr v)"
proof -
  obtain js where js: "json_fields frepr d = Some js" "fs = sort_key fst (map (\<lambda>(k, v). (k, sort_keys v)) js)"
    using assms(2) by (auto simp: content_def)
  have "distinct (map (\<lambda>(k, j). PStr k) js)" using assms(1) json_fields_keys [OF js(1)] by simp
  then have "distinct (map fst js)" by (auto simp: distinct_map inj_on_def case_prod_beta)
  then have "distinct (map fst (map (\<lambda>(k, v). (k, sort_keys v)) js))" by (simp add: comp_def case_prod_beta)
  then show ?thesis unfolding js(2)
    by (simp add: sort_key_fst_set map_of_map_snd json_fields_map_of [OF js(1)] content_def split: option.split)
qed

lemma content_get:
  assumes "json_val (PDict d)" "json_val (PDict e)" "content frepr (PDict d) = content frepr (PDict e)"
  shows "content frepr (pget d k) = content frepr (pget e k)" and "(dict_get d (PStr k) = None) = (dict_get e (PStr k) = None)"
proof -
  obtain j where "json_of frepr (PDict d) = Some j" using json_of_val [OF assms(1)] by metis
  then obtain fs where fs: "content frepr (PDict d) = Some (JObj fs)" by (auto simp: content_def)
  have vals: "json_val v" if "dict_get d (PStr k) = Some v \<or> dict_get e (PStr k) = Some v" for v
    using that assms(1,2) by (auto simp: list_all_iff dest!: map_of_SomeD)
  then have some: "content frepr v \<noteq> None" if "dict_get d (PStr k) = Some v \<or> dict_get e (PStr k) = Some v" for v
    using that json_of_val [of v frepr] by (auto simp: content_def)
  have eq: "(case dict_get d (PStr k) of None \<Rightarrow> None | Some v \<Rightarrow> content frepr v) = (case dict_get e (PStr k) of None \<Rightarrow> None | Some v \<Rightarrow> content frepr v)"
    using content_dict_lookup [OF assms(1) fs, of k] content_dict_lookup [OF assms(2) fs [unfolded assms(3)], of k] by simp
  show none: "(dict_get d (PStr k) = None) = (dict_get e (PStr k) = None)" using eq some by (auto split: option.splits)
  show "content frepr (pget d k) = content frepr (pget e k)" using eq none by (auto simp: pget_def dict_get_or_def split: option.splits)
qed

lemma content_str: "json_val v \<Longrightarrow> content frepr v = content frepr (PStr s) \<Longrightarrow> v = PStr s"
  by (cases v) (auto simp: content_def)

end
