(* ===== verification/Pack_Report.thy ===== *)
theory Pack_Report
  imports Json_Load
begin

text \<open>
  Bounded problem reports of \<^verbatim>\<open>pack_verify.py\<close>: the collector that keeps at most 32 samples while it counts every
  problem, and the diagnostics of the event chain. A problem is the fixed part of its message, in English, and
  the values the message shows; the cut of a long message to 512 characters is not modelled. The lemmas show that the
  bound never hides a problem: a rendered report is empty exactly when nothing was reported.
\<close>

named_theorems clean_simps \<open>when a problem collector is still empty after a step\<close>

datatype problem = Problem string "pyval list"

record bounded_report =
  br_values :: "problem list"
  br_total_count :: nat
  br_sample_count :: nat
  br_summaries :: "problem list"

definition MAX_PACKAGE_DIAGNOSTIC_SAMPLES :: nat where
  "MAX_PACKAGE_DIAGNOSTIC_SAMPLES = 32"

definition MAX_DIAGNOSTIC_SUMMARY_MESSAGES :: nat where
  "MAX_DIAGNOSTIC_SUMMARY_MESSAGES = 8"

definition MAX_EVENT_CHAIN_DIAGNOSTIC_SAMPLES :: nat where
  "MAX_EVENT_CHAIN_DIAGNOSTIC_SAMPLES = 32"

section \<open>The collector\<close>

record problem_collector =
  pc_samples :: "problem list"
  pc_summaries :: "problem list"
  pc_total :: nat

definition mk_collector :: problem_collector where
  "mk_collector = \<lparr>pc_samples = [], pc_summaries = [], pc_total = 0\<rparr>"

definition retain_sample :: "problem \<Rightarrow> problem_collector \<Rightarrow> problem_collector" where
  "retain_sample m c = (if length (pc_samples c) < MAX_PACKAGE_DIAGNOSTIC_SAMPLES then c\<lparr>pc_samples := pc_samples c @ [m]\<rparr> else c)"

definition retain_summary :: "problem \<Rightarrow> problem_collector \<Rightarrow> problem_collector" where
  "retain_summary m c = (if length (pc_summaries c) < MAX_DIAGNOSTIC_SUMMARY_MESSAGES then c\<lparr>pc_summaries := pc_summaries c @ [m]\<rparr> else c)"

definition pc_append :: "problem \<Rightarrow> problem_collector \<Rightarrow> problem_collector" where
  "pc_append m c = retain_sample m (c\<lparr>pc_total := Suc (pc_total c)\<rparr>)"

definition pc_extend_report :: "bounded_report \<Rightarrow> problem_collector \<Rightarrow> problem_collector" where
  "pc_extend_report r c =
     fold retain_summary (br_summaries r)
       (fold retain_sample (take (br_sample_count r) (br_values r)) (c\<lparr>pc_total := pc_total c + br_total_count r\<rparr>))"

definition pc_extend_list :: "problem list \<Rightarrow> problem_collector \<Rightarrow> problem_collector" where
  "pc_extend_list ms c = fold pc_append ms c"

definition omission :: "nat \<Rightarrow> nat \<Rightarrow> nat \<Rightarrow> problem" where
  "omission found shown omitted = Problem ''problems found, shown, omitted'' [PInt (int found), PInt (int shown), PInt (int omitted)]"

definition pc_render :: "problem_collector \<Rightarrow> bounded_report" where
  "pc_render c =
     (let omitted = pc_total c - length (pc_samples c);
          rendered = pc_samples c @ pc_summaries c
      in \<lparr>br_values = (if 0 < omitted then rendered @ [omission (pc_total c) (length (pc_samples c)) omitted] else rendered),
          br_total_count = pc_total c, br_sample_count = length (pc_samples c), br_summaries = pc_summaries c\<rparr>)"

text \<open>\<^verbatim>\<open>if condition: problems.append(message)\<close>.\<close>

definition note_if :: "bool \<Rightarrow> problem \<Rightarrow> problem_collector \<Rightarrow> problem_collector" where
  "note_if b m c = (if b then pc_append m c else c)"

section \<open>Diagnostics of the event chain\<close>

record chain_diagnostics =
  cd_samples :: "problem list"
  cd_counts :: "(string, nat) dict"
  cd_total :: nat

definition mk_diagnostics :: chain_diagnostics where
  "mk_diagnostics = \<lparr>cd_samples = [], cd_counts = [], cd_total = 0\<rparr>"

definition cd_add :: "string \<Rightarrow> problem \<Rightarrow> chain_diagnostics \<Rightarrow> chain_diagnostics" where
  "cd_add category m d =
     \<lparr>cd_samples = (if length (cd_samples d) < MAX_EVENT_CHAIN_DIAGNOSTIC_SAMPLES then cd_samples d @ [m] else cd_samples d),
      cd_counts = dict_set category (Suc (dict_get_or 0 (cd_counts d) category)) (cd_counts d),
      cd_total = Suc (cd_total d)\<rparr>"

definition cd_render :: "chain_diagnostics \<Rightarrow> bounded_report" where
  "cd_render d =
     (let omitted = cd_total d - length (cd_samples d);
          summary = Problem ''event chain problems, shown, omitted, by category''
            ([PInt (int (cd_total d)), PInt (int (length (cd_samples d))), PInt (int omitted)]
             @ concat (map (\<lambda>(name, n). [PStr name, PInt (int n)]) (sort_key fst (cd_counts d))))
      in \<lparr>br_values = (if 0 < omitted then cd_samples d @ [summary] else cd_samples d),
          br_total_count = cd_total d, br_sample_count = length (cd_samples d),
          br_summaries = (if 0 < omitted then [summary] else [])\<rparr>)"

definition cd_add_if :: "bool \<Rightarrow> string \<Rightarrow> problem \<Rightarrow> chain_diagnostics \<Rightarrow> chain_diagnostics" where
  "cd_add_if b category m d = (if b then cd_add category m d else d)"

section \<open>The bound hides no problem\<close>

definition report_ok :: "bounded_report \<Rightarrow> bool" where
  "report_ok r \<longleftrightarrow> (br_values r = [] \<longleftrightarrow> br_total_count r = 0) \<and> (br_sample_count r = 0 \<longleftrightarrow> br_total_count r = 0)
     \<and> br_sample_count r \<le> length (br_values r) \<and> (br_total_count r = 0 \<longrightarrow> br_summaries r = [])
     \<and> br_sample_count r \<le> MAX_PACKAGE_DIAGNOSTIC_SAMPLES \<and> br_sample_count r \<le> br_total_count r"

definition collector_ok :: "problem_collector \<Rightarrow> bool" where
  "collector_ok c \<longleftrightarrow> (pc_samples c = [] \<longleftrightarrow> pc_total c = 0) \<and> (pc_total c = 0 \<longrightarrow> pc_summaries c = [])
     \<and> length (pc_samples c) \<le> MAX_PACKAGE_DIAGNOSTIC_SAMPLES \<and> length (pc_summaries c) \<le> MAX_DIAGNOSTIC_SUMMARY_MESSAGES
     \<and> length (pc_samples c) \<le> pc_total c"

abbreviation clean :: "problem_collector \<Rightarrow> bool" where
  "clean c \<equiv> pc_total c = 0"

lemma retain_total [simp]: "pc_total (retain_sample m c) = pc_total c" "pc_total (retain_summary m c) = pc_total c"
  by (simp_all add: retain_sample_def retain_summary_def)

lemma fold_retain_total [simp]:
  "pc_total (fold retain_sample ms c) = pc_total c" "pc_total (fold retain_summary ms c) = pc_total c"
  by (induction ms arbitrary: c) simp_all

lemma pc_append_total [simp]: "pc_total (pc_append m c) = Suc (pc_total c)"
  by (simp add: pc_append_def)

lemma clean_note_if [simp, clean_simps]: "clean (note_if b m c) \<longleftrightarrow> \<not> b \<and> clean c"
  by (simp add: note_if_def)

lemma clean_extend_report [simp, clean_simps]: "clean (pc_extend_report r c) \<longleftrightarrow> clean c \<and> br_total_count r = 0"
  by (simp add: pc_extend_report_def)

lemma clean_extend_list [simp, clean_simps]: "clean (pc_extend_list ms c) \<longleftrightarrow> clean c \<and> ms = []"
proof -
  have "pc_total (fold pc_append ms c) = pc_total c + length ms" for ms c
    by (induction ms arbitrary: c) simp_all
  then show ?thesis by (auto simp: pc_extend_list_def)
qed

lemma clean_mk [simp]: "clean mk_collector"
  by (simp add: mk_collector_def)

lemma collector_ok_mk [simp]: "collector_ok mk_collector"
  by (simp add: collector_ok_def mk_collector_def)

lemma collector_ok_append [simp]: "collector_ok c \<Longrightarrow> collector_ok (pc_append m c)"
  by (auto simp: collector_ok_def pc_append_def retain_sample_def MAX_PACKAGE_DIAGNOSTIC_SAMPLES_def)

lemma collector_ok_note_if [simp]: "collector_ok c \<Longrightarrow> collector_ok (note_if b m c)"
  by (simp add: note_if_def)

lemma collector_ok_extend_list [simp]: "collector_ok c \<Longrightarrow> collector_ok (pc_extend_list ms c)"
  unfolding pc_extend_list_def by (induction ms arbitrary: c) simp_all

lemma fold_retain_sample_samples:
  "pc_samples (fold retain_sample ms c) = pc_samples c @ take (MAX_PACKAGE_DIAGNOSTIC_SAMPLES - length (pc_samples c)) ms"
  by (induction ms arbitrary: c) (auto simp: retain_sample_def Suc_diff_Suc less_diff_conv take_Cons' )

lemma fold_retain_summary_fields [simp]:
  "pc_samples (fold retain_summary ms c) = pc_samples c"
  "pc_summaries (fold retain_sample ms c) = pc_summaries c"
  by (induction ms arbitrary: c) (simp_all add: retain_sample_def retain_summary_def)

lemma fold_retain_summary_length:
  "length (pc_summaries c) \<le> MAX_DIAGNOSTIC_SUMMARY_MESSAGES \<Longrightarrow>
    length (pc_summaries (fold retain_summary ms c)) \<le> MAX_DIAGNOSTIC_SUMMARY_MESSAGES"
  by (induction ms arbitrary: c) (simp_all add: retain_summary_def)

lemma collector_ok_extend_report [simp]:
  assumes "collector_ok c" "report_ok r"
  shows "collector_ok (pc_extend_report r c)"
proof -
  let ?n = "MAX_PACKAGE_DIAGNOSTIC_SAMPLES - length (pc_samples c)"
  let ?t = "take (br_sample_count r) (br_values r)"
  have t: "?t = [] \<longleftrightarrow> br_total_count r = 0" "length ?t \<le> br_total_count r"
    using assms(2) by (auto simp: report_ok_def)
  show ?thesis
    using assms t
    by (auto simp: collector_ok_def report_ok_def pc_extend_report_def fold_retain_sample_samples fold_retain_summary_length
        MAX_PACKAGE_DIAGNOSTIC_SAMPLES_def)
qed

lemma report_ok_render [simp]: "collector_ok c \<Longrightarrow> report_ok (pc_render c)"
  by (auto simp: collector_ok_def report_ok_def pc_render_def Let_def)

lemma render_fields [simp]:
  "br_total_count (pc_render c) = pc_total c"
  "br_sample_count (pc_render c) = length (pc_samples c)"
  by (simp_all add: pc_render_def Let_def)

lemma render_empty_iff: "collector_ok c \<Longrightarrow> br_values (pc_render c) = [] \<longleftrightarrow> clean c"
  by (auto simp: collector_ok_def pc_render_def Let_def)

lemma render_length: "collector_ok c \<Longrightarrow> length (br_values (pc_render c)) \<le> 41"
  by (auto simp: collector_ok_def pc_render_def Let_def MAX_PACKAGE_DIAGNOSTIC_SAMPLES_def MAX_DIAGNOSTIC_SUMMARY_MESSAGES_def)

section \<open>The same for the diagnostics of the chain\<close>

definition diagnostics_ok :: "chain_diagnostics \<Rightarrow> bool" where
  "diagnostics_ok d \<longleftrightarrow> (cd_samples d = [] \<longleftrightarrow> cd_total d = 0) \<and> length (cd_samples d) \<le> MAX_EVENT_CHAIN_DIAGNOSTIC_SAMPLES
     \<and> length (cd_samples d) \<le> cd_total d"

lemma diagnostics_ok_mk [simp]: "diagnostics_ok mk_diagnostics"
  by (simp add: diagnostics_ok_def mk_diagnostics_def)

lemma diagnostics_ok_add [simp]: "diagnostics_ok d \<Longrightarrow> diagnostics_ok (cd_add_if b cat m d)"
  by (auto simp: diagnostics_ok_def cd_add_if_def cd_add_def MAX_EVENT_CHAIN_DIAGNOSTIC_SAMPLES_def)

lemma cd_total_add [simp]: "cd_total (cd_add_if b cat m d) = 0 \<longleftrightarrow> \<not> b \<and> cd_total d = 0"
  by (simp add: cd_add_if_def cd_add_def)

lemma cd_total_mk [simp]: "cd_total mk_diagnostics = 0"
  by (simp add: mk_diagnostics_def)

lemma cd_render_total [simp]: "br_total_count (cd_render d) = cd_total d"
  by (simp add: cd_render_def Let_def)

lemma report_ok_cd_render [simp]: "diagnostics_ok d \<Longrightarrow> report_ok (cd_render d)"
  by (auto simp: diagnostics_ok_def report_ok_def cd_render_def Let_def MAX_PACKAGE_DIAGNOSTIC_SAMPLES_def
      MAX_EVENT_CHAIN_DIAGNOSTIC_SAMPLES_def)

end
