(* ===== verification/Pack_Events.thy ===== *)
theory Pack_Events
  imports Pack_Report Py_Regex
begin

text \<open>
  Single events of a ticket's event chain in \<^verbatim>\<open>pack_verify.py\<close>: the schema of an event, its canonical hash, the
  metadata view of a payload, and the mirror that rebuilds the records of spawned agents from the events
  (\<^verbatim>\<open>_AgentLifecycleMirror\<close>). The hash functions, the texts of floats and of containers, and the recursion limit of the
  interpreter are fields of the environment.
\<close>

record pack_env =
  pk_sha256 :: "string \<Rightarrow> string"
  pk_sha512 :: "string \<Rightarrow> string"
  pk_frepr :: "pyfloat \<Rightarrow> string"
  pk_repr :: "pyval \<Rightarrow> string"
  pk_limit :: nat

definition sha256_bytes :: "pack_env \<Rightarrow> string \<Rightarrow> string" where
  "sha256_bytes env b = hex_of (pk_sha256 env b)"

abbreviation canon :: "pack_env \<Rightarrow> pyval \<Rightarrow> string" where
  "canon env v \<equiv> canonical (pk_frepr env) v"

section \<open>The event schema\<close>

definition ALLOWED_FIRST_EVENT :: "string list" where
  "ALLOWED_FIRST_EVENT = [''ticket_created'', ''migration_applied'']"

definition ALLOWED_EVENT_TYPES :: "string list" where
  "ALLOWED_EVENT_TYPES = [''ticket_created'', ''step_started'', ''step_finished'', ''artifact_written'', ''gate_checked'',
     ''operation_started'', ''operation_finished'', ''state_changed'', ''metadata_updated'', ''claim_recorded'',
     ''verification_recorded'', ''skill_run_recorded'', ''snapshot_written'', ''close_phase'', ''ticket_reopened'',
     ''requirement_delta'', ''agent_spawned'', ''agent_result'', ''doc_module_status'', ''index_updated'',
     ''migration_applied'', ''idempotent_hit'', ''external_note'']"

definition ALLOWED_EVENT_ACTORS :: "string list" where
  "ALLOWED_EVENT_ACTORS = [''icode'', ''user'', ''watch'', ''system'']"

definition EVENT_REQUIRED_FIELDS :: "string list" where
  "EVENT_REQUIRED_FIELDS = [''schema_version'', ''event_id'', ''ticket_id'', ''timestamp'', ''actor'', ''event_type'', ''payload'',
     ''previous_event_hash'', ''event_hash'']"

definition EVENT_SCHEMA_FIELDS :: "string list" where
  "EVENT_SCHEMA_FIELDS = EVENT_REQUIRED_FIELDS @ [''request_id'']"

definition GENESIS_HASH :: string where
  "GENESIS_HASH = replicate 64 (CHR ''0'')"

abbreviation hex_cls :: regex where
  "hex_cls \<equiv> RCls is_hex_lower"

definition EVENT_ID_PATTERN :: regex where
  "EVENT_ID_PATTERN = rseqs [rexact 8 hex_cls, rlit ''-'', rexact 4 hex_cls, rlit ''-4'', rexact 3 hex_cls, rlit ''-'',
     RCls (\<lambda>c. c \<in> set ''89ab''), rexact 3 hex_cls, rlit ''-'', rexact 12 hex_cls, RDollar]"

definition EVENT_TIMESTAMP_PATTERN :: regex where
  "EVENT_TIMESTAMP_PATTERN = (let d = RCls is_digit in
     rseqs [rexact 4 d, rlit ''-'', rexact 2 d, rlit ''-'', rexact 2 d, rlit ''T'', rexact 2 d, rlit '':'', rexact 2 d, rlit '':'', rexact 2 d])"

text \<open>\<^verbatim>\<open>k in d\<close> for a string key.\<close>

definition has_key :: "pydict \<Rightarrow> string \<Rightarrow> bool" where
  "has_key d k \<longleftrightarrow> dict_get d (PStr k) \<noteq> None"

text \<open>\<^verbatim>\<open>isinstance(v, str) and P(v)\<close>, and the same for a dictionary.\<close>

definition str_with :: "(string \<Rightarrow> bool) \<Rightarrow> pyval \<Rightarrow> bool" where
  "str_with P v = (case v of PStr s \<Rightarrow> P s | _ \<Rightarrow> False)"

definition is_dict :: "pyval \<Rightarrow> bool" where
  "is_dict v = (case v of PDict _ \<Rightarrow> True | _ \<Rightarrow> False)"

definition event_schema_issues :: "string option \<Rightarrow> pydict \<Rightarrow> string list" where
  "event_schema_issues expected_ticket_id event =
     (filter (\<lambda>f. \<not> has_key event f) EVENT_REQUIRED_FIELDS
      @ (if list_ex (\<lambda>k. k \<notin> PStr ` set EVENT_SCHEMA_FIELDS) (dict_keys event) then [''additionalProperties''] else [])
      @ (if pget event ''schema_version'' \<noteq> PInt 1 then [''schema_version''] else [])
      @ (if \<not> str_with (re_fullmatch EVENT_ID_PATTERN) (pget event ''event_id'') then [''event_id''] else [])
      @ (if \<not> str_with (\<lambda>t. t \<noteq> [] \<and> (expected_ticket_id = None \<or> expected_ticket_id = Some t)) (pget event ''ticket_id'')
         then [''ticket_id''] else [])
      @ (if has_key event ''request_id'' \<and> pget event ''request_id'' \<noteq> PNone \<and> \<not> str_with (\<lambda>_. True) (pget event ''request_id'')
         then [''request_id''] else [])
      @ (if \<not> str_with (re_match EVENT_TIMESTAMP_PATTERN) (pget event ''timestamp'') then [''timestamp''] else [])
      @ (if \<not> str_with (\<lambda>a. a \<in> set ALLOWED_EVENT_ACTORS) (pget event ''actor'') then [''actor''] else [])
      @ (if \<not> str_with (\<lambda>t. t \<in> set ALLOWED_EVENT_TYPES) (pget event ''event_type'') then [''event_type''] else [])
      @ (if \<not> is_dict (pget event ''payload'') then [''payload''] else [])
      @ filter (\<lambda>f. \<not> str_with hex64_text (pget event f)) [''previous_event_hash'', ''event_hash''])"

section \<open>Hashes and metadata views\<close>

definition canonical_event_hash :: "pack_env \<Rightarrow> pydict \<Rightarrow> string" where
  "canonical_event_hash env event = sha256_bytes env (utf8 (canon env (PDict (filter (\<lambda>(k, v). k \<noteq> PStr ''event_hash'') event))))"

definition metadata_content_hash :: "pack_env \<Rightarrow> pydict \<Rightarrow> string" where
  "metadata_content_hash env metadata = sha256_bytes env (utf8 (canon env (PDict metadata)))"

definition event_payload_metadata_record :: "pydict \<Rightarrow> pydict" where
  "event_payload_metadata_record payload = filter (\<lambda>(k, v). k \<noteq> PStr ''metadata_hash_after'') payload"

definition METADATA_EVENT_MIRROR_PATHS :: "(string \<times> string list) list" where
  "METADATA_EVENT_MIRROR_PATHS = [(''verification_recorded'', [''verification_runs'']), (''claim_recorded'', [''claims'']),
     (''skill_run_recorded'', [''extensions'', ''skills'', ''runs''])]"

definition METADATA_AGENT_SPAWNS_PATH :: "string list" where
  "METADATA_AGENT_SPAWNS_PATH = [''extensions'', ''agent'', ''spawns'']"

text \<open>The sentinel \<^verbatim>\<open>_INVALID_METADATA_EVENT_MIRROR\<close>, an object that is neither a list nor \<^verbatim>\<open>None\<close>.\<close>

definition INVALID_METADATA_EVENT_MIRROR :: pyval where
  "INVALID_METADATA_EVENT_MIRROR = POther 0"

fun metadata_records_at_path :: "pyval \<Rightarrow> string list \<Rightarrow> pyval" where
  "metadata_records_at_path v [] = (if v = PNone then PList [] else v)"
| "metadata_records_at_path v (f # fs) = (case v of
       PNone \<Rightarrow> PList []
     | PDict d \<Rightarrow> metadata_records_at_path (pget d f) fs
     | _ \<Rightarrow> INVALID_METADATA_EVENT_MIRROR)"

definition metadata_event_mirror_records :: "pyval \<Rightarrow> string \<Rightarrow> pyval" where
  "metadata_event_mirror_records metadata event_type = (case dict_get METADATA_EVENT_MIRROR_PATHS event_type of
       None \<Rightarrow> INVALID_METADATA_EVENT_MIRROR
     | Some path \<Rightarrow> metadata_records_at_path metadata path)"

definition metadata_agent_spawn_records :: "pyval \<Rightarrow> pyval" where
  "metadata_agent_spawn_records metadata = metadata_records_at_path metadata METADATA_AGENT_SPAWNS_PATH"

definition event_payload_matches_metadata_record :: "pack_env \<Rightarrow> pydict \<Rightarrow> pydict \<Rightarrow> bool" where
  "event_payload_matches_metadata_record env payload metadata_record \<longleftrightarrow>
     canon env (PDict (event_payload_metadata_record payload)) = canon env (PDict metadata_record)"

section \<open>The mirror of spawned agents\<close>

definition AGENT_LIFECYCLE_EVENT_TYPES :: "string list" where
  "AGENT_LIFECYCLE_EVENT_TYPES = [''agent_spawned'', ''agent_result'']"

definition AGENT_SPAWN_REQUIRED_FIELDS :: "string list" where
  "AGENT_SPAWN_REQUIRED_FIELDS = [''spawn_id'', ''at'', ''task_scope'', ''expected_artifact'', ''evidence_boundary'',
     ''join_condition'', ''backend'', ''model'', ''capabilities'']"

definition AGENT_RESULT_REQUIRED_FIELDS :: "string list" where
  "AGENT_RESULT_REQUIRED_FIELDS = [''spawn_id'', ''result'', ''adopted'', ''adoption_reason'', ''result_at'', ''evidence_refs'',
     ''summary_digest'']"

definition AGENT_CAPABILITIES :: "string list" where
  "AGENT_CAPABILITIES = [''text'', ''image'', ''tools'', ''reasoning'']"

definition AGENT_RESULTS :: "string list" where
  "AGENT_RESULTS = [''joined'', ''timed_out'', ''stopped'', ''failed'']"

definition AGENT_ADOPTION_VALUES :: "string list" where
  "AGENT_ADOPTION_VALUES = [''yes'', ''partial'', ''no'']"

definition MAX_OPEN_AGENT_SPAWNS :: nat where
  "MAX_OPEN_AGENT_SPAWNS = 3"

record agent_mirror =
  am_structurally_valid :: bool
  am_records :: "pydict list"
  am_record_index :: nat
  am_open_records :: "(string, pydict \<times> pydict) dict"
  am_valid :: bool

definition mk_agent_mirror :: "pyval \<Rightarrow> agent_mirror" where
  "mk_agent_mirror metadata_records =
     (case (case metadata_records of PList xs \<Rightarrow> map_opt as_dict xs | _ \<Rightarrow> None) of
        None \<Rightarrow> \<lparr>am_structurally_valid = False, am_records = [], am_record_index = 0, am_open_records = [], am_valid = False\<rparr>
      | Some rs \<Rightarrow> \<lparr>am_structurally_valid = True, am_records = rs, am_record_index = 0, am_open_records = [],
          am_valid = distinct (strs_of (map (\<lambda>r. pget r ''spawn_id'') rs))\<rparr>)"

definition has_nonempty_text :: "pyval \<Rightarrow> bool" where
  "has_nonempty_text v = str_with (\<lambda>s. strip s \<noteq> []) v"

definition keys_within :: "string list \<Rightarrow> pydict \<Rightarrow> bool" where
  "keys_within fs d \<longleftrightarrow> list_all (\<lambda>k. k \<in> PStr ` set fs) (dict_keys d)"

definition valid_spawn_payload :: "pydict \<Rightarrow> bool" where
  "valid_spawn_payload payload \<longleftrightarrow>
     list_all (has_key payload) AGENT_SPAWN_REQUIRED_FIELDS
     \<and> keys_within (AGENT_SPAWN_REQUIRED_FIELDS @ [''exclusive_key'']) payload
     \<and> list_all (\<lambda>k. has_nonempty_text (pget payload k))
         [''spawn_id'', ''at'', ''task_scope'', ''expected_artifact'', ''evidence_boundary'', ''join_condition'', ''backend'', ''model'']
     \<and> (has_key payload ''exclusive_key'' \<longrightarrow>
          has_nonempty_text (pget payload ''exclusive_key'') \<and> str_with (\<lambda>s. length s \<le> 80) (pget payload ''exclusive_key''))
     \<and> (case pget payload ''capabilities'' of
          PList xs \<Rightarrow> xs \<noteq> [] \<and> (case map_opt as_str xs of None \<Rightarrow> False
            | Some cs \<Rightarrow> ''text'' \<in> set cs \<and> list_all (\<lambda>c. c \<in> set AGENT_CAPABILITIES) cs \<and> distinct cs)
        | _ \<Rightarrow> False)"

definition valid_result_payload :: "pydict \<Rightarrow> bool" where
  "valid_result_payload payload \<longleftrightarrow>
     list_all (has_key payload) AGENT_RESULT_REQUIRED_FIELDS
     \<and> keys_within (AGENT_RESULT_REQUIRED_FIELDS @ [''error_class'']) payload
     \<and> has_nonempty_text (pget payload ''spawn_id'')
     \<and> str_with (\<lambda>r. r \<in> set AGENT_RESULTS) (pget payload ''result'')
     \<and> str_with (\<lambda>a. a \<in> set AGENT_ADOPTION_VALUES) (pget payload ''adopted'')
     \<and> (pget payload ''result'' \<noteq> PStr ''joined'' \<longrightarrow> pget payload ''adopted'' = PStr ''no'')
     \<and> has_nonempty_text (pget payload ''adoption_reason'')
     \<and> has_nonempty_text (pget payload ''result_at'')
     \<and> (case pget payload ''evidence_refs'' of PList xs \<Rightarrow> xs \<noteq> [] \<and> list_all has_nonempty_text xs | _ \<Rightarrow> False)
     \<and> str_with hex64_text (pget payload ''summary_digest'')
     \<and> (has_key payload ''error_class'' \<longrightarrow> has_nonempty_text (pget payload ''error_class''))"

definition am_invalid :: "agent_mirror \<Rightarrow> agent_mirror" where
  "am_invalid m = m\<lparr>am_valid := False\<rparr>"

definition consume_spawned :: "pydict \<Rightarrow> agent_mirror \<Rightarrow> agent_mirror" where
  "consume_spawned record m =
     (if \<not> valid_spawn_payload record then am_invalid m
      else case pget record ''spawn_id'' of
          PStr spawn_id \<Rightarrow>
            if MAX_OPEN_AGENT_SPAWNS \<le> length (am_open_records m) then am_invalid m
            else if length (am_records m) \<le> am_record_index m then am_invalid m
            else let expected = am_records m ! am_record_index m
                 in m\<lparr>am_valid := (am_valid m \<and> pget expected ''spawn_id'' = PStr spawn_id),
                      am_record_index := Suc (am_record_index m),
                      am_open_records := dict_set spawn_id (record, expected) (am_open_records m)\<rparr>
        | _ \<Rightarrow> am_invalid m)"

definition reconstruct :: "pydict \<Rightarrow> pydict \<Rightarrow> pydict" where
  "reconstruct opened record = foldl (\<lambda>d (k, v). dict_set k v d) opened (filter (\<lambda>(k, v). k \<noteq> PStr ''spawn_id'') record)"

definition consume_result :: "pack_env \<Rightarrow> pydict \<Rightarrow> agent_mirror \<Rightarrow> agent_mirror" where
  "consume_result env record m =
     (if \<not> valid_result_payload record then am_invalid m
      else case pget record ''spawn_id'' of
          PStr spawn_id \<Rightarrow>
            (case dict_get (am_open_records m) spawn_id of
               None \<Rightarrow> am_invalid m
             | Some (opened, expected) \<Rightarrow>
                 m\<lparr>am_open_records := dict_del spawn_id (am_open_records m),
                   am_valid := (am_valid m \<and> event_payload_matches_metadata_record env (reconstruct opened record) expected)\<rparr>)
        | _ \<Rightarrow> am_invalid m)"

definition am_consume :: "pack_env \<Rightarrow> string \<Rightarrow> pyval \<Rightarrow> agent_mirror \<Rightarrow> agent_mirror" where
  "am_consume env event_type payload m =
     (if \<not> am_structurally_valid m \<or> event_type \<notin> set AGENT_LIFECYCLE_EVENT_TYPES then m
      else case payload of
          PDict p \<Rightarrow>
            let record = event_payload_metadata_record p
            in if event_type = ''agent_spawned'' then consume_spawned record m else consume_result env record m
        | _ \<Rightarrow> am_invalid m)"

definition am_finish :: "pack_env \<Rightarrow> agent_mirror \<Rightarrow> bool" where
  "am_finish env m \<longleftrightarrow> am_structurally_valid m \<and> am_valid m \<and> am_record_index m = length (am_records m)
     \<and> list_all (\<lambda>(sid, opened, expected). event_payload_matches_metadata_record env opened expected) (am_open_records m)"

end
