(* ===== verification/Pack_State.thy ===== *)
theory Pack_State
  imports Pack_Events
begin

text \<open>
  The state of a ticket replayed from its events (\<^verbatim>\<open>_TicketStateMirror\<close> of \<^verbatim>\<open>pack_verify.py\<close>): the normalised state
  machine of a contract snapshot, the mirror that consumes one event after the other, and its final
  comparison with the metadata. The abstract specification is the relation \<open>ticket_step\<close>: a run of the declared
  state machine and of the close phases. A mirror that reports nothing has seen such a run.
\<close>

section \<open>The state machine of the contracts\<close>

definition MAX_TICKET_STATES :: nat where
  "MAX_TICKET_STATES = 256"

definition MAX_TICKET_TRANSITIONS :: nat where
  "MAX_TICKET_TRANSITIONS = 4096"

definition MAX_CLOSE_PHASES :: nat where
  "MAX_CLOSE_PHASES = 64"

record state_machine =
  sm_states :: "string list"
  sm_transitions :: "(string \<times> string) list"
  sm_close_phases :: "string list"

text \<open>A list of strings of 1 to 128 characters without repetition, with the number of items in bounds.\<close>

definition name_list :: "nat \<Rightarrow> nat \<Rightarrow> pyval \<Rightarrow> string list option" where
  "name_list lo hi v = (case v of
       PList xs \<Rightarrow> (case map_opt as_str xs of
           None \<Rightarrow> None
         | Some ns \<Rightarrow> if lo \<le> length ns \<and> length ns \<le> hi \<and> list_all (\<lambda>n. 0 < length n \<and> length n \<le> 128) ns \<and> distinct ns
                      then Some ns else None)
     | _ \<Rightarrow> None)"

definition transition_of :: "string list \<Rightarrow> pyval \<Rightarrow> (string \<times> string) res" where
  "transition_of states v = (case v of
       PDict t \<Rightarrow> (case (pget t ''from'', pget t ''to'') of
           (PStr source, PStr target) \<Rightarrow>
             if source \<in> set states \<and> target \<in> set states then Inr (source, target)
             else Inl (PyValueError ''state_machine.transitions names an unknown state'')
         | _ \<Rightarrow> Inl (PyValueError ''state_machine.transitions names an unknown state''))
     | _ \<Rightarrow> Inl (PyValueError ''a state_machine.transitions item must be an object''))"

fun map_res :: "('a \<Rightarrow> 'b res) \<Rightarrow> 'a list \<Rightarrow> 'b list res" where
  "map_res f [] = Inr []"
| "map_res f (x # xs) = bindr (f x) (\<lambda>y. bindr (map_res f xs) (\<lambda>ys. Inr (y # ys)))"

definition normalize_ticket_state_machine :: "pyval \<Rightarrow> state_machine res" where
  "normalize_ticket_state_machine v = (case v of
       PDict d \<Rightarrow>
         (case name_list 1 MAX_TICKET_STATES (pget d ''states'') of
            None \<Rightarrow> Inl (PyValueError ''state_machine.states is malformed'')
          | Some states \<Rightarrow>
              (case pget d ''transitions'' of
                 PList ts \<Rightarrow>
                   if MAX_TICKET_TRANSITIONS < length ts then Inl (PyValueError ''state_machine.transitions is malformed'')
                   else bindr (map_res (transition_of states) ts) (\<lambda>transitions.
                     case name_list 1 MAX_CLOSE_PHASES (pget d ''close_phases'') of
                       None \<Rightarrow> Inl (PyValueError ''state_machine.close_phases is malformed'')
                     | Some phases \<Rightarrow>
                         if last phases \<noteq> ''closed'' then Inl (PyValueError ''state_machine.close_phases is malformed'')
                         else Inr \<lparr>sm_states = states, sm_transitions = transitions, sm_close_phases = phases\<rparr>)
               | _ \<Rightarrow> Inl (PyValueError ''state_machine.transitions is malformed'')))
     | _ \<Rightarrow> Inl (PyValueError ''state_machine must be an object''))"

text \<open>The dictionary that \<^verbatim>\<open>_normalize_ticket_state_machine\<close> returns.\<close>

definition state_machine_dict :: "state_machine \<Rightarrow> pyval" where
  "state_machine_dict sm = PDict
     [(PStr ''states'', PList (map PStr (sm_states sm))),
      (PStr ''transitions'', PList (map (\<lambda>(s, t). PDict [(PStr ''from'', PStr s), (PStr ''to'', PStr t)]) (sm_transitions sm))),
      (PStr ''close_phases'', PList (map PStr (sm_close_phases sm)))]"

section \<open>The mirror\<close>

definition DELIVERY_VERDICTS :: "string list" where
  "DELIVERY_VERDICTS = [''verified'', ''verification_pending'', ''blocked'', ''not_applicable'']"

definition TICKET_INITIAL_STATES :: "(string \<times> string) list" where
  "TICKET_INITIAL_STATES = [(''init'', ''init_in_progress''), (''plan'', ''init_in_progress''), (''log'', ''log_in_progress''),
     (''debug-init'', ''debug_in_progress''), (''debug-log'', ''debug_in_progress'')]"

record ticket_mirror =
  ts_enabled :: bool
  ts_metadata :: pydict
  ts_problems :: problem_collector
  ts_current_state :: "string option"
  ts_close_state :: "string option"
  ts_birth_count :: nat
  ts_migration_count :: nat
  ts_machine :: "state_machine option"

text \<open>An argument that was not given is \<open>None\<close>; \<^verbatim>\<open>None\<close> itself is \<open>Some PNone\<close>.\<close>

definition mk_ticket_mirror :: "pyval option \<Rightarrow> pyval option \<Rightarrow> ticket_mirror" where
  "mk_ticket_mirror state_machine metadata =
     (let md = (case metadata of Some (PDict d) \<Rightarrow> d | _ \<Rightarrow> []);
          enabled = ((case metadata of None \<Rightarrow> False | Some v \<Rightarrow> is_dict v) \<and> pget md ''schema_version'' = PInt 3
             \<and> state_machine \<noteq> None \<and> state_machine \<noteq> Some PNone);
          m = \<lparr>ts_enabled = enabled, ts_metadata = md, ts_problems = mk_collector, ts_current_state = None, ts_close_state = None,
               ts_birth_count = 0, ts_migration_count = 0, ts_machine = None\<rparr>
      in if \<not> enabled then m
         else case state_machine of None \<Rightarrow> m
           | Some v \<Rightarrow> (case normalize_ticket_state_machine v of
               Inl _ \<Rightarrow> m\<lparr>ts_problems := pc_append (Problem ''contracts.json state_machine is malformed'' []) mk_collector\<rparr>
             | Inr sm \<Rightarrow> m\<lparr>ts_machine := Some sm\<rparr>))"

definition ts_note :: "bool \<Rightarrow> string \<Rightarrow> nat \<Rightarrow> ticket_mirror \<Rightarrow> ticket_mirror" where
  "ts_note b msg i m = m\<lparr>ts_problems := note_if b (Problem msg [PInt (int i)]) (ts_problems m)\<rparr>"

definition opt_val :: "string option \<Rightarrow> pyval" where
  "opt_val x = (case x of None \<Rightarrow> PNone | Some s \<Rightarrow> PStr s)"

definition consume_created :: "pydict \<Rightarrow> nat \<Rightarrow> ticket_mirror \<Rightarrow> ticket_mirror" where
  "consume_created payload i m =
     (let m1 = m\<lparr>ts_birth_count := Suc (ts_birth_count m)\<rparr>;
          m2 = ts_note (1 < ts_birth_count m1) ''ticket_created may occur only once'' i m1;
          m3 = ts_note (0 < ts_migration_count m2) ''both ticket_created and migration_applied'' i m2;
          m4 = ts_note (i \<noteq> 1) ''ticket_created must be the first event'' i m3;
          initial = (case pget payload ''birth_kind'' of PStr k \<Rightarrow> dict_get TICKET_INITIAL_STATES k | _ \<Rightarrow> None);
          m5 = (ts_note (initial = None) ''ticket_created.birth_kind is invalid'' i m4)\<lparr>ts_current_state := initial\<rparr>;
          expected_debug = str_with (starts_with ''debug-'') (pget payload ''birth_kind'')
      in ts_note (truthy (pget (ts_metadata m5) ''debug'') \<noteq> expected_debug) ''birth_kind disagrees with metadata.debug'' i m5)"

definition consume_migration :: "nat \<Rightarrow> ticket_mirror \<Rightarrow> ticket_mirror" where
  "consume_migration i m =
     (let m1 = m\<lparr>ts_migration_count := Suc (ts_migration_count m)\<rparr>;
          m2 = ts_note (1 < ts_migration_count m1) ''migration_applied may occur only once'' i m1
      in ts_note (0 < ts_birth_count m2) ''both ticket_created and migration_applied'' i m2)"

definition consume_state_changed :: "state_machine \<Rightarrow> pydict \<Rightarrow> nat \<Rightarrow> ticket_mirror \<Rightarrow> ticket_mirror" where
  "consume_state_changed sm payload i m = (case (pget payload ''from'', pget payload ''to'') of
       (PStr source, PStr target) \<Rightarrow>
         if source \<notin> set (sm_states sm) \<or> target \<notin> set (sm_states sm) then ts_note True ''state_changed names an unknown state'' i m
         else
           let m1 = ts_note (ts_current_state m \<noteq> None \<and> ts_current_state m \<noteq> Some source) ''state_changed.from is not the current state'' i m;
               m2 = ts_note ((source, target) \<notin> set (sm_transitions sm)) ''state_changed is an illegal transition'' i m1;
               delivery = pget payload ''delivery_verdict'';
               m3 = ts_note (target = ''completed'' \<and> \<not> str_with (\<lambda>d. d \<in> set DELIVERY_VERDICTS) delivery)
                      ''completed without a delivery_verdict'' i m2;
               m4 = ts_note (target \<noteq> ''completed'' \<and> delivery \<noteq> PNone) ''delivery_verdict without completed'' i m3
           in m4\<lparr>ts_current_state := Some target\<rparr>
     | _ \<Rightarrow> ts_note True ''state_changed names an unknown state'' i m)"

text \<open>The position of a phase: \<^verbatim>\<open>self.close_phase_indexes[phase]\<close>.\<close>

definition phase_index :: "string list \<Rightarrow> string \<Rightarrow> nat" where
  "phase_index ps p = length (takeWhile (\<lambda>q. q \<noteq> p) ps)"

definition next_phase :: "string list \<Rightarrow> string option \<Rightarrow> string option" where
  "next_phase ps cur =
     (let i = (case cur of None \<Rightarrow> 0 | Some p \<Rightarrow> Suc (phase_index ps p)) in if i < length ps then Some (ps ! i) else None)"

definition consume_close_phase :: "state_machine \<Rightarrow> pydict \<Rightarrow> nat \<Rightarrow> ticket_mirror \<Rightarrow> ticket_mirror" where
  "consume_close_phase sm payload i m =
     (let source = pget payload ''from''; target = pget payload ''to'';
          expected = next_phase (sm_close_phases sm) (ts_close_state m);
          m1 = ts_note (source \<noteq> opt_val (ts_close_state m) \<or> target \<noteq> opt_val expected) ''close_phase is out of order'' i m
      in case target of
          PStr t \<Rightarrow> if t \<in> set (sm_close_phases sm) then m1\<lparr>ts_close_state := Some t\<rparr> else m1
        | _ \<Rightarrow> m1)"

definition consume_reopened :: "pydict \<Rightarrow> nat \<Rightarrow> ticket_mirror \<Rightarrow> ticket_mirror" where
  "consume_reopened payload i m =
     (ts_note (ts_close_state m \<noteq> Some ''closed'' \<or> pget payload ''from'' \<noteq> PStr ''closed'' \<or> pget payload ''to'' \<noteq> PNone)
        ''ticket_reopened must go from closed to null'' i m)\<lparr>ts_close_state := None\<rparr>"

definition ts_consume :: "pydict \<Rightarrow> nat \<Rightarrow> ticket_mirror \<Rightarrow> ticket_mirror" where
  "ts_consume event i m = (case (ts_enabled m, ts_machine m, pget event ''payload'') of
       (True, Some sm, PDict payload) \<Rightarrow>
         let event_type = pget event ''event_type'';
             m1 = ts_note (i = 1 \<and> \<not> str_with (\<lambda>t. t \<in> set ALLOWED_FIRST_EVENT) event_type)
                    ''the first event must be ticket_created or migration_applied'' i m;
             m2 = (if event_type = PStr ''ticket_created'' then consume_created payload i m1
                   else if event_type = PStr ''migration_applied'' then consume_migration i m1 else m1)
         in if event_type = PStr ''state_changed'' then consume_state_changed sm payload i m2
            else if event_type = PStr ''close_phase'' then consume_close_phase sm payload i m2
            else if event_type = PStr ''ticket_reopened'' then consume_reopened payload i m2
            else m2
     | _ \<Rightarrow> m)"

definition ts_finish :: "ticket_mirror \<Rightarrow> bounded_report" where
  "ts_finish m =
     (if \<not> ts_enabled m then pc_render mk_collector
      else if ts_machine m = None then pc_render (ts_problems m)
      else pc_render
        (note_if (opt_val (ts_close_state m) \<noteq> pget (ts_metadata m) ''close_state'')
          (Problem ''final close_state differs from metadata.close_state'' [])
        (note_if (ts_current_state m \<noteq> None \<and> opt_val (ts_current_state m) \<noteq> pget (ts_metadata m) ''status'')
          (Problem ''final state differs from metadata.status'' []) (ts_problems m))))"

text \<open>The loop of \<^verbatim>\<open>_verify_event_chain\<close> hands the events over with their number, from 1 on.\<close>

fun ts_replay :: "nat \<Rightarrow> pydict list \<Rightarrow> ticket_mirror \<Rightarrow> ticket_mirror" where
  "ts_replay i [] m = m"
| "ts_replay i (e # es) m = ts_replay (Suc i) es (ts_consume e i m)"

section \<open>The specification: runs of the declared machine\<close>

type_synonym ticket_state = "string option \<times> string option"

inductive ticket_step :: "state_machine \<Rightarrow> pydict \<Rightarrow> ticket_state \<Rightarrow> ticket_state \<Rightarrow> bool" for sm where
  born: "pget e ''event_type'' = PStr ''ticket_created'' \<Longrightarrow> pget e ''payload'' = PDict p \<Longrightarrow> pget p ''birth_kind'' = PStr k \<Longrightarrow>
    dict_get TICKET_INITIAL_STATES k = Some s \<Longrightarrow> ticket_step sm e (c, cl) (Some s, cl)"
| moved: "pget e ''event_type'' = PStr ''state_changed'' \<Longrightarrow> pget e ''payload'' = PDict p \<Longrightarrow>
    pget p ''from'' = PStr s \<Longrightarrow> pget p ''to'' = PStr t \<Longrightarrow> (s, t) \<in> set (sm_transitions sm) \<Longrightarrow> c = None \<or> c = Some s \<Longrightarrow>
    (t = ''completed'' \<longleftrightarrow> pget p ''delivery_verdict'' \<in> PStr ` set DELIVERY_VERDICTS) \<Longrightarrow> ticket_step sm e (c, cl) (Some t, cl)"
| closing: "pget e ''event_type'' = PStr ''close_phase'' \<Longrightarrow> pget e ''payload'' = PDict p \<Longrightarrow>
    pget p ''from'' = opt_val cl \<Longrightarrow> pget p ''to'' = opt_val (next_phase (sm_close_phases sm) cl) \<Longrightarrow>
    ticket_step sm e (c, cl) (c, if next_phase (sm_close_phases sm) cl = None then cl else next_phase (sm_close_phases sm) cl)"
| reopened: "pget e ''event_type'' = PStr ''ticket_reopened'' \<Longrightarrow> ticket_step sm e (c, Some ''closed'') (c, None)"
| other: "pget e ''event_type'' \<notin> {PStr ''ticket_created'', PStr ''state_changed'', PStr ''close_phase'', PStr ''ticket_reopened''} \<or>
    \<not> is_dict (pget e ''payload'') \<Longrightarrow> ticket_step sm e s s"

inductive ticket_run :: "state_machine \<Rightarrow> pydict list \<Rightarrow> ticket_state \<Rightarrow> ticket_state \<Rightarrow> bool" for sm where
  finished: "ticket_run sm [] s s"
| more: "ticket_step sm e s s' \<Longrightarrow> ticket_run sm es s' s'' \<Longrightarrow> ticket_run sm (e # es) s s''"

section \<open>The mirror implements the specification\<close>

lemma ts_note_fields [simp]:
  "ts_enabled (ts_note b msg i m) = ts_enabled m" "ts_metadata (ts_note b msg i m) = ts_metadata m"
  "ts_current_state (ts_note b msg i m) = ts_current_state m" "ts_close_state (ts_note b msg i m) = ts_close_state m"
  "ts_birth_count (ts_note b msg i m) = ts_birth_count m" "ts_migration_count (ts_note b msg i m) = ts_migration_count m"
  "ts_machine (ts_note b msg i m) = ts_machine m"
  "clean (ts_problems (ts_note b msg i m)) \<longleftrightarrow> \<not> b \<and> clean (ts_problems m)"
  "collector_ok (ts_problems m) \<Longrightarrow> collector_ok (ts_problems (ts_note b msg i m))"
  by (simp_all add: ts_note_def)

lemmas consume_defs = consume_created_def consume_migration_def consume_state_changed_def consume_close_phase_def
  consume_reopened_def

lemma opt_val_simps [simp]: "opt_val None = PNone" "opt_val (Some s) = PStr s"
  by (simp_all add: opt_val_def)

lemma next_phase_mem: "next_phase ps cur = Some p \<Longrightarrow> p \<in> set ps"
  by (auto simp: next_phase_def Let_def split: if_splits)

lemma str_with_iff: "str_with P v \<longleftrightarrow> (\<exists>s. v = PStr s \<and> P s)"
  by (cases v) (simp_all add: str_with_def)

lemma consume_fixed:
  "ts_enabled (consume_created p i m) = ts_enabled m \<and> ts_metadata (consume_created p i m) = ts_metadata m
     \<and> ts_machine (consume_created p i m) = ts_machine m"
  "ts_enabled (consume_migration i m) = ts_enabled m \<and> ts_metadata (consume_migration i m) = ts_metadata m
     \<and> ts_machine (consume_migration i m) = ts_machine m"
  "ts_enabled (consume_state_changed sm p i m) = ts_enabled m \<and> ts_metadata (consume_state_changed sm p i m) = ts_metadata m
     \<and> ts_machine (consume_state_changed sm p i m) = ts_machine m"
  "ts_enabled (consume_close_phase sm p i m) = ts_enabled m \<and> ts_metadata (consume_close_phase sm p i m) = ts_metadata m
     \<and> ts_machine (consume_close_phase sm p i m) = ts_machine m"
  "ts_enabled (consume_reopened p i m) = ts_enabled m \<and> ts_metadata (consume_reopened p i m) = ts_metadata m
     \<and> ts_machine (consume_reopened p i m) = ts_machine m"
  by (auto simp: consume_defs Let_def split: pyval.splits)

lemma ts_consume_fixed [simp]:
  "ts_enabled (ts_consume e i m) = ts_enabled m" "ts_metadata (ts_consume e i m) = ts_metadata m"
  "ts_machine (ts_consume e i m) = ts_machine m"
  by (auto simp: ts_consume_def Let_def consume_fixed split: option.splits pyval.splits bool.splits)

lemma consume_collector_ok:
  assumes "collector_ok (ts_problems m)"
  shows "collector_ok (ts_problems (consume_created p i m))" "collector_ok (ts_problems (consume_migration i m))"
    "collector_ok (ts_problems (consume_state_changed sm p i m))" "collector_ok (ts_problems (consume_close_phase sm p i m))"
    "collector_ok (ts_problems (consume_reopened p i m))"
  using assms by (auto simp: consume_defs Let_def split: pyval.splits)

lemma ts_consume_collector_ok [simp]:
  "collector_ok (ts_problems m) \<Longrightarrow> collector_ok (ts_problems (ts_consume e i m))"
  by (auto simp: ts_consume_def Let_def consume_collector_ok split: option.splits pyval.splits bool.splits)

text \<open>One consumed event: nothing was reported before, and the mirror made a step of the specification.\<close>

abbreviation ts_state :: "ticket_mirror \<Rightarrow> ticket_state" where
  "ts_state m \<equiv> (ts_current_state m, ts_close_state m)"

lemma created_step:
  assumes "clean (ts_problems (consume_created p i m))" "pget e ''event_type'' = PStr ''ticket_created''" "pget e ''payload'' = PDict p"
  shows "clean (ts_problems m) \<and> i = 1 \<and> ts_birth_count m = 0 \<and> ts_birth_count (consume_created p i m) = 1
    \<and> ticket_step sm e (ts_state m) (ts_state (consume_created p i m))"
proof -
  from assms(1) obtain k s where k: "pget p ''birth_kind'' = PStr k" "dict_get TICKET_INITIAL_STATES k = Some s"
    by (auto simp: consume_created_def Let_def split: pyval.splits)
  with assms show ?thesis by (auto simp: consume_created_def Let_def intro!: ticket_step.born)
qed

lemma changed_step:
  assumes "clean (ts_problems (consume_state_changed sm p i m))" "pget e ''event_type'' = PStr ''state_changed''"
    "pget e ''payload'' = PDict p"
  shows "clean (ts_problems m) \<and> ts_birth_count (consume_state_changed sm p i m) = ts_birth_count m
    \<and> ticket_step sm e (ts_state m) (ts_state (consume_state_changed sm p i m))"
proof -
  from assms(1) obtain s t where st: "pget p ''from'' = PStr s" "pget p ''to'' = PStr t"
    by (auto simp: consume_state_changed_def split: pyval.splits)
  with assms(1) have c: "s \<in> set (sm_states sm)" "t \<in> set (sm_states sm)" by (auto simp: consume_state_changed_def split: if_splits)
  with assms st show ?thesis
    by (auto simp: consume_state_changed_def Let_def str_with_iff intro!: ticket_step.moved)
qed

lemma close_step:
  assumes "clean (ts_problems (consume_close_phase sm p i m))" "pget e ''event_type'' = PStr ''close_phase''"
    "pget e ''payload'' = PDict p"
  shows "clean (ts_problems m) \<and> ts_birth_count (consume_close_phase sm p i m) = ts_birth_count m
    \<and> ticket_step sm e (ts_state m) (ts_state (consume_close_phase sm p i m))"
proof -
  let ?n = "next_phase (sm_close_phases sm) (ts_close_state m)"
  have c: "clean (ts_problems m) \<and> pget p ''from'' = opt_val (ts_close_state m) \<and> pget p ''to'' = opt_val ?n"
    using assms(1) by (auto simp: consume_close_phase_def Let_def split: pyval.splits if_splits)
  have "ts_state (consume_close_phase sm p i m) = (ts_current_state m, if ?n = None then ts_close_state m else ?n)"
    using c next_phase_mem [of "sm_close_phases sm" "ts_close_state m"]
    by (cases ?n) (auto simp: consume_close_phase_def Let_def)
  moreover have "ts_birth_count (consume_close_phase sm p i m) = ts_birth_count m"
    by (auto simp: consume_close_phase_def Let_def split: pyval.splits)
  ultimately show ?thesis using c assms(2,3) ticket_step.closing [of e p "ts_close_state m" sm "ts_current_state m"] by auto
qed

lemma reopen_step:
  assumes "clean (ts_problems (consume_reopened p i m))" "pget e ''event_type'' = PStr ''ticket_reopened''"
  shows "clean (ts_problems m) \<and> ts_birth_count (consume_reopened p i m) = ts_birth_count m
    \<and> ticket_step sm e (ts_state m) (ts_state (consume_reopened p i m))"
  using assms by (auto simp: consume_reopened_def intro: ticket_step.reopened)

lemma migration_step:
  assumes "clean (ts_problems (consume_migration i m))"
  shows "clean (ts_problems m) \<and> ts_state (consume_migration i m) = ts_state m \<and> ts_birth_count (consume_migration i m) = ts_birth_count m"
  using assms by (auto simp: consume_migration_def Let_def)

lemma ts_consume_step:
  assumes "ts_enabled m" "ts_machine m = Some sm" "clean (ts_problems (ts_consume e i m))" "is_dict (pget e ''payload'')"
  shows "clean (ts_problems m) \<and> ticket_step sm e (ts_state m) (ts_state (ts_consume e i m))
    \<and> (i = 1 \<longrightarrow> pget e ''event_type'' \<in> PStr ` set ALLOWED_FIRST_EVENT)
    \<and> (pget e ''event_type'' = PStr ''ticket_created'' \<longrightarrow> i = 1)"
proof -
  obtain p where p: "pget e ''payload'' = PDict p" using assms(4) by (cases "pget e ''payload''") (auto simp: is_dict_def)
  define m1 where "m1 = ts_note (i = 1 \<and> \<not> str_with (\<lambda>t. t \<in> set ALLOWED_FIRST_EVENT) (pget e ''event_type''))
     ''the first event must be ticket_created or migration_applied'' i m"
  have m1: "clean (ts_problems m1) \<longrightarrow> clean (ts_problems m) \<and> (i = 1 \<longrightarrow> pget e ''event_type'' \<in> PStr ` set ALLOWED_FIRST_EVENT)"
    "ts_state m1 = ts_state m"
    by (auto simp: m1_def str_with_iff)
  have eq: "ts_consume e i m = (if pget e ''event_type'' = PStr ''ticket_created'' then consume_created p i m1
      else if pget e ''event_type'' = PStr ''migration_applied'' then consume_migration i m1
      else if pget e ''event_type'' = PStr ''state_changed'' then consume_state_changed sm p i m1
      else if pget e ''event_type'' = PStr ''close_phase'' then consume_close_phase sm p i m1
      else if pget e ''event_type'' = PStr ''ticket_reopened'' then consume_reopened p i m1 else m1)"
    using assms(1,2) by (auto simp: ts_consume_def p m1_def Let_def)
  let ?t = "pget e ''event_type''"
  consider "?t = PStr ''ticket_created''" | "?t = PStr ''migration_applied''" | "?t = PStr ''state_changed''"
    | "?t = PStr ''close_phase''" | "?t = PStr ''ticket_reopened''"
    | "?t \<notin> {PStr ''ticket_created'', PStr ''migration_applied'', PStr ''state_changed'', PStr ''close_phase'', PStr ''ticket_reopened''}"
    by blast
  then show ?thesis
  proof cases
    case 1
    then have t: "ts_consume e i m = consume_created p i m1" by (simp add: eq)
    show ?thesis using assms(3) m1 created_step [of p i m1 e sm] p 1 unfolding t by auto
  next
    case 2
    then show ?thesis using assms(3) m1 migration_step [of i m1] ticket_step.other [of e sm] by (simp add: eq)
  next
    case 3
    then show ?thesis using assms(3) m1 changed_step [of sm p i m1 e] p by (simp add: eq)
  next
    case 4
    then show ?thesis using assms(3) m1 close_step [of sm p i m1 e] p by (simp add: eq)
  next
    case 5
    then show ?thesis using assms(3) m1 reopen_step [of p i m1 e sm] by (simp add: eq)
  next
    case 6
    then show ?thesis using assms(3) m1 ticket_step.other [of e sm] by (simp add: eq)
  qed
qed

lemma ts_replay_fixed [simp]:
  "ts_enabled (ts_replay i es m) = ts_enabled m" "ts_metadata (ts_replay i es m) = ts_metadata m"
  "ts_machine (ts_replay i es m) = ts_machine m"
  "collector_ok (ts_problems m) \<Longrightarrow> collector_ok (ts_problems (ts_replay i es m))"
  by (induction i es m rule: ts_replay.induct) simp_all

lemma ts_replay_run:
  assumes "ts_enabled m" "ts_machine m = Some sm" "clean (ts_problems (ts_replay i es m))"
    "list_all (\<lambda>e. is_dict (pget e ''payload'')) es"
  shows "clean (ts_problems m) \<and> ticket_run sm es (ts_state m) (ts_state (ts_replay i es m))
    \<and> (i = 1 \<and> es \<noteq> [] \<longrightarrow> pget (hd es) ''event_type'' \<in> PStr ` set ALLOWED_FIRST_EVENT)
    \<and> (\<forall>j < length es. pget (es ! j) ''event_type'' = PStr ''ticket_created'' \<longrightarrow> i + j = 1)"
  using assms
proof (induction i es m rule: ts_replay.induct)
  case (1 i m)
  then show ?case by (simp add: ticket_run.finished)
next
  case (2 i e es m)
  then have ih: "clean (ts_problems (ts_consume e i m))"
      "ticket_run sm es (ts_state (ts_consume e i m)) (ts_state (ts_replay i (e # es) m))"
      "\<forall>j < length es. pget (es ! j) ''event_type'' = PStr ''ticket_created'' \<longrightarrow> Suc i + j = 1"
    by simp_all
  note st = ts_consume_step [OF "2.prems"(1,2) ih(1)]
  have "pget ((e # es) ! j) ''event_type'' = PStr ''ticket_created'' \<longrightarrow> i + j = 1" if "j < length (e # es)" for j
    using that st ih(3) "2.prems"(4) by (cases j) auto
  with st ih(2) "2.prems"(4) show ?case by (auto intro: ticket_run.more)
qed

text \<open>The events that say which state the ticket is in.\<close>

definition names_state :: "pydict \<Rightarrow> bool" where
  "names_state e \<longleftrightarrow> pget e ''event_type'' \<in> {PStr ''ticket_created'', PStr ''state_changed''}"

lemma ticket_run_state:
  "ticket_run sm es s s' \<Longrightarrow> list_all (\<lambda>e. is_dict (pget e ''payload'')) es \<Longrightarrow> fst s' = None \<longleftrightarrow> fst s = None \<and> \<not> list_ex names_state es"
proof (induction rule: ticket_run.induct)
  case (more e s s' es s'')
  have "fst s' = None \<longleftrightarrow> fst s = None \<and> \<not> names_state e"
    using more.hyps(1) more.prems by cases (auto simp: names_state_def)
  with more show ?case by auto
qed simp

inductive_cases ticket_run_ConsE: "ticket_run sm (e # es) s s'"

lemma ticket_run_middle:
  "ticket_run sm (pre @ e # post) s s'' \<Longrightarrow> \<exists>s1 s2. ticket_step sm e s1 s2 \<and> ticket_run sm post s2 s''"
  by (induction pre arbitrary: s) (auto elim!: ticket_run_ConsE)

lemma ticket_run_kept:
  "ticket_run sm es s s' \<Longrightarrow> \<not> list_ex names_state es \<Longrightarrow> fst s' = fst s"
proof (induction rule: ticket_run.induct)
  case (more e s s' es s'')
  have "fst s' = fst s" using more.hyps(1) more.prems by cases (auto simp: names_state_def)
  with more show ?case by simp
qed simp

text \<open>
  C13. For a pack of schema version 3 with a valid pinned state machine (otherwise the mirror is disabled), a ticket mirror
  that reports nothing on events with object payloads has replayed a run of that machine: it begins with a permitted first
  event, a birth is the first event only, every state change is a declared transition from the current state (completed
  exactly with a delivery verdict), the close phases follow their order, and the final close phase is that of the metadata.
  As soon as one event names a state, the final state is the status of the metadata, and it is the one the last state change
  went to when no birth follows it. A chain without a birth and without a state change says nothing about the status.
\<close>

theorem ticket_states_follow_machine:
  assumes "pget md ''schema_version'' = PInt 3" "normalize_ticket_state_machine v = Inr sm"
    and "list_all (\<lambda>e. is_dict (pget e ''payload'')) es"
    and "br_values (ts_finish (ts_replay 1 es (mk_ticket_mirror (Some v) (Some (PDict md))))) = []"
  shows "\<exists>cur cl. ticket_run sm es (None, None) (cur, cl) \<and> (cur = None \<longleftrightarrow> \<not> list_ex names_state es)
    \<and> (list_ex names_state es \<longrightarrow> pget md ''status'' = opt_val cur)
    \<and> (\<forall>pre e p post. es = pre @ e # post \<and> pget e ''event_type'' = PStr ''state_changed'' \<and> pget e ''payload'' = PDict p
         \<and> \<not> list_ex names_state post \<longrightarrow> pget md ''status'' = pget p ''to'')
    \<and> pget md ''close_state'' = opt_val cl \<and> (es = [] \<or> pget (hd es) ''event_type'' \<in> PStr ` set ALLOWED_FIRST_EVENT)
    \<and> (\<forall>j < length es. pget (es ! j) ''event_type'' = PStr ''ticket_created'' \<longrightarrow> j = 0)"
proof -
  let ?init = "mk_ticket_mirror (Some v) (Some (PDict md))"
  let ?m = "ts_replay 1 es ?init"
  have "v \<noteq> PNone" using assms(2) by (auto simp: normalize_ticket_state_machine_def)
  then have m0: "ts_enabled ?init" "ts_machine ?init = Some sm" "ts_state ?init = (None, None)" "ts_metadata ?init = md"
    "collector_ok (ts_problems ?init)"
    using assms(1,2) by (simp_all add: mk_ticket_mirror_def is_dict_def)
  then have c: "clean (ts_problems ?m)" "opt_val (ts_close_state ?m) = pget md ''close_state''"
    "ts_current_state ?m = None \<or> opt_val (ts_current_state ?m) = pget md ''status''"
    using assms(4) by (auto simp: ts_finish_def render_empty_iff)
  let ?cur = "ts_current_state ?m" and ?cl = "ts_close_state ?m"
  note replay = ts_replay_run [OF m0(1,2) c(1) assms(3), unfolded m0(3)]
  then have run: "ticket_run sm es (None, None) (?cur, ?cl)" by simp
  have none: "?cur = None \<longleftrightarrow> \<not> list_ex names_state es" using ticket_run_state [OF run assms(3)] by simp
  then have status: "list_ex names_state es \<longrightarrow> pget md ''status'' = opt_val ?cur" using c(3) by auto
  have "pget md ''status'' = pget p ''to''"
    if e: "es = pre @ e # post" "pget e ''event_type'' = PStr ''state_changed''" "pget e ''payload'' = PDict p" "\<not> list_ex names_state post" for pre e p post
  proof -
    from run e(1) obtain s1 s2 where st: "ticket_step sm e s1 s2" "ticket_run sm post s2 (?cur, ?cl)"
      using ticket_run_middle by blast
    then have "fst s2 = ?cur" using ticket_run_kept [OF st(2) e(4)] by simp
    moreover from st(1) have "opt_val (fst s2) = pget p ''to''" by cases (use e(2,3) in \<open>auto simp: is_dict_def\<close>)
    moreover have "list_ex names_state es" using e(1,2) by (simp add: names_state_def)
    ultimately show ?thesis using status by simp
  qed
  with run none status replay c(2) show ?thesis
    by (intro exI [of _ ?cur] exI [of _ ?cl]) auto
qed

section \<open>Normalising again changes nothing\<close>

lemma name_list_map: "name_list lo hi v = Some ns \<Longrightarrow> v = PList (map PStr ns) \<and> name_list lo hi (PList (map PStr ns)) = Some ns"
  by (auto simp: name_list_def split: pyval.splits option.splits if_splits)

lemma map_res_Inr: "map_res f xs = Inr ys \<Longrightarrow> list_all2 (\<lambda>x y. f x = Inr y) xs ys"
  by (induction xs arbitrary: ys) auto

lemma map_res_map: "list_all (\<lambda>y. f (g y) = Inr y) ys \<Longrightarrow> map_res f (map g ys) = Inr ys"
  by (induction ys) auto

lemma transition_of_Inr: "transition_of states v = Inr (s, t) \<Longrightarrow> s \<in> set states \<and> t \<in> set states"
  by (auto simp: transition_of_def split: pyval.splits if_splits)

lemma normalize_ticket_state_machine_again:
  assumes "normalize_ticket_state_machine v = Inr sm"
  shows "normalize_ticket_state_machine (state_machine_dict sm) = Inr sm"
proof -
  from assms obtain d states ts transitions phases where d: "v = PDict d" "name_list 1 MAX_TICKET_STATES (pget d ''states'') = Some states"
    "pget d ''transitions'' = PList ts" "length ts \<le> MAX_TICKET_TRANSITIONS" "map_res (transition_of states) ts = Inr transitions"
    "name_list 1 MAX_CLOSE_PHASES (pget d ''close_phases'') = Some phases" "last phases = ''closed''"
    "sm = \<lparr>sm_states = states, sm_transitions = transitions, sm_close_phases = phases\<rparr>"
    by (auto simp: normalize_ticket_state_machine_def not_less split: pyval.splits option.splits if_splits)
  have l: "list_all2 (\<lambda>x y. transition_of states x = Inr y) ts transitions" using d(5) by (rule map_res_Inr)
  then have "length transitions \<le> MAX_TICKET_TRANSITIONS" using d(4) by (simp add: list_all2_lengthD)
  moreover have "list_all (\<lambda>y. transition_of states ((\<lambda>(s, t). PDict [(PStr ''from'', PStr s), (PStr ''to'', PStr t)]) y) = Inr y) transitions"
  proof -
    have "s \<in> set states \<and> t \<in> set states" if "(s, t) \<in> set transitions" for s t
      using l that transition_of_Inr by (auto simp: list_all2_conv_all_nth in_set_conv_nth)
    then show ?thesis by (auto simp: list_all_iff transition_of_def pget_def)
  qed
  then have "map_res (transition_of states) (map (\<lambda>(s, t). PDict [(PStr ''from'', PStr s), (PStr ''to'', PStr t)]) transitions) = Inr transitions"
    by (rule map_res_map)
  ultimately show ?thesis
    using d(2,6,7,8) name_list_map
    by (simp add: normalize_ticket_state_machine_def state_machine_dict_def pget_def)
qed

section \<open>Witnesses\<close>

definition demo_machine :: pyval where
  "demo_machine = PDict [(PStr ''states'', PList [PStr ''init_in_progress'', PStr ''completed'']),
     (PStr ''transitions'', PList [PDict [(PStr ''from'', PStr ''init_in_progress''), (PStr ''to'', PStr ''completed'')]]),
     (PStr ''close_phases'', PList [PStr ''archiving'', PStr ''closed''])]"

definition demo_machine_norm :: state_machine where
  "demo_machine_norm = \<lparr>sm_states = [''init_in_progress'', ''completed''], sm_transitions = [(''init_in_progress'', ''completed'')],
     sm_close_phases = [''archiving'', ''closed'']\<rparr>"

definition demo_event :: "string \<Rightarrow> (string \<times> pyval) list \<Rightarrow> pydict" where
  "demo_event t p = [(PStr ''event_type'', PStr t), (PStr ''payload'', PDict (map (\<lambda>(k, v). (PStr k, v)) p))]"

definition demo_ticket_events :: "pydict list" where
  "demo_ticket_events = [demo_event ''ticket_created'' [(''birth_kind'', PStr ''init'')],
     demo_event ''state_changed'' [(''from'', PStr ''init_in_progress''), (''to'', PStr ''completed''), (''delivery_verdict'', PStr ''verified'')],
     demo_event ''close_phase'' [(''from'', PNone), (''to'', PStr ''archiving'')]]"

definition demo_ticket_metadata :: pydict where
  "demo_ticket_metadata = [(PStr ''schema_version'', PInt 3), (PStr ''status'', PStr ''completed''), (PStr ''close_state'', PStr ''archiving'')]"

theorem ticket_states_follow_machine_witness:
  "\<exists>cur cl. ticket_run demo_machine_norm demo_ticket_events (None, None) (cur, cl) \<and> opt_val cur = PStr ''completed'' \<and> opt_val cl = PStr ''archiving''"
proof -
  have "normalize_ticket_state_machine demo_machine = Inr demo_machine_norm"
    by (simp add: normalize_ticket_state_machine_def demo_machine_def demo_machine_norm_def pget_def name_list_def transition_of_def
        MAX_TICKET_STATES_def MAX_TICKET_TRANSITIONS_def MAX_CLOSE_PHASES_def)
  moreover have "br_values (ts_finish (ts_replay 1 demo_ticket_events (mk_ticket_mirror (Some demo_machine) (Some (PDict demo_ticket_metadata))))) = []"
    by code_simp
  moreover have "list_all (\<lambda>e. is_dict (pget e ''payload'')) demo_ticket_events" by code_simp
  moreover have "pget demo_ticket_metadata ''schema_version'' = PInt 3" "pget demo_ticket_metadata ''close_state'' = PStr ''archiving''"
    "pget demo_ticket_metadata ''status'' = PStr ''completed''" "list_ex names_state demo_ticket_events" by code_simp+
  ultimately show ?thesis using ticket_states_follow_machine [of demo_ticket_metadata demo_machine demo_machine_norm demo_ticket_events] by metis
qed

end
