(* ===== verification/Pack_Execution.thy ===== *)
theory Pack_Execution
  imports Pack_State
begin

text \<open>
  The execution model of a contract snapshot and the mirror that replays it (\<^verbatim>\<open>_ExecutionEventMirror\<close> of
  \<^verbatim>\<open>pack_verify.py\<close>): pairing of steps and operations, open side effects, and the receipt a transition to
  \<^verbatim>\<open>completed\<close> needs. The theorems read what a mirror without problems says about the events themselves.
\<close>

section \<open>The catalogue of the execution model\<close>

definition MAX_EXECUTION_MODEL_STEPS :: nat where
  "MAX_EXECUTION_MODEL_STEPS = 4096"

definition MAX_EXECUTION_MODEL_ENUM_VALUES :: nat where
  "MAX_EXECUTION_MODEL_ENUM_VALUES = 256"

record execution_model =
  em_steps :: "string list"
  em_boundaries :: "string list"
  em_step_outcomes :: "string list"
  em_operation_classes :: "string list"
  em_failure_classes :: "string list option"
  em_success_decision_version :: "int option"

definition normalize_names :: "string \<Rightarrow> nat \<Rightarrow> pyval \<Rightarrow> string list res" where
  "normalize_names field_name hi raw = (case name_list 1 hi raw of
       None \<Rightarrow> Inl (PyValueError (''execution_model.'' @ field_name @ '' is malformed''))
     | Some ns \<Rightarrow> Inr ns)"

text \<open>\<^verbatim>\<open>list(d)\<close> of a dictionary is the list of its keys; a snapshot has the list itself.\<close>

definition names_source :: "bool \<Rightarrow> string \<Rightarrow> pyval \<Rightarrow> pyval res" where
  "names_source snapshot field_name v =
     (if snapshot then Inr v
      else case v of PDict d \<Rightarrow> Inr (PList (dict_keys d)) | _ \<Rightarrow> Inl (PyValueError (''execution_model.'' @ field_name @ '' must be an object'')))"

definition normalize_execution_model :: "bool \<Rightarrow> pyval \<Rightarrow> execution_model res" where
  "normalize_execution_model snapshot v = (case v of
       PDict d \<Rightarrow>
         if pget d ''schema_version'' \<noteq> PInt 1 then Inl (PyValueError ''execution_model.schema_version must be 1'')
         else
           bindr (names_source snapshot ''step_contracts'' (pget d (if snapshot then ''steps'' else ''step_contracts''))) (\<lambda>raw_steps.
           bindr (normalize_names ''steps'' MAX_EXECUTION_MODEL_STEPS raw_steps) (\<lambda>steps.
           bindr (normalize_names ''boundaries'' MAX_EXECUTION_MODEL_ENUM_VALUES (pget d ''boundaries'')) (\<lambda>boundaries.
           bindr (normalize_names ''step_outcomes'' MAX_EXECUTION_MODEL_ENUM_VALUES (pget d ''step_outcomes'')) (\<lambda>outcomes.
           bindr (names_source snapshot ''operation_classes'' (pget d ''operation_classes'')) (\<lambda>raw_classes.
           bindr (normalize_names ''operation_classes'' MAX_EXECUTION_MODEL_ENUM_VALUES raw_classes) (\<lambda>classes.
           bindr (let field_name = (if snapshot then ''failure_classes'' else ''failure_policies'')
                  in if has_key d field_name
                     then bindr (names_source snapshot field_name (pget d field_name)) (\<lambda>raw.
                          bindr (normalize_names ''failure_classes'' MAX_EXECUTION_MODEL_ENUM_VALUES raw) (\<lambda>fs. Inr (Some (sort fs))))
                     else Inr None) (\<lambda>failures.
           bindr (if snapshot \<and> has_key d ''success_decision_version''
                  then (if pget d ''success_decision_version'' = PInt 1 then Inr (Some 1)
                        else Inl (PyValueError ''execution_model.success_decision_version must be 1''))
                  else Inr None) (\<lambda>version.
             Inr \<lparr>em_steps = sort steps, em_boundaries = boundaries, em_step_outcomes = outcomes, em_operation_classes = sort classes,
                  em_failure_classes = failures, em_success_decision_version = version\<rparr>))))))))
     | _ \<Rightarrow> Inl (PyValueError ''execution_model must be an object''))"

text \<open>The dictionary the normalisation returns, with the keys that are set.\<close>

definition execution_model_dict :: "execution_model \<Rightarrow> pyval" where
  "execution_model_dict em = PDict
     ([(PStr ''schema_version'', PInt 1), (PStr ''steps'', PList (map PStr (em_steps em))),
       (PStr ''boundaries'', PList (map PStr (em_boundaries em))), (PStr ''step_outcomes'', PList (map PStr (em_step_outcomes em))),
       (PStr ''operation_classes'', PList (map PStr (em_operation_classes em)))]
      @ (case em_failure_classes em of None \<Rightarrow> [] | Some fs \<Rightarrow> [(PStr ''failure_classes'', PList (map PStr fs))])
      @ (case em_success_decision_version em of None \<Rightarrow> [] | Some i \<Rightarrow> [(PStr ''success_decision_version'', PInt i)]))"

definition execution_model_snapshot_from_raw :: "pydict \<Rightarrow> execution_model option res" where
  "execution_model_snapshot_from_raw raw_contracts = (case pget raw_contracts ''execution_model'' of
       PDict d \<Rightarrow>
         if pget d ''schema_version'' \<noteq> PInt 1 then Inr None
         else bindr (normalize_execution_model False (PDict d)) (\<lambda>em. Inr (Some (em\<lparr>em_success_decision_version := Some 1\<rparr>)))
     | _ \<Rightarrow> Inr None)"

record completion_policy =
  cp_step :: string
  cp_required_checks :: "string list"

definition step_name_ok :: "pyval \<Rightarrow> bool" where
  "step_name_ok v = str_with (\<lambda>s. s \<noteq> [] \<and> length s \<le> 128) v"

definition normalize_completion_receipt :: "pyval \<Rightarrow> completion_policy res" where
  "normalize_completion_receipt v = (case v of
       PDict d \<Rightarrow>
         if set (dict_keys d) \<noteq> PStr ` {''schema_version'', ''target'', ''step'', ''required_checks''}
         then Inl (PyValueError ''completion_receipt has an invalid set of fields'')
         else if pget d ''schema_version'' \<noteq> PInt 1 then Inl (PyValueError ''completion_receipt.schema_version must be 1'')
         else if pget d ''target'' \<noteq> PStr ''completed'' then Inl (PyValueError ''completion_receipt.target must be completed'')
         else (case pget d ''step'' of
             PStr st \<Rightarrow>
               if \<not> step_name_ok (PStr st) then Inl (PyValueError ''completion_receipt.step is malformed'')
               else (case name_list 1 MAX_EXECUTION_MODEL_ENUM_VALUES (pget d ''required_checks'') of
                   None \<Rightarrow> Inl (PyValueError ''completion_receipt.required_checks is malformed'')
                 | Some cs \<Rightarrow> Inr \<lparr>cp_step = st, cp_required_checks = cs\<rparr>)
           | _ \<Rightarrow> Inl (PyValueError ''completion_receipt.step is malformed''))
     | _ \<Rightarrow> Inl (PyValueError ''completion_receipt must be an object''))"

definition completion_receipt_snapshot_from_raw :: "pydict \<Rightarrow> completion_policy option res" where
  "completion_receipt_snapshot_from_raw raw_contracts =
     (case as_dict (pget raw_contracts ''state_machine'') of None \<Rightarrow> Inr None | Some sm \<Rightarrow>
     (case as_dict (pget sm ''gate_policy'') of None \<Rightarrow> Inr None | Some gp \<Rightarrow>
     (case as_dict (pget gp ''step_by_target'') of
        None \<Rightarrow> Inl (PyValueError ''step_by_target is malformed'')
      | Some by_target \<Rightarrow>
          if \<not> has_key by_target ''completed'' then Inr None
          else (case pget by_target ''completed'' of
              PStr st \<Rightarrow>
                if \<not> step_name_ok (PStr st) then Inl (PyValueError ''step_by_target.completed is malformed'')
                else (case as_dict (pget raw_contracts ''execution_model'') of
                    None \<Rightarrow> Inl (PyValueError ''completed needs execution_model v1'')
                  | Some em \<Rightarrow>
                      if pget em ''schema_version'' \<noteq> PInt 1 then Inl (PyValueError ''completed needs execution_model v1'')
                      else (case as_dict (pget em ''step_contracts'') of
                          None \<Rightarrow> Inl (PyValueError ''completed step has no contract'')
                        | Some scs \<Rightarrow>
                            if \<not> has_key scs st then Inl (PyValueError ''completed step has no contract'')
                            else (case as_dict (pget scs st) of
                                None \<Rightarrow> Inl (PyValueError ''contract of the completed step is malformed'')
                              | Some sc \<Rightarrow>
                                  (case (case pget em ''boundaries'' of PList bs \<Rightarrow> map_opt as_str bs | _ \<Rightarrow> None) of
                                     None \<Rightarrow> Inl (PyValueError ''execution_model.boundaries is malformed'')
                                   | Some bs \<Rightarrow>
                                       bindr (normalize_completion_receipt (PDict [(PStr ''schema_version'', PInt 1),
                                         (PStr ''target'', PStr ''completed''), (PStr ''step'', PStr st),
                                         (PStr ''required_checks'', pget sc ''required_checks'')])) (\<lambda>cp.
                                       if list_ex (\<lambda>b. b \<notin> set bs) (cp_required_checks cp)
                                       then Inl (PyValueError ''completion_receipt.required_checks names an unknown boundary'')
                                       else Inr (Some cp))))))
            | _ \<Rightarrow> Inl (PyValueError ''step_by_target.completed is malformed'')))))"

section \<open>The mirror\<close>

record step_state =
  ss_step :: "string option"
  ss_finished :: bool

record operation_state =
  os_name :: "string option"
  os_class :: "string option"
  os_finished :: bool

record completion_state =
  cs_gate_results :: "(string, string) dict"
  cs_outcome :: pyval
  cs_checks :: pyval
  cs_finished_at :: "nat option"

record execution_mirror =
  ex_enabled :: bool
  ex_problems :: problem_collector
  ex_has_versioned_events :: bool
  ex_steps :: "(string, step_state) dict"
  ex_operations :: "(string, operation_state) dict"
  ex_open_side_effects :: "string set"
  ex_policy :: "completion_policy option"
  ex_versioned_birth :: bool
  ex_completed_seen :: bool
  ex_latest :: "(string \<times> completion_state) option"
  ex_model :: execution_model

definition empty_model :: execution_model where
  "empty_model = \<lparr>em_steps = [], em_boundaries = [], em_step_outcomes = [], em_operation_classes = [], em_failure_classes = None,
     em_success_decision_version = None\<rparr>"

definition ex_note :: "bool \<Rightarrow> string \<Rightarrow> nat \<Rightarrow> execution_mirror \<Rightarrow> execution_mirror" where
  "ex_note b msg i m = m\<lparr>ex_problems := note_if b (Problem msg [PInt (int i)]) (ex_problems m)\<rparr>"

definition mk_execution_mirror :: "pyval option \<Rightarrow> pyval option \<Rightarrow> execution_mirror" where
  "mk_execution_mirror execution_model completion_receipt =
     (let enabled = (execution_model \<noteq> None \<and> execution_model \<noteq> Some PNone);
          m = \<lparr>ex_enabled = enabled, ex_problems = mk_collector, ex_has_versioned_events = False, ex_steps = [], ex_operations = [],
               ex_open_side_effects = {}, ex_policy = None, ex_versioned_birth = False, ex_completed_seen = False, ex_latest = None,
               ex_model = empty_model\<rparr>;
          m1 = (case completion_receipt of None \<Rightarrow> m
                | Some v \<Rightarrow> (case normalize_completion_receipt v of
                    Inl _ \<Rightarrow> ex_note True ''contracts.json completion_receipt is malformed'' 0 m
                  | Inr cp \<Rightarrow> m\<lparr>ex_policy := Some cp\<rparr>));
          m2 = ex_note (ex_policy m1 \<noteq> None \<and> \<not> enabled) ''contracts.json completion_receipt without execution_model'' 0 m1
      in case execution_model of None \<Rightarrow> m2
        | Some v \<Rightarrow>
            if \<not> enabled then m2
            else (case normalize_execution_model True v of
                Inl _ \<Rightarrow> (ex_note True ''contracts.json execution_model is malformed'' 0 m2)\<lparr>ex_enabled := False\<rparr>
              | Inr em \<Rightarrow>
                  (ex_note (case ex_policy m2 of None \<Rightarrow> False
                      | Some cp \<Rightarrow> cp_step cp \<notin> set (em_steps em) \<or> list_ex (\<lambda>b. b \<notin> set (em_boundaries em)) (cp_required_checks cp))
                    ''contracts.json completion_receipt disagrees with execution_model'' 0 m2)\<lparr>ex_model := em\<rparr>))"

definition fingerprint :: "pack_env \<Rightarrow> string \<Rightarrow> string" where
  "fingerprint env s = pk_sha256 env (utf8 s)"

text \<open>\<^verbatim>\<open>isinstance(v, str) and v\<close> for the attempt of a payload, and its key.\<close>

definition attempt_key :: "pack_env \<Rightarrow> pydict \<Rightarrow> string option" where
  "attempt_key env payload = (case pget payload ''attempt'' of PStr a \<Rightarrow> if a = [] then None else Some (fingerprint env a) | _ \<Rightarrow> None)"

definition track_completion_attempt :: "pack_env \<Rightarrow> pyval \<Rightarrow> pydict \<Rightarrow> nat \<Rightarrow> execution_mirror \<Rightarrow> execution_mirror" where
  "track_completion_attempt env event_type payload i m = (case (ex_policy m, attempt_key env payload) of
       (Some cp, Some key) \<Rightarrow>
         if event_type = PStr ''step_started'' \<and> pget payload ''step'' = PStr (cp_step cp)
         then m\<lparr>ex_latest := Some (key, \<lparr>cs_gate_results = [], cs_outcome = PNone, cs_checks = PNone, cs_finished_at = None\<rparr>)\<rparr>
         else (case ex_latest m of None \<Rightarrow> m
           | Some (k, st) \<Rightarrow>
               if key \<noteq> k \<or> pget payload ''step'' \<noteq> PStr (cp_step cp) then m
               else if event_type = PStr ''gate_checked'' then
                 (case (pget payload ''boundary'', pget payload ''result'') of
                    (PStr b, PStr r) \<Rightarrow> m\<lparr>ex_latest := Some (k, st\<lparr>cs_gate_results := dict_set b r (cs_gate_results st)\<rparr>)\<rparr>
                  | _ \<Rightarrow> m)
               else if event_type = PStr ''step_finished'' then
                 m\<lparr>ex_latest := Some (k, st\<lparr>cs_outcome := pget payload ''outcome'', cs_checks := pget payload ''checks'',
                     cs_finished_at := Some i\<rparr>)\<rparr>
               else m)
     | _ \<Rightarrow> m)"

definition results_val :: "(string, string) dict \<Rightarrow> pyval" where
  "results_val d = PDict (map (\<lambda>(k, v). (PStr k, PStr v)) d)"

definition check_completion_receipt :: "pydict \<Rightarrow> nat \<Rightarrow> execution_mirror \<Rightarrow> execution_mirror" where
  "check_completion_receipt payload i m = (case ex_policy m of None \<Rightarrow> m
     | Some cp \<Rightarrow>
         if \<not> (ex_latest m \<noteq> None \<or> ex_versioned_birth m \<and> pget payload ''gates_skipped_for_test'' \<noteq> PBool True) then m
         else (case ex_latest m of
             None \<Rightarrow> ex_note True ''completed without step_started of the completion_receipt'' i m
           | Some (k, st) \<Rightarrow>
               (case cs_finished_at st of
                  None \<Rightarrow> ex_note True ''completed without an earlier step_finished of the completion_receipt'' i m
                | Some n \<Rightarrow>
                    if i \<le> n then ex_note True ''completed without an earlier step_finished of the completion_receipt'' i m
                    else
                      let m1 = ex_note (\<not> str_with (\<lambda>s. s \<in> {''success'', ''degraded''}) (cs_outcome st)) ''completion_receipt outcome'' i m;
                          m2 = ex_note (\<not> is_dict (cs_checks st) \<or> \<not> py_eq (cs_checks st) (results_val (cs_gate_results st)))
                                 ''completion_receipt checks differ from gate_checked'' i m1
                      in fold (\<lambda>b. ex_note (dict_get (cs_gate_results st) b \<noteq> Some ''pass'') ''completion_receipt check did not pass'' i)
                           (cp_required_checks cp) m2)))"

definition valid_digest :: "pyval \<Rightarrow> bool" where
  "valid_digest v = str_with hex64_text v"

definition SUCCESS_OPERATION_DECISION_FIELDS :: "string list" where
  "SUCCESS_OPERATION_DECISION_FIELDS = [''action'', ''reason'', ''conclusion_ceiling'', ''auto_retry'']"

definition has_pinned_success_decision :: "pydict \<Rightarrow> bool" where
  "has_pinned_success_decision decision \<longleftrightarrow>
     set (dict_keys decision) = PStr ` set SUCCESS_OPERATION_DECISION_FIELDS
     \<and> pget decision ''action'' = PStr ''complete'' \<and> pget decision ''reason'' = PStr ''operation_succeeded''
     \<and> pget decision ''conclusion_ceiling'' = PStr ''verified'' \<and> pget decision ''auto_retry'' = PBool False"

text \<open>\<^verbatim>\<open>isinstance(v, int) and v >= 0\<close>; a boolean is an integer.\<close>

definition nonneg_int :: "pyval \<Rightarrow> bool" where
  "nonneg_int v = (case v of PInt i \<Rightarrow> 0 \<le> i | PBool _ \<Rightarrow> True | _ \<Rightarrow> False)"

definition ex_step_started :: "pydict \<Rightarrow> string \<Rightarrow> nat \<Rightarrow> execution_mirror \<Rightarrow> execution_mirror" where
  "ex_step_started payload key i m =
     (let m1 = ex_note (\<not> str_with (\<lambda>s. s \<in> set (em_steps (ex_model m))) (pget payload ''step'')) ''step_started.step is invalid'' i m;
          m2 = ex_note (dict_get (ex_steps m1) key \<noteq> None) ''step_started attempt started twice'' i m1;
          m3 = ex_note (\<not> valid_digest (pget payload ''input_digest'')) ''step_started.input_digest is invalid'' i m2;
          m4 = ex_note (\<not> valid_digest (pget payload ''contract_digest'')) ''step_started.contract_digest is invalid'' i m3
      in m4\<lparr>ex_steps := dict_set key \<lparr>ss_step = as_str (pget payload ''step''), ss_finished = False\<rparr> (ex_steps m4)\<rparr>)"

definition ex_gate_checked :: "pydict \<Rightarrow> nat \<Rightarrow> execution_mirror \<Rightarrow> execution_mirror" where
  "ex_gate_checked payload i m =
     ex_note (\<not> valid_digest (pget payload ''current_digest'')) ''gate_checked.current_digest is invalid'' i
     (ex_note (\<not> valid_digest (pget payload ''captured_digest'')) ''gate_checked.captured_digest is invalid'' i
     (ex_note (\<not> str_with (\<lambda>r. r \<in> {''pass'', ''blocked''}) (pget payload ''result'')) ''gate_checked.result is invalid'' i
     (ex_note (\<not> str_with (\<lambda>b. b \<in> set (em_boundaries (ex_model m))) (pget payload ''boundary'')) ''gate_checked.boundary is invalid'' i m)))"

definition ex_step_finished :: "pydict \<Rightarrow> string \<Rightarrow> step_state \<Rightarrow> nat \<Rightarrow> execution_mirror \<Rightarrow> execution_mirror" where
  "ex_step_finished payload key st i m =
     (let m1 = ex_note (\<not> str_with (\<lambda>out. out \<in> set (em_step_outcomes (ex_model m))) (pget payload ''outcome'')) ''step_finished.outcome is invalid'' i m;
          m2 = ex_note (\<not> nonneg_int (pget payload ''duration_ms'')) ''step_finished.duration_ms is invalid'' i m1
      in m2\<lparr>ex_steps := dict_set key (st\<lparr>ss_finished := True\<rparr>) (ex_steps m2)\<rparr>)"

definition ex_step_event :: "string \<Rightarrow> pydict \<Rightarrow> string \<Rightarrow> nat \<Rightarrow> execution_mirror \<Rightarrow> execution_mirror" where
  "ex_step_event event_type payload key i m = (case dict_get (ex_steps m) key of
       None \<Rightarrow> ex_note True ''event of an unknown step attempt'' i m
     | Some st \<Rightarrow>
         let m1 = ex_note (ss_finished st) (if event_type = ''step_finished'' then ''step attempt finished twice'' else ''event after step_finished'') i m;
             m2 = ex_note (pget payload ''step'' \<noteq> opt_val (ss_step st)) ''step differs from the started one'' i m1
         in if event_type = ''gate_checked'' then ex_gate_checked payload i m2
            else if event_type = ''artifact_written'' then ex_note (\<not> valid_digest (pget payload ''sha256'')) ''artifact_written.sha256 is invalid'' i m2
            else ex_step_finished payload key st i m2)"

definition ex_operation_started :: "pack_env \<Rightarrow> pydict \<Rightarrow> string \<Rightarrow> nat \<Rightarrow> execution_mirror \<Rightarrow> execution_mirror" where
  "ex_operation_started env payload key i m =
     (let name = pget payload ''name''; op_class = pget payload ''class'';
          m1 = ex_note (\<not> str_with (\<lambda>n. n \<noteq> []) name) ''operation_started.name is invalid'' i m;
          m2 = ex_note (\<not> str_with (\<lambda>c. c \<in> set (em_operation_classes (ex_model m))) op_class) ''operation_started.class is invalid'' i m1;
          m3 = ex_note (\<not> valid_digest (pget payload ''input_digest'')) ''operation_started.input_digest is invalid'' i m2;
          m4 = ex_note (\<not> (case pget payload ''idempotency_provided'' of PBool _ \<Rightarrow> True | _ \<Rightarrow> False))
                 ''operation_started.idempotency_provided is invalid'' i m3;
          m5 = ex_note (dict_get (ex_operations m4) key \<noteq> None) ''operation attempt started twice'' i m4;
          m6 = m5\<lparr>ex_operations := dict_set key
                 \<lparr>os_name = map_option (fingerprint env) (as_str name), os_class = as_str op_class, os_finished = False\<rparr> (ex_operations m5)\<rparr>
      in if op_class \<noteq> PStr ''read_only'' then m6\<lparr>ex_open_side_effects := insert key (ex_open_side_effects m6)\<rparr> else m6)"

definition ex_failure_problem :: "string list option \<Rightarrow> pyval \<Rightarrow> pyval \<Rightarrow> bool" where
  "ex_failure_problem failure_classes outcome failure = (case failure_classes of None \<Rightarrow> False
     | Some fs \<Rightarrow>
         if outcome = PStr ''success'' then failure \<noteq> PNone \<and> failure \<noteq> PStr []
         else \<not> str_with (\<lambda>f. strip f \<noteq> [] \<and> f \<in> set fs) failure)"

definition ex_operation_finished :: "pack_env \<Rightarrow> pydict \<Rightarrow> string \<Rightarrow> nat \<Rightarrow> execution_mirror \<Rightarrow> execution_mirror" where
  "ex_operation_finished env payload key i m = (case dict_get (ex_operations m) key of
       None \<Rightarrow> ex_note True ''operation_finished of an unknown attempt'' i m
     | Some st \<Rightarrow>
         let outcome = pget payload ''outcome''; decision = pget payload ''decision'';
             m1 = ex_note (os_finished st) ''operation attempt finished twice'' i m;
             m2 = ex_note (\<not> str_with (\<lambda>n. Some (fingerprint env n) = os_name st) (pget payload ''name'')
                    \<or> pget payload ''class'' \<noteq> opt_val (os_class st)) ''operation_finished differs from the started one'' i m1;
             m3 = ex_note (\<not> str_with (\<lambda>out. out \<in> set (em_step_outcomes (ex_model m))) outcome) ''operation_finished.outcome is invalid'' i m2;
             m4 = ex_note (\<not> nonneg_int (pget payload ''duration_ms'')) ''operation_finished.duration_ms is invalid'' i m3;
             m5 = fold (\<lambda>f. ex_note (\<not> has_nonempty_text (pget payload f)) ''operation_finished lacks a text'' i) [''evidence'', ''after_check''] m4;
             m6 = ex_note (\<not> is_dict decision) ''operation_finished lacks a decision'' i m5;
             m7 = ex_note (ex_failure_problem (em_failure_classes (ex_model m)) outcome (pget payload ''failure'')) ''operation_finished.failure'' i m6;
             m8 = ex_note (em_success_decision_version (ex_model m) = Some 1 \<and> outcome = PStr ''success''
                    \<and> (case decision of PDict d \<Rightarrow> \<not> has_pinned_success_decision d | _ \<Rightarrow> False)) ''operation_finished.decision'' i m7;
             m9 = m8\<lparr>ex_operations := dict_set key (st\<lparr>os_finished := True\<rparr>) (ex_operations m8)\<rparr>
         in if os_class st \<noteq> Some ''read_only'' then m9\<lparr>ex_open_side_effects := ex_open_side_effects m9 - {key}\<rparr> else m9)"

text \<open>Without an execution model only the open side effects are tracked.\<close>

definition ex_consume_disabled :: "pyval \<Rightarrow> pydict \<Rightarrow> string \<Rightarrow> execution_mirror \<Rightarrow> execution_mirror" where
  "ex_consume_disabled event_type payload key m =
     (if event_type = PStr ''operation_started'' then
        (if pget payload ''class'' \<noteq> PStr ''read_only'' then m\<lparr>ex_open_side_effects := insert key (ex_open_side_effects m)\<rparr> else m)
      else if event_type = PStr ''operation_finished'' then m\<lparr>ex_open_side_effects := ex_open_side_effects m - {key}\<rparr>
      else m)"

definition ex_consume_versioned :: "pack_env \<Rightarrow> pyval \<Rightarrow> pydict \<Rightarrow> nat \<Rightarrow> execution_mirror \<Rightarrow> execution_mirror" where
  "ex_consume_versioned env event_type payload i m =
     (let m1 = track_completion_attempt env event_type payload i (m\<lparr>ex_has_versioned_events := True\<rparr>)
      in case attempt_key env payload of
          None \<Rightarrow> ex_note (ex_enabled m1) ''no attempt'' i m1
        | Some key \<Rightarrow>
            if \<not> ex_enabled m1 then ex_consume_disabled event_type payload key m1
            else if event_type = PStr ''step_started'' then ex_step_started payload key i m1
            else if event_type = PStr ''gate_checked'' then ex_step_event ''gate_checked'' payload key i m1
            else if event_type = PStr ''artifact_written'' then ex_step_event ''artifact_written'' payload key i m1
            else if event_type = PStr ''step_finished'' then ex_step_event ''step_finished'' payload key i m1
            else if event_type = PStr ''operation_started'' then ex_operation_started env payload key i m1
            else if event_type = PStr ''operation_finished'' then ex_operation_finished env payload key i m1
            else m1)"

definition ex_state_changed :: "pydict \<Rightarrow> nat \<Rightarrow> execution_mirror \<Rightarrow> execution_mirror" where
  "ex_state_changed payload i m =
     (let m1 = ex_note (ex_open_side_effects m \<noteq> {}) ''state_changed while a side effect is open'' i m
      in if pget payload ''to'' = PStr ''completed'' then check_completion_receipt payload i (m1\<lparr>ex_completed_seen := True\<rparr>) else m1)"

definition ex_consume :: "pack_env \<Rightarrow> pydict \<Rightarrow> nat \<Rightarrow> execution_mirror \<Rightarrow> execution_mirror" where
  "ex_consume env event i m = (case pget event ''payload'' of
       PDict payload \<Rightarrow>
         (let event_type = pget event ''event_type''
          in if event_type = PStr ''ticket_created'' then
               (if pget payload ''execution_contract_version'' = PInt 1 then m\<lparr>ex_versioned_birth := True\<rparr> else m)
             else if event_type = PStr ''state_changed'' then ex_state_changed payload i m
             else if \<not> py_eq (pget payload ''execution_model_version'') (PInt 1) then m
             else ex_consume_versioned env event_type payload i m)
     | _ \<Rightarrow> m)"

text \<open>\<^verbatim>\<open>event_type in {...}\<close> raises \<^verbatim>\<open>TypeError\<close> for a list or an object: such an event ends the whole pass.\<close>

definition ex_raises :: "pack_env \<Rightarrow> pydict \<Rightarrow> execution_mirror \<Rightarrow> bool" where
  "ex_raises env event m = (case pget event ''payload'' of
       PDict payload \<Rightarrow> py_eq (pget payload ''execution_model_version'') (PInt 1) \<and> ex_enabled m \<and> attempt_key env payload \<noteq> None
         \<and> \<not> hashable (pget event ''event_type'')
     | _ \<Rightarrow> False)"

definition ex_finish :: "execution_mirror \<Rightarrow> bounded_report" where
  "ex_finish m = pc_render (ex_problems m)"

fun ex_replay :: "pack_env \<Rightarrow> nat \<Rightarrow> pydict list \<Rightarrow> execution_mirror \<Rightarrow> execution_mirror" where
  "ex_replay env i [] m = m"
| "ex_replay env i (e # es) m = ex_replay env (Suc i) es (ex_consume env e i m)"

section \<open>What a step leaves alone\<close>

lemma ex_note_fields [simp]:
  "ex_enabled (ex_note b msg i m) = ex_enabled m" "ex_steps (ex_note b msg i m) = ex_steps m"
  "ex_operations (ex_note b msg i m) = ex_operations m" "ex_open_side_effects (ex_note b msg i m) = ex_open_side_effects m"
  "ex_policy (ex_note b msg i m) = ex_policy m" "ex_versioned_birth (ex_note b msg i m) = ex_versioned_birth m"
  "ex_latest (ex_note b msg i m) = ex_latest m" "ex_model (ex_note b msg i m) = ex_model m"
  "clean (ex_problems (ex_note b msg i m)) \<longleftrightarrow> \<not> b \<and> clean (ex_problems m)"
  "collector_ok (ex_problems m) \<Longrightarrow> collector_ok (ex_problems (ex_note b msg i m))"
  by (simp_all add: ex_note_def)

lemma fold_ex_note_fields [simp]:
  "ex_enabled (fold (\<lambda>x. ex_note (P x) msg i) xs m) = ex_enabled m" "ex_steps (fold (\<lambda>x. ex_note (P x) msg i) xs m) = ex_steps m"
  "ex_operations (fold (\<lambda>x. ex_note (P x) msg i) xs m) = ex_operations m"
  "ex_open_side_effects (fold (\<lambda>x. ex_note (P x) msg i) xs m) = ex_open_side_effects m"
  "ex_policy (fold (\<lambda>x. ex_note (P x) msg i) xs m) = ex_policy m"
  "ex_versioned_birth (fold (\<lambda>x. ex_note (P x) msg i) xs m) = ex_versioned_birth m"
  "ex_latest (fold (\<lambda>x. ex_note (P x) msg i) xs m) = ex_latest m" "ex_model (fold (\<lambda>x. ex_note (P x) msg i) xs m) = ex_model m"
  "clean (ex_problems (fold (\<lambda>x. ex_note (P x) msg i) xs m)) \<longleftrightarrow> (\<forall>x\<in>set xs. \<not> P x) \<and> clean (ex_problems m)"
  "collector_ok (ex_problems m) \<Longrightarrow> collector_ok (ex_problems (fold (\<lambda>x. ex_note (P x) msg i) xs m))"
  by (induction xs arbitrary: m) auto

lemma track_fields [simp]:
  "ex_enabled (track_completion_attempt env t p i m) = ex_enabled m" "ex_steps (track_completion_attempt env t p i m) = ex_steps m"
  "ex_operations (track_completion_attempt env t p i m) = ex_operations m"
  "ex_open_side_effects (track_completion_attempt env t p i m) = ex_open_side_effects m"
  "ex_policy (track_completion_attempt env t p i m) = ex_policy m"
  "ex_versioned_birth (track_completion_attempt env t p i m) = ex_versioned_birth m"
  "ex_problems (track_completion_attempt env t p i m) = ex_problems m" "ex_model (track_completion_attempt env t p i m) = ex_model m"
  by (auto simp: track_completion_attempt_def split: option.split pyval.split)

lemma check_receipt_fields [simp]:
  "ex_enabled (check_completion_receipt p i m) = ex_enabled m" "ex_steps (check_completion_receipt p i m) = ex_steps m"
  "ex_operations (check_completion_receipt p i m) = ex_operations m"
  "ex_open_side_effects (check_completion_receipt p i m) = ex_open_side_effects m"
  "ex_policy (check_completion_receipt p i m) = ex_policy m"
  "ex_versioned_birth (check_completion_receipt p i m) = ex_versioned_birth m"
  "ex_latest (check_completion_receipt p i m) = ex_latest m" "ex_model (check_completion_receipt p i m) = ex_model m"
  by (auto simp: check_completion_receipt_def Let_def split: option.split)

text \<open>
  The steps of versioned events keep the policy and the tracked completion attempt, and a problem once
  reported stays reported.
\<close>

lemma ex_step_started_keeps [simp]:
  "ex_enabled (ex_step_started p key i m) = ex_enabled m" "ex_policy (ex_step_started p key i m) = ex_policy m"
  "ex_versioned_birth (ex_step_started p key i m) = ex_versioned_birth m" "ex_model (ex_step_started p key i m) = ex_model m"
  "ex_latest (ex_step_started p key i m) = ex_latest m"
  "collector_ok (ex_problems m) \<Longrightarrow> collector_ok (ex_problems (ex_step_started p key i m))"
  by (simp_all add: ex_step_started_def Let_def split: option.split)

lemma ex_step_started_clean: "clean (ex_problems (ex_step_started p key i m)) \<Longrightarrow> clean (ex_problems m)"
  by (auto simp: ex_step_started_def Let_def split: option.splits if_splits)

lemma ex_gate_checked_keeps [simp]:
  "ex_enabled (ex_gate_checked p i m) = ex_enabled m" "ex_policy (ex_gate_checked p i m) = ex_policy m"
  "ex_versioned_birth (ex_gate_checked p i m) = ex_versioned_birth m" "ex_model (ex_gate_checked p i m) = ex_model m"
  "ex_latest (ex_gate_checked p i m) = ex_latest m"
  "collector_ok (ex_problems m) \<Longrightarrow> collector_ok (ex_problems (ex_gate_checked p i m))"
  by (simp_all add: ex_gate_checked_def Let_def split: option.split)

lemma ex_gate_checked_clean: "clean (ex_problems (ex_gate_checked p i m)) \<Longrightarrow> clean (ex_problems m)"
  by (auto simp: ex_gate_checked_def Let_def split: option.splits if_splits)

lemma ex_step_finished_keeps [simp]:
  "ex_enabled (ex_step_finished p key st i m) = ex_enabled m" "ex_policy (ex_step_finished p key st i m) = ex_policy m"
  "ex_versioned_birth (ex_step_finished p key st i m) = ex_versioned_birth m" "ex_model (ex_step_finished p key st i m) = ex_model m"
  "ex_latest (ex_step_finished p key st i m) = ex_latest m"
  "collector_ok (ex_problems m) \<Longrightarrow> collector_ok (ex_problems (ex_step_finished p key st i m))"
  by (simp_all add: ex_step_finished_def Let_def split: option.split)

lemma ex_step_finished_clean: "clean (ex_problems (ex_step_finished p key st i m)) \<Longrightarrow> clean (ex_problems m)"
  by (auto simp: ex_step_finished_def Let_def split: option.splits if_splits)

lemma ex_step_event_keeps [simp]:
  "ex_enabled (ex_step_event t p key i m) = ex_enabled m" "ex_policy (ex_step_event t p key i m) = ex_policy m"
  "ex_versioned_birth (ex_step_event t p key i m) = ex_versioned_birth m" "ex_model (ex_step_event t p key i m) = ex_model m"
  "ex_latest (ex_step_event t p key i m) = ex_latest m"
  "collector_ok (ex_problems m) \<Longrightarrow> collector_ok (ex_problems (ex_step_event t p key i m))"
  by (simp_all add: ex_step_event_def Let_def split: option.split)

lemma ex_step_event_clean: "clean (ex_problems (ex_step_event t p key i m)) \<Longrightarrow> clean (ex_problems m)"
  by (auto simp: ex_step_event_def Let_def split: option.splits if_splits dest!: ex_gate_checked_clean ex_step_finished_clean)

lemma ex_operation_started_keeps [simp]:
  "ex_enabled (ex_operation_started env p key i m) = ex_enabled m" "ex_policy (ex_operation_started env p key i m) = ex_policy m"
  "ex_versioned_birth (ex_operation_started env p key i m) = ex_versioned_birth m" "ex_model (ex_operation_started env p key i m) = ex_model m"
  "ex_latest (ex_operation_started env p key i m) = ex_latest m"
  "collector_ok (ex_problems m) \<Longrightarrow> collector_ok (ex_problems (ex_operation_started env p key i m))"
  by (simp_all add: ex_operation_started_def Let_def split: option.split)

lemma ex_operation_started_clean: "clean (ex_problems (ex_operation_started env p key i m)) \<Longrightarrow> clean (ex_problems m)"
  by (auto simp: ex_operation_started_def Let_def split: option.splits if_splits)

lemma ex_operation_finished_keeps [simp]:
  "ex_enabled (ex_operation_finished env p key i m) = ex_enabled m" "ex_policy (ex_operation_finished env p key i m) = ex_policy m"
  "ex_versioned_birth (ex_operation_finished env p key i m) = ex_versioned_birth m" "ex_model (ex_operation_finished env p key i m) = ex_model m"
  "ex_latest (ex_operation_finished env p key i m) = ex_latest m"
  "collector_ok (ex_problems m) \<Longrightarrow> collector_ok (ex_problems (ex_operation_finished env p key i m))"
  by (simp_all add: ex_operation_finished_def Let_def split: option.split)

lemma ex_operation_finished_clean: "clean (ex_problems (ex_operation_finished env p key i m)) \<Longrightarrow> clean (ex_problems m)"
  by (auto simp: ex_operation_finished_def Let_def split: option.splits if_splits)

lemma ex_consume_disabled_keeps [simp]:
  "ex_enabled (ex_consume_disabled t p key m) = ex_enabled m" "ex_policy (ex_consume_disabled t p key m) = ex_policy m"
  "ex_versioned_birth (ex_consume_disabled t p key m) = ex_versioned_birth m" "ex_model (ex_consume_disabled t p key m) = ex_model m"
  "ex_latest (ex_consume_disabled t p key m) = ex_latest m"
  "collector_ok (ex_problems m) \<Longrightarrow> collector_ok (ex_problems (ex_consume_disabled t p key m))"
  by (simp_all add: ex_consume_disabled_def Let_def split: option.split)

lemma ex_consume_disabled_clean: "clean (ex_problems (ex_consume_disabled t p key m)) \<Longrightarrow> clean (ex_problems m)"
  by (auto simp: ex_consume_disabled_def Let_def split: option.splits if_splits)

lemma versioned_fields:
  "ex_enabled (ex_consume_versioned env t p i m) = ex_enabled m"
  "ex_policy (ex_consume_versioned env t p i m) = ex_policy m"
  "ex_versioned_birth (ex_consume_versioned env t p i m) = ex_versioned_birth m"
  "ex_model (ex_consume_versioned env t p i m) = ex_model m"
  "ex_latest (ex_consume_versioned env t p i m) = ex_latest (track_completion_attempt env t p i (m\<lparr>ex_has_versioned_events := True\<rparr>))"
  by (simp_all add: ex_consume_versioned_def Let_def split: option.split)

lemma versioned_collector_ok: "collector_ok (ex_problems m) \<Longrightarrow> collector_ok (ex_problems (ex_consume_versioned env t p i m))"
  by (simp add: ex_consume_versioned_def Let_def split: option.split)

lemma versioned_clean:
  assumes "clean (ex_problems (ex_consume_versioned env t p i m))"
  shows "clean (ex_problems m)"
proof -
  let ?m = "track_completion_attempt env t p i (m\<lparr>ex_has_versioned_events := True\<rparr>)"
  have "clean (ex_problems ?m)"
    using assms unfolding ex_consume_versioned_def Let_def
    by (auto split: option.splits if_splits dest: ex_step_started_clean ex_step_event_clean ex_operation_started_clean
        ex_operation_finished_clean ex_consume_disabled_clean simp del: track_fields(7))
  then show ?thesis by simp
qed

lemma receipt_clean: "clean (ex_problems (check_completion_receipt p i m)) \<Longrightarrow> clean (ex_problems m)"
  by (auto simp: check_completion_receipt_def Let_def split: option.splits if_splits)

lemma receipt_collector_ok: "collector_ok (ex_problems m) \<Longrightarrow> collector_ok (ex_problems (check_completion_receipt p i m))"
  by (auto simp: check_completion_receipt_def Let_def split: option.split)

lemma consume_fixed_ex [simp]:
  "ex_enabled (ex_consume env e i m) = ex_enabled m" "ex_policy (ex_consume env e i m) = ex_policy m"
  "ex_model (ex_consume env e i m) = ex_model m"
  by (auto simp: ex_consume_def ex_state_changed_def Let_def versioned_fields split: pyval.split)

lemma consume_clean: "clean (ex_problems (ex_consume env e i m)) \<Longrightarrow> clean (ex_problems m)"
  by (auto simp: ex_consume_def ex_state_changed_def Let_def split: pyval.splits if_splits dest: versioned_clean receipt_clean)

lemma consume_collector_ok_ex: "collector_ok (ex_problems m) \<Longrightarrow> collector_ok (ex_problems (ex_consume env e i m))"
  by (auto simp: ex_consume_def ex_state_changed_def Let_def versioned_collector_ok receipt_collector_ok split: pyval.split)

lemma ex_replay_append: "ex_replay env i (as @ bs) m = ex_replay env (i + length as) bs (ex_replay env i as m)"
  by (induction as arbitrary: i m) simp_all

lemma ex_replay_fixed [simp]:
  "ex_enabled (ex_replay env i es m) = ex_enabled m" "ex_policy (ex_replay env i es m) = ex_policy m"
  "collector_ok (ex_problems m) \<Longrightarrow> collector_ok (ex_problems (ex_replay env i es m))"
  by (induction env i es m rule: ex_replay.induct) (simp_all add: consume_collector_ok_ex)

lemma ex_replay_clean: "clean (ex_problems (ex_replay env i es m)) \<Longrightarrow> clean (ex_problems m)"
  by (induction env i es m rule: ex_replay.induct) (auto dest: consume_clean)

section \<open>Open side effects\<close>

text \<open>The side effects that are open after a list of events, read from the events alone.\<close>

definition effect_step :: "pack_env \<Rightarrow> pydict \<Rightarrow> string set \<Rightarrow> string set" where
  "effect_step env e S = (case pget e ''payload'' of
       PDict p \<Rightarrow>
         if py_eq (pget p ''execution_model_version'') (PInt 1) then
           (case attempt_key env p of None \<Rightarrow> S
            | Some k \<Rightarrow>
                if pget e ''event_type'' = PStr ''operation_started'' then (if pget p ''class'' \<noteq> PStr ''read_only'' then insert k S else S)
                else if pget e ''event_type'' = PStr ''operation_finished'' then S - {k} else S)
         else S
     | _ \<Rightarrow> S)"

definition open_effects :: "pack_env \<Rightarrow> pydict list \<Rightarrow> string set" where
  "open_effects env es = fold (effect_step env) es {}"

definition effects_inv :: "execution_mirror \<Rightarrow> string set \<Rightarrow> bool" where
  "effects_inv m S \<longleftrightarrow> ex_open_side_effects m = S
     \<and> (ex_enabled m \<longrightarrow> (\<forall>k\<in>S. \<exists>st. dict_get (ex_operations m) k = Some st \<and> os_class st \<noteq> Some ''read_only''))"

lemma effects_inv_other:
  "ex_enabled m' = ex_enabled m \<Longrightarrow> ex_operations m' = ex_operations m \<Longrightarrow> ex_open_side_effects m' = ex_open_side_effects m \<Longrightarrow>
    effects_inv m' S \<longleftrightarrow> effects_inv m S"
  by (simp add: effects_inv_def)

lemma step_event_operations [simp]:
  "ex_operations (ex_step_started p key i m) = ex_operations m" "ex_open_side_effects (ex_step_started p key i m) = ex_open_side_effects m"
  "ex_operations (ex_step_event t p key i m) = ex_operations m" "ex_open_side_effects (ex_step_event t p key i m) = ex_open_side_effects m"
  by (simp_all add: ex_step_started_def ex_step_event_def ex_gate_checked_def ex_step_finished_def Let_def split: option.split)

lemma started_effects:
  assumes "effects_inv m S" "clean (ex_problems (ex_operation_started env p key i m))" "ex_enabled m"
  shows "effects_inv (ex_operation_started env p key i m) (if pget p ''class'' \<noteq> PStr ''read_only'' then insert key S else S)"
proof -
  have fresh: "dict_get (ex_operations m) key = None" and c: "\<exists>c. pget p ''class'' = PStr c"
    using assms(2) by (auto simp: ex_operation_started_def Let_def str_with_iff split: if_splits)
  then have "key \<notin> S" using assms(1,3) by (auto simp: effects_inv_def)
  with assms(1,3) c show ?thesis by (auto simp: effects_inv_def ex_operation_started_def Let_def)
qed

lemma finished_effects:
  assumes "effects_inv m S" "clean (ex_problems (ex_operation_finished env p key i m))" "ex_enabled m"
  shows "effects_inv (ex_operation_finished env p key i m) (S - {key})"
proof -
  obtain st where st: "dict_get (ex_operations m) key = Some st"
    using assms(2) by (auto simp: ex_operation_finished_def split: option.splits)
  then have "os_class st = Some ''read_only'' \<Longrightarrow> key \<notin> S" using assms(1,3) by (auto simp: effects_inv_def)
  with assms(1,3) st show ?thesis by (auto simp: effects_inv_def ex_operation_finished_def Let_def)
qed

lemma consume_effects:
  assumes "effects_inv m S" "clean (ex_problems (ex_consume env e i m))"
  shows "effects_inv (ex_consume env e i m) (effect_step env e S)
    \<and> (pget e ''event_type'' = PStr ''state_changed'' \<and> is_dict (pget e ''payload'') \<longrightarrow> S = {})"
proof (cases "pget e ''payload''")
  case (PDict p)
  let ?t = "pget e ''event_type''"
  consider "?t = PStr ''ticket_created''" | "?t = PStr ''state_changed''"
    | "?t \<noteq> PStr ''ticket_created''" "?t \<noteq> PStr ''state_changed''" "\<not> py_eq (pget p ''execution_model_version'') (PInt 1)"
    | "?t \<noteq> PStr ''ticket_created''" "?t \<noteq> PStr ''state_changed''" "py_eq (pget p ''execution_model_version'') (PInt 1)"
    by blast
  then show ?thesis
  proof cases
    case 1
    with assms(1) show ?thesis by (auto simp: ex_consume_def PDict effect_step_def effects_inv_def split: option.split)
  next
    case 2
    have "ex_open_side_effects m = {}"
      using assms(2) 2 by (auto simp: ex_consume_def PDict ex_state_changed_def Let_def split: if_splits dest: receipt_clean)
    with 2 assms(1) show ?thesis
      by (auto simp: ex_consume_def PDict effect_step_def effects_inv_def ex_state_changed_def Let_def split: option.split)
  next
    case 3
    with assms(1) show ?thesis by (auto simp: ex_consume_def PDict effect_step_def)
  next
    case 4
    then have c: "ex_consume env e i m = ex_consume_versioned env ?t p i m" by (auto simp: ex_consume_def PDict)
    define m1 where "m1 = track_completion_attempt env ?t p i (m\<lparr>ex_has_versioned_events := True\<rparr>)"
    have m1: "effects_inv m1 S" using assms(1) by (simp add: m1_def effects_inv_def)
    show ?thesis
    proof (cases "attempt_key env p")
      case None
      then show ?thesis using 4 m1 by (auto simp: c ex_consume_versioned_def Let_def m1_def [symmetric] effect_step_def PDict effects_inv_def)
    next
      case (Some key)
      have cl: "clean (ex_problems (ex_consume_versioned env ?t p i m))" using assms(2) by (simp add: c)
      have "effects_inv (ex_consume_versioned env ?t p i m)
          (if ?t = PStr ''operation_started'' then (if pget p ''class'' \<noteq> PStr ''read_only'' then insert key S else S)
           else if ?t = PStr ''operation_finished'' then S - {key} else S)"
      proof (cases "ex_enabled m1")
        case False
        then show ?thesis using m1
          by (auto simp: ex_consume_versioned_def Let_def Some m1_def [symmetric] ex_consume_disabled_def effects_inv_def)
      next
        case True
        note v = ex_consume_versioned_def [of env ?t p i m, unfolded Let_def Some option.case m1_def [symmetric]]
        consider "?t = PStr ''operation_started''" | "?t = PStr ''operation_finished''"
          | "?t \<noteq> PStr ''operation_started''" "?t \<noteq> PStr ''operation_finished''" by blast
        then show ?thesis
        proof cases
          case 1
          then have "ex_consume_versioned env ?t p i m = ex_operation_started env p key i m1" unfolding v using True by simp
          with started_effects [OF m1 _ True, of env p key i] cl 1 show ?thesis by simp
        next
          case 2
          then have "ex_consume_versioned env ?t p i m = ex_operation_finished env p key i m1" unfolding v using True by simp
          with finished_effects [OF m1 _ True, of env p key i] cl 2 show ?thesis by simp
        next
          case 3
          then have "effects_inv (ex_consume_versioned env ?t p i m) S \<longleftrightarrow> effects_inv m1 S"
            using True by (intro effects_inv_other) (simp_all add: v)
          with 3 m1 show ?thesis by simp
        qed
      qed
      with 4 show ?thesis by (simp add: c effect_step_def PDict Some)
    qed
  qed
qed (use assms(1) in \<open>simp_all add: ex_consume_def effect_step_def is_dict_def\<close>)

lemma replay_effects:
  "effects_inv m S \<Longrightarrow> clean (ex_problems (ex_replay env i es m)) \<Longrightarrow> effects_inv (ex_replay env i es m) (fold (effect_step env) es S)"
proof (induction env i es m arbitrary: S rule: ex_replay.induct)
  case (2 env i e es m)
  then have "clean (ex_problems (ex_consume env e i m))" by (simp add: ex_replay_clean)
  with 2 consume_effects [OF "2.prems"(1)] show ?case by simp
qed simp

lemma mk_execution_mirror_start:
  "ex_operations (mk_execution_mirror em cr) = []" "ex_open_side_effects (mk_execution_mirror em cr) = {}"
  "ex_latest (mk_execution_mirror em cr) = None" "\<not> ex_versioned_birth (mk_execution_mirror em cr)"
  "ex_steps (mk_execution_mirror em cr) = []" "collector_ok (ex_problems (mk_execution_mirror em cr))"
  by (auto simp: mk_execution_mirror_def Let_def split: option.split sum.split)

section \<open>Side effects and state changes\<close>

text \<open>A versioned event of the given type for the attempt with the given fingerprint.\<close>

definition attempt_event :: "pack_env \<Rightarrow> string \<Rightarrow> pydict \<Rightarrow> string \<Rightarrow> bool" where
  "attempt_event env t e k \<longleftrightarrow> pget e ''event_type'' = PStr t
     \<and> (case pget e ''payload'' of PDict p \<Rightarrow> py_eq (pget p ''execution_model_version'') (PInt 1) \<and> attempt_key env p = Some k | _ \<Rightarrow> False)"

definition starts_effect :: "pack_env \<Rightarrow> pydict \<Rightarrow> string \<Rightarrow> bool" where
  "starts_effect env e k \<longleftrightarrow> attempt_event env ''operation_started'' e k
     \<and> (case pget e ''payload'' of PDict p \<Rightarrow> pget p ''class'' \<noteq> PStr ''read_only'' | _ \<Rightarrow> False)"

lemma effect_step_mem:
  "k \<in> effect_step env e S \<longleftrightarrow> starts_effect env e k \<or> k \<in> S \<and> \<not> attempt_event env ''operation_finished'' e k"
  by (auto simp: effect_step_def starts_effect_def attempt_event_def split: pyval.split option.split)

lemma effect_stays_open:
  "k \<in> S \<Longrightarrow> \<not> list_ex (\<lambda>x. attempt_event env ''operation_finished'' x k) es \<Longrightarrow> k \<in> fold (effect_step env) es S"
  by (induction es arbitrary: S) (auto simp: effect_step_mem)

lemma open_effects_finished:
  assumes "open_effects env (a @ s # b) = {}" and "starts_effect env s k"
  shows "list_ex (\<lambda>x. attempt_event env ''operation_finished'' x k) b"
proof (rule ccontr)
  assume "\<not> ?thesis"
  moreover have "k \<in> effect_step env s (fold (effect_step env) a {})" using assms(2) by (simp add: effect_step_mem)
  ultimately have "k \<in> open_effects env (a @ s # b)" by (simp add: open_effects_def effect_stays_open)
  with assms(1) show False by simp
qed

text \<open>
  C12. No ticket state changes while a side effect is open: in a chain the execution mirror accepts, an operation of a class
  other than \<^verbatim>\<open>read_only\<close> that was started before a \<^verbatim>\<open>state_changed\<close> event was finished after
  its start and before that event. This speaks of operation events with \<^verbatim>\<open>execution_model_version\<close> 1 and a
  nonempty attempt; the mirror does not track the unversioned events of older packs.
\<close>

theorem no_state_change_while_side_effect_open:
  assumes "br_values (ex_finish (ex_replay env 1 ((a @ s # b) @ e # post) (mk_execution_mirror em cr))) = []"
    and "pget e ''event_type'' = PStr ''state_changed''" and "is_dict (pget e ''payload'')"
    and "attempt_event env ''operation_started'' s k" and "pget s ''payload'' = PDict q" and "pget q ''class'' \<noteq> PStr ''read_only''"
  shows "list_ex (\<lambda>x. attempt_event env ''operation_finished'' x k) b"
proof (rule open_effects_finished)
  show "starts_effect env s k" using assms(4-6) by (simp add: starts_effect_def)
  let ?es = "a @ s # b"
  let ?m = "mk_execution_mirror em cr"
  let ?pre = "ex_replay env 1 ?es ?m"
  have "clean (ex_problems (ex_replay env 1 (?es @ e # post) ?m))"
    using assms(1) unfolding ex_finish_def by (subst (asm) render_empty_iff) (simp_all add: mk_execution_mirror_start)
  then have "clean (ex_problems (ex_replay env (Suc (length ?es)) (e # post) ?pre))" unfolding ex_replay_append by simp
  then have e: "clean (ex_problems (ex_consume env e (Suc (length ?es)) ?pre))" by (simp add: ex_replay_clean)
  have "effects_inv ?m {}" by (simp add: effects_inv_def mk_execution_mirror_start)
  then have "effects_inv ?pre (open_effects env ?es)"
    unfolding open_effects_def using consume_clean [OF e] by (rule replay_effects)
  from consume_effects [OF this e] assms(2,3) show "open_effects env ?es = {}" by simp
qed

section \<open>Pairing of operations\<close>

definition ops_inv :: "pack_env \<Rightarrow> pydict list \<Rightarrow> execution_mirror \<Rightarrow> bool" where
  "ops_inv env pre m \<longleftrightarrow> (\<forall>k. dict_get (ex_operations m) k = None \<longleftrightarrow> \<not> list_ex (\<lambda>x. attempt_event env ''operation_started'' x k) pre)
     \<and> (\<forall>k st. dict_get (ex_operations m) k = Some st \<longrightarrow> os_finished st = list_ex (\<lambda>x. attempt_event env ''operation_finished'' x k) pre)
     \<and> (\<forall>k. list_ex (\<lambda>x. attempt_event env ''operation_finished'' x k) pre \<longrightarrow>
          list_ex (\<lambda>x. attempt_event env ''operation_started'' x k) pre)"

lemma ops_inv_skip:
  assumes "ops_inv env pre m" "ex_operations m' = ex_operations m"
    and "\<And>k. \<not> attempt_event env ''operation_started'' e k" "\<And>k. \<not> attempt_event env ''operation_finished'' e k"
  shows "ops_inv env (pre @ [e]) m'"
  using assms by (simp add: ops_inv_def)

lemma started_ops:
  assumes "ops_inv env pre m" "clean (ex_problems (ex_operation_started env p key i m))"
    and "\<And>k. attempt_event env ''operation_started'' e k \<longleftrightarrow> k = key" "\<And>k. \<not> attempt_event env ''operation_finished'' e k"
  shows "ops_inv env (pre @ [e]) (ex_operation_started env p key i m) \<and> \<not> list_ex (\<lambda>x. attempt_event env ''operation_started'' x key) pre"
proof -
  have fresh: "dict_get (ex_operations m) key = None"
    using assms(2) by (auto simp: ex_operation_started_def Let_def split: if_splits)
  with assms(1) have no: "\<not> list_ex (\<lambda>x. attempt_event env ''operation_started'' x key) pre"
    "\<not> list_ex (\<lambda>x. attempt_event env ''operation_finished'' x key) pre" by (auto simp: ops_inv_def)
  let ?st = "\<lparr>os_name = map_option (fingerprint env) (as_str (pget p ''name'')), os_class = as_str (pget p ''class''), os_finished = False\<rparr>"
  have st: "ex_operations (ex_operation_started env p key i m) = dict_set key ?st (ex_operations m)"
    by (simp add: ex_operation_started_def Let_def)
  show ?thesis using assms(1,3,4) no unfolding ops_inv_def st by auto
qed

lemma finished_ops:
  assumes "ops_inv env pre m" "clean (ex_problems (ex_operation_finished env p key i m))"
    and "\<And>k. attempt_event env ''operation_finished'' e k \<longleftrightarrow> k = key" "\<And>k. \<not> attempt_event env ''operation_started'' e k"
  shows "ops_inv env (pre @ [e]) (ex_operation_finished env p key i m)
    \<and> list_ex (\<lambda>x. attempt_event env ''operation_started'' x key) pre \<and> \<not> list_ex (\<lambda>x. attempt_event env ''operation_finished'' x key) pre"
proof -
  obtain st where st: "dict_get (ex_operations m) key = Some st" "\<not> os_finished st"
    using assms(2) by (auto simp: ex_operation_finished_def Let_def split: option.splits if_splits)
  then have ops: "ex_operations (ex_operation_finished env p key i m) = dict_set key (st\<lparr>os_finished := True\<rparr>) (ex_operations m)"
    by (simp add: ex_operation_finished_def Let_def)
  have s: "list_ex (\<lambda>x. attempt_event env ''operation_started'' x key) pre"
    using assms(1) st(1) unfolding ops_inv_def by (metis option.distinct(1))
  moreover have "\<not> list_ex (\<lambda>x. attempt_event env ''operation_finished'' x key) pre"
    using assms(1) st unfolding ops_inv_def by blast
  ultimately show ?thesis using assms(1,3,4) st(1) unfolding ops_inv_def ops by auto
qed

lemma consume_ops:
  assumes "ops_inv env pre m" "ex_enabled m" "clean (ex_problems (ex_consume env e i m))"
  shows "ops_inv env (pre @ [e]) (ex_consume env e i m)
    \<and> (\<forall>k. attempt_event env ''operation_started'' e k \<longrightarrow> \<not> list_ex (\<lambda>x. attempt_event env ''operation_started'' x k) pre)
    \<and> (\<forall>k. attempt_event env ''operation_finished'' e k \<longrightarrow> list_ex (\<lambda>x. attempt_event env ''operation_started'' x k) pre
         \<and> \<not> list_ex (\<lambda>x. attempt_event env ''operation_finished'' x k) pre)"
proof (cases "\<exists>p key. pget e ''payload'' = PDict p \<and> py_eq (pget p ''execution_model_version'') (PInt 1) \<and> attempt_key env p = Some key
    \<and> pget e ''event_type'' \<in> {PStr ''operation_started'', PStr ''operation_finished''}")
  case True
  then obtain p key where p: "pget e ''payload'' = PDict p" "py_eq (pget p ''execution_model_version'') (PInt 1)"
    "attempt_key env p = Some key" "pget e ''event_type'' \<in> {PStr ''operation_started'', PStr ''operation_finished''}" by blast
  define m1 where "m1 = track_completion_attempt env (pget e ''event_type'') p i (m\<lparr>ex_has_versioned_events := True\<rparr>)"
  have m1: "ops_inv env pre m1" "ex_enabled m1" using assms(1,2) by (simp_all add: m1_def ops_inv_def)
  have ev: "attempt_event env t e k \<longleftrightarrow> pget e ''event_type'' = PStr t \<and> k = key" for t k using p by (auto simp: attempt_event_def)
  from p(4) consider "pget e ''event_type'' = PStr ''operation_started''" | "pget e ''event_type'' = PStr ''operation_finished''" by blast
  then show ?thesis
  proof cases
    case 1
    then have "ex_consume env e i m = ex_operation_started env p key i m1"
      using p m1(2) by (simp add: ex_consume_def ex_consume_versioned_def m1_def)
    with started_ops [OF m1(1), of p key i e] assms(3) 1 show ?thesis by (simp add: ev)
  next
    case 2
    then have "ex_consume env e i m = ex_operation_finished env p key i m1"
      using p m1(2) by (simp add: ex_consume_def ex_consume_versioned_def m1_def)
    with finished_ops [OF m1(1), of p key i e] assms(3) 2 show ?thesis by (simp add: ev)
  qed
next
  case False
  then have no: "\<not> attempt_event env ''operation_started'' e k" "\<not> attempt_event env ''operation_finished'' e k" for k
    by (auto simp: attempt_event_def split: pyval.splits)
  have "ex_operations (ex_consume env e i m) = ex_operations m"
    using False assms(2)
    by (auto simp: ex_consume_def ex_consume_versioned_def ex_state_changed_def Let_def split: pyval.split option.split)
  from ops_inv_skip [OF assms(1) this no] no show ?thesis by simp
qed

lemma replay_ops:
  "ops_inv env pre m \<Longrightarrow> ex_enabled m \<Longrightarrow> clean (ex_problems (ex_replay env i es m)) \<Longrightarrow> ops_inv env (pre @ es) (ex_replay env i es m)"
proof (induction env i es m arbitrary: pre rule: ex_replay.induct)
  case (2 env i e es m)
  then have "clean (ex_problems (ex_consume env e i m))" by (simp add: ex_replay_clean)
  with 2 consume_ops [OF "2.prems"(1,2)] have "ops_inv env (pre @ [e]) (ex_consume env e i m)" by blast
  with 2 show ?case by fastforce
qed simp

lemma mk_execution_mirror_enabled: "normalize_execution_model True v = Inr em \<Longrightarrow> ex_enabled (mk_execution_mirror (Some v) cr)"
  by (auto simp: mk_execution_mirror_def Let_def normalize_execution_model_def split: option.split sum.split pyval.splits)

text \<open>
  C21. Operations are paired: when the contract pins a valid execution model and the execution mirror accepts the chain, no
  attempt is started twice, and a finish comes after a start of the same attempt that was not finished before. This speaks of
  operation events with \<^verbatim>\<open>execution_model_version\<close> 1 and a nonempty attempt; without a valid snapshot the
  mirror does not pair operations.
\<close>

theorem operations_are_paired:
  assumes "normalize_execution_model True v = Inr em"
    and "br_values (ex_finish (ex_replay env 1 (pre @ e # post) (mk_execution_mirror (Some v) cr))) = []"
  shows "(attempt_event env ''operation_started'' e k \<longrightarrow> \<not> list_ex (\<lambda>x. attempt_event env ''operation_started'' x k) pre)
    \<and> (attempt_event env ''operation_finished'' e k \<longrightarrow> list_ex (\<lambda>x. attempt_event env ''operation_started'' x k) pre
         \<and> \<not> list_ex (\<lambda>x. attempt_event env ''operation_finished'' x k) pre)"
proof -
  let ?m = "mk_execution_mirror (Some v) cr"
  let ?pre = "ex_replay env 1 pre ?m"
  have "clean (ex_problems (ex_replay env 1 (pre @ e # post) ?m))"
    using assms(2) unfolding ex_finish_def by (subst (asm) render_empty_iff) (simp_all add: mk_execution_mirror_start)
  then have e: "clean (ex_problems (ex_consume env e (Suc (length pre)) ?pre))" by (simp add: ex_replay_append ex_replay_clean)
  have "ops_inv env [] ?m" by (simp add: ops_inv_def mk_execution_mirror_start)
  then have "ops_inv env pre ?pre"
    using replay_ops [of env "[]" ?m 1 pre] consume_clean [OF e] mk_execution_mirror_enabled [OF assms(1)] by simp
  from consume_ops [OF this _ e] mk_execution_mirror_enabled [OF assms(1), of cr] show ?thesis by simp
qed

section \<open>The receipt of a completed ticket\<close>

text \<open>An event of the given type for the step of the policy, with its payload.\<close>

definition receipt_event :: "pack_env \<Rightarrow> completion_policy \<Rightarrow> string \<Rightarrow> string \<Rightarrow> pydict \<Rightarrow> pydict \<Rightarrow> bool" where
  "receipt_event env cp t k e p \<longleftrightarrow> attempt_event env t e k \<and> pget e ''payload'' = PDict p \<and> pget p ''step'' = PStr (cp_step cp)"

text \<open>What the last event that answers says; the result of a gate and the finish of the step, for one attempt of the step.\<close>

definition latest :: "('a \<Rightarrow> 'b option) \<Rightarrow> 'a list \<Rightarrow> 'b option" where
  "latest f es = fold (\<lambda>e a. case f e of None \<Rightarrow> a | Some x \<Rightarrow> Some x) es None"

lemma latest_simps [simp]:
  "latest f [] = None"
  "latest f (es @ [e]) = (case f e of None \<Rightarrow> latest f es | Some x \<Rightarrow> Some x)"
  by (simp_all add: latest_def split: option.split)

definition gate_result :: "pack_env \<Rightarrow> completion_policy \<Rightarrow> string \<Rightarrow> string \<Rightarrow> pydict \<Rightarrow> string option" where
  "gate_result env cp k b e = (case pget e ''payload'' of
       PDict p \<Rightarrow> if receipt_event env cp ''gate_checked'' k e p \<and> pget p ''boundary'' = PStr b then as_str (pget p ''result'') else None
     | _ \<Rightarrow> None)"

definition step_finish :: "pack_env \<Rightarrow> completion_policy \<Rightarrow> string \<Rightarrow> pydict \<Rightarrow> pydict option" where
  "step_finish env cp k e = (case pget e ''payload'' of
       PDict p \<Rightarrow> if receipt_event env cp ''step_finished'' k e p then Some p else None
     | _ \<Rightarrow> None)"

abbreviation receipt_start :: "pack_env \<Rightarrow> completion_policy \<Rightarrow> pydict \<Rightarrow> bool" where
  "receipt_start env cp e \<equiv> \<exists>k p. receipt_event env cp ''step_started'' k e p"

text \<open>The tracked attempt is the last one that was started; its gate results and its finish are the latest ones since.\<close>

definition finish_tracked :: "pydict option \<Rightarrow> completion_state \<Rightarrow> bool" where
  "finish_tracked fin st \<longleftrightarrow> (case fin of None \<Rightarrow> cs_finished_at st = None
     | Some f \<Rightarrow> cs_finished_at st \<noteq> None \<and> cs_outcome st = pget f ''outcome'' \<and> cs_checks st = pget f ''checks'')"

definition tracked :: "pack_env \<Rightarrow> completion_policy \<Rightarrow> pydict list \<Rightarrow> string \<times> completion_state \<Rightarrow> bool" where
  "tracked env cp pre = (\<lambda>(k, st). \<exists>before s p mid. pre = before @ s # mid \<and> receipt_event env cp ''step_started'' k s p
     \<and> \<not> list_ex (receipt_start env cp) mid
     \<and> (\<forall>b. dict_get (cs_gate_results st) b = latest (gate_result env cp k b) mid)
     \<and> finish_tracked (latest (step_finish env cp k) mid) st)"

definition latest_inv :: "pack_env \<Rightarrow> completion_policy \<Rightarrow> pydict list \<Rightarrow> execution_mirror \<Rightarrow> bool" where
  "latest_inv env cp pre m \<longleftrightarrow> ex_policy m = Some cp
     \<and> (case ex_latest m of None \<Rightarrow> \<not> list_ex (receipt_start env cp) pre | Some x \<Rightarrow> tracked env cp pre x)
     \<and> ex_versioned_birth m = list_ex (\<lambda>e. pget e ''event_type'' = PStr ''ticket_created''
          \<and> (\<exists>p. pget e ''payload'' = PDict p \<and> pget p ''execution_contract_version'' = PInt 1)) pre"

lemma tracked_snoc:
  assumes "tracked env cp pre (k, st)" "\<not> receipt_start env cp e"
    and "\<And>b. dict_get (cs_gate_results st') b = (case gate_result env cp k b e of None \<Rightarrow> dict_get (cs_gate_results st) b | Some r \<Rightarrow> Some r)"
    and "\<And>fin. finish_tracked fin st \<Longrightarrow> finish_tracked (case step_finish env cp k e of None \<Rightarrow> fin | Some f \<Rightarrow> Some f) st'"
  shows "tracked env cp (pre @ [e]) (k, st')"
proof -
  from assms(1) obtain before s q mid where t: "pre = before @ s # mid" "receipt_event env cp ''step_started'' k s q"
    "\<not> list_ex (receipt_start env cp) mid" "\<forall>b. dict_get (cs_gate_results st) b = latest (gate_result env cp k b) mid"
    "finish_tracked (latest (step_finish env cp k) mid) st" unfolding tracked_def by blast
  show ?thesis unfolding tracked_def
    by (clarsimp, intro exI [of _ before] exI [of _ s] exI [of _ q] exI [of _ "mid @ [e]"])
      (use t assms(2,3) assms(4) [OF t(5)] in \<open>auto split: option.splits\<close>)
qed

lemma tracked_same:
  assumes "tracked env cp pre (k, st)"
    and "\<And>t p. t \<in> {''step_started'', ''gate_checked'', ''step_finished''} \<Longrightarrow> \<not> receipt_event env cp t k e p" "\<not> receipt_start env cp e"
  shows "tracked env cp (pre @ [e]) (k, st)"
proof -
  have "gate_result env cp k b e = None" "step_finish env cp k e = None" for b
    using assms(2) by (auto simp: gate_result_def step_finish_def split: pyval.split)
  with tracked_snoc [OF assms(1,3)] show ?thesis by simp
qed

lemma tracked_start: "receipt_event env cp ''step_started'' k e p \<Longrightarrow>
  tracked env cp (pre @ [e]) (k, \<lparr>cs_gate_results = [], cs_outcome = PNone, cs_checks = PNone, cs_finished_at = None\<rparr>)"
  unfolding tracked_def finish_tracked_def by fastforce

lemma track_latest:
  assumes "latest_inv env cp pre m" "pget e ''payload'' = PDict p" "py_eq (pget p ''execution_model_version'') (PInt 1)"
    and "pget e ''event_type'' \<noteq> PStr ''ticket_created''"
  shows "latest_inv env cp (pre @ [e]) (track_completion_attempt env (pget e ''event_type'') p i (m\<lparr>ex_has_versioned_events := True\<rparr>))"
proof -
  let ?m = "track_completion_attempt env (pget e ''event_type'') p i (m\<lparr>ex_has_versioned_events := True\<rparr>)"
  have pol: "ex_policy m = Some cp" using assms(1) by (simp add: latest_inv_def)
  have ev: "receipt_event env cp t k e q \<longleftrightarrow> pget e ''event_type'' = PStr t \<and> attempt_key env p = Some k \<and> q = p \<and> pget p ''step'' = PStr (cp_step cp)" for t k q
    using assms(2,3) by (auto simp: receipt_event_def attempt_event_def)
  have "case ex_latest ?m of None \<Rightarrow> \<not> list_ex (receipt_start env cp) (pre @ [e]) | Some x \<Rightarrow> tracked env cp (pre @ [e]) x"
  proof (cases "ex_latest m")
    case None
    then show ?thesis using assms(1) tracked_start [of env cp _ e p pre]
      by (cases "attempt_key env p") (auto simp: track_completion_attempt_def pol ev latest_inv_def)
  next
    case latest: (Some x)
    obtain k st where x: "x = (k, st)" by (cases x)
    have tr: "tracked env cp pre (k, st)" using assms(1) latest x by (simp add: latest_inv_def)
    show ?thesis
    proof (cases "attempt_key env p")
      case None
      then show ?thesis using latest x tracked_same [OF tr, of e] by (simp add: track_completion_attempt_def pol ev)
    next
      case (Some key)
      show ?thesis
      proof (cases "receipt_start env cp e")
        case True
        then show ?thesis using Some tracked_start [of env cp key e p pre] by (auto simp: track_completion_attempt_def pol ev)
      next
        case False
        have g: "gate_result env cp k b e = (if key = k \<and> pget p ''step'' = PStr (cp_step cp) \<and> pget e ''event_type'' = PStr ''gate_checked''
              \<and> pget p ''boundary'' = PStr b then as_str (pget p ''result'') else None)" for b
          using Some by (auto simp: gate_result_def assms(2) ev)
        have f: "step_finish env cp k e = (if key = k \<and> pget p ''step'' = PStr (cp_step cp) \<and> pget e ''event_type'' = PStr ''step_finished''
              then Some p else None)"
          using Some by (auto simp: step_finish_def assms(2) ev)
        have start: "\<not> (pget e ''event_type'' = PStr ''step_started'' \<and> pget p ''step'' = PStr (cp_step cp))" using False Some by (simp add: ev)
        define mine where "mine \<longleftrightarrow> key = k \<and> pget p ''step'' = PStr (cp_step cp)"
        define st' where "st' = (if mine \<and> pget e ''event_type'' = PStr ''gate_checked''
          then (case (pget p ''boundary'', pget p ''result'') of (PStr b, PStr r) \<Rightarrow> st\<lparr>cs_gate_results := dict_set b r (cs_gate_results st)\<rparr> | _ \<Rightarrow> st)
          else if mine \<and> pget e ''event_type'' = PStr ''step_finished''
          then st\<lparr>cs_outcome := pget p ''outcome'', cs_checks := pget p ''checks'', cs_finished_at := Some i\<rparr> else st)"
        have "ex_latest ?m = Some (k, st')"
          using start Some latest x by (auto simp: track_completion_attempt_def pol st'_def mine_def split: pyval.split)
        moreover have "tracked env cp (pre @ [e]) (k, st')"
        proof (rule tracked_snoc [OF tr False])
          show "dict_get (cs_gate_results st') b = (case gate_result env cp k b e of None \<Rightarrow> dict_get (cs_gate_results st) b | Some r \<Rightarrow> Some r)" for b
            by (auto simp: g st'_def mine_def split: pyval.split)
          show "finish_tracked (case step_finish env cp k e of None \<Rightarrow> fin | Some f \<Rightarrow> Some f) st'" if "finish_tracked fin st" for fin
            using that by (auto simp: f st'_def mine_def finish_tracked_def split: pyval.split option.split)
        qed
        ultimately show ?thesis by simp
      qed
    qed
  qed
  with assms(1,4) show ?thesis by (simp add: latest_inv_def)
qed

lemma latest_inv_skip:
  assumes "latest_inv env cp pre m" "ex_latest m' = ex_latest m" "ex_policy m' = ex_policy m"
    and "\<And>t k p. t \<in> {''step_started'', ''gate_checked'', ''step_finished''} \<Longrightarrow> \<not> receipt_event env cp t k e p"
    and "ex_versioned_birth m' = (ex_versioned_birth m \<or> pget e ''event_type'' = PStr ''ticket_created''
          \<and> (\<exists>p. pget e ''payload'' = PDict p \<and> pget p ''execution_contract_version'' = PInt 1))"
  shows "latest_inv env cp (pre @ [e]) m'"
  using assms tracked_same [of env cp pre _ _ e] by (auto simp: latest_inv_def split: option.splits)

lemma consume_latest:
  assumes "latest_inv env cp pre m"
  shows "latest_inv env cp (pre @ [e]) (ex_consume env e i m)"
proof (cases "\<exists>p. pget e ''payload'' = PDict p \<and> py_eq (pget p ''execution_model_version'') (PInt 1)
    \<and> pget e ''event_type'' \<notin> {PStr ''ticket_created'', PStr ''state_changed''}")
  case True
  then obtain p where p: "pget e ''payload'' = PDict p" "py_eq (pget p ''execution_model_version'') (PInt 1)"
    "pget e ''event_type'' \<noteq> PStr ''ticket_created''" "pget e ''event_type'' \<noteq> PStr ''state_changed''" by blast
  have "ex_consume env e i m = ex_consume_versioned env (pget e ''event_type'') p i m" using p by (simp add: ex_consume_def)
  with track_latest [OF assms p(1-3), of i] show ?thesis by (simp add: latest_inv_def versioned_fields)
next
  case False
  show ?thesis
  proof (rule latest_inv_skip [OF assms])
    show "\<not> receipt_event env cp t k e p" if "t \<in> {''step_started'', ''gate_checked'', ''step_finished''}" for t k p
      using False that by (auto simp: receipt_event_def attempt_event_def)
    show "ex_policy (ex_consume env e i m) = ex_policy m" by simp
    show "ex_latest (ex_consume env e i m) = ex_latest m"
      using False by (auto simp: ex_consume_def ex_state_changed_def Let_def split: pyval.split)
    show "ex_versioned_birth (ex_consume env e i m) = (ex_versioned_birth m \<or> pget e ''event_type'' = PStr ''ticket_created''
          \<and> (\<exists>p. pget e ''payload'' = PDict p \<and> pget p ''execution_contract_version'' = PInt 1))"
      using False by (auto simp: ex_consume_def ex_state_changed_def Let_def split: pyval.split)
  qed
qed

lemma replay_latest: "latest_inv env cp pre m \<Longrightarrow> latest_inv env cp (pre @ es) (ex_replay env i es m)"
proof (induction env i es m arbitrary: pre rule: ex_replay.induct)
  case (2 env i e es m)
  then show ?case using consume_latest [OF "2.prems"] by fastforce
qed simp

lemma receipt_passed:
  assumes "clean (ex_problems (check_completion_receipt p i m))" "ex_policy m = Some cp"
    and "ex_latest m \<noteq> None \<or> ex_versioned_birth m \<and> pget p ''gates_skipped_for_test'' \<noteq> PBool True"
  obtains k st where "ex_latest m = Some (k, st)" "cs_finished_at st \<noteq> None"
    "str_with (\<lambda>s. s \<in> {''success'', ''degraded''}) (cs_outcome st)"
    "\<forall>b\<in>set (cp_required_checks cp). dict_get (cs_gate_results st) b = Some ''pass''"
    "is_dict (cs_checks st)" "py_eq (cs_checks st) (results_val (cs_gate_results st))"
  using assms by (auto simp: check_completion_receipt_def Let_def split: option.splits if_splits)

lemma mk_execution_mirror_policy: "normalize_completion_receipt v = Inr cp \<Longrightarrow> ex_policy (mk_execution_mirror em (Some v)) = Some cp"
  by (simp add: mk_execution_mirror_def Let_def split: option.split sum.split)

text \<open>
  C11. A completed ticket has its receipt. Let the contract snapshot pin a valid completion receipt and the execution mirror
  accept the chain; take a change to \<^verbatim>\<open>completed\<close> that comes after a versioned start of the receipt's step, or after
  a birth with \<^verbatim>\<open>execution_contract_version\<close> 1 and without the explicit test bypass (other changes to
  \<^verbatim>\<open>completed\<close> are accepted without a receipt). Then the last attempt of the step that was started before the
  change was finished before it; its latest finish has the outcome success or degraded and lists exactly the latest results of
  the attempt's gates, and the latest result of every required check is pass.
\<close>

theorem completed_has_receipt:
  assumes "normalize_completion_receipt v = Inr cp"
    and "br_values (ex_finish (ex_replay env 1 (pre @ e # post) (mk_execution_mirror em (Some v)))) = []"
    and "pget e ''event_type'' = PStr ''state_changed''" "pget e ''payload'' = PDict p" "pget p ''to'' = PStr ''completed''"
    and "list_ex (\<lambda>x. \<exists>k q. receipt_event env cp ''step_started'' k x q) pre
      \<or> list_ex (\<lambda>x. pget x ''event_type'' = PStr ''ticket_created''
            \<and> (\<exists>q. pget x ''payload'' = PDict q \<and> pget q ''execution_contract_version'' = PInt 1)) pre
         \<and> pget p ''gates_skipped_for_test'' \<noteq> PBool True"
  shows "\<exists>before s q mid k f d. pre = before @ s # mid \<and> receipt_event env cp ''step_started'' k s q
    \<and> \<not> list_ex (\<lambda>x. \<exists>k' q'. receipt_event env cp ''step_started'' k' x q') mid
    \<and> latest (step_finish env cp k) mid = Some f \<and> pget f ''outcome'' \<in> {PStr ''success'', PStr ''degraded''}
    \<and> (\<forall>b\<in>set (cp_required_checks cp). latest (gate_result env cp k b) mid = Some ''pass'')
    \<and> is_dict (pget f ''checks'') \<and> py_eq (pget f ''checks'') (results_val d)
    \<and> (\<forall>b. dict_get d b = latest (gate_result env cp k b) mid)"
proof -
  let ?m = "mk_execution_mirror em (Some v)"
  let ?pre = "ex_replay env 1 pre ?m"
  have "clean (ex_problems (ex_replay env 1 (pre @ e # post) ?m))"
    using assms(2) unfolding ex_finish_def by (subst (asm) render_empty_iff) (simp_all add: mk_execution_mirror_start)
  then have e: "clean (ex_problems (ex_consume env e (Suc (length pre)) ?pre))" by (simp add: ex_replay_append ex_replay_clean)
  have "latest_inv env cp [] ?m" using assms(1) by (simp add: latest_inv_def mk_execution_mirror_start mk_execution_mirror_policy)
  then have inv: "latest_inv env cp pre ?pre" using replay_latest [of env cp "[]" ?m pre 1] by simp
  let ?m1 = "(ex_note (ex_open_side_effects ?pre \<noteq> {}) ''state_changed while a side effect is open'' (Suc (length pre)) ?pre)\<lparr>ex_completed_seen := True\<rparr>"
  have "clean (ex_problems (check_completion_receipt p (Suc (length pre)) ?m1))"
    using e assms(3-5) by (simp add: ex_consume_def ex_state_changed_def)
  moreover have "ex_policy ?m1 = Some cp" using inv by (simp add: latest_inv_def)
  moreover have "ex_latest ?m1 \<noteq> None \<or> ex_versioned_birth ?m1 \<and> pget p ''gates_skipped_for_test'' \<noteq> PBool True"
    using inv assms(6) by (auto simp: latest_inv_def split: option.splits)
  ultimately obtain k st where st: "ex_latest ?pre = Some (k, st)" "cs_finished_at st \<noteq> None"
    "str_with (\<lambda>s. s \<in> {''success'', ''degraded''}) (cs_outcome st)"
    "\<forall>b\<in>set (cp_required_checks cp). dict_get (cs_gate_results st) b = Some ''pass''"
    "is_dict (cs_checks st)" "py_eq (cs_checks st) (results_val (cs_gate_results st))"
    by (rule receipt_passed) simp
  have "tracked env cp pre (k, st)" using inv st(1) by (simp add: latest_inv_def)
  then obtain before s q mid where t: "pre = before @ s # mid" "receipt_event env cp ''step_started'' k s q"
    "\<not> list_ex (receipt_start env cp) mid" "\<forall>b. dict_get (cs_gate_results st) b = latest (gate_result env cp k b) mid"
    "finish_tracked (latest (step_finish env cp k) mid) st" unfolding tracked_def case_prod_conv by blast
  from t(5) st(2) obtain f where f: "latest (step_finish env cp k) mid = Some f" "cs_outcome st = pget f ''outcome''" "cs_checks st = pget f ''checks''"
    by (auto simp: finish_tracked_def split: option.splits)
  have "pget f ''outcome'' \<in> {PStr ''success'', PStr ''degraded''}" using st(3) f(2) by (auto simp: str_with_iff)
  moreover have "\<forall>b\<in>set (cp_required_checks cp). latest (gate_result env cp k b) mid = Some ''pass''" using st(4) t(4) by simp
  ultimately show ?thesis
    by (intro exI [of _ before] exI [of _ s] exI [of _ q] exI [of _ mid] exI [of _ k] exI [of _ f] exI [of _ "cs_gate_results st"])
      (use t(1-4) f st(5,6) in simp)
qed

section \<open>A concrete chain\<close>

definition demo_env :: pack_env where
  "demo_env = \<lparr>pk_sha256 = (\<lambda>s. take 32 (s @ replicate 32 (CHR ''0''))), pk_sha512 = id, pk_frepr = (\<lambda>_. ''0.5''), pk_repr = (\<lambda>_. []), pk_limit = 10000\<rparr>"

definition demo_model :: pyval where
  "demo_model = execution_model_dict \<lparr>em_steps = [''verify''], em_boundaries = [''tests''], em_step_outcomes = [''success'', ''degraded'', ''failed''],
     em_operation_classes = [''read_only'', ''workspace''], em_failure_classes = None, em_success_decision_version = Some 1\<rparr>"

definition demo_receipt :: pyval where
  "demo_receipt = PDict [(PStr ''schema_version'', PInt 1), (PStr ''target'', PStr ''completed''), (PStr ''step'', PStr ''verify''),
     (PStr ''required_checks'', PList [PStr ''tests''])]"

definition demo_event :: "string \<Rightarrow> pydict \<Rightarrow> pydict" where
  "demo_event t p = [(PStr ''event_type'', PStr t), (PStr ''payload'', PDict p)]"

definition demo_step_event :: "string \<Rightarrow> pydict \<Rightarrow> pydict" where
  "demo_step_event t p = demo_event t ([(PStr ''execution_model_version'', PInt 1), (PStr ''attempt'', PStr ''a1''), (PStr ''step'', PStr ''verify'')] @ p)"

definition demo_digest :: pyval where
  "demo_digest = PStr (replicate 64 (CHR ''a''))"

definition demo_execution_pre :: "pydict list" where
  "demo_execution_pre =
    [demo_event ''ticket_created'' [(PStr ''execution_contract_version'', PInt 1)],
     demo_step_event ''step_started'' [(PStr ''input_digest'', demo_digest), (PStr ''contract_digest'', demo_digest)],
     demo_event ''operation_started'' [(PStr ''execution_model_version'', PInt 1), (PStr ''attempt'', PStr ''o1''), (PStr ''name'', PStr ''write''),
       (PStr ''class'', PStr ''workspace''), (PStr ''input_digest'', demo_digest), (PStr ''idempotency_provided'', PBool False)],
     demo_event ''operation_finished'' [(PStr ''execution_model_version'', PInt 1), (PStr ''attempt'', PStr ''o1''), (PStr ''name'', PStr ''write''),
       (PStr ''class'', PStr ''workspace''), (PStr ''outcome'', PStr ''success''), (PStr ''duration_ms'', PInt 5), (PStr ''evidence'', PStr ''log''),
       (PStr ''after_check'', PStr ''ok''), (PStr ''decision'', PDict [(PStr ''action'', PStr ''complete''), (PStr ''reason'', PStr ''operation_succeeded''),
         (PStr ''conclusion_ceiling'', PStr ''verified''), (PStr ''auto_retry'', PBool False)])],
     demo_step_event ''gate_checked'' [(PStr ''boundary'', PStr ''tests''), (PStr ''result'', PStr ''pass''), (PStr ''captured_digest'', demo_digest),
       (PStr ''current_digest'', demo_digest)],
     demo_step_event ''step_finished'' [(PStr ''outcome'', PStr ''success''), (PStr ''duration_ms'', PInt 9),
       (PStr ''checks'', PDict [(PStr ''tests'', PStr ''pass'')])]]"

definition demo_completed :: pydict where
  "demo_completed = demo_event ''state_changed'' [(PStr ''to'', PStr ''completed'')]"

lemma demo_execution_accepted:
  "br_values (ex_finish (ex_replay demo_env 1 (demo_execution_pre @ demo_completed # []) (mk_execution_mirror (Some demo_model) (Some demo_receipt)))) = []"
  by code_simp

theorem no_state_change_while_side_effect_open_witness:
  "list_ex (\<lambda>x. attempt_event demo_env ''operation_finished'' x (fingerprint demo_env ''o1'')) (drop 3 demo_execution_pre)"
proof -
  have split: "demo_execution_pre @ demo_completed # [] = (take 2 demo_execution_pre @ (demo_execution_pre ! 2) # drop 3 demo_execution_pre) @ demo_completed # []"
    by (simp add: demo_execution_pre_def)
  have s: "attempt_event demo_env ''operation_started'' (demo_execution_pre ! 2) (fingerprint demo_env ''o1'')" by code_simp
  obtain q where q: "pget (demo_execution_pre ! 2) ''payload'' = PDict q" "pget q ''class'' = PStr ''workspace''"
    by (simp add: demo_execution_pre_def demo_event_def pget_def)
  show ?thesis
    by (rule no_state_change_while_side_effect_open [OF demo_execution_accepted [unfolded split] _ _ s q(1)])
      (simp_all add: demo_completed_def demo_event_def pget_def is_dict_def q(2) [unfolded pget_def])
qed

theorem operations_are_paired_witness:
  "list_ex (\<lambda>x. attempt_event demo_env ''operation_started'' x (fingerprint demo_env ''o1'')) (take 3 demo_execution_pre)"
proof -
  have model: "normalize_execution_model True demo_model = Inr (ex_model (mk_execution_mirror (Some demo_model) (Some demo_receipt)))" by code_simp
  have split: "demo_execution_pre @ demo_completed # [] = take 3 demo_execution_pre @ (demo_execution_pre ! 3) # (drop 4 demo_execution_pre @ [demo_completed])"
    by (simp add: demo_execution_pre_def)
  have "attempt_event demo_env ''operation_finished'' (demo_execution_pre ! 3) (fingerprint demo_env ''o1'')" by code_simp
  with operations_are_paired [OF model demo_execution_accepted [unfolded split], of "fingerprint demo_env ''o1''"] show ?thesis by blast
qed

theorem completed_has_receipt_witness:
  "\<exists>before s q mid k f. demo_execution_pre = before @ s # mid \<and> receipt_event demo_env \<lparr>cp_step = ''verify'', cp_required_checks = [''tests'']\<rparr> ''step_started'' k s q
     \<and> latest (step_finish demo_env \<lparr>cp_step = ''verify'', cp_required_checks = [''tests'']\<rparr> k) mid = Some f"
proof -
  let ?cp = "\<lparr>cp_step = ''verify'', cp_required_checks = [''tests'']\<rparr>"
  have policy: "normalize_completion_receipt demo_receipt = Inr ?cp" by code_simp
  have birth: "list_ex (\<lambda>x. pget x ''event_type'' = PStr ''ticket_created''
      \<and> (\<exists>q. pget x ''payload'' = PDict q \<and> pget q ''execution_contract_version'' = PInt 1)) demo_execution_pre"
    by (simp add: demo_execution_pre_def demo_event_def pget_def)
  have change: "pget demo_completed ''event_type'' = PStr ''state_changed''"
    "pget demo_completed ''payload'' = PDict [(PStr ''to'', PStr ''completed'')]" by (simp_all add: demo_completed_def demo_event_def pget_def)
  have target: "pget [(PStr ''to'', PStr ''completed'')] ''to'' = PStr ''completed''"
    "pget [(PStr ''to'', PStr ''completed'')] ''gates_skipped_for_test'' \<noteq> PBool True" by (simp_all add: pget_def)
  from completed_has_receipt [OF policy demo_execution_accepted change target(1) disjI2 [OF conjI [OF birth target(2)]]]
  show ?thesis by blast
qed

end
