(* ===== verification/Pack_Ed25519.thy ===== *)
theory Pack_Ed25519
  imports Pack_Execution
begin

text \<open>
  The Ed25519 code of \<^verbatim>\<open>pack_verify.py\<close> (RFC 8032): points in extended coordinates, double and add, encoding of points,
  signing and verification with and without the context prefix. SHA-512 is a field of the environment. The lemmas show
  that a decoded point encodes back to the same bytes, that the fast power is the power, and that an accepted
  signature has the canonical form; the group law of the curve is not proved here.
\<close>

section \<open>Numbers and bytes\<close>

text \<open>\<^verbatim>\<open>pow(b, e, m)\<close> by squaring.\<close>

function powmod :: "int \<Rightarrow> int \<Rightarrow> int \<Rightarrow> int" where
  "powmod b e m = (if e \<le> 0 then 1 mod m
     else let h = powmod (b * b mod m) (e div 2) m in if odd e then b * h mod m else h)"
  by auto
termination by (relation "measure (\<lambda>(b, e, m). nat e)") auto

declare powmod.simps [simp del]

lemma powmod_power: "0 \<le> e \<Longrightarrow> powmod b e m = b ^ nat e mod m"
proof (induction b e m rule: powmod.induct)
  case (1 b e m)
  show ?case
  proof (cases "e \<le> 0")
    case True
    with "1.prems" show ?thesis by (simp add: powmod.simps)
  next
    case False
    have "nat (2 * (e div 2)) = 2 * nat (e div 2)" by (simp add: nat_mult_distrib)
    then have h: "powmod (b * b mod m) (e div 2) m = b ^ nat (2 * (e div 2)) mod m"
      using 1 False by (simp add: power_mod power_mult power2_eq_square)
    show ?thesis
    proof (cases "odd e")
      case True
      then have "e = 2 * (e div 2) + 1" by presburger
      then have "nat e = Suc (nat (2 * (e div 2)))" using False by linarith
      then have "b ^ nat e = b * b ^ nat (2 * (e div 2))" by (metis power_Suc)
      with False True h show ?thesis by (simp add: powmod.simps [of b e] mod_mult_right_eq)
    next
      case even: False
      then have "2 * (e div 2) = e" by presburger
      with False even h show ?thesis by (simp add: powmod.simps [of b e])
    qed
  qed
qed

text \<open>\<^verbatim>\<open>int.from_bytes(b, "little")\<close> and \<^verbatim>\<open>n.to_bytes(k, "little")\<close>.\<close>

fun from_le :: "string \<Rightarrow> int" where
  "from_le [] = 0"
| "from_le (c # cs) = of_char c + 256 * from_le cs"

fun to_le :: "nat \<Rightarrow> int \<Rightarrow> string" where
  "to_le 0 n = []"
| "to_le (Suc k) n = char_of (n mod 256) # to_le k (n div 256)"

lemma length_to_le [simp]: "length (to_le k n) = k"
  by (induction k arbitrary: n) auto

lemma of_char_bounds: "0 \<le> (of_char c :: int)" "(of_char c :: int) < 256"
proof -
  have "int (of_char c) = of_char c" by (rule of_nat_of_char)
  moreover have "0 \<le> int (of_char c)" "int (of_char c) < int 256" using nat_of_char_less_256 [of c] by (simp_all only: of_nat_less_iff of_nat_0_le_iff)
  ultimately show "0 \<le> (of_char c :: int)" "(of_char c :: int) < 256" by simp_all
qed

lemma to_le_from_le [simp]: "to_le (length b) (from_le b) = b"
proof (induction b)
  case (Cons c b)
  have "(of_char c + 256 * from_le b) mod 256 = (of_char c :: int)" "(of_char c + 256 * from_le b) div 256 = from_le b"
    using of_char_bounds [of c] by simp_all
  with Cons show ?case by simp
qed simp

lemma from_le_bounds: "0 \<le> from_le b \<and> from_le b < 256 ^ length b"
proof (induction b)
  case (Cons c b)
  with of_char_bounds [of c] show ?case by simp
qed simp

section \<open>The curve\<close>

definition ED_P :: int where
  "ED_P = 2 ^ 255 - 19"

definition ED_L :: int where
  "ED_L = 2 ^ 252 + 27742317777372353535851937790883648493"

definition ED_D :: int where
  "ED_D = (- 121665 * powmod 121666 (ED_P - 2) ED_P) mod ED_P"

definition ED_I :: int where
  "ED_I = powmod 2 ((ED_P - 1) div 4) ED_P"

definition ED_GX :: int where
  "ED_GX = 15112221349535400772501151409588531511454012693041857206046113283949847762202"

definition ED_GY :: int where
  "ED_GY = 46316835694926478169428394003475163141307993866256225615783033603165251855960"

type_synonym ed_point = "int \<times> int \<times> int \<times> int"

definition ED_G :: ed_point where
  "ED_G = (ED_GX, ED_GY, 1, ED_GX * ED_GY mod ED_P)"

definition ED_IDENTITY :: ed_point where
  "ED_IDENTITY = (0, 1, 1, 0)"

definition ed_inv :: "int \<Rightarrow> int" where
  "ed_inv x = powmod x (ED_P - 2) ED_P"

definition ed_point_add :: "ed_point \<Rightarrow> ed_point \<Rightarrow> ed_point" where
  "ed_point_add p q = (case (p, q) of ((x1, y1, z1, t1), (x2, y2, z2, t2)) \<Rightarrow>
     (let a = (y1 - x1) * (y2 - x2) mod ED_P;
          b = (y1 + x1) * (y2 + x2) mod ED_P;
          c = 2 * t1 * t2 * ED_D mod ED_P;
          d = 2 * z1 * z2 mod ED_P;
          e = b - a; f = d - c; g = d + c; h = b + a
      in (e * f mod ED_P, g * h mod ED_P, f * g mod ED_P, e * h mod ED_P)))"

text \<open>The loop of \<^verbatim>\<open>_ed_point_mul\<close>: scalar, result and addend.\<close>

function ed_mul_loop :: "int \<Rightarrow> ed_point \<Rightarrow> ed_point \<Rightarrow> ed_point" where
  "ed_mul_loop scalar result addend =
     (if scalar \<le> 0 then result
      else ed_mul_loop (scalar div 2) (if odd scalar then ed_point_add result addend else result) (ed_point_add addend addend))"
  by auto
termination by (relation "measure (\<lambda>(n, _). nat n)") auto

declare ed_mul_loop.simps [simp del]

definition ed_point_mul :: "int \<Rightarrow> ed_point \<Rightarrow> ed_point" where
  "ed_point_mul scalar point = ed_mul_loop scalar ED_IDENTITY point"

definition ed_compress :: "ed_point \<Rightarrow> string" where
  "ed_compress p = (case p of (x, y, z, t) \<Rightarrow>
     (let zinv = ed_inv z; x' = x * zinv mod ED_P; y' = y * zinv mod ED_P
      in to_le 32 (y' + (x' mod 2) * 2 ^ 255)))"

definition ed_recover_x :: "int \<Rightarrow> int \<Rightarrow> int option" where
  "ed_recover_x y sign =
     (if ED_P \<le> y then None
      else
        let x2 = (y * y - 1) * ed_inv (ED_D * y * y + 1) mod ED_P
        in if x2 = 0 then (if sign \<noteq> 0 then None else Some 0)
           else
             let x = powmod x2 ((ED_P + 3) div 8) ED_P;
                 x' = (if (x * x - x2) mod ED_P \<noteq> 0 then x * ED_I mod ED_P else x)
             in if (x' * x' - x2) mod ED_P \<noteq> 0 then None
                else Some (if x' mod 2 \<noteq> sign then ED_P - x' else x'))"

definition ed_decompress :: "string \<Rightarrow> ed_point option" where
  "ed_decompress encoded =
     (if length encoded \<noteq> 32 then None
      else
        let val = from_le encoded; sign = val div 2 ^ 255 mod 2; y = val mod 2 ^ 255
        in case ed_recover_x y sign of None \<Rightarrow> None | Some x \<Rightarrow> Some (x, y, 1, x * y mod ED_P))"

section \<open>Signing and verifying\<close>

definition sha512_int :: "pack_env \<Rightarrow> string \<Rightarrow> int" where
  "sha512_int env b = from_le (pk_sha512 env b)"

text \<open>The clamped scalar: \<^verbatim>\<open>a &= (1 << 254) - 8\<close>, \<^verbatim>\<open>a |= 1 << 254\<close>, on the lower 32 bytes.\<close>

definition clamp :: "int \<Rightarrow> int" where
  "clamp n = (n mod 2 ^ 254) div 8 * 8 + 2 ^ 254"

definition ed_secret_expand :: "pack_env \<Rightarrow> string \<Rightarrow> (int \<times> string) res" where
  "ed_secret_expand env seed =
     (if length seed \<noteq> 32 then Inl (PyValueError ''the Ed25519 seed must have 32 bytes'')
      else let h = pk_sha512 env seed in Inr (clamp (from_le (take 32 h)), drop 32 h))"

definition DOM4_PREFIX :: string where
  "DOM4_PREFIX = ''SigEd25519 no Ed25519 collisions''"

text \<open>\<^verbatim>\<open>bytes([flag, len(context)])\<close> raises when the context has more than 255 bytes.\<close>

definition ed_dom4 :: "nat \<Rightarrow> string \<Rightarrow> string res" where
  "ed_dom4 flag_x context =
     (if 255 < length context then Inl (PyValueError ''bytes must be in range(0, 256)'')
      else Inr (DOM4_PREFIX @ [char_of flag_x, char_of (length context)] @ context))"

definition ed25519_public_key :: "pack_env \<Rightarrow> string \<Rightarrow> string res" where
  "ed25519_public_key env seed = bindr (ed_secret_expand env seed) (\<lambda>(a, _). Inr (ed_compress (ed_point_mul a ED_G)))"

definition ed_sign_core :: "pack_env \<Rightarrow> string \<Rightarrow> string \<Rightarrow> string \<Rightarrow> (string \<times> string) res" where
  "ed_sign_core env seed dom4 message =
     bindr (ed_secret_expand env seed) (\<lambda>(a, prefix).
     let public = ed_compress (ed_point_mul a ED_G);
         r = sha512_int env (dom4 @ prefix @ message) mod ED_L;
         r_enc = ed_compress (ed_point_mul r ED_G);
         k = sha512_int env (dom4 @ r_enc @ public @ message) mod ED_L;
         s = (r + k * a) mod ED_L
     in Inr (public, r_enc @ to_le 32 s))"

definition ed25519_sign :: "pack_env \<Rightarrow> string \<Rightarrow> string \<Rightarrow> string res" where
  "ed25519_sign env seed message = bindr (ed_sign_core env seed [] message) (\<lambda>(_, sig). Inr sig)"

definition ed_ctx_sign :: "pack_env \<Rightarrow> nat \<Rightarrow> string \<Rightarrow> string \<Rightarrow> string \<Rightarrow> (string \<times> string) res" where
  "ed_ctx_sign env flag_x seed context message =
     bindr (ed_secret_expand env seed) (\<lambda>_.
     bindr (ed_dom4 flag_x context) (\<lambda>dom4.
       ed_sign_core env seed dom4 (if flag_x \<noteq> 0 then pk_sha512 env message else message)))"

definition ed25519ctx_sign :: "pack_env \<Rightarrow> string \<Rightarrow> string \<Rightarrow> string \<Rightarrow> string res" where
  "ed25519ctx_sign env seed context message = bindr (ed_ctx_sign env 0 seed context message) (\<lambda>(_, sig). Inr sig)"

definition ed25519ph_sign :: "pack_env \<Rightarrow> string \<Rightarrow> string \<Rightarrow> string \<Rightarrow> string res" where
  "ed25519ph_sign env seed context message = bindr (ed_ctx_sign env 1 seed context message) (\<lambda>(_, sig). Inr sig)"

definition ed_verify_core :: "pack_env \<Rightarrow> string \<Rightarrow> string \<Rightarrow> string \<Rightarrow> string \<Rightarrow> bool" where
  "ed_verify_core env public_key message signature dom4 =
     (if length public_key \<noteq> 32 \<or> length signature \<noteq> 64 then False
      else case ed_decompress public_key of None \<Rightarrow> False
        | Some a_point \<Rightarrow>
            let r_enc = take 32 signature; s = from_le (drop 32 signature)
            in if ED_L \<le> s then False
               else case ed_decompress r_enc of None \<Rightarrow> False
                 | Some r_point \<Rightarrow>
                     let k = sha512_int env (dom4 @ r_enc @ public_key @ message) mod ED_L
                     in ed_compress (ed_point_mul s ED_G) = ed_compress (ed_point_add r_point (ed_point_mul k a_point)))"

definition ed25519_verify :: "pack_env \<Rightarrow> string \<Rightarrow> string \<Rightarrow> string \<Rightarrow> bool" where
  "ed25519_verify env public_key message signature = ed_verify_core env public_key message signature []"

definition ed25519ctx_verify :: "pack_env \<Rightarrow> string \<Rightarrow> string \<Rightarrow> string \<Rightarrow> string \<Rightarrow> bool res" where
  "ed25519ctx_verify env public_key context message signature =
     bindr (ed_dom4 0 context) (\<lambda>dom4. Inr (ed_verify_core env public_key message signature dom4))"

definition ed25519ph_verify :: "pack_env \<Rightarrow> string \<Rightarrow> string \<Rightarrow> string \<Rightarrow> string \<Rightarrow> bool res" where
  "ed25519ph_verify env public_key context message signature =
     bindr (ed_dom4 1 context) (\<lambda>dom4. Inr (ed_verify_core env public_key (pk_sha512 env message) signature dom4))"

section \<open>Encoding and decoding of points\<close>

lemma ED_P_facts: "0 < ED_P" "1 < ED_P" "odd ED_P" "ED_P < 2 ^ 255"
  by (simp_all add: ED_P_def)

lemma powmod_bounds: "0 < m \<Longrightarrow> 0 \<le> powmod b e m \<and> powmod b e m < m"
proof (induction b e m rule: powmod.induct)
  case (1 b e m)
  then show ?case by (cases "e \<le> 0") (simp_all add: powmod.simps [of b e m] Let_def)
qed

lemma ed_inv_1: "ed_inv 1 = 1"
  using ED_P_facts by (simp add: ed_inv_def powmod_power)

lemma recovered_x:
  assumes "ed_recover_x y sign = Some x" "sign \<in> {0, 1}"
  shows "0 \<le> x \<and> x < ED_P \<and> x mod 2 = sign \<and> y < ED_P"
proof -
  define x2 where "x2 = (y * y - 1) * ed_inv (ED_D * y * y + 1) mod ED_P"
  define x0 where "x0 = powmod x2 ((ED_P + 3) div 8) ED_P"
  define x1 where "x1 = (if (x0 * x0 - x2) mod ED_P \<noteq> 0 then x0 * ED_I mod ED_P else x0)"
  have y: "y < ED_P" using assms(1) by (auto simp: ed_recover_x_def split: if_splits)
  show ?thesis
  proof (cases "x2 = 0")
    case True
    with assms y show ?thesis using ED_P_facts by (auto simp: ed_recover_x_def x2_def [symmetric] Let_def split: if_splits)
  next
    case False
    with assms(1) y have sq: "(x1 * x1 - x2) mod ED_P = 0" and x: "x = (if x1 mod 2 \<noteq> sign then ED_P - x1 else x1)"
      by (auto simp: ed_recover_x_def x2_def [symmetric] Let_def x0_def [symmetric] x1_def [symmetric] split: if_split_asm)
    have b: "0 \<le> x1" "x1 < ED_P" using ED_P_facts powmod_bounds [of ED_P] by (simp_all add: x1_def x0_def)
    have "0 \<le> x2" "x2 < ED_P" using ED_P_facts by (simp_all add: x2_def)
    with False have "(0 * 0 - x2) mod ED_P \<noteq> 0" by (auto simp: zmod_zminus1_eq_if)
    with sq have "x1 \<noteq> 0" by auto
    with b have pos: "0 < x1" by simp
    have "(ED_P - x1) mod 2 = 1 - x1 mod 2" using ED_P_facts(3) by presburger
    with x b pos y assms(2) ED_P_facts show ?thesis by (auto split: if_splits)
  qed
qed

text \<open>
  C22. Decoding a point is canonical: every 32 bytes that decode to a point are the encoding of that point, so no point has a
  second accepted encoding.
\<close>

theorem decompress_canonical:
  assumes "ed_decompress encoded = Some p"
  shows "ed_compress p = encoded"
proof -
  define val where "val = from_le encoded"
  have len: "length encoded = 32" using assms by (auto simp: ed_decompress_def split: if_splits)
  obtain x where x: "ed_recover_x (val mod 2 ^ 255) (val div 2 ^ 255 mod 2) = Some x"
    "p = (x, val mod 2 ^ 255, 1, x * (val mod 2 ^ 255) mod ED_P)"
    using assms len by (auto simp: ed_decompress_def val_def [symmetric] Let_def split: option.splits)
  have "val div 2 ^ 255 mod 2 \<in> {0, 1}" by auto
  note r = recovered_x [OF x(1) this]
  have "0 \<le> val" "val < 256 ^ 32" using from_le_bounds [of encoded] len by (simp_all add: val_def)
  then have "val div 2 ^ 255 mod 2 = val div 2 ^ 255" by (simp add: div_less_iff_less_mult pos_imp_zdiv_nonneg_iff)
  then have "val mod 2 ^ 255 + (x mod 2) * 2 ^ 255 = val" using r by simp
  moreover have "val mod 2 ^ 255 mod ED_P = val mod 2 ^ 255" "x mod ED_P = x" using r by (simp_all add: mod_pos_pos_trivial)
  ultimately have "ed_compress p = to_le 32 val" by (simp add: x(2) ed_compress_def ed_inv_1 Let_def)
  then show ?thesis using to_le_from_le [of encoded] len by (simp add: val_def)
qed

text \<open>The encoding of the neutral point.\<close>

definition demo_point :: string where
  "demo_point = CHR 0x01 # replicate 31 (CHR 0x00)"

lemma demo_point_decodes: "ed_decompress demo_point = Some (0, 1, 1, 0)"
proof -
  have "from_le demo_point = 1" "length demo_point = 32" by code_simp+
  then show ?thesis by (simp add: ed_decompress_def ed_recover_x_def Let_def ED_P_def)
qed

theorem decompress_canonical_witness: "ed_compress (0, 1, 1, 0) = demo_point"
  by (rule decompress_canonical [OF demo_point_decodes])

lemma verified_form:
  assumes "ed_verify_core env key message sig dom4"
  shows "length key = 32 \<and> length sig = 64 \<and> from_le (drop 32 sig) < ED_L \<and> (\<exists>p. ed_decompress (take 32 sig) = Some p) \<and> (\<exists>p. ed_decompress key = Some p)"
  using assms by (auto simp: ed_verify_core_def Let_def split: if_splits option.splits)

text \<open>
  C20. Signatures cannot be varied: from the second half of a signature, adding any positive multiple of the group order gives a
  second half that no message and no key accept, so an accepted signature has no other form that verifies the same equation.
\<close>

theorem signature_not_malleable:
  assumes "length r = 32" "length t' = 32" "0 < j" "from_le t' = from_le t + j * ED_L"
  shows "\<not> ed25519_verify env key message (r @ t')"
proof
  assume "ed25519_verify env key message (r @ t')"
  from verified_form [OF this [unfolded ed25519_verify_def]] assms(1) have "from_le t' < ED_L" by simp
  moreover have "0 < ED_L" by (simp add: ED_L_def)
  then have "ED_L \<le> j * ED_L" using assms(3) by simp
  ultimately show False using assms(4) from_le_bounds [of t] by linarith
qed

lemma from_le_to_le: "0 \<le> n \<Longrightarrow> n < 256 ^ k \<Longrightarrow> from_le (to_le k n) = n"
proof (induction k arbitrary: n)
  case (Suc k)
  have "n div 256 < 256 ^ k" using Suc.prems by (simp add: div_less_iff_less_mult)
  moreover have "(of_char (char_of (n mod 256) :: char) :: int) = n mod 256"
    by (simp add: of_char_of take_bit_eq_mod)
  ultimately show ?case using Suc by (simp add: pos_imp_zdiv_nonneg_iff)
qed simp

theorem signature_not_malleable_witness:
  "\<not> ed25519_verify demo_env demo_point ''m'' (demo_point @ to_le 32 ED_L)"
proof (rule signature_not_malleable [where t = "replicate 32 (CHR 0x00)" and j = 1])
  have "from_le (replicate 32 (CHR 0x00)) = 0" by code_simp
  then show "from_le (to_le 32 ED_L) = from_le (replicate 32 (CHR 0x00)) + 1 * ED_L"
    by (simp add: from_le_to_le ED_L_def)
qed (simp_all add: demo_point_def)

end
