(* ===== verification/Pack_Binding.thy ===== *)
theory Pack_Binding
  imports Pack_Events
begin

text \<open>
  The binding of a ticket to one execution root (\<^verbatim>\<open>execution_binding_shape_ok\<close>, \<^verbatim>\<open>execution_binding_topology_ok\<close> and
  \<^verbatim>\<open>ExecutionBindingMirror\<close> of \<^verbatim>\<open>pack_verify.py\<close>), with the pure Windows and POSIX paths it reads. The theorem at
  the end: an accepted chain binds the root at most once, while nothing is running and the ticket is open, and the
  metadata holds the value that was bound.
\<close>

section \<open>Pure Windows paths\<close>

text \<open>The text up to the next backslash, and what follows it; \<^verbatim>\<open>None\<close> when there is no backslash.\<close>

definition until_sep :: "string \<Rightarrow> (string \<times> string) option" where
  "until_sep s = (case dropWhile (\<lambda>c. c \<noteq> CHR 0x5C) s of [] \<Rightarrow> None | _ # r \<Rightarrow> Some (takeWhile (\<lambda>c. c \<noteq> CHR 0x5C) s, r))"

definition upper_char :: "char \<Rightarrow> char" where
  "upper_char c = (if is_lower_letter c then char_of (of_char c - 32 :: nat) else c)"

abbreviation backslash :: string where
  "backslash \<equiv> [CHR 0x5C]"

text \<open>\<^verbatim>\<open>ntpath.splitroot\<close> of a path whose slashes are backslashes: drive, root and the rest.\<close>

definition nt_splitroot :: "string \<Rightarrow> string \<times> string \<times> string" where
  "nt_splitroot p =
     (if starts_with (backslash @ backslash) p then
        let unc = map upper_char (take 8 p) = backslash @ backslash @ ''?'' @ backslash @ ''UNC'' @ backslash;
            head = (if unc then take 8 p else take 2 p); rest = (if unc then drop 8 p else drop 2 p)
        in (case until_sep rest of None \<Rightarrow> (p, [], [])
            | Some (server, rest') \<Rightarrow> (case until_sep rest' of None \<Rightarrow> (p, [], [])
                | Some (share, rel) \<Rightarrow> (head @ server @ backslash @ share, backslash, rel)))
      else if starts_with backslash p then ([], backslash, drop 1 p)
      else if take 1 (drop 1 p) = '':'' then
        (if take 1 (drop 2 p) = backslash then (take 2 p, backslash, drop 3 p) else (take 2 p, [], drop 2 p))
      else ([], [], p))"

record windows_path =
  wp_drive :: string
  wp_root :: string
  wp_tail :: "string list"

definition parse_windows_path :: "string \<Rightarrow> windows_path" where
  "parse_windows_path raw =
     (let (drv, root, rel) = nt_splitroot (replace_char (CHR ''/'') (CHR 0x5C) raw);
          drv_parts = split_on (CHR 0x5C) drv;
          root' = (if root = [] \<and> starts_with backslash drv \<and> \<not> ends_with backslash drv
                      \<and> (length drv_parts = 4 \<and> drv_parts ! 2 \<notin> {[], ''?'', ''.'', ''?.''} \<or> length drv_parts = 6)
                   then backslash else root)
      in \<lparr>wp_drive = drv, wp_root = root', wp_tail = filter (\<lambda>x. x \<noteq> [] \<and> x \<noteq> ''.'') (split_on (CHR 0x5C) rel)\<rparr>)"

definition windows_is_absolute :: "windows_path \<Rightarrow> bool" where
  "windows_is_absolute p \<longleftrightarrow> wp_drive p \<noteq> [] \<and> wp_root p \<noteq> []"

section \<open>The recorded binding\<close>

definition MAX_EXECUTION_BINDING_ANCESTORS :: nat where
  "MAX_EXECUTION_BINDING_ANCESTORS = 256"

text \<open>
  The recorded path is read with the rules of Windows when it is absolute there, otherwise with those of POSIX; what
  matters is its anchor, its separator and its segments.
\<close>

definition binding_path :: "string \<Rightarrow> (string \<times> string \<times> string list) option" where
  "binding_path raw =
     (let w = parse_windows_path raw; p = parse_path raw
      in if windows_is_absolute w then Some (wp_drive w @ wp_root w, backslash, wp_tail w)
         else if is_absolute p then Some (path_root p, ''/'', path_parts p)
         else None)"

text \<open>\<^verbatim>\<open>list(reversed(root.parents)) + [root]\<close>, as texts.\<close>

definition binding_chain :: "string \<times> string \<times> string list \<Rightarrow> string list" where
  "binding_chain = (\<lambda>(anchor, sep, tail). map (\<lambda>n. anchor @ join sep (take n tail)) [0..<Suc (length tail)])"

definition binding_row_ok :: "pyval \<Rightarrow> string \<Rightarrow> bool" where
  "binding_row_ok row expected = (case row of
       PDict d \<Rightarrow> set (dict_keys d) = PStr ` {''path'', ''device'', ''inode''} \<and> pget d ''path'' = PStr expected
         \<and> (case pget d ''device'' of PInt i \<Rightarrow> 0 \<le> i | _ \<Rightarrow> False) \<and> (case pget d ''inode'' of PInt i \<Rightarrow> 0 < i | _ \<Rightarrow> False)
     | _ \<Rightarrow> False)"

definition execution_binding_shape_ok :: "pyval \<Rightarrow> bool" where
  "execution_binding_shape_ok binding = (case binding of
       PDict d \<Rightarrow>
         set (dict_keys d) = PStr ` {''version'', ''path'', ''ancestors''} \<and> pget d ''version'' = PInt 1
         \<and> (case pget d ''path'' of
              PStr raw \<Rightarrow>
                raw \<noteq> [] \<and> CHR 0x00 \<notin> set raw
                \<and> (case binding_path raw of None \<Rightarrow> False
                   | Some (anchor, sep, tail) \<Rightarrow>
                       anchor @ join sep tail = raw \<and> ''..'' \<notin> set tail \<and> Suc (length tail) \<le> MAX_EXECUTION_BINDING_ANCESTORS
                       \<and> (case pget d ''ancestors'' of
                            PList rows \<Rightarrow> length rows = Suc (length tail) \<and> list_all2 binding_row_ok rows (binding_chain (anchor, sep, tail))
                          | _ \<Rightarrow> False))
            | _ \<Rightarrow> False)
     | _ \<Rightarrow> False)"

definition row_active :: "pyval \<Rightarrow> bool" where
  "row_active row = (case row of PDict d \<Rightarrow> pget d ''state'' = PStr ''active'' | _ \<Rightarrow> False)"

definition execution_binding_topology_ok :: "pydict \<Rightarrow> bool" where
  "execution_binding_topology_ok meta \<longleftrightarrow>
     (if \<not> has_key meta ''execution_binding'' then True
      else let history = (if truthy (pget meta ''checkout_history'') then pget meta ''checkout_history'' else PList [])
           in execution_binding_shape_ok (pget meta ''execution_binding'') \<and> pget meta ''active_checkout'' = PNone
              \<and> (case history of PList rows \<Rightarrow> \<not> list_ex row_active rows | _ \<Rightarrow> False))"

section \<open>The mirror\<close>

record binding_mirror =
  bm_metadata :: "pyval option"
  bm_binding :: pyval
  bm_seen :: bool
  bm_open_steps :: "string option set"
  bm_open_operations :: "string option set"
  bm_open_agents :: "string option set"
  bm_closed :: bool
  bm_issues :: "string set"

definition mk_binding_mirror :: "pyval option \<Rightarrow> binding_mirror" where
  "mk_binding_mirror metadata = \<lparr>bm_metadata = metadata, bm_binding = PNone, bm_seen = False, bm_open_steps = {}, bm_open_operations = {},
     bm_open_agents = {}, bm_closed = False, bm_issues = {}\<rparr>"

definition bm_note :: "bool \<Rightarrow> string \<Rightarrow> binding_mirror \<Rightarrow> binding_mirror" where
  "bm_note b issue m = (if b then m\<lparr>bm_issues := insert issue (bm_issues m)\<rparr> else m)"

text \<open>One row of the table of paired events: a start without an identity never closes.\<close>

definition track_open :: "string \<Rightarrow> string \<Rightarrow> pyval \<Rightarrow> pyval \<Rightarrow> string option set \<Rightarrow> string option set" where
  "track_open start finish kind identity opened =
     (if kind = PStr start then (case identity of PStr s \<Rightarrow> if s = [] then insert None opened else insert (Some s) opened | _ \<Rightarrow> insert None opened)
      else if kind = PStr finish then (case identity of PStr s \<Rightarrow> opened - {Some s} | _ \<Rightarrow> opened)
      else opened)"

definition bm_track :: "pyval \<Rightarrow> pydict \<Rightarrow> binding_mirror \<Rightarrow> binding_mirror" where
  "bm_track kind payload m = m\<lparr>
     bm_open_steps := track_open ''step_started'' ''step_finished'' kind (pget payload ''attempt'') (bm_open_steps m),
     bm_open_operations := track_open ''operation_started'' ''operation_finished'' kind (pget payload ''attempt'') (bm_open_operations m),
     bm_open_agents := track_open ''agent_spawned'' ''agent_result'' kind (pget payload ''spawn_id'') (bm_open_agents m)\<rparr>"

definition bm_close :: "pyval \<Rightarrow> binding_mirror \<Rightarrow> binding_mirror" where
  "bm_close kind m =
     (if kind = PStr ''close_phase'' then m\<lparr>bm_closed := True\<rparr>
      else if kind = PStr ''ticket_reopened'' then bm_note (bm_seen m) ''binding_checkout_conflict'' (m\<lparr>bm_closed := False\<rparr>)
      else m)"

definition dict_key :: "pyval \<Rightarrow> string \<Rightarrow> bool" where
  "dict_key v k = (case v of PDict d \<Rightarrow> has_key d k | _ \<Rightarrow> False)"

definition touches_checkout :: "pyval \<Rightarrow> bool" where
  "touches_checkout change = (case change of
       PDict d \<Rightarrow> pget d ''active_checkout'' \<noteq> PNone \<or> (case pget d ''checkout_history'' of PList rows \<Rightarrow> list_ex row_active rows | _ \<Rightarrow> False)
     | _ \<Rightarrow> False)"

definition binding_event_shape_ok :: "pydict \<Rightarrow> pydict \<Rightarrow> bool" where
  "binding_event_shape_ok event payload \<longleftrightarrow>
     pget payload ''execution_root_binding'' = PInt 1
     \<and> set (dict_keys payload) = PStr ` {''execution_root_binding'', ''set'', ''append'', ''metadata_hash_after''}
     \<and> str_with hex64_text (pget payload ''metadata_hash_after'')
     \<and> (case pget payload ''set'' of PDict d \<Rightarrow> set (dict_keys d) = {PStr ''execution_binding''} | _ \<Rightarrow> False)
     \<and> py_eq (pget payload ''append'') (PDict [])
     \<and> str_with (\<lambda>s. strip s \<noteq> []) (pget event ''request_id'')
     \<and> pget event ''actor'' = PStr ''icode''"

definition bm_bind :: "pydict \<Rightarrow> pydict \<Rightarrow> binding_mirror \<Rightarrow> binding_mirror" where
  "bm_bind event payload m =
     (let candidate = (case pget payload ''set'' of PDict d \<Rightarrow> pget d ''execution_binding'' | _ \<Rightarrow> PNone);
          m1 = bm_note (\<not> binding_event_shape_ok event payload) ''binding_event_shape'' m;
          m2 = bm_note (bm_seen m) ''binding_event_duplicate'' m1;
          m3 = bm_note (bm_open_steps m \<noteq> {} \<or> bm_open_operations m \<noteq> {} \<or> bm_open_agents m \<noteq> {} \<or> bm_closed m) ''binding_not_quiescent'' m2;
          m4 = bm_note (\<not> execution_binding_shape_ok candidate) ''binding_shape'' m3
      in m4\<lparr>bm_binding := candidate, bm_seen := True\<rparr>)"

definition bm_consume :: "pydict \<Rightarrow> binding_mirror \<Rightarrow> binding_mirror" where
  "bm_consume event m =
     (let kind = pget event ''event_type'';
          payload = (case pget event ''payload'' of PDict p \<Rightarrow> p | _ \<Rightarrow> []);
          m1 = bm_close kind (bm_track kind payload m);
          updates = pget payload ''set''; appends = pget payload ''append''
      in if kind \<noteq> PStr ''metadata_updated''
         then bm_note (has_key payload ''execution_root_binding'') ''binding_wrong_event_type'' m1
         else if \<not> (dict_key updates ''execution_binding'' \<or> dict_key appends ''execution_binding'') \<and> \<not> has_key payload ''execution_root_binding''
         then bm_note (bm_seen m1 \<and> (touches_checkout updates \<or> touches_checkout appends)) ''binding_checkout_conflict'' m1
         else bm_bind event payload m1)"

definition bm_finish :: "binding_mirror \<Rightarrow> string list" where
  "bm_finish m = (let m' = (case bm_metadata m of
       Some (PDict meta) \<Rightarrow>
         bm_note (has_key meta ''execution_binding'' \<noteq> bm_seen m
             \<or> bm_seen m \<and> \<not> py_eq (pget meta ''execution_binding'') (bm_binding m)) ''binding_metadata_mismatch''
           (bm_note (\<not> execution_binding_topology_ok meta) ''binding_checkout_conflict'' m)
     | _ \<Rightarrow> m) in sorted_list_of_set (bm_issues m'))"

definition bm_replay :: "pydict list \<Rightarrow> binding_mirror \<Rightarrow> binding_mirror" where
  "bm_replay es m = fold bm_consume es m"

section \<open>What an accepted chain says about the binding\<close>

text \<open>The events read on their own: the payload, what is running after a list of events, and whether the ticket is closed.\<close>

definition payload_of :: "pydict \<Rightarrow> pydict" where
  "payload_of event = (case pget event ''payload'' of PDict p \<Rightarrow> p | _ \<Rightarrow> [])"

definition running :: "string \<Rightarrow> string \<Rightarrow> string \<Rightarrow> pydict list \<Rightarrow> string option set" where
  "running start finish key es = fold (\<lambda>e. track_open start finish (pget e ''event_type'') (pget (payload_of e) key)) es {}"

definition closed_after :: "pydict list \<Rightarrow> bool" where
  "closed_after es = fold (\<lambda>e c. if pget e ''event_type'' = PStr ''close_phase'' then True
     else if pget e ''event_type'' = PStr ''ticket_reopened'' then False else c) es False"

definition quiescent :: "pydict list \<Rightarrow> bool" where
  "quiescent es \<longleftrightarrow> running ''step_started'' ''step_finished'' ''attempt'' es = {} \<and> running ''operation_started'' ''operation_finished'' ''attempt'' es = {}
     \<and> running ''agent_spawned'' ''agent_result'' ''spawn_id'' es = {} \<and> \<not> closed_after es"

definition binds_root :: "pydict \<Rightarrow> bool" where
  "binds_root e \<longleftrightarrow> pget e ''event_type'' = PStr ''metadata_updated''
     \<and> (dict_key (pget (payload_of e) ''set'') ''execution_binding'' \<or> dict_key (pget (payload_of e) ''append'') ''execution_binding''
        \<or> has_key (payload_of e) ''execution_root_binding'')"

definition bound_value :: "pydict \<Rightarrow> pyval" where
  "bound_value e = (case pget (payload_of e) ''set'' of PDict d \<Rightarrow> pget d ''execution_binding'' | _ \<Rightarrow> PNone)"

lemma bm_note_fields [simp]:
  "bm_metadata (bm_note b s m) = bm_metadata m" "bm_binding (bm_note b s m) = bm_binding m" "bm_seen (bm_note b s m) = bm_seen m"
  "bm_open_steps (bm_note b s m) = bm_open_steps m" "bm_open_operations (bm_note b s m) = bm_open_operations m"
  "bm_open_agents (bm_note b s m) = bm_open_agents m" "bm_closed (bm_note b s m) = bm_closed m"
  "bm_issues (bm_note b s m) = {} \<longleftrightarrow> \<not> b \<and> bm_issues m = {}" "finite (bm_issues (bm_note b s m)) = finite (bm_issues m)"
  by (simp_all add: bm_note_def)

lemma bm_track_fields [simp]:
  "bm_metadata (bm_track k p m) = bm_metadata m" "bm_binding (bm_track k p m) = bm_binding m" "bm_seen (bm_track k p m) = bm_seen m"
  "bm_closed (bm_track k p m) = bm_closed m" "bm_issues (bm_track k p m) = bm_issues m"
  by (simp_all add: bm_track_def)

lemma bm_close_fields [simp]:
  "bm_metadata (bm_close k m) = bm_metadata m" "bm_binding (bm_close k m) = bm_binding m" "bm_seen (bm_close k m) = bm_seen m"
  "bm_open_steps (bm_close k m) = bm_open_steps m" "bm_open_operations (bm_close k m) = bm_open_operations m"
  "bm_open_agents (bm_close k m) = bm_open_agents m" "finite (bm_issues (bm_close k m)) = finite (bm_issues m)"
  "bm_closed (bm_close k m) = (if k = PStr ''close_phase'' then True else if k = PStr ''ticket_reopened'' then False else bm_closed m)"
  by (simp_all add: bm_close_def)

lemma bm_close_issues: "bm_issues (bm_close k m) = {} \<Longrightarrow> bm_issues m = {}"
  by (simp add: bm_close_def split: if_splits)

lemma bm_bind_fields [simp]:
  "bm_metadata (bm_bind e p m) = bm_metadata m" "bm_seen (bm_bind e p m)" "finite (bm_issues (bm_bind e p m)) = finite (bm_issues m)"
  "bm_open_steps (bm_bind e p m) = bm_open_steps m" "bm_open_operations (bm_bind e p m) = bm_open_operations m"
  "bm_open_agents (bm_bind e p m) = bm_open_agents m" "bm_closed (bm_bind e p m) = bm_closed m"
  by (simp_all add: bm_bind_def Let_def)

lemma bm_consume_alt:
  "bm_consume e m = (let m1 = bm_close (pget e ''event_type'') (bm_track (pget e ''event_type'') (payload_of e) m)
     in if binds_root e then bm_bind e (payload_of e) m1
        else bm_note (if pget e ''event_type'' \<noteq> PStr ''metadata_updated'' then has_key (payload_of e) ''execution_root_binding''
               else bm_seen m \<and> (touches_checkout (pget (payload_of e) ''set'') \<or> touches_checkout (pget (payload_of e) ''append'')))
             (if pget e ''event_type'' \<noteq> PStr ''metadata_updated'' then ''binding_wrong_event_type'' else ''binding_checkout_conflict'') m1)"
  by (auto simp: bm_consume_def Let_def binds_root_def payload_of_def [symmetric])

lemma bm_consume_fields [simp]:
  "bm_metadata (bm_consume e m) = bm_metadata m" "bm_seen (bm_consume e m) = (bm_seen m \<or> binds_root e)"
  "finite (bm_issues (bm_consume e m)) = finite (bm_issues m)"
  "bm_binding (bm_consume e m) = (if binds_root e then bound_value e else bm_binding m)"
  "bm_closed (bm_consume e m) = (if pget e ''event_type'' = PStr ''close_phase'' then True
     else if pget e ''event_type'' = PStr ''ticket_reopened'' then False else bm_closed m)"
  by (simp_all add: bm_consume_alt Let_def bm_bind_def bound_value_def)

lemma bm_consume_open [simp]:
  "bm_open_steps (bm_consume e m) = track_open ''step_started'' ''step_finished'' (pget e ''event_type'') (pget (payload_of e) ''attempt'') (bm_open_steps m)"
  "bm_open_operations (bm_consume e m) =
     track_open ''operation_started'' ''operation_finished'' (pget e ''event_type'') (pget (payload_of e) ''attempt'') (bm_open_operations m)"
  "bm_open_agents (bm_consume e m) = track_open ''agent_spawned'' ''agent_result'' (pget e ''event_type'') (pget (payload_of e) ''spawn_id'') (bm_open_agents m)"
  by (simp_all add: bm_consume_alt Let_def bm_track_def)

lemma bm_consume_issues:
  assumes "bm_issues (bm_consume e m) = {}"
  shows "bm_issues m = {}"
    and "binds_root e \<Longrightarrow> \<not> bm_seen m \<and> binding_event_shape_ok e (payload_of e) \<and> execution_binding_shape_ok (bound_value e)
      \<and> bm_open_steps m = {} \<and> bm_open_operations m = {} \<and> bm_open_agents m = {} \<and> \<not> bm_closed m"
proof -
  show "bm_issues m = {}"
    using assms by (auto simp: bm_consume_alt Let_def bm_bind_def split: if_splits dest: bm_close_issues)
  assume b: "binds_root e"
  then have k: "pget e ''event_type'' = PStr ''metadata_updated''" by (simp add: binds_root_def)
  show "\<not> bm_seen m \<and> binding_event_shape_ok e (payload_of e) \<and> execution_binding_shape_ok (bound_value e)
      \<and> bm_open_steps m = {} \<and> bm_open_operations m = {} \<and> bm_open_agents m = {} \<and> \<not> bm_closed m"
    using assms b by (simp add: bm_consume_alt Let_def bm_bind_def bound_value_def bm_track_def track_open_def k)
qed

lemma bm_replay_fields:
  "bm_metadata (bm_replay es m) = bm_metadata m" "bm_seen (bm_replay es m) = (bm_seen m \<or> list_ex binds_root es)"
  "finite (bm_issues (bm_replay es m)) = finite (bm_issues m)"
  "bm_closed (bm_replay es m) = fold (\<lambda>e c. if pget e ''event_type'' = PStr ''close_phase'' then True
     else if pget e ''event_type'' = PStr ''ticket_reopened'' then False else c) es (bm_closed m)"
  unfolding bm_replay_def by (induction es arbitrary: m) auto

lemma bm_replay_open:
  "bm_open_steps (bm_replay es m) = fold (\<lambda>e. track_open ''step_started'' ''step_finished'' (pget e ''event_type'') (pget (payload_of e) ''attempt'')) es (bm_open_steps m)"
  "bm_open_operations (bm_replay es m) =
     fold (\<lambda>e. track_open ''operation_started'' ''operation_finished'' (pget e ''event_type'') (pget (payload_of e) ''attempt'')) es (bm_open_operations m)"
  "bm_open_agents (bm_replay es m) = fold (\<lambda>e. track_open ''agent_spawned'' ''agent_result'' (pget e ''event_type'') (pget (payload_of e) ''spawn_id'')) es (bm_open_agents m)"
  unfolding bm_replay_def by (induction es arbitrary: m) simp_all

lemma bm_replay_issues: "bm_issues (bm_replay es m) = {} \<Longrightarrow> bm_issues m = {}"
  unfolding bm_replay_def by (induction es arbitrary: m) (auto dest: bm_consume_issues(1))

lemma bm_replay_quiet: "\<not> list_ex binds_root es \<Longrightarrow> bm_binding (bm_replay es m) = bm_binding m"
  unfolding bm_replay_def by (induction es arbitrary: m) auto

lemma bm_replay_seen: "bm_seen m \<Longrightarrow> bm_issues (bm_replay es m) = {} \<Longrightarrow> \<not> list_ex binds_root es"
proof (induction es arbitrary: m)
  case (Cons e es)
  then have "bm_issues (bm_consume e m) = {}" by (simp add: bm_replay_def bm_replay_issues [unfolded bm_replay_def])
  with Cons.prems(1) have "\<not> binds_root e" using bm_consume_issues(2) [of e m] by blast
  moreover have "\<not> list_ex binds_root es" using Cons.IH [of "bm_consume e m"] Cons.prems by (simp add: bm_replay_def)
  ultimately show ?case by simp
qed simp

lemma split_first: "list_ex P xs \<Longrightarrow> \<exists>ys x zs. xs = ys @ x # zs \<and> P x \<and> \<not> list_ex P ys"
  unfolding list_ex_iff by (drule split_list_first_prop) blast

text \<open>
  C17. The execution root is bound once, in a quiescent ticket: when the binding mirror reports nothing and the metadata has a
  binding, exactly one event binds the root, it does so while every started step, operation and agent has ended and the
  ticket is not closed, its value is a well-formed binding, and the metadata records an equal one without an active checkout.
\<close>

theorem root_bound_once_and_quiescent:
  assumes "bm_finish (bm_replay es (mk_binding_mirror (Some (PDict meta)))) = []" and "has_key meta ''execution_binding''"
  shows "\<exists>pre e post. es = pre @ e # post \<and> binds_root e \<and> \<not> list_ex binds_root (pre @ post) \<and> quiescent pre
    \<and> binding_event_shape_ok e (payload_of e) \<and> execution_binding_shape_ok (bound_value e)
    \<and> py_eq (pget meta ''execution_binding'') (bound_value e) \<and> pget meta ''active_checkout'' = PNone"
proof -
  let ?m = "mk_binding_mirror (Some (PDict meta))" and ?fin = "bm_replay es (mk_binding_mirror (Some (PDict meta)))"
  have meta: "bm_metadata ?fin = Some (PDict meta)" and fin: "finite (bm_issues ?fin)"
    by (simp_all add: bm_replay_fields mk_binding_mirror_def)
  have clean: "bm_issues ?fin = {}" "bm_seen ?fin" "py_eq (pget meta ''execution_binding'') (bm_binding ?fin)" "execution_binding_topology_ok meta"
    using assms fin by (auto simp: bm_finish_def Let_def meta)
  from clean(2) have "list_ex binds_root es" by (simp add: bm_replay_fields mk_binding_mirror_def)
  then obtain pre e post where es: "es = pre @ e # post" "binds_root e" "\<not> list_ex binds_root pre" using split_first by metis
  let ?pre = "bm_replay pre ?m"
  have tail: "?fin = bm_replay post (bm_consume e ?pre)" by (simp add: es(1) bm_replay_def)
  have step: "bm_issues (bm_consume e ?pre) = {}" using clean(1) unfolding tail by (rule bm_replay_issues)
  have post: "\<not> list_ex binds_root post" using bm_replay_seen [of "bm_consume e ?pre" post] clean(1) es(2) by (simp add: tail)
  then have "bm_binding ?fin = bound_value e" by (simp add: tail bm_replay_quiet es(2))
  moreover have "quiescent pre"
    using bm_consume_issues(2) [OF step es(2)]
    by (simp add: quiescent_def running_def closed_after_def bm_replay_open bm_replay_fields mk_binding_mirror_def)
  moreover have "pget meta ''active_checkout'' = PNone" using clean(4) assms(2) by (simp add: execution_binding_topology_ok_def Let_def)
  ultimately show ?thesis using bm_consume_issues(2) [OF step es(2)] clean(3) es post by auto
qed

definition demo_binding :: pyval where
  "demo_binding = PDict [(PStr ''version'', PInt 1), (PStr ''path'', PStr ''/w''), (PStr ''ancestors'', PList
     [PDict [(PStr ''path'', PStr ''/''), (PStr ''device'', PInt 1), (PStr ''inode'', PInt 2)],
      PDict [(PStr ''path'', PStr ''/w''), (PStr ''device'', PInt 1), (PStr ''inode'', PInt 7)]])]"

definition demo_binding_events :: "pydict list" where
  "demo_binding_events =
    [[(PStr ''event_type'', PStr ''step_started''), (PStr ''payload'', PDict [(PStr ''attempt'', PStr ''a'')])],
     [(PStr ''event_type'', PStr ''step_finished''), (PStr ''payload'', PDict [(PStr ''attempt'', PStr ''a'')])],
     [(PStr ''event_type'', PStr ''metadata_updated''), (PStr ''request_id'', PStr ''r''), (PStr ''actor'', PStr ''icode''),
      (PStr ''payload'', PDict [(PStr ''execution_root_binding'', PInt 1), (PStr ''set'', PDict [(PStr ''execution_binding'', demo_binding)]),
        (PStr ''append'', PDict []), (PStr ''metadata_hash_after'', PStr (replicate 64 (CHR ''a'')))])]]"

theorem root_bound_once_and_quiescent_witness:
  "\<exists>pre e post. demo_binding_events = pre @ e # post \<and> binds_root e \<and> quiescent pre"
proof -
  have "bm_finish (bm_replay demo_binding_events (mk_binding_mirror (Some (PDict [(PStr ''execution_binding'', demo_binding)])))) = []" by code_simp
  moreover have "has_key [(PStr ''execution_binding'', demo_binding)] ''execution_binding''" by (simp add: has_key_def)
  ultimately show ?thesis using root_bound_once_and_quiescent by blast
qed

end
