(* ===== verification/Pack_Chain.thy ===== *)
theory Pack_Chain
  imports Pack_Execution Pack_Binding Json_Canon
begin

text \<open>
  The event chain of an evidence pack: \<^verbatim>\<open>_verify_event_chain\<close> of \<^verbatim>\<open>pack_verify.py\<close>. The file is read line by line,
  each line is a strict JSON object, and one pass feeds the schema check, the hash links and the four mirrors. The theorems
  read what an empty report says about the events, and that the last hash of an accepted chain identifies all of it.
\<close>

section \<open>Reading the lines of a text file\<close>

text \<open>
  \<^verbatim>\<open>open(encoding="utf-8", newline="")\<close> decodes chunks of 8192 bytes; a chunk that cannot be decoded raises when it is
  reached, so the lines that were complete before it have already been processed. The first function decodes as far as
  it can.
\<close>

definition TEXT_CHUNK_BYTES :: nat where
  "TEXT_CHUNK_BYTES = 8192"

fun utf8_prefix :: "string \<Rightarrow> string \<times> string" where
  "utf8_prefix [] = ([], [])"
| "utf8_prefix (b # bs) =
     (if (of_char b :: nat) < 128 then apfst (\<lambda>s. b # s) (utf8_prefix bs)
      else case bs of [] \<Rightarrow> ([], [b])
        | b' # bs' \<Rightarrow>
            if (of_char b :: nat) \<in> {194, 195} \<and> 128 \<le> (of_char b' :: nat) \<and> (of_char b' :: nat) < 192
            then apfst (\<lambda>s. char_of ((of_char b - 192) * 64 + (of_char b' - 128 :: nat)) # s) (utf8_prefix bs')
            else ([], b # bs))"

text \<open>The number of bytes after which the decoder knows that the rest is invalid.\<close>

definition detected_after :: "string \<Rightarrow> nat" where
  "detected_after rest = (if rest = [] then 0 else if (of_char (hd rest) :: nat) \<in> {194, 195} then 2 else 1)"

definition failing_chunk :: "string \<Rightarrow> nat" where
  "failing_chunk bytes = (let rest = snd (utf8_prefix bytes); pos = length bytes - length rest + detected_after rest
     in if length bytes < pos then (length bytes + TEXT_CHUNK_BYTES - 1) div TEXT_CHUNK_BYTES else (pos - 1) div TEXT_CHUNK_BYTES)"

definition decoded_before_failure :: "string \<Rightarrow> string" where
  "decoded_before_failure bytes = fst (utf8_prefix (take (failing_chunk bytes * TEXT_CHUNK_BYTES) bytes))"

text \<open>Physical lines with their terminators: a line feed, a carriage return, or both.\<close>

fun split_lines :: "string \<Rightarrow> string \<Rightarrow> string list" where
  "split_lines acc [] = (if acc = [] then [] else [rev acc])"
| "split_lines acc (c # s) =
     (if c = CHR 10 then rev (c # acc) # split_lines [] s
      else if c = CHR 13 then (case s of c' # s' \<Rightarrow> if c' = CHR 10 then rev (c' # c # acc) # split_lines [] s' else rev (c # acc) # split_lines [] s
                                 | [] \<Rightarrow> [rev (c # acc)])
      else split_lines (c # acc) s)"

definition text_lines :: "string \<Rightarrow> string list" where
  "text_lines s = split_lines [] s"

definition ends_line :: "string \<Rightarrow> bool" where
  "ends_line l \<longleftrightarrow> l \<noteq> [] \<and> last l \<in> {CHR 10, CHR 13}"

definition MAX_EVENT_CHAIN_LINE_BYTES :: nat where
  "MAX_EVENT_CHAIN_LINE_BYTES = 1024 * 1024"

definition MAX_EVENT_CHAIN_TOTAL_BYTES :: nat where
  "MAX_EVENT_CHAIN_TOTAL_BYTES = 64 * 1024 * 1024"

definition MAX_EVENT_CHAIN_EVENT_COUNT :: nat where
  "MAX_EVENT_CHAIN_EVENT_COUNT = 100000"

text \<open>
  The lines that \<^verbatim>\<open>readline\<close> returns, and whether the reading ends with a decoding error. A carriage return at the end of
  what was decoded is held back until the next chunk; an unfinished line is returned when it is too long.
\<close>

definition stream_lines :: "string \<Rightarrow> string list \<times> bool" where
  "stream_lines bytes = (case utf8_decode bytes of
       Some s \<Rightarrow> (text_lines s, False)
     | None \<Rightarrow>
         let s = decoded_before_failure bytes;
             ls = text_lines (if s \<noteq> [] \<and> last s = CHR 13 then butlast s else s)
         in (filter (\<lambda>l. ends_line l \<or> MAX_EVENT_CHAIN_LINE_BYTES < length l) ls, True))"

section \<open>The state of the pass\<close>

record chain_expectations =
  ce_ticket_id :: "string option"
  ce_event_mirrors :: "pyval option"
  ce_agent_spawns :: "pyval option"
  ce_metadata_hash :: "pyval option"
  ce_state_machine :: "pyval option"
  ce_execution_model :: "pyval option"
  ce_completion_receipt :: "pyval option"
  ce_ticket_metadata :: "pyval option"

record event_mirror =
  mr_records :: "pydict list"
  mr_index :: nat
  mr_mismatch :: bool

type_synonym artifact_facts = "(string, string \<times> string) dict"

record chain_state =
  ch_problems :: problem_collector
  ch_chain :: chain_diagnostics
  ch_facts :: artifact_facts
  ch_seen_ids :: "string set"
  ch_previous :: pyval
  ch_count :: nat
  ch_first_valid :: bool
  ch_first_type :: pyval
  ch_bad_payload :: bool
  ch_bad_artifact_payload :: bool
  ch_bad_type :: bool
  ch_schema_fields :: "string set"
  ch_metadata_hash :: "pyval option"
  ch_mirrors :: "(string, event_mirror) dict"
  ch_agents :: "agent_mirror option"
  ch_ticket :: ticket_mirror
  ch_binding :: binding_mirror
  ch_execution :: execution_mirror

definition ch_note :: "bool \<Rightarrow> problem \<Rightarrow> chain_state \<Rightarrow> chain_state" where
  "ch_note b p st = st\<lparr>ch_problems := note_if b p (ch_problems st)\<rparr>"

text \<open>The records of one mirrored event type; \<open>None\<close> when they are not a list of objects.\<close>

definition mirror_records :: "pydict \<Rightarrow> string \<Rightarrow> pydict list option" where
  "mirror_records mirrors event_type = (case (if has_key mirrors event_type then pget mirrors event_type else PList []) of
       PNone \<Rightarrow> Some []
     | PList xs \<Rightarrow> map_opt as_dict xs
     | _ \<Rightarrow> None)"

definition init_mirror :: "pydict \<Rightarrow> string \<times> string list \<Rightarrow> chain_state \<Rightarrow> chain_state" where
  "init_mirror mirrors x st = (case mirror_records mirrors (fst x) of
       None \<Rightarrow> ch_note True (Problem ''metadata mirror is malformed'' [PStr (fst x)]) st
     | Some rs \<Rightarrow> st\<lparr>ch_mirrors := ch_mirrors st @ [(fst x, \<lparr>mr_records = rs, mr_index = 0, mr_mismatch = False\<rparr>)]\<rparr>)"

definition init_mirrors :: "pyval option \<Rightarrow> chain_state \<Rightarrow> chain_state" where
  "init_mirrors expected st = (case expected of None \<Rightarrow> st
     | Some (PDict mirrors) \<Rightarrow> fold (init_mirror mirrors) METADATA_EVENT_MIRROR_PATHS st
     | Some _ \<Rightarrow> ch_note True (Problem ''metadata event mirrors are malformed'' []) st)"

definition init_agents :: "pyval option \<Rightarrow> chain_state \<Rightarrow> chain_state" where
  "init_agents expected st = (case expected of None \<Rightarrow> st
     | Some v \<Rightarrow> let am = mk_agent_mirror v
         in ch_note (\<not> am_structurally_valid am) (Problem ''metadata agent spawns are malformed'' []) (st\<lparr>ch_agents := Some am\<rparr>))"

definition init_chain :: "chain_expectations \<Rightarrow> chain_state" where
  "init_chain ce = init_agents (ce_agent_spawns ce) (init_mirrors (ce_event_mirrors ce)
     \<lparr>ch_problems = mk_collector, ch_chain = mk_diagnostics, ch_facts = [], ch_seen_ids = {}, ch_previous = PStr GENESIS_HASH, ch_count = 0,
      ch_first_valid = False, ch_first_type = PStr [], ch_bad_payload = False, ch_bad_artifact_payload = False, ch_bad_type = False,
      ch_schema_fields = {}, ch_metadata_hash = None, ch_mirrors = [], ch_agents = None,
      ch_ticket = mk_ticket_mirror (ce_state_machine ce) (ce_ticket_metadata ce),
      ch_binding = mk_binding_mirror (ce_ticket_metadata ce),
      ch_execution = mk_execution_mirror (ce_execution_model ce) (ce_completion_receipt ce)\<rparr>)"

section \<open>One event\<close>

definition note_schema :: "string option \<Rightarrow> pydict \<Rightarrow> chain_state \<Rightarrow> chain_state" where
  "note_schema ticket_id event st = st\<lparr>ch_schema_fields := ch_schema_fields st \<union> set (event_schema_issues ticket_id event)\<rparr>"

definition note_first :: "pydict \<Rightarrow> chain_state \<Rightarrow> chain_state" where
  "note_first event st =
     (if ch_count st \<noteq> 1 then st
      else st\<lparr>ch_first_valid := str_with (\<lambda>t. t \<in> set ALLOWED_FIRST_EVENT) (pget event ''event_type''), ch_first_type := pget event ''event_type''\<rparr>)"

definition note_id :: "string option \<Rightarrow> pydict \<Rightarrow> chain_state \<Rightarrow> chain_state" where
  "note_id ticket_id event st =
     (let n = PInt (int (ch_count st)); add = (\<lambda>category p s. s\<lparr>ch_chain := cd_add_if True category p (ch_chain s)\<rparr>)
      in case pget event ''event_id'' of
          PStr event_id \<Rightarrow>
            if event_id = [] then add ''event_id'' (Problem ''event_id is malformed'' [n]) st
            else if ''event_id'' \<in> set (event_schema_issues ticket_id event) then st
            else if event_id \<in> ch_seen_ids st then add ''event_id_duplicate'' (Problem ''event_id is not unique'' [n, PStr event_id]) st
            else st\<lparr>ch_seen_ids := insert event_id (ch_seen_ids st)\<rparr>
        | _ \<Rightarrow> add ''event_id'' (Problem ''event_id is malformed'' [n]) st)"

definition note_hashes :: "pack_env \<Rightarrow> pydict \<Rightarrow> chain_state \<Rightarrow> chain_state" where
  "note_hashes env event st =
     (let n = PInt (int (ch_count st));
          d1 = cd_add_if (\<not> py_eq (pget event ''previous_event_hash'') (ch_previous st)) ''previous_event_hash''
                 (Problem ''previous_event_hash breaks the chain'' [n]) (ch_chain st);
          d2 = cd_add_if (\<not> py_eq (pget event ''event_hash'') (PStr (canonical_event_hash env event))) ''event_hash''
                 (Problem ''event_hash differs from the content'' [n]) d1
      in st\<lparr>ch_chain := d2, ch_previous := (if has_key event ''event_hash'' then pget event ''event_hash'' else ch_previous st)\<rparr>)"

definition feed_mirrors :: "pack_env \<Rightarrow> pydict \<Rightarrow> chain_state \<Rightarrow> chain_state" where
  "feed_mirrors env event st = st\<lparr>
     ch_ticket := ts_consume event (ch_count st) (ch_ticket st),
     ch_binding := bm_consume event (ch_binding st),
     ch_execution := ex_consume env event (ch_count st) (ch_execution st)\<rparr>"

definition note_metadata_hash :: "pydict \<Rightarrow> chain_state \<Rightarrow> chain_state" where
  "note_metadata_hash event st = (case pget event ''payload'' of
       PDict p \<Rightarrow> if truthy (pget p ''metadata_hash_after'') then st\<lparr>ch_metadata_hash := Some (pget p ''metadata_hash_after'')\<rparr> else st
     | _ \<Rightarrow> st)"

definition note_type :: "pydict \<Rightarrow> chain_state \<Rightarrow> chain_state" where
  "note_type event st =
     (if str_with (\<lambda>t. t \<in> set ALLOWED_EVENT_TYPES) (pget event ''event_type'') then st else st\<lparr>ch_bad_type := True\<rparr>)"

definition feed_agents :: "pack_env \<Rightarrow> pydict \<Rightarrow> chain_state \<Rightarrow> chain_state" where
  "feed_agents env event st = (case (ch_agents st, pget event ''event_type'') of
       (Some am, PStr t) \<Rightarrow>
         if t \<in> set AGENT_LIFECYCLE_EVENT_TYPES then st\<lparr>ch_agents := Some (am_consume env t (pget event ''payload'') am)\<rparr> else st
     | _ \<Rightarrow> st)"

definition note_payload :: "pack_env \<Rightarrow> pydict \<Rightarrow> chain_state \<Rightarrow> chain_state" where
  "note_payload env event st =
     (let artifact = (pget event ''event_type'' = PStr ''artifact_written'')
      in case pget event ''payload'' of
          PDict p \<Rightarrow>
            if artifact \<and> truthy (pget p ''sha256'')
            then st\<lparr>ch_facts := dict_set (py_str (pk_repr env) (pget p ''sha256''))
                   (py_str (pk_repr env) (pget event ''event_id''),
                    py_str (pk_repr env) (if truthy (pget p ''path'') then pget p ''path'' else PStr [])) (ch_facts st)\<rparr>
            else st
        | _ \<Rightarrow> if artifact then st\<lparr>ch_bad_artifact_payload := True\<rparr> else st\<lparr>ch_bad_payload := True\<rparr>)"

definition compare_mirror :: "pack_env \<Rightarrow> pydict \<Rightarrow> chain_state \<Rightarrow> chain_state" where
  "compare_mirror env event st = (case pget event ''event_type'' of
       PStr t \<Rightarrow>
         (case dict_get (ch_mirrors st) t of None \<Rightarrow> st
          | Some mr \<Rightarrow>
              let mismatch = (length (mr_records mr) \<le> mr_index mr
                    \<or> (case pget event ''payload'' of
                         PDict p \<Rightarrow> \<not> event_payload_matches_metadata_record env p (mr_records mr ! mr_index mr)
                       | _ \<Rightarrow> False))
              in ch_note (mismatch \<and> \<not> mr_mismatch mr) (Problem ''event differs from the metadata mirror'' [PStr t])
                   (st\<lparr>ch_mirrors := dict_set t (mr\<lparr>mr_index := Suc (mr_index mr), mr_mismatch := (mr_mismatch mr \<or> mismatch)\<rparr>) (ch_mirrors st)\<rparr>))
     | _ \<Rightarrow> st)"

definition chain_event :: "pack_env \<Rightarrow> chain_expectations \<Rightarrow> pydict \<Rightarrow> chain_state \<Rightarrow> chain_state" where
  "chain_event env ce event st =
     compare_mirror env event (note_payload env event (feed_agents env event (note_type event (note_metadata_hash event
       (feed_mirrors env event (note_hashes env event (note_id (ce_ticket_id ce) event (note_first event
         (note_schema (ce_ticket_id ce) event (st\<lparr>ch_count := Suc (ch_count st)\<rparr>))))))))))"

section \<open>The whole file\<close>

definition payload_shape_problems :: "chain_state \<Rightarrow> chain_state" where
  "payload_shape_problems st =
     ch_note (ch_bad_artifact_payload st) (Problem ''artifact_written payload is malformed'' [])
       (ch_note (ch_bad_payload st) (Problem ''event payload is malformed'' []) st)"

definition event_type_problem :: "chain_state \<Rightarrow> chain_state" where
  "event_type_problem st = ch_note (ch_bad_type st) (Problem ''event_type is not allowed'' []) st"

definition event_schema_problem :: "chain_state \<Rightarrow> chain_state" where
  "event_schema_problem st =
     ch_note (ch_schema_fields st \<noteq> {}) (Problem ''events violate the schema'' (map PStr (sorted_list_of_set (ch_schema_fields st)))) st"

definition chain_rendered :: "chain_state \<Rightarrow> chain_state" where
  "chain_rendered st = st\<lparr>ch_problems := pc_extend_report (cd_render (ch_chain st)) (ch_problems st)\<rparr>"

type_synonym chain_result = "artifact_facts \<times> bounded_report"

definition chain_stop :: "artifact_facts \<Rightarrow> chain_state \<Rightarrow> chain_result" where
  "chain_stop facts st = (facts, pc_render (ch_problems st))"

definition limit_stop :: "problem \<Rightarrow> chain_state \<Rightarrow> chain_result" where
  "limit_stop p st = chain_stop [] (ch_note True p (chain_rendered st))"

definition line_stop :: "problem \<Rightarrow> chain_state \<Rightarrow> chain_result" where
  "line_stop p st = chain_stop (ch_facts st) (event_schema_problem (event_type_problem (payload_shape_problems
     (chain_rendered (ch_note True p st)))))"

text \<open>
  The loop over the lines: \<open>Inl\<close> is an early return or the \<^verbatim>\<open>TypeError\<close> of the execution mirror, which no handler of the pass
  catches; \<open>Inr\<close> is the state at the end of the file.
\<close>

fun chain_lines :: "pack_env \<Rightarrow> chain_expectations \<Rightarrow> nat \<Rightarrow> nat \<Rightarrow> string list \<Rightarrow> chain_state \<Rightarrow> chain_result res + chain_state" where
  "chain_lines env ce lineno seen [] st = Inr st"
| "chain_lines env ce lineno seen (line # rest) st =
     (let n = Suc lineno; total' = seen + length (utf8 line)
      in if MAX_EVENT_CHAIN_LINE_BYTES < length line \<or> MAX_EVENT_CHAIN_LINE_BYTES < length (utf8 line)
         then Inl (Inr (limit_stop (Problem ''line of the event chain is too long'' [PInt (int n)]) st))
         else if MAX_EVENT_CHAIN_TOTAL_BYTES < total' then Inl (Inr (limit_stop (Problem ''event chain is too long'' []) st))
         else if strip line = [] then chain_lines env ce n total' rest st
         else if MAX_EVENT_CHAIN_EVENT_COUNT \<le> ch_count st then Inl (Inr (limit_stop (Problem ''event chain has too many events'' []) st))
         else (case loads_json_value (pk_limit env) (strip line) of
             Inl _ \<Rightarrow> Inl (Inr (line_stop (Problem ''line of the event chain cannot be parsed'' [PInt (int n)]) st))
           | Inr (PDict event) \<Rightarrow>
               if ex_raises env event (ch_execution st) then Inl (Inl (PyTypeError ''unhashable type''))
               else chain_lines env ce n total' rest (chain_event env ce event st)
           | Inr _ \<Rightarrow> Inl (Inr (line_stop (Problem ''line of the event chain is no object'' [PInt (int n)]) st))))"

definition leftover_step :: "string \<times> event_mirror \<Rightarrow> chain_state \<Rightarrow> chain_state" where
  "leftover_step x = (let (t, mr) = x in
     ch_note (mr_index mr \<noteq> length (mr_records mr) \<and> \<not> mr_mismatch mr) (Problem ''event differs from the metadata mirror'' [PStr t]))"

definition mirror_leftovers :: "chain_state \<Rightarrow> chain_state" where
  "mirror_leftovers st = fold leftover_step (ch_mirrors st) st"

definition chain_end :: "pack_env \<Rightarrow> chain_expectations \<Rightarrow> chain_state \<Rightarrow> chain_result" where
  "chain_end env ce st =
     (let s1 = ch_note (ch_count st \<noteq> 0 \<and> \<not> ch_first_valid st) (Problem ''first event type is not allowed'' [ch_first_type st]) (chain_rendered st);
          s2 = event_schema_problem (event_type_problem (payload_shape_problems s1));
          s3 = ch_note (case (ch_metadata_hash st, ce_metadata_hash ce) of (Some h, Some e) \<Rightarrow> \<not> py_eq h e | _ \<Rightarrow> False)
                 (Problem ''last metadata_hash_after differs from the metadata'' []) s2;
          s4 = mirror_leftovers s3;
          s5 = ch_note (case ch_agents st of Some am \<Rightarrow> am_structurally_valid am \<and> \<not> am_finish env am | None \<Rightarrow> False)
                 (Problem ''agent events differ from the metadata'' []) s4;
          problems = pc_extend_report (ex_finish (ch_execution st))
            (pc_extend_list (map (\<lambda>s. Problem s []) (bm_finish (ch_binding st))) (pc_extend_report (ts_finish (ch_ticket st)) (ch_problems s5)))
      in (ch_facts st, pc_render problems))"

text \<open>A file that exists: its bytes, or only its size when it cannot be opened.\<close>

datatype chain_file = Chain_bytes string | Chain_locked nat

definition chain_size :: "chain_file \<Rightarrow> nat" where
  "chain_size f = (case f of Chain_bytes b \<Rightarrow> length b | Chain_locked n \<Rightarrow> n)"

definition verify_event_chain :: "pack_env \<Rightarrow> chain_expectations \<Rightarrow> chain_file \<Rightarrow> chain_result res" where
  "verify_event_chain env ce f =
     (let st = init_chain ce
      in if MAX_EVENT_CHAIN_TOTAL_BYTES < chain_size f then Inr (chain_stop [] (ch_note True (Problem ''event chain is too long'' []) st))
         else case f of
             Chain_locked _ \<Rightarrow> Inr (chain_stop [] (ch_note True (Problem ''event chain cannot be read'' []) (chain_rendered st)))
           | Chain_bytes bytes \<Rightarrow>
               (case chain_lines env ce 0 0 (fst (stream_lines bytes)) st of
                  Inl r \<Rightarrow> r
                | Inr st' \<Rightarrow> Inr
                    (if snd (stream_lines bytes)
                     then chain_stop [] (event_schema_problem (chain_rendered (ch_note True (Problem ''event chain cannot be read'' []) st')))
                     else chain_end env ce st')))"

text \<open>The file is accepted: the pass returns and reports nothing.\<close>

definition chain_accepted :: "pack_env \<Rightarrow> chain_expectations \<Rightarrow> string \<Rightarrow> bool" where
  "chain_accepted env ce bytes = (case verify_event_chain env ce (Chain_bytes bytes) of Inr r \<Rightarrow> br_values (snd r) = [] | Inl _ \<Rightarrow> False)"

section \<open>Passes that collect problems\<close>

text \<open>
  The interface of a pass: a step keeps the collector well formed and never takes a reported problem back. What holds
  for a whole pass without problems then holds for each of its steps.
\<close>

locale reporting_pass =
  fixes step :: "'e \<Rightarrow> 'm \<Rightarrow> 'm" and probs :: "'m \<Rightarrow> problem_collector"
  assumes step_collector_ok: "collector_ok (probs m) \<Longrightarrow> collector_ok (probs (step e m))"
    and step_clean: "clean (probs (step e m)) \<Longrightarrow> clean (probs m)"
begin

lemma pass_collector_ok: "collector_ok (probs m) \<Longrightarrow> collector_ok (probs (fold step es m))"
  by (induction es arbitrary: m) (simp_all add: step_collector_ok)

lemma pass_clean: "clean (probs (fold step es m)) \<Longrightarrow> clean (probs m)"
  by (induction es arbitrary: m) (auto dest: step_clean)

lemma pass_clean_at: "clean (probs (fold step (as @ e # bs) m)) \<Longrightarrow> clean (probs (step e (fold step as m)))"
  by (simp add: pass_clean)

end

section \<open>What one event changes\<close>

declare py_eq.simps [simp del]

lemma ch_note_fields [simp]:
  "ch_chain (ch_note b p st) = ch_chain st" "ch_facts (ch_note b p st) = ch_facts st" "ch_seen_ids (ch_note b p st) = ch_seen_ids st"
  "ch_previous (ch_note b p st) = ch_previous st" "ch_count (ch_note b p st) = ch_count st" "ch_first_valid (ch_note b p st) = ch_first_valid st"
  "ch_bad_payload (ch_note b p st) = ch_bad_payload st" "ch_bad_artifact_payload (ch_note b p st) = ch_bad_artifact_payload st"
  "ch_bad_type (ch_note b p st) = ch_bad_type st" "ch_schema_fields (ch_note b p st) = ch_schema_fields st"
  "ch_metadata_hash (ch_note b p st) = ch_metadata_hash st" "ch_mirrors (ch_note b p st) = ch_mirrors st" "ch_agents (ch_note b p st) = ch_agents st"
  "ch_ticket (ch_note b p st) = ch_ticket st" "ch_binding (ch_note b p st) = ch_binding st" "ch_execution (ch_note b p st) = ch_execution st"
  "ch_first_type (ch_note b p st) = ch_first_type st"
  by (simp_all add: ch_note_def)

lemma ch_note_problems [simp]:
  "clean (ch_problems (ch_note b p st)) \<longleftrightarrow> \<not> b \<and> clean (ch_problems st)"
  "collector_ok (ch_problems st) \<Longrightarrow> collector_ok (ch_problems (ch_note b p st))"
  by (simp_all add: ch_note_def)

lemmas note_defs = note_schema_def note_first_def note_id_def note_hashes_def feed_mirrors_def note_metadata_hash_def note_type_def
  feed_agents_def note_payload_def

text \<open>Each part of an event's step keeps the fields that are not its own.\<close>

lemma note_problems [simp]:
  "ch_problems (note_schema t e st) = ch_problems st" "ch_problems (note_first e st) = ch_problems st" "ch_problems (note_id t e st) = ch_problems st"
  "ch_problems (note_hashes env e st) = ch_problems st" "ch_problems (feed_mirrors env e st) = ch_problems st"
  "ch_problems (note_metadata_hash e st) = ch_problems st" "ch_problems (note_type e st) = ch_problems st"
  "ch_problems (feed_agents env e st) = ch_problems st" "ch_problems (note_payload env e st) = ch_problems st"
  by (auto simp: note_defs Let_def split: pyval.split option.split)

lemma note_count [simp]:
  "ch_count (note_schema t e st) = ch_count st" "ch_count (note_first e st) = ch_count st" "ch_count (note_id t e st) = ch_count st"
  "ch_count (note_hashes env e st) = ch_count st" "ch_count (feed_mirrors env e st) = ch_count st"
  "ch_count (note_metadata_hash e st) = ch_count st" "ch_count (note_type e st) = ch_count st"
  "ch_count (feed_agents env e st) = ch_count st" "ch_count (note_payload env e st) = ch_count st" "ch_count (compare_mirror env e st) = ch_count st"
  by (auto simp: note_defs compare_mirror_def Let_def split: pyval.split option.split)

lemma note_schema_fields [simp]:
  "ch_schema_fields (note_first e st) = ch_schema_fields st" "ch_schema_fields (note_id t e st) = ch_schema_fields st"
  "ch_schema_fields (note_hashes env e st) = ch_schema_fields st" "ch_schema_fields (feed_mirrors env e st) = ch_schema_fields st"
  "ch_schema_fields (note_metadata_hash e st) = ch_schema_fields st" "ch_schema_fields (note_type e st) = ch_schema_fields st"
  "ch_schema_fields (feed_agents env e st) = ch_schema_fields st" "ch_schema_fields (note_payload env e st) = ch_schema_fields st"
  "ch_schema_fields (compare_mirror env e st) = ch_schema_fields st"
  by (auto simp: note_defs compare_mirror_def Let_def split: pyval.split option.split)

lemma note_mirror_states [simp]:
  "ch_ticket (note_schema t e st) = ch_ticket st" "ch_ticket (note_first e st) = ch_ticket st" "ch_ticket (note_id t e st) = ch_ticket st"
  "ch_ticket (note_hashes env e st) = ch_ticket st" "ch_ticket (note_metadata_hash e st) = ch_ticket st" "ch_ticket (note_type e st) = ch_ticket st"
  "ch_ticket (feed_agents env e st) = ch_ticket st" "ch_ticket (note_payload env e st) = ch_ticket st" "ch_ticket (compare_mirror env e st) = ch_ticket st"
  "ch_binding (note_schema t e st) = ch_binding st" "ch_binding (note_first e st) = ch_binding st" "ch_binding (note_id t e st) = ch_binding st"
  "ch_binding (note_hashes env e st) = ch_binding st" "ch_binding (note_metadata_hash e st) = ch_binding st" "ch_binding (note_type e st) = ch_binding st"
  "ch_binding (feed_agents env e st) = ch_binding st" "ch_binding (note_payload env e st) = ch_binding st" "ch_binding (compare_mirror env e st) = ch_binding st"
  "ch_execution (note_schema t e st) = ch_execution st" "ch_execution (note_first e st) = ch_execution st" "ch_execution (note_id t e st) = ch_execution st"
  "ch_execution (note_hashes env e st) = ch_execution st" "ch_execution (note_metadata_hash e st) = ch_execution st"
  "ch_execution (note_type e st) = ch_execution st" "ch_execution (feed_agents env e st) = ch_execution st"
  "ch_execution (note_payload env e st) = ch_execution st" "ch_execution (compare_mirror env e st) = ch_execution st"
  by (auto simp: note_defs compare_mirror_def Let_def split: pyval.split option.split)

lemma note_chain [simp]:
  "ch_chain (note_schema t e st) = ch_chain st" "ch_chain (note_first e st) = ch_chain st" "ch_chain (feed_mirrors env e st) = ch_chain st"
  "ch_chain (note_metadata_hash e st) = ch_chain st" "ch_chain (note_type e st) = ch_chain st" "ch_chain (feed_agents env e st) = ch_chain st"
  "ch_chain (note_payload env e st) = ch_chain st" "ch_chain (compare_mirror env e st) = ch_chain st"
  by (auto simp: note_defs compare_mirror_def Let_def split: pyval.split option.split)

lemma note_previous [simp]:
  "ch_previous (note_schema t e st) = ch_previous st" "ch_previous (note_first e st) = ch_previous st" "ch_previous (note_id t e st) = ch_previous st"
  "ch_previous (feed_mirrors env e st) = ch_previous st" "ch_previous (note_metadata_hash e st) = ch_previous st"
  "ch_previous (note_type e st) = ch_previous st" "ch_previous (feed_agents env e st) = ch_previous st"
  "ch_previous (note_payload env e st) = ch_previous st" "ch_previous (compare_mirror env e st) = ch_previous st"
  by (auto simp: note_defs compare_mirror_def Let_def split: pyval.split option.split)

lemma note_seen [simp]:
  "ch_seen_ids (note_schema t e st) = ch_seen_ids st" "ch_seen_ids (note_first e st) = ch_seen_ids st" "ch_seen_ids (note_hashes env e st) = ch_seen_ids st"
  "ch_seen_ids (feed_mirrors env e st) = ch_seen_ids st" "ch_seen_ids (note_metadata_hash e st) = ch_seen_ids st"
  "ch_seen_ids (note_type e st) = ch_seen_ids st" "ch_seen_ids (feed_agents env e st) = ch_seen_ids st"
  "ch_seen_ids (note_payload env e st) = ch_seen_ids st" "ch_seen_ids (compare_mirror env e st) = ch_seen_ids st"
  by (auto simp: note_defs compare_mirror_def Let_def split: pyval.split option.split)

lemma note_first_fields [simp]:
  "ch_first_valid (note_schema t e st) = ch_first_valid st" "ch_first_valid (note_id t e st) = ch_first_valid st"
  "ch_first_valid (note_hashes env e st) = ch_first_valid st" "ch_first_valid (feed_mirrors env e st) = ch_first_valid st"
  "ch_first_valid (note_metadata_hash e st) = ch_first_valid st" "ch_first_valid (note_type e st) = ch_first_valid st"
  "ch_first_valid (feed_agents env e st) = ch_first_valid st" "ch_first_valid (note_payload env e st) = ch_first_valid st"
  "ch_first_valid (compare_mirror env e st) = ch_first_valid st"
  by (auto simp: note_defs compare_mirror_def Let_def split: pyval.split option.split)

lemma compare_mirror_problems:
  "clean (ch_problems (compare_mirror env e st)) \<Longrightarrow> clean (ch_problems st)"
  "collector_ok (ch_problems st) \<Longrightarrow> collector_ok (ch_problems (compare_mirror env e st))"
  by (auto simp: compare_mirror_def Let_def split: pyval.splits option.splits)

interpretation chain_pass: reporting_pass "chain_event env ce" ch_problems
  by unfold_locales (auto simp: chain_event_def compare_mirror_problems(2) dest!: compare_mirror_problems(1))

lemma chain_event_count [simp]: "ch_count (chain_event env ce e st) = Suc (ch_count st)"
  by (simp add: chain_event_def)

lemma chain_event_mirrors [simp]:
  "ch_ticket (chain_event env ce e st) = ts_consume e (Suc (ch_count st)) (ch_ticket st)"
  "ch_binding (chain_event env ce e st) = bm_consume e (ch_binding st)"
  "ch_execution (chain_event env ce e st) = ex_consume env e (Suc (ch_count st)) (ch_execution st)"
  by (simp_all add: chain_event_def feed_mirrors_def)

lemma chain_event_schema [simp]:
  "ch_schema_fields (chain_event env ce e st) = ch_schema_fields st \<union> set (event_schema_issues (ce_ticket_id ce) e)"
  by (simp add: chain_event_def note_schema_def)

lemma chain_event_first:
  "ch_first_valid (chain_event env ce e st) =
     (if ch_count st = 0 then str_with (\<lambda>t. t \<in> set ALLOWED_FIRST_EVENT) (pget e ''event_type'') else ch_first_valid st)"
  by (simp add: chain_event_def note_first_def)

lemma chain_event_previous:
  "ch_previous (chain_event env ce e st) = (if has_key e ''event_hash'' then pget e ''event_hash'' else ch_previous st)"
  by (simp add: chain_event_def note_hashes_def Let_def)

lemma note_id_chain:
  "diagnostics_ok (ch_chain st) \<Longrightarrow> diagnostics_ok (ch_chain (note_id t e st))"
  "cd_total (ch_chain (note_id t e st)) = 0 \<Longrightarrow> cd_total (ch_chain st) = 0"
  by (auto simp: note_id_def Let_def split: pyval.splits if_splits)

lemma note_id_fresh:
  assumes "cd_total (ch_chain (note_id t e st)) = 0" "''event_id'' \<notin> set (event_schema_issues t e)"
  shows "\<exists>s. pget e ''event_id'' = PStr s \<and> s \<notin> ch_seen_ids st \<and> ch_seen_ids (note_id t e st) = insert s (ch_seen_ids st)"
  using assms by (auto simp: note_id_def Let_def split: pyval.splits if_splits)

lemma chain_event_chain:
  "diagnostics_ok (ch_chain st) \<Longrightarrow> diagnostics_ok (ch_chain (chain_event env ce e st))"
  "cd_total (ch_chain (chain_event env ce e st)) = 0 \<Longrightarrow> cd_total (ch_chain st) = 0
     \<and> py_eq (pget e ''previous_event_hash'') (ch_previous st) \<and> pget e ''event_hash'' = PStr (canonical_event_hash env e)"
proof -
  let ?s = "note_first e (note_schema (ce_ticket_id ce) e (st\<lparr>ch_count := Suc (ch_count st)\<rparr>))"
  have c: "ch_chain (chain_event env ce e st) = ch_chain (note_hashes env e (note_id (ce_ticket_id ce) e ?s))"
    by (simp add: chain_event_def)
  show "diagnostics_ok (ch_chain st) \<Longrightarrow> diagnostics_ok (ch_chain (chain_event env ce e st))"
    unfolding c using note_id_chain(1) [of ?s] by (simp add: note_hashes_def Let_def)
  show "cd_total (ch_chain (chain_event env ce e st)) = 0 \<Longrightarrow> cd_total (ch_chain st) = 0
     \<and> py_eq (pget e ''previous_event_hash'') (ch_previous st) \<and> pget e ''event_hash'' = PStr (canonical_event_hash env e)"
    unfolding c using note_id_chain(2) [of "ce_ticket_id ce" e ?s] by (simp add: note_hashes_def Let_def)
qed

lemma chain_event_fresh:
  assumes "cd_total (ch_chain (chain_event env ce e st)) = 0" "event_schema_issues (ce_ticket_id ce) e = []"
  shows "\<exists>s. pget e ''event_id'' = PStr s \<and> s \<notin> ch_seen_ids st \<and> ch_seen_ids (chain_event env ce e st) = insert s (ch_seen_ids st)"
proof -
  let ?s = "note_first e (note_schema (ce_ticket_id ce) e (st\<lparr>ch_count := Suc (ch_count st)\<rparr>))"
  have "cd_total (ch_chain (note_id (ce_ticket_id ce) e ?s)) = 0"
    using assms(1) by (simp add: chain_event_def note_hashes_def Let_def)
  from note_id_fresh [OF this] assms(2) show ?thesis by (simp add: chain_event_def)
qed

section \<open>What an empty report says about the events\<close>

text \<open>The texts of the events, the events themselves, and the specification of a linked chain.\<close>

definition event_texts :: "string \<Rightarrow> string list" where
  "event_texts bytes = filter (\<lambda>t. t \<noteq> []) (map strip (fst (stream_lines bytes)))"

definition event_of :: "pack_env \<Rightarrow> string \<Rightarrow> pydict" where
  "event_of env t = (case loads_json_value (pk_limit env) t of Inr (PDict e) \<Rightarrow> e | _ \<Rightarrow> [])"

definition chain_events :: "pack_env \<Rightarrow> string \<Rightarrow> pydict list" where
  "chain_events env bytes = map (event_of env) (event_texts bytes)"

fun linked :: "pack_env \<Rightarrow> string \<Rightarrow> pydict list \<Rightarrow> bool" where
  "linked env prev [] = True"
| "linked env prev (e # es) = (pget e ''previous_event_hash'' = PStr prev \<and> pget e ''event_hash'' = PStr (canonical_event_hash env e)
     \<and> linked env (canonical_event_hash env e) es)"

definition chain_ok :: "chain_state \<Rightarrow> bool" where
  "chain_ok st \<longleftrightarrow> collector_ok (ch_problems st) \<and> diagnostics_ok (ch_chain st)"

lemma chain_ok_event [simp]: "chain_ok st \<Longrightarrow> chain_ok (chain_event env ce e st)"
  by (simp add: chain_ok_def chain_pass.step_collector_ok chain_event_chain)

lemma chain_ok_fold [simp]: "chain_ok st \<Longrightarrow> chain_ok (fold (chain_event env ce) es st)"
  by (induction es arbitrary: st) simp_all

lemma fold_mirrors:
  "ch_ticket (fold (chain_event env ce) es st) = ts_replay (Suc (ch_count st)) es (ch_ticket st)"
  "ch_binding (fold (chain_event env ce) es st) = bm_replay es (ch_binding st)"
  "ch_execution (fold (chain_event env ce) es st) = ex_replay env (Suc (ch_count st)) es (ch_execution st)"
  "ch_count (fold (chain_event env ce) es st) = ch_count st + length es"
  by (induction es arbitrary: st) (simp_all add: bm_replay_def)

lemma fold_schema:
  "ch_schema_fields (fold (chain_event env ce) es st) = ch_schema_fields st \<union> (\<Union>e\<in>set es. set (event_schema_issues (ce_ticket_id ce) e))"
  by (induction es arbitrary: st) auto

lemma fold_first:
  "0 < ch_count st \<Longrightarrow> ch_first_valid (fold (chain_event env ce) es st) = ch_first_valid st"
  by (induction es arbitrary: st) (simp_all add: chain_event_first)

lemma fold_chain_total: "cd_total (ch_chain (fold (chain_event env ce) es st)) = 0 \<Longrightarrow> cd_total (ch_chain st) = 0"
  by (induction es arbitrary: st) (auto dest: chain_event_chain(2))

lemma fold_linked:
  "cd_total (ch_chain (fold (chain_event env ce) es st)) = 0 \<Longrightarrow> ch_previous st = PStr prev \<Longrightarrow> linked env prev es"
proof (induction es arbitrary: st prev)
  case (Cons e es)
  then have "cd_total (ch_chain (chain_event env ce e st)) = 0" using fold_chain_total [of env ce es] by simp
  then have h: "py_eq (pget e ''previous_event_hash'') (PStr prev)" "pget e ''event_hash'' = PStr (canonical_event_hash env e)"
    using chain_event_chain(2) Cons.prems(2) by metis+
  then have "ch_previous (chain_event env ce e st) = PStr (canonical_event_hash env e)"
    by (auto simp: chain_event_previous has_key_def pget_def dict_get_or_def)
  with Cons.IH [of "chain_event env ce e st"] Cons.prems h show ?case by simp
qed simp

lemma fold_distinct_ids:
  "cd_total (ch_chain (fold (chain_event env ce) es st)) = 0 \<Longrightarrow> list_all (\<lambda>e. event_schema_issues (ce_ticket_id ce) e = []) es \<Longrightarrow>
    distinct (map (\<lambda>e. pget e ''event_id'') es) \<and> (\<forall>e\<in>set es. \<exists>s. pget e ''event_id'' = PStr s \<and> s \<notin> ch_seen_ids st)"
proof (induction es arbitrary: st)
  case (Cons e es)
  then have t: "cd_total (ch_chain (chain_event env ce e st)) = 0" using fold_chain_total [of env ce es] by simp
  then obtain s where s: "pget e ''event_id'' = PStr s" "s \<notin> ch_seen_ids st"
    "ch_seen_ids (chain_event env ce e st) = insert s (ch_seen_ids st)" using chain_event_fresh [OF t] Cons.prems(2) by auto
  have "distinct (map (\<lambda>e. pget e ''event_id'') es) \<and> (\<forall>e\<in>set es. \<exists>t. pget e ''event_id'' = PStr t \<and> t \<notin> insert s (ch_seen_ids st))"
    using Cons.IH [of "chain_event env ce e st"] Cons.prems s(3) by simp
  with s show ?case by (auto simp: image_iff)
qed simp

subsection \<open>Early returns always report\<close>

lemma chain_rendered_simps [simp]:
  "ch_schema_fields (chain_rendered st) = ch_schema_fields st" "ch_bad_payload (chain_rendered st) = ch_bad_payload st"
  "ch_bad_artifact_payload (chain_rendered st) = ch_bad_artifact_payload st" "ch_bad_type (chain_rendered st) = ch_bad_type st"
  "ch_mirrors (chain_rendered st) = ch_mirrors st"
  "clean (ch_problems (chain_rendered st)) \<longleftrightarrow> clean (ch_problems st) \<and> cd_total (ch_chain st) = 0"
  by (simp_all add: chain_rendered_def)

lemma chain_rendered_ok: "chain_ok st \<Longrightarrow> collector_ok (ch_problems (chain_rendered st))"
  by (simp add: chain_ok_def chain_rendered_def)

lemma closing_problems [simp]:
  "clean (ch_problems (payload_shape_problems st)) \<longleftrightarrow> clean (ch_problems st) \<and> \<not> ch_bad_payload st \<and> \<not> ch_bad_artifact_payload st"
  "clean (ch_problems (event_type_problem st)) \<longleftrightarrow> clean (ch_problems st) \<and> \<not> ch_bad_type st"
  "clean (ch_problems (event_schema_problem st)) \<longleftrightarrow> clean (ch_problems st) \<and> ch_schema_fields st = {}"
  "collector_ok (ch_problems st) \<Longrightarrow> collector_ok (ch_problems (payload_shape_problems st))"
  "collector_ok (ch_problems st) \<Longrightarrow> collector_ok (ch_problems (event_type_problem st))"
  "collector_ok (ch_problems st) \<Longrightarrow> collector_ok (ch_problems (event_schema_problem st))"
  "ch_schema_fields (payload_shape_problems st) = ch_schema_fields st" "ch_schema_fields (event_type_problem st) = ch_schema_fields st"
  "ch_bad_type (payload_shape_problems st) = ch_bad_type st" "ch_mirrors (payload_shape_problems st) = ch_mirrors st"
  "ch_mirrors (event_type_problem st) = ch_mirrors st" "ch_mirrors (event_schema_problem st) = ch_mirrors st"
  by (auto simp: payload_shape_problems_def event_type_problem_def event_schema_problem_def)

lemma chain_stop_reports:
  assumes "collector_ok (ch_problems st)" "\<not> clean (ch_problems st)"
  shows "br_values (snd (chain_stop facts st)) \<noteq> []"
proof -
  from assms have "br_values (pc_render (ch_problems st)) \<noteq> []" by (subst render_empty_iff) simp_all
  then show ?thesis by (simp add: chain_stop_def)
qed

lemma limit_stop_reports: "chain_ok st \<Longrightarrow> br_values (snd (limit_stop p st)) \<noteq> []"
  unfolding limit_stop_def by (rule chain_stop_reports) (simp_all add: chain_rendered_ok)

lemma chain_ok_note [simp]: "chain_ok st \<Longrightarrow> chain_ok (ch_note b p st)"
  by (simp add: chain_ok_def)

lemma line_stop_reports: "chain_ok st \<Longrightarrow> br_values (snd (line_stop p st)) \<noteq> []"
  unfolding line_stop_def by (rule chain_stop_reports) (simp_all add: chain_rendered_ok)

lemma chain_lines_early: "chain_ok st \<Longrightarrow> chain_lines env ce n seen ls st = Inl (Inr r) \<Longrightarrow> br_values (snd r) \<noteq> []"
proof (induction env ce n seen ls st rule: chain_lines.induct)
  case (2 env ce lineno seen line rest st)
  show ?case
  proof (cases "loads_json_value (pk_limit env) (strip line)")
    case (Inl x)
    with 2 show ?thesis by (auto simp: Let_def limit_stop_reports line_stop_reports split: if_splits)
  next
    case (Inr v)
    with 2 show ?thesis by (cases v) (auto simp: Let_def limit_stop_reports line_stop_reports split: if_splits)
  qed
qed simp

lemma chain_lines_events:
  "chain_lines env ce n seen ls st = Inr st' \<Longrightarrow>
    list_all (\<lambda>t. loads_json_value (pk_limit env) t = Inr (PDict (event_of env t))) (filter (\<lambda>t. t \<noteq> []) (map strip ls))
    \<and> st' = fold (chain_event env ce) (map (event_of env) (filter (\<lambda>t. t \<noteq> []) (map strip ls))) st"
proof (induction env ce n seen ls st rule: chain_lines.induct)
  case (2 env ce lineno seen line rest st)
  show ?case
  proof (cases "strip line = []")
    case True
    with 2 show ?thesis by (auto simp: Let_def split: if_splits)
  next
    case False
    with "2.prems" obtain e where e: "loads_json_value (pk_limit env) (strip line) = Inr (PDict e)"
      by (auto simp: Let_def split: if_splits sum.splits pyval.splits)
    with 2 False show ?thesis by (auto simp: Let_def event_of_def split: if_splits)
  qed
qed simp

subsection \<open>The end of the pass\<close>

lemma init_mirror_fields [simp]:
  "ch_count (init_mirror d x st) = ch_count st"
  "ch_previous (init_mirror d x st) = ch_previous st"
  "ch_ticket (init_mirror d x st) = ch_ticket st"
  "ch_binding (init_mirror d x st) = ch_binding st"
  "ch_execution (init_mirror d x st) = ch_execution st"
  "ch_schema_fields (init_mirror d x st) = ch_schema_fields st"
  "ch_chain (init_mirror d x st) = ch_chain st"
  "ch_seen_ids (init_mirror d x st) = ch_seen_ids st"
  "ch_agents (init_mirror d x st) = ch_agents st"
  "chain_ok st \<Longrightarrow> chain_ok (init_mirror d x st)"
  by (auto simp: init_mirror_def chain_ok_def split: option.split)

lemma fold_init_mirror_fields [simp]:
  "ch_count (fold (init_mirror d) xs st) = ch_count st"
  "ch_previous (fold (init_mirror d) xs st) = ch_previous st"
  "ch_ticket (fold (init_mirror d) xs st) = ch_ticket st"
  "ch_binding (fold (init_mirror d) xs st) = ch_binding st"
  "ch_execution (fold (init_mirror d) xs st) = ch_execution st"
  "ch_schema_fields (fold (init_mirror d) xs st) = ch_schema_fields st"
  "ch_chain (fold (init_mirror d) xs st) = ch_chain st"
  "ch_seen_ids (fold (init_mirror d) xs st) = ch_seen_ids st"
  "ch_agents (fold (init_mirror d) xs st) = ch_agents st"
  "chain_ok st \<Longrightarrow> chain_ok (fold (init_mirror d) xs st)"
  by (induction xs arbitrary: st) simp_all

lemma init_mirrors_fields [simp]:
  "ch_count (init_mirrors x st) = ch_count st"
  "ch_previous (init_mirrors x st) = ch_previous st"
  "ch_ticket (init_mirrors x st) = ch_ticket st"
  "ch_binding (init_mirrors x st) = ch_binding st"
  "ch_execution (init_mirrors x st) = ch_execution st"
  "ch_schema_fields (init_mirrors x st) = ch_schema_fields st"
  "ch_chain (init_mirrors x st) = ch_chain st"
  "ch_seen_ids (init_mirrors x st) = ch_seen_ids st"
  "ch_agents (init_mirrors x st) = ch_agents st"
  "chain_ok st \<Longrightarrow> chain_ok (init_mirrors x st)"
  by (simp_all add: init_mirrors_def split: option.split pyval.split)

lemma chain_ok_base: "ch_problems st = mk_collector \<Longrightarrow> ch_chain st = mk_diagnostics \<Longrightarrow> chain_ok st"
  by (simp add: chain_ok_def)

lemma init_agents_fields [simp]:
  "ch_count (init_agents x st) = ch_count st" "ch_previous (init_agents x st) = ch_previous st" "ch_ticket (init_agents x st) = ch_ticket st"
  "ch_binding (init_agents x st) = ch_binding st" "ch_execution (init_agents x st) = ch_execution st"
  "ch_schema_fields (init_agents x st) = ch_schema_fields st" "ch_chain (init_agents x st) = ch_chain st"
  "ch_seen_ids (init_agents x st) = ch_seen_ids st" "chain_ok st \<Longrightarrow> chain_ok (init_agents x st)"
  by (auto simp: init_agents_def chain_ok_def Let_def split: option.split)

lemma init_chain_fields [simp]:
  "ch_count (init_chain ce) = 0" "ch_previous (init_chain ce) = PStr GENESIS_HASH"
  "ch_ticket (init_chain ce) = mk_ticket_mirror (ce_state_machine ce) (ce_ticket_metadata ce)"
  "ch_binding (init_chain ce) = mk_binding_mirror (ce_ticket_metadata ce)"
  "ch_execution (init_chain ce) = mk_execution_mirror (ce_execution_model ce) (ce_completion_receipt ce)"
  "ch_schema_fields (init_chain ce) = {}" "ch_chain (init_chain ce) = mk_diagnostics" "ch_seen_ids (init_chain ce) = {}"
  "chain_ok (init_chain ce)"
  by (simp_all add: init_chain_def chain_ok_base)

interpretation leftovers: reporting_pass leftover_step ch_problems
  by unfold_locales (auto simp: leftover_step_def)

lemma mirror_leftovers_problems:
  "clean (ch_problems (mirror_leftovers st)) \<Longrightarrow> clean (ch_problems st)"
  "collector_ok (ch_problems st) \<Longrightarrow> collector_ok (ch_problems (mirror_leftovers st))"
  unfolding mirror_leftovers_def by (rule leftovers.pass_clean leftovers.pass_collector_ok, assumption)+

lemma ts_mirror_ok [simp]: "collector_ok (ts_problems (mk_ticket_mirror sm md))"
  by (auto simp: mk_ticket_mirror_def Let_def split: option.split sum.split)

lemma ts_finish_ok: "collector_ok (ts_problems m) \<Longrightarrow> report_ok (ts_finish m)"
  by (simp add: ts_finish_def)

lemma report_empty: "report_ok r \<Longrightarrow> br_total_count r = 0 \<longleftrightarrow> br_values r = []"
  by (simp add: report_ok_def)

lemma chain_end_clean:
  assumes "chain_ok st" "collector_ok (ts_problems (ch_ticket st))" "collector_ok (ex_problems (ch_execution st))"
    and "br_values (snd (chain_end env ce st)) = []"
  shows "cd_total (ch_chain st) = 0 \<and> (ch_count st \<noteq> 0 \<longrightarrow> ch_first_valid st) \<and> ch_schema_fields st = {}
    \<and> br_values (ts_finish (ch_ticket st)) = [] \<and> bm_finish (ch_binding st) = [] \<and> br_values (ex_finish (ch_execution st)) = []"
proof -
  define s3 where "s3 = ch_note (case (ch_metadata_hash st, ce_metadata_hash ce) of (Some h, Some e) \<Rightarrow> \<not> py_eq h e | _ \<Rightarrow> False)
                 (Problem ''last metadata_hash_after differs from the metadata'' [])
     (event_schema_problem (event_type_problem (payload_shape_problems
       (ch_note (ch_count st \<noteq> 0 \<and> \<not> ch_first_valid st) (Problem ''first event type is not allowed'' [ch_first_type st]) (chain_rendered st)))))"
  define s5 where "s5 = ch_note (case ch_agents st of Some am \<Rightarrow> am_structurally_valid am \<and> \<not> am_finish env am | None \<Rightarrow> False)
                 (Problem ''agent events differ from the metadata'' []) (mirror_leftovers s3)"
  have ok: "collector_ok (ch_problems s5)" using chain_rendered_ok [OF assms(1)] by (simp add: s5_def s3_def mirror_leftovers_problems(2))
  have reports: "report_ok (ts_finish (ch_ticket st))" "report_ok (ex_finish (ch_execution st))"
    using assms(2,3) by (simp_all add: ts_finish_ok ex_finish_def)
  let ?p = "pc_extend_report (ex_finish (ch_execution st))
            (pc_extend_list (map (\<lambda>s. Problem s []) (bm_finish (ch_binding st))) (pc_extend_report (ts_finish (ch_ticket st)) (ch_problems s5)))"
  have "br_values (pc_render ?p) = []" using assms(4) by (simp add: chain_end_def Let_def s5_def s3_def)
  then have "clean ?p" using ok reports by (subst (asm) render_empty_iff) simp_all
  then have c: "clean (ch_problems s5)" "br_values (ts_finish (ch_ticket st)) = []" "bm_finish (ch_binding st) = []"
    "br_values (ex_finish (ch_execution st)) = []" using reports by (simp_all add: report_empty)
  from c(1) have "clean (ch_problems s3)" by (simp add: s5_def mirror_leftovers_problems(1))
  with c(2-4) show ?thesis by (auto simp: s3_def)
qed

section \<open>The theorems\<close>

lemma accepted_chain_end:
  assumes "chain_accepted env ce bytes"
  defines "st \<equiv> fold (chain_event env ce) (chain_events env bytes) (init_chain ce)"
  shows "verify_event_chain env ce (Chain_bytes bytes) = Inr (chain_end env ce st)" "br_values (snd (chain_end env ce st)) = []"
    and "list_all (\<lambda>t. loads_json_value (pk_limit env) t = Inr (PDict (event_of env t))) (event_texts bytes)"
proof -
  have ok: "chain_ok (init_chain ce)" by simp
  have size: "\<not> MAX_EVENT_CHAIN_TOTAL_BYTES < length bytes"
    using assms(1) chain_stop_reports [of "ch_note True (Problem ''event chain is too long'' []) (init_chain ce)" "[]"] ok
    by (auto simp: chain_accepted_def verify_event_chain_def Let_def chain_size_def chain_ok_def)
  obtain st1 where st1: "chain_lines env ce 0 0 (fst (stream_lines bytes)) (init_chain ce) = Inr st1"
    using assms(1) chain_lines_early [OF ok] size
    by (cases "chain_lines env ce 0 0 (fst (stream_lines bytes)) (init_chain ce)") (auto simp: chain_accepted_def verify_event_chain_def Let_def chain_size_def split: sum.splits)
  have ev: "list_all (\<lambda>t. loads_json_value (pk_limit env) t = Inr (PDict (event_of env t))) (event_texts bytes)" and "st1 = st"
    using chain_lines_events [OF st1] by (simp_all add: event_texts_def st_def chain_events_def)
  then have st: "chain_lines env ce 0 0 (fst (stream_lines bytes)) (init_chain ce) = Inr st" using st1 by simp
  have stok: "chain_ok st" by (simp add: st_def)
  have "\<not> snd (stream_lines bytes)"
    using assms(1) size st chain_stop_reports [of "event_schema_problem (chain_rendered (ch_note True (Problem ''event chain cannot be read'' []) st))" "[]"]
      chain_rendered_ok [of "ch_note True (Problem ''event chain cannot be read'' []) st"] stok
    by (auto simp: chain_accepted_def verify_event_chain_def Let_def chain_size_def)
  then show v: "verify_event_chain env ce (Chain_bytes bytes) = Inr (chain_end env ce st)"
    using size st by (simp add: verify_event_chain_def Let_def chain_size_def)
  show "br_values (snd (chain_end env ce st)) = []" using assms(1) v by (simp add: chain_accepted_def)
  show "list_all (\<lambda>t. loads_json_value (pk_limit env) t = Inr (PDict (event_of env t))) (event_texts bytes)" by (rule ev)
qed

lemma accepted_chain_facts:
  assumes "chain_accepted env ce bytes"
  defines "es \<equiv> chain_events env bytes"
  shows "list_all (\<lambda>t. loads_json_value (pk_limit env) t = Inr (PDict (event_of env t))) (event_texts bytes)
    \<and> linked env GENESIS_HASH es \<and> distinct (map (\<lambda>e. pget e ''event_id'') es)
    \<and> list_all (\<lambda>e. event_schema_issues (ce_ticket_id ce) e = []) es
    \<and> (es = [] \<or> pget (hd es) ''event_type'' \<in> PStr ` set ALLOWED_FIRST_EVENT)
    \<and> br_values (ts_finish (ts_replay 1 es (mk_ticket_mirror (ce_state_machine ce) (ce_ticket_metadata ce)))) = []
    \<and> bm_finish (bm_replay es (mk_binding_mirror (ce_ticket_metadata ce))) = []
    \<and> br_values (ex_finish (ex_replay env 1 es (mk_execution_mirror (ce_execution_model ce) (ce_completion_receipt ce)))) = []"
proof -
  define st where "st = fold (chain_event env ce) es (init_chain ce)"
  have fold: "st = fold (chain_event env ce) es (init_chain ce)" by (rule st_def)
  have stok: "chain_ok st" by (simp add: st_def)
  note ev = accepted_chain_end(3) [OF assms(1)]
  have "br_values (snd (chain_end env ce st)) = []" using accepted_chain_end(2) [OF assms(1)] by (simp add: st_def es_def)
  then have e: "cd_total (ch_chain st) = 0 \<and> (ch_count st \<noteq> 0 \<longrightarrow> ch_first_valid st) \<and> ch_schema_fields st = {}
    \<and> br_values (ts_finish (ch_ticket st)) = [] \<and> bm_finish (ch_binding st) = [] \<and> br_values (ex_finish (ch_execution st)) = []"
    by (intro chain_end_clean [OF stok]) (simp_all add: fold fold_mirrors mk_execution_mirror_start)
  then have schema: "list_all (\<lambda>e. event_schema_issues (ce_ticket_id ce) e = []) es" by (auto simp: fold fold_schema list_all_iff)
  have "es = [] \<or> pget (hd es) ''event_type'' \<in> PStr ` set ALLOWED_FIRST_EVENT"
    using e by (cases es) (auto simp: fold fold_mirrors fold_first chain_event_first str_with_iff)
  moreover have "linked env GENESIS_HASH es" using e fold_linked [of env ce es "init_chain ce"] by (simp add: fold)
  moreover have "distinct (map (\<lambda>e. pget e ''event_id'') es)" using e fold_distinct_ids [of env ce es "init_chain ce"] schema by (simp add: fold)
  ultimately show ?thesis using ev schema e by (simp add: fold fold_mirrors)
qed

text \<open>
  C5. An accepted event chain is what it should be: every non-blank line is one JSON object, the objects satisfy the
  event schema and have distinct ids, each is linked to the one before by its hash from the genesis hash on, the first has an
  allowed type, and the mirrors of ticket states, root binding and execution report nothing on them.
\<close>

theorem accepted_chain:
  assumes "chain_accepted env ce bytes"
  defines "es \<equiv> chain_events env bytes"
  shows "list_all (\<lambda>t. loads_json_value (pk_limit env) t = Inr (PDict (event_of env t))) (event_texts bytes)
    \<and> linked env GENESIS_HASH es \<and> distinct (map (\<lambda>e. pget e ''event_id'') es)
    \<and> list_all (\<lambda>e. event_schema_issues (ce_ticket_id ce) e = []) es
    \<and> (es = [] \<or> pget (hd es) ''event_type'' \<in> PStr ` set ALLOWED_FIRST_EVENT)
    \<and> br_values (ts_finish (ts_replay 1 es (mk_ticket_mirror (ce_state_machine ce) (ce_ticket_metadata ce)))) = []
    \<and> bm_finish (bm_replay es (mk_binding_mirror (ce_ticket_metadata ce))) = []
    \<and> br_values (ex_finish (ex_replay env 1 es (mk_execution_mirror (ce_execution_model ce) (ce_completion_receipt ce)))) = []"
  using accepted_chain_facts [OF assms(1)] by (simp only: es_def)

subsection \<open>The last hash identifies the chain\<close>

definition hash_text :: "pack_env \<Rightarrow> pydict \<Rightarrow> string" where
  "hash_text env e = utf8 (canon env (PDict (filter (\<lambda>(k, v). k \<noteq> PStr ''event_hash'') e)))"

definition last_hash :: "pack_env \<Rightarrow> pydict list \<Rightarrow> string" where
  "last_hash env es = (if es = [] then GENESIS_HASH else canonical_event_hash env (last es))"

text \<open>The same members with the same contents.\<close>

definition same_event :: "pack_env \<Rightarrow> pydict \<Rightarrow> pydict \<Rightarrow> bool" where
  "same_event env a b \<longleftrightarrow> (\<forall>k. content (pk_frepr env) (pget a k) = content (pk_frepr env) (pget b k) \<and> has_key a k = has_key b k)"

lemma linked_snoc: "linked env prev (es @ [e]) \<longleftrightarrow> linked env prev es
    \<and> pget e ''previous_event_hash'' = PStr (if es = [] then prev else canonical_event_hash env (last es))
    \<and> pget e ''event_hash'' = PStr (canonical_event_hash env e)"
  by (induction es arbitrary: prev) auto

lemma filter_key_get: "k \<noteq> j \<Longrightarrow> dict_get (filter (\<lambda>(k, v). k \<noteq> j) d) k = dict_get d k"
  by (induction d) auto

lemma json_val_filter: "json_val (PDict d) \<Longrightarrow> json_val (PDict (filter P d))"
  by (auto simp: list_all_iff distinct_map_filter)

lemma hash_text_same:
  assumes "reprs_ok (pk_frepr env)" "json_val (PDict a)" "json_val (PDict b)" "finite_floats (PDict a)" "finite_floats (PDict b)"
    and "hash_text env a = hash_text env b" "pget a ''event_hash'' = PStr h" "pget b ''event_hash'' = PStr h"
  shows "same_event env a b"
proof -
  let ?f = "filter (\<lambda>(k, v). k \<noteq> PStr ''event_hash'') :: pydict \<Rightarrow> pydict"
  have v: "json_val (PDict (?f a))" "json_val (PDict (?f b))" using assms(2,3) json_val_filter by metis+
  have "content (pk_frepr env) (PDict (?f a)) = content (pk_frepr env) (PDict (?f b))"
    by (rule canonical_content) (use assms v in \<open>auto simp: hash_text_def list_all_iff simp del: json_val.simps\<close>)
  note g = content_get [OF v this]
  show ?thesis unfolding same_event_def
  proof
    fix k
    show "content (pk_frepr env) (pget a k) = content (pk_frepr env) (pget b k) \<and> has_key a k = has_key b k"
    proof (cases "k = ''event_hash''")
      case True
      with assms(7,8) show ?thesis by (auto simp: has_key_def pget_def dict_get_or_def split: option.splits)
    next
      case False
      then show ?thesis using g [of k] by (simp add: pget_def dict_get_or_def has_key_def filter_key_get)
    qed
  qed
qed

definition event_value_ok :: "pydict \<Rightarrow> bool" where
  "event_value_ok e \<longleftrightarrow> json_val (PDict e) \<and> finite_floats (PDict e)"

lemma linked_determined:
  assumes "reprs_ok (pk_frepr env)"
    and "\<And>a b. a \<in> set xs \<Longrightarrow> b \<in> set ys \<Longrightarrow> pk_sha256 env (hash_text env a) = pk_sha256 env (hash_text env b) \<Longrightarrow> hash_text env a = hash_text env b"
    and "\<And>e. e \<in> set xs \<union> set ys \<Longrightarrow> event_value_ok e \<and> canonical_event_hash env e \<noteq> GENESIS_HASH"
    and "linked env GENESIS_HASH xs" "linked env GENESIS_HASH ys" "last_hash env xs = last_hash env ys"
  shows "list_all2 (same_event env) xs ys"
  using assms
proof (induction xs arbitrary: ys rule: rev_induct)
  case Nil
  have "ys = []"
  proof (rule ccontr)
    assume "ys \<noteq> []"
    then have "canonical_event_hash env (last ys) \<noteq> GENESIS_HASH" using Nil.prems(3) by simp
    with Nil.prems(6) \<open>ys \<noteq> []\<close> show False by (simp add: last_hash_def)
  qed
  then show ?case by simp
next
  case (snoc a xs)
  obtain ys' b where ys: "ys = ys' @ [b]"
    using snoc.prems(3) [of a] snoc.prems(6) by (cases ys rule: rev_cases) (auto simp: last_hash_def)
  have la: "linked env GENESIS_HASH xs" "pget a ''previous_event_hash'' = PStr (last_hash env xs)" "pget a ''event_hash'' = PStr (canonical_event_hash env a)"
    using snoc.prems(4) by (simp_all add: linked_snoc last_hash_def)
  have lb: "linked env GENESIS_HASH ys'" "pget b ''previous_event_hash'' = PStr (last_hash env ys')" "pget b ''event_hash'' = PStr (canonical_event_hash env b)"
    using snoc.prems(5) by (simp_all add: ys linked_snoc last_hash_def)
  have h: "canonical_event_hash env a = canonical_event_hash env b" using snoc.prems(6) by (simp add: ys last_hash_def)
  then have "pk_sha256 env (hash_text env a) = pk_sha256 env (hash_text env b)"
    by (simp add: canonical_event_hash_def sha256_bytes_def hash_text_def)
  then have "hash_text env a = hash_text env b" using snoc.prems(2) ys by simp
  then have same: "same_event env a b"
    using hash_text_same [OF assms(1)] snoc.prems(3) [of a] snoc.prems(3) [of b] ys la(3) lb(3) h by (simp add: event_value_ok_def)
  then have "content (pk_frepr env) (PStr (last_hash env xs)) = content (pk_frepr env) (PStr (last_hash env ys'))"
    unfolding same_event_def using la(2) lb(2) by metis
  then have "last_hash env xs = last_hash env ys'" by (simp add: content_def)
  then have "list_all2 (same_event env) xs ys'"
    using snoc.prems(2,3) la(1) lb(1) ys assms(1) by (intro snoc.IH) auto
  with same ys show ?case by (simp add: list_all2_appendI)
qed

lemma loaded_event_ok: "loads_json_value limit t = Inr (PDict e) \<Longrightarrow> event_value_ok e"
  unfolding event_value_ok_def by (auto dest!: loads_json_value_val dest: interoperable_finite simp del: json_val.simps finite_floats.simps)

text \<open>
  C19. The last hash of an accepted chain identifies the whole chain: two accepted event files whose last event hashes agree
  hold the same number of events with the same contents, unless two of their events collide under SHA-256 or
  an event hash is the genesis hash.
\<close>

theorem last_hash_identifies_chain:
  assumes "chain_accepted env ce1 b1" "chain_accepted env ce2 b2"
    and "last_hash env (chain_events env b1) = last_hash env (chain_events env b2)"
    and "reprs_ok (pk_frepr env)"
    and "\<And>x y. x \<in> set (chain_events env b1) \<Longrightarrow> y \<in> set (chain_events env b2) \<Longrightarrow>
      pk_sha256 env (hash_text env x) = pk_sha256 env (hash_text env y) \<Longrightarrow> hash_text env x = hash_text env y"
    and "\<And>x. x \<in> set (chain_events env b1) \<union> set (chain_events env b2) \<Longrightarrow> canonical_event_hash env x \<noteq> GENESIS_HASH"
  shows "list_all2 (same_event env) (chain_events env b1) (chain_events env b2)"
proof -
  have "event_value_ok e" if "chain_accepted env ce b" "e \<in> set (chain_events env b)" for ce b e
    using accepted_chain_facts [OF that(1)] that(2) loaded_event_ok by (auto simp: chain_events_def list_all_iff)
  with accepted_chain_facts [OF assms(1)] accepted_chain_facts [OF assms(2)] show ?thesis
    using assms by (intro linked_determined) auto
qed

section \<open>A concrete chain file\<close>

lemma token_scan_short: "n + length s \<le> MAX_JSON_STRUCTURAL_TOKENS \<Longrightarrow> token_scan None b esc n stack s = Inr ()"
  by (induction s arbitrary: n b esc) simp_all

definition demo_chain_env :: pack_env where
  "demo_chain_env = demo_env\<lparr>pk_limit := 5\<rparr>"

definition demo_event_base :: pydict where
  "demo_event_base = [(PStr ''actor'', PStr ''icode''), (PStr ''event_id'', PStr ''01234567-89ab-4def-8123-456789abcdef''),
     (PStr ''event_type'', PStr ''ticket_created''), (PStr ''payload'', PDict []), (PStr ''previous_event_hash'', PStr GENESIS_HASH),
     (PStr ''schema_version'', PInt 1), (PStr ''ticket_id'', PStr ''T1''), (PStr ''timestamp'', PStr ''2026-01-02T03:04:05'')]"

definition demo_chain_event :: pydict where
  "demo_chain_event = demo_event_base @ [(PStr ''event_hash'', PStr (canonical_event_hash demo_chain_env demo_event_base))]"

lemma demo_chain_event_text:
  "demo_chain_event = demo_event_base @ [(PStr ''event_hash'', PStr ''7b226163746f72223a2269636f6465222c226576656e745f6964223a22303132'')]"
proof -
  have "canonical_event_hash demo_chain_env demo_event_base = ''7b226163746f72223a2269636f6465222c226576656e745f6964223a22303132''"
    by code_simp
  then show ?thesis by (simp only: demo_chain_event_def)
qed

definition demo_chain_json :: json where
  "demo_chain_json = JObj (map (\<lambda>(k, v). case (k, v) of
      (PStr s, PStr t) \<Rightarrow> (s, JStr t) | (PStr s, PInt i) \<Rightarrow> (s, JInt i) | (PStr s, _) \<Rightarrow> (s, JObj []) | _ \<Rightarrow> ([], JNull)) demo_chain_event)"

definition demo_chain_line :: string where
  "demo_chain_line = render False [] demo_chain_json"

definition demo_expectations :: chain_expectations where
  "demo_expectations = \<lparr>ce_ticket_id = Some ''T1'', ce_event_mirrors = Some (PDict []), ce_agent_spawns = Some (PList []), ce_metadata_hash = None,
     ce_state_machine = None, ce_execution_model = None, ce_completion_receipt = None, ce_ticket_metadata = None\<rparr>"

lemmas demo_line_text = demo_chain_line_def demo_chain_json_def demo_chain_event_text

lemma demo_line_length: "length demo_chain_line \<le> 500"
  unfolding demo_line_text by code_simp

lemma demo_line_loads: "loads_json_value (pk_limit demo_chain_env) demo_chain_line = Inr (PDict demo_chain_event)"
proof -
  have "check_json_structural_token_budget None demo_chain_line = Inr ()"
    unfolding check_json_structural_token_budget_def by (rule token_scan_short) (use demo_line_length in \<open>simp add: MAX_JSON_STRUCTURAL_TOKENS_def\<close>)
  moreover have "plain_json demo_chain_json"
    by (simp add: demo_chain_json_def demo_chain_event_def demo_event_base_def string_of_nat.simps)
  moreover have "json_depth demo_chain_json \<le> 2" unfolding demo_chain_json_def demo_chain_event_text by code_simp
  moreover have "pyval_of demo_chain_json = PDict demo_chain_event" unfolding demo_chain_json_def demo_chain_event_text by code_simp
  ultimately show ?thesis
    using loads_json_value_render [of demo_chain_json "pk_limit demo_chain_env" "[]" False]
    by (simp add: demo_chain_line_def MAX_JSON_CONTAINER_DEPTH_def demo_chain_env_def)
qed

lemma demo_line_ascii: "utf8 demo_chain_line = demo_chain_line"
  unfolding demo_line_text by code_simp

lemma demo_line_strip: "strip demo_chain_line = demo_chain_line"
  unfolding demo_line_text by code_simp

lemma demo_line_alone: "text_lines demo_chain_line = [demo_chain_line]"
  unfolding demo_line_text by code_simp

lemma demo_line_nonempty: "demo_chain_line \<noteq> []"
  unfolding demo_line_text by code_simp

lemma demo_chain_end:
  "br_values (snd (chain_end demo_chain_env demo_expectations (chain_event demo_chain_env demo_expectations demo_chain_event (init_chain demo_expectations)))) = []"
  unfolding demo_chain_event_text by code_simp


text \<open>The line, with or without a blank line in front.\<close>

definition demo_chain_file :: "bool \<Rightarrow> string" where
  "demo_chain_file blank = (if blank then [CHR 10] else []) @ demo_chain_line"

lemma demo_stream: "stream_lines (demo_chain_file blank) = ((if blank then [[CHR 10]] else []) @ [demo_chain_line], False)"
proof -
  have "utf8_decode (CHR 10 # demo_chain_line) = Some (CHR 10 # demo_chain_line)" "utf8_decode demo_chain_line = Some demo_chain_line"
    using utf8_decode_utf8 [of "CHR 10 # demo_chain_line"] utf8_decode_utf8 [of demo_chain_line]
    by (simp_all add: demo_line_ascii utf8_char_def)
  moreover have "text_lines (CHR 10 # demo_chain_line) = [CHR 10] # text_lines demo_chain_line" by (simp add: text_lines_def)
  ultimately show ?thesis by (simp add: stream_lines_def demo_chain_file_def demo_line_alone)
qed

lemma demo_event_hashable: "\<not> ex_raises demo_chain_env demo_chain_event m"
  by (simp add: ex_raises_def demo_chain_event_def demo_event_base_def pget_def dict_get_or_def py_eq.simps)

text \<open>An event type that is a list makes the pass raise instead of reporting it.\<close>

lemma unhashable_event_type_raises:
  assumes "loads_json_value (pk_limit env) (strip line) = Inr (PDict event)" "pget event ''event_type'' = PList xs"
    and "pget event ''payload'' = PDict [(PStr ''execution_model_version'', PInt 1), (PStr ''attempt'', PStr [c])]"
    and "ex_enabled (ch_execution st)" "length (utf8 line) \<le> MAX_EVENT_CHAIN_LINE_BYTES" "length line \<le> MAX_EVENT_CHAIN_LINE_BYTES"
    and "seen + length (utf8 line) \<le> MAX_EVENT_CHAIN_TOTAL_BYTES" "strip line \<noteq> []" "ch_count st < MAX_EVENT_CHAIN_EVENT_COUNT"
  shows "chain_lines env ce n seen (line # rest) st = Inl (Inl (PyTypeError ''unhashable type''))"
  using assms by (simp add: Let_def ex_raises_def attempt_key_def pget_def dict_get_or_def py_eq.simps)

lemma demo_chain_lines:
  "chain_lines demo_chain_env ce 0 0 (fst (stream_lines (demo_chain_file blank))) (init_chain ce)
    = Inr (chain_event demo_chain_env ce demo_chain_event (init_chain ce))"
proof -
  have strip_nl: "strip [CHR 10] = []" by code_simp
  have one: "utf8_char (CHR 10) = [CHR 10]" by code_simp
  show ?thesis using demo_line_length demo_line_nonempty
    by (cases blank) (simp_all add: demo_stream Let_def MAX_EVENT_CHAIN_LINE_BYTES_def MAX_EVENT_CHAIN_TOTAL_BYTES_def
        MAX_EVENT_CHAIN_EVENT_COUNT_def strip_nl demo_event_hashable one demo_line_ascii demo_line_strip demo_line_loads)
qed

lemma demo_chain_result:
  "verify_event_chain demo_chain_env ce (Chain_bytes (demo_chain_file blank))
    = Inr (chain_end demo_chain_env ce (chain_event demo_chain_env ce demo_chain_event (init_chain ce)))"
proof -
  have "length (demo_chain_file blank) \<le> 501" using demo_line_length by (simp add: demo_chain_file_def)
  with demo_chain_lines show ?thesis
    by (simp add: verify_event_chain_def Let_def chain_size_def MAX_EVENT_CHAIN_TOTAL_BYTES_def demo_stream)
qed

lemma demo_chain_accepted: "chain_accepted demo_chain_env demo_expectations (demo_chain_file blank)"
  by (simp add: chain_accepted_def demo_chain_result demo_chain_end)

theorem accepted_chain_witness: "linked demo_chain_env GENESIS_HASH (chain_events demo_chain_env (demo_chain_file True))"
  using accepted_chain [OF demo_chain_accepted [of True]] by blast

lemma demo_events: "chain_events demo_chain_env (demo_chain_file blank) = [demo_chain_event]"
proof -
  have "strip [CHR 10] = []" by code_simp
  then show ?thesis using demo_line_nonempty
    by (simp add: chain_events_def event_texts_def demo_stream demo_line_strip event_of_def demo_line_loads)
qed

theorem last_hash_identifies_chain_witness:
  "list_all2 (same_event demo_chain_env) (chain_events demo_chain_env (demo_chain_file True)) (chain_events demo_chain_env (demo_chain_file False))"
proof (rule last_hash_identifies_chain [OF demo_chain_accepted demo_chain_accepted])
  have "float_text ''0.5''" by code_simp
  then show "reprs_ok (pk_frepr demo_chain_env)" by (simp add: reprs_ok_def demo_chain_env_def demo_env_def)
  have "canonical_event_hash demo_chain_env demo_chain_event \<noteq> GENESIS_HASH" unfolding demo_chain_event_text by code_simp
  then show "canonical_event_hash demo_chain_env x \<noteq> GENESIS_HASH"
    if "x \<in> set (chain_events demo_chain_env (demo_chain_file True)) \<union> set (chain_events demo_chain_env (demo_chain_file False))" for x
    using that by (simp add: demo_events)
qed (auto simp: demo_events)

end
