(* ===== verification/Pack_Engineering.thy ===== *)
theory Pack_Engineering
  imports Pack_Events Json_Canon
begin

text \<open>
  Engineering verification receipts: \<^verbatim>\<open>engineering_receipt_values\<close>, \<^verbatim>\<open>validate_engineering_receipt\<close> and the reader of
  \<^verbatim>\<open>verifications.json\<close> in \<^verbatim>\<open>pack_verify.py\<close>. A receipt records a plan of checks and a run of it; the label
  \<^verbatim>\<open>passed\<close> is derived from the records and never taken from the receipt. The theorem says what a
  derived pass implies about every check of the plan.
\<close>

section \<open>The fields\<close>

definition ENGINEERING_COVERAGE :: pyval where
  "ENGINEERING_COVERAGE = PDict [(PStr ''record_scope'', PStr ''engineering_result_snapshot''), (PStr ''session_replay'', PStr ''not_included''),
     (PStr ''unrecorded_side_effects'', PStr ''not_proven''), (PStr ''execution_source'', PStr ''not_authenticated''),
     (PStr ''test_quality'', PStr ''not_authenticated'')]"

definition ENGINEERING_BINDING_TEXT_FIELDS :: "string list" where
  "ENGINEERING_BINDING_TEXT_FIELDS = [''step'', ''attempt'', ''execution_attempt'', ''verify_kind'', ''environment_fingerprint'',
     ''diff_fingerprint'', ''base_commit_sha'', ''initial_worktree_fingerprint'', ''tested_worktree_fingerprint'', ''git_object_format'',
     ''test_head_before_sha'', ''test_head_after_sha'', ''test_head_status'', ''tested_git_tree_oid'', ''tested_git_tree_status'',
     ''result_commit_sha'', ''result_commit_tree_oid'', ''result_commit_tree_status'', ''result_commit_timing_status'',
     ''result_commit_checked_at'', ''captured_at'']"

definition ENGINEERING_REPAIR_BINDING_FIELDS :: "string list" where
  "ENGINEERING_REPAIR_BINDING_FIELDS = [''environment_fingerprint'', ''artifact_hashes_sha256'', ''diff_fingerprint'', ''base_commit_sha'',
     ''initial_worktree_fingerprint'', ''tested_worktree_fingerprint'', ''git_object_format'', ''tested_git_tree_oid'']"

definition ENGINEERING_CHECK_STATUSES :: "string list" where
  "ENGINEERING_CHECK_STATUSES = [''passed'', ''failed'', ''not_run'', ''tool_changed'', ''missing_command'', ''execution_unavailable'', ''output_incomplete'']"

definition ENGINEERING_RUN_STATUSES :: "string list" where
  "ENGINEERING_RUN_STATUSES = filter (\<lambda>s. s \<noteq> ''not_run'') ENGINEERING_CHECK_STATUSES
     @ [''source_changed'', ''source_unavailable'', ''binding_changed'', ''cache_cleanup_unconfirmed'']"

definition ENGINEERING_FIXED_ERRORS :: "string list" where
  "ENGINEERING_FIXED_ERRORS = ['''', ''invalid_cwd'', ''binding_changed'', ''isolation_unavailable'', ''execution_receipt_incomplete'',
     ''VerificationOutputError'', ''VerificationOutputLimitError'', ''VerificationOutputCaptureError'', ''TimeoutExpired'',
     ''OSError'', ''BlockingIOError'', ''ChildProcessError'', ''ConnectionError'', ''BrokenPipeError'',
     ''ConnectionAbortedError'', ''ConnectionRefusedError'', ''ConnectionResetError'', ''FileExistsError'',
     ''FileNotFoundError'', ''InterruptedError'', ''IsADirectoryError'', ''NotADirectoryError'',
     ''PermissionError'', ''ProcessLookupError'', ''TimeoutError'']"

definition er_error :: "string \<Rightarrow> exc" where
  "er_error what = PyValueError (''engineering_verification '' @ what)"

definition engineering_shape :: "pyval \<Rightarrow> string list \<Rightarrow> pydict res" where
  "engineering_shape v names = (case v of
       PDict d \<Rightarrow> if set (dict_keys d) = PStr ` set names then Inr d else Inl (er_error ''set of fields'')
     | _ \<Rightarrow> Inl (er_error ''set of fields''))"

definition engineering_text :: "bool \<Rightarrow> nat \<Rightarrow> pyval \<Rightarrow> unit res" where
  "engineering_text required maximum v = (case v of
       PStr s \<Rightarrow> if CHR 0x00 \<in> set s \<or> required \<and> s = [] then Inl (er_error ''text'')
                 else raise_when (maximum < length s \<or> maximum < length (utf8 s)) (er_error ''text over the limit'')
     | _ \<Rightarrow> Inl (er_error ''text''))"

definition engineering_hash :: "bool \<Rightarrow> pyval \<Rightarrow> unit res" where
  "engineering_hash blank v = raise_when (\<not> str_with (\<lambda>s. blank \<and> s = [] \<or> hex64_text s) v) (er_error ''SHA256'')"

definition is_bool :: "pyval \<Rightarrow> bool" where
  "is_bool v = (case v of PBool _ \<Rightarrow> True | _ \<Rightarrow> False)"

definition int_in :: "int \<Rightarrow> int \<Rightarrow> pyval \<Rightarrow> bool" where
  "int_in lo hi v = (case v of PInt i \<Rightarrow> lo \<le> i \<and> i \<le> hi | _ \<Rightarrow> False)"

definition one_of :: "string list \<Rightarrow> pyval \<Rightarrow> bool" where
  "one_of ss v = str_with (\<lambda>s. s \<in> set ss) v"

text \<open>A text that is not empty, as the source reads it for truth.\<close>

definition text_set :: "pyval \<Rightarrow> bool" where
  "text_set v = truthy v"

section \<open>The plan\<close>

definition CHECK_FIELDS :: "string list" where
  "CHECK_FIELDS = [''check_id'', ''kind'', ''adapter'', ''required'', ''tool_sha256'', ''parameters_sha256'', ''timeout_seconds'', ''output_limit_bytes'']"

definition CHECK_ID_PATTERN :: regex where
  "CHECK_ID_PATTERN = rseqs [RCls (\<lambda>c. is_letter c \<or> is_digit c), rrange 0 63 (RCls (\<lambda>c. is_letter c \<or> is_digit c \<or> c \<in> set ''_.-''))]"

text \<open>The types \<^verbatim>\<open>int\<close> and \<^verbatim>\<open>float\<close>, not \<^verbatim>\<open>bool\<close>.\<close>

definition number_of :: "pyval \<Rightarrow> pyfloat option" where
  "number_of v = (case v of PInt _ \<Rightarrow> num_val v | PFloat _ \<Rightarrow> num_val v | _ \<Rightarrow> None)"

definition timeout_of :: "pyval \<Rightarrow> rat option" where
  "timeout_of v = (case number_of v of Some (Fin q) \<Rightarrow> if 0 < q \<and> q \<le> 1800 then Some q else None | _ \<Rightarrow> None)"

definition MAX_CHECK_OUTPUT :: int where
  "MAX_CHECK_OUTPUT = 8 * 1024 * 1024"

text \<open>One check of the plan, with the identities before it.\<close>

definition plan_check :: "pydict \<Rightarrow> string set \<Rightarrow> (string \<times> rat \<times> int) res" where
  "plan_check check ids =
     (case pget check ''check_id'' of
        PStr identity \<Rightarrow>
          if \<not> re_fullmatch CHECK_ID_PATTERN identity \<or> identity \<in> ids then Inl (er_error ''check identity'')
          else
            bindr (first_err
              [raise_when (\<not> one_of [''test'', ''lint'', ''build''] (pget check ''kind'') \<or> \<not> is_bool (pget check ''required'')) (er_error ''check kind''),
               raise_when (\<not> one_of (if pget check ''kind'' = PStr ''test'' then [''unittest_summary_v1'', ''go_test_json_v1''] else [''exit_status_v1''])
                  (pget check ''adapter'')) (er_error ''adapter''),
               engineering_hash False (pget check ''tool_sha256''), engineering_hash False (pget check ''parameters_sha256'')]) (\<lambda>_.
            case (timeout_of (pget check ''timeout_seconds''), pget check ''output_limit_bytes'') of
               (Some t, PInt l) \<Rightarrow> if 1 \<le> l \<and> l \<le> MAX_CHECK_OUTPUT then Inr (identity, t, l) else Inl (er_error ''check limits'')
             | _ \<Rightarrow> Inl (er_error ''check limits''))
      | _ \<Rightarrow> Inl (er_error ''check identity''))"

fun plan_checks :: "pyval list \<Rightarrow> string set \<Rightarrow> pyfloat \<Rightarrow> int \<Rightarrow> (pydict list \<times> pyfloat \<times> int) res" where
  "plan_checks [] ids timeout_total output_total = Inr ([], timeout_total, output_total)"
| "plan_checks (v # vs) ids timeout_total output_total =
     bindr (engineering_shape v CHECK_FIELDS) (\<lambda>check.
     bindr (plan_check check ids) (\<lambda>(identity, t, l).
     bindr (plan_checks vs (insert identity ids) (float_add timeout_total (Fin t)) (output_total + l)) (\<lambda>(cs, tt, ot).
       Inr (check # cs, tt, ot))))"

definition required_test :: "pydict \<Rightarrow> bool" where
  "required_test c \<longleftrightarrow> pget c ''required'' = PBool True \<and> pget c ''kind'' = PStr ''test''"

definition scope_list :: "string list \<Rightarrow> pyval \<Rightarrow> unit res" where
  "scope_list allowed v = raise_when (\<not> (case v of
       PList items \<Rightarrow> 1 \<le> length items \<and> length items \<le> 3 \<and> list_all (one_of allowed) items \<and> distinct items
     | _ \<Rightarrow> False)) (er_error ''scope'')"

definition PLAN_FIELDS :: "string list" where
  "PLAN_FIELDS = [''run_id'', ''ticket_id'', ''workspace_sha256'', ''environment_sha256'', ''steps'', ''platforms'', ''checks'']"

text \<open>The checks of the plan, and the part of the function that reads the plan.\<close>

definition plan_check_list :: "pyval \<Rightarrow> pydict list res" where
  "plan_check_list v = (case v of
       PList vs \<Rightarrow>
         if \<not> (1 \<le> length vs \<and> length vs \<le> 16) then Inl (er_error ''number of checks'')
         else bindr (plan_checks vs {} (Fin 0) 0) (\<lambda>(checks, timeout_total, output_total).
           if (case timeout_total of Fin q \<Rightarrow> 1800 < q | PosInf \<Rightarrow> True | _ \<Rightarrow> False) \<or> MAX_CHECK_OUTPUT < output_total
               \<or> \<not> list_ex required_test checks
           then Inl (er_error ''plan limits or required test'') else Inr checks)
     | _ \<Rightarrow> Inl (er_error ''number of checks''))"

definition receipt_plan :: "pyval \<Rightarrow> (pydict \<times> pydict list) res" where
  "receipt_plan v =
     bindr (engineering_shape v PLAN_FIELDS) (\<lambda>plan.
     bindr (first_err
       [engineering_text True 256 (pget plan ''run_id''), engineering_text True 256 (pget plan ''ticket_id''),
        engineering_hash False (pget plan ''workspace_sha256''), engineering_hash False (pget plan ''environment_sha256''),
        scope_list [''task'', ''code'', ''deepcheck''] (pget plan ''steps''),
        scope_list [''Linux'', ''Darwin'', ''Windows''] (pget plan ''platforms'')]) (\<lambda>_.
     bindr (plan_check_list (pget plan ''checks'')) (\<lambda>checks. Inr (plan, checks))))"

section \<open>The run\<close>

definition RUN_FIELDS :: "string list" where
  "RUN_FIELDS = [''plan_digest'', ''step'', ''attempt'', ''status'', ''source_before'', ''source_after'', ''os_enforced'', ''checks'']"

definition receipt_run :: "pydict \<Rightarrow> pydict \<Rightarrow> pyval \<Rightarrow> pydict res" where
  "receipt_run binding plan v =
     bindr (engineering_shape v RUN_FIELDS) (\<lambda>run.
     let before = pget run ''source_before''; after = pget run ''source_after''
     in bindr (first_err
       [engineering_hash False (pget run ''plan_digest''),
        engineering_text True 256 (pget run ''step''), engineering_text True 256 (pget run ''attempt''),
        raise_when (pget run ''step'' \<noteq> pget binding ''step''
            \<or> (case pget plan ''steps'' of PList steps \<Rightarrow> pget run ''step'' \<notin> set steps | _ \<Rightarrow> True)
            \<or> pget run ''attempt'' \<noteq> pget binding ''execution_attempt'') (er_error ''identity of the run''),
        engineering_hash True before, engineering_hash True after,
        raise_when (pget binding ''tested_worktree_fingerprint'' \<noteq> after) (er_error ''tested source''),
        raise_when (\<not> one_of ENGINEERING_RUN_STATUSES (pget run ''status'') \<or> \<not> is_bool (pget run ''os_enforced'')) (er_error ''run status''),
        raise_when (pget run ''status'' = PStr ''passed'' \<and> text_set before \<and> text_set after \<and> before \<noteq> after)
          (er_error ''passed contradicts a source change'')]) (\<lambda>_. Inr run))"

definition RESULT_FIELDS :: "string list" where
  "RESULT_FIELDS = [''check_id'', ''status'', ''exit_code'', ''tests_passed'', ''output_sha256'', ''output_bytes'', ''cleanup_ok'', ''cleanup_scope'',
     ''cache_owner_cleanup_confirmed'', ''scope_cleanup_ok'', ''resource_channel_status'', ''violation_observer_status'',
     ''resource_receipt_sha256'', ''error'']"

definition int_of_val :: "pyval \<Rightarrow> int" where
  "int_of_val v = (case v of PInt i \<Rightarrow> i | _ \<Rightarrow> 0)"

text \<open>The fields of one result on their own.\<close>

definition result_fields :: "pydict \<Rightarrow> pydict \<Rightarrow> unit res" where
  "result_fields check result = first_err
     ([raise_when (pget result ''check_id'' \<noteq> pget check ''check_id'' \<or> \<not> one_of ENGINEERING_CHECK_STATUSES (pget result ''status''))
         (er_error ''result identity or status''),
       raise_when (pget result ''exit_code'' \<noteq> PNone \<and> \<not> int_in (- (2 ^ 31)) (2 ^ 32 - 1) (pget result ''exit_code'')) (er_error ''exit code''),
       raise_when (\<not> int_in 0 10000000 (pget result ''tests_passed'')
           \<or> pget check ''kind'' \<noteq> PStr ''test'' \<and> pget result ''tests_passed'' \<noteq> PInt 0) (er_error ''test count''),
       raise_when (\<not> int_in 0 (int_of_val (pget check ''output_limit_bytes'')) (pget result ''output_bytes'')) (er_error ''output limit''),
       engineering_hash True (pget result ''output_sha256''), engineering_hash True (pget result ''resource_receipt_sha256'')]
      @ map (\<lambda>f. raise_when (pget result f \<noteq> PNone \<and> \<not> is_bool (pget result f)) (er_error ''cleanup status''))
          [''cleanup_ok'', ''scope_cleanup_ok'', ''cache_owner_cleanup_confirmed'']
      @ [raise_when (\<not> one_of [''unknown'', ''not_started'', ''process_group'', ''job_tree'', ''linux_task_scope''] (pget result ''cleanup_scope''))
           (er_error ''cleanup scope'')]
      @ map (\<lambda>f. raise_when (\<not> one_of [''not_required'', ''complete'', ''incomplete''] (pget result f)) (er_error ''channel status''))
          [''resource_channel_status'', ''violation_observer_status'']
      @ [raise_when (\<not> one_of ENGINEERING_FIXED_ERRORS (pget result ''error'')) (er_error ''fixed error'')])"

text \<open>What the process and the outer scope did after the check is known to be over.\<close>

definition cleanup_closed :: "pydict \<Rightarrow> bool" where
  "cleanup_closed result \<longleftrightarrow>
     pget result ''cleanup_ok'' = PBool True \<and> pget result ''cache_owner_cleanup_confirmed'' = PBool True
     \<and> (pget result ''cleanup_scope'' = PStr ''job_tree'' \<and> pget result ''scope_cleanup_ok'' \<noteq> PBool False
          \<and> pget result ''resource_channel_status'' = PStr ''not_required'' \<and> pget result ''violation_observer_status'' = PStr ''not_required''
          \<and> \<not> text_set (pget result ''resource_receipt_sha256'')
        \<or> pget result ''cleanup_scope'' = PStr ''linux_task_scope'' \<and> pget result ''scope_cleanup_ok'' = PBool True
          \<and> pget result ''resource_channel_status'' = PStr ''complete'' \<and> pget result ''violation_observer_status'' = PStr ''complete''
          \<and> text_set (pget result ''resource_receipt_sha256''))"

text \<open>The credit a result claims must fit its status.\<close>

definition result_credit :: "pydict \<Rightarrow> pydict \<Rightarrow> unit res" where
  "result_credit check result =
     (let status = pget result ''status''; code = pget result ''exit_code''; count = int_of_val (pget result ''tests_passed'');
          output = text_set (pget result ''output_sha256''); bytes = int_of_val (pget result ''output_bytes'')
      in if status = PStr ''not_run''
         then raise_when (code \<noteq> PNone \<or> count \<noteq> 0 \<or> output \<or> bytes \<noteq> 0) (er_error ''a check that did not run has results'')
         else if status \<in> {PStr ''passed'', PStr ''failed''} then
           (if code = PNone \<or> \<not> output then Inl (er_error ''a complete result lacks exit code or output'')
            else let expected_pass = (code = PInt 0 \<and> (pget check ''kind'' \<noteq> PStr ''test'' \<or> 0 < count))
                 in raise_when ((status = PStr ''passed'') \<noteq> expected_pass \<or> status = PStr ''failed'' \<and> count \<noteq> 0)
                      (er_error ''passed, exit code and count disagree''))
         else raise_when (count \<noteq> 0 \<or> output \<or> bytes \<noteq> 0) (er_error ''an unknown execution has results''))"

definition failed_row :: "pydict \<Rightarrow> pydict \<Rightarrow> pydict" where
  "failed_row check result = [(PStr ''check_id'', pget check ''check_id''), (PStr ''kind'', pget check ''kind''), (PStr ''status'', pget result ''status''),
     (PStr ''exit_code'', pget result ''exit_code''), (PStr ''tests_passed'', pget result ''tests_passed''), (PStr ''error'', pget result ''error'')]"

definition unknown_after :: "bool \<Rightarrow> pydict \<Rightarrow> bool" where
  "unknown_after unknown result \<longleftrightarrow> unknown \<or> \<not> cleanup_closed result \<or> pget result ''status'' \<notin> {PStr ''passed'', PStr ''failed''}
     \<or> text_set (pget result ''error'')"

text \<open>The loop over checks and results: whether something is unknown, and the failed rows.\<close>

fun run_results :: "(pydict \<times> pyval) list \<Rightarrow> bool \<Rightarrow> bool \<Rightarrow> pydict list \<Rightarrow> (bool \<times> pydict list \<times> pydict list) res" where
  "run_results [] stopped unknown failed = Inr (unknown, failed, [])"
| "run_results ((check, v) # rest) stopped unknown failed =
     bindr (engineering_shape v RESULT_FIELDS) (\<lambda>result.
     bindr (result_fields check result) (\<lambda>_.
     let status = pget result ''status''
     in if stopped \<and> status \<noteq> PStr ''not_run'' then Inl (er_error ''a check ran after the first failure'')
        else bindr (result_credit check result) (\<lambda>_.
          bindr (if status = PStr ''not_run'' then run_results rest True unknown failed
                 else if status \<noteq> PStr ''passed'' then run_results rest True (unknown_after unknown result) (failed @ [failed_row check result])
                 else run_results rest stopped (unknown_after unknown result) failed) (\<lambda>(u, f, rs). Inr (u, f, result # rs)))))"

section \<open>The derived values\<close>

record receipt_digests =
  rd_projection :: string
  rd_fingerprint :: string
  rd_repair :: string

record receipt_values =
  rv_category :: string
  rv_passed :: bool
  rv_exit :: pyval
  rv_digests :: "receipt_digests option"

definition engineering_digest :: "pack_env \<Rightarrow> pyval \<Rightarrow> string" where
  "engineering_digest env v = sha256_bytes env (utf8 (canon env v))"

definition pick :: "(string \<Rightarrow> bool) \<Rightarrow> pydict \<Rightarrow> pydict" where
  "pick P d = filter (\<lambda>(k, v). case k of PStr s \<Rightarrow> P s | _ \<Rightarrow> False) d"

definition receipt_digests_of :: "pack_env \<Rightarrow> pydict \<Rightarrow> pydict \<Rightarrow> pydict \<Rightarrow> pydict \<Rightarrow> string \<Rightarrow> bool \<Rightarrow> pydict list \<Rightarrow> receipt_digests" where
  "receipt_digests_of env row binding plan run category passed failed =
     (let audit_binding = pick (\<lambda>k. k \<notin> {''attempt'', ''execution_attempt'', ''captured_at'', ''result_commit_checked_at''}) binding;
          audit_run = pick (\<lambda>k. k \<noteq> ''attempt'') run
      in \<lparr>rd_projection = engineering_digest env (PDict plan),
          rd_fingerprint = engineering_digest env (PDict [(PStr ''domain'', PStr ''icode.engineering.audit.v1''), (PStr ''schema_version'', PInt 1),
            (PStr ''coverage'', pget row ''coverage''), (PStr ''binding'', PDict audit_binding), (PStr ''public_plan'', PDict plan),
            (PStr ''run'', PDict audit_run), (PStr ''category'', PStr category), (PStr ''passed'', PBool passed)]),
          rd_repair = engineering_digest env (PDict [(PStr ''domain'', PStr ''icode.engineering.repair.v1''), (PStr ''schema_version'', PInt 1),
            (PStr ''step'', pget run ''step''), (PStr ''public_plan'', PDict (pick (\<lambda>k. k \<notin> {''run_id'', ''ticket_id''}) plan)),
            (PStr ''source_before'', pget run ''source_before''), (PStr ''source_after'', pget run ''source_after''),
            (PStr ''binding'', PDict (map (\<lambda>k. (PStr k, pget binding k)) ENGINEERING_REPAIR_BINDING_FIELDS)),
            (PStr ''status'', pget run ''status''), (PStr ''category'', PStr category), (PStr ''failures'', PList (map PDict failed))])\<rparr>)"

definition RECEIPT_FIELDS :: "string list" where
  "RECEIPT_FIELDS = [''kind'', ''schema_version'', ''coverage'', ''binding'', ''public_plan'', ''public_projection_digest'', ''run'', ''category'',
     ''passed'', ''fingerprint'', ''repair_fingerprint'']"

definition receipt_binding :: "pyval \<Rightarrow> pydict res" where
  "receipt_binding v =
     bindr (engineering_shape v (ENGINEERING_BINDING_TEXT_FIELDS @ [''exit_code'', ''command_sha256'', ''artifact_hashes_sha256'', ''output_sha256'']))
       (\<lambda>binding.
     bindr (first_err
       (map (\<lambda>f. engineering_text (f \<in> {''step'', ''attempt'', ''execution_attempt''}) 8192 (pget binding f)) ENGINEERING_BINDING_TEXT_FIELDS
        @ map (\<lambda>f. engineering_hash False (pget binding f)) [''command_sha256'', ''artifact_hashes_sha256'', ''output_sha256'']
        @ [raise_when (\<not> (case pget binding ''exit_code'' of PNone \<Rightarrow> True | PInt _ \<Rightarrow> True | _ \<Rightarrow> False)) (er_error ''exit_code'')]))
       (\<lambda>_. Inr binding))"

text \<open>Category, verdict, exit code and failed rows, from the run and the checks of the plan.\<close>

definition receipt_outcome :: "pydict \<Rightarrow> pydict list \<Rightarrow> (string \<times> bool \<times> pyval \<times> pydict list) res" where
  "receipt_outcome run checks = (case pget run ''checks'' of
       PList vs \<Rightarrow>
         if length vs \<noteq> length checks then Inl (er_error ''number of results'')
         else
           let before = pget run ''source_before''; after = pget run ''source_after''; status = pget run ''status''
           in bindr (run_results (zip checks vs) False (\<not> text_set before \<or> \<not> text_set after \<or> before \<noteq> after) []) (\<lambda>(unknown0, failed, results).
              let all_passed = list_all (\<lambda>r. pget r ''status'' = PStr ''passed'') results
              in if status = PStr ''passed'' \<and> \<not> all_passed \<or> status = PStr ''failed'' \<and> failed = [] then Inl (er_error ''aggregate status'')
                 else
                   let unknown = (unknown0 \<or> status \<notin> {PStr ''passed'', PStr ''failed''});
                       passed = (status = PStr ''passed'' \<and> all_passed \<and> \<not> unknown);
                       category = (if unknown then ''side_effect_unknown'' else if failed \<noteq> [] then ''code'' else ''test'');
                       derived_exit = (if passed then PInt 0
                         else case find (\<lambda>v. v \<noteq> PNone) (map (\<lambda>f. pget f ''exit_code'') failed) of None \<Rightarrow> PNone | Some v \<Rightarrow> v)
                   in Inr (category, passed, derived_exit, failed))
     | _ \<Rightarrow> Inl (er_error ''number of results''))"

definition engineering_receipt_values :: "pack_env \<Rightarrow> bool \<Rightarrow> pyval \<Rightarrow> receipt_values res" where
  "engineering_receipt_values env compute_digests receipt =
     bindr (engineering_shape receipt RECEIPT_FIELDS) (\<lambda>row.
     bindr (first_err
       [raise_when (pget row ''kind'' \<noteq> PStr ''engineering_verification'' \<or> pget row ''schema_version'' \<noteq> PInt 1) (er_error ''schema_version''),
        raise_when (\<not> py_eq (pget row ''coverage'') ENGINEERING_COVERAGE) (er_error ''coverage'')]) (\<lambda>_.
     bindr (receipt_binding (pget row ''binding'')) (\<lambda>binding.
     bindr (receipt_plan (pget row ''public_plan'')) (\<lambda>(plan, checks).
     bindr (receipt_run binding plan (pget row ''run'')) (\<lambda>run.
     bindr (receipt_outcome run checks) (\<lambda>(category, passed, derived_exit, failed).
       Inr \<lparr>rv_category = category, rv_passed = passed, rv_exit = derived_exit,
         rv_digests = (if compute_digests then Some (receipt_digests_of env row binding plan run category passed failed) else None)\<rparr>))))))"

definition the_dict :: "pyval \<Rightarrow> pydict" where
  "the_dict v = (case v of PDict d \<Rightarrow> d | _ \<Rightarrow> [])"

definition validate_engineering_receipt :: "pack_env \<Rightarrow> string option \<Rightarrow> pyval \<Rightarrow> receipt_values option res" where
  "validate_engineering_receipt env expected_ticket_id receipt =
     (if pget (the_dict receipt) ''kind'' \<noteq> PStr ''engineering_verification'' then Inr None
      else
        let row = the_dict receipt
        in bindr (engineering_receipt_values env True receipt) (\<lambda>values.
           if (case expected_ticket_id of None \<Rightarrow> False | Some t \<Rightarrow> pget (the_dict (pget row ''public_plan'')) ''ticket_id'' \<noteq> PStr t)
           then Inl (er_error ''ticket_id differs from the ticket'')
           else if \<not> py_eq (pget (the_dict (pget row ''binding'')) ''exit_code'') (rv_exit values)
               \<or> pget row ''category'' \<noteq> PStr (rv_category values) \<or> pget row ''passed'' \<noteq> PBool (rv_passed values)
               \<or> (case rv_digests values of None \<Rightarrow> False
                   | Some ds \<Rightarrow> pget row ''public_projection_digest'' \<noteq> PStr (rd_projection ds) \<or> pget row ''fingerprint'' \<noteq> PStr (rd_fingerprint ds)
                       \<or> pget row ''repair_fingerprint'' \<noteq> PStr (rd_repair ds))
           then Inl (er_error ''semantics or digests disagree'') else Inr (Some values)))"

section \<open>The file of receipts\<close>

definition MAX_VERIFICATIONS_JSON_BYTES :: nat where
  "MAX_VERIFICATIONS_JSON_BYTES = 8 * 1024 * 1024"

definition MAX_VERIFICATION_RECEIPTS :: nat where
  "MAX_VERIFICATION_RECEIPTS = 10000"

fun validate_all :: "pack_env \<Rightarrow> string option \<Rightarrow> pyval list \<Rightarrow> unit res" where
  "validate_all env expected [] = Inr ()"
| "validate_all env expected (r # rs) =
     bindr (reject_non_interoperable_values r) (\<lambda>_. bindr (validate_engineering_receipt env expected r) (\<lambda>_. validate_all env expected rs))"

text \<open>\<^verbatim>\<open>load_verifications_json\<close> on the bytes that \<^verbatim>\<open>read_bounded_bytes\<close> returned.\<close>

definition load_verifications :: "pack_env \<Rightarrow> string option \<Rightarrow> string \<Rightarrow> pydict res" where
  "load_verifications env expected bytes = (case utf8_decode bytes of
       None \<Rightarrow> Inl (PyValueError ''invalid UTF-8'')
     | Some text \<Rightarrow>
         bindr (check_json_structural_token_budget (Some (MAX_JSON_CONTAINER_DEPTH + 2)) text) (\<lambda>_.
         bindr (json_loads strict_hooks (pk_limit env) text) (\<lambda>v.
         bindr (engineering_shape v [''schema_version'', ''receipts'']) (\<lambda>d.
         case pget d ''receipts'' of
            PList rs \<Rightarrow>
              if pget d ''schema_version'' \<noteq> PInt 1 \<or> MAX_VERIFICATION_RECEIPTS < length rs
              then Inl (PyValueError ''verifications.json is malformed'')
              else bindr (validate_all env expected rs) (\<lambda>_. Inr d)
          | _ \<Rightarrow> Inl (PyValueError ''verifications.json is malformed'')))))"

section \<open>What a derived pass means\<close>

text \<open>The results of an accepted run, one per check.\<close>

lemma shape_Inr [simp]: "engineering_shape v ns = Inr d \<longleftrightarrow> v = PDict d \<and> set (dict_keys d) = PStr ` set ns"
  by (auto simp: engineering_shape_def split: pyval.splits)

lemma run_results_Cons:
  assumes "run_results ((check, v) # rest) stopped unknown failed = Inr (u, f, rs)"
  obtains result rs' stopped' unknown' failed' where "v = PDict result" "rs = result # rs'" "result_fields check result = Inr ()"
    "result_credit check result = Inr ()" "stopped \<Longrightarrow> pget result ''status'' = PStr ''not_run''"
    "run_results rest stopped' unknown' failed' = Inr (u, f, rs')"
    "pget result ''status'' = PStr ''not_run'' \<and> stopped' \<and> unknown' = unknown \<and> failed' = failed
     \<or> pget result ''status'' = PStr ''passed'' \<and> stopped' = stopped \<and> unknown' = unknown_after unknown result \<and> failed' = failed
     \<or> pget result ''status'' \<notin> {PStr ''not_run'', PStr ''passed''} \<and> stopped' \<and> unknown' = unknown_after unknown result
         \<and> failed' = failed @ [failed_row check result]"
proof -
  obtain result where v: "v = PDict result" "result_fields check result = Inr ()" "result_credit check result = Inr ()"
    "stopped \<longrightarrow> pget result ''status'' = PStr ''not_run''"
    using assms by (auto simp: Let_def split: if_split_asm)
  consider "pget result ''status'' = PStr ''not_run''" | "pget result ''status'' = PStr ''passed''"
    | "pget result ''status'' \<notin> {PStr ''not_run'', PStr ''passed''}" by blast
  then show thesis
  proof cases
    case 1
    then obtain rs' where "run_results rest True unknown failed = Inr (u, f, rs')" "rs = result # rs'"
      using assms v(1) by (auto simp: Let_def split: if_split_asm)
    then show ?thesis using that [of result rs' True unknown failed] v 1 by simp
  next
    case 2
    then obtain rs' where "run_results rest stopped (unknown_after unknown result) failed = Inr (u, f, rs')" "rs = result # rs'"
      using assms v(1) by (auto simp: Let_def split: if_split_asm)
    then show ?thesis using that [of result rs' stopped "unknown_after unknown result" failed] v 2 by simp
  next
    case 3
    then obtain rs' where "run_results rest True (unknown_after unknown result) (failed @ [failed_row check result]) = Inr (u, f, rs')" "rs = result # rs'"
      using assms v(1) by (auto simp: Let_def split: if_split_asm)
    then show ?thesis using that [of result rs' True "unknown_after unknown result" "failed @ [failed_row check result]"] v 3 by simp
  qed
qed

declare run_results.simps(2) [simp del]

lemma run_results_shape: "run_results cvs stopped unknown failed = Inr (u, f, rs) \<Longrightarrow> map snd cvs = map PDict rs"
proof (induction cvs arbitrary: stopped unknown failed rs)
  case (Cons cv cvs)
  obtain check v where cv: "cv = (check, v)" by (cases cv)
  from Cons.prems [unfolded cv] show ?case by (rule run_results_Cons) (auto simp: cv dest: Cons.IH)
qed simp

text \<open>A run without unknown results and without failures passed every check, with the credit and cleanup it needs.\<close>

definition check_passed :: "pydict \<Rightarrow> pydict \<Rightarrow> bool" where
  "check_passed check result \<longleftrightarrow> pget result ''check_id'' = pget check ''check_id'' \<and> pget result ''status'' = PStr ''passed''
     \<and> pget result ''exit_code'' = PInt 0 \<and> (pget check ''kind'' = PStr ''test'' \<longrightarrow> 0 < int_of_val (pget result ''tests_passed''))
     \<and> cleanup_closed result \<and> \<not> text_set (pget result ''error'')"

lemma run_results_keep: "run_results cvs stopped unknown failed = Inr (u, f, rs) \<Longrightarrow> unknown \<Longrightarrow> u"
proof (induction cvs arbitrary: stopped unknown failed rs)
  case (Cons cv cvs)
  obtain check v where cv: "cv = (check, v)" by (cases cv)
  from Cons.prems(1) [unfolded cv] show ?case by (rule run_results_Cons) (use Cons in \<open>auto simp: unknown_after_def\<close>)
qed simp

lemma result_passed:
  assumes "result_fields check result = Inr ()" "result_credit check result = Inr ()" "pget result ''status'' = PStr ''passed''"
    and "cleanup_closed result" "\<not> text_set (pget result ''error'')"
  shows "check_passed check result"
  using assms by (auto simp: check_passed_def result_fields_def result_credit_def Let_def split: if_splits)

lemma run_results_passed:
  "run_results cvs stopped unknown failed = Inr (u, f, rs) \<Longrightarrow> \<not> u \<Longrightarrow> list_all (\<lambda>r. pget r ''status'' = PStr ''passed'') rs \<Longrightarrow>
    list_all2 check_passed (map fst cvs) rs \<and> f = failed"
proof (induction cvs arbitrary: stopped unknown failed rs)
  case (Cons cv cvs)
  obtain check v where cv: "cv = (check, v)" by (cases cv)
  from Cons.prems(1) [unfolded cv] show ?case
  proof (rule run_results_Cons)
    fix result rs' stopped' unknown' failed'
    assume a: "rs = result # rs'" "result_fields check result = Inr ()" "result_credit check result = Inr ()"
      "run_results cvs stopped' unknown' failed' = Inr (u, f, rs')"
      "pget result ''status'' = PStr ''not_run'' \<and> stopped' \<and> unknown' = unknown \<and> failed' = failed
       \<or> pget result ''status'' = PStr ''passed'' \<and> stopped' = stopped \<and> unknown' = unknown_after unknown result \<and> failed' = failed
       \<or> pget result ''status'' \<notin> {PStr ''not_run'', PStr ''passed''} \<and> stopped' \<and> unknown' = unknown_after unknown result
         \<and> failed' = failed @ [failed_row check result]"
    with Cons.prems(3) have p: "pget result ''status'' = PStr ''passed''" "unknown' = unknown_after unknown result" "failed' = failed" by auto
    with run_results_keep [OF a(4)] Cons.prems(2) have "cleanup_closed result" "\<not> text_set (pget result ''error'')"
      by (auto simp: unknown_after_def)
    with result_passed [OF a(2,3) p(1)] Cons.IH [OF a(4)] Cons.prems(2,3) a(1) p(3) show ?thesis by (simp add: cv)
  qed
qed simp

lemma plan_checks_shape: "plan_checks vs ids t l = Inr (cs, tt, ot) \<Longrightarrow> vs = map PDict cs"
  by (induction vs arbitrary: ids t l cs) auto

lemma receipt_values_Inr:
  assumes "engineering_receipt_values env c receipt = Inr values"
  obtains row binding plan checks run failed where "receipt = PDict row" "receipt_plan (pget row ''public_plan'') = Inr (plan, checks)"
    "receipt_run binding plan (pget row ''run'') = Inr run"
    "receipt_outcome run checks = Inr (rv_category values, rv_passed values, rv_exit values, failed)"
proof -
  obtain row where row: "engineering_shape receipt RECEIPT_FIELDS = Inr row"
    using assms by (auto simp: engineering_receipt_values_def simp del: shape_Inr first_err.simps py_eq.simps)
  obtain binding plan checks run where steps: "receipt_binding (pget row ''binding'') = Inr binding"
    "receipt_plan (pget row ''public_plan'') = Inr (plan, checks)" "receipt_run binding plan (pget row ''run'') = Inr run"
    using assms row by (auto simp: engineering_receipt_values_def simp del: shape_Inr first_err.simps py_eq.simps)
  obtain category passed exit failed where out: "receipt_outcome run checks = Inr (category, passed, exit, failed)"
    using assms row steps by (auto simp: engineering_receipt_values_def simp del: shape_Inr first_err.simps py_eq.simps)
  have "rv_category values = category" "rv_passed values = passed" "rv_exit values = exit"
    using assms row steps out by (auto simp: engineering_receipt_values_def simp del: shape_Inr first_err.simps py_eq.simps)
  with row steps out show ?thesis by (intro that [of row plan checks binding run failed]) auto
qed

lemma plan_check_list_Inr: "plan_check_list v = Inr checks \<Longrightarrow> v = PList (map PDict checks) \<and> list_ex required_test checks"
  by (auto simp: plan_check_list_def split: pyval.splits if_split_asm dest!: plan_checks_shape)

lemma receipt_plan_Inr: "receipt_plan v = Inr (plan, checks) \<Longrightarrow>
    v = PDict plan \<and> pget plan ''checks'' = PList (map PDict checks) \<and> list_ex required_test checks"
  by (auto simp: receipt_plan_def simp del: first_err.simps first_err_Inr_iff dest!: plan_check_list_Inr)

lemma receipt_run_Inr: "receipt_run binding plan v = Inr run \<Longrightarrow> v = PDict run"
  by (auto simp: receipt_run_def Let_def simp del: first_err.simps)

lemma receipt_outcome_Inr:
  assumes "receipt_outcome run checks = Inr (category, True, exit, failed)"
  shows "\<exists>results. pget run ''checks'' = PList (map PDict results) \<and> list_all2 check_passed checks results \<and> pget run ''status'' = PStr ''passed''
    \<and> pget run ''source_before'' = pget run ''source_after'' \<and> text_set (pget run ''source_before'') \<and> category = ''test'' \<and> exit = PInt 0"
proof -
  let ?unknown = "\<not> text_set (pget run ''source_before'') \<or> \<not> text_set (pget run ''source_after'') \<or> pget run ''source_before'' \<noteq> pget run ''source_after''"
  obtain vs where vs: "pget run ''checks'' = PList vs" "length vs = length checks"
    using assms by (auto simp: receipt_outcome_def split: pyval.splits if_split_asm)
  obtain u f results where rs: "run_results (zip checks vs) False ?unknown [] = Inr (u, f, results)"
    using assms vs by (auto simp: receipt_outcome_def Let_def simp del: zip_Cons_Cons)
  have v: "\<not> u" "pget run ''status'' = PStr ''passed''" "list_all (\<lambda>r. pget r ''status'' = PStr ''passed'') results"
    "category = (if f \<noteq> [] then ''code'' else ''test'')" "exit = PInt 0"
    using assms vs rs by (auto simp: receipt_outcome_def Let_def split: if_split_asm)
  have "vs = map PDict results" using run_results_shape [OF rs] vs(2) by simp
  moreover have "list_all2 check_passed checks results \<and> f = []" using run_results_passed [OF rs v(1,3)] vs(2) by simp
  moreover have "\<not> ?unknown" using run_results_keep [OF rs] v(1) by blast
  ultimately show ?thesis using vs(1) v by auto
qed

lemma derived_pass_is_real:
  assumes "engineering_receipt_values env digests receipt = Inr values" and "rv_passed values"
  shows "\<exists>row plan run checks results. receipt = PDict row \<and> pget row ''public_plan'' = PDict plan \<and> pget row ''run'' = PDict run
    \<and> pget plan ''checks'' = PList (map PDict checks) \<and> pget run ''checks'' = PList (map PDict results)
    \<and> list_ex required_test checks \<and> list_all2 check_passed checks results \<and> pget run ''status'' = PStr ''passed''
    \<and> pget run ''source_before'' = pget run ''source_after'' \<and> text_set (pget run ''source_before'')
    \<and> rv_category values = ''test'' \<and> rv_exit values = PInt 0"
proof -
  obtain row binding plan checks run failed where r: "receipt = PDict row" "receipt_plan (pget row ''public_plan'') = Inr (plan, checks)"
    "receipt_run binding plan (pget row ''run'') = Inr run"
    "receipt_outcome run checks = Inr (rv_category values, rv_passed values, rv_exit values, failed)"
    using assms(1) by (rule receipt_values_Inr)
  from receipt_plan_Inr [OF r(2)] receipt_run_Inr [OF r(3)] receipt_outcome_Inr [OF r(4) [unfolded assms(2) [THEN eqTrueI]]] r(1)
  show ?thesis by blast
qed


text \<open>
  C7. The label \<^verbatim>\<open>passed\<close> of an accepted receipt is real: when the validation of a receipt for a ticket returns and the receipt is
  labelled as passed, then it belongs to that ticket, its plan has a required test, and for every check of the plan, in
  order, the run has a result of that check that passed with exit code 0, with at least one passed test for a test check, with its
  cleanup confirmed and without an error; the source before and after the run is recorded and the same, the category is
  \<^verbatim>\<open>test\<close> and the bound exit code 0.
\<close>

theorem passed_label_is_real:
  assumes "validate_engineering_receipt env (Some t) (PDict row) = Inr (Some values)" and "pget row ''passed'' = PBool True"
  shows "\<exists>plan run checks results. pget row ''public_plan'' = PDict plan \<and> pget row ''run'' = PDict run \<and> pget plan ''ticket_id'' = PStr t
    \<and> pget plan ''checks'' = PList (map PDict checks) \<and> pget run ''checks'' = PList (map PDict results)
    \<and> list_ex required_test checks \<and> list_all2 check_passed checks results \<and> pget run ''status'' = PStr ''passed''
    \<and> pget run ''source_before'' = pget run ''source_after'' \<and> text_set (pget run ''source_before'')
    \<and> pget row ''category'' = PStr ''test'' \<and> py_eq (pget (the_dict (pget row ''binding'')) ''exit_code'') (PInt 0)"
proof -
  have v: "engineering_receipt_values env True (PDict row) = Inr values" "pget (the_dict (pget row ''public_plan'')) ''ticket_id'' = PStr t"
    "pget row ''category'' = PStr (rv_category values)" "rv_passed values"
    "py_eq (pget (the_dict (pget row ''binding'')) ''exit_code'') (rv_exit values)"
    using assms by (auto simp: validate_engineering_receipt_def Let_def the_dict_def [of "PDict row"] simp del: py_eq.simps split: if_split_asm)
  from derived_pass_is_real [OF v(1,4)] v(2-5) show ?thesis by (force simp: the_dict_def)
qed

section \<open>A concrete receipt\<close>

definition demo_sha :: pyval where
  "demo_sha = PStr (replicate 64 (CHR ''b''))"

definition demo_check :: pydict where
  "demo_check = [(PStr ''check_id'', PStr ''unit''), (PStr ''kind'', PStr ''test''), (PStr ''adapter'', PStr ''unittest_summary_v1''),
     (PStr ''required'', PBool True), (PStr ''tool_sha256'', demo_sha), (PStr ''parameters_sha256'', demo_sha),
     (PStr ''timeout_seconds'', PInt 60), (PStr ''output_limit_bytes'', PInt 1000)]"

definition demo_plan :: pydict where
  "demo_plan = [(PStr ''run_id'', PStr ''r1''), (PStr ''ticket_id'', PStr ''T1''), (PStr ''workspace_sha256'', demo_sha), (PStr ''environment_sha256'', demo_sha),
     (PStr ''steps'', PList [PStr ''code'']), (PStr ''platforms'', PList [PStr ''Linux'']),
     (PStr ''checks'', PList [PDict demo_check])]"

definition demo_run :: pydict where
  "demo_run = [(PStr ''plan_digest'', demo_sha), (PStr ''step'', PStr ''code''), (PStr ''attempt'', PStr ''x1''), (PStr ''status'', PStr ''passed''),
     (PStr ''source_before'', demo_sha), (PStr ''source_after'', demo_sha), (PStr ''os_enforced'', PBool True),
     (PStr ''checks'', PList [PDict [(PStr ''check_id'', PStr ''unit''), (PStr ''status'', PStr ''passed''), (PStr ''exit_code'', PInt 0),
       (PStr ''tests_passed'', PInt 3), (PStr ''output_sha256'', demo_sha), (PStr ''output_bytes'', PInt 20), (PStr ''cleanup_ok'', PBool True),
       (PStr ''cleanup_scope'', PStr ''job_tree''), (PStr ''cache_owner_cleanup_confirmed'', PBool True), (PStr ''scope_cleanup_ok'', PNone),
       (PStr ''resource_channel_status'', PStr ''not_required''), (PStr ''violation_observer_status'', PStr ''not_required''),
       (PStr ''resource_receipt_sha256'', PStr []), (PStr ''error'', PStr [])]])]"

definition demo_bound :: pydict where
  "demo_bound = map (\<lambda>f. (PStr f, if f = ''step'' then PStr ''code'' else if f = ''attempt'' then PStr ''a1''
       else if f = ''execution_attempt'' then PStr ''x1'' else if f = ''tested_worktree_fingerprint'' then demo_sha else PStr []))
       ENGINEERING_BINDING_TEXT_FIELDS
     @ [(PStr ''exit_code'', PInt 0), (PStr ''command_sha256'', demo_sha), (PStr ''artifact_hashes_sha256'', demo_sha), (PStr ''output_sha256'', demo_sha)]"

definition demo_digests :: "pack_env \<Rightarrow> receipt_digests" where
  "demo_digests env = receipt_digests_of env [(PStr ''coverage'', ENGINEERING_COVERAGE)] demo_bound demo_plan demo_run ''test'' True []"

definition demo_receipt_row :: "pack_env \<Rightarrow> pydict" where
  "demo_receipt_row env = [(PStr ''kind'', PStr ''engineering_verification''), (PStr ''schema_version'', PInt 1), (PStr ''coverage'', ENGINEERING_COVERAGE),
     (PStr ''binding'', PDict demo_bound), (PStr ''public_plan'', PDict demo_plan), (PStr ''public_projection_digest'', PStr (rd_projection (demo_digests env))),
     (PStr ''run'', PDict demo_run), (PStr ''category'', PStr ''test''), (PStr ''passed'', PBool True),
     (PStr ''fingerprint'', PStr (rd_fingerprint (demo_digests env))), (PStr ''repair_fingerprint'', PStr (rd_repair (demo_digests env)))]"

lemma check_id_ok:
  assumes "is_letter c \<or> is_digit c" "list_all (\<lambda>c. is_letter c \<or> is_digit c \<or> c \<in> set ''_.-'') cs" "length cs \<le> 63"
  shows "re_fullmatch CHECK_ID_PATTERN (c # cs)"
proof -
  let ?s = "c # cs" and ?P = "\<lambda>c. is_letter c \<or> is_digit c \<or> c \<in> set ''_.-''"
  have "rmatch ?s (rrange 0 63 (RCls ?P)) 1 (length ?s)"
    unfolding rmatch_rrange_cls [OF zero_le] using assms(2,3) by (auto simp: run_of_def list_all_length nth_Cons')
  moreover have "rmatch ?s (RCls (\<lambda>c. is_letter c \<or> is_digit c)) 0 1" using assms(1) by simp
  ultimately show ?thesis unfolding re_fullmatch_iff CHECK_ID_PATTERN_def by fastforce
qed

lemma demo_binding_ok: "receipt_binding (PDict demo_bound) = Inr demo_bound"
proof -
  have text_ok: "engineering_text r 8192 (PStr s) = Inr ()" if "length (utf8 s) \<le> 100" "length s \<le> 100" "CHR 0x00 \<notin> set s" "r \<longrightarrow> s \<noteq> []" for r s
    using that by (simp add: engineering_text_def)
  have all: "list_all (\<lambda>f. case pget demo_bound f of PStr s \<Rightarrow> length (utf8 s) \<le> 100 \<and> length s \<le> 100 \<and> CHR 0x00 \<notin> set s
      \<and> (f \<in> {''step'', ''attempt'', ''execution_attempt''} \<longrightarrow> s \<noteq> []) | _ \<Rightarrow> False) ENGINEERING_BINDING_TEXT_FIELDS" by code_simp
  have texts: "\<forall>f\<in>set ENGINEERING_BINDING_TEXT_FIELDS.
      engineering_text (f \<in> {''step'', ''attempt'', ''execution_attempt''}) 8192 (pget demo_bound f) = Inr ()"
  proof
    fix f assume "f \<in> set ENGINEERING_BINDING_TEXT_FIELDS"
    with all have "case pget demo_bound f of PStr s \<Rightarrow> length (utf8 s) \<le> 100 \<and> length s \<le> 100 \<and> CHR 0x00 \<notin> set s
      \<and> (f \<in> {''step'', ''attempt'', ''execution_attempt''} \<longrightarrow> s \<noteq> []) | _ \<Rightarrow> False" by (simp only: list_all_iff)
    then show "engineering_text (f \<in> {''step'', ''attempt'', ''execution_attempt''}) 8192 (pget demo_bound f) = Inr ()"
      using text_ok by (cases "pget demo_bound f") simp_all
  qed
  have shape: "engineering_shape (PDict demo_bound) (ENGINEERING_BINDING_TEXT_FIELDS @ [''exit_code'', ''command_sha256'', ''artifact_hashes_sha256'', ''output_sha256''])
      = Inr demo_bound" by code_simp
  have "list_all (\<lambda>f. engineering_hash False (pget demo_bound f) = Inr ()) [''command_sha256'', ''artifact_hashes_sha256'', ''output_sha256'']"
    "(case pget demo_bound ''exit_code'' of PNone \<Rightarrow> True | PInt _ \<Rightarrow> True | _ \<Rightarrow> False)" by code_simp+
  with texts shape show ?thesis by (simp add: receipt_binding_def del: shape_Inr)
qed

lemma demo_plan_check: "plan_check demo_check {} = Inr (''unit'', 60, 1000)"
proof -
  have "re_fullmatch CHECK_ID_PATTERN ''unit''" by (rule check_id_ok) code_simp+
  moreover have "first_err
      [raise_when (\<not> one_of [''test'', ''lint'', ''build''] (pget demo_check ''kind'') \<or> \<not> is_bool (pget demo_check ''required'')) (er_error ''check kind''),
       raise_when (\<not> one_of (if pget demo_check ''kind'' = PStr ''test'' then [''unittest_summary_v1'', ''go_test_json_v1''] else [''exit_status_v1''])
          (pget demo_check ''adapter'')) (er_error ''adapter''),
       engineering_hash False (pget demo_check ''tool_sha256''), engineering_hash False (pget demo_check ''parameters_sha256'')] = Inr ()"
    by code_simp
  ultimately show ?thesis
    by (simp add: plan_check_def demo_check_def pget_def dict_get_or_def timeout_of_def number_of_def num_val_def MAX_CHECK_OUTPUT_def
        del: first_err.simps first_err_Inr_iff)
qed

lemma demo_plan_ok: "receipt_plan (PDict demo_plan) = Inr (demo_plan, [demo_check])"
proof -
  have "engineering_shape (PDict demo_check) CHECK_FIELDS = Inr demo_check" "required_test demo_check"
    "float_add (Fin 0) (Fin 60) = Fin 60" "pget demo_plan ''checks'' = PList [PDict demo_check]" by code_simp+
  then have "plan_check_list (pget demo_plan ''checks'') = Inr [demo_check]"
    by (simp add: plan_check_list_def demo_plan_check MAX_CHECK_OUTPUT_def del: shape_Inr)
  moreover have "engineering_shape (PDict demo_plan) PLAN_FIELDS = Inr demo_plan" by code_simp
  moreover have "first_err
       [engineering_text True 256 (pget demo_plan ''run_id''), engineering_text True 256 (pget demo_plan ''ticket_id''),
        engineering_hash False (pget demo_plan ''workspace_sha256''), engineering_hash False (pget demo_plan ''environment_sha256''),
        scope_list [''task'', ''code'', ''deepcheck''] (pget demo_plan ''steps''),
        scope_list [''Linux'', ''Darwin'', ''Windows''] (pget demo_plan ''platforms'')] = Inr ()" by code_simp
  ultimately show ?thesis by (simp add: receipt_plan_def del: shape_Inr first_err.simps first_err_Inr_iff)
qed

lemma demo_run_ok: "receipt_run demo_bound demo_plan (PDict demo_run) = Inr demo_run"
  by code_simp

lemma demo_outcome_ok: "receipt_outcome demo_run [demo_check] = Inr (''test'', True, PInt 0, [])"
  by code_simp

lemma demo_receipt_valid: "validate_engineering_receipt env (Some ''T1'') (PDict (demo_receipt_row env))
    = Inr (Some \<lparr>rv_category = ''test'', rv_passed = True, rv_exit = PInt 0, rv_digests = Some (demo_digests env)\<rparr>)"
proof -
  have row: "engineering_shape (PDict (demo_receipt_row env)) RECEIPT_FIELDS = Inr (demo_receipt_row env)"
    by (simp add: demo_receipt_row_def RECEIPT_FIELDS_def)
  have get: "pget (demo_receipt_row env) ''kind'' = PStr ''engineering_verification''" "pget (demo_receipt_row env) ''schema_version'' = PInt 1"
    "pget (demo_receipt_row env) ''coverage'' = ENGINEERING_COVERAGE" "pget (demo_receipt_row env) ''binding'' = PDict demo_bound"
    "pget (demo_receipt_row env) ''public_plan'' = PDict demo_plan" "pget (demo_receipt_row env) ''run'' = PDict demo_run"
    "pget (demo_receipt_row env) ''category'' = PStr ''test''" "pget (demo_receipt_row env) ''passed'' = PBool True"
    "pget (demo_receipt_row env) ''public_projection_digest'' = PStr (rd_projection (demo_digests env))"
    "pget (demo_receipt_row env) ''fingerprint'' = PStr (rd_fingerprint (demo_digests env))"
    "pget (demo_receipt_row env) ''repair_fingerprint'' = PStr (rd_repair (demo_digests env))"
    by (simp_all add: demo_receipt_row_def pget_def dict_get_or_def)
  have cov: "py_eq ENGINEERING_COVERAGE ENGINEERING_COVERAGE" by code_simp
  have digests: "receipt_digests_of env (demo_receipt_row env) demo_bound demo_plan demo_run ''test'' True [] = demo_digests env"
    by (simp add: demo_digests_def receipt_digests_of_def Let_def get pget_def [of "[(PStr ''coverage'', ENGINEERING_COVERAGE)]"] dict_get_or_def)
  have "pget demo_plan ''ticket_id'' = PStr ''T1''" "pget demo_bound ''exit_code'' = PInt 0" by code_simp+
  moreover have "engineering_receipt_values env True (PDict (demo_receipt_row env))
      = Inr \<lparr>rv_category = ''test'', rv_passed = True, rv_exit = PInt 0, rv_digests = Some (demo_digests env)\<rparr>"
    using row by (simp add: engineering_receipt_values_def get cov demo_binding_ok demo_plan_ok demo_run_ok demo_outcome_ok digests
        del: shape_Inr py_eq.simps)
  ultimately show ?thesis
    by (simp add: validate_engineering_receipt_def Let_def the_dict_def get del: py_eq.simps)
qed

theorem passed_label_is_real_witness: "\<exists>run results. pget run ''checks'' = PList (map PDict results) \<and> list_all2 check_passed [demo_check] results"
proof -
  have "pget (demo_receipt_row demo) ''passed'' = PBool True" "pget (demo_receipt_row demo) ''public_plan'' = PDict demo_plan" for demo
    by (simp_all add: demo_receipt_row_def pget_def dict_get_or_def)
  moreover have "pget demo_plan ''checks'' = PList [PDict demo_check]" by code_simp
  ultimately show ?thesis using passed_label_is_real [OF demo_receipt_valid] by (fastforce simp: Cons_eq_map_conv)
qed

end
