(* ===== verification/Pack_Files.thy ===== *)
theory Pack_Files
  imports Pack_Chain Pack_Engineering
begin

text \<open>
  The directory of an evidence pack and the operations of \<^verbatim>\<open>pack_verify.py\<close> that read it: the member lookup that follows
  no link, the walk over all entries, the bounded readers and the bounded hash with its shared budget. The directory is a
  static tree; file names are single path components and the file system sets no limit on their length.
\<close>

section \<open>The tree\<close>

text \<open>
  A regular file, one that exists with a size but cannot be opened, a directory, one that can neither be searched nor listed, a symbolic
  link or reparse point, and any other kind of entry.
\<close>

datatype node =
    File string
  | Locked_file nat
  | Folder "(string \<times> node) list"
  | Locked_folder
  | Link
  | Special

fun node_at :: "node \<Rightarrow> string list \<Rightarrow> node option" where
  "node_at n [] = Some n"
| "node_at n (p # ps) = (case n of Folder es \<Rightarrow> (case map_of es p of None \<Rightarrow> None | Some m \<Rightarrow> node_at m ps) | _ \<Rightarrow> None)"

definition is_file :: "node option \<Rightarrow> bool" where
  "is_file n = (case n of Some (File _) \<Rightarrow> True | Some (Locked_file _) \<Rightarrow> True | _ \<Rightarrow> False)"

definition node_size :: "node \<Rightarrow> nat" where
  "node_size n = (case n of File b \<Rightarrow> length b | Locked_file k \<Rightarrow> k | _ \<Rightarrow> 0)"

text \<open>The loop over the components: a missing entry ends it, a link or an error refuses the path.\<close>

fun no_link_on_path :: "node \<Rightarrow> string list \<Rightarrow> bool" where
  "no_link_on_path n [] = True"
| "no_link_on_path n (p # ps) = (case n of
       Folder es \<Rightarrow> (case map_of es p of None \<Rightarrow> True | Some m \<Rightarrow> m \<noteq> Link \<and> no_link_on_path m ps)
     | _ \<Rightarrow> False)"

definition package_member_path :: "node \<Rightarrow> string \<Rightarrow> string list option" where
  "package_member_path pack relative =
     (if relative = [] \<or> CHR 0x00 \<in> set relative \<or> CHR 0x5C \<in> set relative then None
      else
        let parts = split_on (CHR ''/'') relative; w = parse_windows_path relative
        in if is_absolute (parse_path relative) \<or> windows_is_absolute w \<or> wp_drive w \<noteq> [] \<or> list_ex (\<lambda>p. p \<in> {[], ''.'', ''..''}) parts
           then None
           else if no_link_on_path pack parts then Some parts else None)"

section \<open>The walk\<close>

definition MAX_PACKAGE_ENTRY_COUNT :: nat where
  "MAX_PACKAGE_ENTRY_COUNT = 100000"

datatype entry_kind = Kind_link | Kind_file | Kind_special

datatype walk_end = Walk_complete | Walk_over_limit | Walk_failed

definition entry_kind :: "node \<Rightarrow> entry_kind option" where
  "entry_kind n = (case n of Link \<Rightarrow> Some Kind_link | File _ \<Rightarrow> Some Kind_file | Locked_file _ \<Rightarrow> Some Kind_file | Special \<Rightarrow> Some Kind_special
     | Folder _ \<Rightarrow> None | Locked_folder \<Rightarrow> None)"

fun node_weight :: "node \<Rightarrow> nat" where
  "node_weight (Folder es) = Suc (sum_list (map (\<lambda>(p, n). Suc (node_weight n)) es))"
| "node_weight n = 0"

definition is_folder :: "node \<Rightarrow> bool" where
  "is_folder n = (entry_kind n = None)"

lemma weight_filter: "sum_list (map (\<lambda>(p, n). Suc (node_weight n)) (filter P es)) \<le> sum_list (map (\<lambda>(p, n). Suc (node_weight n)) es)"
  by (induction es) auto

lemma weight_insort: "sum_list (map f (insort_key g x es)) = f x + (sum_list (map f es) :: nat)"
  by (induction es) auto

lemma weight_sort: "sum_list (map f (sort_key g es)) = (sum_list (map f es) :: nat)"
  by (induction es) (simp_all add: weight_insort)

text \<open>The stack of directories, the first one on top; the entries that are no directories are yielded in the order of their names.\<close>

function walk_entries :: "(string list \<times> node) list \<Rightarrow> nat \<Rightarrow> (string list \<times> entry_kind) list \<times> walk_end" where
  "walk_entries [] count = ([], Walk_complete)"
| "walk_entries ((path, dir) # pending) count = (case dir of
       Folder es \<Rightarrow>
         let count' = count + length es
         in if MAX_PACKAGE_ENTRY_COUNT < count' then ([], Walk_over_limit)
            else
              let sorted = sort_key fst es;
                  here = concat (map (\<lambda>(name, n). case entry_kind n of None \<Rightarrow> [] | Some k \<Rightarrow> [(path @ [name], k)]) sorted);
                  children = map (\<lambda>(name, n). (path @ [name], n)) (filter (\<lambda>(name, n). is_folder n) sorted);
                  (more, result) = walk_entries (children @ pending) count'
              in (here @ more, result)
     | _ \<Rightarrow> ([], Walk_failed))"
  by pat_completeness auto
termination
proof (relation "measure (\<lambda>(ps, c). sum_list (map (\<lambda>(p, n). Suc (node_weight n)) ps))", goal_cases)
  case (2 path dir pending count es count' sorted here children)
  have "sum_list (map (\<lambda>(p, n). Suc (node_weight n)) children) \<le> sum_list (map (\<lambda>(p, n). Suc (node_weight n)) es)"
    using weight_filter [of "\<lambda>(name, n). is_folder n" sorted] weight_sort [of "\<lambda>(p, n). Suc (node_weight n)" fst es]
    unfolding 2(4,6) by (simp add: comp_def split_def)
  then show ?case using 2 by simp
qed simp

section \<open>Reading and hashing\<close>

definition JSON_FILE_READ_SIZE :: nat where
  "JSON_FILE_READ_SIZE = 64 * 1024"

definition SHA256_FILE_READ_SIZE :: nat where
  "SHA256_FILE_READ_SIZE = 1024 * 1024"

text \<open>The loop of \<^verbatim>\<open>read_bounded_bytes\<close>: the bytes read so far and the rest of the stream.\<close>

function bounded_read :: "nat \<Rightarrow> string \<Rightarrow> string \<Rightarrow> string res" where
  "bounded_read max_bytes got rest =
     (let chunk = take (min JSON_FILE_READ_SIZE (max_bytes - length got + 1)) rest
      in if chunk = [] then Inr got
         else if max_bytes < length got + length chunk then Inl (PyValueError ''control JSON over the byte limit'')
         else bounded_read max_bytes (got @ chunk) (drop (length chunk) rest))"
  by auto
termination by (relation "measure (\<lambda>(m, g, r). length r)") (auto simp: min_def JSON_FILE_READ_SIZE_def)

declare bounded_read.simps [simp del]

definition read_bounded_bytes :: "nat \<Rightarrow> node \<Rightarrow> string res" where
  "read_bounded_bytes max_bytes n = (case n of File b \<Rightarrow> bounded_read max_bytes [] b | _ \<Rightarrow> Inl PyOSError)"

lemma bounded_read_eq:
  "length got \<le> max_bytes \<Longrightarrow>
    bounded_read max_bytes got rest = (if length got + length rest \<le> max_bytes then Inr (got @ rest) else Inl (PyValueError ''control JSON over the byte limit''))"
proof (induction max_bytes got rest rule: bounded_read.induct)
  case (1 max_bytes got rest)
  let ?n = "min JSON_FILE_READ_SIZE (max_bytes - length got + 1)"
  have n: "0 < ?n" by (simp add: JSON_FILE_READ_SIZE_def)
  show ?case
  proof (cases "rest = []")
    case True
    with 1 show ?thesis by (simp add: bounded_read.simps)
  next
    case False
    with n have c: "take ?n rest \<noteq> []" by simp
    show ?thesis
    proof (cases "max_bytes < length got + length (take ?n rest)")
      case True
      with c show ?thesis by (subst bounded_read.simps) (auto simp: Let_def)
    next
      case False
      let ?c = "take ?n rest"
      let ?d = "drop (length ?c) rest"
      have rest: "rest = ?c @ ?d" by (metis append_eq_conv_conj append_take_drop_id)
      have "bounded_read max_bytes got rest = bounded_read max_bytes (got @ ?c) ?d"
        using c False by (subst bounded_read.simps) (simp only: Let_def if_False)
      also have "\<dots> = (if length (got @ ?c) + length ?d \<le> max_bytes then Inr ((got @ ?c) @ ?d)
          else Inl (PyValueError ''control JSON over the byte limit''))"
        using False by (intro 1(1) [OF refl c False]) simp
      also have "length (got @ ?c) + length ?d = length got + length rest" using arg_cong [OF rest, of length] by simp
      also have "(got @ ?c) @ ?d = got @ rest" using rest by simp
      finally show ?thesis .
    qed
  qed
qed

lemma read_bounded_bytes_Inr: "read_bounded_bytes mx n = Inr b \<longleftrightarrow> n = File b \<and> length b \<le> mx"
  by (auto simp: read_bounded_bytes_def bounded_read_eq split: node.splits if_splits)

text \<open>
  The reads of \<^verbatim>\<open>sha256_file\<close>: bytes left in the stream, bytes read, bytes left in the shared budget. The result tells
  which limit was crossed and what is left of the budget.
\<close>

function hash_reads :: "nat \<Rightarrow> nat \<Rightarrow> nat \<Rightarrow> nat \<Rightarrow> exc option \<times> nat" where
  "hash_reads left seen max_bytes remaining =
     (let chunk = min left (min (min SHA256_FILE_READ_SIZE (max_bytes - seen + 1)) (remaining + 1))
      in if chunk = 0 then (None, remaining)
         else if max_bytes < seen + chunk then (Some FileSizeLimitExceeded, remaining)
         else if remaining < chunk then (Some HashReadBudgetExceeded, remaining)
         else hash_reads (left - chunk) (seen + chunk) max_bytes (remaining - chunk))"
  by auto
termination
proof (relation "measure (\<lambda>(l, t, m, r). l)", goal_cases)
  case (2 left seen max_bytes remaining chunk)
  have "chunk \<le> left" unfolding 2(1) by (rule min.cobounded1)
  moreover have "0 < chunk" using 2(2) by (rule neq0_conv [THEN iffD1])
  ultimately show ?case by (simp only: in_measure split_conv)
qed (rule wf_measure)

declare hash_reads.simps [simp del]

definition sha256_file :: "pack_env \<Rightarrow> nat \<Rightarrow> node \<Rightarrow> nat \<Rightarrow> string res \<times> nat" where
  "sha256_file env max_bytes n remaining = (case n of
       File b \<Rightarrow> (case hash_reads (length b) 0 max_bytes remaining of
           (None, r) \<Rightarrow> (Inr (sha256_bytes env b), r)
         | (Some e, r) \<Rightarrow> (Inl e, r))
     | _ \<Rightarrow> (Inl PyOSError, remaining))"

lemma hash_reads_step:
  obtains c where "c \<le> left" "c = 0 \<longleftrightarrow> left = 0"
    "hash_reads left seen max_bytes remaining =
      (if c = 0 then (None, remaining) else if max_bytes < seen + c then (Some FileSizeLimitExceeded, remaining)
       else if remaining < c then (Some HashReadBudgetExceeded, remaining) else hash_reads (left - c) (seen + c) max_bytes (remaining - c))"
proof
  let ?m = "min (min SHA256_FILE_READ_SIZE (max_bytes - seen + 1)) (remaining + 1)"
  show "min left ?m \<le> left" by (rule min.cobounded1)
  show "min left ?m = 0 \<longleftrightarrow> left = 0" by (cases left) (simp_all add: SHA256_FILE_READ_SIZE_def)
  show "hash_reads left seen max_bytes remaining =
      (if min left ?m = 0 then (None, remaining) else if max_bytes < seen + min left ?m then (Some FileSizeLimitExceeded, remaining)
       else if remaining < min left ?m then (Some HashReadBudgetExceeded, remaining)
       else hash_reads (left - min left ?m) (seen + min left ?m) max_bytes (remaining - min left ?m))"
    by (subst hash_reads.simps) (simp only: Let_def)
qed

lemma hash_reads_within:
  "seen \<le> max_bytes \<Longrightarrow> fst (hash_reads left seen max_bytes remaining) = None \<longleftrightarrow> seen + left \<le> max_bytes \<and> left \<le> remaining"
proof (induction left arbitrary: seen remaining rule: less_induct)
  case (less left)
  obtain c where c: "c \<le> left" "c = 0 \<longleftrightarrow> left = 0"
    "hash_reads left seen max_bytes remaining =
      (if c = 0 then (None, remaining) else if max_bytes < seen + c then (Some FileSizeLimitExceeded, remaining)
       else if remaining < c then (Some HashReadBudgetExceeded, remaining) else hash_reads (left - c) (seen + c) max_bytes (remaining - c))"
    by (rule hash_reads_step)
  show ?case
  proof (cases "c \<noteq> 0 \<and> seen + c \<le> max_bytes \<and> c \<le> remaining")
    case True
    with c(1) less.IH [of "left - c" "seen + c" "remaining - c"] show ?thesis unfolding c(3) by auto
  next
    case False
    with c(1,2) less.prems show ?thesis unfolding c(3) by auto
  qed
qed

lemma sha256_file_Inr: "fst (sha256_file env mx n r) = Inr h \<Longrightarrow> \<exists>b. n = File b \<and> h = sha256_bytes env b \<and> length b \<le> mx"
proof -
  assume "fst (sha256_file env mx n r) = Inr h"
  then obtain b where b: "n = File b" "h = sha256_bytes env b" "fst (hash_reads (length b) 0 mx r) = None"
    by (auto simp: sha256_file_def split: node.splits prod.splits option.splits)
  with hash_reads_within [of 0 mx "length b" r] show ?thesis by simp
qed

section \<open>JSON files\<close>

definition load_json_value :: "pack_env \<Rightarrow> nat \<Rightarrow> node \<Rightarrow> pyval res" where
  "load_json_value env max_bytes n =
     bindr (read_bounded_bytes max_bytes n) (\<lambda>b. case utf8_decode b of
         None \<Rightarrow> Inl (PyValueError ''invalid UTF-8'')
       | Some text \<Rightarrow> loads_json_value (pk_limit env) text)"

definition load_json :: "pack_env \<Rightarrow> nat \<Rightarrow> node \<Rightarrow> pydict res" where
  "load_json env max_bytes n = bindr (load_json_value env max_bytes n) (\<lambda>v. case v of
       PDict d \<Rightarrow> Inr d
     | _ \<Rightarrow> Inl (PyValueError ''JSON root must be an object''))"

definition MAX_CONTRACTS_JSON_BYTES :: nat where
  "MAX_CONTRACTS_JSON_BYTES = 8 * 1024 * 1024"

text \<open>Contracts keep the constants that are no JSON numbers.\<close>

definition python_constant :: "string \<Rightarrow> pyval res" where
  "python_constant c = Inr (PFloat (if c = ''NaN'' then NaN else if c = ''Infinity'' then PosInf else NegInf))"

definition contract_hooks :: json_hooks where
  "contract_hooks = \<lparr>pairs_hook = json_object_without_duplicates, constant_hook = python_constant\<rparr>"

definition load_contract_snapshot :: "pack_env \<Rightarrow> node \<Rightarrow> pydict res" where
  "load_contract_snapshot env n =
     bindr (read_bounded_bytes MAX_CONTRACTS_JSON_BYTES n) (\<lambda>b. case utf8_decode b of
         None \<Rightarrow> Inl (PyValueError ''invalid UTF-8'')
       | Some text \<Rightarrow>
           bindr (check_json_structural_token_budget (Some MAX_JSON_CONTAINER_DEPTH) text) (\<lambda>_.
           bindr (json_loads contract_hooks (pk_limit env) text) (\<lambda>v. case v of
               PDict d \<Rightarrow> Inr d
             | _ \<Rightarrow> Inl (PyValueError ''contracts.json root must be an object''))))"

definition load_verifications_json :: "pack_env \<Rightarrow> string option \<Rightarrow> node \<Rightarrow> pydict res" where
  "load_verifications_json env expected n = bindr (read_bounded_bytes MAX_VERIFICATIONS_JSON_BYTES n) (load_verifications env expected)"

end
