(* ===== verification/Pack_Signature.thy ===== *)
theory Pack_Signature
  imports Pack_Files Pack_Ed25519
begin

text \<open>
  The two files of an evidence pack that its manifest does not list, in \<^verbatim>\<open>pack_verify.py\<close>: the signature over the bytes of the
  manifest and of the anchors (\<^verbatim>\<open>_signature_problems\<close>), and the declared anchors (\<^verbatim>\<open>validate_anchor_bundle\<close>).
  The theorem says what an accepted signature covers.
\<close>

section \<open>The signature record\<close>

definition SIGNATURE_FIELDS :: "string list" where
  "SIGNATURE_FIELDS = [''schema_version'', ''algorithm'', ''public_key'', ''signature'', ''key_fingerprint'', ''signed_object'', ''signed_digest'',
     ''anchors_included'', ''signed_at'']"

definition SIGNATURE_MESSAGE_PREFIX :: string where
  "SIGNATURE_MESSAGE_PREFIX = ''icode-pack-signature-v1'' @ [CHR 10]"

definition MAX_SIGNATURE_JSON_BYTES :: nat where
  "MAX_SIGNATURE_JSON_BYTES = 64 * 1024"

definition MAX_ANCHORS_JSON_BYTES :: nat where
  "MAX_ANCHORS_JSON_BYTES = 256 * 1024"

definition MAX_MANIFEST_JSON_BYTES :: nat where
  "MAX_MANIFEST_JSON_BYTES = 16 * 1024 * 1024"

text \<open>\<^verbatim>\<open>except (OSError, ValueError, RecursionError)\<close>.\<close>

definition read_error :: "exc \<Rightarrow> bool" where
  "read_error e = (case e of PyOSError \<Rightarrow> True | PyValueError _ \<Rightarrow> True | PyRecursionError \<Rightarrow> True | _ \<Rightarrow> False)"

text \<open>\<^verbatim>\<open>bytes.fromhex\<close>: two digits per byte, of either case, with white space between bytes.\<close>

definition is_hex_digit :: "char \<Rightarrow> bool" where
  "is_hex_digit c \<longleftrightarrow> is_hex_lower (lower_char c)"

definition is_hex_space :: "char \<Rightarrow> bool" where
  "is_hex_space c \<longleftrightarrow> c = CHR 32 \<or> (let n = (of_char c :: nat) in 9 \<le> n \<and> n \<le> 13)"

fun bytes_fromhex :: "string \<Rightarrow> string res" where
  "bytes_fromhex [] = Inr []"
| "bytes_fromhex (a # s) =
     (if is_hex_space a then bytes_fromhex s
      else case s of [] \<Rightarrow> Inl (PyValueError ''non-hexadecimal number'')
        | b # s' \<Rightarrow>
            if is_hex_digit a \<and> is_hex_digit b
            then bindr (bytes_fromhex s') (\<lambda>bytes. Inr (char_of (16 * hex_val (lower_char a) + hex_val (lower_char b)) # bytes))
            else Inl (PyValueError ''non-hexadecimal number''))"

definition hex_bytes :: "pyval \<Rightarrow> nat \<Rightarrow> string option" where
  "hex_bytes v byte_len = (case v of
       PStr s \<Rightarrow> if length s = byte_len * 2 \<and> s \<noteq> [] \<and> list_all is_hex_lower s then Some (from_hex s) else None
     | _ \<Rightarrow> None)"

definition problem_if :: "bool \<Rightarrow> string \<Rightarrow> problem list" where
  "problem_if b msg = (if b then [Problem msg []] else [])"

text \<open>The names a record lacks and those it should not have, each list sorted.\<close>

definition field_problems :: "string \<Rightarrow> string list \<Rightarrow> pyval list \<Rightarrow> pydict \<Rightarrow> problem list" where
  "field_problems what names label d =
     (let missing = sort (filter (\<lambda>f. \<not> has_key d f) names);
          extra = sort (filter (\<lambda>k. k \<notin> set names) (strs_of (dict_keys d)))
      in (if missing \<noteq> [] then [Problem (what @ '' lacks fields'') (label @ map PStr missing)] else [])
         @ (if extra \<noteq> [] then [Problem (what @ '' has unknown fields'') (label @ map PStr extra)] else []))"

text \<open>What the signature says about the anchors: an early return, or problems and the signed bytes.\<close>

definition signed_anchors :: "pyval \<Rightarrow> node option \<Rightarrow> (problem + problem list \<times> string option) res" where
  "signed_anchors included anchors = (case included of
       PBool True \<Rightarrow>
         (case anchors of
            None \<Rightarrow> Inr (Inr ([Problem ''signature covers anchors.json, which is missing'' []], None))
          | Some n \<Rightarrow> (case read_bounded_bytes MAX_ANCHORS_JSON_BYTES n of
                Inr b \<Rightarrow> Inr (Inr ([], Some b))
              | Inl e \<Rightarrow> if read_error e then Inr (Inl (Problem ''anchors.json cannot be read'' [])) else Inl e))
     | PBool False \<Rightarrow> Inr (Inr (problem_if (anchors \<noteq> None) ''signature does not cover anchors.json'', None))
     | _ \<Rightarrow> Inr (Inr ([Problem ''anchors_included is invalid'' []], None)))"

definition signed_message :: "string \<Rightarrow> string option \<Rightarrow> string" where
  "signed_message manifest_bytes anchors_bytes = SIGNATURE_MESSAGE_PREFIX @ manifest_bytes
     @ (case anchors_bytes of None \<Rightarrow> [] | Some b \<Rightarrow> [CHR 10] @ ''anchors.json'' @ [CHR 10] @ b)"

text \<open>The record once its fields are complete; \<^verbatim>\<open>fullmatch\<close> of a key that is no string raises.\<close>

definition signature_record :: "pack_env \<Rightarrow> pydict \<Rightarrow> pydict \<Rightarrow> node \<Rightarrow> node option \<Rightarrow> string \<Rightarrow> problem list res" where
  "signature_record env manifest rec manifest_file anchors key = (case pget rec ''public_key'' of
       PStr embedded \<Rightarrow>
         let p1 = problem_if (\<not> py_eq (pget rec ''schema_version'') (PInt 1)) ''signature schema_version is not supported''
               @ problem_if (pget rec ''algorithm'' \<noteq> PStr ''ed25519'') ''signature algorithm is not supported''
               @ problem_if (pget rec ''signed_object'' \<noteq> PStr ''manifest.json'') ''signed object is not supported'';
             p2 = p1 @ (if \<not> hex64_text embedded then [Problem ''signature public_key is invalid'' []]
                        else problem_if (embedded \<noteq> key) ''signature public_key differs from the given key'')
         in case read_bounded_bytes MAX_MANIFEST_JSON_BYTES manifest_file of
              Inl e \<Rightarrow> if read_error e then Inr (p2 @ [Problem ''manifest cannot be read'' []]) else Inl e
            | Inr manifest_bytes \<Rightarrow>
                bindr (signed_anchors (pget rec ''anchors_included'') anchors) (\<lambda>part. case part of
                  Inl p \<Rightarrow> Inr (p2 @ [p])
                | Inr (p3, anchors_bytes) \<Rightarrow>
                    let p4 = p2 @ p3 @ problem_if (\<not> py_eq (pget rec ''signed_digest'') (pget manifest ''pack_digest'')) ''signed_digest differs from pack_digest''
                          @ problem_if (\<not> str_with (\<lambda>s. s \<noteq> [] \<and> length s \<le> 64) (pget rec ''signed_at'')) ''signed_at is invalid''
                    in bindr (bytes_fromhex embedded) (\<lambda>key_bytes.
                       let p5 = p4 @ problem_if (pget rec ''key_fingerprint'' \<noteq> PStr (take 16 (sha256_bytes env key_bytes))) ''key_fingerprint differs from public_key''
                       in case hex_bytes (pget rec ''signature'') 64 of
                            None \<Rightarrow> Inr (p5 @ [Problem ''signature is invalid'' []])
                          | Some sig_bytes \<Rightarrow>
                              if p5 \<noteq> [] then Inr p5
                              else Inr (problem_if (\<not> ed25519_verify env (from_hex key) (signed_message manifest_bytes anchors_bytes) sig_bytes)
                                     ''signature does not verify'')))
     | _ \<Rightarrow> Inl (PyTypeError ''expected string or bytes-like object''))"

definition signature_problems :: "pack_env \<Rightarrow> pydict \<Rightarrow> node \<Rightarrow> node \<Rightarrow> node option \<Rightarrow> string option \<Rightarrow> problem list res" where
  "signature_problems env manifest signature_file manifest_file anchors public_key =
     (case public_key of
        None \<Rightarrow> Inr [Problem ''signed pack without a valid public key'' []]
      | Some key \<Rightarrow>
          if \<not> hex64_text key then Inr [Problem ''signed pack without a valid public key'' []]
          else (case load_json_value env MAX_SIGNATURE_JSON_BYTES signature_file of
              Inl e \<Rightarrow> if read_error e then Inr [Problem ''signature file cannot be parsed'' []] else Inl e
            | Inr (PDict rec) \<Rightarrow>
                if set (dict_keys rec) \<noteq> PStr ` set SIGNATURE_FIELDS then Inr (field_problems ''signature record'' SIGNATURE_FIELDS [] rec)
                else signature_record env manifest rec manifest_file anchors key
            | Inr _ \<Rightarrow> Inr [Problem ''signature file is no object'' []]))"

section \<open>The anchors\<close>

definition ANCHOR_TYPES :: "string list" where
  "ANCHOR_TYPES = [''git-tag'', ''ci-run'', ''rfc3161-file'', ''transparency-log-entry'']"

definition ANCHOR_RECORD_FIELDS :: "string list" where
  "ANCHOR_RECORD_FIELDS = [''type'', ''anchor_target'', ''anchor_time'', ''evidence'']"

definition ANCHOR_REQUIRED_EVIDENCE :: "(string \<times> string list) list" where
  "ANCHOR_REQUIRED_EVIDENCE = [(''git-tag'', [''tag'', ''repository'']), (''ci-run'', [''run_url'', ''run_id'', ''conclusion'']),
     (''rfc3161-file'', [''file_fingerprint'', ''hash_algorithm'']), (''transparency-log-entry'', [''log_id'', ''entry_url''])]"

definition ANCHOR_HTTPS_FIELDS :: "string list" where
  "ANCHOR_HTTPS_FIELDS = [''run_url'', ''entry_url'']"

definition MAX_ANCHOR_RECORDS :: nat where
  "MAX_ANCHOR_RECORDS = 256"

definition ANCHOR_FIELD_VALUE_MAX_CHARS :: nat where
  "ANCHOR_FIELD_VALUE_MAX_CHARS = 512"

definition anchor_text :: "pyval \<Rightarrow> bool" where
  "anchor_text v = str_with (\<lambda>s. s \<noteq> [] \<and> length s \<le> ANCHOR_FIELD_VALUE_MAX_CHARS) v"

definition evidence_problems :: "pyval \<Rightarrow> string list \<Rightarrow> pyval \<Rightarrow> problem list" where
  "evidence_problems label required v = (case v of
       PDict evidence \<Rightarrow>
         if set (dict_keys evidence) \<noteq> PStr ` set required then field_problems ''evidence'' required [label] evidence
         else concat (map (\<lambda>k. if anchor_text (pget evidence k) then [] else [Problem ''evidence field is invalid'' [label, PStr k]]) required)
           @ concat (map (\<lambda>k. if str_with (\<lambda>s. s \<noteq> [] \<and> \<not> starts_with ''https://'' s) (pget evidence k)
                             then [Problem ''evidence field must be an https URL'' [label, PStr k]] else [])
               (filter (\<lambda>k. k \<in> set ANCHOR_HTTPS_FIELDS) required))
     | _ \<Rightarrow> [Problem ''evidence is no object'' [label]])"

definition anchor_problems :: "string \<Rightarrow> pyval \<Rightarrow> pyval \<Rightarrow> problem list" where
  "anchor_problems digest label v = (case v of
       PDict record \<Rightarrow>
         if set (dict_keys record) \<noteq> PStr ` set ANCHOR_RECORD_FIELDS then field_problems ''anchor record'' ANCHOR_RECORD_FIELDS [label] record
         else (case pget record ''type'' of
             PStr t \<Rightarrow>
               (case dict_get ANCHOR_REQUIRED_EVIDENCE t of
                  None \<Rightarrow> [Problem ''anchor type is unknown'' [label, PStr t]]
                | Some required \<Rightarrow>
                    (if anchor_text (pget record ''anchor_time'') then [] else [Problem ''anchor_time is invalid'' [label]])
                    @ (if pget record ''anchor_target'' = PStr digest then [] else [Problem ''anchor_target differs from the pack digest'' [label]])
                    @ evidence_problems label required (pget record ''evidence''))
           | other \<Rightarrow> [Problem ''anchor type is unknown'' [label, other]])
     | _ \<Rightarrow> [Problem ''anchor record is no object'' [label]])"

definition validate_anchor_bundle :: "pyval \<Rightarrow> pyval \<Rightarrow> problem list" where
  "validate_anchor_bundle bundle pack_digest = (case bundle of
       PDict b \<Rightarrow>
         problem_if (\<not> py_eq (pget b ''schema_version'') (PInt 1)) ''anchors.json schema_version is not supported''
         @ (case pget b ''records'' of
              PList records \<Rightarrow>
                if MAX_ANCHOR_RECORDS < length records then [Problem ''anchors.json has too many records'' []]
                else (case pack_digest of
                    PStr digest \<Rightarrow>
                      if \<not> hex64_text digest then [Problem ''pack digest for the anchors is invalid'' []]
                      else concat (map (\<lambda>(i, r). anchor_problems digest (PInt (int i)) r) (zip [1..<Suc (length records)] records))
                  | _ \<Rightarrow> [Problem ''pack digest for the anchors is invalid'' []])
            | _ \<Rightarrow> [Problem ''anchors.json records are malformed'' []])
     | _ \<Rightarrow> [Problem ''anchors.json is no object'' []])"

section \<open>What an accepted signature covers\<close>

lemma problem_if_Nil [simp]: "problem_if b msg = [] \<longleftrightarrow> \<not> b"
  by (simp add: problem_if_def)

declare py_eq.simps [simp del]

lemma sort_Nil_iff [simp]: "sort xs = [] \<longleftrightarrow> xs = []"
  by (metis set_empty set_sort)

lemma has_key_iff: "has_key d k \<longleftrightarrow> PStr k \<in> set (dict_keys d)"
  by (auto simp: has_key_def dict_get_mem map_of_eq_None_iff image_iff)

lemma strs_of_PStr [simp]: "strs_of (map PStr ks) = ks"
  by (induction ks) simp_all

lemma field_problems_Nil:
  assumes "field_problems what names label d = []" "dict_keys d = map PStr ks"
  shows "set (dict_keys d) = PStr ` set names"
proof -
  have "set ks \<subseteq> set names" "\<forall>f\<in>set names. PStr f \<in> PStr ` set ks"
    using assms by (auto simp: field_problems_def Let_def filter_empty_conv has_key_iff split: if_splits)
  then show ?thesis using assms(2) by auto
qed

lemma signed_anchors_Inr:
  "signed_anchors included anchors = Inr (Inr ([], bytes)) \<Longrightarrow>
    case anchors of None \<Rightarrow> bytes = None | Some n \<Rightarrow> \<exists>b. n = File b \<and> bytes = Some b"
  by (auto simp: signed_anchors_def problem_if_def read_bounded_bytes_Inr split: pyval.splits bool.splits option.splits sum.splits if_splits)

lemma signature_record_verified:
  assumes "signature_record env manifest rec mf anchors key = Inr []"
  shows "\<exists>mb bytes sig_bytes. mf = File mb \<and> signed_anchors (pget rec ''anchors_included'') anchors = Inr (Inr ([], bytes))
    \<and> hex_bytes (pget rec ''signature'') 64 = Some sig_bytes \<and> ed25519_verify env (from_hex key) (signed_message mb bytes) sig_bytes
    \<and> py_eq (pget rec ''signed_digest'') (pget manifest ''pack_digest'')"
proof -
  obtain embedded where e: "pget rec ''public_key'' = PStr embedded"
    using assms by (auto simp: signature_record_def split: pyval.split_asm)
  obtain mb where mb: "read_bounded_bytes MAX_MANIFEST_JSON_BYTES mf = Inr mb"
    using assms by (cases "read_bounded_bytes MAX_MANIFEST_JSON_BYTES mf") (auto simp: signature_record_def e Let_def split: if_split_asm)
  obtain ps bytes where a: "signed_anchors (pget rec ''anchors_included'') anchors = Inr (Inr (ps, bytes))"
  proof (cases "signed_anchors (pget rec ''anchors_included'') anchors")
    case (Inl x)
    with assms show thesis by (simp add: signature_record_def e mb Let_def)
  next
    case (Inr part)
    with assms that show thesis by (cases part) (auto simp: signature_record_def e mb Let_def)
  qed
  obtain kb where kb: "bytes_fromhex embedded = Inr kb"
    using assms that by (cases "bytes_fromhex embedded") (simp_all add: signature_record_def e mb a Let_def)
  obtain sig_bytes where sig: "hex_bytes (pget rec ''signature'') 64 = Some sig_bytes"
    using assms by (auto simp: signature_record_def e mb a kb Let_def split: option.split_asm)
  have "ps = [] \<and> ed25519_verify env (from_hex key) (signed_message mb bytes) sig_bytes
      \<and> py_eq (pget rec ''signed_digest'') (pget manifest ''pack_digest'')"
    using assms by (auto simp: signature_record_def e mb a kb sig Let_def split: if_split_asm)
  with mb a sig show ?thesis by (auto simp: read_bounded_bytes_Inr)
qed

text \<open>
  The signature report is empty only when the signature in the file verifies, under the given key, for the bytes of the manifest
  and of the anchors that are there.
\<close>

definition signature_ok :: "pack_env \<Rightarrow> node \<Rightarrow> node \<Rightarrow> node option \<Rightarrow> string option \<Rightarrow> bool" where
  "signature_ok env signature_file manifest_file anchors public_key \<longleftrightarrow>
     (\<exists>key rec mb bytes sig_bytes. public_key = Some key \<and> hex64_text key \<and> load_json_value env MAX_SIGNATURE_JSON_BYTES signature_file = Inr (PDict rec)
       \<and> manifest_file = File mb \<and> anchors = map_option File bytes \<and> hex_bytes (pget rec ''signature'') 64 = Some sig_bytes
       \<and> ed25519_verify env (from_hex key) (signed_message mb bytes) sig_bytes)"

lemma loaded_keys: "load_json_value env mx n = Inr (PDict d) \<Longrightarrow> \<exists>ks. dict_keys d = map PStr ks"
proof -
  assume "load_json_value env mx n = Inr (PDict d)"
  then have "json_val (PDict d)"
    by (auto simp: load_json_value_def bindr_eq_Inr_iff simp del: json_val.simps split: option.splits dest: loads_json_value_val)
  then have "\<forall>k\<in>set (dict_keys d). \<exists>s. k = PStr s" by (auto simp: list_all_iff)
  then show ?thesis by (simp only: ex_map_conv)
qed

lemma signature_problems_Nil:
  assumes "signature_problems env manifest sf mf anchors public_key = Inr []"
  shows "signature_ok env sf mf anchors public_key"
proof -
  obtain key where k: "public_key = Some key" "hex64_text key"
    using assms by (cases public_key) (auto simp: signature_problems_def split: if_split_asm)
  obtain v where v: "load_json_value env MAX_SIGNATURE_JSON_BYTES sf = Inr v"
    using assms k that by (cases "load_json_value env MAX_SIGNATURE_JSON_BYTES sf") (auto simp: signature_problems_def split: if_split_asm)
  obtain rec where r: "v = PDict rec" using assms k v by (cases v) (auto simp: signature_problems_def)
  obtain ks where "dict_keys rec = map PStr ks" using loaded_keys v r by blast
  then have "signature_record env manifest rec mf anchors key = Inr []"
    using assms k v r field_problems_Nil [of "''signature record''" SIGNATURE_FIELDS "[]" rec ks] by (auto simp: signature_problems_def split: if_split_asm)
  from signature_record_verified [OF this] obtain mb bytes sig_bytes where s: "mf = File mb"
    "signed_anchors (pget rec ''anchors_included'') anchors = Inr (Inr ([], bytes))" "hex_bytes (pget rec ''signature'') 64 = Some sig_bytes"
    "ed25519_verify env (from_hex key) (signed_message mb bytes) sig_bytes" by blast
  moreover have "anchors = map_option File bytes" using signed_anchors_Inr [OF s(2)] by (cases anchors) auto
  ultimately show ?thesis using k v r unfolding signature_ok_def by blast
qed

end
