(* ===== verification/Pack_Verify.thy ===== *)
theory Pack_Verify
  imports Pack_Signature
begin

text \<open>
  The verification of a whole evidence pack: \<^verbatim>\<open>verify_pack\<close>, \<^verbatim>\<open>_verify_artifact_binding\<close> and \<^verbatim>\<open>main\<close> of \<^verbatim>\<open>pack_verify.py\<close>. Each
  step takes the problem collector and gives it back; an exception that the source does not catch is the error of
  the result. The theorems say what an accepted pack is: every listed file is there with its digest, no other file and
  no link is, the digest of the pack is the declared one, the event chain is accepted against the metadata and
  contracts of the pack, and every recorded artifact has its snapshot.
\<close>

section \<open>Members of the pack\<close>

definition MANIFEST_NAME :: string where
  "MANIFEST_NAME = ''manifest.json''"

definition EVENTS_REL :: string where
  "EVENTS_REL = ''ticket/events.jsonl''"

definition METADATA_REL :: string where
  "METADATA_REL = ''ticket/metadata.json''"

definition SIGNATURE_NAME :: string where
  "SIGNATURE_NAME = ''signature.json''"

definition ANCHORS_NAME :: string where
  "ANCHORS_NAME = ''anchors.json''"

definition MAX_METADATA_JSON_BYTES :: nat where
  "MAX_METADATA_JSON_BYTES = 8 * 1024 * 1024"

definition MAX_ARTIFACT_INDEX_JSON_BYTES :: nat where
  "MAX_ARTIFACT_INDEX_JSON_BYTES = 8 * 1024 * 1024"

definition MAX_MANIFEST_FILE_ENTRIES :: nat where
  "MAX_MANIFEST_FILE_ENTRIES = 50000"

definition MAX_ARTIFACT_INDEX_ENTRIES :: nat where
  "MAX_ARTIFACT_INDEX_ENTRIES = 50000"

definition MAX_PACKAGE_FILE_BYTES :: nat where
  "MAX_PACKAGE_FILE_BYTES = 256 * 1024 * 1024"

definition MAX_PACKAGE_HASH_READ_BYTES :: nat where
  "MAX_PACKAGE_HASH_READ_BYTES = 4 * 1024 * 1024 * 1024"

definition MAX_PACKAGE_ARTIFACT_BYTES :: nat where
  "MAX_PACKAGE_ARTIFACT_BYTES = 256 * 1024 * 1024"

text \<open>A member as the source looks it up: a refused path, no regular file, or the file.\<close>

datatype member = Bad_path | Missing | Member node

definition member :: "node \<Rightarrow> string \<Rightarrow> member" where
  "member pack rel = (case package_member_path pack rel of None \<Rightarrow> Bad_path
     | Some parts \<Rightarrow> (case node_at pack parts of None \<Rightarrow> Missing | Some n \<Rightarrow> if is_file (Some n) then Member n else Missing))"

definition optional_file :: "node \<Rightarrow> string \<Rightarrow> node option" where
  "optional_file pack rel = (case member pack rel of Member n \<Rightarrow> Some n | _ \<Rightarrow> None)"

text \<open>A list of messages that is no bounded report counts its own items.\<close>

definition plain_report :: "problem list \<Rightarrow> bounded_report" where
  "plain_report ps = \<lparr>br_values = ps, br_total_count = length ps, br_sample_count = length ps, br_summaries = []\<rparr>"

section \<open>The listed files\<close>

record pack_entry =
  pe_path :: string
  pe_sha256 :: string
  pe_size :: pyval

definition manifest_file_list :: "pydict \<Rightarrow> problem_collector \<Rightarrow> pyval list \<times> problem_collector" where
  "manifest_file_list manifest c =
     (let (vs, c1) = (case pget manifest ''files'' of
            PNone \<Rightarrow> ([], c)
          | PList vs \<Rightarrow> if MAX_MANIFEST_FILE_ENTRIES < length vs then ([], pc_append (Problem ''manifest has too many files'' []) c) else (vs, c)
          | _ \<Rightarrow> ([], pc_append (Problem ''manifest files are malformed'' []) c))
      in (vs, note_if (vs = []) (Problem ''manifest files are empty'' []) c1))"

definition read_entry :: "pyval \<Rightarrow> string + pack_entry" where
  "read_entry v = (case as_dict v of
       None \<Rightarrow> Inl ''manifest file is no object''
     | Some e \<Rightarrow> (case (as_str (pget e ''path''), as_str (pget e ''sha256'')) of
           (Some p, Some h) \<Rightarrow> Inr \<lparr>pe_path = p, pe_sha256 = h, pe_size = pget e ''size''\<rparr>
         | _ \<Rightarrow> Inl ''manifest file lacks path or sha256''))"

fun manifest_entries :: "nat \<Rightarrow> pyval list \<Rightarrow> string set \<Rightarrow> problem_collector \<Rightarrow> pack_entry list \<times> problem_collector" where
  "manifest_entries i [] seen c = ([], c)"
| "manifest_entries i (v # vs) seen c = (case read_entry v of
       Inl msg \<Rightarrow> manifest_entries (Suc i) vs seen (pc_append (Problem msg [PInt (int i)]) c)
     | Inr e \<Rightarrow>
         if pe_path e \<in> seen then manifest_entries (Suc i) vs seen (pc_append (Problem ''manifest file is listed twice'' [PInt (int i)]) c)
         else (case manifest_entries (Suc i) vs (insert (pe_path e) seen) c of (es, c') \<Rightarrow> (e # es, c')))"

definition json_limit :: "string \<Rightarrow> nat option" where
  "json_limit rel =
     (if rel = METADATA_REL then Some MAX_METADATA_JSON_BYTES
      else if rel = ''artifacts.json'' then Some MAX_ARTIFACT_INDEX_JSON_BYTES
      else if rel = ''contracts.json'' then Some MAX_CONTRACTS_JSON_BYTES
      else None)"

definition file_limit :: "string \<Rightarrow> nat" where
  "file_limit rel =
     (let l1 = (if rel = EVENTS_REL then min MAX_PACKAGE_FILE_BYTES MAX_EVENT_CHAIN_TOTAL_BYTES else MAX_PACKAGE_FILE_BYTES)
      in case json_limit rel of None \<Rightarrow> l1 | Some l \<Rightarrow> min l1 l)"

definition over_limit_problem :: "string \<Rightarrow> problem" where
  "over_limit_problem rel =
     (if rel = EVENTS_REL then Problem ''event chain is too long'' []
      else if json_limit rel \<noteq> None then Problem ''listed control JSON is too long'' []
      else Problem ''listed file is too long'' [])"

text \<open>\<^verbatim>\<open>isinstance(size, int) and st_size != size\<close>.\<close>

definition size_differs :: "pyval \<Rightarrow> nat \<Rightarrow> bool" where
  "size_differs v n = (case v of PInt i \<Rightarrow> i \<noteq> int n | PBool b \<Rightarrow> n \<noteq> (if b then 1 else 0) | _ \<Rightarrow> False)"

text \<open>One listed file that is there. The flag says that the shared budget is used up, which ends the loop.\<close>

definition hash_entry :: "pack_env \<Rightarrow> pack_entry \<Rightarrow> node \<Rightarrow> problem_collector \<Rightarrow> nat \<Rightarrow> (bool \<times> problem_collector \<times> nat) res" where
  "hash_entry env e n c remaining =
     (let rel = pe_path e; size = node_size n
      in if MAX_PACKAGE_FILE_BYTES < size then Inr (False, pc_append (Problem ''listed file is too long'' []) c, remaining)
         else if rel = EVENTS_REL \<and> MAX_EVENT_CHAIN_TOTAL_BYTES < size then Inr (False, pc_append (Problem ''event chain is too long'' []) c, remaining)
         else if (case json_limit rel of None \<Rightarrow> False | Some l \<Rightarrow> l < size)
         then Inr (False, pc_append (Problem ''listed control JSON is too long'' []) c, remaining)
         else (case sha256_file env (file_limit rel) n remaining of
             (Inr actual, r) \<Rightarrow> Inr (False,
                 note_if (size_differs (pe_size e) size) (Problem ''listed file has another size'' [PStr rel])
                   (note_if (actual \<noteq> pe_sha256 e) (Problem ''listed file has another digest'' [PStr rel, PStr (pe_sha256 e), PStr actual]) c), r)
           | (Inl FileSizeLimitExceeded, r) \<Rightarrow> Inr (False, pc_append (over_limit_problem rel) c, r)
           | (Inl HashReadBudgetExceeded, r) \<Rightarrow> Inr (True, pc_append (Problem ''hash budget is used up'' []) c, r)
           | (Inl x, r) \<Rightarrow> Inl x))"

definition check_entry :: "pack_env \<Rightarrow> node \<Rightarrow> pack_entry \<Rightarrow> problem_collector \<Rightarrow> nat \<Rightarrow> (bool \<times> problem_collector \<times> nat) res" where
  "check_entry env pack e c remaining = (case member pack (pe_path e) of
       Bad_path \<Rightarrow> Inr (False, pc_append (Problem ''listed path is invalid'' []) c, remaining)
     | Missing \<Rightarrow> Inr (False, pc_append (Problem ''listed file is missing'' [PStr (pe_path e)]) c, remaining)
     | Member n \<Rightarrow> hash_entry env e n c remaining)"

fun check_entries :: "pack_env \<Rightarrow> node \<Rightarrow> pack_entry list \<Rightarrow> problem_collector \<Rightarrow> nat \<Rightarrow> (bool \<times> problem_collector \<times> nat) res" where
  "check_entries env pack [] c remaining = Inr (False, c, remaining)"
| "check_entries env pack (e # es) c remaining =
     bindr (check_entry env pack e c remaining) (\<lambda>(stop, c', r). if stop then Inr (True, c', r) else check_entries env pack es c' r)"

section \<open>The digest of the pack and the files that are not listed\<close>

definition digest_text :: "pack_env \<Rightarrow> pack_entry list \<Rightarrow> string" where
  "digest_text env entries =
     (let material = map (\<lambda>e. PDict [(PStr ''path'', PStr (pe_path e)), (PStr ''sha256'', PStr (pe_sha256 e))]) (sort_key pe_path entries)
      in utf8 (canon env (PList material)))"

definition pack_digest :: "pack_env \<Rightarrow> pack_entry list \<Rightarrow> string" where
  "pack_digest env entries = sha256_bytes env (digest_text env entries)"

definition digest_problem :: "pack_env \<Rightarrow> pydict \<Rightarrow> pack_entry list \<Rightarrow> problem_collector \<Rightarrow> problem_collector" where
  "digest_problem env manifest entries c =
     (let declared = pget manifest ''pack_digest''
      in if truthy declared
         then note_if (declared \<noteq> PStr (pack_digest env entries)) (Problem ''pack digest differs'' [declared, PStr (pack_digest env entries)]) c
         else pc_append (Problem ''manifest lacks pack_digest'' []) c)"

definition extra_file :: "string list \<Rightarrow> string list \<times> entry_kind \<Rightarrow> problem_collector \<Rightarrow> problem_collector" where
  "extra_file listed x c = (case x of (path, kind) \<Rightarrow>
     (let rel = join ''/'' path
      in case kind of
           Kind_file \<Rightarrow> note_if (last path \<noteq> MANIFEST_NAME \<and> rel \<notin> set listed \<and> rel \<notin> {SIGNATURE_NAME, ANCHORS_NAME})
             (Problem ''file is not listed'' [PStr rel]) c
         | _ \<Rightarrow> pc_append (Problem ''link or special file'' [PStr rel]) c))"

definition extra_files :: "node \<Rightarrow> pack_entry list \<Rightarrow> problem_collector \<Rightarrow> problem_collector" where
  "extra_files pack entries c = (case walk_entries [([], pack)] 0 of (found, result) \<Rightarrow>
     (let c1 = fold (extra_file (map pe_path entries)) found c
      in case result of
           Walk_complete \<Rightarrow> c1
         | Walk_over_limit \<Rightarrow> pc_append (Problem ''pack has too many entries'' []) c1
         | Walk_failed \<Rightarrow> pc_append (Problem ''pack cannot be listed'' []) c1))"

section \<open>Signature, identity, metadata, contracts\<close>

definition signature_part :: "pack_env \<Rightarrow> pydict \<Rightarrow> node \<Rightarrow> node \<Rightarrow> string option \<Rightarrow> bool \<Rightarrow> problem_collector \<Rightarrow> problem_collector res" where
  "signature_part env manifest pack manifest_file public_key require_signature c =
     (let anchors = optional_file pack ANCHORS_NAME
      in case optional_file pack SIGNATURE_NAME of
           Some signature_file \<Rightarrow>
             bindr (signature_problems env manifest signature_file manifest_file anchors public_key) (\<lambda>ps. Inr (pc_extend_list ps c))
         | None \<Rightarrow>
             let c1 = note_if require_signature (Problem ''signature.json is required'' []) c
             in case anchors of
                  None \<Rightarrow> Inr c1
                | Some n \<Rightarrow> (case load_json_value env MAX_ANCHORS_JSON_BYTES n of
                      Inl e \<Rightarrow> if read_error e then Inr (pc_append (Problem ''anchors.json cannot be parsed'' []) c1) else Inl e
                    | Inr v \<Rightarrow> Inr (pc_extend_list (validate_anchor_bundle v (pget manifest ''pack_digest'')) c1)))"

definition ticket_id_of :: "pyval \<Rightarrow> string option" where
  "ticket_id_of v = (case v of PStr s \<Rightarrow> if s = [] then None else Some s | _ \<Rightarrow> None)"

definition manifest_ticket :: "pydict \<Rightarrow> problem_collector \<Rightarrow> string option \<times> problem_collector" where
  "manifest_ticket manifest c = (case pget manifest ''ticket'' of
       PDict t \<Rightarrow>
         (let found = ticket_id_of (pget t ''ticket_id'') in (found, note_if (found = None) (Problem ''manifest ticket_id is invalid'' []) c))
     | _ \<Rightarrow> (None, pc_append (Problem ''manifest ticket is no object'' []) c))"

definition metadata_part :: "pack_env \<Rightarrow> node \<Rightarrow> problem_collector \<Rightarrow> (pydict option \<times> string option \<times> problem_collector) res" where
  "metadata_part env pack c = (case member pack METADATA_REL of
       Bad_path \<Rightarrow> Inr (None, None, pc_append (Problem ''metadata path is invalid'' []) c)
     | Missing \<Rightarrow> Inr (None, None, pc_append (Problem ''metadata is missing'' []) c)
     | Member n \<Rightarrow> (case load_json env MAX_METADATA_JSON_BYTES n of
           Inl e \<Rightarrow> if read_error e then Inr (None, None, pc_append (Problem ''metadata cannot be parsed'' []) c) else Inl e
         | Inr md \<Rightarrow>
             let found = ticket_id_of (pget md ''ticket_id'')
             in Inr (Some md, found, note_if (found = None) (Problem ''metadata ticket_id is invalid'' []) c)))"

record contract_parts =
  cn_state_machine :: "pyval option"
  cn_execution_model :: "pyval option"
  cn_completion_receipt :: "pyval option"

definition contract_part :: "pack_env \<Rightarrow> node \<Rightarrow> problem_collector \<Rightarrow> (contract_parts \<times> problem_collector) res" where
  "contract_part env pack c =
     (let none = \<lparr>cn_state_machine = None, cn_execution_model = None, cn_completion_receipt = None\<rparr>
      in case member pack ''contracts.json'' of
           Bad_path \<Rightarrow> Inr (none, pc_append (Problem ''contracts.json path is invalid'' []) c)
         | Missing \<Rightarrow> Inr (none, c)
         | Member n \<Rightarrow> (case load_contract_snapshot env n of
               Inl e \<Rightarrow> if read_error e then Inr (none, pc_append (Problem ''contracts.json cannot be parsed'' []) c) else Inl e
             | Inr d \<Rightarrow>
                 let (sm, c1) = (if pget d ''state_machine'' = PNone then (None, c)
                       else case normalize_ticket_state_machine (pget d ''state_machine'') of
                           Inr m \<Rightarrow> (Some (state_machine_dict m), c)
                         | Inl _ \<Rightarrow> (None, pc_append (Problem ''contracts.json state_machine is malformed'' []) c));
                     (em, c2) = (if pget d ''execution_model'' = PNone then (None, c1)
                       else case normalize_execution_model True (pget d ''execution_model'') of
                           Inr m \<Rightarrow> (Some (execution_model_dict m), c1)
                         | Inl _ \<Rightarrow> (None, pc_append (Problem ''contracts.json execution_model is malformed'' []) c1))
                 in Inr (\<lparr>cn_state_machine = sm, cn_execution_model = em,
                      cn_completion_receipt = (if has_key d ''completion_receipt'' then Some (pget d ''completion_receipt'') else None)\<rparr>, c2)))"

text \<open>\<^verbatim>\<open>except (OSError, TypeError, ValueError, UnicodeError, RecursionError, OverflowError)\<close>.\<close>

definition verification_error :: "exc \<Rightarrow> bool" where
  "verification_error e = (read_error e \<or> (case e of PyTypeError _ \<Rightarrow> True | PyOverflowError \<Rightarrow> True | _ \<Rightarrow> False))"

definition verifications_part :: "pack_env \<Rightarrow> node \<Rightarrow> string option \<Rightarrow> problem_collector \<Rightarrow> problem_collector res" where
  "verifications_part env pack ticket c = (case member pack ''verifications.json'' of
       Bad_path \<Rightarrow> Inr (pc_append (Problem ''verifications.json path is invalid'' []) c)
     | Missing \<Rightarrow> Inr c
     | Member n \<Rightarrow> (case load_verifications_json env ticket n of
           Inr _ \<Rightarrow> Inr c
         | Inl e \<Rightarrow> if verification_error e then Inr (pc_append (Problem ''verifications.json is invalid'' []) c) else Inl e))"

section \<open>Artifacts\<close>

text \<open>The sizes of the distinct snapshots together: whether they go over the limit.\<close>

fun snapshots_too_long :: "node \<Rightarrow> pyval list \<Rightarrow> string set \<Rightarrow> nat \<Rightarrow> bool" where
  "snapshots_too_long pack [] seen bytes = False"
| "snapshots_too_long pack (v # vs) seen bytes =
     (case (case v of PDict d \<Rightarrow> pget d ''snapshot'' | _ \<Rightarrow> PNone) of
        PStr rel \<Rightarrow>
          if rel \<in> seen then snapshots_too_long pack vs seen bytes
          else (case optional_file pack rel of
              None \<Rightarrow> snapshots_too_long pack vs (insert rel seen) bytes
            | Some n \<Rightarrow>
                let bytes' = bytes + node_size n
                in MAX_PACKAGE_ARTIFACT_BYTES < bytes' \<or> snapshots_too_long pack vs (insert rel seen) bytes')
      | _ \<Rightarrow> snapshots_too_long pack vs seen bytes)"

record binding_state =
  ab_problems :: problem_collector
  ab_bound :: "string set"
  ab_incomplete :: bool
  ab_remaining :: nat

definition ab_note :: "bool \<Rightarrow> problem \<Rightarrow> binding_state \<Rightarrow> binding_state" where
  "ab_note b p st = st\<lparr>ab_problems := note_if b p (ab_problems st)\<rparr>"

text \<open>One item of the index; the flag says that the shared budget is used up.\<close>

definition bind_item :: "pack_env \<Rightarrow> node \<Rightarrow> artifact_facts \<Rightarrow> nat \<Rightarrow> pyval \<Rightarrow> binding_state \<Rightarrow> (bool \<times> binding_state) res" where
  "bind_item env pack facts i v st = (case v of
       PDict item \<Rightarrow> (case pget item ''snapshot'' of
           PStr rel \<Rightarrow>
             let raw = pget item ''chain_sha256''; chain_hash = py_str (pk_repr env) (if truthy raw then raw else PStr [])
             in (case member pack rel of
                   Bad_path \<Rightarrow> Inr (False, ab_note True (Problem ''snapshot path is invalid'' [PInt (int i)]) st)
                 | Missing \<Rightarrow> Inr (False, ab_note True (Problem ''snapshot is missing'' [PStr rel]) st)
                 | Member n \<Rightarrow> (case sha256_file env MAX_PACKAGE_FILE_BYTES n (ab_remaining st) of
                       (Inr actual, r) \<Rightarrow>
                         let s1 = ab_note (chain_hash \<noteq> [] \<and> actual \<noteq> chain_hash) (Problem ''snapshot differs from the chain'' [PStr rel]) (st\<lparr>ab_remaining := r\<rparr>);
                             s2 = ab_note (chain_hash \<noteq> [] \<and> chain_hash \<notin> set (dict_keys facts)) (Problem ''hash is not on the chain'' [PStr chain_hash]) s1
                         in Inr (False, s2\<lparr>ab_bound := insert actual (ab_bound s2)\<rparr>)
                     | (Inl FileSizeLimitExceeded, r) \<Rightarrow>
                         Inr (False, ab_note True (Problem ''snapshot is too long'' []) (st\<lparr>ab_remaining := r, ab_incomplete := True\<rparr>))
                     | (Inl HashReadBudgetExceeded, r) \<Rightarrow> Inr (True, ab_note True (Problem ''hash budget is used up'' []) (st\<lparr>ab_remaining := r\<rparr>))
                     | (Inl x, r) \<Rightarrow> Inl x))
         | _ \<Rightarrow> Inr (False, ab_note True (Problem ''snapshot path is invalid'' [PInt (int i)]) st))
     | _ \<Rightarrow> Inr (False, ab_note True (Problem ''artifact is no object'' [PInt (int i)]) st))"

fun bind_items :: "pack_env \<Rightarrow> node \<Rightarrow> artifact_facts \<Rightarrow> nat \<Rightarrow> pyval list \<Rightarrow> binding_state \<Rightarrow> (bool \<times> binding_state) res" where
  "bind_items env pack facts i [] st = Inr (False, st)"
| "bind_items env pack facts i (v # vs) st =
     bindr (bind_item env pack facts i v st) (\<lambda>(stop, st'). if stop then Inr (True, st') else bind_items env pack facts (Suc i) vs st')"

definition missing_artifacts :: "artifact_facts \<Rightarrow> string set \<Rightarrow> problem_collector \<Rightarrow> problem_collector" where
  "missing_artifacts facts bound c =
     fold (\<lambda>digest. pc_append (Problem ''artifact has no snapshot'' [PStr digest])) (sort (filter (\<lambda>k. k \<notin> bound) (dict_keys facts))) c"

definition bind_index :: "pack_env \<Rightarrow> node \<Rightarrow> artifact_facts \<Rightarrow> nat \<Rightarrow> pydict \<Rightarrow> bounded_report res" where
  "bind_index env pack facts remaining index =
     (let (items, c) = (case pget index ''artifacts'' of
            PNone \<Rightarrow> ([], mk_collector)
          | PList vs \<Rightarrow> (vs, mk_collector)
          | _ \<Rightarrow> ([], pc_append (Problem ''artifacts are malformed'' []) mk_collector))
      in if MAX_ARTIFACT_INDEX_ENTRIES < length items then Inr (pc_render (pc_append (Problem ''too many artifacts'' []) c))
         else if snapshots_too_long pack items {} 0 then Inr (pc_render (pc_append (Problem ''snapshots are too long together'' []) c))
         else bindr (bind_items env pack facts 1 items \<lparr>ab_problems = c, ab_bound = {}, ab_incomplete = False, ab_remaining = remaining\<rparr>)
           (\<lambda>(stop, st). Inr (pc_render
              (if stop \<or> ab_incomplete st then ab_problems st else missing_artifacts facts (ab_bound st) (ab_problems st)))))"

definition verify_artifact_binding :: "pack_env \<Rightarrow> node \<Rightarrow> artifact_facts \<Rightarrow> nat \<Rightarrow> bounded_report res" where
  "verify_artifact_binding env pack facts remaining =
     (let report = (\<lambda>msg. Inr (pc_render (pc_append (Problem msg []) mk_collector)))
      in if facts = [] then Inr (pc_render mk_collector)
         else case member pack ''artifacts.json'' of
             Bad_path \<Rightarrow> report ''artifacts.json path is invalid''
           | Missing \<Rightarrow> report ''artifacts.json is missing''
           | Member n \<Rightarrow> (case load_json env MAX_ARTIFACT_INDEX_JSON_BYTES n of
                 Inl e \<Rightarrow> if read_error e then report ''artifacts.json cannot be parsed'' else Inl e
               | Inr index \<Rightarrow> bind_index env pack facts remaining index))"

section \<open>The whole pack\<close>

definition expectations_of :: "pack_env \<Rightarrow> pydict option \<Rightarrow> string option \<Rightarrow> contract_parts \<Rightarrow> chain_expectations" where
  "expectations_of env metadata ticket cn = \<lparr>ce_ticket_id = ticket,
     ce_event_mirrors = map_option (\<lambda>md. PDict (map (\<lambda>(t, _). (PStr t, metadata_event_mirror_records (PDict md) t)) METADATA_EVENT_MIRROR_PATHS)) metadata,
     ce_agent_spawns = map_option (\<lambda>md. metadata_agent_spawn_records (PDict md)) metadata,
     ce_metadata_hash = map_option (\<lambda>md. PStr (metadata_content_hash env md)) metadata,
     ce_state_machine = cn_state_machine cn, ce_execution_model = cn_execution_model cn, ce_completion_receipt = cn_completion_receipt cn,
     ce_ticket_metadata = map_option PDict metadata\<rparr>"

definition chain_file_of :: "node \<Rightarrow> chain_file" where
  "chain_file_of n = (case n of File b \<Rightarrow> Chain_bytes b | Locked_file k \<Rightarrow> Chain_locked k | _ \<Rightarrow> Chain_locked 0)"

definition events_part :: "pack_env \<Rightarrow> node \<Rightarrow> chain_expectations \<Rightarrow> bool \<Rightarrow> nat \<Rightarrow> problem_collector \<Rightarrow> problem_collector res" where
  "events_part env pack ce exceeded remaining c =
     (let unreadable = (\<lambda>e c. if read_error e then Inr (pc_append (Problem ''event chain or artifact index cannot be read'' []) c) else Inl e)
      in case member pack EVENTS_REL of
           Bad_path \<Rightarrow> Inr (pc_append (Problem ''event chain path is invalid'' []) c)
         | Missing \<Rightarrow> Inr (pc_append (Problem ''event chain is missing'' []) c)
         | Member n \<Rightarrow> (case verify_event_chain env ce (chain_file_of n) of
               Inl e \<Rightarrow> unreadable e c
             | Inr (facts, report) \<Rightarrow>
                 let c1 = pc_extend_report report c
                 in if exceeded then Inr c1
                    else (case verify_artifact_binding env pack facts remaining of
                        Inl e \<Rightarrow> unreadable e c1
                      | Inr report2 \<Rightarrow> Inr (pc_extend_report report2 c1))))"

definition pack_body :: "pack_env \<Rightarrow> node \<Rightarrow> node \<Rightarrow> pydict \<Rightarrow> string option \<Rightarrow> bool \<Rightarrow> problem_collector res" where
  "pack_body env pack manifest_file manifest public_key require_signature =
     (let (vs, c1) = manifest_file_list manifest mk_collector;
          (entries, c2) = manifest_entries 1 vs {} c1
      in bindr (check_entries env pack entries c2 MAX_PACKAGE_HASH_READ_BYTES) (\<lambda>(exceeded, c3, remaining).
         bindr (signature_part env manifest pack manifest_file public_key require_signature
                  (extra_files pack entries (digest_problem env manifest entries c3))) (\<lambda>c4.
         let (ticket, c5) = manifest_ticket manifest c4
         in bindr (metadata_part env pack c5) (\<lambda>(metadata, metadata_ticket, c6).
            bindr (contract_part env pack c6) (\<lambda>(cn, c7).
            let c8 = note_if (ticket \<noteq> None \<and> metadata_ticket \<noteq> None \<and> ticket \<noteq> metadata_ticket) (Problem ''ticket ids of manifest and metadata differ'' []) c7
            in bindr (verifications_part env pack metadata_ticket c8) (\<lambda>c9.
               events_part env pack (expectations_of env metadata metadata_ticket cn) exceeded remaining c9))))))"

definition verify_pack :: "pack_env \<Rightarrow> node \<Rightarrow> string option \<Rightarrow> bool \<Rightarrow> bounded_report res" where
  "verify_pack env pack public_key require_signature = (case member pack MANIFEST_NAME of
       Bad_path \<Rightarrow> Inr (plain_report [Problem ''manifest path is invalid'' []])
     | Missing \<Rightarrow> Inr (plain_report [Problem ''manifest is missing'' []])
     | Member n \<Rightarrow> (case load_json env MAX_MANIFEST_JSON_BYTES n of
           Inl e \<Rightarrow> if read_error e then Inr (plain_report [Problem ''manifest cannot be parsed'' []]) else Inl e
         | Inr manifest \<Rightarrow> bindr (pack_body env pack n manifest public_key require_signature) (\<lambda>c. Inr (pc_render c))))"

definition pack_accepted :: "pack_env \<Rightarrow> node \<Rightarrow> string option \<Rightarrow> bool \<Rightarrow> bool" where
  "pack_accepted env pack public_key require_signature =
     (case verify_pack env pack public_key require_signature of Inr r \<Rightarrow> br_values r = [] | Inl _ \<Rightarrow> False)"

section \<open>The program\<close>

record cli_options =
  op_pack :: "string option"
  op_public_key :: "string option"
  op_require :: bool

fun parse_args :: "string list \<Rightarrow> cli_options \<Rightarrow> cli_options option" where
  "parse_args [] opts = Some opts"
| "parse_args (arg # rest) opts =
     (if arg = ''--verify-signature'' then parse_args rest opts
      else if arg = ''--require-signature'' then parse_args rest (opts\<lparr>op_require := True\<rparr>)
      else if arg = ''--public-key'' then (case rest of [] \<Rightarrow> None | key # rest' \<Rightarrow> parse_args rest' (opts\<lparr>op_public_key := Some key\<rparr>))
      else if starts_with ''--public-key='' arg then parse_args rest (opts\<lparr>op_public_key := Some (drop 13 arg)\<rparr>)
      else if starts_with ''--'' arg then None
      else if op_pack opts = None then parse_args rest (opts\<lparr>op_pack := Some arg\<rparr>)
      else None)"

text \<open>The exit code; \<open>lookup\<close> gives the directory a path leads to, if it leads to one.\<close>

definition main :: "pack_env \<Rightarrow> (string \<Rightarrow> node option) \<Rightarrow> string list \<Rightarrow> int res" where
  "main env lookup args = (case parse_args args \<lparr>op_pack = None, op_public_key = None, op_require = False\<rparr> of
       None \<Rightarrow> Inr 2
     | Some opts \<Rightarrow> (case op_pack opts of
           None \<Rightarrow> Inr 2
         | Some path \<Rightarrow>
             if (case op_public_key opts of None \<Rightarrow> False | Some key \<Rightarrow> \<not> hex64_text key) then Inr 2
             else (case lookup path of
                 None \<Rightarrow> Inr 2
               | Some pack \<Rightarrow> bindr (verify_pack env pack (op_public_key opts) (op_require opts)) (\<lambda>r. Inr (if br_values r \<noteq> [] then 1 else 0)))))"

end
