(* ===== verification/Pack_Accept.thy ===== *)
theory Pack_Accept
  imports Pack_Verify
begin

text \<open>
  What an accepted evidence pack is. Each step of the verification keeps the collector well formed and takes no problem back,
  so an empty report gives the positive fact of every step; the theorems put these facts together.
\<close>

declare py_eq.simps [simp del]

section \<open>Reports of the event chain\<close>

lemma chain_stop_ok: "collector_ok (ch_problems st) \<Longrightarrow> report_ok (snd (chain_stop facts st))"
  by (simp add: chain_stop_def)

lemma limit_stop_ok: "chain_ok st \<Longrightarrow> report_ok (snd (limit_stop p st))"
  unfolding limit_stop_def by (rule chain_stop_ok) (simp add: chain_rendered_ok)

lemma line_stop_ok: "chain_ok st \<Longrightarrow> report_ok (snd (line_stop p st))"
  unfolding line_stop_def by (rule chain_stop_ok) (simp add: chain_rendered_ok)

lemma chain_lines_report_ok: "chain_ok st \<Longrightarrow> chain_lines env ce n seen ls st = Inl (Inr r) \<Longrightarrow> report_ok (snd r)"
proof (induction env ce n seen ls st rule: chain_lines.induct)
  case (2 env ce lineno seen line rest st)
  show ?case
  proof (cases "loads_json_value (pk_limit env) (strip line)")
    case (Inl x)
    with 2 show ?thesis by (auto simp: Let_def limit_stop_ok line_stop_ok split: if_splits)
  next
    case (Inr v)
    with 2 show ?thesis by (cases v) (auto simp: Let_def limit_stop_ok line_stop_ok split: if_splits)
  qed
qed simp

lemma chain_end_report_ok:
  assumes "chain_ok st" "collector_ok (ts_problems (ch_ticket st))" "collector_ok (ex_problems (ch_execution st))"
  shows "report_ok (snd (chain_end env ce st))"
  using chain_rendered_ok [OF assms(1)] assms(2,3) by (simp add: chain_end_def Let_def mirror_leftovers_problems(2) ts_finish_ok ex_finish_def)

lemma verify_event_chain_report_ok:
  assumes "verify_event_chain env ce f = Inr r"
  shows "report_ok (snd r)"
proof -
  have ok: "chain_ok (init_chain ce)" by simp
  have stop: "report_ok (snd (chain_stop facts (ch_note b p st)))" if "chain_ok st" for facts b p st
    using that by (intro chain_stop_ok) (simp add: chain_ok_def)
  have stop2: "report_ok (snd (chain_stop [] (ch_note b p (chain_rendered st))))" if "chain_ok st" for b p st
    using that by (intro chain_stop_ok) (simp add: chain_rendered_ok)
  show ?thesis
  proof (cases "MAX_EVENT_CHAIN_TOTAL_BYTES < chain_size f")
    case True
    with assms stop [OF ok] show ?thesis by (auto simp: verify_event_chain_def Let_def)
  next
    case small: False
    show ?thesis
    proof (cases f)
      case (Chain_locked k)
      with assms small stop2 [OF ok] show ?thesis by (auto simp: verify_event_chain_def Let_def)
    next
      case (Chain_bytes bytes)
      show ?thesis
      proof (cases "chain_lines env ce 0 0 (fst (stream_lines bytes)) (init_chain ce)")
        case (Inl x)
        with assms small Chain_bytes show ?thesis by (auto simp: verify_event_chain_def Let_def dest!: chain_lines_report_ok [OF ok])
      next
        case (Inr st)
        have fold: "st = fold (chain_event env ce) (chain_events env bytes) (init_chain ce)"
          using chain_lines_events [OF Inr] by (simp add: event_texts_def chain_events_def)
        have stok: "chain_ok st" using fold by simp
        have "report_ok (snd (chain_stop [] (event_schema_problem (chain_rendered (ch_note True (Problem ''event chain cannot be read'' []) st)))))"
          using stok by (intro chain_stop_ok) (simp add: chain_rendered_ok)
        moreover have "report_ok (snd (chain_end env ce st))"
          using stok by (rule chain_end_report_ok) (simp_all add: fold fold_mirrors mk_execution_mirror_start)
        ultimately show ?thesis using assms small Chain_bytes Inr by (auto simp: verify_event_chain_def Let_def)
      qed
    qed
  qed
qed

section \<open>The listed files\<close>

lemma manifest_file_list_ok: "collector_ok c \<Longrightarrow> collector_ok (snd (manifest_file_list manifest c))"
  by (auto simp: manifest_file_list_def Let_def split: pyval.splits)

lemma manifest_file_list_clean:
  "clean (snd (manifest_file_list manifest c)) \<Longrightarrow> clean c \<and> pget manifest ''files'' = PList (fst (manifest_file_list manifest c))
     \<and> fst (manifest_file_list manifest c) \<noteq> []"
  by (auto simp: manifest_file_list_def Let_def split: pyval.splits if_splits)

lemma manifest_entries_ok: "collector_ok c \<Longrightarrow> collector_ok (snd (manifest_entries i vs seen c))"
proof (induction i vs seen c rule: manifest_entries.induct)
  case (2 i v vs seen c)
  then show ?case by (cases "read_entry v") (simp_all add: case_prod_beta)
qed simp

lemma manifest_entries_clean:
  "manifest_entries i vs seen c = (es, c') \<Longrightarrow> clean c' \<Longrightarrow>
    clean c \<and> list_all2 (\<lambda>v e. read_entry v = Inr e) vs es \<and> distinct (map pe_path es) \<and> set (map pe_path es) \<inter> seen = {}"
proof (induction i vs seen c arbitrary: es rule: manifest_entries.induct)
  case (2 i v vs seen c)
  obtain e where e: "read_entry v = Inr e"
  proof (cases "read_entry v")
    case (Inl msg)
    with "2.IH"(1) [OF this] "2.prems" show thesis by simp
  qed
  have fresh: "pe_path e \<notin> seen"
  proof
    assume "pe_path e \<in> seen"
    with "2.IH"(2) [OF e this] "2.prems" e show False by simp
  qed
  then obtain es' where es: "manifest_entries (Suc i) vs (insert (pe_path e) seen) c = (es', c')" "es = e # es'"
    using "2.prems"(1) e by (auto split: prod.splits)
  from "2.IH"(3) [OF e fresh es(1)] "2.prems"(2) e es(2) fresh show ?case by auto
qed simp

text \<open>A listed file as it must be there.\<close>

definition entry_present :: "pack_env \<Rightarrow> node \<Rightarrow> pack_entry \<Rightarrow> bool" where
  "entry_present env pack e \<longleftrightarrow> (\<exists>b. member pack (pe_path e) = Member (File b) \<and> pe_sha256 e = sha256_bytes env b
     \<and> \<not> size_differs (pe_size e) (length b) \<and> length b \<le> file_limit (pe_path e))"

lemma hash_entry_result:
  assumes "hash_entry env e n c remaining = Inr (stop, c', r)"
  shows "(collector_ok c \<longrightarrow> collector_ok c') \<and> (clean c' \<longrightarrow> clean c \<and> \<not> stop \<and>
    (\<exists>b. n = File b \<and> pe_sha256 e = sha256_bytes env b \<and> \<not> size_differs (pe_size e) (length b) \<and> length b \<le> file_limit (pe_path e)))"
proof -
  consider (limit) p where "c' = pc_append p c"
    | (hashed) h where "sha256_file env (file_limit (pe_path e)) n remaining = (Inr h, r)" "\<not> stop"
        "\<exists>m1 m2. c' = note_if (size_differs (pe_size e) (node_size n)) m1 (note_if (h \<noteq> pe_sha256 e) m2 c)"
    using assms by (auto simp: hash_entry_def Let_def split: if_splits prod.splits sum.splits exc.splits)
  then show ?thesis
  proof cases
    case hashed
    then obtain b where "n = File b" "h = sha256_bytes env b" "length b \<le> file_limit (pe_path e)"
      using sha256_file_Inr [of env "file_limit (pe_path e)" n remaining h] by auto
    with hashed show ?thesis by (auto simp: node_size_def)
  qed auto
qed

lemma check_entry_result:
  assumes "check_entry env pack e c remaining = Inr (stop, c', r)"
  shows "(collector_ok c \<longrightarrow> collector_ok c') \<and> (clean c' \<longrightarrow> clean c \<and> \<not> stop \<and> entry_present env pack e)"
  using assms hash_entry_result by (fastforce simp: check_entry_def entry_present_def split: member.splits)

lemma check_entries_result:
  "check_entries env pack es c remaining = Inr (stop, c', r) \<Longrightarrow>
    (collector_ok c \<longrightarrow> collector_ok c') \<and> (clean c' \<longrightarrow> clean c \<and> \<not> stop \<and> list_all (entry_present env pack) es)"
proof (induction es arbitrary: c remaining)
  case (Cons e es)
  then obtain stop1 c1 r1 where s: "check_entry env pack e c remaining = Inr (stop1, c1, r1)"
    "(if stop1 then Inr (True, c1, r1) else check_entries env pack es c1 r1) = Inr (stop, c', r)"
    by (auto simp: bindr_eq_Inr_iff)
  from check_entry_result [OF s(1)] s(2) Cons.IH show ?case by (cases stop1) auto
qed simp

section \<open>Digest and files that are not listed\<close>

lemma digest_problem_result:
  "collector_ok c \<Longrightarrow> collector_ok (digest_problem env manifest es c)"
  "clean (digest_problem env manifest es c) \<Longrightarrow> clean c \<and> pget manifest ''pack_digest'' = PStr (pack_digest env es)"
  by (auto simp: digest_problem_def Let_def split: if_splits)

interpretation extra: reporting_pass "extra_file listed" "\<lambda>c. c"
  by unfold_locales (auto simp: extra_file_def Let_def split: prod.splits entry_kind.splits)

lemma extra_files_ok: "collector_ok c \<Longrightarrow> collector_ok (extra_files pack es c)"
  by (auto simp: extra_files_def Let_def extra.pass_collector_ok split: prod.splits walk_end.splits)

lemma extra_files_clean:
  assumes "clean (extra_files pack es c)"
  shows "clean c \<and> (\<exists>found. walk_entries [([], pack)] 0 = (found, Walk_complete)
    \<and> (\<forall>(path, kind)\<in>set found. kind = Kind_file \<and> (last path = MANIFEST_NAME \<or> join ''/'' path \<in> set (map pe_path es) \<union> {SIGNATURE_NAME, ANCHORS_NAME})))"
proof -
  obtain found result where w: "walk_entries [([], pack)] 0 = (found, result)" by fastforce
  with assms have r: "result = Walk_complete" and c: "clean (fold (extra_file (map pe_path es)) found c)"
    by (auto simp: extra_files_def Let_def split: walk_end.splits)
  have "kind = Kind_file \<and> (last path = MANIFEST_NAME \<or> join ''/'' path \<in> set (map pe_path es) \<union> {SIGNATURE_NAME, ANCHORS_NAME})"
    if x: "(path, kind) \<in> set found" for path kind
  proof -
    obtain xs ys where "found = xs @ (path, kind) # ys" using split_list [OF x] by blast
    with c have "clean (extra_file (map pe_path es) (path, kind) (fold (extra_file (map pe_path es)) xs c))"
      using extra.pass_clean_at by metis
    then show ?thesis by (auto simp: extra_file_def Let_def split: entry_kind.splits)
  qed
  with w r extra.pass_clean [OF c] show ?thesis by blast
qed

text \<open>A complete walk has seen every node of the tree that is no directory, and no directory was closed to it.\<close>

lemma walk_complete:
  "walk_entries ps n = (found, Walk_complete) \<Longrightarrow> (path, dir) \<in> set ps \<Longrightarrow> node_at dir rel = Some m \<Longrightarrow>
    (rel = [] \<longrightarrow> (\<exists>es. dir = Folder es)) \<and> (rel \<noteq> [] \<longrightarrow> (case entry_kind m of Some k \<Rightarrow> (path @ rel, k) \<in> set found | None \<Rightarrow> \<exists>es. m = Folder es))"
proof (induction ps n arbitrary: found path dir rel rule: walk_entries.induct)
  case (2 p d pending n)
  obtain es where d: "d = Folder es" using "2.prems"(1) by (auto split: node.splits)
  define sorted where "sorted = sort_key fst es"
  define here where "here = concat (map (\<lambda>(name, n). case entry_kind n of None \<Rightarrow> [] | Some k \<Rightarrow> [(p @ [name], k)]) sorted)"
  define children where "children = map (\<lambda>(name, n). (p @ [name], n)) (filter (\<lambda>(name, n). is_folder n) sorted)"
  obtain more result where more: "walk_entries (children @ pending) (n + length es) = (more, result)" by fastforce
  have small: "\<not> MAX_PACKAGE_ENTRY_COUNT < n + length es" and found: "found = here @ more" "result = Walk_complete"
    using "2.prems"(1) more by (auto simp: d Let_def sorted_def here_def children_def split: if_splits)
  note IH = "2.IH" [OF d refl small refl refl refl, of more, folded sorted_def, folded children_def, unfolded more found(2), OF refl]
  show ?case
  proof (cases "(path, dir) \<in> set pending")
    case True
    with IH [of path dir rel] "2.prems"(3) show ?thesis by (auto simp: found split: option.splits)
  next
    case False
    then have here': "path = p" "dir = Folder es" using "2.prems"(2) d by auto
    show ?thesis
    proof (cases rel)
      case Nil
      with here' show ?thesis by simp
    next
      case (Cons a as)
      then obtain x where x: "map_of es a = Some x" "node_at x as = Some m" using "2.prems"(3) here' by (auto split: option.splits)
      then have mem: "(a, x) \<in> set sorted" by (auto simp: sorted_def dest: map_of_SomeD)
      show ?thesis
      proof (cases "entry_kind x")
        case (Some k)
        then have leaf: "as = []" "m = x" using x(2) by (cases as; auto simp: entry_kind_def split: node.splits)+
        have "(p @ [a], k) \<in> set here" using mem Some by (force simp: here_def)
        with Cons leaf here' Some show ?thesis by (simp add: found)
      next
        case None
        then have child: "(p @ [a], x) \<in> set children" using mem by (force simp: children_def is_folder_def)
        from IH [of "p @ [a]" x as] child x(2) have
          "(as = [] \<longrightarrow> (\<exists>es. x = Folder es)) \<and> (as \<noteq> [] \<longrightarrow> (case entry_kind m of Some k \<Rightarrow> (p @ a # as, k) \<in> set more | None \<Rightarrow> \<exists>es. m = Folder es))"
          by (cases "entry_kind m") auto
        with Cons x(2) None here' show ?thesis by (cases "as = []") (auto simp: found split: option.splits)
      qed
    qed
  qed
qed simp

section \<open>Signature, identity, metadata, contracts\<close>

lemma signature_part_result:
  assumes "signature_part env manifest pack mf key require c = Inr c'"
  shows "(collector_ok c \<longrightarrow> collector_ok c') \<and> (clean c' \<longrightarrow> clean c \<and> (case optional_file pack SIGNATURE_NAME of
      None \<Rightarrow> \<not> require | Some sf \<Rightarrow> signature_ok env sf mf (optional_file pack ANCHORS_NAME) key))"
proof (cases "optional_file pack SIGNATURE_NAME")
  case None
  with assms show ?thesis by (auto simp: signature_part_def Let_def split: option.splits sum.splits if_splits)
next
  case (Some sf)
  with assms show ?thesis by (auto simp: signature_part_def Let_def bindr_eq_Inr_iff dest: signature_problems_Nil)
qed

lemma manifest_ticket_result:
  assumes "manifest_ticket manifest c = (t, c')"
  shows "(collector_ok c \<longrightarrow> collector_ok c') \<and> (clean c' \<longrightarrow> clean c \<and> t \<noteq> None
    \<and> (\<exists>d. pget manifest ''ticket'' = PDict d \<and> t = ticket_id_of (pget d ''ticket_id'')))"
  using assms by (auto simp: manifest_ticket_def Let_def split: pyval.splits)

lemma metadata_part_result:
  assumes "metadata_part env pack c = Inr (md, t, c')"
  shows "(collector_ok c \<longrightarrow> collector_ok c') \<and> (clean c' \<longrightarrow> clean c \<and> t \<noteq> None
    \<and> (\<exists>n m. member pack METADATA_REL = Member n \<and> load_json env MAX_METADATA_JSON_BYTES n = Inr m \<and> md = Some m \<and> t = ticket_id_of (pget m ''ticket_id'')))"
  using assms by (auto simp: metadata_part_def Let_def split: member.splits sum.splits if_splits)

text \<open>What the contracts of the pack say, if it has any.\<close>

definition contracts_of :: "pack_env \<Rightarrow> node \<Rightarrow> contract_parts \<Rightarrow> bool" where
  "contracts_of env pack cn \<longleftrightarrow> (case member pack ''contracts.json'' of
       Bad_path \<Rightarrow> False
     | Missing \<Rightarrow> cn = \<lparr>cn_state_machine = None, cn_execution_model = None, cn_completion_receipt = None\<rparr>
     | Member n \<Rightarrow> (\<exists>d. load_contract_snapshot env n = Inr d
         \<and> (if pget d ''state_machine'' = PNone then cn_state_machine cn = None
            else \<exists>m. normalize_ticket_state_machine (pget d ''state_machine'') = Inr m \<and> cn_state_machine cn = Some (state_machine_dict m))
         \<and> (if pget d ''execution_model'' = PNone then cn_execution_model cn = None
            else \<exists>m. normalize_execution_model True (pget d ''execution_model'') = Inr m \<and> cn_execution_model cn = Some (execution_model_dict m))
         \<and> cn_completion_receipt cn = (if has_key d ''completion_receipt'' then Some (pget d ''completion_receipt'') else None)))"

lemma contract_part_result:
  assumes "contract_part env pack c = Inr (cn, c')"
  shows "(collector_ok c \<longrightarrow> collector_ok c') \<and> (clean c' \<longrightarrow> clean c \<and> contracts_of env pack cn)"
proof (cases "member pack ''contracts.json''")
  case (Member n)
  show ?thesis
  proof (cases "load_contract_snapshot env n")
    case (Inl e)
    with assms Member show ?thesis by (auto simp: contract_part_def Let_def split: if_splits)
  next
    case (Inr d)
    with assms Member show ?thesis by (auto simp: contract_part_def contracts_of_def Let_def split: if_splits prod.splits sum.splits)
  qed
qed (use assms in \<open>auto simp: contract_part_def contracts_of_def Let_def\<close>)

lemma verifications_part_result:
  assumes "verifications_part env pack t c = Inr c'"
  shows "(collector_ok c \<longrightarrow> collector_ok c') \<and> (clean c' \<longrightarrow> clean c
    \<and> (member pack ''verifications.json'' = Missing \<or> (\<exists>n d. member pack ''verifications.json'' = Member n \<and> load_verifications_json env t n = Inr d)))"
  using assms by (auto simp: verifications_part_def split: member.splits sum.splits if_splits)

section \<open>Artifacts\<close>

definition snapshot_of :: "pack_env \<Rightarrow> node \<Rightarrow> string \<Rightarrow> bool" where
  "snapshot_of env pack digest \<longleftrightarrow> (\<exists>rel b. member pack rel = Member (File b) \<and> sha256_bytes env b = digest)"

lemma bind_item_result:
  assumes "bind_item env pack facts i v st = Inr (stop, st')"
  shows "(collector_ok (ab_problems st) \<longrightarrow> collector_ok (ab_problems st')) \<and> (clean (ab_problems st') \<longrightarrow> clean (ab_problems st) \<and> \<not> stop
    \<and> ab_incomplete st' = ab_incomplete st) \<and> (\<forall>d\<in>ab_bound st'. d \<in> ab_bound st \<or> snapshot_of env pack d)"
proof (cases "\<exists>item rel n. v = PDict item \<and> pget item ''snapshot'' = PStr rel \<and> member pack rel = Member n")
  case True
  then obtain item rel n where v: "v = PDict item" "pget item ''snapshot'' = PStr rel" "member pack rel = Member n" by blast
  obtain x r where s: "sha256_file env MAX_PACKAGE_FILE_BYTES n (ab_remaining st) = (x, r)" by fastforce
  show ?thesis
  proof (cases x)
    case (Inl e)
    with assms v s show ?thesis by (cases e) (auto simp: bind_item_def Let_def ab_note_def note_if_def)
  next
    case (Inr h)
    with sha256_file_Inr [of env MAX_PACKAGE_FILE_BYTES n "ab_remaining st" h] s obtain b where b: "n = File b" "h = sha256_bytes env b" by auto
    then have "snapshot_of env pack h" using v(3) by (auto simp: snapshot_of_def)
    with assms v s Inr show ?thesis by (auto simp: bind_item_def Let_def ab_note_def)
  qed
next
  case False
  then have "\<exists>p. Inr (stop, st') = Inr (False, ab_note True p st)"
    using assms by (cases v) (auto simp: bind_item_def Let_def split: pyval.splits member.splits)
  then show ?thesis by (auto simp: ab_note_def)
qed

lemma bind_items_result:
  "bind_items env pack facts i vs st = Inr (stop, st') \<Longrightarrow>
    (collector_ok (ab_problems st) \<longrightarrow> collector_ok (ab_problems st')) \<and> (clean (ab_problems st') \<longrightarrow> clean (ab_problems st) \<and> \<not> stop
    \<and> ab_incomplete st' = ab_incomplete st) \<and> (\<forall>d\<in>ab_bound st'. d \<in> ab_bound st \<or> snapshot_of env pack d)"
proof (induction vs arbitrary: i st)
  case (Cons v vs)
  then obtain stop1 st1 where s: "bind_item env pack facts i v st = Inr (stop1, st1)"
    "(if stop1 then Inr (True, st1) else bind_items env pack facts (Suc i) vs st1) = Inr (stop, st')"
    by (auto simp: bindr_eq_Inr_iff)
  from bind_item_result [OF s(1)] s(2) Cons.IH [of "Suc i" st1] show ?case by (cases stop1) auto
qed simp

interpretation missing_pass: reporting_pass "\<lambda>digest. pc_append (Problem ''artifact has no snapshot'' [PStr digest])" "\<lambda>c. c"
  by unfold_locales auto

lemma missing_artifacts_result:
  "collector_ok c \<Longrightarrow> collector_ok (missing_artifacts facts bound c)"
  "clean (missing_artifacts facts bound c) \<Longrightarrow> clean c \<and> set (dict_keys facts) \<subseteq> bound"
proof -
  show "collector_ok c \<Longrightarrow> collector_ok (missing_artifacts facts bound c)"
    unfolding missing_artifacts_def by (rule missing_pass.pass_collector_ok)
  assume m: "clean (missing_artifacts facts bound c)"
  have total: "pc_total (fold (\<lambda>digest. pc_append (Problem ''artifact has no snapshot'' [PStr digest])) ds c) = pc_total c + length ds" for ds c
    by (induction ds arbitrary: c) simp_all
  from m show "clean c \<and> set (dict_keys facts) \<subseteq> bound"
    by (auto simp: missing_artifacts_def total filter_empty_conv)
qed

lemma verify_artifact_binding_result:
  assumes "verify_artifact_binding env pack facts remaining = Inr r"
  shows "report_ok r \<and> (br_total_count r = 0 \<longrightarrow> list_all (snapshot_of env pack) (dict_keys facts))"
proof (cases "facts = [] \<or> (\<forall>n index. member pack ''artifacts.json'' = Member n \<longrightarrow> load_json env MAX_ARTIFACT_INDEX_JSON_BYTES n \<noteq> Inr index)")
  case True
  with assms show ?thesis by (auto simp: verify_artifact_binding_def Let_def split: member.splits sum.splits if_splits)
next
  case False
  then obtain n index where i: "facts \<noteq> []" "member pack ''artifacts.json'' = Member n" "load_json env MAX_ARTIFACT_INDEX_JSON_BYTES n = Inr index" by blast
  then have b: "bind_index env pack facts remaining index = Inr r" using assms by (simp add: verify_artifact_binding_def Let_def)
  define ic where "ic = (case pget index ''artifacts'' of PNone \<Rightarrow> ([], mk_collector) | PList vs \<Rightarrow> (vs, mk_collector)
    | _ \<Rightarrow> ([], pc_append (Problem ''artifacts are malformed'' []) mk_collector))"
  have ok: "collector_ok (snd ic)" by (auto simp: ic_def split: pyval.split)
  show ?thesis
  proof (cases "MAX_ARTIFACT_INDEX_ENTRIES < length (fst ic) \<or> snapshots_too_long pack (fst ic) {} 0")
    case True
    with b ok show ?thesis unfolding bind_index_def ic_def [symmetric] by (auto simp: case_prod_beta Let_def split: if_splits)
  next
    case False
    then obtain stop st where s: "bind_items env pack facts 1 (fst ic) \<lparr>ab_problems = snd ic, ab_bound = {}, ab_incomplete = False, ab_remaining = remaining\<rparr> = Inr (stop, st)"
      "r = pc_render (if stop \<or> ab_incomplete st then ab_problems st else missing_artifacts facts (ab_bound st) (ab_problems st))"
      using b unfolding bind_index_def ic_def [symmetric] by (auto simp: case_prod_beta bindr_eq_Inr_iff)
    note res = bind_items_result [OF s(1)]
    have "collector_ok (if stop \<or> ab_incomplete st then ab_problems st else missing_artifacts facts (ab_bound st) (ab_problems st))"
      using res ok by (simp add: missing_artifacts_result(1))
    moreover have "list_all (snapshot_of env pack) (dict_keys facts)"
      if c: "clean (if stop \<or> ab_incomplete st then ab_problems st else missing_artifacts facts (ab_bound st) (ab_problems st))"
    proof -
      have "clean (ab_problems st)" using c missing_artifacts_result(2) by (metis (full_types))
      then have "\<not> stop \<and> \<not> ab_incomplete st" using res by simp
      with c have "set (dict_keys facts) \<subseteq> ab_bound st" using missing_artifacts_result(2) by simp
      with res show ?thesis by (auto simp: list_all_iff)
    qed
    ultimately show ?thesis by (simp add: s(2))
  qed
qed

section \<open>The event chain of the pack\<close>

text \<open>Every artifact event of an accepted chain is among the facts that are bound to snapshots.\<close>

definition records_artifact :: "pydict \<Rightarrow> string \<Rightarrow> bool" where
  "records_artifact event h \<longleftrightarrow> pget event ''event_type'' = PStr ''artifact_written''
     \<and> (\<exists>p. pget event ''payload'' = PDict p \<and> pget p ''sha256'' = PStr h \<and> h \<noteq> [])"

lemma note_facts [simp]:
  "ch_facts (note_schema t e st) = ch_facts st" "ch_facts (note_first e st) = ch_facts st" "ch_facts (note_id t e st) = ch_facts st"
  "ch_facts (note_hashes env e st) = ch_facts st" "ch_facts (feed_mirrors env e st) = ch_facts st"
  "ch_facts (note_metadata_hash e st) = ch_facts st" "ch_facts (note_type e st) = ch_facts st" "ch_facts (feed_agents env e st) = ch_facts st"
  "ch_facts (compare_mirror env e st) = ch_facts st"
  by (auto simp: note_defs compare_mirror_def Let_def split: pyval.split option.split)

lemma dict_set_keys: "fst ` set (dict_set k v d) = insert k (fst ` set d)"
  by (induction d) auto

lemma chain_event_facts:
  "set (dict_keys (ch_facts st)) \<subseteq> set (dict_keys (ch_facts (chain_event env ce e st)))"
  "records_artifact e h \<Longrightarrow> h \<in> set (dict_keys (ch_facts (chain_event env ce e st)))"
  by (auto simp: chain_event_def note_payload_def records_artifact_def Let_def dict_set_keys split: pyval.split)

lemma fold_facts_mono: "set (dict_keys (ch_facts st)) \<subseteq> set (dict_keys (ch_facts (fold (chain_event env ce) es st)))"
proof (induction es arbitrary: st)
  case (Cons e es)
  from Cons.IH [of "chain_event env ce e st"] chain_event_facts(1) [of st env ce e] show ?case by simp
qed simp

lemma fold_facts:
  assumes "e \<in> set es" "records_artifact e h"
  shows "h \<in> set (dict_keys (ch_facts (fold (chain_event env ce) es st)))"
proof -
  obtain xs ys where "es = xs @ e # ys" using split_list [OF assms(1)] by blast
  then show ?thesis
    using chain_event_facts(2) [OF assms(2)] fold_facts_mono [of "chain_event env ce e (fold (chain_event env ce) xs st)" env ce ys] by auto
qed

lemma chain_file_accepted:
  assumes "verify_event_chain env ce (chain_file_of n) = Inr (facts, r)" "br_values r = []" "is_file (Some n)"
  obtains b where "n = File b" "chain_accepted env ce b"
    "\<And>e h. e \<in> set (chain_events env b) \<Longrightarrow> records_artifact e h \<Longrightarrow> h \<in> set (dict_keys facts)"
proof (cases n)
  case (File b)
  then have acc: "chain_accepted env ce b" using assms by (simp add: chain_accepted_def chain_file_of_def)
  from accepted_chain_end(1) [OF acc] assms(1) File
  have "facts = ch_facts (fold (chain_event env ce) (chain_events env b) (init_chain ce))"
    by (simp add: chain_file_of_def chain_end_def Let_def)
  then have "\<And>e h. e \<in> set (chain_events env b) \<Longrightarrow> records_artifact e h \<Longrightarrow> h \<in> set (dict_keys facts)"
    using fold_facts by blast
  then show ?thesis by (rule that [OF File acc])
next
  case (Locked_file k)
  have ok: "chain_ok (init_chain ce)" by simp
  have a: "br_values (snd (chain_stop [] (ch_note True p (init_chain ce)))) \<noteq> []" for p
    by (rule chain_stop_reports; use ok in \<open>simp add: ch_note_def chain_ok_def\<close>)
  have b: "br_values (snd (chain_stop [] (ch_note True p (chain_rendered (init_chain ce))))) \<noteq> []" for p
    by (rule chain_stop_reports; use chain_rendered_ok [OF ok] in \<open>simp add: ch_note_def\<close>)
  have "br_values r \<noteq> []"
  proof (cases "MAX_EVENT_CHAIN_TOTAL_BYTES < chain_size (Chain_locked k)")
    case True
    with assms(1) Locked_file a [of "Problem ''event chain is too long'' []"] show ?thesis
      by (simp add: chain_file_of_def verify_event_chain_def Let_def)
  next
    case False
    with assms(1) Locked_file b [of "Problem ''event chain cannot be read'' []"] show ?thesis
      by (simp add: chain_file_of_def verify_event_chain_def Let_def)
  qed
  with assms(2) show ?thesis by simp
qed (use assms(3) in \<open>auto simp: is_file_def\<close>)

lemma member_is_file: "member pack rel = Member n \<Longrightarrow> is_file (Some n)"
  by (auto simp: member_def split: option.splits if_splits)

definition chain_bound :: "pack_env \<Rightarrow> node \<Rightarrow> chain_expectations \<Rightarrow> bool" where
  "chain_bound env pack ce \<longleftrightarrow> (\<exists>b. member pack EVENTS_REL = Member (File b) \<and> chain_accepted env ce b
     \<and> (\<forall>e\<in>set (chain_events env b). \<forall>h. records_artifact e h \<longrightarrow> snapshot_of env pack h))"

lemma events_part_result:
  assumes "events_part env pack ce exceeded remaining c = Inr c'"
  shows "(collector_ok c \<longrightarrow> collector_ok c') \<and> (clean c' \<longrightarrow> clean c \<and> (\<not> exceeded \<longrightarrow> chain_bound env pack ce))"
proof (cases "\<exists>n r. member pack EVENTS_REL = Member n \<and> verify_event_chain env ce (chain_file_of n) = Inr r")
  case False
  with assms show ?thesis by (auto simp: events_part_def Let_def split: member.splits sum.splits if_splits)
next
  case True
  then obtain n facts r where n: "member pack EVENTS_REL = Member n" "verify_event_chain env ce (chain_file_of n) = Inr (facts, r)" by auto
  have r: "report_ok r" using verify_event_chain_report_ok [OF n(2)] by simp
  show ?thesis
  proof (cases "exceeded \<or> (\<forall>r2. verify_artifact_binding env pack facts remaining \<noteq> Inr r2)")
    case True
    with assms n r show ?thesis by (auto simp: events_part_def Let_def split: sum.splits if_splits)
  next
    case False
    then obtain r2 where r2: "verify_artifact_binding env pack facts remaining = Inr r2" "\<not> exceeded" by auto
    note b = verify_artifact_binding_result [OF r2(1)]
    have c': "c' = pc_extend_report r2 (pc_extend_report r c)" using assms n r2 by (simp add: events_part_def Let_def)
    have "chain_bound env pack ce" if c: "clean c'"
    proof -
      have e: "br_values r = []" "list_all (snapshot_of env pack) (dict_keys facts)" using c c' r b by (auto simp: report_empty)
      obtain bytes where "n = File bytes" "chain_accepted env ce bytes"
        "\<And>e h. e \<in> set (chain_events env bytes) \<Longrightarrow> records_artifact e h \<Longrightarrow> h \<in> set (dict_keys facts)"
        using chain_file_accepted [OF n(2) e(1) member_is_file [OF n(1)]] by metis
      with n e(2) show ?thesis by (auto simp: chain_bound_def list_all_iff)
    qed
    with c' r b show ?thesis by auto
  qed
qed

section \<open>The whole body\<close>

definition manifest_entry_list :: "pydict \<Rightarrow> pack_entry list" where
  "manifest_entry_list manifest = fst (manifest_entries 1 (fst (manifest_file_list manifest mk_collector)) {} mk_collector)"

lemma manifest_entries_collector: "fst (manifest_entries i vs seen c) = fst (manifest_entries i vs seen c2)"
proof (induction i vs seen c arbitrary: c2 rule: manifest_entries.induct)
  case (2 i v vs seen c)
  show ?case
  proof (cases "read_entry v")
    case (Inl msg)
    with "2.IH"(1) [OF Inl] show ?thesis by simp
  next
    case (Inr e)
    show ?thesis
    proof (cases "pe_path e \<in> seen")
      case True
      with Inr "2.IH"(2) [OF Inr True] show ?thesis by simp
    next
      case False
      with Inr "2.IH"(3) [OF Inr False, of c2] show ?thesis by (simp add: case_prod_beta)
    qed
  qed
qed simp

text \<open>What the verification has found out about an accepted pack.\<close>

definition files_verified :: "pack_env \<Rightarrow> node \<Rightarrow> pydict \<Rightarrow> bool" where
  "files_verified env pack manifest \<longleftrightarrow> (let es = manifest_entry_list manifest in
     es \<noteq> [] \<and> distinct (map pe_path es) \<and> (\<exists>vs. pget manifest ''files'' = PList vs \<and> list_all2 (\<lambda>v e. read_entry v = Inr e) vs es)
     \<and> list_all (entry_present env pack) es \<and> pget manifest ''pack_digest'' = PStr (pack_digest env es)
     \<and> (\<forall>path n. path \<noteq> [] \<longrightarrow> node_at pack path = Some n \<longrightarrow> (\<exists>sub. n = Folder sub)
          \<or> is_file (Some n) \<and> (last path = MANIFEST_NAME \<or> join ''/'' path \<in> set (map pe_path es) \<union> {SIGNATURE_NAME, ANCHORS_NAME})))"

definition history_verified :: "pack_env \<Rightarrow> node \<Rightarrow> pydict \<Rightarrow> bool" where
  "history_verified env pack manifest \<longleftrightarrow> (\<exists>t tn md n cn. pget manifest ''ticket'' = PDict tn \<and> pget tn ''ticket_id'' = PStr t \<and> t \<noteq> []
     \<and> member pack METADATA_REL = Member n \<and> load_json env MAX_METADATA_JSON_BYTES n = Inr md \<and> pget md ''ticket_id'' = PStr t
     \<and> contracts_of env pack cn
     \<and> (member pack ''verifications.json'' = Missing
         \<or> (\<exists>f d. member pack ''verifications.json'' = Member f \<and> load_verifications_json env (Some t) f = Inr d))
     \<and> chain_bound env pack (expectations_of env (Some md) (Some t) cn))"

definition signature_verified :: "pack_env \<Rightarrow> node \<Rightarrow> node \<Rightarrow> string option \<Rightarrow> bool \<Rightarrow> bool" where
  "signature_verified env pack mf key require \<longleftrightarrow> (case optional_file pack SIGNATURE_NAME of
      None \<Rightarrow> \<not> require | Some sf \<Rightarrow> signature_ok env sf mf (optional_file pack ANCHORS_NAME) key)"

lemma walked_files:
  assumes "walk_entries [([], pack)] 0 = (found, Walk_complete)"
    and "\<forall>(path, kind)\<in>set found. kind = Kind_file \<and> P path"
  shows "\<forall>path n. path \<noteq> [] \<longrightarrow> node_at pack path = Some n \<longrightarrow> (\<exists>sub. n = Folder sub) \<or> is_file (Some n) \<and> P path"
proof (intro allI impI)
  fix path n
  assume p: "path \<noteq> []" "node_at pack path = Some n"
  have "case entry_kind n of Some k \<Rightarrow> (path, k) \<in> set found | None \<Rightarrow> \<exists>es. n = Folder es"
    using walk_complete [OF assms(1), of "[]" pack path n, unfolded append_Nil] p by simp
  with assms(2) show "(\<exists>sub. n = Folder sub) \<or> is_file (Some n) \<and> P path"
    by (cases n) (auto simp: entry_kind_def is_file_def)
qed

lemma ticket_id_of_Some: "ticket_id_of v = Some t \<longleftrightarrow> v = PStr t \<and> t \<noteq> []"
  by (auto simp: ticket_id_of_def split: pyval.splits)

lemma pack_body_result:
  assumes "pack_body env pack mf manifest key require = Inr c"
  shows "collector_ok c \<and> (clean c \<longrightarrow> files_verified env pack manifest \<and> history_verified env pack manifest \<and> signature_verified env pack mf key require)"
proof -
  define vs where "vs = fst (manifest_file_list manifest mk_collector)"
  define c1 where "c1 = snd (manifest_file_list manifest mk_collector)"
  define es where "es = fst (manifest_entries 1 vs {} c1)"
  define c2 where "c2 = snd (manifest_entries 1 vs {} c1)"
  define ca where "ca = (\<lambda>c3. extra_files pack es (digest_problem env manifest es c3))"
  have entries: "manifest_entry_list manifest = es"
    unfolding manifest_entry_list_def es_def vs_def [symmetric] by (rule manifest_entries_collector)
  obtain exceeded c3 rem where s3: "check_entries env pack es c2 MAX_PACKAGE_HASH_READ_BYTES = Inr (exceeded, c3, rem)"
    and rest3: "bindr (signature_part env manifest pack mf key require (ca c3)) (\<lambda>c4.
         let (ticket, c5) = manifest_ticket manifest c4
         in bindr (metadata_part env pack c5) (\<lambda>(metadata, metadata_ticket, c6).
            bindr (contract_part env pack c6) (\<lambda>(cn, c7).
            let c8 = note_if (ticket \<noteq> None \<and> metadata_ticket \<noteq> None \<and> ticket \<noteq> metadata_ticket) (Problem ''ticket ids of manifest and metadata differ'' []) c7
            in bindr (verifications_part env pack metadata_ticket c8) (\<lambda>c9.
               events_part env pack (expectations_of env metadata metadata_ticket cn) exceeded rem c9)))) = Inr c"
    using assms by (auto simp: pack_body_def Let_def case_prod_beta bindr_eq_Inr_iff vs_def c1_def es_def c2_def ca_def)
  then obtain c4 where s4: "signature_part env manifest pack mf key require (ca c3) = Inr c4" by (auto simp: bindr_eq_Inr_iff)
  obtain ticket c5 where s5: "manifest_ticket manifest c4 = (ticket, c5)" by fastforce
  obtain md mt c6 where s6: "metadata_part env pack c5 = Inr (md, mt, c6)" using rest3 s4 s5 by (auto simp: bindr_eq_Inr_iff)
  obtain cn c7 where s7: "contract_part env pack c6 = Inr (cn, c7)" using rest3 s4 s5 s6 by (auto simp: bindr_eq_Inr_iff)
  define c8 where "c8 = note_if (ticket \<noteq> None \<and> mt \<noteq> None \<and> ticket \<noteq> mt) (Problem ''ticket ids of manifest and metadata differ'' []) c7"
  obtain c9 where s9: "verifications_part env pack mt c8 = Inr c9" and s10: "events_part env pack (expectations_of env md mt cn) exceeded rem c9 = Inr c"
    using rest3 s4 s5 s6 s7 by (auto simp: bindr_eq_Inr_iff c8_def Let_def)
  note r3 = check_entries_result [OF s3] and r4 = signature_part_result [OF s4] and r5 = manifest_ticket_result [OF s5]
    and r6 = metadata_part_result [OF s6] and r7 = contract_part_result [OF s7] and r9 = verifications_part_result [OF s9]
    and r10 = events_part_result [OF s10]
  have "collector_ok c2" by (simp add: c2_def manifest_entries_ok c1_def manifest_file_list_ok)
  then have "collector_ok (ca c3)" using r3 by (simp add: ca_def extra_files_ok digest_problem_result(1))
  then have "collector_ok c8" using r4 r5 r6 r7 by (simp add: c8_def)
  then have "collector_ok c" using r9 r10 by simp
  moreover have "files_verified env pack manifest \<and> history_verified env pack manifest \<and> signature_verified env pack mf key require" if c: "clean c"
  proof -
    have c9: "clean c9" using c r10 by simp
    then have c8: "clean c8" using r9 by simp
    then have c7: "clean c7" "\<not> (ticket \<noteq> None \<and> mt \<noteq> None \<and> ticket \<noteq> mt)" by (simp_all add: c8_def)
    then have c6: "clean c6" using r7 by simp
    then have c5: "clean c5" "mt \<noteq> None" using r6 by simp_all
    then have c4: "clean c4" "ticket \<noteq> None" using r5 by simp_all
    then obtain t where t: "ticket = Some t" "mt = Some t" using c7(2) c5(2) by auto
    have ca: "clean (ca c3)" using r4 c4 by simp
    obtain found where f: "clean (digest_problem env manifest es c3)" "walk_entries [([], pack)] 0 = (found, Walk_complete)"
      "\<forall>(path, kind)\<in>set found. kind = Kind_file \<and> (last path = MANIFEST_NAME \<or> join ''/'' path \<in> set (map pe_path es) \<union> {SIGNATURE_NAME, ANCHORS_NAME})"
      using extra_files_clean [OF ca [unfolded ca_def]] by blast
    have c3: "clean c3" "pget manifest ''pack_digest'' = PStr (pack_digest env es)" using digest_problem_result(2) [OF f(1)] by auto
    then have c2: "clean c2" "\<not> exceeded" "list_all (entry_present env pack) es" using r3 by simp_all
    have m: "clean c1" "list_all2 (\<lambda>v e. read_entry v = Inr e) vs es" "distinct (map pe_path es)"
      using manifest_entries_clean [of 1 vs "{}" c1 es c2] c2(1) by (simp_all add: es_def c2_def)
    have l: "pget manifest ''files'' = PList vs" "vs \<noteq> []"
      using manifest_file_list_clean [of manifest mk_collector] m(1) unfolding vs_def c1_def by auto
    have "es \<noteq> []" using m(2) l(2) by auto
    with m(2,3) l(1) c2(3) c3(2) walked_files [OF f(2,3)] have "files_verified env pack manifest"
      unfolding files_verified_def entries Let_def by blast
    moreover have "history_verified env pack manifest"
    proof -
      obtain tn where tn: "pget manifest ''ticket'' = PDict tn" "ticket_id_of (pget tn ''ticket_id'') = Some t" using r5 c5 t by auto
      obtain n md' where n: "member pack METADATA_REL = Member n" "load_json env MAX_METADATA_JSON_BYTES n = Inr md'" "md = Some md'"
        "ticket_id_of (pget md' ''ticket_id'') = Some t" using r6 c6 t by auto
      have "contracts_of env pack cn" using r7 c7 by simp
      moreover have "chain_bound env pack (expectations_of env (Some md') (Some t) cn)" using r10 c c2(2) n t by simp
      moreover have "member pack ''verifications.json'' = Missing
         \<or> (\<exists>f d. member pack ''verifications.json'' = Member f \<and> load_verifications_json env (Some t) f = Inr d)" using r9 c9 t by simp
      ultimately show ?thesis unfolding history_verified_def using tn n by (auto simp: ticket_id_of_Some)
    qed
    moreover have "signature_verified env pack mf key require" unfolding signature_verified_def using r4 c4 by simp
    ultimately show ?thesis by blast
  qed
  ultimately show ?thesis by blast
qed

definition loaded_manifest :: "pack_env \<Rightarrow> node \<Rightarrow> node \<Rightarrow> pydict \<Rightarrow> bool" where
  "loaded_manifest env pack mf manifest \<longleftrightarrow> member pack MANIFEST_NAME = Member mf \<and> load_json env MAX_MANIFEST_JSON_BYTES mf = Inr manifest"

lemma accepted_pack_facts:
  assumes "pack_accepted env pack key require"
  obtains mf manifest where "loaded_manifest env pack mf manifest" "files_verified env pack manifest" "history_verified env pack manifest"
    "signature_verified env pack mf key require"
proof -
  from assms obtain r where r: "verify_pack env pack key require = Inr r" "br_values r = []" by (auto simp: pack_accepted_def split: sum.splits)
  then obtain mf where mf: "member pack MANIFEST_NAME = Member mf"
    by (auto simp: verify_pack_def plain_report_def split: member.splits)
  then obtain manifest where m: "load_json env MAX_MANIFEST_JSON_BYTES mf = Inr manifest"
    using r by (auto simp: verify_pack_def plain_report_def split: sum.splits if_splits)
  then obtain c where c: "pack_body env pack mf manifest key require = Inr c" "r = pc_render c"
    using r(1) mf by (auto simp: verify_pack_def bindr_eq_Inr_iff)
  note b = pack_body_result [OF c(1)]
  then have "clean c" using r(2) c(2) by (simp add: render_empty_iff)
  with b that mf m show ?thesis by (auto simp: loaded_manifest_def)
qed

section \<open>The digest of the pack identifies it\<close>

text \<open>The listed files with their contents, and the texts whose digests the manifest holds.\<close>

definition listed_files :: "node \<Rightarrow> pydict \<Rightarrow> (string \<times> string) set" where
  "listed_files pack manifest = {(p, b). p \<in> set (map pe_path (manifest_entry_list manifest)) \<and> member pack p = Member (File b)}"

definition hashed_texts :: "pack_env \<Rightarrow> node \<Rightarrow> pydict \<Rightarrow> string set" where
  "hashed_texts env pack manifest = insert (digest_text env (manifest_entry_list manifest)) (snd ` listed_files pack manifest)"

definition entry_pair :: "pack_entry \<Rightarrow> string \<times> string" where
  "entry_pair e = (pe_path e, pe_sha256 e)"

definition pair_json :: "string \<times> string \<Rightarrow> json" where
  "pair_json x = JObj [(''path'', JStr (fst x)), (''sha256'', JStr (snd x))]"

lemma pair_json_inj: "inj pair_json"
  by (auto simp: inj_on_def pair_json_def)

lemma digest_text_json: "digest_text env es = utf8 (render False [] (JList (map pair_json (map entry_pair (sort_key pe_path es)))))"
proof -
  have "json_items frepr (map (\<lambda>e. PDict [(PStr ''path'', PStr (pe_path e)), (PStr ''sha256'', PStr (pe_sha256 e))]) xs) = Some (map pair_json (map entry_pair xs))"
    for frepr xs by (induction xs) (simp_all add: pair_json_def entry_pair_def)
  moreover have "map sort_keys (map pair_json xs) = map pair_json xs" for xs by (simp add: pair_json_def)
  ultimately show ?thesis by (simp add: digest_text_def Let_def canonical_def dumps_def del: map_map)
qed

lemma digest_text_inj:
  assumes "digest_text env es = digest_text env fs"
  shows "entry_pair ` set es = entry_pair ` set fs"
proof -
  have free: "float_free (JList (map pair_json xs))" for xs by (simp add: pair_json_def list_all_iff)
  have "JList (map pair_json (map entry_pair (sort_key pe_path es))) = JList (map pair_json (map entry_pair (sort_key pe_path fs)))"
    by (rule render_inj [OF free free assms [unfolded digest_text_json utf8_inj]])
  then have "map entry_pair (sort_key pe_path es) = map entry_pair (sort_key pe_path fs)"
    using pair_json_inj by (simp only: json.inject inj_map_eq_map)
  then have "set (map entry_pair (sort_key pe_path es)) = set (map entry_pair (sort_key pe_path fs))" by (rule arg_cong)
  then show ?thesis by (simp only: set_map set_sort)
qed

lemma files_entries:
  assumes "files_verified env pack manifest"
  shows "list_all (entry_present env pack) (manifest_entry_list manifest)"
    "pget manifest ''pack_digest'' = PStr (pack_digest env (manifest_entry_list manifest))"
  using assms by (simp_all add: files_verified_def Let_def)

lemma listed_files_subset:
  assumes v: "files_verified env p1 m1" "files_verified env p2 m2"
    and d: "pget m1 ''pack_digest'' = pget m2 ''pack_digest''"
    and inj: "inj_on (pk_sha256 env) (hashed_texts env p1 m1 \<union> hashed_texts env p2 m2)"
  shows "listed_files p1 m1 \<subseteq> listed_files p2 m2"
proof
  fix x
  assume x: "x \<in> listed_files p1 m1"
  let ?e1 = "manifest_entry_list m1" and ?e2 = "manifest_entry_list m2"
  have "pk_sha256 env (digest_text env ?e1) = pk_sha256 env (digest_text env ?e2)"
    using files_entries(2) [OF v(1)] files_entries(2) [OF v(2)] d by (simp add: pack_digest_def sha256_bytes_def)
  then have "digest_text env ?e1 = digest_text env ?e2" by (rule inj_onD [OF inj]) (simp_all add: hashed_texts_def)
  note same = digest_text_inj [OF this]
  obtain e b where e: "x = (pe_path e, b)" "e \<in> set ?e1" "member p1 (pe_path e) = Member (File b)"
    using x by (auto simp: listed_files_def)
  then have b: "pe_sha256 e = sha256_bytes env b" using files_entries(1) [OF v(1)] by (auto simp: list_all_iff entry_present_def)
  have "entry_pair e \<in> entry_pair ` set ?e2" using e(2) same by blast
  then obtain f where f: "f \<in> set ?e2" "pe_path f = pe_path e" "pe_sha256 f = pe_sha256 e" by (auto simp: entry_pair_def)
  then obtain c where c: "member p2 (pe_path e) = Member (File c)" "pe_sha256 e = sha256_bytes env c"
    using files_entries(1) [OF v(2)] by (auto simp: list_all_iff entry_present_def)
  then have y: "(pe_path e, c) \<in> listed_files p2 m2"
    using imageI [OF f(1), of pe_path] f(2) by (simp add: listed_files_def)
  have "b \<in> hashed_texts env p1 m1" "c \<in> hashed_texts env p2 m2" using x e(1) y by (force simp: hashed_texts_def)+
  then have "b = c" using inj_onD [OF inj, of b c] b c(2) by (simp add: sha256_bytes_def)
  with y e(1) show "x \<in> listed_files p2 m2" by simp
qed

text \<open>A file of the pack that is no manifest, signature or anchors file is listed.\<close>

lemma member_node_at: "member pack rel = Member n \<Longrightarrow> node_at pack (split_on (CHR ''/'') rel) = Some n"
  by (auto simp: member_def package_member_path_def Let_def split: option.splits if_splits)

lemma member_listed:
  assumes "files_verified env pack manifest" "member pack rel = Member (File b)"
    and "split_on (CHR ''/'') rel = path" "rel = join ''/'' path" "path \<noteq> []" "last path \<noteq> MANIFEST_NAME" "rel \<notin> {SIGNATURE_NAME, ANCHORS_NAME}"
  shows "(rel, b) \<in> listed_files pack manifest"
proof -
  have "\<And>path n. path \<noteq> [] \<Longrightarrow> node_at pack path = Some n \<Longrightarrow> (\<exists>sub. n = Folder sub)
     \<or> is_file (Some n) \<and> (last path = MANIFEST_NAME \<or> join ''/'' path \<in> set (map pe_path (manifest_entry_list manifest)) \<union> {SIGNATURE_NAME, ANCHORS_NAME})"
    using assms(1) unfolding files_verified_def Let_def by blast
  from this [OF assms(5) member_node_at [OF assms(2), unfolded assms(3)]] assms(2,4,6,7) show ?thesis by (auto simp: listed_files_def)
qed

lemma listed_member: "(rel, b) \<in> listed_files pack manifest \<Longrightarrow> member pack rel = Member (File b)"
  by (simp add: listed_files_def)

lemma control_paths:
  "split_on (CHR ''/'') EVENTS_REL = [''ticket'', ''events.jsonl'']" "split_on (CHR ''/'') METADATA_REL = [''ticket'', ''metadata.json'']"
  "EVENTS_REL = join ''/'' [''ticket'', ''events.jsonl'']" "METADATA_REL = join ''/'' [''ticket'', ''metadata.json'']"
  by code_simp+

lemma control_files_listed:
  assumes "files_verified env pack manifest" "history_verified env pack manifest"
  obtains b c where "(EVENTS_REL, b) \<in> listed_files pack manifest" "(METADATA_REL, c) \<in> listed_files pack manifest"
proof -
  obtain b where b: "member pack EVENTS_REL = Member (File b)" using assms(2) by (auto simp: history_verified_def chain_bound_def)
  obtain n md where n: "member pack METADATA_REL = Member n" "load_json env MAX_METADATA_JSON_BYTES n = Inr md"
    using assms(2) by (auto simp: history_verified_def)
  then obtain c where c: "n = File c" by (auto simp: load_json_def load_json_value_def bindr_eq_Inr_iff read_bounded_bytes_Inr)
  have "(EVENTS_REL, b) \<in> listed_files pack manifest"
    using member_listed [OF assms(1) b control_paths(1,3)] by (simp add: EVENTS_REL_def MANIFEST_NAME_def SIGNATURE_NAME_def ANCHORS_NAME_def)
  moreover have "(METADATA_REL, c) \<in> listed_files pack manifest"
    using member_listed [OF assms(1) n(1) [unfolded c] control_paths(2,4)]
    by (simp add: METADATA_REL_def MANIFEST_NAME_def SIGNATURE_NAME_def ANCHORS_NAME_def)
  ultimately show ?thesis by (rule that)
qed

lemma accepted_pack_manifest:
  assumes "pack_accepted env pack key require" "loaded_manifest env pack mf manifest"
  shows "files_verified env pack manifest" "history_verified env pack manifest" "signature_verified env pack mf key require"
proof -
  obtain mf2 m2 where m: "loaded_manifest env pack mf2 m2" "files_verified env pack m2" "history_verified env pack m2" "signature_verified env pack mf2 key require"
    using accepted_pack_facts [OF assms(1)] .
  then have "mf2 = mf" "m2 = manifest" using assms(2) by (auto simp: loaded_manifest_def)
  with m show "files_verified env pack manifest" "history_verified env pack manifest" "signature_verified env pack mf key require" by simp_all
qed

text \<open>
  C6. The declared digest identifies an accepted pack: two accepted packs whose manifests declare the same digest list the
  same paths with the same contents, and have the same event chain and the same metadata, unless two of the texts that
  are hashed collide under SHA-256.
\<close>

theorem equal_pack_digests:
  assumes "pack_accepted env p1 k1 q1" "loaded_manifest env p1 f1 m1"
    and "pack_accepted env p2 k2 q2" "loaded_manifest env p2 f2 m2"
    and "pget m1 ''pack_digest'' = pget m2 ''pack_digest''"
    and "inj_on (pk_sha256 env) (hashed_texts env p1 m1 \<union> hashed_texts env p2 m2)"
  shows "listed_files p1 m1 = listed_files p2 m2 \<and> member p1 EVENTS_REL = member p2 EVENTS_REL \<and> member p1 METADATA_REL = member p2 METADATA_REL"
proof -
  note v1 = accepted_pack_manifest [OF assms(1,2)] and v2 = accepted_pack_manifest [OF assms(3,4)]
  have eq: "listed_files p1 m1 = listed_files p2 m2"
    using listed_files_subset [OF v1(1) v2(1) assms(5,6)] listed_files_subset [OF v2(1) v1(1) assms(5) [symmetric]] assms(6)
    by (simp add: Un_commute)
  obtain b c where "(EVENTS_REL, b) \<in> listed_files p1 m1" "(METADATA_REL, c) \<in> listed_files p1 m1"
    by (rule control_files_listed [OF v1(1,2)])
  with eq listed_member show ?thesis by metis
qed

text \<open>
  C4. What acceptance means. The manifest of an accepted pack was read without an error; its list has distinct paths and is not
  empty, every listed file is there with its digest, its size and within its limit, the digest over the list is the declared
  one, and the tree holds no link, no special file and no other file than listed ones, the signature, the anchors and files called manifest.json; the
  ticket of the manifest is the ticket of the metadata, the event chain is accepted against metadata and contracts, and
  every artifact that an event records has a snapshot with its digest; a signature that is there, or is required, is valid.
\<close>

theorem accepted_pack:
  assumes "pack_accepted env pack key require"
  shows "\<exists>mf manifest. loaded_manifest env pack mf manifest \<and> files_verified env pack manifest \<and> history_verified env pack manifest
    \<and> signature_verified env pack mf key require"
  using accepted_pack_facts [OF assms] by metis

section \<open>The exit code\<close>

lemma parse_args_keeps_require: "op_require opts \<Longrightarrow> parse_args args opts = Some opts' \<Longrightarrow> op_require opts'"
  by (induction args opts rule: parse_args.induct) (auto split: if_splits list.splits)

lemma parse_args_require:
  "parse_args (xs @ ''--require-signature'' # ys) opts = Some opts' \<Longrightarrow> xs = [] \<or> last xs \<noteq> ''--public-key'' \<Longrightarrow> op_require opts'"
proof (induction xs opts rule: parse_args.induct)
  case (1 opts)
  then show ?case using parse_args_keeps_require [of "opts\<lparr>op_require := True\<rparr>"] by simp
next
  case (2 arg rest opts)
  have last: "rest = [] \<or> last rest \<noteq> ''--public-key''" using "2.prems"(2) by auto
  show ?case
  proof (cases "arg = ''--public-key''")
    case True
    with "2.prems"(2) obtain key rest' where r: "rest = key # rest'" by (cases rest) auto
    with last have "rest' = [] \<or> last rest' \<noteq> ''--public-key''" by auto
    with "2.IH"(3) True r "2.prems"(1) show ?thesis by simp
  next
    case False
    with "2.IH" "2.prems"(1) last show ?thesis by (auto split: if_splits)
  qed
qed

lemma main_zero:
  assumes "main env lookup args = Inr 0"
  obtains opts path pack where "parse_args args \<lparr>op_pack = None, op_public_key = None, op_require = False\<rparr> = Some opts"
    "op_pack opts = Some path" "lookup path = Some pack" "pack_accepted env pack (op_public_key opts) (op_require opts)"
  using assms by (auto simp: main_def pack_accepted_def bindr_eq_Inr_iff split: option.splits if_splits)

text \<open>
  C18. The program does not pass an unsigned pack when a signature is required: with \<^verbatim>\<open>--require-signature\<close> anywhere
  on the command line, unless it directly follows \<^verbatim>\<open>--public-key\<close> (whose value it then may be), whatever the
  other arguments, a public key included, and with no signature file in any directory that a path leads to, the exit code is
  not 0.
\<close>

theorem unsigned_pack_fails:
  assumes "args = xs @ ''--require-signature'' # ys" and "xs = [] \<or> last xs \<noteq> ''--public-key''"
    and "\<And>path pack. lookup path = Some pack \<Longrightarrow> optional_file pack SIGNATURE_NAME = None"
  shows "main env lookup args \<noteq> Inr 0"
proof
  assume "main env lookup args = Inr 0"
  then obtain opts path pack where o1: "parse_args args \<lparr>op_pack = None, op_public_key = None, op_require = False\<rparr> = Some opts"
    and p: "lookup path = Some pack" "pack_accepted env pack (op_public_key opts) (op_require opts)" by (rule main_zero)
  have "op_require opts" using parse_args_require [OF o1 [unfolded assms(1)] assms(2)] .
  with accepted_pack_facts [OF p(2)] assms(3) [OF p(1)] show False by (auto simp: signature_verified_def)
qed

end
