(* ===== verification/Pack_Demo.thy ===== *)
theory Pack_Demo
  imports Pack_Accept
begin

text \<open>
  A concrete evidence pack, from the text of its files to the exit code: a manifest, an event chain of one event and its metadata. The pack
  is accepted, which shows that the theorems about accepted packs are about packs that exist.
\<close>

declare py_eq.simps [simp del]

section \<open>A concrete pack\<close>

text \<open>Two listed files, and on demand a nested file that is called like the manifest and is not listed.\<close>

definition demo_hash :: "string \<Rightarrow> string" where
  "demo_hash = sha256_bytes demo_chain_env"

definition demo_metadata :: string where
  "demo_metadata = render False [] (JObj [(''ticket_id'', JStr ''T1'')])"

definition demo_entries :: "pack_entry list" where
  "demo_entries = [\<lparr>pe_path = EVENTS_REL, pe_sha256 = demo_hash demo_chain_line, pe_size = PNone\<rparr>,
     \<lparr>pe_path = METADATA_REL, pe_sha256 = demo_hash demo_metadata, pe_size = PNone\<rparr>]"

definition manifest_fields :: "string \<Rightarrow> string \<Rightarrow> string \<Rightarrow> (string \<times> json) list" where
  "manifest_fields h1 h2 d = [(''files'', JList [pair_json (EVENTS_REL, h1), pair_json (METADATA_REL, h2)]), (''pack_digest'', JStr d),
     (''ticket'', JObj [(''ticket_id'', JStr ''T1'')])]"

definition demo_manifest :: string where
  "demo_manifest = render False [] (JObj (manifest_fields (demo_hash demo_chain_line) (demo_hash demo_metadata) (pack_digest demo_chain_env demo_entries)))"

definition demo_manifest_dict :: pydict where
  "demo_manifest_dict = map (\<lambda>(k, v). (PStr k, pyval_of v))
     (manifest_fields (demo_hash demo_chain_line) (demo_hash demo_metadata) (pack_digest demo_chain_env demo_entries))"

definition demo_pack :: "bool \<Rightarrow> node" where
  "demo_pack nested = Folder [(''manifest.json'', File demo_manifest),
     (''ticket'', Folder ((if nested then [(''manifest.json'', File ''unlisted'')] else [])
        @ [(''events.jsonl'', File demo_chain_line), (''metadata.json'', File demo_metadata)]))]"

lemma demo_hashes:
  "demo_hash demo_chain_line = ''7b226163746f72223a2269636f6465222c226576656e745f6964223a22303132''"
  "demo_hash demo_metadata = ''7b227469636b65745f6964223a225431227d3030303030303030303030303030''"
  unfolding demo_line_text by code_simp+

lemma demo_digest: "pack_digest demo_chain_env demo_entries = ''5b7b2270617468223a227469636b65742f6576656e74732e6a736f6e6c222c22''"
  unfolding demo_entries_def demo_hashes by code_simp

lemma load_json_render:
  assumes "plain_json (JObj fs)" "json_depth (JObj fs) \<le> 5" "pk_limit env = 5"
    and "utf8 (render False [] (JObj fs)) = render False [] (JObj fs)" "length (render False [] (JObj fs)) \<le> 1000" "1000 \<le> mx"
  shows "load_json env mx (File (render False [] (JObj fs))) = Inr (map (\<lambda>(k, v). (PStr k, pyval_of v)) fs)"
proof -
  let ?t = "render False [] (JObj fs)"
  have "check_json_structural_token_budget None ?t = Inr ()"
    unfolding check_json_structural_token_budget_def
    by (rule token_scan_short) (use assms(5) in \<open>simp add: MAX_JSON_STRUCTURAL_TOKENS_def del: render.simps\<close>)
  with assms(1,2,3) have "loads_json_value (pk_limit env) ?t = Inr (pyval_of (JObj fs))"
    by (intro loads_json_value_render) (simp_all add: MAX_JSON_CONTAINER_DEPTH_def del: plain_json.simps json_depth.simps)
  moreover have "utf8_decode ?t = Some ?t" using utf8_decode_utf8 [of ?t] assms(4) by simp
  moreover have "read_bounded_bytes mx (File ?t) = Inr ?t" using assms(5,6) by (simp add: read_bounded_bytes_Inr del: render.simps)
  ultimately show ?thesis by (simp add: load_json_def load_json_value_def del: render.simps)
qed

lemma demo_pack_texts:
  "length demo_manifest \<le> 1000" "length demo_metadata \<le> 1000" "utf8 demo_manifest = demo_manifest" "utf8 demo_metadata = demo_metadata"
proof -
  show "length demo_manifest \<le> 1000" unfolding demo_manifest_def demo_hashes demo_digest by code_simp
  show "utf8 demo_manifest = demo_manifest" unfolding demo_manifest_def demo_hashes demo_digest by code_simp
  show "length demo_metadata \<le> 1000" "utf8 demo_metadata = demo_metadata" by code_simp+
qed

lemma demo_loads:
  assumes "1000 \<le> mx"
  shows "load_json demo_chain_env mx (File demo_manifest) = Inr demo_manifest_dict"
    "load_json demo_chain_env mx (File demo_metadata) = Inr [(PStr ''ticket_id'', PStr ''T1'')]"
proof -
  have env: "pk_limit demo_chain_env = 5" by (simp add: demo_chain_env_def)
  have "json_depth (JObj (manifest_fields h1 h2 d)) \<le> 5" "plain_json (JObj (manifest_fields h1 h2 d))" for h1 h2 d
    by (simp_all add: manifest_fields_def pair_json_def)
  then show "load_json demo_chain_env mx (File demo_manifest) = Inr demo_manifest_dict"
    unfolding demo_manifest_def demo_manifest_dict_def
    by (intro load_json_render) (use env demo_pack_texts(1,3) assms in \<open>simp_all only: demo_manifest_def\<close>)
  have "json_depth (JObj [(''ticket_id'', JStr ''T1'')]) \<le> 5" "plain_json (JObj [(''ticket_id'', JStr ''T1'')])" by simp_all
  from load_json_render [OF this(2,1) env demo_pack_texts(4,2) [unfolded demo_metadata_def] assms]
  show "load_json demo_chain_env mx (File demo_metadata) = Inr [(PStr ''ticket_id'', PStr ''T1'')]" by (simp add: demo_metadata_def del: render.simps)
qed

definition plain_path :: "string \<Rightarrow> string list \<Rightarrow> bool" where
  "plain_path rel parts \<longleftrightarrow> rel \<noteq> [] \<and> CHR 0x00 \<notin> set rel \<and> CHR 0x5C \<notin> set rel \<and> split_on (CHR ''/'') rel = parts \<and> \<not> is_absolute (parse_path rel)
     \<and> \<not> windows_is_absolute (parse_windows_path rel) \<and> wp_drive (parse_windows_path rel) = [] \<and> \<not> list_ex (\<lambda>p. p \<in> {[], ''.'', ''..''}) parts"

lemma plain_member_path: "plain_path rel parts \<Longrightarrow> package_member_path pack rel = (if no_link_on_path pack parts then Some parts else None)"
  by (simp add: plain_path_def package_member_path_def Let_def)

lemma plain_paths:
  "plain_path MANIFEST_NAME [''manifest.json'']" "plain_path EVENTS_REL [''ticket'', ''events.jsonl'']"
  "plain_path METADATA_REL [''ticket'', ''metadata.json'']" "plain_path SIGNATURE_NAME [''signature.json'']" "plain_path ANCHORS_NAME [''anchors.json'']"
  "plain_path ''contracts.json'' [''contracts.json'']" "plain_path ''verifications.json'' [''verifications.json'']"
  by code_simp+

lemma demo_members:
  "member (demo_pack nested) MANIFEST_NAME = Member (File demo_manifest)"
  "member (demo_pack nested) EVENTS_REL = Member (File demo_chain_line)"
  "member (demo_pack nested) METADATA_REL = Member (File demo_metadata)"
  "member (demo_pack nested) SIGNATURE_NAME = Missing"
  "member (demo_pack nested) ANCHORS_NAME = Missing"
  "member (demo_pack nested) ''contracts.json'' = Missing"
  "member (demo_pack nested) ''verifications.json'' = Missing"
  by (simp_all add: member_def plain_paths [THEN plain_member_path] demo_pack_def is_file_def)

lemma hash_reads_all: "seen + left \<le> max_bytes \<Longrightarrow> left \<le> remaining \<Longrightarrow> hash_reads left seen max_bytes remaining = (None, remaining - left)"
proof (induction left arbitrary: seen remaining rule: less_induct)
  case (less left)
  obtain c where c: "c \<le> left" "c = 0 \<longleftrightarrow> left = 0"
    "hash_reads left seen max_bytes remaining =
      (if c = 0 then (None, remaining) else if max_bytes < seen + c then (Some FileSizeLimitExceeded, remaining)
       else if remaining < c then (Some HashReadBudgetExceeded, remaining) else hash_reads (left - c) (seen + c) max_bytes (remaining - c))"
    by (rule hash_reads_step)
  with less.IH [of "left - c" "seen + c" "remaining - c"] less.prems show ?case unfolding c(3) by (cases "c = 0") auto
qed

lemma hash_entry_same:
  assumes "pe_sha256 e = sha256_bytes env b" "pe_size e = PNone" "length b \<le> 1000" "1000 \<le> remaining"
  shows "hash_entry env e (File b) c remaining = Inr (False, c, remaining - length b)"
proof -
  have "1000 \<le> file_limit (pe_path e)" "\<And>l. json_limit (pe_path e) = Some l \<Longrightarrow> 1000 \<le> l"
    by (auto simp: file_limit_def json_limit_def Let_def MAX_PACKAGE_FILE_BYTES_def MAX_EVENT_CHAIN_TOTAL_BYTES_def MAX_METADATA_JSON_BYTES_def
        MAX_ARTIFACT_INDEX_JSON_BYTES_def MAX_CONTRACTS_JSON_BYTES_def split: if_splits option.splits)
  moreover have "sha256_file env (file_limit (pe_path e)) (File b) remaining = (Inr (sha256_bytes env b), remaining - length b)"
    using hash_reads_all [of 0 "length b" "file_limit (pe_path e)" remaining] assms(3,4) calculation by (simp add: sha256_file_def)
  ultimately show ?thesis using assms
    by (fastforce simp: hash_entry_def Let_def node_size_def size_differs_def MAX_PACKAGE_FILE_BYTES_def MAX_EVENT_CHAIN_TOTAL_BYTES_def note_if_def
        split: option.split)
qed

section \<open>The verification of the pack\<close>

text \<open>What the pack as a whole is checked against.\<close>

abbreviation demo_ce :: chain_expectations where
  "demo_ce \<equiv> expectations_of demo_chain_env (Some [(PStr ''ticket_id'', PStr ''T1'')]) (Some ''T1'')
     \<lparr>cn_state_machine = None, cn_execution_model = None, cn_completion_receipt = None\<rparr>"

lemma demo_pack_chain_end:
  "chain_end demo_chain_env demo_ce (chain_event demo_chain_env demo_ce demo_chain_event (init_chain demo_ce)) = ([], pc_render mk_collector)"
  unfolding demo_chain_event_text by code_simp

lemma demo_sorted:
  "sort_key fst [(''events.jsonl'', a :: node), (''metadata.json'', b)] = [(''events.jsonl'', a), (''metadata.json'', b)]"
  "sort_key fst [(''manifest.json'', a :: node), (''ticket'', b)] = [(''manifest.json'', a), (''ticket'', b)]"
  "sort_key fst [(''manifest.json'', c), (''events.jsonl'', a :: node), (''metadata.json'', b)] = [(''events.jsonl'', a), (''manifest.json'', c), (''metadata.json'', b)]"
  by code_simp+

lemma demo_walk: "walk_entries [([], demo_pack nested)] 0 =
  ([([''manifest.json''], Kind_file), ([''ticket'', ''events.jsonl''], Kind_file)]
    @ (if nested then [([''ticket'', ''manifest.json''], Kind_file)] else []) @ [([''ticket'', ''metadata.json''], Kind_file)], Walk_complete)"
  by (cases nested) (simp_all add: demo_pack_def demo_sorted MAX_PACKAGE_ENTRY_COUNT_def entry_kind_def is_folder_def Let_def del: sort_key_simps)

lemma demo_extra: "extra_files (demo_pack nested) demo_entries c = c"
  by (cases nested) (simp_all add: extra_files_def demo_walk Let_def extra_file_def note_if_def demo_entries_def MANIFEST_NAME_def EVENTS_REL_def METADATA_REL_def del: walk_entries.simps)

lemma demo_file_list: "manifest_file_list demo_manifest_dict c =
   ([PDict [(PStr ''path'', PStr EVENTS_REL), (PStr ''sha256'', PStr (demo_hash demo_chain_line))],
     PDict [(PStr ''path'', PStr METADATA_REL), (PStr ''sha256'', PStr (demo_hash demo_metadata))]], c)"
  by (simp add: manifest_file_list_def demo_manifest_dict_def manifest_fields_def pget_def dict_get_or_def MAX_MANIFEST_FILE_ENTRIES_def pair_json_def note_if_def)

lemma demo_read_entries: "manifest_entries 1 (fst (manifest_file_list demo_manifest_dict c)) {} c = (demo_entries, c)"
  by (simp add: demo_file_list read_entry_def pget_def dict_get_or_def as_dict_def demo_entries_def EVENTS_REL_def METADATA_REL_def)

lemma demo_check: "\<exists>r. check_entries demo_chain_env (demo_pack nested) demo_entries c MAX_PACKAGE_HASH_READ_BYTES = Inr (False, c, r)"
  using demo_line_length demo_pack_texts(2)
  by (simp add: demo_entries_def check_entry_def demo_members hash_entry_same demo_hash_def MAX_PACKAGE_HASH_READ_BYTES_def)

lemma demo_digest_ok: "digest_problem demo_chain_env demo_manifest_dict demo_entries c = c"
  by (simp add: digest_problem_def demo_manifest_dict_def manifest_fields_def pget_def dict_get_or_def note_if_def demo_digest)

lemma demo_body: "pack_body demo_chain_env (demo_pack nested) mf demo_manifest_dict key False = Inr mk_collector"
proof -
  obtain r where r: "check_entries demo_chain_env (demo_pack nested) demo_entries mk_collector MAX_PACKAGE_HASH_READ_BYTES = Inr (False, mk_collector, r)"
    using demo_check by blast
  have entries: "(case manifest_file_list demo_manifest_dict mk_collector of (vs, c1) \<Rightarrow> f (manifest_entries 1 vs {} c1)) = f (demo_entries, mk_collector)" for f
    using demo_read_entries [of mk_collector] by (simp add: demo_file_list)
  have sig: "signature_part demo_chain_env demo_manifest_dict (demo_pack nested) mf key False c = Inr c" for c
    by (simp add: signature_part_def Let_def optional_file_def demo_members note_if_def)
  have ticket: "manifest_ticket demo_manifest_dict c = (Some ''T1'', c)" for c
    by (simp add: manifest_ticket_def demo_manifest_dict_def manifest_fields_def pget_def dict_get_or_def ticket_id_of_def note_if_def)
  have metadata: "metadata_part demo_chain_env (demo_pack nested) c = Inr (Some [(PStr ''ticket_id'', PStr ''T1'')], Some ''T1'', c)" for c
    by (simp add: metadata_part_def demo_members demo_loads(2) MAX_METADATA_JSON_BYTES_def pget_def dict_get_or_def ticket_id_of_def note_if_def)
  have rest: "contract_part demo_chain_env (demo_pack nested) c = Inr (\<lparr>cn_state_machine = None, cn_execution_model = None, cn_completion_receipt = None\<rparr>, c)"
    "verifications_part demo_chain_env (demo_pack nested) t c = Inr c" for t c
    by (simp_all add: contract_part_def verifications_part_def demo_members)
  have chain: "verify_event_chain demo_chain_env demo_ce (chain_file_of (File demo_chain_line)) = Inr ([], pc_render mk_collector)"
    using demo_chain_result [of demo_ce False] by (simp add: chain_file_of_def demo_chain_file_def demo_pack_chain_end)
  have events: "events_part demo_chain_env (demo_pack nested) demo_ce False r mk_collector = Inr mk_collector"
    by (simp add: events_part_def demo_members chain verify_artifact_binding_def Let_def) code_simp
  show ?thesis unfolding pack_body_def Let_def entries
    by (simp add: r demo_extra demo_digest_ok sig ticket metadata rest note_if_def events)
qed

lemma demo_pack_accepted: "pack_accepted demo_chain_env (demo_pack nested) key False"
proof -
  have "br_values (pc_render mk_collector) = []" by code_simp
  then show ?thesis
    by (simp add: pack_accepted_def verify_pack_def demo_members demo_loads(1) MAX_MANIFEST_JSON_BYTES_def demo_body)
qed

lemma demo_manifest_loaded: "loaded_manifest demo_chain_env (demo_pack nested) (File demo_manifest) demo_manifest_dict"
  by (simp add: loaded_manifest_def demo_members demo_loads(1) MAX_MANIFEST_JSON_BYTES_def)

text \<open>The pack with the nested file that no entry lists is accepted as well.\<close>

theorem accepted_pack_witness:
  "node_at (demo_pack True) [''ticket'', ''manifest.json''] = Some (File ''unlisted'')
     \<and> (\<exists>mf manifest. loaded_manifest demo_chain_env (demo_pack True) mf manifest \<and> files_verified demo_chain_env (demo_pack True) manifest)"
  using accepted_pack [OF demo_pack_accepted [of True None]] by (auto simp: demo_pack_def)

lemma demo_hash_inj: "inj_on (pk_sha256 demo_chain_env) (hashed_texts demo_chain_env (demo_pack nested) demo_manifest_dict)"
proof -
  have es: "manifest_entry_list demo_manifest_dict = demo_entries"
    using demo_read_entries [of mk_collector] by (simp add: manifest_entry_list_def)
  have "hashed_texts demo_chain_env (demo_pack nested) demo_manifest_dict \<subseteq> {digest_text demo_chain_env demo_entries, demo_chain_line, demo_metadata}"
    by (auto simp: hashed_texts_def listed_files_def es demo_entries_def demo_members)
  moreover have "inj_on (pk_sha256 demo_chain_env) {digest_text demo_chain_env demo_entries, demo_chain_line, demo_metadata}"
  proof -
    have "demo_hash (digest_text demo_chain_env demo_entries) = ''5b7b2270617468223a227469636b65742f6576656e74732e6a736f6e6c222c22''"
      using demo_digest by (simp add: pack_digest_def demo_hash_def)
    then have "inj_on demo_hash {digest_text demo_chain_env demo_entries, demo_chain_line, demo_metadata}" using demo_hashes by (auto simp: inj_on_def)
    moreover have "demo_hash = hex_of \<circ> pk_sha256 demo_chain_env" by (auto simp: demo_hash_def sha256_bytes_def)
    ultimately show ?thesis by (metis inj_on_imageI2)
  qed
  ultimately show ?thesis by (rule inj_on_subset [rotated])
qed

lemma demo_hashed_same: "hashed_texts demo_chain_env (demo_pack True) demo_manifest_dict = hashed_texts demo_chain_env (demo_pack False) demo_manifest_dict"
proof -
  have es: "manifest_entry_list demo_manifest_dict = demo_entries"
    using demo_read_entries [of mk_collector] by (simp add: manifest_entry_list_def)
  show ?thesis by (auto simp: hashed_texts_def listed_files_def es demo_entries_def demo_members)
qed

theorem equal_pack_digests_witness:
  "demo_pack True \<noteq> demo_pack False \<and> listed_files (demo_pack True) demo_manifest_dict = listed_files (demo_pack False) demo_manifest_dict"
  using equal_pack_digests [OF demo_pack_accepted [of True None] demo_manifest_loaded demo_pack_accepted [of False None] demo_manifest_loaded refl]
    demo_hash_inj [of False] by (simp add: demo_hashed_same) (simp add: demo_pack_def)

text \<open>The same pack passes without the option.\<close>

theorem unsigned_pack_fails_witness:
  "main demo_chain_env (\<lambda>path. if path = ''p'' then Some (demo_pack False) else None) [''p''] = Inr 0
     \<and> main demo_chain_env (\<lambda>path. if path = ''p'' then Some (demo_pack False) else None) [''--require-signature'', ''p''] \<noteq> Inr 0
     \<and> main demo_chain_env (\<lambda>path. if path = ''p'' then Some (demo_pack False) else None)
         [''--public-key'', replicate 64 (CHR ''a''), ''--require-signature'', ''p''] \<noteq> Inr 0"
proof (intro conjI)
  let ?lookup = "\<lambda>path. if path = ''p'' then Some (demo_pack False) else None"
  have unsigned: "optional_file pack SIGNATURE_NAME = None" if "?lookup path = Some pack" for path pack
    using that by (auto simp: optional_file_def demo_members split: if_splits)
  have "parse_args [''p''] opts = (if op_pack opts = None then Some (opts\<lparr>op_pack := Some ''p''\<rparr>) else None)" for opts
    by (simp add: starts_with_def)
  then show "main demo_chain_env ?lookup [''p''] = Inr 0"
    using demo_pack_accepted [of False None] by (auto simp: main_def pack_accepted_def split: sum.splits)
  show "main demo_chain_env ?lookup [''--require-signature'', ''p''] \<noteq> Inr 0"
    by (rule unsigned_pack_fails [OF _ _ unsigned, of _ "[]" "[''p'']"]) simp_all
  show "main demo_chain_env ?lookup [''--public-key'', replicate 64 (CHR ''a''), ''--require-signature'', ''p''] \<noteq> Inr 0"
    by (rule unsigned_pack_fails [OF _ _ unsigned, of _ "[''--public-key'', replicate 64 (CHR ''a'')]" "[''p'']"]) (simp_all add: numeral_eq_Suc)
qed

end
