(* ===== verification/Spec2Isabelle.thy ===== *)
theory Spec2Isabelle
  imports Agent_Team Leased_Connect Autonomy Json_Load Json_Canon Pack_Ed25519 Pack_Demo
begin

text \<open>
  A verification development for ICODE, the agent of the Python package \<^verbatim>\<open>src/icode\<close>: the control logic that decides what
  agents may do, who may write where, which network destinations are reachable, how autonomous runs
  are started, stopped and retried, and when an evidence pack of a ticket is accepted.

  \<^bold>\<open>How the parts interact.\<close> A step of a ticket is worked on by a team of agents (\<^verbatim>\<open>multi_agent.py\<close>). The team spawns
  identities from a registry of roles (\<^verbatim>\<open>roles.py\<close>), derives for each agent a sandbox policy and a guard scope
  (\<^verbatim>\<open>agent_scope.py\<close> over \<^verbatim>\<open>sandbox_policy.py\<close> and \<^verbatim>\<open>guard.py\<close>), takes a region lease for the one agent that writes
  (\<^verbatim>\<open>write_lease.py\<close>) and records conclusions in a ledger (\<^verbatim>\<open>agent_conclusion.py\<close>) from which the gate of the step is
  computed. Network access is granted by an authority that signs leases after an approval and tracks the connections made
  under them (\<^verbatim>\<open>network_lease.py\<close>, \<^verbatim>\<open>approvals.py\<close>); a CONNECT request is parsed (\<^verbatim>\<open>connect_request.py\<close>), resolved to
  public addresses (\<^verbatim>\<open>network_destination.py\<close>) and held against the lease before and after the query (\<^verbatim>\<open>leased_connect.py\<close>).
  Tickets (\<^verbatim>\<open>tickets.py\<close>) are run autonomously by a manager of worker threads (\<^verbatim>\<open>autonomy.py\<close>) that decides about failures by
  \<^verbatim>\<open>failure_policy.py\<close>. What happened to a ticket is handed on as an evidence pack, a directory that \<^verbatim>\<open>pack_verify.py\<close> (and its copy
  \<^verbatim>\<open>tools/verify_evidence_pack.py\<close>) checks without trusting its writer: the listed files and their digests, the signature, the hash
  chain of events, and the replays of the events against state machine, execution model, completion receipt, root binding and metadata.

  \<^bold>\<open>Conventions.\<close> A Python function is a HOL function of the same name (without leading underscores); one that can raise
  returns \<open>exc + 'a\<close>; one that changes state returns the result and the new state. A record is a dataclass or
  the attributes of a class. A parameter the code declares as \<^verbatim>\<open>object\<close>, or whose type it tests, is a \<open>pyval\<close>. What a
  section under a lock does is one function, and concurrent use is an inductive step relation whose steps are these
  sections. Strings are over the code points 0 to 255. Chinese message texts are left out or are constructors
  of a datatype; stable codes and English messages are kept. Not under \<^verbatim>\<open>src/\<close> and therefore arguments of the definitions
  are: the hashes and the HMAC, the texts of floats, the recursion limit of the interpreter, path resolution and lock calls of
  the operating system, clocks and random tokens, DNS answers,
  approvers, callbacks, the executor of a run, and the control plane (the submodule \<^verbatim>\<open>vendor/icode-skill\<close>).

  \<^bold>\<open>Theories.\<close>
  \<^item> \<open>Py_Prelude\<close>, \<open>Py_Dyn\<close>, \<open>Py_Regex\<close>, \<open>Py_Json\<close>, \<open>Py_Ip\<close>, \<open>Py_Ip_Text\<close>: the Python used by the code: results, strings, insertion-ordered
    dictionaries, POSIX paths, dynamic values, regular expressions with an executable matcher proved equal to its
    relation, canonical JSON with its injectivity, and \<^verbatim>\<open>ipaddress\<close> with the round trip of its texts.
  \<^item> \<open>Roles\<close>: role table, identities, registry (locale \<open>identity_issuer\<close>, interpreted on it): identifiers are distinct, stay bound and
    parse back; only executors write; two roles never conclude the same kind.
  \<^item> \<open>Write_Lease\<close>: regions, the board of a process and the lock files: whatever is requested, held regions are disjoint within a
    process (which has one board) and different across processes; a grant followed by its release restores everything; a refusal names
    the first overlapping holder, or no holder when the region is held by another process.
  \<^item> \<open>Sandbox_Policy\<close>, \<open>Guard\<close>, \<open>Agent_Scope\<close>: validation, wire format, hash and tightening of policies; commands and paths the
    guard allows; the policy and scope of a role. Tightening is a preorder on permissions: no chain of it grants anything new.
  \<^item> \<open>Agent_Conclusion\<close>, \<open>Agent_Team\<close>: bounded append-only ledger; runs of agents, which leave no lease behind however they end;
    the gate opens exactly when every required role completed with evidence, and stays open.
  \<^item> \<open>Network_Lease\<close>, \<open>Approvals\<close>, \<open>Network_Authority\<close>: leases, their approval and signature, generations of a scope (locale
    \<open>epoch_authority\<close>), connections, sweeps, revocation and the monitor, with the critical sections as steps \<open>auth_step\<close> and the
    invariant \<open>auth_inv\<close>. An operation with several sections takes what the other threads do between them as an argument (the
    record \<open>meanwhile\<close>), which the theorems only assume to be steps (\<open>honest\<close>).
  \<^item> \<open>Connect_Request\<close>, \<open>Network_Destination\<close>, \<open>Leased_Connect\<close>: the exact language of accepted heads; every target is public and
    pinned; revocation during DNS prevents the answer.
  \<^item> \<open>Failure_Policy\<close>, \<open>Tickets\<close>, \<open>Autonomy\<close>: the decision about a failure; validation and public projection of tickets; intents,
    receipts, workers, safe points, shutdown and recovery of any number of managers in a process as steps \<open>sys_step\<close>, with
    the registry invariant \<open>worker_inv\<close>; what the stored run becomes from write to write as \<open>run_rewritten\<close> and \<open>run_becomes\<close>.
  \<^item> \<open>Py_Text\<close>, \<open>Json_Load\<close>, \<open>Json_Canon\<close>: UTF-8 and its decoder, hexadecimal texts, the scanner of \<^verbatim>\<open>json.loads\<close> with the hooks and budgets
    of the verifier, the round trip of printed values, and what a canonical text determines.
  \<^item> \<open>Pack_Report\<close>, \<open>Pack_Events\<close>, \<open>Pack_State\<close>, \<open>Pack_Execution\<close>, \<open>Pack_Binding\<close>, \<open>Pack_Chain\<close>: bounded problem reports; the schema, the hash and the
    mirrors of events; the replays; the pass over the event file. The locale \<open>reporting_pass\<close> is the contract of a pass that only ever
    adds problems, interpreted for the pass over the events, the leftover mirrors, the unlisted files and the artifacts without a
    snapshot, so that an empty report is an empty report of every step. The theorems turn it into facts about the events.
  \<^item> \<open>Pack_Engineering\<close>, \<open>Pack_Ed25519\<close>, \<open>Pack_Signature\<close>: engineering receipts; curve arithmetic and signatures; the signature record and the anchors.
  \<^item> \<open>Pack_Files\<close>, \<open>Pack_Verify\<close>, \<open>Pack_Accept\<close>, \<open>Pack_Demo\<close>: the directory as a static tree, its bounded readers and its walk; the whole verification
    and the exit code; what an accepted pack is, and that its digest identifies it; a concrete accepted pack.

  \<^bold>\<open>Bounds.\<close> No definition uses fuel except the regular-expression matcher, whose star needs at most as many rounds as there are
  characters left (proved against the relation). The loop of \<^verbatim>\<open>_load_metadata\<close> carries its own five attempts. The JSON scanner
  recurses on the nesting the interpreter allows, a parameter, and raises RecursionError beyond it. The readers and the hash end because
  each chunk is not empty (the bytes left decrease), the walk because a directory on the stack is replaced by its parts. Doubles are
  exact rationals or the special values; \<^verbatim>\<open>float(int)\<close> rounds to 53 bits and overflows as Python does. Addresses are 32 and
  128 bit words; their special-purpose ranges are those of Python 3.12.4.

  \<^bold>\<open>Not modelled.\<close> Everything that is a call of an operating system, a browser or a model service: \<^verbatim>\<open>runner.py\<close>, \<^verbatim>\<open>isolation.py\<close>,
  \<^verbatim>\<open>workspace.py\<close>, the \<^verbatim>\<open>linux_*\<close> and \<^verbatim>\<open>windows_*\<close> helpers, backends, user interfaces and scripts. Within modelled files: the
  texts shown to people (in reports of the pack verifier also the cut of a message to 512 characters), code points above 255, \<^verbatim>\<open>run_parallel\<close> of
  the team, the native chain executor, ticket creation and the snapshot. The tree of a pack does not change while it is verified, and
  a file that exists has a size; a reparse point is a link. Left for later are the writer of packs (\<^verbatim>\<open>evidence.py\<close>, \<^verbatim>\<open>pack_signing.py\<close>), operation
  receipts, budget and routing, the deliberation loop, compaction, checkpoints, the step contracts and chain,
  and the network connector and proxy scope on top of the authority.
\<close>

end
